(* ===== verification/Prelude.thy ===== *)
theory Prelude
  imports Main "HOL-Library.Word"
begin

text \<open>
  Shared vocabulary of the development: machine-integer widths, byte buffers, the two
  result types every component returns (\<open>res\<close> for code that only computes or reads,
  \<open>io\<close> for code that writes the target or the journal), loops over lists in both, and
  the list lemmas the components share.

  Unsigned C integers are natural numbers; wherever C arithmetic can leave the range of
  its type the wrap-around is written with \<open>u8\<close>, \<open>u16\<close>, \<open>u32\<close>, \<open>u64\<close> (reduction
  modulo the width) and \<open>sub32\<close> (32-bit subtraction). Bytes are \<open>8 word\<close>.
\<close>

unbundle bit_operations_syntax

named_theorems res_simps \<open>rewriting with the result monads\<close>
named_theorems width_simps \<open>removing a reduction to a C width from a value that fits\<close>
named_theorems buf_simps \<open>reads and writes of byte buffers\<close>

section \<open>Machine integers\<close>

type_synonym byte = "8 word"
type_synonym bytes = "byte list"

abbreviation UINT32_MAX :: nat where "UINT32_MAX \<equiv> 4294967295"
abbreviation UINT64_MAX :: nat where "UINT64_MAX \<equiv> 18446744073709551615"
abbreviation SIZE_MAX :: nat where "SIZE_MAX \<equiv> 18446744073709551615"
abbreviation SSIZE_MAX :: nat where "SSIZE_MAX \<equiv> 9223372036854775807"

definition u8 :: "nat \<Rightarrow> nat" where "u8 n = n mod 256"
definition u16 :: "nat \<Rightarrow> nat" where "u16 n = n mod 65536"
definition u32 :: "nat \<Rightarrow> nat" where "u32 n = n mod 4294967296"
definition u64 :: "nat \<Rightarrow> nat" where "u64 n = n mod 18446744073709551616"
definition sub32 :: "nat \<Rightarrow> nat \<Rightarrow> nat" where
  "sub32 a b = (a + (4294967296 - b mod 4294967296)) mod 4294967296"

text \<open>The same for 64 bits.\<close>

definition sub64 :: "nat \<Rightarrow> nat \<Rightarrow> nat" where
  "sub64 a b = (a + (18446744073709551616 - b mod 18446744073709551616)) mod 18446744073709551616"

lemma u8_id [width_simps]: "n < 256 \<Longrightarrow> u8 n = n"
  by (simp add: u8_def)

lemma u16_id [width_simps]: "n < 65536 \<Longrightarrow> u16 n = n"
  by (simp add: u16_def)

lemma u32_id [width_simps]: "n < 4294967296 \<Longrightarrow> u32 n = n"
  by (simp add: u32_def)

lemma u64_id [width_simps]: "n < 18446744073709551616 \<Longrightarrow> u64 n = n"
  by (simp add: u64_def)

lemma u16_less [simp]: "u16 n < 65536"
  by (simp add: u16_def)

lemma u32_less [simp]: "u32 n < 4294967296"
  by (simp add: u32_def)

lemma sub32_id [width_simps]: "b \<le> a \<Longrightarrow> a < 4294967296 \<Longrightarrow> sub32 a b = a - b"
proof -
  assume ab: "b \<le> a" "a < 4294967296"
  then have "a + (4294967296 - b mod 4294967296) = (a - b) + 4294967296"
    by simp
  then have "sub32 a b = (a - b) mod 4294967296"
    unfolding sub32_def by (metis mod_add_self2)
  with ab show ?thesis by simp
qed

lemma sub64_id: "b \<le> a \<Longrightarrow> a \<le> UINT64_MAX \<Longrightarrow> sub64 a b = a - b"
  by (auto simp: sub64_def mod_if)

text \<open>Masking with a run of ones is a remainder.\<close>

lemma nat_and_mask: "(n::nat) AND mask k = n mod 2 ^ k"
  by (simp add: take_bit_eq_mask [symmetric] take_bit_eq_mod)

lemma nat_and_0x0FFF [simp]: "(n::nat) AND 4095 = n mod 4096"
  using nat_and_mask [of n 12] by (simp add: mask_eq_exp_minus_1)

lemma nat_and_0xFFFF [simp]: "(n::nat) AND 65535 = n mod 65536"
  using nat_and_mask [of n 16] by (simp add: mask_eq_exp_minus_1)

lemma nat_and_0x0FFFFFFF [simp]: "(n::nat) AND 268435455 = n mod 268435456"
  using nat_and_mask [of n 28] by (simp add: mask_eq_exp_minus_1)

lemma nat_and_0x000F [simp]: "(n::nat) AND 15 = n mod 16"
  using nat_and_mask [of n 4] by (simp add: mask_eq_exp_minus_1)

lemma nat_and_1: "(n::nat) AND 1 = n mod 2"
  using nat_and_mask [of n 1] by (simp add: mask_eq_exp_minus_1)

lemma nat_and_shifted_mask:
  "(n::nat) AND push_bit k (mask j) = push_bit k ((n div 2 ^ k) mod 2 ^ j)"
proof -
  have "n AND push_bit k (mask j) = push_bit k (drop_bit k n AND mask j)"
    by (rule bit_eqI) (auto simp: bit_and_iff bit_push_bit_iff bit_drop_bit_eq)
  then show ?thesis by (simp add: nat_and_mask drop_bit_eq_div)
qed

lemma nat_and_0xF000: "(n::nat) AND 61440 = 4096 * ((n div 4096) mod 16)"
  using nat_and_shifted_mask [of n 12 4] by (simp add: push_bit_eq_mult mask_eq_exp_minus_1)

lemma nat_and_0xF0000000: "(n::nat) AND 4026531840 = 268435456 * ((n div 268435456) mod 16)"
  using nat_and_shifted_mask [of n 28 4] by (simp add: push_bit_eq_mult mask_eq_exp_minus_1)

text \<open>An \<open>OR\<close> of a multiple of a power of two and something below it is a sum.\<close>

lemma nat_or_disjoint:
  assumes "(b::nat) < 2 ^ k"
  shows "(2 ^ k * a) OR b = 2 ^ k * a + b"
proof -
  have low: "\<not> (k \<le> i \<and> bit b i)" for i
    using assms by (metis bit_take_bit_iff take_bit_nat_eq_self leD)
  have "(push_bit k a) AND b = 0"
    by (rule bit_eqI) (use low in \<open>auto simp: bit_and_iff bit_push_bit_iff\<close>)
  then have "push_bit k a + b = push_bit k a OR b"
    by (rule disjunctive_add_eq_or)
  then show ?thesis by (simp add: push_bit_eq_mult mult.commute)
qed

section \<open>Results of fallible code\<close>

text \<open>
  \<open>ld_die\<close> and \<open>ld_die_errno\<close> print a message and end the process; \<open>ExitFailure\<close> is a
  direct \<open>exit(EXIT_FAILURE)\<close>. \<open>Fail\<close> is the convention of the NTFS engine: a message is
  left for the caller and \<open>-1\<close> returned. \<open>MemFault\<close> marks a read or write outside a C array,
  which C leaves undefined: a model that reaches it says so.
\<close>

datatype fault = Die string | DieErrno string | ExitFailure string | Fail string | MemFault string

type_synonym 'a res = "fault + 'a"

fun bindE :: "'e + 'a \<Rightarrow> ('a \<Rightarrow> 'e + 'b) \<Rightarrow> 'e + 'b" where
  "bindE (Inl e) f = Inl e"
| "bindE (Inr x) f = f x"

definition die_if :: "bool \<Rightarrow> 'e \<Rightarrow> 'e + unit" where
  "die_if b e = (if b then Inl e else Inr ())"

lemma bindE_Inr_iff [res_simps]: "bindE m f = Inr y \<longleftrightarrow> (\<exists>x. m = Inr x \<and> f x = Inr y)"
  by (cases m) auto

lemma bindE_Inl_iff: "bindE m f = Inl e \<longleftrightarrow> m = Inl e \<or> (\<exists>x. m = Inr x \<and> f x = Inl e)"
  by (cases m) auto

lemma relabel_Inr [res_simps]:
  "(case m of Inl e \<Rightarrow> Inl (f e) | Inr x \<Rightarrow> Inr x) = Inr y \<longleftrightarrow> m = Inr y"
  by (cases m) auto

lemma die_if_Inr [res_simps]: "die_if b e = Inr u \<longleftrightarrow> \<not> b"
  by (simp add: die_if_def)

lemma die_if_False [simp]: "die_if False e = Inr ()"
  by (simp add: die_if_def)

lemma die_if_True [simp]: "die_if True e = Inl e"
  by (simp add: die_if_def)

lemma bindE_cong [fundef_cong]:
  "m = m' \<Longrightarrow> (\<And>x. m' = Inr x \<Longrightarrow> f x = g x) \<Longrightarrow> bindE m f = bindE m' g"
  by (cases m') auto

text \<open>
  \<open>okE Q m\<close>: if \<open>m\<close> succeeds, its value satisfies \<open>Q\<close>. The rules \<open>okE_intros\<close> walk
  through a definition and keep every intermediate value as a variable with its equation.
\<close>

definition okE :: "('a \<Rightarrow> bool) \<Rightarrow> 'e + 'a \<Rightarrow> bool" where
  "okE Q m = (case m of Inl e \<Rightarrow> True | Inr x \<Rightarrow> Q x)"

lemma okE_D: "okE Q m \<Longrightarrow> m = Inr x \<Longrightarrow> Q x"
  by (simp add: okE_def)

lemma okE_I: "(\<And>x. m = Inr x \<Longrightarrow> Q x) \<Longrightarrow> okE Q m"
  by (simp add: okE_def split: sum.split)

lemma okE_Inl: "okE Q (Inl e)"
  by (simp add: okE_def)

lemma okE_Inr: "Q x \<Longrightarrow> okE Q (Inr x)"
  by (simp add: okE_def)

lemma okE_if: "(b \<Longrightarrow> okE Q m) \<Longrightarrow> (\<not> b \<Longrightarrow> okE Q n) \<Longrightarrow> okE Q (if b then m else n)"
  by simp

lemma okE_Let: "(\<And>x. x = t \<Longrightarrow> okE Q (f x)) \<Longrightarrow> okE Q (Let t f)"
  by simp

lemma okE_die: "(\<not> b \<Longrightarrow> okE Q (f ())) \<Longrightarrow> okE Q (bindE (die_if b e) f)"
  by (simp add: okE_def die_if_def)

lemma okE_bind: "okE (\<lambda>x. okE Q (f x)) m \<Longrightarrow> okE Q (bindE m f)"
  by (cases m) (simp_all add: okE_def)

lemma okE_bind_eq: "(\<And>x. m = Inr x \<Longrightarrow> okE Q (f x)) \<Longrightarrow> okE Q (bindE m f)"
  by (cases m) (simp_all add: okE_def)

lemma okE_prod: "(\<And>a b. p = (a, b) \<Longrightarrow> okE Q (f a b)) \<Longrightarrow> okE Q (case p of (a, b) \<Rightarrow> f a b)"
  by (cases p) simp

lemma okE_pair: "okE Q (f a b) \<Longrightarrow> okE Q (case (a, b) of (x, y) \<Rightarrow> f x y)"
  by simp

lemmas okE_intros = okE_Inl okE_Inr okE_if okE_Let okE_die

text \<open>Access to a C array that a model cannot show to be in range.\<close>

definition array_get :: "string \<Rightarrow> 'a list \<Rightarrow> nat \<Rightarrow> 'a res" where
  "array_get what xs i = (if i < length xs then Inr (xs ! i) else Inl (MemFault what))"

definition array_set :: "string \<Rightarrow> 'a list \<Rightarrow> nat \<Rightarrow> 'a \<Rightarrow> 'a list res" where
  "array_set what xs i x = (if i < length xs then Inr (xs[i := x]) else Inl (MemFault what))"

lemma array_get_Inr [res_simps]: "array_get what xs i = Inr x \<longleftrightarrow> i < length xs \<and> x = xs ! i"
  by (auto simp: array_get_def)

lemma array_set_Inr [res_simps]: "array_set what xs i x = Inr ys \<longleftrightarrow> i < length xs \<and> ys = xs[i := x]"
  by (auto simp: array_set_def)

text \<open>A C loop over a list of items (or of indices) with early exit on error.\<close>

fun foldE :: "('a \<Rightarrow> 's \<Rightarrow> 'e + 's) \<Rightarrow> 'a list \<Rightarrow> 's \<Rightarrow> 'e + 's" where
  "foldE f [] s = Inr s"
| "foldE f (x # xs) s = bindE (f x s) (foldE f xs)"

lemma foldE_append: "foldE f (xs @ ys) s = bindE (foldE f xs s) (foldE f ys)"
  by (induction xs arbitrary: s) (auto simp: bindE_Inr_iff, case_tac "f a s", auto)

lemma bindE_return [simp]: "bindE m Inr = m"
  by (cases m) simp_all

lemma foldE_snoc: "foldE f (xs @ [x]) s = bindE (foldE f xs s) (f x)"
proof -
  have "foldE f [x] a = f x a" for a by (cases "f x a") simp_all
  then have "foldE f [x] = f x" by (rule ext)
  then show ?thesis by (simp only: foldE_append)
qed

lemma foldE_cong [fundef_cong]:
  "xs = ys \<Longrightarrow> s = t \<Longrightarrow> (\<And>x a. x \<in> set ys \<Longrightarrow> f x a = g x a) \<Longrightarrow> foldE f xs s = foldE g ys t"
proof (induction ys arbitrary: xs s t)
  case Nil
  then show ?case by simp
next
  case (Cons y ys)
  then show ?case by (cases "g y t") auto
qed

lemma foldE_invariant:
  assumes "foldE f xs s = Inr t" "P s"
    and "\<And>x a b. x \<in> set xs \<Longrightarrow> P a \<Longrightarrow> f x a = Inr b \<Longrightarrow> P b"
  shows "P t"
  using assms by (induction xs arbitrary: s) (auto simp: bindE_Inr_iff)

lemma foldE_prefix_invariant:
  assumes "foldE f xs s = Inr t" "P [] s"
    and "\<And>ys x zs a b. xs = ys @ x # zs \<Longrightarrow> P ys a \<Longrightarrow> f x a = Inr b \<Longrightarrow> P (ys @ [x]) b"
  shows "P xs t"
proof -
  have "P (ys @ zs) t" if "xs = ys @ zs" "foldE f zs a = Inr t" "P ys a" for ys zs a
    using that
  proof (induction zs arbitrary: ys a)
    case Nil
    then show ?case by simp
  next
    case (Cons z zs)
    from Cons.prems(2) obtain b where b: "f z a = Inr b" "foldE f zs b = Inr t"
      by (auto simp: bindE_Inr_iff)
    then have "P (ys @ [z]) b" using assms(3) Cons.prems by blast
    with Cons.IH [of "ys @ [z]" b] Cons.prems b show ?case by simp
  qed
  from this [of "[]" xs s] assms show ?thesis by simp
qed

lemma foldE_total:
  assumes "P s" "\<And>x a. x \<in> set xs \<Longrightarrow> P a \<Longrightarrow> \<exists>b. f x a = Inr b \<and> P b"
  shows "\<exists>t. foldE f xs s = Inr t \<and> P t"
  using assms
proof (induction xs arbitrary: s)
  case Nil
  then show ?case by simp
next
  case (Cons x xs)
  obtain b where b: "f x s = Inr b" "P b"
    using Cons.prems(2) [of x s] Cons.prems(1) by auto
  with Cons.IH [of b] Cons.prems(2) show ?case by auto
qed

section \<open>Byte buffers\<close>

text \<open>
  \<open>read_at off len b\<close> is what a read of \<open>len\<close> bytes at \<open>off\<close> returns; \<open>patch b off ys\<close>
  is the buffer after \<open>ys\<close> was stored at \<open>off\<close>.
\<close>

definition read_at :: "nat \<Rightarrow> nat \<Rightarrow> 'a list \<Rightarrow> 'a list" where
  "read_at off len b = take len (drop off b)"

definition patch :: "'a list \<Rightarrow> nat \<Rightarrow> 'a list \<Rightarrow> 'a list" where
  "patch b off ys = take off b @ ys @ drop (off + length ys) b"

lemma length_read_at [buf_simps]: "off + len \<le> length b \<Longrightarrow> length (read_at off len b) = len"
  by (simp add: read_at_def)

lemma nth_read_at [buf_simps]: "off + len \<le> length b \<Longrightarrow> i < len \<Longrightarrow> read_at off len b ! i = b ! (off + i)"
  by (simp add: read_at_def)

lemma length_patch [buf_simps]: "off + length ys \<le> length b \<Longrightarrow> length (patch b off ys) = length b"
  by (simp add: patch_def)

lemma nth_patch:
  "off + length ys \<le> length b \<Longrightarrow> i < length b \<Longrightarrow>
   patch b off ys ! i = (if off \<le> i \<and> i < off + length ys then ys ! (i - off) else b ! i)"
  by (auto simp: patch_def nth_append min_def)

lemma patch_Nil [simp]: "patch b off [] = b"
  by (simp add: patch_def)

lemma read_at_read_at: "i + n \<le> m \<Longrightarrow> read_at i n (read_at off m b) = read_at (off + i) n b"
  unfolding read_at_def drop_take drop_drop take_take by (simp add: min_def add.commute)

lemma read_at_patch_same [buf_simps]:
  "off + length ys \<le> length b \<Longrightarrow> len = length ys \<Longrightarrow> read_at off len (patch b off ys) = ys"
  by (rule nth_equalityI) (simp_all add: buf_simps nth_patch)

lemma read_at_patch_other [buf_simps]:
  "off + length ys \<le> length b \<Longrightarrow> o' + len \<le> length b \<Longrightarrow> o' + len \<le> off \<or> off + length ys \<le> o' \<Longrightarrow>
   read_at o' len (patch b off ys) = read_at o' len b"
  by (rule nth_equalityI) (auto simp: buf_simps nth_patch)

lemma patch_patch_same:
  "off + length ys \<le> length b \<Longrightarrow> length zs = length ys \<Longrightarrow> patch (patch b off ys) off zs = patch b off zs"
  by (rule nth_equalityI) (auto simp: buf_simps nth_patch)

lemma patch_commute:
  "off + length ys \<le> length b \<Longrightarrow> o' + length zs \<le> length b \<Longrightarrow>
   o' + length zs \<le> off \<or> off + length ys \<le> o' \<Longrightarrow>
   patch (patch b off ys) o' zs = patch (patch b o' zs) off ys"
  by (rule nth_equalityI) (auto simp: buf_simps nth_patch)

lemma patch_read_at_id [buf_simps]:
  "off + len \<le> length b \<Longrightarrow> patch b off (read_at off len b) = b"
  by (rule nth_equalityI) (auto simp: buf_simps nth_patch)

lemma patch_eq_list_update: "i < length b \<Longrightarrow> patch b i [y] = b[i := y]"
  by (rule nth_equalityI) (auto simp: buf_simps nth_patch nth_list_update)

section \<open>Lists\<close>

lemma upt_Cons: "i < j \<Longrightarrow> [i..<j] = i # [Suc i..<j]"
  by (simp add: upt_conv_Cons)

lemma distinct_bounded_length:
  "distinct xs \<Longrightarrow> set xs \<subseteq> {a..<b} \<Longrightarrow> length xs \<le> b - a"
  using card_mono [of "{a..<b}" "set xs"] by (simp add: distinct_card)

lemma map_of_zip_in:
  "length xs = length ys \<Longrightarrow> map_of (zip xs ys) x = Some y \<Longrightarrow> \<exists>i < length xs. xs ! i = x \<and> ys ! i = y"
  by (metis in_set_zip map_of_SomeD fst_conv snd_conv)

end
