(* ===== verification/Environment.thy ===== *)
theory Environment
  imports Prelude
begin

text \<open>
  What the engines call but do not own: the primitives of Infiltratr Common (a git
  submodule, not part of the sources) and the kernel. They are the fields of \<open>env\<close>,
  a parameter of every definition that uses them. The predicates at the end of the first
  section state the documented behaviour a theorem may rely on.

  The second section is the world a mutating engine acts on: the bytes of the target, the
  files next to it (the journals), the moment a stop signal arrives, and the sequence of
  durable effects so far. \<open>io\<close> is the type of code that acts on it: it returns a value or
  dies, and in both cases leaves a world behind.
\<close>

section \<open>Code outside the sources\<close>

text \<open>What \<open>fstat\<close> tells of a directory.\<close>

record dir_stat =
  st_is_dir :: bool
  st_uid :: nat
  st_group_or_other_write :: bool
  st_sticky :: bool

record env =
  load_le16 :: "bytes \<Rightarrow> nat"
  load_le32 :: "bytes \<Rightarrow> nat"
  store_le16 :: "nat \<Rightarrow> bytes"
  store_le32 :: "nat \<Rightarrow> bytes"
  load_le64 :: "bytes \<Rightarrow> nat"
  store_le64 :: "nat \<Rightarrow> bytes"
  array_reserve :: "nat \<Rightarrow> nat \<Rightarrow> bool" \<comment> \<open>element size, required length\<close>
  size_add_checked :: "nat \<Rightarrow> nat \<Rightarrow> nat option"
  size_multiply_checked :: "nat \<Rightarrow> nat \<Rightarrow> nat option"
  u64_add_checked :: "nat \<Rightarrow> nat \<Rightarrow> nat option"
  u64_multiply_checked :: "nat \<Rightarrow> nat \<Rightarrow> nat option"
  parse_u64 :: "string \<Rightarrow> nat \<Rightarrow> nat option"
  parse_u64_range :: "string \<Rightarrow> nat \<Rightarrow> nat \<Rightarrow> nat \<Rightarrow> nat option"
  parse_u64_token :: "string \<Rightarrow> nat \<Rightarrow> (nat \<times> string) option" \<comment> \<open>value and the rest of the text\<close>
  config_parse_line :: "string \<Rightarrow> (string \<times> string) option" \<comment> \<open>key and value of an entry line\<close>
  trim_line_end :: "string \<Rightarrow> string"
  path_basename :: "string \<Rightarrow> string"
  pread_full :: "bytes \<Rightarrow> nat \<Rightarrow> nat \<Rightarrow> bytes option" \<comment> \<open>contents, length, offset\<close>
  pwrite_full :: "nat \<Rightarrow> bytes \<Rightarrow> bytes \<Rightarrow> nat \<Rightarrow> bool \<times> bytes" \<comment> \<open>moment, contents, data, offset\<close>
  fsync_ok :: "nat \<Rightarrow> bool"
  file_write_ok :: "nat \<Rightarrow> bool"
  unlink_ok :: "nat \<Rightarrow> bool"
  directory_status :: "string list \<Rightarrow> dir_stat option" \<comment> \<open>what opening, or creating and opening, gives\<close>
  process_euid :: nat
  parse_binary_quantity_u64 :: "string \<Rightarrow> nat option"
  escape_json :: "string \<Rightarrow> string option"
  string_starts_with :: "string \<Rightarrow> string \<Rightarrow> bool" \<comment> \<open>text, prefix\<close>
  copy_string :: "nat \<Rightarrow> string \<Rightarrow> string" \<comment> \<open>size of the buffer\<close>
  u64_add_saturating :: "nat \<Rightarrow> nat \<Rightarrow> nat"
  u64_multiply_saturating :: "nat \<Rightarrow> nat \<Rightarrow> nat"
  load_be16 :: "bytes \<Rightarrow> nat"
  load_be32 :: "bytes \<Rightarrow> nat"

text \<open>Little-endian loads and stores.\<close>

definition endian_ok :: "env \<Rightarrow> bool" where
  "endian_ok E \<longleftrightarrow>
     (\<forall>a b r. load_le16 E (a # b # r) = unat a + 256 * unat b) \<and>
     (\<forall>a b c d r. load_le32 E (a # b # c # d # r) =
        unat a + 256 * unat b + 65536 * unat c + 16777216 * unat d) \<and>
     (\<forall>v. store_le16 E v = [word_of_nat v, word_of_nat (v div 256)]) \<and>
     (\<forall>v. store_le32 E v = [word_of_nat v, word_of_nat (v div 256),
        word_of_nat (v div 65536), word_of_nat (v div 16777216)])"

definition big_endian_ok :: "env \<Rightarrow> bool" where
  "big_endian_ok E \<longleftrightarrow>
     (\<forall>a b r. load_be16 E (a # b # r) = 256 * unat a + unat b) \<and>
     (\<forall>a b c d r. load_be32 E (a # b # c # d # r) =
        16777216 * unat a + 65536 * unat b + 256 * unat c + unat d)"

text \<open>A successful positioned read or write transfers exactly the requested range.\<close>

definition io_exact :: "env \<Rightarrow> bool" where
  "io_exact E \<longleftrightarrow>
     (\<forall>d len off bs. pread_full E d len off = Some bs \<longrightarrow>
        off + len \<le> length d \<and> bs = read_at off len d) \<and>
     (\<forall>t d bs off d'. pwrite_full E t d bs off = (True, d') \<longrightarrow>
        off + length bs \<le> length d \<and> d' = patch d off bs)"

text \<open>The device and the host files answer every request inside the target.\<close>

definition io_reliable :: "env \<Rightarrow> bool" where
  "io_reliable E \<longleftrightarrow> io_exact E \<and>
     (\<forall>d len off. off + len \<le> length d \<longrightarrow> pread_full E d len off \<noteq> None) \<and>
     (\<forall>t d bs off. off + length bs \<le> length d \<longrightarrow> fst (pwrite_full E t d bs off)) \<and>
     (\<forall>t. fsync_ok E t \<and> file_write_ok E t \<and> unlink_ok E t)"

text \<open>Growing an array within the address space succeeds.\<close>

definition reserve_ok :: "env \<Rightarrow> bool" where
  "reserve_ok E \<longleftrightarrow> (\<forall>size n. n \<le> SIZE_MAX \<longrightarrow> array_reserve E size n)"

definition checked_ok :: "env \<Rightarrow> bool" where
  "checked_ok E \<longleftrightarrow>
     (\<forall>a b. size_add_checked E a b = (if a + b \<le> SIZE_MAX then Some (a + b) else None)) \<and>
     (\<forall>a b. size_multiply_checked E a b = (if a * b \<le> SIZE_MAX then Some (a * b) else None))"

text \<open>The same for 64-bit values: two 32-bit halves, the low one first.\<close>

definition endian64_ok :: "env \<Rightarrow> bool" where
  "endian64_ok E \<longleftrightarrow> endian_ok E \<and>
     (\<forall>bs. 8 \<le> length bs \<longrightarrow> load_le64 E bs = load_le32 E bs + 4294967296 * load_le32 E (drop 4 bs)) \<and>
     (\<forall>v. store_le64 E v = store_le32 E v @ store_le32 E (v div 4294967296))"

definition checked64_ok :: "env \<Rightarrow> bool" where
  "checked64_ok E \<longleftrightarrow>
     (\<forall>a b. u64_add_checked E a b = (if a + b \<le> UINT64_MAX then Some (a + b) else None)) \<and>
     (\<forall>a b. u64_multiply_checked E a b = (if a * b \<le> UINT64_MAX then Some (a * b) else None))"

text \<open>Prefixes; a copied string is cut to what fits its buffer with the terminating NUL.\<close>

definition strings_ok :: "env \<Rightarrow> bool" where
  "strings_ok E \<longleftrightarrow> (\<forall>s p. string_starts_with E s p \<longleftrightarrow> take (length p) s = p) \<and>
     (\<forall>size s. copy_string E size s = take (size - 1) s)"

lemma io_exact_read:
  "io_exact E \<Longrightarrow> pread_full E d len off = Some bs \<Longrightarrow> off + len \<le> length d \<and> bs = read_at off len d"
  unfolding io_exact_def by blast

lemma io_exact_write:
  "io_exact E \<Longrightarrow> pwrite_full E t d bs off = (True, d') \<Longrightarrow>
   off + length bs \<le> length d \<and> d' = patch d off bs"
  unfolding io_exact_def by blast

lemma io_reliable_exact: "io_reliable E \<Longrightarrow> io_exact E"
  by (simp add: io_reliable_def)

lemma io_reliable_read:
  "io_reliable E \<Longrightarrow> off + len \<le> length d \<Longrightarrow> pread_full E d len off = Some (read_at off len d)"
  unfolding io_reliable_def by (metis io_exact_read not_None_eq)

lemma io_reliable_write:
  "io_reliable E \<Longrightarrow> off + length bs \<le> length d \<Longrightarrow> pwrite_full E t d bs off = (True, patch d off bs)"
  unfolding io_reliable_def by (metis (full_types) io_exact_write prod.collapse)

lemma io_reliable_host: "io_reliable E \<Longrightarrow> fsync_ok E t \<and> file_write_ok E t \<and> unlink_ok E t"
  by (simp add: io_reliable_def)

lemma load_le16_Cons: "endian_ok E \<Longrightarrow> load_le16 E (a # b # r) = unat a + 256 * unat b"
  by (simp add: endian_ok_def)

lemma load_le32_Cons:
  "endian_ok E \<Longrightarrow> load_le32 E (a # b # c # d # r) =
     unat a + 256 * unat b + 65536 * unat c + 16777216 * unat d"
  by (simp add: endian_ok_def)

lemma store_le16_eq: "endian_ok E \<Longrightarrow> store_le16 E v = [word_of_nat v, word_of_nat (v div 256)]"
  by (simp add: endian_ok_def)

lemma store_le32_eq:
  "endian_ok E \<Longrightarrow> store_le32 E v = [word_of_nat v, word_of_nat (v div 256),
     word_of_nat (v div 65536), word_of_nat (v div 16777216)]"
  by (simp add: endian_ok_def)

lemma unat_byte_less: "unat (b::byte) < 256"
  using unsigned_less [where 'a = nat and w = b] by simp

lemma unat_byte_of_nat: "unat (word_of_nat v :: byte) = v mod 256"
  by (simp add: unat_of_nat)

lemma length_store_le16 [simp]: "endian_ok E \<Longrightarrow> length (store_le16 E v) = 2"
  by (simp add: store_le16_eq)

lemma length_store_le32 [simp]: "endian_ok E \<Longrightarrow> length (store_le32 E v) = 4"
  by (simp add: store_le32_eq)

lemma list_2_cases: "2 \<le> length xs \<Longrightarrow> \<exists>a b r. xs = a # b # r"
  by (cases xs; cases "tl xs") auto

lemma list_4_cases: "4 \<le> length xs \<Longrightarrow> \<exists>a b c d r. xs = a # b # c # d # r"
  by (cases xs; cases "tl xs"; cases "tl (tl xs)"; cases "tl (tl (tl xs))") auto

lemma load_le16_less: "endian_ok E \<Longrightarrow> 2 \<le> length xs \<Longrightarrow> load_le16 E xs < 65536"
proof -
  assume "endian_ok E" "2 \<le> length xs"
  then obtain a b r where "xs = a # b # r" using list_2_cases by blast
  with \<open>endian_ok E\<close> unat_byte_less [of a] unat_byte_less [of b] show ?thesis
    by (simp add: load_le16_Cons)
qed

lemma load_le32_less: "endian_ok E \<Longrightarrow> 4 \<le> length xs \<Longrightarrow> load_le32 E xs < 4294967296"
proof -
  assume "endian_ok E" "4 \<le> length xs"
  then obtain a b c d r where "xs = a # b # c # d # r" using list_4_cases by blast
  with \<open>endian_ok E\<close> unat_byte_less [of a] unat_byte_less [of b] unat_byte_less [of c]
    unat_byte_less [of d] show ?thesis
    by (simp add: load_le32_Cons)
qed

lemma load_store_le16: "endian_ok E \<Longrightarrow> load_le16 E (store_le16 E v @ r) = v mod 65536"
proof -
  assume E: "endian_ok E"
  have "v mod 65536 = v mod 256 + 256 * (v div 256 mod 256)"
    using mod_mult2_eq [of v 256 256] by simp
  with E show ?thesis by (simp add: store_le16_eq load_le16_Cons unat_byte_of_nat)
qed

lemma load_store_le32: "endian_ok E \<Longrightarrow> load_le32 E (store_le32 E v @ r) = v mod 4294967296"
proof -
  assume E: "endian_ok E"
  have "v mod 4294967296 = v mod 256 + 256 * (v div 256 mod 256) +
    65536 * (v div 65536 mod 256) + 16777216 * (v div 16777216 mod 256)"
    using mod_mult2_eq [of v 256 16777216] mod_mult2_eq [of "v div 256" 256 65536]
      mod_mult2_eq [of "v div 65536" 256 256]
    by (simp add: div_mult2_eq [symmetric])
  with E show ?thesis by (simp add: store_le32_eq load_le32_Cons unat_byte_of_nat)
qed

section \<open>The world and effects on it\<close>

text \<open>
  \<open>w_trace\<close> records the durable effects in the order they were issued; \<open>w_stop\<close> is the
  number of stop polls that still find no request (\<open>None\<close>: no signal ever arrives). Once
  a request has arrived every later poll sees it.
\<close>

datatype event =
    EvWrite nat bytes \<comment> \<open>offset in the target and the bytes written\<close>
  | EvSync
  | EvFile string string \<comment> \<open>atomic replacement of a host file\<close>
  | EvUnlink string

record world =
  w_disk :: bytes
  w_files :: "string \<rightharpoonup> string"
  w_stop :: "nat option"
  w_trace :: "event list"

type_synonym 'a io = "world \<Rightarrow> 'a res \<times> world"

definition retI :: "'a \<Rightarrow> 'a io" where
  "retI x w = (Inr x, w)"

definition dieI :: "fault \<Rightarrow> 'a io" where
  "dieI e w = (Inl e, w)"

definition bindI :: "'a io \<Rightarrow> ('a \<Rightarrow> 'b io) \<Rightarrow> 'b io" where
  "bindI m f w = (case m w of (Inl e, w') \<Rightarrow> (Inl e, w') | (Inr x, w') \<Rightarrow> f x w')"

definition thenI :: "unit io \<Rightarrow> 'b io \<Rightarrow> 'b io" where
  "thenI m n = bindI m (\<lambda>_. n)"

text \<open>Code that only computes from the contents of the target.\<close>

definition readI :: "(bytes \<Rightarrow> 'a res) \<Rightarrow> 'a io" where
  "readI f w = (f (w_disk w), w)"

definition die_ifI :: "bool \<Rightarrow> fault \<Rightarrow> unit io" where
  "die_ifI b e = (if b then dieI e else retI ())"

fun foldI :: "('a \<Rightarrow> 's \<Rightarrow> 's io) \<Rightarrow> 'a list \<Rightarrow> 's \<Rightarrow> 's io" where
  "foldI f [] s = retI s"
| "foldI f (x # xs) s = bindI (f x s) (foldI f xs)"

lemma retI_Inr [res_simps]: "retI x w = (Inr y, w') \<longleftrightarrow> y = x \<and> w' = w"
  by (auto simp: retI_def)

lemma retI_Inl [res_simps]: "retI x w \<noteq> (Inl e, w')"
  by (simp add: retI_def)

lemma dieI_Inr [res_simps]: "dieI e w \<noteq> (Inr y, w')"
  by (simp add: dieI_def)

lemma bindI_Inr [res_simps]:
  "bindI m f w = (Inr y, w') \<longleftrightarrow> (\<exists>x v. m w = (Inr x, v) \<and> f x v = (Inr y, w'))"
  by (auto simp: bindI_def split: prod.splits sum.splits)

lemma bindI_Inl:
  "bindI m f w = (Inl e, w') \<longleftrightarrow>
   m w = (Inl e, w') \<or> (\<exists>x v. m w = (Inr x, v) \<and> f x v = (Inl e, w'))"
  by (auto simp: bindI_def split: prod.splits sum.splits)

lemma thenI_Inr [res_simps]:
  "thenI m n w = (Inr y, w') \<longleftrightarrow> (\<exists>v. m w = (Inr (), v) \<and> n v = (Inr y, w'))"
  by (simp add: thenI_def bindI_Inr)

lemma readI_Inr [res_simps]: "readI f w = (Inr y, w') \<longleftrightarrow> f (w_disk w) = Inr y \<and> w' = w"
  by (auto simp: readI_def)

lemma die_ifI_Inr [res_simps]: "die_ifI b e w = (Inr u, w') \<longleftrightarrow> \<not> b \<and> w' = w"
  by (auto simp: die_ifI_def res_simps)

text \<open>What one action does to the world, whether it ends normally or dies.\<close>

lemma bindI_world:
  assumes "snd (m w) = v" "\<And>x. fst (m w) = Inr x \<Longrightarrow> P (snd (f x v))" "\<And>e. fst (m w) = Inl e \<Longrightarrow> P v"
  shows "P (snd (bindI m f w))"
  using assms by (cases "m w"; cases "fst (m w)") (auto simp: bindI_def)

lemma foldI_invariant:
  assumes "foldI f xs s w = (Inr t, v)" "P s w"
    and "\<And>x a b u u'. x \<in> set xs \<Longrightarrow> P a u \<Longrightarrow> f x a u = (Inr b, u') \<Longrightarrow> P b u'"
  shows "P t v"
  using assms
proof (induction xs arbitrary: s w)
  case Nil
  then show ?case by (simp add: res_simps)
next
  case (Cons x xs)
  from Cons.prems(1) obtain b u where b: "f x s w = (Inr b, u)" "foldI f xs b u = (Inr t, v)"
    by (auto simp: res_simps)
  have "P b u" using Cons.prems(3) [OF _ Cons.prems(2) b(1)] by simp
  then show ?case
    by (rule Cons.IH [OF b(2)]) (metis Cons.prems(3) list.set_intros(2))
qed

lemma foldI_prefix_invariant:
  assumes "foldI f xs s w = (Inr t, v)" "P [] s w"
    and "\<And>ys x zs a b u u'. xs = ys @ x # zs \<Longrightarrow> P ys a u \<Longrightarrow> f x a u = (Inr b, u') \<Longrightarrow> P (ys @ [x]) b u'"
  shows "P xs t v"
proof -
  have "P (ys @ zs) t v" if "xs = ys @ zs" "foldI f zs a u = (Inr t, v)" "P ys a u" for ys zs a u
    using that
  proof (induction zs arbitrary: ys a u)
    case Nil
    then show ?case by (simp add: res_simps)
  next
    case (Cons z zs)
    from Cons.prems(2) obtain b u' where b: "f z a u = (Inr b, u')" "foldI f zs b u' = (Inr t, v)"
      by (auto simp: res_simps)
    then have "P (ys @ [z]) b u'" using assms(3) Cons.prems by blast
    with Cons.IH [of "ys @ [z]" b u'] Cons.prems b show ?case by simp
  qed
  from this [of "[]" xs s w] assms show ?thesis by simp
qed

lemma foldI_total:
  assumes "P s w" "\<And>x a u. x \<in> set xs \<Longrightarrow> P a u \<Longrightarrow> \<exists>b v. f x a u = (Inr b, v) \<and> P b v"
  shows "\<exists>t v. foldI f xs s w = (Inr t, v) \<and> P t v"
  using assms
proof (induction xs arbitrary: s w)
  case Nil
  then show ?case by (simp add: retI_def)
next
  case (Cons x xs)
  obtain b v where b: "f x s w = (Inr b, v)" "P b v"
    using Cons.prems(2) [of x s w] Cons.prems(1) by auto
  with Cons.IH [of b v] Cons.prems(2) show ?case by (auto simp: bindI_def)
qed

lemma foldI_append: "foldI f (xs @ ys) s w = bindI (foldI f xs s) (foldI f ys) w"
proof (induction xs arbitrary: s w)
  case Nil
  then show ?case by (simp add: bindI_def retI_def)
next
  case (Cons x xs)
  show ?case
    by (simp add: bindI_def Cons.IH split: prod.splits sum.splits)
qed

end
