(* ===== verification/RefEnv.thy ===== *)
theory RefEnv
  imports Environment
begin

text \<open>
  A concrete environment that satisfies every hypothesis stated about the external code.
  The witnesses evaluate the model on it; no definition of the model depends on it.
\<close>

text \<open>The value of a digit, lower-case letters being the digits from ten on.\<close>

definition ref_digit :: "char \<Rightarrow> nat" where
  "ref_digit c = (if c \<in> set ''0123456789'' then of_char c - 48 else if c \<in> set ''abcdef'' then of_char c - 87 else 99)"

definition digits_value :: "string \<Rightarrow> nat \<Rightarrow> nat option" where
  "digits_value s base =
     (if s \<noteq> [] \<and> list_all (\<lambda>c. ref_digit c < base) s
      then Some (foldl (\<lambda>v c. v * base + ref_digit c) 0 s) else None)"

definition ref_parse_u64 :: "string \<Rightarrow> nat \<Rightarrow> nat option" where
  "ref_parse_u64 s base =
     (case digits_value s base of None \<Rightarrow> None | Some v \<Rightarrow> if v \<le> UINT64_MAX then Some v else None)"

definition ref_token :: "string \<Rightarrow> nat \<Rightarrow> (nat \<times> string) option" where
  "ref_token s base =
     (let t = dropWhile (\<lambda>c. c = CHR '' '') s;
          word = takeWhile (\<lambda>c. ref_digit c < base) t
      in map_option (\<lambda>v. (v, drop (length word) t)) (ref_parse_u64 word base))"

definition ref_trim :: "string \<Rightarrow> string" where
  "ref_trim s = rev (dropWhile (\<lambda>c. c = CHR 0x0A \<or> c = CHR 0x0D) (rev s))"

definition ref_config_line :: "string \<Rightarrow> (string \<times> string) option" where
  "ref_config_line s =
     (if CHR ''='' \<in> set s
      then Some (takeWhile (\<lambda>c. c \<noteq> CHR ''='') s, tl (dropWhile (\<lambda>c. c \<noteq> CHR ''='') (ref_trim s)))
      else None)"

definition ref_env :: env where
  "ref_env = \<lparr>
     load_le16 = (\<lambda>b. unat (b ! 0) + 256 * unat (b ! 1)),
     load_le32 = (\<lambda>b. unat (b ! 0) + 256 * unat (b ! 1) + 65536 * unat (b ! 2) + 16777216 * unat (b ! 3)),
     store_le16 = (\<lambda>v. [word_of_nat v, word_of_nat (v div 256)]),
     store_le32 = (\<lambda>v. [word_of_nat v, word_of_nat (v div 256), word_of_nat (v div 65536),
        word_of_nat (v div 16777216)]),
     load_le64 = (\<lambda>b. unat (b ! 0) + 256 * unat (b ! 1) + 65536 * unat (b ! 2) + 16777216 * unat (b ! 3) +
        4294967296 * (unat (b ! 4) + 256 * unat (b ! 5) + 65536 * unat (b ! 6) + 16777216 * unat (b ! 7))),
     store_le64 = (\<lambda>v. [word_of_nat v, word_of_nat (v div 256), word_of_nat (v div 65536),
        word_of_nat (v div 16777216), word_of_nat (v div 4294967296), word_of_nat (v div 4294967296 div 256),
        word_of_nat (v div 4294967296 div 65536), word_of_nat (v div 4294967296 div 16777216)]),
     array_reserve = (\<lambda>size n. True),
     size_add_checked = (\<lambda>a b. if a + b \<le> SIZE_MAX then Some (a + b) else None),
     size_multiply_checked = (\<lambda>a b. if a * b \<le> SIZE_MAX then Some (a * b) else None),
     u64_add_checked = (\<lambda>a b. if a + b \<le> UINT64_MAX then Some (a + b) else None),
     u64_multiply_checked = (\<lambda>a b. if a * b \<le> UINT64_MAX then Some (a * b) else None),
     parse_u64 = ref_parse_u64,
     parse_u64_range = (\<lambda>s base lo hi. case ref_parse_u64 s base of None \<Rightarrow> None
        | Some v \<Rightarrow> if lo \<le> v \<and> v \<le> hi then Some v else None),
     parse_u64_token = ref_token,
     config_parse_line = ref_config_line,
     trim_line_end = ref_trim,
     path_basename = (\<lambda>s. rev (takeWhile (\<lambda>c. c \<noteq> CHR ''/'') (rev s))),
     pread_full = (\<lambda>d len off. if off + len \<le> length d then Some (read_at off len d) else None),
     pwrite_full = (\<lambda>t d bs off. if off + length bs \<le> length d then (True, patch d off bs) else (False, d)),
     fsync_ok = (\<lambda>t. True),
     file_write_ok = (\<lambda>t. True),
     unlink_ok = (\<lambda>t. True),
     directory_status = (\<lambda>p. Some \<lparr>st_is_dir = True, st_uid = 0, st_group_or_other_write = False,
        st_sticky = False\<rparr>),
     process_euid = 0,
     parse_binary_quantity_u64 = (\<lambda>s. ref_parse_u64 s 10),
     escape_json = Some,
     string_starts_with = (\<lambda>s p. take (length p) s = p),
     copy_string = (\<lambda>size s. take (size - 1) s),
     u64_add_saturating = (\<lambda>a b. min (a + b) UINT64_MAX),
     u64_multiply_saturating = (\<lambda>a b. min (a * b) UINT64_MAX),
     load_be16 = (\<lambda>b. 256 * unat (b ! 0) + unat (b ! 1)),
     load_be32 = (\<lambda>b. 16777216 * unat (b ! 0) + 65536 * unat (b ! 1) + 256 * unat (b ! 2) + unat (b ! 3))\<rparr>"

lemma endian_ok_ref [simp]: "endian_ok ref_env"
  by (simp add: endian_ok_def ref_env_def)

lemma big_endian_ok_ref [simp]: "big_endian_ok ref_env"
  by (simp add: big_endian_ok_def ref_env_def)

lemma endian64_ok_ref [simp]: "endian64_ok ref_env"
  unfolding endian64_ok_def by (intro conjI endian_ok_ref) (simp_all add: ref_env_def)

lemma checked64_ok_ref [simp]: "checked64_ok ref_env"
  by (simp add: checked64_ok_def ref_env_def)

lemma io_reliable_ref [simp]: "io_reliable ref_env"
  by (simp add: io_reliable_def io_exact_def ref_env_def)

lemma io_exact_ref [simp]: "io_exact ref_env"
  by (rule io_reliable_exact) simp

lemma reserve_ok_ref [simp]: "reserve_ok ref_env"
  by (simp add: reserve_ok_def ref_env_def)

lemma strings_ok_ref [simp]: "strings_ok ref_env"
  by (simp add: strings_ok_def ref_env_def)

lemma checked_ok_ref [simp]: "checked_ok ref_env"
  by (simp add: checked_ok_def ref_env_def)

end
