(* ===== verification/LdCore.thy ===== *)
theory LdCore
  imports RefEnv
begin

text \<open>
  The filesystem-neutral core under \<open>src/core\<close>: exact positioned I/O (\<open>ld_io.c\<close>), the
  cooperative stop flag (\<open>ld_stop.c\<close>), resource defaults, the target descriptor
  (\<open>ld_device.h\<close>) and its identity check (\<open>ld_device.c\<close>), and path helpers
  (\<open>ld_path.c\<close>).
\<close>

section \<open>Positioned I/O\<close>

text \<open>\<open>None\<close> and \<open>False\<close> are the \<open>-1\<close> returns.\<close>

definition ld_pread_full :: "env \<Rightarrow> bytes \<Rightarrow> nat \<Rightarrow> nat \<Rightarrow> bytes option" where
  "ld_pread_full E d len off = (if len > SSIZE_MAX then None else pread_full E d len off)"

definition ld_pwrite_full :: "env \<Rightarrow> bytes \<Rightarrow> nat \<Rightarrow> bool io" where
  "ld_pwrite_full E bs off w =
     (if length bs > SSIZE_MAX then (Inr False, w)
      else case pwrite_full E (length (w_trace w)) (w_disk w) bs off of
        (ok, d) \<Rightarrow> (Inr ok, w\<lparr>w_disk := d, w_trace := w_trace w @ [EvWrite off bs]\<rparr>))"

definition ld_pread_exact :: "env \<Rightarrow> bytes \<Rightarrow> nat \<Rightarrow> nat \<Rightarrow> string \<Rightarrow> bytes res" where
  "ld_pread_exact E d len off what =
     (case ld_pread_full E d len off of None \<Rightarrow> Inl (DieErrno what) | Some bs \<Rightarrow> Inr bs)"

definition ld_pwrite_exact :: "env \<Rightarrow> bytes \<Rightarrow> nat \<Rightarrow> string \<Rightarrow> unit io" where
  "ld_pwrite_exact E bs off what =
     bindI (ld_pwrite_full E bs off) (\<lambda>ok. die_ifI (\<not> ok) (DieErrno what))"

lemma ld_pread_full_Some:
  "io_exact E \<Longrightarrow> ld_pread_full E d len off = Some bs \<Longrightarrow> off + len \<le> length d \<and> bs = read_at off len d"
  by (auto simp: ld_pread_full_def dest: io_exact_read split: if_splits)

lemma ld_pread_exact_Inr:
  "io_exact E \<Longrightarrow> ld_pread_exact E d len off what = Inr bs \<Longrightarrow>
   off + len \<le> length d \<and> bs = read_at off len d"
  by (auto simp: ld_pread_exact_def split: option.splits dest: ld_pread_full_Some)

lemma ld_pread_exact_total:
  "io_reliable E \<Longrightarrow> off + len \<le> length d \<Longrightarrow> len \<le> SSIZE_MAX \<Longrightarrow>
   ld_pread_exact E d len off what = Inr (read_at off len d)"
  by (simp add: ld_pread_exact_def ld_pread_full_def io_reliable_read)

text \<open>A completed write changed the target exactly at the written range.\<close>

definition after_write :: "bytes \<Rightarrow> nat \<Rightarrow> world \<Rightarrow> world" where
  "after_write bs off w =
     w\<lparr>w_disk := patch (w_disk w) off bs, w_trace := w_trace w @ [EvWrite off bs]\<rparr>"

lemma ld_pwrite_exact_Inr:
  "io_exact E \<Longrightarrow> ld_pwrite_exact E bs off what w = (Inr u, w') \<Longrightarrow>
   off + length bs \<le> length (w_disk w) \<and> w' = after_write bs off w"
  by (cases "pwrite_full E (length (w_trace w)) (w_disk w) bs off")
    (auto simp: ld_pwrite_exact_def ld_pwrite_full_def res_simps after_write_def
      dest!: io_exact_write split: if_splits)

lemma ld_pwrite_exact_total:
  "io_reliable E \<Longrightarrow> off + length bs \<le> length (w_disk w) \<Longrightarrow> length bs \<le> SSIZE_MAX \<Longrightarrow>
   ld_pwrite_exact E bs off what w = (Inr (), after_write bs off w)"
  by (simp add: ld_pwrite_exact_def ld_pwrite_full_def bindI_def die_ifI_def retI_def
      after_write_def io_reliable_write)

lemma after_write_simps [simp]:
  "w_disk (after_write bs off w) = patch (w_disk w) off bs"
  "w_files (after_write bs off w) = w_files w"
  "w_stop (after_write bs off w) = w_stop w"
  "w_trace (after_write bs off w) = w_trace w @ [EvWrite off bs]"
  by (simp_all add: after_write_def)

section \<open>Stop requests\<close>

definition ld_stop_requested :: "bool io" where
  "ld_stop_requested w =
     (case w_stop w of
        None \<Rightarrow> (Inr False, w)
      | Some 0 \<Rightarrow> (Inr True, w)
      | Some (Suc n) \<Rightarrow> (Inr False, w\<lparr>w_stop := Some n\<rparr>))"

lemma ld_stop_requested_sticky:
  "ld_stop_requested w = (Inr True, w') \<Longrightarrow> w' = w \<and> w_stop w = Some 0"
  by (auto simp: ld_stop_requested_def split: option.splits nat.splits)

lemma ld_stop_requested_disk:
  "ld_stop_requested w = (r, w') \<Longrightarrow>
   w_disk w' = w_disk w \<and> w_files w' = w_files w \<and> w_trace w' = w_trace w"
  by (auto simp: ld_stop_requested_def split: option.splits nat.splits)

section \<open>Resource defaults\<close>

text \<open>The amount of available memory and the processor count are facts of the host.\<close>

definition ld_default_ram_limit :: "nat \<Rightarrow> nat" where
  "ld_default_ram_limit available =
     (let minimum = 64 * 1024 * 1024;
          reserve = 8 * 1024 * 1024 * 1024;
          maximum = 16 * 1024 * 1024 * 1024;
          selected = (if available > reserve + minimum then available - reserve else available div 4);
          selected = (if selected < minimum then minimum else selected);
          selected = (if selected > maximum then maximum else selected);
          selected = (if selected > SIZE_MAX then SIZE_MAX else selected)
      in selected)"

definition ld_online_cpu_count :: "int \<Rightarrow> nat" where
  "ld_online_cpu_count count = (if count > 0 then nat count else 1)"

definition ld_default_worker_count :: "int \<Rightarrow> bool \<Rightarrow> bool \<Rightarrow> nat" where
  "ld_default_worker_count count rotational serial_flash =
     (let cpus = ld_online_cpu_count count in
      if rotational then 1
      else if serial_flash then (if cpus > 1 then 2 else 1)
      else let cpus = (if cpus > 8 then 8 else cpus) in if cpus = 0 then 1 else cpus)"

lemma ld_default_ram_limit_bounds:
  "64 * 1024 * 1024 \<le> ld_default_ram_limit a \<and> ld_default_ram_limit a \<le> 16 * 1024 * 1024 * 1024"
  by (simp add: ld_default_ram_limit_def Let_def)

lemma ld_default_worker_count_bounds:
  "1 \<le> ld_default_worker_count c r s \<and> ld_default_worker_count c r s \<le> 8"
  by (auto simp: ld_default_worker_count_def ld_online_cpu_count_def Let_def)

section \<open>The target descriptor\<close>

record Device =
  dev_path :: string
  dev_writable :: bool
  dev_is_block :: bool
  dev_size_bytes :: nat
  dev_number :: "nat \<times> nat" \<comment> \<open>major and minor\<close>
  dev_host :: nat
  dev_inode :: nat

section \<open>Paths\<close>

definition ld_path_append_suffix :: "env \<Rightarrow> string \<Rightarrow> string \<Rightarrow> string res" where
  "ld_path_append_suffix E base suffix =
     (case size_add_checked E (length base) (length suffix) of
        None \<Rightarrow> Inl (Die ''path suffix length overflow'')
      | Some combined \<Rightarrow>
          (case size_add_checked E combined 1 of
             None \<Rightarrow> Inl (Die ''path suffix length overflow'')
           | Some allocation \<Rightarrow> Inr (base @ suffix)))"

definition ld_path_is_derived_from :: "env \<Rightarrow> string \<Rightarrow> string \<Rightarrow> string \<Rightarrow> bool" where
  "ld_path_is_derived_from E candidate base suffix =
     (case size_add_checked E (length base) (length suffix) of
        None \<Rightarrow> False
      | Some expected \<Rightarrow>
          length candidate = expected \<and>
          take (length base) candidate = base \<and>
          take (length suffix) (drop (length base) candidate) = suffix)"

text \<open>\<open>strrchr (copy, '/')\<close>: the text before the last slash, if there is one.\<close>

definition before_last_slash :: "string \<Rightarrow> string option" where
  "before_last_slash path =
     (if CHR ''/'' \<in> set path
      then Some (rev (tl (dropWhile (\<lambda>c. c \<noteq> CHR ''/'') (rev path)))) else None)"

definition ld_path_parent_directory :: "string \<Rightarrow> string" where
  "ld_path_parent_directory path =
     (case before_last_slash path of
        None \<Rightarrow> ''.''
      | Some parent \<Rightarrow> if parent = [] then ''/'' else parent)"

definition trusted_directory :: "dir_stat \<Rightarrow> nat \<Rightarrow> bool" where
  "trusted_directory status effective_uid =
     (if \<not> st_is_dir status then False
      else if effective_uid = 0 then st_uid status = 0 \<and> \<not> st_group_or_other_write status
      else if st_uid status = effective_uid then \<not> st_group_or_other_write status
      else if st_uid status = 0 then
        (if \<not> st_group_or_other_write status then True else st_sticky status)
      else False)"

text \<open>\<open>strtok_r (copy, "/")\<close>: the non-empty components.\<close>

fun split_slash :: "string \<Rightarrow> string \<Rightarrow> string list" where
  "split_slash [] word = [word]"
| "split_slash (c # rest) word =
     (if c = CHR ''/'' then word # split_slash rest [] else split_slash rest (word @ [c]))"

definition path_components :: "string \<Rightarrow> string list" where
  "path_components path = filter (\<lambda>w. w \<noteq> []) (split_slash path [])"

text \<open>\<open>here\<close> is the directory reached so far.\<close>

fun trusted_walk :: "env \<Rightarrow> string list \<Rightarrow> string list \<Rightarrow> bool" where
  "trusted_walk E here [] = True"
| "trusted_walk E here (c # rest) =
     (if c = ''.'' then trusted_walk E here rest
      else if c = ''..'' then False
      else
        case directory_status E (here @ [c]) of
          None \<Rightarrow> False
        | Some status \<Rightarrow>
            if \<not> trusted_directory status (process_euid E) then False
            else trusted_walk E (here @ [c]) rest)"

definition ld_path_ensure_trusted_directory_tree :: "env \<Rightarrow> string \<Rightarrow> bool" where
  "ld_path_ensure_trusted_directory_tree E path =
     (if path = [] \<or> hd path \<noteq> CHR ''/'' then False
      else if directory_status E [] = None then False
      else trusted_walk E [] (path_components path))"

lemma ld_path_derived_append:
  "checked_ok E \<Longrightarrow> ld_path_append_suffix E base suffix = Inr p \<Longrightarrow>
   p = base @ suffix \<and> ld_path_is_derived_from E p base suffix"
  by (auto simp: ld_path_append_suffix_def ld_path_is_derived_from_def checked_ok_def
      split: option.splits if_splits)

end
