(* ===== verification/FatVolume.thy ===== *)
theory FatVolume
  imports LdCore
begin

text \<open>
  \<open>fat_volume.c\<close>: the BIOS Parameter Block parser, the in-memory volume model, the
  FAT12/16/32 entry codec, loading and single and batched allocation-table writes.
  Pointer arguments are the addresses of live objects (the NULL tests of
  \<open>fat_geometry_parse\<close> are not modelled); \<open>malloc\<close> succeeds.
\<close>

section \<open>Types\<close>

datatype FatType = FAT_TYPE_12 | FAT_TYPE_16 | FAT_TYPE_32

abbreviation FAT32_MASK :: nat where "FAT32_MASK \<equiv> 0x0FFFFFFF"
abbreviation FAT32_EOC_MIN :: nat where "FAT32_EOC_MIN \<equiv> 0x0FFFFFF8"
abbreviation FAT32_BAD :: nat where "FAT32_BAD \<equiv> 0x0FFFFFF7"

record FatGeometry =
  geo_fat_type :: FatType
  geo_bytes_per_sector :: nat
  geo_sectors_per_cluster :: nat
  geo_reserved_sectors :: nat
  geo_fat_count :: nat
  geo_ext_flags :: nat
  geo_fat_mirroring :: bool
  geo_active_fat :: nat
  geo_sectors_per_fat :: nat
  geo_total_sectors :: nat
  geo_root_cluster :: nat
  geo_root_entry_count :: nat
  geo_fsinfo_sector :: nat
  geo_backup_boot_sector :: nat
  geo_volume_id :: nat
  geo_root_dir_sectors :: nat
  geo_fat_sectors_total :: nat
  geo_volume_bytes :: nat
  geo_cluster_count :: nat
  geo_max_cluster :: nat
  geo_fat_entry_count :: nat

record Fat32 =
  fs_dev :: Device
  fs_fat_type :: FatType
  fs_bytes_per_sector :: nat
  fs_sectors_per_cluster :: nat
  fs_reserved_sectors :: nat
  fs_fat_count :: nat
  fs_ext_flags :: nat
  fs_fat_mirroring :: bool
  fs_active_fat :: nat
  fs_sectors_per_fat :: nat
  fs_total_sectors :: nat
  fs_root_cluster :: nat
  fs_root_entry_count :: nat
  fs_root_dir_offset :: nat
  fs_root_dir_size :: nat
  fs_root_is_fixed :: bool
  fs_fsinfo_sector :: nat
  fs_backup_boot_sector :: nat
  fs_volume_id :: nat
  fs_fat0_offset :: nat
  fs_data_offset :: nat
  fs_cluster_size :: nat
  fs_cluster_count :: nat
  fs_max_cluster :: nat
  fs_fat_entry_count :: nat
  fs_fat :: "nat list"
  fs_visited_dirs :: "bool list"
  fs_claimed_clusters :: "bool list"
  fs_chain_seen :: "nat list"
  fs_chain_generation :: nat
  fs_recovery_mode :: bool

record FatUpdate =
  upd_cluster :: nat
  upd_value :: nat

section \<open>Width-dependent constants and entry access\<close>

definition u32vec_push :: "env \<Rightarrow> nat list \<Rightarrow> nat \<Rightarrow> nat list res" where
  "u32vec_push E v x =
     (if length v = SIZE_MAX \<or> \<not> array_reserve E 4 (length v + 1)
      then Inl (Die ''cannot grow FAT cluster vector'') else Inr (v @ [x]))"

definition cluster_offset :: "Fat32 \<Rightarrow> nat \<Rightarrow> nat res" where
  "cluster_offset fs cluster =
     (if cluster < 2 \<or> cluster > fs_max_cluster fs
      then Inl (Die ''cluster number outside data region'')
      else Inr (u64 (fs_data_offset fs + (cluster - 2) * fs_cluster_size fs)))"

definition fat_mask :: "Fat32 \<Rightarrow> nat" where
  "fat_mask fs = (case fs_fat_type fs of
     FAT_TYPE_12 \<Rightarrow> 0x0FFF | FAT_TYPE_16 \<Rightarrow> 0xFFFF | FAT_TYPE_32 \<Rightarrow> FAT32_MASK)"

definition fat_eoc_min :: "Fat32 \<Rightarrow> nat" where
  "fat_eoc_min fs = (case fs_fat_type fs of
     FAT_TYPE_12 \<Rightarrow> 0x0FF8 | FAT_TYPE_16 \<Rightarrow> 0xFFF8 | FAT_TYPE_32 \<Rightarrow> FAT32_EOC_MIN)"

definition fat_bad_value :: "Fat32 \<Rightarrow> nat" where
  "fat_bad_value fs = (case fs_fat_type fs of
     FAT_TYPE_12 \<Rightarrow> 0x0FF7 | FAT_TYPE_16 \<Rightarrow> 0xFFF7 | FAT_TYPE_32 \<Rightarrow> FAT32_BAD)"

definition fat_reserved_min :: "Fat32 \<Rightarrow> nat" where
  "fat_reserved_min fs = (case fs_fat_type fs of
     FAT_TYPE_12 \<Rightarrow> 0x0FF0 | FAT_TYPE_16 \<Rightarrow> 0xFFF0 | FAT_TYPE_32 \<Rightarrow> 0x0FFFFFF0)"

definition fat_eoc_value :: "Fat32 \<Rightarrow> nat" where
  "fat_eoc_value fs = fat_mask fs"

definition fat_type_name :: "Fat32 \<Rightarrow> string" where
  "fat_type_name fs = (case fs_fat_type fs of
     FAT_TYPE_12 \<Rightarrow> ''FAT12'' | FAT_TYPE_16 \<Rightarrow> ''FAT16'' | FAT_TYPE_32 \<Rightarrow> ''FAT32'')"

definition fat_entry_byte_offset :: "Fat32 \<Rightarrow> nat \<Rightarrow> nat" where
  "fat_entry_byte_offset fs cluster = (case fs_fat_type fs of
     FAT_TYPE_12 \<Rightarrow> cluster + cluster div 2
   | FAT_TYPE_16 \<Rightarrow> cluster * 2
   | FAT_TYPE_32 \<Rightarrow> cluster * 4)"

definition decode_fat_entry :: "env \<Rightarrow> Fat32 \<Rightarrow> bytes \<Rightarrow> nat \<Rightarrow> nat \<Rightarrow> nat res" where
  "decode_fat_entry E fs raw fat_bytes cluster =
     (let offset = fat_entry_byte_offset fs cluster in
      case fs_fat_type fs of
        FAT_TYPE_12 \<Rightarrow>
          if offset + 1 \<ge> fat_bytes then Inl (Die ''FAT12 entry outside loaded table'')
          else let pair = load_le16 E (drop offset raw) in
            Inr (if cluster AND 1 \<noteq> 0 then drop_bit 4 pair else pair AND 0x0FFF)
      | FAT_TYPE_16 \<Rightarrow>
          if offset + 1 \<ge> fat_bytes then Inl (Die ''FAT16 entry outside loaded table'')
          else Inr (load_le16 E (drop offset raw))
      | FAT_TYPE_32 \<Rightarrow>
          if offset + 3 \<ge> fat_bytes then Inl (Die ''FAT32 entry outside loaded table'')
          else Inr (load_le32 E (drop offset raw) AND FAT32_MASK))"

definition fat_value :: "Fat32 \<Rightarrow> nat \<Rightarrow> nat res" where
  "fat_value fs cluster =
     (if cluster \<ge> fs_fat_entry_count fs then Inl (Die ''FAT entry outside loaded table'')
      else Inr ((fs_fat fs ! cluster) AND fat_mask fs))"

definition fat_is_eoc_for :: "Fat32 \<Rightarrow> nat \<Rightarrow> bool" where
  "fat_is_eoc_for fs value \<longleftrightarrow> (value AND fat_mask fs) \<ge> fat_eoc_min fs"

definition fat_is_free :: "Fat32 \<Rightarrow> nat \<Rightarrow> bool res" where
  "fat_is_free fs cluster = bindE (fat_value fs cluster) (\<lambda>v. Inr (v = 0))"

section \<open>Boot-sector geometry\<close>

text \<open>
  The \<open>Inl\<close> result is the \<open>false\<close> return with its message. Every product below is of
  operands whose C types keep it inside 64 bits (inside 32 bits for \<open>root_dir_sectors\<close>),
  so no wrap-around is written.
\<close>

definition fat_geometry_parse :: "env \<Rightarrow> bytes \<Rightarrow> nat \<Rightarrow> string + FatGeometry" where
  "fat_geometry_parse E boot target_bytes =
   bindE (die_if (boot ! 510 \<noteq> 0x55 \<or> boot ! 511 \<noteq> 0xAA) ''invalid boot-sector signature'') (\<lambda>_.
   let bytes_per_sector = load_le16 E (drop 11 boot);
       sectors_per_cluster = unat (boot ! 13);
       reserved_sectors = load_le16 E (drop 14 boot);
       fat_count = unat (boot ! 16);
       root_entry_count = load_le16 E (drop 17 boot);
       total16 = load_le16 E (drop 19 boot);
       fat16_sectors = load_le16 E (drop 22 boot);
       total32 = load_le32 E (drop 32 boot);
       fat32_sectors = load_le32 E (drop 36 boot);
       total_sectors = (if total16 \<noteq> 0 then total16 else total32)
   in
   bindE (die_if (\<not> (bytes_per_sector = 512 \<or> bytes_per_sector = 1024 \<or>
                    bytes_per_sector = 2048 \<or> bytes_per_sector = 4096))
            ''unsupported bytes-per-sector value'') (\<lambda>_.
   bindE (die_if (sectors_per_cluster = 0 \<or>
                  sectors_per_cluster AND (sectors_per_cluster - 1) \<noteq> 0)
            ''invalid sectors-per-cluster value'') (\<lambda>_.
   bindE (die_if (reserved_sectors = 0 \<or> fat_count = 0 \<or> total_sectors = 0)
            ''invalid FAT layout fields'') (\<lambda>_.
   let root_dir_sectors = (root_entry_count * 32 + bytes_per_sector - 1) div bytes_per_sector;
       sectors_per_fat = (if fat16_sectors \<noteq> 0 then fat16_sectors else fat32_sectors)
   in
   bindE (die_if (sectors_per_fat = 0) ''invalid FAT size'') (\<lambda>_.
   let fat_sectors_total = fat_count * sectors_per_fat;
       occupied = reserved_sectors + fat_sectors_total + root_dir_sectors
   in
   bindE (die_if (occupied \<ge> total_sectors) ''invalid FAT/data layout'') (\<lambda>_.
   let data_sectors = total_sectors - occupied;
       clusters = data_sectors div sectors_per_cluster
   in
   bindE (die_if (clusters = 0 \<or> clusters > UINT32_MAX - 1)
            ''FAT cluster count is outside the supported range'') (\<lambda>_.
   let fat_type = (if clusters < 4085 then FAT_TYPE_12
                   else if clusters < 65525 then FAT_TYPE_16 else FAT_TYPE_32);
       max_cluster = clusters + 1;
       volume_bytes = total_sectors * bytes_per_sector
   in
   bindE (die_if (target_bytes \<noteq> UINT64_MAX \<and> volume_bytes > target_bytes)
            ''filesystem extends beyond target size'') (\<lambda>_.
   bindE
    (if fat_type = FAT_TYPE_32 then
       (let ext_flags = load_le16 E (drop 40 boot) in
        bindE (die_if (load_le16 E (drop 42 boot) \<noteq> 0)
                 ''unsupported nonzero FAT32 filesystem version'') (\<lambda>_.
        let fat_mirroring = (ext_flags AND 0x0080 = 0);
            active_fat = (if fat_mirroring then 0 else u8 (ext_flags AND 0x000F))
        in
        bindE (die_if (active_fat \<ge> fat_count) ''active FAT index is outside the FAT count'') (\<lambda>_.
        let root_cluster = load_le32 E (drop 44 boot) AND FAT32_MASK;
            fsinfo_sector = load_le16 E (drop 48 boot);
            backup_boot_sector = load_le16 E (drop 50 boot);
            volume_id = load_le32 E (drop 67 boot)
        in
        bindE (die_if (root_entry_count \<noteq> 0 \<or> fat16_sectors \<noteq> 0)
                 ''FAT32 layout fields are inconsistent'') (\<lambda>_.
        bindE (die_if (root_cluster < 2 \<or> root_cluster > max_cluster) ''invalid root cluster'') (\<lambda>_.
        Inr (ext_flags, fat_mirroring, active_fat, root_cluster, fsinfo_sector,
             backup_boot_sector, volume_id))))))
     else
       (let volume_id = load_le32 E (drop 39 boot) in
        bindE (die_if (root_entry_count = 0 \<or> fat16_sectors = 0)
                 ''FAT12/FAT16 layout fields are inconsistent'') (\<lambda>_.
        Inr (0, True, 0, 0, 0, 0, volume_id))))
    (\<lambda>(ext_flags, fat_mirroring, active_fat, root_cluster, fsinfo_sector,
       backup_boot_sector, volume_id).
   let fat_bytes = sectors_per_fat * bytes_per_sector;
       entry_count = (case fat_type of
          FAT_TYPE_12 \<Rightarrow> (fat_bytes * 2) div 3
        | FAT_TYPE_16 \<Rightarrow> fat_bytes div 2
        | FAT_TYPE_32 \<Rightarrow> fat_bytes div 4)
   in
   bindE (die_if (entry_count > UINT32_MAX \<or> entry_count \<le> max_cluster)
            ''FAT is too small for the data region'') (\<lambda>_.
   Inr \<lparr>geo_fat_type = fat_type,
        geo_bytes_per_sector = bytes_per_sector,
        geo_sectors_per_cluster = sectors_per_cluster,
        geo_reserved_sectors = reserved_sectors,
        geo_fat_count = fat_count,
        geo_ext_flags = ext_flags,
        geo_fat_mirroring = fat_mirroring,
        geo_active_fat = active_fat,
        geo_sectors_per_fat = sectors_per_fat,
        geo_total_sectors = total_sectors,
        geo_root_cluster = root_cluster,
        geo_root_entry_count = root_entry_count,
        geo_fsinfo_sector = fsinfo_sector,
        geo_backup_boot_sector = backup_boot_sector,
        geo_volume_id = volume_id,
        geo_root_dir_sectors = root_dir_sectors,
        geo_fat_sectors_total = fat_sectors_total,
        geo_volume_bytes = volume_bytes,
        geo_cluster_count = clusters,
        geo_max_cluster = max_cluster,
        geo_fat_entry_count = entry_count\<rparr>))))))))))"

definition fat_geometry_probe_path :: "env \<Rightarrow> bytes \<Rightarrow> FatType option" where
  "fat_geometry_probe_path E contents =
     (case ld_pread_full E contents 512 0 of
        None \<Rightarrow> None
      | Some boot \<Rightarrow>
          (case fat_geometry_parse E boot UINT64_MAX of
             Inl e \<Rightarrow> None
           | Inr geometry \<Rightarrow> Some (geo_fat_type geometry)))"

section \<open>What an accepted geometry guarantees\<close>

definition geo_fat_bytes :: "FatGeometry \<Rightarrow> nat" where
  "geo_fat_bytes g = geo_sectors_per_fat g * geo_bytes_per_sector g"

definition geo_data_offset :: "FatGeometry \<Rightarrow> nat" where
  "geo_data_offset g =
     (geo_reserved_sectors g + geo_fat_sectors_total g + geo_root_dir_sectors g) * geo_bytes_per_sector g"

definition geo_cluster_size :: "FatGeometry \<Rightarrow> nat" where
  "geo_cluster_size g = geo_bytes_per_sector g * geo_sectors_per_cluster g"

definition geometry_ok :: "FatGeometry \<Rightarrow> bool" where
  "geometry_ok g \<longleftrightarrow>
     geo_bytes_per_sector g \<in> {512, 1024, 2048, 4096} \<and>
     1 \<le> geo_sectors_per_cluster g \<and> geo_sectors_per_cluster g < 256 \<and>
     1 \<le> geo_reserved_sectors g \<and>
     geo_active_fat g < geo_fat_count g \<and> geo_fat_count g < 256 \<and>
     geo_fat_sectors_total g = geo_fat_count g * geo_sectors_per_fat g \<and>
     1 \<le> geo_cluster_count g \<and> geo_max_cluster g = geo_cluster_count g + 1 \<and>
     geo_max_cluster g < geo_fat_entry_count g \<and> geo_fat_entry_count g \<le> UINT32_MAX \<and>
     geo_fat_type g = (if geo_cluster_count g < 4085 then FAT_TYPE_12
       else if geo_cluster_count g < 65525 then FAT_TYPE_16 else FAT_TYPE_32) \<and>
     geo_fat_entry_count g = (case geo_fat_type g of
        FAT_TYPE_12 \<Rightarrow> geo_fat_bytes g * 2 div 3
      | FAT_TYPE_16 \<Rightarrow> geo_fat_bytes g div 2
      | FAT_TYPE_32 \<Rightarrow> geo_fat_bytes g div 4) \<and>
     (geo_fat_type g = FAT_TYPE_32 \<longrightarrow>
        2 \<le> geo_root_cluster g \<and> geo_root_cluster g \<le> geo_max_cluster g \<and>
        geo_root_dir_sectors g = 0) \<and>
     (geo_fat_type g \<noteq> FAT_TYPE_32 \<longrightarrow>
        geo_fat_mirroring g \<and> geo_root_cluster g = 0 \<and> geo_root_dir_sectors g \<noteq> 0) \<and>
     geo_volume_bytes g = geo_total_sectors g * geo_bytes_per_sector g \<and>
     geo_data_offset g + geo_cluster_count g * geo_cluster_size g \<le> geo_volume_bytes g \<and>
     (geo_fat_mirroring g \<longrightarrow> geo_active_fat g = 0)"

lemma data_region_fits:
  assumes "occ < (tot::nat)" "cl = (tot - occ) div spc"
  shows "occ * bps + cl * (bps * spc) \<le> tot * bps"
proof -
  have "cl * spc \<le> tot - occ" using assms(2) by simp
  then have "occ + cl * spc \<le> tot"
    using assms(1) by linarith
  then have "(occ + cl * spc) * bps \<le> tot * bps" by (rule mult_le_mono1)
  then show ?thesis by (simp add: algebra_simps)
qed

lemma geometry_okI:
  assumes "\<not> \<not> (bps = 512 \<or> bps = 1024 \<or> bps = 2048 \<or> bps = 4096)"
    "\<not> (spc = 0 \<or> spc AND (spc - 1) \<noteq> 0)" "spc = unat (b1 :: byte)"
    "\<not> (res = 0 \<or> fc = 0 \<or> tot = 0)" "fc = unat (b2 :: byte)"
    "rds = (rec * 32 + bps - 1) div bps" "fst' = fc * spf" "occ = res + fst' + rds"
    "\<not> tot \<le> occ" "dat = tot - occ" "cl = dat div spc" "\<not> (cl = 0 \<or> lim < cl)"
    "ft = (if cl < 4085 then FAT_TYPE_12 else if cl < 65525 then FAT_TYPE_16 else FAT_TYPE_32)"
    "mx = cl + 1" "vol = tot * bps" "fb = spf * bps"
    "ents = (case ft of FAT_TYPE_12 \<Rightarrow> fb * 2 div 3 | FAT_TYPE_16 \<Rightarrow> fb div 2 | FAT_TYPE_32 \<Rightarrow> fb div 4)"
    "\<not> (UINT32_MAX < ents \<or> ents \<le> mx)"
    "active = (if mirror then 0 else act)"
    "ft = FAT_TYPE_32 \<Longrightarrow> \<not> fc \<le> active"
    "ft = FAT_TYPE_32 \<Longrightarrow> \<not> (rc < 2 \<or> mx < rc)"
    "ft = FAT_TYPE_32 \<Longrightarrow> \<not> (rec \<noteq> 0 \<or> f16 \<noteq> 0)"
    "ft \<noteq> FAT_TYPE_32 \<Longrightarrow> mirror" "ft \<noteq> FAT_TYPE_32 \<Longrightarrow> rc = 0"
    "ft \<noteq> FAT_TYPE_32 \<Longrightarrow> \<not> (rec = 0 \<or> f16' = 0)"
  shows "geometry_ok
    \<lparr>geo_fat_type = ft, geo_bytes_per_sector = bps, geo_sectors_per_cluster = spc,
     geo_reserved_sectors = res, geo_fat_count = fc, geo_ext_flags = ext,
     geo_fat_mirroring = mirror, geo_active_fat = active, geo_sectors_per_fat = spf,
     geo_total_sectors = tot, geo_root_cluster = rc, geo_root_entry_count = rec,
     geo_fsinfo_sector = fsi, geo_backup_boot_sector = bb, geo_volume_id = vid,
     geo_root_dir_sectors = rds, geo_fat_sectors_total = fst', geo_volume_bytes = vol,
     geo_cluster_count = cl, geo_max_cluster = mx, geo_fat_entry_count = ents\<rparr>"
proof -
  have fit: "occ * bps + cl * (bps * spc) \<le> vol"
    using data_region_fits [of occ tot cl spc bps] assms(9,10,11,15) by simp
  have b: "0 < bps" using assms(1) by auto
  have rds: "rec = 0 \<Longrightarrow> rds = 0" "rec \<noteq> 0 \<Longrightarrow> rds \<noteq> 0"
  proof -
    show "rec = 0 \<Longrightarrow> rds = 0" using assms(6) b by simp
    assume "rec \<noteq> 0"
    then have "bps \<le> rec * 32 + bps - 1" by simp
    then show "rds \<noteq> 0" using assms(6) b by (simp add: div_greater_zero_iff)
  qed
  have small: "spc < 256" "fc < 256" using assms(3,5) by (simp_all add: unat_byte_less)
  have act: "active < fc" "mirror \<longrightarrow> active = 0"
    using assms(4,19,20,23) by (cases mirror; cases "ft = FAT_TYPE_32"; simp)+
  have root: "ft = FAT_TYPE_32 \<longrightarrow> 2 \<le> rc \<and> rc \<le> mx \<and> rds = 0"
    "ft \<noteq> FAT_TYPE_32 \<longrightarrow> mirror \<and> rc = 0 \<and> rds \<noteq> 0"
    using assms(21-25) rds by auto
  have fit': "(res + fst' + rds) * bps + cl * (bps * spc) \<le> vol"
    using fit assms(8) by simp
  have pos: "bps \<in> {512, 1024, 2048, 4096}" "1 \<le> spc" "1 \<le> res" "1 \<le> cl"
    using assms(1,2,4,12) by auto
  have lim: "mx < ents" "ents \<le> UINT32_MAX" using assms(18) by auto
  have ents: "ents = (case ft of FAT_TYPE_12 \<Rightarrow> spf * bps * 2 div 3
      | FAT_TYPE_16 \<Rightarrow> spf * bps div 2 | FAT_TYPE_32 \<Rightarrow> spf * bps div 4)"
    using assms(16,17) by (simp only:)
  show ?thesis
    unfolding geometry_ok_def geo_data_offset_def geo_fat_bytes_def geo_cluster_size_def
      FatGeometry.select_convs
    by (intro conjI) (fact pos small act root fit' lim ents assms)+
qed

lemma fat_geometry_parse_geometry_ok: "okE geometry_ok (fat_geometry_parse E boot t)"
  unfolding fat_geometry_parse_def
  by (intro okE_intros okE_bind okE_pair; rule geometry_okI;
      (assumption | erule (1) notE | rule TrueI refl if_True [symmetric]))

lemma fat_geometry_parse_within:
  "okE (\<lambda>g. t \<noteq> UINT64_MAX \<longrightarrow> geo_volume_bytes g \<le> t) (fat_geometry_parse E boot t)"
  unfolding fat_geometry_parse_def
  by (intro okE_intros okE_bind okE_pair; simp only: FatGeometry.select_convs; blast intro: leI)
section \<open>Loading a volume\<close>

definition fat32_of_geometry :: "Device \<Rightarrow> bool \<Rightarrow> FatGeometry \<Rightarrow> Fat32" where
  "fat32_of_geometry device allow_mirror_mismatch g =
     (let root_dir_offset = (geo_reserved_sectors g + geo_fat_sectors_total g) * geo_bytes_per_sector g;
          root_dir_size = geo_root_dir_sectors g * geo_bytes_per_sector g
      in \<lparr>fs_dev = device,
          fs_fat_type = geo_fat_type g,
          fs_bytes_per_sector = geo_bytes_per_sector g,
          fs_sectors_per_cluster = geo_sectors_per_cluster g,
          fs_reserved_sectors = geo_reserved_sectors g,
          fs_fat_count = geo_fat_count g,
          fs_ext_flags = geo_ext_flags g,
          fs_fat_mirroring = geo_fat_mirroring g,
          fs_active_fat = geo_active_fat g,
          fs_sectors_per_fat = geo_sectors_per_fat g,
          fs_total_sectors = geo_total_sectors g,
          fs_root_cluster = geo_root_cluster g,
          fs_root_entry_count = geo_root_entry_count g,
          fs_root_dir_offset = root_dir_offset,
          fs_root_dir_size = root_dir_size,
          fs_root_is_fixed = (geo_fat_type g \<noteq> FAT_TYPE_32),
          fs_fsinfo_sector = geo_fsinfo_sector g,
          fs_backup_boot_sector = geo_backup_boot_sector g,
          fs_volume_id = geo_volume_id g,
          fs_fat0_offset = geo_reserved_sectors g * geo_bytes_per_sector g,
          fs_data_offset = root_dir_offset + root_dir_size,
          fs_cluster_size = geo_bytes_per_sector g * geo_sectors_per_cluster g,
          fs_cluster_count = geo_cluster_count g,
          fs_max_cluster = geo_max_cluster g,
          fs_fat_entry_count = geo_fat_entry_count g,
          fs_fat = [],
          fs_visited_dirs = replicate (geo_max_cluster g + 1) False,
          fs_claimed_clusters = replicate (geo_max_cluster g + 1) False,
          fs_chain_seen = replicate (geo_max_cluster g + 1) 0,
          fs_chain_generation = 0,
          fs_recovery_mode = allow_mirror_mismatch\<rparr>)"

definition fs_fat_bytes :: "Fat32 \<Rightarrow> nat" where
  "fs_fat_bytes fs = fs_sectors_per_fat fs * fs_bytes_per_sector fs"

fun decode_fat_table :: "env \<Rightarrow> Fat32 \<Rightarrow> bytes \<Rightarrow> nat \<Rightarrow> nat list \<Rightarrow> nat list res" where
  "decode_fat_table E fs raw fat_bytes [] = Inr []"
| "decode_fat_table E fs raw fat_bytes (index # rest) =
     bindE (decode_fat_entry E fs raw fat_bytes index) (\<lambda>v.
     bindE (decode_fat_table E fs raw fat_bytes rest) (\<lambda>vs. Inr (v # vs)))"

text \<open>The unclean-volume bits block a writable open only; FAT12 has none.\<close>

definition check_shutdown_bits :: "Fat32 \<Rightarrow> unit res" where
  "check_shutdown_bits fs =
     (if \<not> dev_writable (fs_dev fs) then Inr ()
      else case fs_fat_type fs of
        FAT_TYPE_32 \<Rightarrow>
          bindE (die_if ((fs_fat fs ! 1) AND 0x08000000 = 0)
            (Die ''FAT32 clean-shutdown bit is clear; repair or cleanly unmount the volume first'')) (\<lambda>_.
          die_if ((fs_fat fs ! 1) AND 0x04000000 = 0)
            (Die ''FAT32 hard-error bit is clear; repair the volume before defragmenting''))
      | FAT_TYPE_16 \<Rightarrow>
          bindE (die_if ((fs_fat fs ! 1) AND 0x8000 = 0)
            (Die ''FAT16 clean-shutdown bit is clear; repair or cleanly unmount the volume first'')) (\<lambda>_.
          die_if ((fs_fat fs ! 1) AND 0x4000 = 0)
            (Die ''FAT16 hard-error bit is clear; repair the volume before defragmenting''))
      | FAT_TYPE_12 \<Rightarrow> Inr ())"

text \<open>Does the copy \<open>other\<close> disagree with the loaded table at one of these entries?\<close>

fun mirror_mismatch :: "env \<Rightarrow> Fat32 \<Rightarrow> bytes \<Rightarrow> nat \<Rightarrow> nat list \<Rightarrow> bool res" where
  "mirror_mismatch E fs other fat_bytes [] = Inr False"
| "mirror_mismatch E fs other fat_bytes (index # rest) =
     bindE (decode_fat_entry E fs other fat_bytes index) (\<lambda>v.
     bindE (fat_value fs index) (\<lambda>u.
     if v = u then mirror_mismatch E fs other fat_bytes rest else Inr True))"

text \<open>
  The loop over the copies. Its counter is a \<open>uint8_t\<close>: the tolerated mismatch sets it to
  \<open>fat_count\<close> and the loop header then increments it, which wraps when \<open>fat_count\<close> is 255.
  \<open>None\<close> is a loop that does not end.
\<close>

partial_function (option) mirror_copies ::
  "env \<Rightarrow> Fat32 \<Rightarrow> bytes \<Rightarrow> nat \<Rightarrow> bool \<Rightarrow> nat \<Rightarrow> unit res option" where
  "mirror_copies E fs d fat_bytes allow copy =
     (if copy \<ge> fs_fat_count fs then Some (Inr ())
      else if copy = fs_active_fat fs then mirror_copies E fs d fat_bytes allow (u8 (copy + 1))
      else case ld_pread_exact E d fat_bytes (fs_fat0_offset fs + copy * fat_bytes) ''read mirrored FAT'' of
          Inl e \<Rightarrow> Some (Inl e)
        | Inr other \<Rightarrow>
          (case mirror_mismatch E fs other fat_bytes [0..<fs_max_cluster fs + 1] of
             Inl e \<Rightarrow> Some (Inl e)
           | Inr differs \<Rightarrow>
             if \<not> differs then mirror_copies E fs d fat_bytes allow (u8 (copy + 1))
             else if \<not> allow \<and> dev_writable (fs_dev fs)
             then Some (Inl (Die ''mirrored FAT copies disagree; repair the filesystem before defragmenting''))
             else mirror_copies E fs d fat_bytes allow (u8 (fs_fat_count fs + 1))))"

definition fat32_load_table :: "env \<Rightarrow> Device \<Rightarrow> bool \<Rightarrow> bytes \<Rightarrow> Fat32 res" where
  "fat32_load_table E device allow_mirror_mismatch d =
     bindE (ld_pread_exact E d 512 0 ''read boot sector'') (\<lambda>boot.
     bindE (case fat_geometry_parse E boot (dev_size_bytes device) of
              Inl message \<Rightarrow> Inl (Die message) | Inr g \<Rightarrow> Inr g) (\<lambda>geometry.
     let fs = fat32_of_geometry device allow_mirror_mismatch geometry;
         fat_bytes = fs_fat_bytes fs
     in
     bindE (ld_pread_exact E d fat_bytes (fs_fat0_offset fs + fs_active_fat fs * fat_bytes)
              ''read active FAT'') (\<lambda>raw.
     bindE (decode_fat_table E fs raw fat_bytes [0..<fs_fat_entry_count fs]) (\<lambda>table.
     let fs = fs\<lparr>fs_fat := table\<rparr> in
     bindE (check_shutdown_bits fs) (\<lambda>_. Inr fs)))))"

definition fat32_load :: "env \<Rightarrow> Device \<Rightarrow> bool \<Rightarrow> bytes \<Rightarrow> Fat32 res option" where
  "fat32_load E device allow_mirror_mismatch d =
     (case fat32_load_table E device allow_mirror_mismatch d of
        Inl e \<Rightarrow> Some (Inl e)
      | Inr fs \<Rightarrow>
          if fs_fat_mirroring fs then
            map_option (\<lambda>r. bindE r (\<lambda>_. Inr fs))
              (mirror_copies E fs d (fs_fat_bytes fs) allow_mirror_mismatch 0)
          else Some (Inr fs))"

section \<open>Writing the allocation table\<close>

definition fat32_sync :: "env \<Rightarrow> unit io" where
  "fat32_sync E w =
     (if fsync_ok E (length (w_trace w)) then (Inr (), w\<lparr>w_trace := w_trace w @ [EvSync]\<rparr>)
      else (Inl (DieErrno ''fsync target''), w))"

definition fat_copies :: "Fat32 \<Rightarrow> nat list" where
  "fat_copies fs =
     (if fs_fat_mirroring fs then [0..<fs_fat_count fs]
      else [fs_active_fat fs..<u8 (fs_active_fat fs + 1)])"

text \<open>The new bytes of one entry, given the bytes now on disk.\<close>

definition encode_fat_entry :: "env \<Rightarrow> Fat32 \<Rightarrow> bytes \<Rightarrow> nat \<Rightarrow> nat \<Rightarrow> bytes" where
  "encode_fat_entry E fs raw cluster new_value =
     (case fs_fat_type fs of
        FAT_TYPE_12 \<Rightarrow>
          let pair = load_le16 E raw;
              value = new_value AND 0x0FFF
          in store_le16 E (if cluster AND 1 \<noteq> 0 then u16 ((pair AND 0x000F) OR push_bit 4 value)
                           else u16 ((pair AND 0xF000) OR value))
      | FAT_TYPE_16 \<Rightarrow> store_le16 E (u16 new_value)
      | FAT_TYPE_32 \<Rightarrow>
          store_le32 E ((load_le32 E raw AND 0xF0000000) OR (new_value AND FAT32_MASK)))"

definition fat_entry_span :: "Fat32 \<Rightarrow> nat" where
  "fat_entry_span fs = (if fs_fat_type fs = FAT_TYPE_32 then 4 else 2)"

definition write_entry_copy :: "env \<Rightarrow> Fat32 \<Rightarrow> nat \<Rightarrow> nat \<Rightarrow> nat \<Rightarrow> unit \<Rightarrow> unit io" where
  "write_entry_copy E fs cluster new_value copy u =
     (let offset = fs_fat0_offset fs + copy * fs_fat_bytes fs + fat_entry_byte_offset fs cluster in
      bindI (readI (\<lambda>d. ld_pread_exact E d (fat_entry_span fs) offset ''read FAT entry before update'')) (\<lambda>raw.
      ld_pwrite_exact E (encode_fat_entry E fs raw cluster new_value) offset ''write FAT entry''))"

definition fat32_write_entry :: "env \<Rightarrow> Fat32 \<Rightarrow> nat \<Rightarrow> nat \<Rightarrow> Fat32 io" where
  "fat32_write_entry E fs cluster new_value =
     thenI (die_ifI (\<not> dev_writable (fs_dev fs))
              (Die ''internal error: attempted write on read-only target''))
    (thenI (die_ifI (cluster \<ge> fs_fat_entry_count fs) (Die ''attempted FAT write outside table''))
    (bindI (foldI (write_entry_copy E fs cluster new_value) (fat_copies fs) ()) (\<lambda>_.
     retI (fs\<lparr>fs_fat := (fs_fat fs)[cluster := new_value AND fat_mask fs]\<rparr>))))"

subsection \<open>Batched updates\<close>

definition bulk_update_step ::
  "FatUpdate \<Rightarrow> Fat32 \<times> nat list \<Rightarrow> (Fat32 \<times> nat list) res" where
  "bulk_update_step u st =
     (let (fs, sectors) = st; cluster = upd_cluster u in
      bindE (die_if (cluster \<ge> fs_fat_entry_count fs) (Die ''attempted bulk FAT write outside table'')) (\<lambda>_.
      Inr (fs\<lparr>fs_fat := (fs_fat fs)[cluster :=
               (fs_fat fs ! cluster AND 0xF0000000) OR (upd_value u AND FAT32_MASK)]\<rparr>,
           sectors @ [u32 ((cluster * 4) div fs_bytes_per_sector fs)])))"

text \<open>Maximal runs of consecutive sectors, as first sector and length.\<close>

fun extend_run :: "nat \<Rightarrow> nat list \<Rightarrow> nat \<times> nat list" where
  "extend_run prev [] = (0, [])"
| "extend_run prev (s # rest) =
     (if s = u32 (prev + 1) then (let (n, tail) = extend_run s rest in (n + 1, tail))
      else (0, s # rest))"

lemma extend_run_length: "length (snd (extend_run prev rest)) \<le> length rest"
proof (induction rest arbitrary: prev)
  case Nil
  then show ?case by simp
next
  case (Cons s rest)
  from Cons.IH [of s] show ?case
    by (cases "extend_run s rest") (auto simp: Let_def)
qed

function sector_runs :: "nat list \<Rightarrow> (nat \<times> nat) list" where
  "sector_runs [] = []"
| "sector_runs (s # rest) =
     (let (n, tail) = extend_run s rest in (s, n + 1) # sector_runs tail)"
  by pat_completeness auto
termination
proof (relation "measure length")
  show "wf (measure length)" by simp
  show "(tail, s # rest) \<in> measure length" if "x = extend_run s rest" "(n, tail) = x"
    for s rest x n tail
    using extend_run_length [of s rest] that by (metis in_measure le_imp_less_Suc length_Cons snd_conv)
qed

definition bulk_run_bytes :: "env \<Rightarrow> Fat32 \<Rightarrow> nat \<Rightarrow> nat \<Rightarrow> bytes res" where
  "bulk_run_bytes E fs first_sector sector_count =
     (let bytes = sector_count * fs_bytes_per_sector fs;
          first_entry = (first_sector * fs_bytes_per_sector fs) div 4;
          entry_count = bytes div 4
      in if first_entry + entry_count > length (fs_fat fs) then Inl (MemFault ''fs->fat'')
         else Inr (concat (map (\<lambda>entry. store_le32 E (fs_fat fs ! (first_entry + entry))) [0..<entry_count])))"

definition bulk_write_copy :: "env \<Rightarrow> Fat32 \<Rightarrow> nat \<Rightarrow> bytes \<Rightarrow> nat \<Rightarrow> unit \<Rightarrow> unit io" where
  "bulk_write_copy E fs first_sector raw copy u =
     ld_pwrite_exact E raw
       (fs_fat0_offset fs + copy * fs_fat_bytes fs + first_sector * fs_bytes_per_sector fs)
       ''write FAT sector batch''"

definition bulk_write_run :: "env \<Rightarrow> Fat32 \<Rightarrow> nat \<times> nat \<Rightarrow> unit \<Rightarrow> unit io" where
  "bulk_write_run E fs run u =
     (let (first_sector, sector_count) = run in
      bindI (readI (\<lambda>_. bulk_run_bytes E fs first_sector sector_count)) (\<lambda>raw.
      foldI (bulk_write_copy E fs first_sector raw) (fat_copies fs) ()))"

definition fat32_apply_updates :: "env \<Rightarrow> Fat32 \<Rightarrow> FatUpdate list \<Rightarrow> Fat32 io" where
  "fat32_apply_updates E fs updates =
     (if updates = [] then retI fs
      else thenI (die_ifI (\<not> dev_writable (fs_dev fs))
              (Die ''internal error: attempted bulk FAT write on read-only target''))
       (if fs_fat_type fs \<noteq> FAT_TYPE_32 \<or> (fs_recovery_mode fs \<and> fs_fat_mirroring fs) then
          foldI (\<lambda>u fs. fat32_write_entry E fs (upd_cluster u) (upd_value u)) updates fs
        else
          bindI (readI (\<lambda>_. foldE bulk_update_step updates (fs, []))) (\<lambda>(fs, sectors).
          let runs = sector_runs (remdups_adj (sort sectors)) in
          bindI (foldI (bulk_write_run E fs) runs ()) (\<lambda>_. retI fs))))"

end
