(* ===== verification/FatChain.thy ===== *)
theory FatChain
  imports FatVolume
begin

text \<open>
  Cluster chains: \<open>fat32_read_chain\<close> of \<open>fat_volume.c\<close> and \<open>chain_fragments\<close> of
  \<open>fat_directory.c\<close>, the invariants of the loaded table and of the traversal scratch
  arrays, and the mathematical notion of a chain they implement.
\<close>

section \<open>The traversal\<close>

text \<open>
  \<open>chain_seen\<close> marks visited clusters with the number of the traversal; when the 32-bit
  traversal number wraps to 0 the marks are cleared and it restarts at 1. The test of the
  chain length against the cluster count ends the loop whatever the marks hold.
\<close>

function read_chain_loop :: "env \<Rightarrow> Fat32 \<Rightarrow> nat list \<Rightarrow> nat \<Rightarrow> (nat list \<times> Fat32) res" where
  "read_chain_loop E fs chain current =
     (if current < 2 \<or> current > fs_max_cluster fs
      then Inl (Die ''cluster chain points outside data region'')
      else if fs_chain_seen fs ! current = fs_chain_generation fs
      then Inl (Die ''cluster-chain loop detected'')
      else
        let fs' = fs\<lparr>fs_chain_seen := (fs_chain_seen fs)[current := fs_chain_generation fs]\<rparr> in
        case u32vec_push E chain current of
          Inl e \<Rightarrow> Inl e
        | Inr chain' \<Rightarrow>
          (case fat_value fs' current of
             Inl e \<Rightarrow> Inl e
           | Inr nxt \<Rightarrow>
             if fat_is_eoc_for fs' nxt then Inr (chain', fs')
             else if nxt = 0 then Inl (Die ''allocated chain terminates in a free FAT entry'')
             else if nxt = fat_bad_value fs' \<or> (nxt \<ge> fat_reserved_min fs' \<and> nxt < fat_eoc_min fs')
             then Inl (Die ''cluster chain reaches a bad or reserved FAT entry'')
             else if length chain' > fs_cluster_count fs'
             then Inl (Die ''cluster chain exceeds volume cluster count'')
             else read_chain_loop E fs' chain' nxt))"
  by pat_completeness auto
termination
  by (relation "measure (\<lambda>(E, fs, chain, current). Suc (fs_cluster_count fs) - length chain)")
    (auto simp: u32vec_push_def split: if_splits)

declare read_chain_loop.simps [simp del]

definition fat32_read_chain :: "env \<Rightarrow> Fat32 \<Rightarrow> nat \<Rightarrow> (nat list \<times> Fat32) res" where
  "fat32_read_chain E fs first =
     (if first = 0 then Inr ([], fs)
      else if first < 2 \<or> first > fs_max_cluster fs
      then Inl (Die ''file begins at invalid cluster'')
      else
        let generation = u32 (fs_chain_generation fs + 1);
            fs = (if generation = 0
                  then fs\<lparr>fs_chain_seen := replicate (fs_max_cluster fs + 1) 0, fs_chain_generation := 1\<rparr>
                  else fs\<lparr>fs_chain_generation := generation\<rparr>)
        in read_chain_loop E fs [] first)"

fun count_breaks :: "nat \<Rightarrow> nat list \<Rightarrow> nat" where
  "count_breaks prev [] = 0"
| "count_breaks prev (c # rest) = (if c \<noteq> u32 (prev + 1) then 1 else 0) + count_breaks c rest"

definition chain_fragments :: "nat list \<Rightarrow> nat" where
  "chain_fragments chain = (case chain of [] \<Rightarrow> 0 | c # rest \<Rightarrow> 1 + count_breaks c rest)"

section \<open>Invariants of the loaded volume\<close>

definition table_ok :: "Fat32 \<Rightarrow> bool" where
  "table_ok fs \<longleftrightarrow>
     1 \<le> fs_cluster_count fs \<and> fs_max_cluster fs = fs_cluster_count fs + 1 \<and>
     fs_max_cluster fs < fs_fat_entry_count fs \<and> fs_fat_entry_count fs \<le> UINT32_MAX \<and>
     length (fs_fat fs) = fs_fat_entry_count fs \<and>
     (\<forall>v \<in> set (fs_fat fs). v \<le> fat_mask fs)"

definition scratch_ok :: "Fat32 \<Rightarrow> bool" where
  "scratch_ok fs \<longleftrightarrow>
     length (fs_visited_dirs fs) = fs_max_cluster fs + 1 \<and>
     length (fs_claimed_clusters fs) = fs_max_cluster fs + 1 \<and>
     length (fs_chain_seen fs) = fs_max_cluster fs + 1 \<and>
     (\<forall>g \<in> set (fs_chain_seen fs). g \<le> fs_chain_generation fs) \<and>
     fs_chain_generation fs < 4294967296"

text \<open>Two volumes that differ in the traversal marks only.\<close>

definition same_but_marks :: "Fat32 \<Rightarrow> Fat32 \<Rightarrow> bool" where
  "same_but_marks fs fs' \<longleftrightarrow>
     (\<exists>s g. fs' = fs\<lparr>fs_chain_seen := s, fs_chain_generation := g\<rparr>)"

lemma same_but_marks_refl [simp]: "same_but_marks fs fs"
  unfolding same_but_marks_def
  by (rule exI [of _ "fs_chain_seen fs"], rule exI [of _ "fs_chain_generation fs"]) simp

lemma same_but_marks_trans: "same_but_marks a b \<Longrightarrow> same_but_marks b c \<Longrightarrow> same_but_marks a c"
  unfolding same_but_marks_def by (clarsimp, blast)

section \<open>What a chain is\<close>

text \<open>
  \<open>fat_links fs c n\<close>: the entry of \<open>c\<close> continues the chain at \<open>n\<close>; \<open>fat_ends fs c\<close>: it
  ends it. Values from the reserved range on are never links.
\<close>

definition fat_entry :: "Fat32 \<Rightarrow> nat \<Rightarrow> nat" where
  "fat_entry fs c = (fs_fat fs ! c) AND fat_mask fs"

definition data_cluster :: "Fat32 \<Rightarrow> nat \<Rightarrow> bool" where
  "data_cluster fs c \<longleftrightarrow> 2 \<le> c \<and> c \<le> fs_max_cluster fs"

definition fat_ends :: "Fat32 \<Rightarrow> nat \<Rightarrow> bool" where
  "fat_ends fs c \<longleftrightarrow> fat_eoc_min fs \<le> fat_entry fs c"

definition fat_links :: "Fat32 \<Rightarrow> nat \<Rightarrow> nat \<Rightarrow> bool" where
  "fat_links fs c n \<longleftrightarrow> fat_entry fs c = n \<and> data_cluster fs n \<and> n < fat_reserved_min fs"

fun linked :: "Fat32 \<Rightarrow> nat list \<Rightarrow> bool" where
  "linked fs [] = False"
| "linked fs [c] = (data_cluster fs c \<and> fat_ends fs c)"
| "linked fs (c # n # rest) = (data_cluster fs c \<and> fat_links fs c n \<and> linked fs (n # rest))"

definition is_chain :: "Fat32 \<Rightarrow> nat \<Rightarrow> nat list \<Rightarrow> bool" where
  "is_chain fs first cs \<longleftrightarrow> linked fs cs \<and> hd cs = first \<and> distinct cs"

section \<open>Soundness and completeness of the traversal\<close>

lemma fat_constants:
  "2 < fat_reserved_min fs" "fat_reserved_min fs \<le> fat_bad_value fs"
  "fat_bad_value fs < fat_eoc_min fs" "fat_eoc_min fs \<le> fat_mask fs"
  by (cases "fs_fat_type fs"; simp add: fat_reserved_min_def fat_bad_value_def fat_eoc_min_def fat_mask_def)+

lemma fat_mask_idem [simp]: "((v AND fat_mask fs) AND fat_mask fs) = v AND fat_mask fs"
  by (simp add: and.assoc)

lemma entry_le_mask: "fat_entry fs c \<le> fat_mask fs"
  by (cases "fs_fat_type fs") (simp_all add: fat_entry_def fat_mask_def less_Suc_eq_le [symmetric])

lemma same_but_marks_simps:
  assumes "same_but_marks fs fs'"
  shows "fat_entry fs' = fat_entry fs" "fs_max_cluster fs' = fs_max_cluster fs"
    "data_cluster fs' = data_cluster fs" "fat_ends fs' = fat_ends fs" "fat_links fs' = fat_links fs"
    "linked fs' = linked fs" "is_chain fs' = is_chain fs" "table_ok fs' = table_ok fs"
    "fat_value fs' = fat_value fs"
proof -
  obtain s g where fs': "fs' = fs\<lparr>fs_chain_seen := s, fs_chain_generation := g\<rparr>"
    using assms by (auto simp: same_but_marks_def)
  show e: "fat_entry fs' = fat_entry fs" by (simp add: fs' fat_entry_def fat_mask_def fun_eq_iff)
  show "fs_max_cluster fs' = fs_max_cluster fs" by (simp add: fs')
  show d: "data_cluster fs' = data_cluster fs" by (simp add: fs' data_cluster_def fun_eq_iff)
  show en: "fat_ends fs' = fat_ends fs"
    by (simp add: fat_ends_def e fun_eq_iff) (simp add: fs' fat_eoc_min_def)
  show li: "fat_links fs' = fat_links fs"
    by (simp add: fat_links_def e d fun_eq_iff) (simp add: fs' fat_reserved_min_def)
  have "linked fs' cs = linked fs cs" for cs
    by (induction cs rule: induct_list012) (simp_all add: d en li)
  then show l: "linked fs' = linked fs" by blast
  show "is_chain fs' = is_chain fs" by (simp add: is_chain_def l fun_eq_iff)
  show "table_ok fs' = table_ok fs" by (simp add: table_ok_def fs' fat_mask_def)
  show "fat_value fs' = fat_value fs" by (simp add: fat_value_def fs' fat_mask_def fun_eq_iff)
qed

definition marks_of :: "Fat32 \<Rightarrow> nat list \<Rightarrow> bool" where
  "marks_of fs chain \<longleftrightarrow>
     length (fs_chain_seen fs) = fs_max_cluster fs + 1 \<and>
     (\<forall>c \<le> fs_max_cluster fs. fs_chain_seen fs ! c = fs_chain_generation fs \<longleftrightarrow> c \<in> set chain)"

definition mark :: "Fat32 \<Rightarrow> nat \<Rightarrow> Fat32" where
  "mark fs c = fs\<lparr>fs_chain_seen := (fs_chain_seen fs)[c := fs_chain_generation fs]\<rparr>"

lemma same_but_marks_mark [simp]: "same_but_marks fs (mark fs c)"
  unfolding same_but_marks_def mark_def
  by (rule exI, rule exI [of _ "fs_chain_generation fs"]) simp

lemma mark_simps [simp]:
  "fs_max_cluster (mark fs c) = fs_max_cluster fs"
  "fs_cluster_count (mark fs c) = fs_cluster_count fs"
  "fs_fat_entry_count (mark fs c) = fs_fat_entry_count fs"
  "fs_chain_generation (mark fs c) = fs_chain_generation fs"
  "fat_mask (mark fs c) = fat_mask fs" "fat_eoc_min (mark fs c) = fat_eoc_min fs"
  "fat_reserved_min (mark fs c) = fat_reserved_min fs" "fat_bad_value (mark fs c) = fat_bad_value fs"
  "fat_entry (mark fs c) = fat_entry fs" "fat_ends (mark fs c) = fat_ends fs" "fat_links (mark fs c) = fat_links fs"
  "linked (mark fs c) = linked fs" "data_cluster (mark fs c) = data_cluster fs"
  "table_ok (mark fs c) = table_ok fs" "fat_value (mark fs c) = fat_value fs"
  using same_but_marks_simps [OF same_but_marks_mark, of fs c]
  by (simp_all add: mark_def fat_mask_def fat_eoc_min_def fat_reserved_min_def fat_bad_value_def)

lemma fat_is_eoc_for_mark [simp]: "fat_is_eoc_for (mark fs c) = fat_is_eoc_for fs"
  by (simp add: fat_is_eoc_for_def fun_eq_iff)

lemma marks_of_mark: "marks_of fs chain \<Longrightarrow> c \<le> fs_max_cluster fs \<Longrightarrow> marks_of (mark fs c) (chain @ [c])"
  by (auto simp: marks_of_def mark_def nth_list_update)

lemma fat_value_Inr: "fat_value fs c = Inr v \<longleftrightarrow> c < fs_fat_entry_count fs \<and> v = fat_entry fs c"
  by (auto simp: fat_value_def fat_entry_def)

lemma table_ok_in_range: "table_ok fs \<Longrightarrow> c \<le> fs_max_cluster fs \<Longrightarrow> c < fs_fat_entry_count fs"
  by (simp add: table_ok_def)

lemma push_Inr: "u32vec_push E v x = Inr v' \<Longrightarrow> v' = v @ [x]"
  by (simp add: u32vec_push_def split: if_splits)

lemma eoc_iff: "fat_is_eoc_for fs (fat_entry fs c) \<longleftrightarrow> fat_ends fs c"
  by (simp add: fat_is_eoc_for_def fat_ends_def fat_entry_def)

text \<open>One turn of the loop.\<close>

lemma read_chain_loop_step:
  "read_chain_loop E fs chain current = Inr r \<Longrightarrow>
   data_cluster fs current \<and> fs_chain_seen fs ! current \<noteq> fs_chain_generation fs \<and>
   (if fat_ends fs current then r = (chain @ [current], mark fs current)
    else fat_entry fs current \<noteq> 0 \<and> fat_entry fs current < fat_reserved_min fs \<and>
      length chain < fs_cluster_count fs \<and>
      read_chain_loop E (mark fs current) (chain @ [current]) (fat_entry fs current) = Inr r)"
  apply (subst (asm) read_chain_loop.simps)
  apply (auto simp: Let_def data_cluster_def mark_def [symmetric] fat_value_Inr eoc_iff
      fat_ends_def dest!: push_Inr split: if_splits sum.splits)
  done

lemma read_chain_loop_intro:
  assumes "data_cluster fs current" "fs_chain_seen fs ! current \<noteq> fs_chain_generation fs"
    "table_ok fs" "reserve_ok E" "length chain < SIZE_MAX"
  shows "read_chain_loop E fs chain current =
    (if fat_ends fs current then Inr (chain @ [current], mark fs current)
     else if fat_entry fs current = 0 then Inl (Die ''allocated chain terminates in a free FAT entry'')
     else if fat_reserved_min fs \<le> fat_entry fs current
     then Inl (Die ''cluster chain reaches a bad or reserved FAT entry'')
     else if length chain \<ge> fs_cluster_count fs
     then Inl (Die ''cluster chain exceeds volume cluster count'')
     else read_chain_loop E (mark fs current) (chain @ [current]) (fat_entry fs current))"
proof -
  have push: "u32vec_push E chain current = Inr (chain @ [current])"
    using assms(4,5) by (simp add: u32vec_push_def reserve_ok_def)
  have val: "fat_value fs current = Inr (fat_entry fs current)"
    using assms(1,3) by (simp add: fat_value_Inr data_cluster_def table_ok_def)
  show ?thesis
    using assms(1,2) fat_constants [of fs]
    apply (subst read_chain_loop.simps)
    apply (simp add: Let_def mark_def [symmetric] push val eoc_iff data_cluster_def fat_ends_def)
    done
qed

lemma read_chain_loop_sound:
  assumes "read_chain_loop E fs chain current = Inr (cs, fs')" "marks_of fs chain" "distinct chain"
  shows "\<exists>rest. cs = chain @ rest \<and> rest \<noteq> [] \<and> hd rest = current \<and> linked fs rest \<and>
    distinct cs \<and> marks_of fs' cs \<and> same_but_marks fs fs' \<and>
    fs_chain_generation fs' = fs_chain_generation fs"
  using assms
proof (induction "fs_cluster_count fs - length chain" arbitrary: fs chain current rule: less_induct)
  case less
  note step = read_chain_loop_step [OF less.prems(1)]
  have cur: "data_cluster fs current" "current \<notin> set chain"
    using step less.prems(2) by (auto simp: marks_of_def data_cluster_def)
  have marks: "marks_of (mark fs current) (chain @ [current])"
    using less.prems(2) cur by (intro marks_of_mark) (auto simp: data_cluster_def)
  show ?case
  proof (cases "fat_ends fs current")
    case True
    with step marks cur less.prems(3) show ?thesis by auto
  next
    case False
    let ?n = "fat_entry fs current"
    from False step have n: "?n < fat_reserved_min fs" "length chain < fs_cluster_count fs"
      and rec: "read_chain_loop E (mark fs current) (chain @ [current]) ?n = Inr (cs, fs')"
      by auto
    have "\<exists>rest. cs = (chain @ [current]) @ rest \<and> rest \<noteq> [] \<and> hd rest = ?n \<and> linked (mark fs current) rest \<and>
      distinct cs \<and> marks_of fs' cs \<and> same_but_marks (mark fs current) fs' \<and>
      fs_chain_generation fs' = fs_chain_generation (mark fs current)"
      using n(2) cur less.prems(3) by (intro less.hyps [OF _ rec marks]) auto
    then obtain rest where rest: "cs = chain @ current # rest" "rest \<noteq> []" "hd rest = ?n" "linked fs rest"
      "distinct cs" "marks_of fs' cs" "same_but_marks (mark fs current) fs'"
      "fs_chain_generation fs' = fs_chain_generation fs" by auto
    have "data_cluster fs ?n"
      using rest(2,3,4) by (cases rest rule: remdups_adj.cases) auto
    then have "linked fs (current # rest)"
      using rest(2,3,4) cur n(1) by (cases rest) (auto simp: fat_links_def)
    with rest show ?thesis
      by (intro exI [of _ "current # rest"])
        (auto intro: same_but_marks_trans [OF same_but_marks_mark])
  qed
qed

lemma linked_data: "linked fs cs \<Longrightarrow> c \<in> set cs \<Longrightarrow> data_cluster fs c"
  by (induction cs rule: induct_list012) auto

lemma chain_length_bound:
  "table_ok fs \<Longrightarrow> linked fs cs \<Longrightarrow> distinct cs \<Longrightarrow> length cs \<le> fs_cluster_count fs"
  using distinct_bounded_length [of cs 2 "fs_max_cluster fs + 1"]
  by (fastforce simp: table_ok_def data_cluster_def dest: linked_data)

lemma read_chain_loop_complete:
  assumes "linked fs (current # rest)" "distinct (chain @ current # rest)" "marks_of fs chain"
    "table_ok fs" "reserve_ok E" "\<forall>c \<in> set chain. data_cluster fs c"
  shows "\<exists>fs'. read_chain_loop E fs chain current = Inr (chain @ current # rest, fs')"
  using assms
proof (induction rest arbitrary: fs chain current)
  case Nil
  have "set (chain @ [current]) \<subseteq> {2..<fs_max_cluster fs + 1}"
    using Nil.prems(1,6) by (auto simp: data_cluster_def)
  then have "length (chain @ [current]) \<le> fs_max_cluster fs + 1 - 2"
    using Nil.prems(2) by (intro distinct_bounded_length) auto
  then have len: "length chain < fs_cluster_count fs" "length chain < SIZE_MAX"
    using Nil.prems(4) by (auto simp: table_ok_def)
  have fresh: "fs_chain_seen fs ! current \<noteq> fs_chain_generation fs"
    using Nil.prems(1-3) by (auto simp: marks_of_def data_cluster_def)
  show ?case
    using Nil.prems(1) read_chain_loop_intro [OF _ fresh Nil.prems(4,5) len(2)] by simp
next
  case (Cons n rest)
  have data: "set (chain @ current # n # rest) \<subseteq> {2..<fs_max_cluster fs + 1}"
    using Cons.prems(6) linked_data [OF Cons.prems(1)]
    by (fastforce simp: data_cluster_def less_Suc_eq_le)
  then have "length (chain @ current # n # rest) \<le> fs_max_cluster fs + 1 - 2"
    using Cons.prems(2) by (intro distinct_bounded_length) auto
  then have len: "length chain < fs_cluster_count fs" "length chain < SIZE_MAX"
    using Cons.prems(4) by (auto simp: table_ok_def)
  have fresh: "fs_chain_seen fs ! current \<noteq> fs_chain_generation fs"
    using Cons.prems(1-3) by (auto simp: marks_of_def data_cluster_def)
  have cur: "data_cluster fs current" and link: "fat_links fs current n" and lk: "linked fs (n # rest)"
    using Cons.prems(1) by auto
  have "\<exists>fs'. read_chain_loop E (mark fs current) (chain @ [current]) n =
      Inr ((chain @ [current]) @ n # rest, fs')"
    using Cons.prems lk cur by (intro Cons.IH) (auto intro: marks_of_mark simp: data_cluster_def)
  moreover have "fat_entry fs current = n" "n < fat_reserved_min fs" "n \<noteq> 0"
    using link by (auto simp: fat_links_def data_cluster_def)
  moreover from this have "\<not> fat_ends fs current"
    using fat_constants [of fs] by (simp add: fat_ends_def)
  ultimately show ?case
    using read_chain_loop_intro [OF cur fresh Cons.prems(4,5) len(2)] len(1) by simp
qed

text \<open>The volume \<open>fat32_read_chain\<close> enters its loop with.\<close>

definition next_traversal :: "Fat32 \<Rightarrow> Fat32" where
  "next_traversal fs =
     (let g = u32 (fs_chain_generation fs + 1) in
      fs\<lparr>fs_chain_seen := (if g = 0 then replicate (fs_max_cluster fs + 1) 0 else fs_chain_seen fs),
         fs_chain_generation := (if g = 0 then 1 else g)\<rparr>)"

lemma fat32_read_chain_alt:
  "fat32_read_chain E fs first =
     (if first = 0 then Inr ([], fs)
      else if \<not> data_cluster fs first then Inl (Die ''file begins at invalid cluster'')
      else read_chain_loop E (next_traversal fs) [] first)"
  by (simp add: fat32_read_chain_def next_traversal_def data_cluster_def Let_def not_le)

lemma same_but_marks_next [simp]: "same_but_marks fs (next_traversal fs)"
  unfolding same_but_marks_def next_traversal_def Let_def by blast

lemma marks_of_next:
  assumes "scratch_ok fs"
  shows "marks_of (next_traversal fs) []"
proof (cases "u32 (fs_chain_generation fs + 1) = 0")
  case True
  then show ?thesis by (simp add: marks_of_def next_traversal_def del: replicate_Suc)
next
  case False
  then have g: "u32 (fs_chain_generation fs + 1) = fs_chain_generation fs + 1"
    using assms by (cases "fs_chain_generation fs = 4294967295") (auto simp: u32_def scratch_ok_def)
  show ?thesis
    using assms unfolding marks_of_def next_traversal_def g scratch_ok_def
    by (auto simp: Let_def) (metis Suc_n_not_le_n le_imp_less_Suc nth_mem)
qed

lemma read_chain_loop_scratch:
  "read_chain_loop E fs chain current = Inr (cs, fs') \<Longrightarrow> scratch_ok fs \<Longrightarrow> scratch_ok fs'"
proof (induction "fs_cluster_count fs - length chain" arbitrary: fs chain current rule: less_induct)
  case less
  note step = read_chain_loop_step [OF less.prems(1)]
  have ok: "scratch_ok (mark fs current)"
    using less.prems(2) set_update_subset_insert [of "fs_chain_seen fs" current "fs_chain_generation fs"]
    by (auto simp: scratch_ok_def mark_def)
  show ?case
  proof (cases "fat_ends fs current")
    case True
    with step ok show ?thesis by auto
  next
    case False
    with step have "read_chain_loop E (mark fs current) (chain @ [current]) (fat_entry fs current) = Inr (cs, fs')"
      "length chain < fs_cluster_count fs" by auto
    with less.hyps [OF _ this(1) ok] show ?thesis by simp
  qed
qed

lemma scratch_ok_next: "scratch_ok fs \<Longrightarrow> scratch_ok (next_traversal fs)"
  by (force simp: scratch_ok_def next_traversal_def Let_def u32_def mod_Suc)

lemma fat32_read_chain_sound:
  assumes "fat32_read_chain E fs first = Inr (cs, fs')" "scratch_ok fs" "first \<noteq> 0"
  shows "is_chain fs first cs \<and> same_but_marks fs fs' \<and> scratch_ok fs'"
proof -
  have loop: "read_chain_loop E (next_traversal fs) [] first = Inr (cs, fs')"
    using assms(1,3) by (simp add: fat32_read_chain_alt split: if_splits)
  obtain rest where "cs = rest" "rest \<noteq> []" "hd rest = first" "linked (next_traversal fs) rest" "distinct cs"
      "same_but_marks (next_traversal fs) fs'"
    using read_chain_loop_sound [OF loop marks_of_next [OF assms(2)]] by auto
  then show ?thesis
    using read_chain_loop_scratch [OF loop scratch_ok_next [OF assms(2)]]
      same_but_marks_simps [OF same_but_marks_next, of fs]
    by (auto simp: is_chain_def intro: same_but_marks_trans [OF same_but_marks_next])
qed

lemma fat32_read_chain_complete:
  assumes "is_chain fs first cs" "table_ok fs" "scratch_ok fs" "reserve_ok E"
  shows "\<exists>fs'. fat32_read_chain E fs first = Inr (cs, fs')"
proof -
  note same = same_but_marks_simps [OF same_but_marks_next, of fs]
  obtain rest where cs: "cs = first # rest"
    using assms(1) by (cases cs) (auto simp: is_chain_def)
  have data: "data_cluster fs first"
    using assms(1) cs linked_data [of fs cs first] by (simp add: is_chain_def)
  have "\<exists>fs'. read_chain_loop E (next_traversal fs) [] first = Inr ([] @ first # rest, fs')"
    using assms cs by (intro read_chain_loop_complete) (auto simp: same is_chain_def marks_of_next)
  with data cs show ?thesis
    by (auto simp: fat32_read_chain_alt data_cluster_def)
qed

lemma is_chain_unique:
  assumes "is_chain fs first cs" "is_chain fs first ds"
  shows "cs = ds"
proof -
  have "linked fs cs \<Longrightarrow> linked fs ds \<Longrightarrow> hd cs = hd ds \<Longrightarrow> cs = ds" for cs ds
  proof (induction cs arbitrary: ds rule: induct_list012)
    case 1
    then show ?case by simp
  next
    case (2 c)
    then show ?case
      using fat_constants [of fs] by (cases ds rule: remdups_adj.cases) (auto simp: fat_ends_def fat_links_def)
  next
    case (3 c n rest)
    obtain es where "ds = c # n # es"
      using 3(3-5) fat_constants [of fs]
      by (cases ds rule: remdups_adj.cases) (auto simp: fat_ends_def fat_links_def)
    with 3(2) [of "n # es"] 3(3,4) show ?case by auto
  qed
  with assms show ?thesis by (simp add: is_chain_def)
qed

text \<open>A chain counts as one fragment exactly when it is a run of consecutive clusters.\<close>

lemma count_breaks_run:
  "(\<forall>c \<in> set (prev # rest). c < UINT32_MAX) \<Longrightarrow>
   count_breaks prev rest = 0 \<longleftrightarrow> prev # rest = [prev..<prev + Suc (length rest)]"
proof (induction rest arbitrary: prev)
  case Nil
  then show ?case by simp
next
  case (Cons c rest)
  have "u32 (prev + 1) = prev + 1" using Cons.prems by (simp add: u32_id)
  with Cons.IH [of c] Cons.prems show ?case
    by (auto simp: upt_Cons simp del: upt_Suc)
qed

lemma chain_fragments_one:
  assumes "\<forall>c \<in> set cs. c < UINT32_MAX"
  shows "chain_fragments cs = 1 \<longleftrightarrow> cs \<noteq> [] \<and> cs = [hd cs..<hd cs + length cs]"
proof (cases cs)
  case (Cons c rest)
  with count_breaks_run [of c rest] assms show ?thesis by (simp add: chain_fragments_def del: upt_Suc)
qed (simp add: chain_fragments_def)

end
