(* ===== verification/FatCodec.thy ===== *)
theory FatCodec
  imports FatChain
begin

text \<open>
  The entry codec of \<open>fat_volume.c\<close> at the level of bytes: an entry of the raw table as
  a number, and what storing one entry does to it and to its neighbours at each width.
\<close>

section \<open>The entry codec on bytes\<close>

lemma load_le16_nth:
  "endian_ok E \<Longrightarrow> i + 1 < length raw \<Longrightarrow>
   load_le16 E (drop i raw) = unat (raw ! i) + 256 * unat (raw ! (i + 1))"
  by (simp add: Cons_nth_drop_Suc [symmetric] load_le16_Cons)

lemma load_le32_nth:
  "endian_ok E \<Longrightarrow> i + 3 < length raw \<Longrightarrow>
   load_le32 E (drop i raw) = unat (raw ! i) + 256 * unat (raw ! (i + 1)) +
     65536 * unat (raw ! (i + 2)) + 16777216 * unat (raw ! (i + 3))"
proof -
  assume E: "endian_ok E" and i: "i + 3 < length raw"
  have "drop i raw = raw ! i # raw ! Suc i # raw ! Suc (Suc i) # raw ! Suc (Suc (Suc i)) #
      drop (Suc (Suc (Suc (Suc i)))) raw"
    using i by (simp add: Cons_nth_drop_Suc)
  moreover have "i + 1 = Suc i" "i + 2 = Suc (Suc i)" "i + 3 = Suc (Suc (Suc i))" by simp_all
  ultimately show ?thesis using E by (simp only: load_le32_Cons)
qed

lemma mod_from_split: "x = r + m * q \<Longrightarrow> r < m \<Longrightarrow> x mod m = r" for x r m q :: nat
  by simp

lemma low_28_bits:
  fixes a b c d :: nat
  assumes "a < 256" "b < 256" "c < 256"
  shows "(a + 256 * b + 65536 * c + 16777216 * d) mod 268435456 =
    a + 256 * b + 65536 * c + 16777216 * (d mod 16)"
proof -
  have "a + 256 * b + 65536 * c + 16777216 * d =
      (a + 256 * b + 65536 * c + 16777216 * (d mod 16)) + 268435456 * (d div 16)"
    using div_mult_mod_eq [of d 16] by linarith
  moreover have "a + 256 * b + 65536 * c + 16777216 * (d mod 16) < 268435456"
    using assms mod_less_divisor [of 16 d] by linarith
  ultimately show ?thesis by (rule mod_from_split)
qed

lemma nibbles_16:
  fixes a b :: nat
  assumes "a < 256"
  shows "(a + 256 * b) mod 4096 = a + 256 * (b mod 16)" "(a + 256 * b) div 16 = a div 16 + 16 * b"
proof -
  have "a + 256 * b = (a + 256 * (b mod 16)) + 4096 * (b div 16)"
    using div_mult_mod_eq [of b 16] by linarith
  moreover have "a + 256 * (b mod 16) < 4096"
    using assms mod_less_divisor [of 16 b] by linarith
  ultimately show "(a + 256 * b) mod 4096 = a + 256 * (b mod 16)" by (rule mod_from_split)
  show "(a + 256 * b) div 16 = a div 16 + 16 * b" by presburger
qed

text \<open>An entry of the raw table as a number, from its bytes.\<close>

definition raw_entry :: "Fat32 \<Rightarrow> bytes \<Rightarrow> nat \<Rightarrow> nat" where
  "raw_entry fs raw c = (case fs_fat_type fs of
     FAT_TYPE_12 \<Rightarrow>
       (if even c then unat (raw ! (3 * (c div 2))) + 256 * (unat (raw ! (3 * (c div 2) + 1)) mod 16)
        else unat (raw ! (3 * (c div 2) + 1)) div 16 + 16 * unat (raw ! (3 * (c div 2) + 2)))
   | FAT_TYPE_16 \<Rightarrow> unat (raw ! (2 * c)) + 256 * unat (raw ! (2 * c + 1))
   | FAT_TYPE_32 \<Rightarrow> unat (raw ! (4 * c)) + 256 * unat (raw ! (4 * c + 1)) +
       65536 * unat (raw ! (4 * c + 2)) + 16777216 * (unat (raw ! (4 * c + 3)) mod 16))"

definition entry_in :: "Fat32 \<Rightarrow> bytes \<Rightarrow> nat \<Rightarrow> bool" where
  "entry_in fs raw c \<longleftrightarrow> fat_entry_byte_offset fs c + fat_entry_span fs \<le> length raw"

lemma fat12_offset: "c + c div 2 = 3 * (c div 2) + (c mod 2)" for c :: nat
  by presburger

lemma decode_fat_entry_raw:
  assumes "endian_ok E" "entry_in fs raw c"
  shows "decode_fat_entry E fs raw (length raw) c = Inr (raw_entry fs raw c)"
proof (cases "fs_fat_type fs")
  case FAT_TYPE_12
  have "c + c div 2 + 1 < length raw" using assms(2) FAT_TYPE_12
    by (simp add: entry_in_def fat_entry_byte_offset_def fat_entry_span_def)
  with assms(1) FAT_TYPE_12 show ?thesis
    using nibbles_16 [OF unat_byte_less [of "raw ! (3 * (c div 2))"]]
      nibbles_16 [OF unat_byte_less [of "raw ! (3 * (c div 2) + 1)"]]
    by (cases "even c") (auto simp: decode_fat_entry_def fat_entry_byte_offset_def Let_def raw_entry_def
        load_le16_nth nat_and_1 fat12_offset drop_bit_eq_div odd_iff_mod_2_eq_one)
next
  case FAT_TYPE_16
  with assms show ?thesis
    by (simp add: decode_fat_entry_def fat_entry_byte_offset_def Let_def raw_entry_def
        load_le16_nth entry_in_def fat_entry_span_def mult.commute)
next
  case FAT_TYPE_32
  have "4 * c + 3 < length raw" using assms(2) FAT_TYPE_32
    by (simp add: entry_in_def fat_entry_byte_offset_def fat_entry_span_def mult.commute)
  with assms(1) FAT_TYPE_32 show ?thesis
    using unat_byte_less [of "raw ! (4 * c)"] unat_byte_less [of "raw ! (4 * c + 1)"]
      unat_byte_less [of "raw ! (4 * c + 2)"] unat_byte_less [of "raw ! (4 * c + 3)"]
    by (simp add: decode_fat_entry_def fat_entry_byte_offset_def Let_def raw_entry_def
        load_le32_nth mult.commute [of c] low_28_bits)
qed

text \<open>Storing one entry into the raw table.\<close>

definition store_entry :: "env \<Rightarrow> Fat32 \<Rightarrow> nat \<Rightarrow> nat \<Rightarrow> bytes \<Rightarrow> bytes" where
  "store_entry E fs c v raw =
     (let off = fat_entry_byte_offset fs c in
      patch raw off (encode_fat_entry E fs (read_at off (fat_entry_span fs) raw) c v))"

lemma length_encode [simp]:
  "endian_ok E \<Longrightarrow> length (encode_fat_entry E fs raw c v) = fat_entry_span fs"
  by (cases "fs_fat_type fs") (simp_all add: encode_fat_entry_def fat_entry_span_def Let_def)

lemma length_store_entry [simp]:
  "endian_ok E \<Longrightarrow> entry_in fs raw c \<Longrightarrow> length (store_entry E fs c v raw) = length raw"
  by (simp add: store_entry_def Let_def length_patch entry_in_def)

lemma nth_two: "i < 2 \<Longrightarrow> [a, b] ! i = (if i = 0 then a else b)" for i :: nat
  by (cases i) auto

lemma u16_fat12:
  assumes "p < 65536" "v < 4096"
  shows "u16 ((p AND 0x000F) OR push_bit 4 v) = p mod 16 + 16 * v"
    "u16 ((p AND 0xF000) OR v) = 4096 * (p div 4096) + v"
proof -
  have "(p AND 0x000F) OR push_bit 4 v = 16 * v + p mod 16"
    using nat_or_disjoint [of "p mod 16" 4 v] by (simp add: push_bit_eq_mult mult.commute or.commute)
  then show "u16 ((p AND 0x000F) OR push_bit 4 v) = p mod 16 + 16 * v"
    using assms by (simp add: u16_id)
  have "(4096 * (p div 4096)) OR v = 4096 * (p div 4096) + v"
    using nat_or_disjoint [of v 12 "p div 4096"] assms by simp
  moreover have "p div 4096 mod 16 = p div 4096"
    using assms by (simp add: less_mult_imp_div_less)
  moreover have "p div 4096 < 16" using assms(1) by (simp add: less_mult_imp_div_less)
  then have "4096 * (p div 4096) + v < 65536" using assms(2) by linarith
  ultimately show "u16 ((p AND 0xF000) OR v) = 4096 * (p div 4096) + v"
    by (simp add: nat_and_0xF000 u16_id)
qed


lemma raw_entry_12_pair:
  "raw_entry fs raw c = (let p = unat (raw ! (c + c div 2)) + 256 * unat (raw ! (c + c div 2 + 1)) in
     if even c then p mod 4096 else p div 16)" if "fs_fat_type fs = FAT_TYPE_12"
  using nibbles_16 [OF unat_byte_less [of "raw ! (3 * (c div 2))"]]
    nibbles_16 [OF unat_byte_less [of "raw ! (3 * (c div 2) + 1)"]] that
  by (cases "even c") (auto simp: raw_entry_def fat12_offset Let_def odd_iff_mod_2_eq_one)

lemma byte_pair: "a < 256 \<Longrightarrow> (a + 256 * b) div 4096 = b div 16"
    "a < 256 \<Longrightarrow> (a + 256 * b) mod 16 = a mod 16" for a b :: nat
proof -
  assume "a < 256"
  then have "(a + 256 * b) div (256 * 16) = b div 16" by (subst div_mult2_eq) simp
  then show "(a + 256 * b) div 4096 = b div 16" by simp
  have "a + 256 * b = a + 16 * (16 * b)" by simp
  then show "(a + 256 * b) mod 16 = a mod 16" by (metis mod_mult_self2)
qed

lemma pair_bytes_even: "(4096 * q + v) mod 256 = v mod 256" "(4096 * q + v) div 256 = 16 * q + v div 256"
  for q v :: nat
proof -
  have "4096 * q + v = v + 256 * (16 * q)" by simp
  then show "(4096 * q + v) mod 256 = v mod 256" "(4096 * q + v) div 256 = 16 * q + v div 256"
    by (simp_all only: mod_mult_self2 div_mult_self2)
qed

lemma pair_bytes_odd:
  fixes m v :: nat
  assumes "m < 16"
  shows "(m + 16 * v) mod 256 = (m + 16 * (v mod 16)) mod 256" "(m + 16 * v) div 256 = v div 16"
proof -
  have v: "16 * v = 16 * (v mod 16) + 256 * (v div 16)"
    using div_mult_mod_eq [of v 16] by linarith
  have small: "m + 16 * (v mod 16) < 256"
    using assms mod_less_divisor [of 16 v] by linarith
  have eq: "m + 16 * v = (m + 16 * (v mod 16)) + 256 * (v div 16)" using v by simp
  show "(m + 16 * v) mod 256 = (m + 16 * (v mod 16)) mod 256"
    unfolding eq by (simp only: mod_mult_self2)
  show "(m + 16 * v) div 256 = v div 16"
    unfolding eq using small by simp
qed

definition byte_of :: "nat \<Rightarrow> byte" where
  "byte_of n = word_of_nat n"

lemma unat_byte_of: "unat (byte_of n) = n mod 256"
  by (simp add: byte_of_def unat_byte_of_nat)

lemma byte_of_cong: "m mod 256 = n mod 256 \<Longrightarrow> byte_of m = byte_of n"
  by (simp add: byte_of_def word_of_nat_eq_iff take_bit_eq_mod)

lemma store_le16_byte: "endian_ok E \<Longrightarrow> store_le16 E v = [byte_of v, byte_of (v div 256)]"
  by (simp add: store_le16_eq byte_of_def)

lemma encode_12:
  assumes "endian_ok E" "fs_fat_type fs = FAT_TYPE_12"
    and v: "v mod 4096 = v'"
  shows "even c \<Longrightarrow> encode_fat_entry E fs [a, b] c v =
      [byte_of v', byte_of (16 * (unat b div 16) + v' div 256)]"
    "odd c \<Longrightarrow> encode_fat_entry E fs [a, b] c v =
      [byte_of (unat a mod 16 + 16 * (v' mod 16)), byte_of (v' div 16)]"
proof -
  let ?p = "unat a + 256 * unat b"
  have v': "v' < 4096" using v by (metis mod_less_divisor zero_less_numeral)
  have p: "?p < 65536" using unat_byte_less [of a] unat_byte_less [of b] by linarith
  have hi: "?p div 4096 = unat b div 16" "?p mod 16 = unat a mod 16"
    using byte_pair [OF unat_byte_less [of a]] by simp_all
  have enc: "encode_fat_entry E fs [a, b] c v =
     store_le16 E (if odd c then unat a mod 16 + 16 * v' else 4096 * (unat b div 16) + v')"
    using assms u16_fat12 [OF p v'] hi
    by (simp add: encode_fat_entry_def Let_def load_le16_Cons nat_and_1 odd_iff_mod_2_eq_one
        even_iff_mod_2_eq_zero)
  show "even c \<Longrightarrow> encode_fat_entry E fs [a, b] c v =
      [byte_of v', byte_of (16 * (unat b div 16) + v' div 256)]"
    unfolding enc using assms(1)
    by (simp add: store_le16_byte pair_bytes_even) (rule byte_of_cong, simp only: pair_bytes_even)
  show "odd c \<Longrightarrow> encode_fat_entry E fs [a, b] c v =
      [byte_of (unat a mod 16 + 16 * (v' mod 16)), byte_of (v' div 16)]"
    unfolding enc using assms(1) pair_bytes_odd [of "unat a mod 16" v']
    by (simp add: store_le16_byte) (rule byte_of_cong, simp)
qed

lemma read_at_2: "i + 2 \<le> length b \<Longrightarrow> read_at i 2 b = [b ! i, b ! (i + 1)]"
  by (rule nth_equalityI) (auto simp: buf_simps less_2_cases_iff)

lemma read_at_4: "i + 4 \<le> length b \<Longrightarrow> read_at i 4 b = [b ! i, b ! (i + 1), b ! (i + 2), b ! (i + 3)]"
  by (rule nth_equalityI) (auto simp: buf_simps less_Suc_eq numeral_eq_Suc)

lemma raw_entry_12:
  "fs_fat_type fs = FAT_TYPE_12 \<Longrightarrow> raw_entry fs raw c =
     (if even c then unat (raw ! (3 * (c div 2))) + 256 * (unat (raw ! (3 * (c div 2) + 1)) mod 16)
      else unat (raw ! (3 * (c div 2) + 1)) div 16 + 16 * unat (raw ! (3 * (c div 2) + 2)))"
  by (simp add: raw_entry_def)

lemma parity_cases:
  fixes c j :: nat
  assumes "j \<noteq> c"
  shows "j div 2 = c div 2 \<and> even j \<noteq> even c \<or> 3 * (j div 2) + 2 < 3 * (c div 2) \<or> 3 * (c div 2) + 2 < 3 * (j div 2)"
proof (cases "j div 2 = c div 2")
  case True
  have "even j \<noteq> even c"
  proof
    assume "even j = even c"
    then have "j mod 2 = c mod 2" by (metis even_iff_mod_2_eq_zero odd_iff_mod_2_eq_one)
    with True assms show False by (metis div_mult_mod_eq)
  qed
  with True show ?thesis by simp
next
  case False
  then show ?thesis by linarith
qed

lemma entry_in_12:
  "entry_in fs raw c \<Longrightarrow> fs_fat_type fs = FAT_TYPE_12 \<Longrightarrow>
   3 * (c div 2) + 1 < length raw \<and> (odd c \<longrightarrow> 3 * (c div 2) + 2 < length raw)"
  by (auto simp: entry_in_def fat_entry_byte_offset_def fat_entry_span_def fat12_offset odd_iff_mod_2_eq_one)

lemma raw_entry_12_other_pair:
  assumes "fs_fat_type fs = FAT_TYPE_12" "entry_in fs raw j" "j div 2 \<noteq> c div 2"
    and "\<And>i. i < length raw \<Longrightarrow> i < 3 * (c div 2) \<or> 3 * (c div 2) + 2 < i \<Longrightarrow> raw' ! i = raw ! i"
  shows "raw_entry fs raw' j = raw_entry fs raw j"
proof -
  have away: "3 * (j div 2) + 2 < 3 * (c div 2) \<or> 3 * (c div 2) + 2 < 3 * (j div 2)"
    using assms(3) by linarith
  note len = entry_in_12 [OF assms(2,1)]
  have "raw' ! (3 * (j div 2)) = raw ! (3 * (j div 2))"
    "raw' ! (3 * (j div 2) + 1) = raw ! (3 * (j div 2) + 1)"
    using len away by (auto intro!: assms(4))
  moreover have "odd j \<Longrightarrow> raw' ! (3 * (j div 2) + 2) = raw ! (3 * (j div 2) + 2)"
    using len away by (auto intro!: assms(4))
  ultimately show ?thesis by (simp add: raw_entry_12 [OF assms(1)])
qed

lemma raw_entry_store_12:
  assumes "endian_ok E" "entry_in fs raw c" "entry_in fs raw j" and ty: "fs_fat_type fs = FAT_TYPE_12"
  shows "raw_entry fs (store_entry E fs c v raw) j = (if j = c then v mod 4096 else raw_entry fs raw j)"
proof -
  let ?k = "3 * (c div 2)"
  define v' where "v' = v mod 4096"
  have v': "v' < 4096" "v' div 256 < 16" "v' div 16 < 256"
    by (simp_all add: v'_def less_mult_imp_div_less)
  have join: "v' mod 256 + 256 * (v' div 256) = v'" "v' mod 16 + 16 * (v' div 16) = v'" by simp_all
  note len = entry_in_12 [OF assms(2) ty]
  have pair: "j = c \<or> j div 2 \<noteq> c div 2 \<or> (j div 2 = c div 2 \<and> even j \<noteq> even c)"
    using parity_cases [of j c] by auto
  show ?thesis
  proof (cases "even c")
    case True
    then have o: "c + c div 2 = ?k" by (simp add: fat12_offset even_iff_mod_2_eq_zero)
    let ?hi = "16 * (unat (raw ! (?k + 1)) div 16) + v' div 256"
    have hi: "?hi < 256" "?hi div 16 = unat (raw ! (?k + 1)) div 16" "?hi mod 16 = v' div 256"
      using less_mult_imp_div_less [of "unat (raw ! (?k + 1))" 16 16] unat_byte_less [of "raw ! (?k + 1)"]
        v'(2) by auto
    let ?raw = "patch raw ?k [byte_of v', byte_of ?hi]"
    have st: "store_entry E fs c v raw = ?raw"
      unfolding store_entry_def Let_def fat_entry_byte_offset_def fat_entry_span_def ty FatType.case o
      using len o encode_12(1) [OF assms(1) ty v'_def [symmetric] True]
      by (simp add: read_at_2)
    have bytes: "unat (?raw ! ?k) = v' mod 256" "unat (?raw ! (?k + 1)) = ?hi"
      using len hi(1) by (simp_all add: nth_patch unat_byte_of)
    have third: "?raw ! (?k + 2) = raw ! (?k + 2)" if "?k + 2 < length raw"
      using that by (simp add: nth_patch)
    have other: "?raw ! i = raw ! i" if "i < length raw" "i < ?k \<or> ?k + 2 < i" for i
      using len that by (auto simp: nth_patch)
    show ?thesis
      using pair
    proof (elim disjE)
      assume "j = c"
      then show ?thesis
        using True hi join(1) bytes(1,2) by (simp add: raw_entry_12 [OF ty] st v'_def)
    next
      assume "j div 2 \<noteq> c div 2"
      moreover from this have "j \<noteq> c" by blast
      ultimately show ?thesis
        using raw_entry_12_other_pair [OF ty assms(3) _ other] by (simp add: st)
    next
      assume j: "j div 2 = c div 2 \<and> even j \<noteq> even c"
      then have ne: "j \<noteq> c" "odd j" using True by auto
      then have third: "?raw ! (?k + 2) = raw ! (?k + 2)"
        using entry_in_12 [OF assms(3) ty] j True by (intro third) simp
      have e: "raw_entry fs r j = unat (r ! (?k + 1)) div 16 + 16 * unat (r ! (?k + 2))" for r
        unfolding raw_entry_12 [OF ty] using j ne(2) by (simp only: if_False)
      show ?thesis
        unfolding st by (simp only: e bytes third hi ne(1) if_False)
    qed
  next
    case False
    then have o: "c + c div 2 = ?k + 1" by (simp add: fat12_offset odd_iff_mod_2_eq_one)
    let ?lo = "unat (raw ! (?k + 1)) mod 16 + 16 * (v' mod 16)"
    have lo: "?lo < 256" "?lo div 16 = v' mod 16" "?lo mod 16 = unat (raw ! (?k + 1)) mod 16"
      using mod_less_divisor [of 16 "unat (raw ! (?k + 1))"] mod_less_divisor [of 16 v'] by auto
    let ?raw = "patch raw (?k + 1) [byte_of ?lo, byte_of (v' div 16)]"
    have st: "store_entry E fs c v raw = ?raw"
      unfolding store_entry_def Let_def fat_entry_byte_offset_def fat_entry_span_def ty FatType.case o
      using len False o encode_12(2) [OF assms(1) ty v'_def [symmetric] False]
      by (simp add: read_at_2)
    have bytes: "?raw ! ?k = raw ! ?k" "unat (?raw ! (?k + 1)) = ?lo"
        "unat (?raw ! (?k + 2)) = v' div 16"
      using len lo(1) False v'(3) by (simp_all add: nth_patch unat_byte_of)
    have other: "?raw ! i = raw ! i" if "i < length raw" "i < ?k \<or> ?k + 2 < i" for i
      using len that False by (auto simp: nth_patch)
    show ?thesis
      using pair
    proof (elim disjE)
      assume "j = c"
      then show ?thesis
        using False lo join(2) bytes by (simp add: raw_entry_12 [OF ty] st v'_def)
    next
      assume "j div 2 \<noteq> c div 2"
      moreover from this have "j \<noteq> c" by blast
      ultimately show ?thesis
        using raw_entry_12_other_pair [OF ty assms(3) _ other] by (simp add: st)
    next
      assume j: "j div 2 = c div 2 \<and> even j \<noteq> even c"
      then have ne: "j \<noteq> c" "even j" using False by auto
      have e: "raw_entry fs r j = unat (r ! ?k) + 256 * (unat (r ! (?k + 1)) mod 16)" for r
        unfolding raw_entry_12 [OF ty] using j ne(2) by (simp only: if_True)
      show ?thesis
        unfolding st by (simp only: e bytes lo ne(1) if_False)
    qed
  qed
qed

lemma nibble_and_28:
  fixes p v' :: nat
  assumes "p < 4294967296" "v' < 268435456"
  shows "(p AND 0xF0000000) OR v' = 268435456 * (p div 268435456) + v'"
proof -
  have "p div 268435456 mod 16 = p div 268435456"
    using assms(1) by (simp add: less_mult_imp_div_less)
  then show ?thesis
    using nat_or_disjoint [of v' 28 "p div 268435456"] assms(2) by (simp add: nat_and_0xF0000000)
qed

lemma store_le32_byte:
  "endian_ok E \<Longrightarrow> store_le32 E v = [byte_of v, byte_of (v div 256), byte_of (v div 65536), byte_of (v div 16777216)]"
  by (simp add: store_le32_eq byte_of_def)

lemma encode_32:
  assumes "endian_ok E" "fs_fat_type fs = FAT_TYPE_32" "v mod 268435456 = v'"
  shows "encode_fat_entry E fs [a, b, d, e] c v =
    [byte_of v', byte_of (v' div 256), byte_of (v' div 65536), byte_of (16 * (unat e div 16) + v' div 16777216)]"
proof -
  let ?p = "unat a + 256 * unat b + 65536 * unat d + 16777216 * unat e"
  have small: "unat a < 256" "unat b < 256" "unat d < 256" "unat e < 256"
    by (rule unat_byte_less)+
  then have p: "?p < 4294967296" by linarith
  have "?p = (unat a + 256 * unat b + 65536 * unat d + 16777216 * (unat e mod 16)) + 268435456 * (unat e div 16)"
    using div_mult_mod_eq [of "unat e" 16] by linarith
  moreover have "unat a + 256 * unat b + 65536 * unat d + 16777216 * (unat e mod 16) < 268435456"
    using small mod_less_divisor [of 16 "unat e"] by linarith
  ultimately have top: "?p div 268435456 = unat e div 16" by simp
  have v': "v' < 268435456" using assms(3) by (metis mod_less_divisor zero_less_numeral)
  let ?q = "unat e div 16"
  let ?n = "v' + 268435456 * ?q"
  have enc: "encode_fat_entry E fs [a, b, d, e] c v = store_le32 E ?n"
    unfolding encode_fat_entry_def assms(2) FatType.case load_le32_Cons [OF assms(1)]
      nat_and_0x0FFFFFFF assms(3) nibble_and_28 [OF p v'] top by (simp only: add.commute)
  have split: "?n = v' + 256 * (1048576 * ?q)" "?n = v' + 65536 * (4096 * ?q)"
    "?n = v' + 16777216 * (16 * ?q)" by simp_all
  have b1: "?n mod 256 = v' mod 256" unfolding split(1) by (rule mod_mult_self2)
  have "?n div 256 = v' div 256 + 256 * (4096 * ?q)" unfolding split(1) by (subst div_mult_self2) simp_all
  then have b2: "?n div 256 mod 256 = v' div 256 mod 256" by (simp only: mod_mult_self2)
  have "?n div 65536 = v' div 65536 + 256 * (16 * ?q)" unfolding split(2) by (subst div_mult_self2) simp_all
  then have b3: "?n div 65536 mod 256 = v' div 65536 mod 256" by (simp only: mod_mult_self2)
  have b4: "?n div 16777216 = 16 * ?q + v' div 16777216" unfolding split(3) by (subst div_mult_self2) simp_all
  show ?thesis
    unfolding enc store_le32_byte [OF assms(1)] b4
    using byte_of_cong [OF b1] byte_of_cong [OF b2] byte_of_cong [OF b3] by simp
qed

lemma raw_entry_store_16:
  assumes "endian_ok E" "entry_in fs raw c" "entry_in fs raw j" and ty: "fs_fat_type fs = FAT_TYPE_16"
  shows "raw_entry fs (store_entry E fs c v raw) j = (if j = c then v mod 65536 else raw_entry fs raw j)"
proof -
  have len: "2 * c + 1 < length raw" "2 * j + 1 < length raw"
    using assms(2,3) ty by (auto simp: entry_in_def fat_entry_byte_offset_def fat_entry_span_def)
  have st: "store_entry E fs c v raw = patch raw (2 * c) [byte_of (v mod 65536), byte_of (v mod 65536 div 256)]"
    using assms(1) ty by (simp add: store_entry_def Let_def fat_entry_byte_offset_def encode_fat_entry_def
        store_le16_byte u16_def mult.commute)
  let ?v = "v mod 65536"
  let ?raw = "patch raw (2 * c) [byte_of ?v, byte_of (?v div 256)]"
  have v: "?v div 256 < 256" "?v mod 256 + 256 * (?v div 256) = ?v"
    by (rule less_mult_imp_div_less, simp, rule mod_mult_div_eq)
  have e: "raw_entry fs r i = unat (r ! (2 * i)) + 256 * unat (r ! (2 * i + 1))" for r i
    using ty by (simp add: raw_entry_def)
  show ?thesis
  proof (cases "j = c")
    case True
    have "unat (?raw ! (2 * c)) = ?v mod 256" "unat (?raw ! (2 * c + 1)) = ?v div 256"
      using len v(1) by (simp_all add: nth_patch unat_byte_of)
    then show ?thesis unfolding True st e by (simp only: v(2) simp_thms if_True)
  next
    case False
    then have "?raw ! (2 * j) = raw ! (2 * j)" "?raw ! (2 * j + 1) = raw ! (2 * j + 1)"
      using len by (auto simp: nth_patch)
    then show ?thesis unfolding st e by (simp only: False if_False)
  qed
qed

lemma join_aux:
  "v = a + 256 * x \<Longrightarrow> x = b + 256 * y \<Longrightarrow> y = c + 256 * z \<Longrightarrow>
   a + 256 * b + 65536 * c + 16777216 * z = v" for v :: nat
  by simp

lemma join_32:
  "v mod 256 + 256 * (v div 256 mod 256) + 65536 * (v div 65536 mod 256) + 16777216 * (v div 16777216) = v"
  for v :: nat
proof -
  have "v div 65536 = v div 256 div 256" "v div 16777216 = v div 256 div 256 div 256"
    by (simp_all add: div_mult2_eq [symmetric])
  then show ?thesis
    using join_aux [OF mod_mult_div_eq [of v 256, symmetric]
        mod_mult_div_eq [of "v div 256" 256, symmetric]
        mod_mult_div_eq [of "v div 256 div 256" 256, symmetric]] by simp
qed

lemma raw_entry_32:
  "fs_fat_type fs = FAT_TYPE_32 \<Longrightarrow> raw_entry fs raw c = unat (raw ! (4 * c)) + 256 * unat (raw ! (4 * c + 1)) +
       65536 * unat (raw ! (4 * c + 2)) + 16777216 * (unat (raw ! (4 * c + 3)) mod 16)"
  by (simp add: raw_entry_def)

lemma raw_entry_store_32:
  assumes "endian_ok E" "entry_in fs raw c" "entry_in fs raw j" and ty: "fs_fat_type fs = FAT_TYPE_32"
  shows "raw_entry fs (store_entry E fs c v raw) j = (if j = c then v mod 268435456 else raw_entry fs raw j)"
proof -
  let ?v = "v mod 268435456" and ?q = "unat (raw ! (4 * c + 3)) div 16"
  have len: "4 * c + 3 < length raw" "4 * j + 3 < length raw"
    using assms(2,3) ty by (auto simp: entry_in_def fat_entry_byte_offset_def fat_entry_span_def)
  let ?raw = "patch raw (4 * c) [byte_of ?v, byte_of (?v div 256), byte_of (?v div 65536),
      byte_of (16 * ?q + ?v div 16777216)]"
  have st: "store_entry E fs c v raw = ?raw"
    unfolding store_entry_def Let_def fat_entry_byte_offset_def fat_entry_span_def ty FatType.case
    using len encode_32 [OF assms(1) ty refl] ty by (simp add: read_at_4 mult.commute [of c])
  have "?v div 16777216 < 16" by (simp add: less_mult_imp_div_less)
  moreover have "?q < 16"
    using unat_byte_less [of "raw ! (4 * c + 3)"] by (simp add: less_mult_imp_div_less)
  ultimately have top: "16 * ?q + ?v div 16777216 < 256"
    "(16 * ?q + ?v div 16777216) mod 16 = ?v div 16777216" by auto
  show ?thesis
  proof (cases "j = c")
    case True
    have "unat (?raw ! (4 * c)) = ?v mod 256" "unat (?raw ! (4 * c + 1)) = ?v div 256 mod 256"
      "unat (?raw ! (4 * c + 2)) = ?v div 65536 mod 256"
      "unat (?raw ! (4 * c + 3)) = 16 * ?q + ?v div 16777216"
      using len top(1) by (simp_all add: nth_patch unat_byte_of)
    moreover have "?v mod 256 + 256 * (?v div 256 mod 256) + 65536 * (?v div 65536 mod 256) + 16777216 * (?v div 16777216) = ?v"
      by (rule join_32)
    ultimately show ?thesis
      unfolding True st raw_entry_32 [OF ty] by (simp only: top(2) simp_thms if_True)
  next
    case False
    have other: "?raw ! i = raw ! i" if "i < length raw" "i < 4 * c \<or> 4 * c + 4 \<le> i" for i
      using len(1) that by (auto simp: nth_patch)
    have away: "4 * j + 3 < 4 * c \<or> 4 * c + 4 \<le> 4 * j" using False by linarith
    have "?raw ! (4 * j) = raw ! (4 * j)" "?raw ! (4 * j + 1) = raw ! (4 * j + 1)"
      "?raw ! (4 * j + 2) = raw ! (4 * j + 2)" "?raw ! (4 * j + 3) = raw ! (4 * j + 3)"
      using len(2) away by (auto intro!: other)
    then show ?thesis
      unfolding st raw_entry_32 [OF ty] by (simp only: False if_False)
  qed
qed

end
