(* ===== verification/FatTable.thy ===== *)
theory FatTable
  imports FatCodec
begin

text \<open>
  The allocation table as a store of numbers: the laws shared by the table on disk and the
  table in memory, and what single and batched table writes (\<open>fat32_write_entry\<close>,
  \<open>fat32_apply_updates\<close>) do to every copy of the table.
\<close>

section \<open>Stores of numbers\<close>

text \<open>
  What a client of an allocation table relies on: a store keeps its shape under updates,
  the updated cell reads back the value reduced to the entry width, and every other cell
  keeps its value. \<open>get_fold\<close> and \<open>get_fold_perm\<close> follow for any sequence of updates.
\<close>

locale indexed_store =
  fixes ok :: "'s \<Rightarrow> bool"
    and get :: "'s \<Rightarrow> nat \<Rightarrow> nat"
    and put :: "nat \<Rightarrow> nat \<Rightarrow> 's \<Rightarrow> 's"
    and idx :: "nat \<Rightarrow> bool"
    and norm :: "nat \<Rightarrow> nat"
  assumes ok_put: "ok s \<Longrightarrow> idx i \<Longrightarrow> ok (put i v s)"
    and get_put: "ok s \<Longrightarrow> idx i \<Longrightarrow> idx j \<Longrightarrow> get (put i v s) j = (if j = i then norm v else get s j)"
begin

lemma ok_fold: "ok s \<Longrightarrow> \<forall>u \<in> set us. idx (fst u) \<Longrightarrow> ok (fold (\<lambda>u. put (fst u) (snd u)) us s)"
  by (induction us arbitrary: s) (auto simp: ok_put)

lemma get_fold:
  "ok s \<Longrightarrow> \<forall>u \<in> set us. idx (fst u) \<Longrightarrow> idx j \<Longrightarrow>
   get (fold (\<lambda>u. put (fst u) (snd u)) us s) j =
     (case map_of (rev us) j of None \<Rightarrow> get s j | Some v \<Rightarrow> norm v)"
proof (induction us arbitrary: s)
  case Nil
  then show ?case by simp
next
  case (Cons u us)
  then show ?case
    by (cases u) (auto simp: ok_put get_put map_add_def split: option.split)
qed

lemma get_fold_perm:
  assumes "ok s" "\<forall>u \<in> set us. idx (fst u)" "idx j" "distinct (map fst us)" "set vs = set us"
    "distinct (map fst vs)"
  shows "get (fold (\<lambda>u. put (fst u) (snd u)) us s) j = get (fold (\<lambda>u. put (fst u) (snd u)) vs s) j"
proof -
  have "map_of (rev us) = map_of (rev vs)"
    using assms(4-6) by (simp add: map_of_inject_set rev_map [symmetric])
  moreover have "\<forall>u \<in> set vs. idx (fst u)" using assms(2,5) by simp
  ultimately show ?thesis using assms(1-3) by (simp add: get_fold)
qed

end

section \<open>The shape of a loaded volume\<close>

definition layout_ok :: "Fat32 \<Rightarrow> bool" where
  "layout_ok fs \<longleftrightarrow>
     fs_bytes_per_sector fs \<in> {512, 1024, 2048, 4096} \<and>
     1 \<le> fs_sectors_per_cluster fs \<and> fs_sectors_per_cluster fs < 256 \<and>
     fs_cluster_size fs = fs_bytes_per_sector fs * fs_sectors_per_cluster fs \<and>
     fs_active_fat fs < fs_fat_count fs \<and> fs_fat_count fs < 256 \<and>
     (fs_fat_mirroring fs \<longrightarrow> fs_active_fat fs = 0) \<and>
     fs_fat_entry_count fs = (case fs_fat_type fs of
        FAT_TYPE_12 \<Rightarrow> fs_fat_bytes fs * 2 div 3
      | FAT_TYPE_16 \<Rightarrow> fs_fat_bytes fs div 2
      | FAT_TYPE_32 \<Rightarrow> fs_fat_bytes fs div 4) \<and>
     fs_root_dir_offset fs = fs_fat0_offset fs + fs_fat_count fs * fs_fat_bytes fs \<and>
     fs_data_offset fs = fs_root_dir_offset fs + fs_root_dir_size fs \<and>
     fs_max_cluster fs = fs_cluster_count fs + 1 \<and> fs_max_cluster fs < fs_fat_entry_count fs \<and>
     1 \<le> fs_cluster_count fs \<and> fs_fat_entry_count fs \<le> UINT32_MAX \<and>
     fs_root_is_fixed fs = (fs_fat_type fs \<noteq> FAT_TYPE_32) \<and>
     (fs_root_is_fixed fs \<longrightarrow> fs_root_cluster fs = 0) \<and>
     (\<not> fs_root_is_fixed fs \<longrightarrow> data_cluster fs (fs_root_cluster fs) \<and> fs_root_dir_size fs = 0)"

lemma layout_ok_of_geometry: "geometry_ok g \<Longrightarrow> layout_ok (fat32_of_geometry dev a g)"
  unfolding geometry_ok_def layout_ok_def fat32_of_geometry_def Let_def data_cluster_def
  by (cases "geo_fat_type g")
    (auto simp: fs_fat_bytes_def geo_fat_bytes_def algebra_simps)

lemma entry_in_range:
  assumes "layout_ok fs" "length raw = fs_fat_bytes fs" "c < fs_fat_entry_count fs"
  shows "entry_in fs raw c"
proof (cases "fs_fat_type fs")
  case FAT_TYPE_12
  then have "c < fs_fat_bytes fs * 2 div 3" using assms by (simp add: layout_ok_def)
  then have "3 * c + 3 \<le> 2 * fs_fat_bytes fs"
    by (metis Suc_leI add.commute div_less_iff_less_mult mult.commute mult_Suc_right not_le zero_less_numeral
        less_eq_div_iff_mult_less_eq)
  moreover have "2 * (c div 2) \<le> c" by simp
  ultimately have "c + c div 2 + 2 \<le> fs_fat_bytes fs" by linarith
  with FAT_TYPE_12 assms(2) show ?thesis
    by (simp add: entry_in_def fat_entry_byte_offset_def fat_entry_span_def)
next
  case FAT_TYPE_16
  then have "c < fs_fat_bytes fs div 2" using assms by (simp add: layout_ok_def)
  with FAT_TYPE_16 assms(2) show ?thesis
    by (simp add: entry_in_def fat_entry_byte_offset_def fat_entry_span_def)
next
  case FAT_TYPE_32
  then have "c < fs_fat_bytes fs div 4" using assms by (simp add: layout_ok_def)
  with FAT_TYPE_32 assms(2) show ?thesis
    by (simp add: entry_in_def fat_entry_byte_offset_def fat_entry_span_def)
qed

lemma raw_entry_store:
  assumes "endian_ok E" "entry_in fs raw c" "entry_in fs raw j"
  shows "raw_entry fs (store_entry E fs c v raw) j =
    (if j = c then v AND fat_mask fs else raw_entry fs raw j)"
  using raw_entry_store_12 [OF assms] raw_entry_store_16 [OF assms] raw_entry_store_32 [OF assms]
  by (cases "fs_fat_type fs") (simp_all add: fat_mask_def)

text \<open>The table on disk is such a store.\<close>

definition raw_ok :: "env \<Rightarrow> Fat32 \<Rightarrow> bytes \<Rightarrow> bool" where
  "raw_ok E fs raw \<longleftrightarrow> endian_ok E \<and> layout_ok fs \<and> length raw = fs_fat_bytes fs"

interpretation raw_table: indexed_store "raw_ok E fs" "raw_entry fs" "store_entry E fs"
    "\<lambda>c. c < fs_fat_entry_count fs" "\<lambda>v. v AND fat_mask fs"
  for E fs
  by unfold_locales (auto simp: raw_ok_def entry_in_range raw_entry_store)

text \<open>So is the table in memory.\<close>

definition mem_put :: "nat \<Rightarrow> nat \<Rightarrow> Fat32 \<Rightarrow> Fat32" where
  "mem_put c v fs = fs\<lparr>fs_fat := (fs_fat fs)[c := v AND fat_mask fs]\<rparr>"

definition mem_ok :: "nat \<Rightarrow> nat \<Rightarrow> Fat32 \<Rightarrow> bool" where
  "mem_ok m count fs \<longleftrightarrow> fat_mask fs = m \<and> length (fs_fat fs) = count"

lemma mem_put_simps [simp]:
  "fat_mask (mem_put c v fs) = fat_mask fs" "length (fs_fat (mem_put c v fs)) = length (fs_fat fs)"
  "fs_fat_type (mem_put c v fs) = fs_fat_type fs"
  by (simp_all add: mem_put_def fat_mask_def)

lemma entry_mem_put:
  "c < length (fs_fat fs) \<Longrightarrow> fat_entry (mem_put c v fs) j = (if j = c then v AND fat_mask fs else fat_entry fs j)"
  by (auto simp: fat_entry_def mem_put_def fat_mask_def nth_list_update)

interpretation mem_table: indexed_store "mem_ok m count" fat_entry mem_put
    "\<lambda>c. c < count" "\<lambda>v. v AND m"
  for m count
  by unfold_locales (auto simp: mem_ok_def entry_mem_put)

section \<open>The copies of the table on disk\<close>

definition table_offset :: "Fat32 \<Rightarrow> nat \<Rightarrow> nat" where
  "table_offset fs copy = fs_fat0_offset fs + copy * fs_fat_bytes fs"

definition disk_table :: "Fat32 \<Rightarrow> bytes \<Rightarrow> nat \<Rightarrow> bytes" where
  "disk_table fs d copy = read_at (table_offset fs copy) (fs_fat_bytes fs) d"

definition disk_entry :: "Fat32 \<Rightarrow> bytes \<Rightarrow> nat \<Rightarrow> nat \<Rightarrow> nat" where
  "disk_entry fs d copy = raw_entry fs (disk_table fs d copy)"

text \<open>The target holds every copy of the table.\<close>

definition disk_ok :: "Fat32 \<Rightarrow> bytes \<Rightarrow> bool" where
  "disk_ok fs d \<longleftrightarrow> layout_ok fs \<and> fs_data_offset fs + fs_cluster_count fs * fs_cluster_size fs \<le> length d"

text \<open>Every copy in use agrees with the table in memory.\<close>

definition synced :: "Fat32 \<Rightarrow> bytes \<Rightarrow> bool" where
  "synced fs d \<longleftrightarrow>
     (\<forall>copy \<in> set (fat_copies fs). \<forall>c \<le> fs_max_cluster fs. disk_entry fs d copy c = fat_entry fs c)"

lemma fat_copies_less: "layout_ok fs \<Longrightarrow> copy \<in> set (fat_copies fs) \<Longrightarrow> copy < fs_fat_count fs"
  by (auto simp: fat_copies_def layout_ok_def u8_def split: if_splits)

lemma distinct_fat_copies [simp]: "distinct (fat_copies fs)"
  by (simp add: fat_copies_def)

lemma copies_disjoint: "(copy::nat) < k \<Longrightarrow> copy * n + n \<le> k * n"
  using mult_le_mono1 [of "Suc copy" k n] by simp

lemma table_inside:
  assumes "disk_ok fs d" "copy < fs_fat_count fs"
  shows "table_offset fs copy + fs_fat_bytes fs \<le> fs_root_dir_offset fs"
    "table_offset fs copy + fs_fat_bytes fs \<le> length d"
  using assms copies_disjoint [OF assms(2), of "fs_fat_bytes fs"]
  by (auto simp: disk_ok_def layout_ok_def table_offset_def)

lemma tables_apart:
  "copy \<noteq> k \<Longrightarrow> table_offset fs copy + fs_fat_bytes fs \<le> table_offset fs k \<or>
     table_offset fs k + fs_fat_bytes fs \<le> table_offset fs copy"
  using copies_disjoint [of copy k "fs_fat_bytes fs"] copies_disjoint [of k copy "fs_fat_bytes fs"]
  by (cases "copy < k") (auto simp: table_offset_def)

lemma read_at_patch_inside:
  "off + m \<le> length b \<Longrightarrow> i + length ys \<le> m \<Longrightarrow>
   read_at off m (patch b (off + i) ys) = patch (read_at off m b) i ys"
  by (rule nth_equalityI) (auto simp: buf_simps nth_patch)

lemma disk_table_patch_same:
  assumes "disk_ok fs d" "copy < fs_fat_count fs" "off + length ys \<le> fs_fat_bytes fs"
  shows "disk_table fs (patch d (table_offset fs copy + off) ys) copy = patch (disk_table fs d copy) off ys"
  using table_inside [OF assms(1,2)] assms(3) by (simp add: disk_table_def read_at_patch_inside)

lemma disk_table_patch_other:
  assumes "disk_ok fs d" "copy < fs_fat_count fs" "k < fs_fat_count fs" "k \<noteq> copy"
    "off + length ys \<le> fs_fat_bytes fs"
  shows "disk_table fs (patch d (table_offset fs copy + off) ys) k = disk_table fs d k"
  using table_inside [OF assms(1,2)] table_inside [OF assms(1,3)] tables_apart [OF assms(4), of fs] assms(5)
  unfolding disk_table_def by (intro read_at_patch_other) auto

lemma length_disk_table [simp]:
  "disk_ok fs d \<Longrightarrow> copy < fs_fat_count fs \<Longrightarrow> length (disk_table fs d copy) = fs_fat_bytes fs"
  using table_inside [of fs d copy] by (simp add: disk_table_def buf_simps)

text \<open>
  An action on the target that changes nothing but the given copies of the table: each of
  them is replaced by the image of \<open>f\<close>.
\<close>

definition tables_mapped :: "Fat32 \<Rightarrow> (bytes \<Rightarrow> bytes) \<Rightarrow> nat list \<Rightarrow> bytes \<Rightarrow> bytes \<Rightarrow> bool" where
  "tables_mapped fs f copies d d' \<longleftrightarrow>
     length d' = length d \<and>
     (\<forall>k < fs_fat_count fs. disk_table fs d' k = (if k \<in> set copies then f (disk_table fs d k) else disk_table fs d k)) \<and>
     (\<forall>i < length d. i < fs_fat0_offset fs \<or> fs_root_dir_offset fs \<le> i \<longrightarrow> d' ! i = d ! i)"

lemma tables_mapped_Nil: "tables_mapped fs f [] d d"
  by (simp add: tables_mapped_def)

lemma tables_mapped_snoc:
  assumes "tables_mapped fs f copies d d'" "tables_mapped fs f [copy] d' d''" "copy \<notin> set copies"
  shows "tables_mapped fs f (copies @ [copy]) d d''"
  using assms by (auto simp: tables_mapped_def)

lemma tables_mapped_disk_ok: "tables_mapped fs f copies d d' \<Longrightarrow> disk_ok fs d' = disk_ok fs d"
  by (simp add: tables_mapped_def disk_ok_def)

lemma tables_mapped_patch:
  assumes "disk_ok fs d" "copy < fs_fat_count fs" "off + length ys \<le> fs_fat_bytes fs"
    "f (disk_table fs d copy) = patch (disk_table fs d copy) off ys"
  shows "tables_mapped fs f [copy] d (patch d (table_offset fs copy + off) ys)"
proof -
  note ins = table_inside [OF assms(1,2)]
  have "table_offset fs copy \<ge> fs_fat0_offset fs" by (simp add: table_offset_def)
  then show ?thesis
    using assms ins disk_table_patch_same [OF assms(1-3)] disk_table_patch_other [OF assms(1,2)]
    by (auto simp: tables_mapped_def length_patch nth_patch)
qed

subsection \<open>Writing one entry\<close>

lemma write_entry_copy_mapped:
  assumes "write_entry_copy E fs c v copy u w = (Inr u', w')" "io_exact E" "endian_ok E"
    "disk_ok fs (w_disk w)" "copy < fs_fat_count fs" "c < fs_fat_entry_count fs"
  shows "tables_mapped fs (store_entry E fs c v) [copy] (w_disk w) (w_disk w') \<and>
    w_files w' = w_files w \<and> w_stop w' = w_stop w \<and>
    (\<exists>off bs. w_trace w' = w_trace w @ [EvWrite off bs])"
proof -
  let ?d = "w_disk w" and ?off = "fat_entry_byte_offset fs c"
  have layout: "layout_ok fs" using assms(4) by (simp add: disk_ok_def)
  have in_table: "?off + fat_entry_span fs \<le> fs_fat_bytes fs"
    using entry_in_range [OF layout length_disk_table [OF assms(4,5)] assms(6)]
      length_disk_table [OF assms(4,5)] by (simp add: entry_in_def)
  let ?bs = "encode_fat_entry E fs (read_at (table_offset fs copy + ?off) (fat_entry_span fs) ?d) c v"
  have w': "w' = after_write ?bs (table_offset fs copy + ?off) w"
    using assms(1) unfolding write_entry_copy_def Let_def
    by (auto simp: res_simps table_offset_def dest!: ld_pread_exact_Inr [OF assms(2)] ld_pwrite_exact_Inr [OF assms(2)])
  have "read_at (table_offset fs copy + ?off) (fat_entry_span fs) ?d =
      read_at ?off (fat_entry_span fs) (disk_table fs ?d copy)"
    using in_table by (simp add: disk_table_def read_at_read_at)
  then have "store_entry E fs c v (disk_table fs ?d copy) = patch (disk_table fs ?d copy) ?off ?bs"
    by (simp add: store_entry_def Let_def)
  then show ?thesis
    using assms(3-5) in_table by (auto simp: w' intro: tables_mapped_patch)
qed

lemma foldI_copies_mapped:
  assumes "foldI step copies () w = (Inr u', w')" "disk_ok fs (w_disk w)"
    "\<forall>k \<in> set copies. k < fs_fat_count fs" "distinct copies"
    and step: "\<And>k u v b v'. step k u v = (Inr b, v') \<Longrightarrow> disk_ok fs (w_disk v) \<Longrightarrow> k < fs_fat_count fs \<Longrightarrow>
      tables_mapped fs f [k] (w_disk v) (w_disk v') \<and> w_files v' = w_files v \<and> w_stop v' = w_stop v"
  shows "tables_mapped fs f copies (w_disk w) (w_disk w') \<and> w_files w' = w_files w \<and> w_stop w' = w_stop w"
proof -
  let ?P = "\<lambda>done u v'. tables_mapped fs f done (w_disk w) (w_disk v') \<and>
    w_files v' = w_files w \<and> w_stop v' = w_stop w"
  show ?thesis
  proof (rule foldI_prefix_invariant [OF assms(1), of ?P])
    show "?P [] () w" by (simp add: tables_mapped_Nil)
  next
    fix ys x zs a b u u'
    assume split: "copies = ys @ x # zs" and P: "?P ys a u" and run: "step x a u = (Inr b, u')"
    have "disk_ok fs (w_disk u)" using P assms(2) tables_mapped_disk_ok by blast
    moreover have "x < fs_fat_count fs" "x \<notin> set ys" using assms(3,4) split by auto
    ultimately show "?P (ys @ [x]) b u'"
      using step [OF run] P by (auto intro: tables_mapped_snoc)
  qed
qed

lemma fat32_write_entry_mapped:
  assumes "fat32_write_entry E fs c v w = (Inr fs', w')" "io_exact E" "endian_ok E" "disk_ok fs (w_disk w)"
  shows "fs' = mem_put c v fs \<and> c < fs_fat_entry_count fs \<and> dev_writable (fs_dev fs) \<and>
    tables_mapped fs (store_entry E fs c v) (fat_copies fs) (w_disk w) (w_disk w') \<and>
    w_files w' = w_files w \<and> w_stop w' = w_stop w"
proof -
  from assms(1) obtain u where c: "c < fs_fat_entry_count fs" "dev_writable (fs_dev fs)"
    and fs': "fs' = mem_put c v fs"
    and run: "foldI (write_entry_copy E fs c v) (fat_copies fs) () w = (Inr u, w')"
    by (auto simp: fat32_write_entry_def res_simps mem_put_def)
  have "\<forall>k \<in> set (fat_copies fs). k < fs_fat_count fs"
    using assms(4) by (auto simp: disk_ok_def fat_copies_less)
  then have "tables_mapped fs (store_entry E fs c v) (fat_copies fs) (w_disk w) (w_disk w') \<and>
      w_files w' = w_files w \<and> w_stop w' = w_stop w"
    using write_entry_copy_mapped [OF _ assms(2,3) _ _ c(1)]
    by (intro foldI_copies_mapped [OF run assms(4)]) auto
  with c fs' show ?thesis by simp
qed

lemma fat32_write_entry_synced:
  assumes "fat32_write_entry E fs c v w = (Inr fs', w')" "io_exact E" "endian_ok E"
    "disk_ok fs (w_disk w)" "table_ok fs" "synced fs (w_disk w)"
  shows "synced fs' (w_disk w')"
proof -
  note m = fat32_write_entry_mapped [OF assms(1-4)]
  have layout: "layout_ok fs" using assms(4) by (simp add: disk_ok_def)
  show ?thesis
    unfolding synced_def
  proof (intro ballI allI impI)
    fix copy j
    assume copy: "copy \<in> set (fat_copies fs')" and "j \<le> fs_max_cluster fs'"
    then have j': "j \<le> fs_max_cluster fs" using m by (simp add: mem_put_def)
    then have j: "j < fs_fat_entry_count fs" using assms(5) by (simp add: table_ok_def)
    have same: "fat_copies fs' = fat_copies fs" "fs_fat_entry_count fs' = fs_fat_entry_count fs"
      "disk_entry fs' = disk_entry fs"
      using m by (auto simp: mem_put_def fat_copies_def disk_entry_def raw_entry_def disk_table_def
          table_offset_def fs_fat_bytes_def fun_eq_iff)
    have k: "copy < fs_fat_count fs" using copy same layout fat_copies_less by simp
    have "raw_ok E fs (disk_table fs (w_disk w) copy)"
      using assms(3,4) k layout by (simp add: raw_ok_def)
    then have "disk_entry fs (w_disk w') copy j =
        (if j = c then v AND fat_mask fs else disk_entry fs (w_disk w) copy j)"
      using m k copy j same by (simp add: tables_mapped_def disk_entry_def raw_table.get_put)
    also have "\<dots> = fat_entry fs' j"
      using m j' same copy assms(5,6) by (auto simp: synced_def entry_mem_put table_ok_def)
    finally show "disk_entry fs' (w_disk w') copy j = fat_entry fs' j" by (simp add: same)
  qed
qed

subsection \<open>Batched writes\<close>

lemma length_concat_blocks: "(\<And>i. length (f i) = k) \<Longrightarrow> length (concat (map f xs)) = length xs * k"
  by (induction xs) auto

lemma nth_concat_blocks:
  assumes "\<And>i. length (f i) = k" "i < length xs" "m < k"
  shows "concat (map f xs) ! (i * k + m) = f (xs ! i) ! m"
  using assms(2)
proof (induction xs arbitrary: i)
  case Nil
  then show ?case by simp
next
  case (Cons x xs)
  show ?case
  proof (cases i)
    case 0
    then show ?thesis using assms(1,3) by (simp add: nth_append)
  next
    case (Suc i')
    then have "concat (map f (x # xs)) ! (i * k + m) = concat (map f xs) ! (i' * k + m)"
      using assms(1) by (simp add: nth_append)
    then show ?thesis using Cons Suc by simp
  qed
qed

text \<open>The bulk path keeps entries inside 28 bits, so its in-memory step is \<open>mem_put\<close>.\<close>

lemma bulk_update_step_mem_put:
  assumes "table_ok fs" "fs_fat_type fs = FAT_TYPE_32" "upd_cluster u < fs_fat_entry_count fs"
  shows "bulk_update_step u (fs, sectors) =
    Inr (mem_put (upd_cluster u) (upd_value u) fs,
         sectors @ [u32 ((upd_cluster u * 4) div fs_bytes_per_sector fs)])"
proof -
  have "fs_fat fs ! upd_cluster u \<le> FAT32_MASK"
    using assms by (auto simp: table_ok_def fat_mask_def)
  then have "fs_fat fs ! upd_cluster u AND 0xF0000000 = 0"
    by (simp add: nat_and_0xF0000000)
  then show ?thesis
    using assms by (simp add: bulk_update_step_def mem_put_def fat_mask_def Let_def)
qed

lemma mem_put_same [simp]:
  "fs_fat_entry_count (mem_put c v fs) = fs_fat_entry_count fs"
  "fs_bytes_per_sector (mem_put c v fs) = fs_bytes_per_sector fs"
  "fs_max_cluster (mem_put c v fs) = fs_max_cluster fs"
  "fs_fat_bytes (mem_put c v fs) = fs_fat_bytes fs"
  "fs_fat0_offset (mem_put c v fs) = fs_fat0_offset fs"
  "fat_copies (mem_put c v fs) = fat_copies fs"
  "disk_entry (mem_put c v fs) = disk_entry fs"
  "layout_ok (mem_put c v fs) = layout_ok fs"
  "disk_ok (mem_put c v fs) = disk_ok fs"
  "table_offset (mem_put c v fs) = table_offset fs"
proof -
  show layout: "layout_ok (mem_put c v fs) = layout_ok fs"
    by (cases "fs_fat_type fs") (simp_all add: layout_ok_def mem_put_def data_cluster_def fs_fat_bytes_def)
  show "disk_ok (mem_put c v fs) = disk_ok fs"
    by (simp add: disk_ok_def layout fun_eq_iff) (simp add: mem_put_def)
qed (simp_all add: mem_put_def fs_fat_bytes_def fat_copies_def disk_entry_def disk_table_def
      raw_entry_def table_offset_def fun_eq_iff)

lemma table_ok_mem_put: "table_ok fs \<Longrightarrow> table_ok (mem_put c v fs)"
proof -
  assume "table_ok fs"
  moreover have "v AND fat_mask fs \<le> fat_mask fs"
    by (cases "fs_fat_type fs") (simp_all add: fat_mask_def less_Suc_eq_le [symmetric])
  ultimately show ?thesis
    using set_update_subset_insert [of "fs_fat fs" c "v AND fat_mask fs"]
    by (auto simp: table_ok_def mem_put_def fat_mask_def)
qed

definition put_all :: "FatUpdate list \<Rightarrow> Fat32 \<Rightarrow> Fat32" where
  "put_all updates = fold (\<lambda>u. mem_put (upd_cluster u) (upd_value u)) updates"

lemma put_all_fold: "put_all updates = fold (\<lambda>u. mem_put (fst u) (snd u)) (map (\<lambda>u. (upd_cluster u, upd_value u)) updates)"
  by (simp add: put_all_def fold_map comp_def)

lemma put_all_induct:
  assumes "P fs" "\<And>fs c v. P fs \<Longrightarrow> P (mem_put c v fs)"
  shows "P (put_all updates fs)"
  using assms(1) unfolding put_all_def by (induction updates arbitrary: fs) (auto intro: assms(2))

lemma put_all_same [simp]:
  "fs_fat_entry_count (put_all us fs) = fs_fat_entry_count fs"
  "fs_max_cluster (put_all us fs) = fs_max_cluster fs"
  "fs_bytes_per_sector (put_all us fs) = fs_bytes_per_sector fs"
  "fs_fat_type (put_all us fs) = fs_fat_type fs"
  "fs_fat_bytes (put_all us fs) = fs_fat_bytes fs"
  "fs_fat0_offset (put_all us fs) = fs_fat0_offset fs"
  "fat_copies (put_all us fs) = fat_copies fs"
  "disk_entry (put_all us fs) = disk_entry fs"
  "disk_ok (put_all us fs) = disk_ok fs"
  "table_offset (put_all us fs) = table_offset fs"
  "length (fs_fat (put_all us fs)) = length (fs_fat fs)"
  by (rule put_all_induct; simp)+

lemma table_ok_put_all: "table_ok fs \<Longrightarrow> table_ok (put_all us fs)"
  by (rule put_all_induct) (auto intro: table_ok_mem_put)

lemma entry_put_all:
  assumes "table_ok fs" "\<forall>u \<in> set us. upd_cluster u < fs_fat_entry_count fs"
    "c < fs_fat_entry_count fs"
  shows "fat_entry (put_all us fs) c =
    (case map_of (rev (map (\<lambda>u. (upd_cluster u, upd_value u)) us)) c of
       None \<Rightarrow> fat_entry fs c | Some v \<Rightarrow> v AND fat_mask fs)"
  unfolding put_all_fold using assms
  by (intro mem_table.get_fold [where m = "fat_mask fs" and count = "fs_fat_entry_count fs"])
    (auto simp: mem_ok_def table_ok_def)

lemma foldE_bulk_update:
  assumes "table_ok fs" "fs_fat_type fs = FAT_TYPE_32"
    and "foldE bulk_update_step us (fs, sectors) = Inr (fs', sectors')"
  shows "fs' = put_all us fs \<and> (\<forall>u \<in> set us. upd_cluster u < fs_fat_entry_count fs) \<and>
    sectors' = sectors @ map (\<lambda>u. u32 ((upd_cluster u * 4) div fs_bytes_per_sector fs)) us"
  using assms
proof (induction us arbitrary: fs sectors)
  case Nil
  then show ?case by (simp add: put_all_def)
next
  case (Cons u us)
  have u: "upd_cluster u < fs_fat_entry_count fs"
    using Cons.prems(3) by (auto simp: bulk_update_step_def Let_def res_simps)
  with Cons.prems(3) bulk_update_step_mem_put [OF Cons.prems(1,2) u, of sectors]
  have "foldE bulk_update_step us (mem_put (upd_cluster u) (upd_value u) fs,
      sectors @ [u32 ((upd_cluster u * 4) div fs_bytes_per_sector fs)]) = Inr (fs', sectors')"
    by simp
  from Cons.IH [OF _ _ this] Cons.prems u show ?case
    by (auto simp: table_ok_mem_put put_all_def)
qed

text \<open>The runs cover exactly the listed sectors.\<close>

definition run_sectors :: "(nat \<times> nat) list \<Rightarrow> nat set" where
  "run_sectors runs = (\<Union>(s, n) \<in> set runs. {s..<s + n})"

lemma extend_run_cover:
  "extend_run prev rest = (n, tail) \<Longrightarrow> \<forall>s \<in> set (prev # rest). s < UINT32_MAX \<Longrightarrow>
   set rest = {Suc prev..<Suc prev + n} \<union> set tail \<and> set tail \<subseteq> set rest"
proof (induction rest arbitrary: prev n)
  case Nil
  then show ?case by simp
next
  case (Cons s rest)
  show ?case
  proof (cases "s = u32 (prev + 1)")
    case True
    then have s: "s = Suc prev" using Cons.prems(2) by (simp add: u32_id)
    obtain m where m: "extend_run s rest = (m, tail)" "n = Suc m"
      using Cons.prems(1) True by (cases "extend_run s rest") (auto simp: Let_def)
    have "set rest = {Suc s..<Suc s + m} \<union> set tail \<and> set tail \<subseteq> set rest"
      using Cons.IH [OF m(1)] Cons.prems(2) by simp
    then show ?thesis using s m(2) by auto
  next
    case False
    with Cons.prems show ?thesis by simp
  qed
qed

lemma run_sectors_cover: "\<forall>s \<in> set ss. s < UINT32_MAX \<Longrightarrow> run_sectors (sector_runs ss) = set ss"
proof (induction ss rule: sector_runs.induct)
  case 1
  then show ?case by (simp add: run_sectors_def)
next
  case (2 s rest)
  obtain n tail where e: "extend_run s rest = (n, tail)" by fastforce
  note c = extend_run_cover [OF e 2(2)]
  have "run_sectors (sector_runs tail) = set tail"
    using 2(1) [OF e [symmetric] refl] 2(2) c by auto
  then show ?case using e c by (auto simp: run_sectors_def)
qed


subsection \<open>Writing a run of sectors\<close>

lemma bulk_run_bytes_Inr:
  assumes "bulk_run_bytes E fs first n = Inr raw" "endian_ok E" "layout_ok fs" "table_ok fs"
    "fs_fat_type fs = FAT_TYPE_32"
  shows "length raw = n * fs_bytes_per_sector fs" "first * fs_bytes_per_sector fs + length raw \<le> fs_fat_bytes fs"
    "\<And>j. first * fs_bytes_per_sector fs \<le> 4 * j \<Longrightarrow> 4 * j < first * fs_bytes_per_sector fs + length raw \<Longrightarrow>
       m < 4 \<Longrightarrow> raw ! (4 * j - first * fs_bytes_per_sector fs + m) = store_le32 E (fs_fat fs ! j) ! m"
proof -
  let ?bps = "fs_bytes_per_sector fs"
  obtain q where q: "?bps = 4 * q" using assms(3) by (auto simp: layout_ok_def dest: that)
  let ?f = "\<lambda>e. store_le32 E (fs_fat fs ! (first * q + e))"
  have e: "(first * ?bps) div 4 = first * q" "(n * ?bps) div 4 = n * q" by (simp_all add: q)
  have len: "first * q + n * q \<le> length (fs_fat fs)" and raw: "raw = concat (map ?f [0..<n * q])"
    using assms(1) unfolding bulk_run_bytes_def Let_def e by (auto split: if_splits)
  have four: "length (?f i) = 4" for i using assms(2) by simp
  show l: "length raw = n * ?bps"
    unfolding raw using length_concat_blocks [of ?f 4 "[0..<n * q]", OF four] by (simp add: q)
  have "length (fs_fat fs) \<le> fs_fat_bytes fs div 4"
    using assms(3-5) by (simp add: layout_ok_def table_ok_def)
  then have "first * q + n * q \<le> fs_fat_bytes fs div 4" using len by (rule le_trans [rotated])
  then have "(first * q + n * q) * 4 \<le> fs_fat_bytes fs"
    by (subst less_eq_div_iff_mult_less_eq [symmetric]) simp_all
  then show "first * ?bps + length raw \<le> fs_fat_bytes fs"
    unfolding l q by (simp add: algebra_simps)
  fix j assume j: "first * ?bps \<le> 4 * j" "4 * j < first * ?bps + length raw" and m: "m < 4"
  have b: "first * q \<le> j" "j < first * q + n * q" using j unfolding l q by auto
  then obtain i where i: "j = first * q + i" "i < n * q" by (metis add_less_cancel_left le_Suc_ex)
  have "raw ! (i * 4 + m) = ?f ([0..<n * q] ! i) ! m"
    unfolding raw by (rule nth_concat_blocks [OF four _ m]) (simp add: i(2))
  then show "raw ! (4 * j - first * ?bps + m) = store_le32 E (fs_fat fs ! j) ! m"
    using i by (simp add: q mult.commute)
qed

text \<open>The table after a run of sectors was overwritten from memory.\<close>

lemma raw_entry_run:
  assumes "endian_ok E" "layout_ok fs" "table_ok fs" "fs_fat_type fs = FAT_TYPE_32"
    "bulk_run_bytes E fs first n = Inr raw" "length t = fs_fat_bytes fs" "j < fs_fat_entry_count fs"
  shows "raw_entry fs (patch t (first * fs_bytes_per_sector fs) raw) j =
    (if (4 * j) div fs_bytes_per_sector fs \<in> {first..<first + n} then fat_entry fs j else raw_entry fs t j)"
proof -
  let ?bps = "fs_bytes_per_sector fs" and ?o = "first * fs_bytes_per_sector fs" and ?v = "fs_fat fs ! j"
  have v: "?v < 268435456"
    using assms(3,4,7) by (auto simp: table_ok_def fat_mask_def less_Suc_eq_le [symmetric])
  note r = bulk_run_bytes_Inr [OF assms(5,1,2,3,4)]
  obtain q where q: "?bps = 4 * q" "0 < q" using assms(2) by (auto simp: layout_ok_def dest: that)
  have j: "4 * j + 3 < length t" using assms(2,4,6,7) by (simp add: layout_ok_def)
  have fits: "?o + length raw \<le> length t" using r(2) assms(6) by simp
  have pos: "0 < ?bps" using q by simp
  have o4: "?o = 4 * (first * q)" "length raw = 4 * (n * q)" unfolding r(1) q(1) by simp_all
  have inside: "(4 * j) div ?bps \<in> {first..<first + n} \<longleftrightarrow> ?o \<le> 4 * j \<and> 4 * j < ?o + length raw"
    using pos unfolding r(1)
    by (simp add: less_eq_div_iff_mult_less_eq div_less_iff_less_mult algebra_simps)
  show ?thesis
  proof (cases "?o \<le> 4 * j \<and> 4 * j < ?o + length raw")
    case True
    then have "j < first * q + n * q" unfolding o4 by simp
    then have "4 * j + 3 < ?o + length raw"
      unfolding o4 by linarith
    then have "patch t ?o raw ! (4 * j + m) = store_le32 E (fs_fat fs ! j) ! m" if "m < 4" for m
      using True that fits r(3) [of j m] by (simp add: nth_patch)
    from this [of 0] this [of 1] this [of 2] this [of 3]
    have "raw_entry fs (patch t ?o raw) j = ?v mod 256 + 256 * (?v div 256 mod 256) +
        65536 * (?v div 65536 mod 256) + 16777216 * (?v div 16777216 mod 256 mod 16)"
      unfolding raw_entry_32 [OF assms(4)] store_le32_byte [OF assms(1)]
      by (simp add: unat_byte_of)
    also have "?v div 16777216 mod 256 mod 16 = ?v div 16777216"
      using v by (simp add: less_mult_imp_div_less)
    finally have "raw_entry fs (patch t ?o raw) j = ?v" unfolding join_32 .
    with True inside assms(4) v show ?thesis by (simp add: fat_entry_def fat_mask_def)
  next
    case False
    then have "j < first * q \<or> first * q + n * q \<le> j" unfolding o4 by linarith
    then have "4 * j + 3 < ?o \<or> ?o + length raw \<le> 4 * j"
      unfolding o4 by linarith
    then have "\<not> (?o \<le> 4 * j + m \<and> 4 * j + m < ?o + length raw)" if "m < 4" for m
      using that by linarith
    then have "patch t ?o raw ! (4 * j + m) = t ! (4 * j + m)" if "m < 4" for m
      using that j fits by (simp only: nth_patch if_False)
    from this [of 0] this [of 1] this [of 2] this [of 3]
    have "raw_entry fs (patch t ?o raw) j = raw_entry fs t j"
      unfolding raw_entry_32 [OF assms(4)] by simp
    with False show ?thesis unfolding inside by (simp only: if_False)
  qed
qed


lemma bulk_write_run_mapped:
  assumes "bulk_write_run E fs (first, n) u w = (Inr b, w')" "io_exact E" "endian_ok E"
    "disk_ok fs (w_disk w)" "table_ok fs" "fs_fat_type fs = FAT_TYPE_32"
  shows "\<exists>raw. bulk_run_bytes E fs first n = Inr raw \<and>
    tables_mapped fs (\<lambda>t. patch t (first * fs_bytes_per_sector fs) raw) (fat_copies fs) (w_disk w) (w_disk w') \<and>
    w_files w' = w_files w \<and> w_stop w' = w_stop w"
proof -
  have layout: "layout_ok fs" using assms(4) by (simp add: disk_ok_def)
  from assms(1) obtain raw where raw: "bulk_run_bytes E fs first n = Inr raw"
    and run: "foldI (bulk_write_copy E fs first raw) (fat_copies fs) () w = (Inr b, w')"
    by (auto simp: bulk_write_run_def res_simps)
  note r = bulk_run_bytes_Inr [OF raw assms(3) layout assms(5,6)]
  have "tables_mapped fs (\<lambda>t. patch t (first * fs_bytes_per_sector fs) raw) (fat_copies fs) (w_disk w) (w_disk w') \<and>
    w_files w' = w_files w \<and> w_stop w' = w_stop w"
  proof (rule foldI_copies_mapped [OF run assms(4)])
    fix k u v b v'
    assume k: "bulk_write_copy E fs first raw k u v = (Inr b, v')" "disk_ok fs (w_disk v)" "k < fs_fat_count fs"
    have "v' = after_write raw (table_offset fs k + first * fs_bytes_per_sector fs) v"
      using k(1) by (auto simp: bulk_write_copy_def table_offset_def dest!: ld_pwrite_exact_Inr [OF assms(2)])
    then show "tables_mapped fs (\<lambda>t. patch t (first * fs_bytes_per_sector fs) raw) [k] (w_disk v) (w_disk v') \<and>
        w_files v' = w_files v \<and> w_stop v' = w_stop v"
      using k(2,3) r(2) by (auto intro: tables_mapped_patch)
  qed (auto simp: fat_copies_less [OF layout])
  with raw show ?thesis by blast
qed

definition sector_of :: "Fat32 \<Rightarrow> nat \<Rightarrow> nat" where
  "sector_of fs c = (4 * c) div fs_bytes_per_sector fs"

text \<open>The other parts of the target are as they were.\<close>

definition only_copies_change :: "Fat32 \<Rightarrow> bytes \<Rightarrow> bytes \<Rightarrow> bool" where
  "only_copies_change fs d d' \<longleftrightarrow>
     length d' = length d \<and>
     (\<forall>k < fs_fat_count fs. k \<notin> set (fat_copies fs) \<longrightarrow> disk_table fs d' k = disk_table fs d k) \<and>
     (\<forall>i < length d. i < fs_fat0_offset fs \<or> fs_root_dir_offset fs \<le> i \<longrightarrow> d' ! i = d ! i)"

lemma only_copies_change_refl [simp]: "only_copies_change fs d d"
  by (simp add: only_copies_change_def)

lemma only_copies_change_trans:
  "only_copies_change fs d d' \<Longrightarrow> only_copies_change fs d' d'' \<Longrightarrow> only_copies_change fs d d''"
  by (simp add: only_copies_change_def)

lemma only_copies_change_mem_put [simp]:
  "only_copies_change (mem_put c v fs) = only_copies_change fs" "sector_of (mem_put c v fs) = sector_of fs"
  by (simp_all add: only_copies_change_def sector_of_def fun_eq_iff)
    (simp add: mem_put_def disk_table_def table_offset_def fs_fat_bytes_def)

lemma only_copies_change_put_all [simp]:
  "only_copies_change (put_all us fs) = only_copies_change fs" "sector_of (put_all us fs) = sector_of fs"
  by (rule put_all_induct; simp)+

lemma tables_mapped_only_copies:
  "tables_mapped fs f (fat_copies fs) d d' \<Longrightarrow> only_copies_change fs d d'"
  by (simp add: tables_mapped_def only_copies_change_def)

lemma bulk_write_runs:
  assumes "foldI (bulk_write_run E fs) runs () w = (Inr b, w')" "io_exact E" "endian_ok E"
    "disk_ok fs (w_disk w)" "table_ok fs" "fs_fat_type fs = FAT_TYPE_32"
  shows "only_copies_change fs (w_disk w) (w_disk w') \<and> w_files w' = w_files w \<and> w_stop w' = w_stop w \<and>
    (\<forall>copy \<in> set (fat_copies fs). \<forall>j < fs_fat_entry_count fs. disk_entry fs (w_disk w') copy j =
       (if sector_of fs j \<in> run_sectors runs then fat_entry fs j else disk_entry fs (w_disk w) copy j))"
proof -
  have layout: "layout_ok fs" using assms(4) by (simp add: disk_ok_def)
  let ?P = "\<lambda>done (u::unit) v. only_copies_change fs (w_disk w) (w_disk v) \<and> w_files v = w_files w \<and> w_stop v = w_stop w \<and>
    (\<forall>copy \<in> set (fat_copies fs). \<forall>j < fs_fat_entry_count fs. disk_entry fs (w_disk v) copy j =
       (if sector_of fs j \<in> run_sectors done then fat_entry fs j else disk_entry fs (w_disk w) copy j))"
  show ?thesis
  proof (rule foldI_prefix_invariant [OF assms(1), of ?P])
    show "?P [] () w" by (simp add: run_sectors_def)
  next
    fix ys x zs a b u u'
    assume P: "?P ys a u" and run: "bulk_write_run E fs x a u = (Inr b, u')"
    obtain first n where x: "x = (first, n)" by fastforce
    have ok: "disk_ok fs (w_disk u)"
      using P assms(4) by (simp add: only_copies_change_def disk_ok_def)
    obtain raw where raw: "bulk_run_bytes E fs first n = Inr raw"
      and mapped: "tables_mapped fs (\<lambda>t. patch t (first * fs_bytes_per_sector fs) raw) (fat_copies fs) (w_disk u) (w_disk u')"
      and host: "w_files u' = w_files u" "w_stop u' = w_stop u"
      using bulk_write_run_mapped [OF run [unfolded x] assms(2,3) ok assms(5,6)] by blast
    have "disk_entry fs (w_disk u') copy j =
        (if sector_of fs j \<in> {first..<first + n} then fat_entry fs j else disk_entry fs (w_disk u) copy j)"
      if "copy \<in> set (fat_copies fs)" "j < fs_fat_entry_count fs" for copy j
    proof -
      have k: "copy < fs_fat_count fs" using that(1) layout fat_copies_less by blast
      have "disk_table fs (w_disk u') copy =
          patch (disk_table fs (w_disk u) copy) (first * fs_bytes_per_sector fs) raw"
        using mapped that(1) k by (simp add: tables_mapped_def)
      then show ?thesis
        using raw_entry_run [OF assms(3) layout assms(5,6) raw length_disk_table [OF ok k] that(2)]
        by (simp add: disk_entry_def sector_of_def)
    qed
    then show "?P (ys @ [x]) b u'"
      using P host tables_mapped_only_copies [OF mapped]
      by (auto simp: run_sectors_def x intro: only_copies_change_trans)
  qed
qed

lemma sector_small: "layout_ok fs \<Longrightarrow> c < fs_fat_entry_count fs \<Longrightarrow>
   u32 ((c * 4) div fs_bytes_per_sector fs) = sector_of fs c \<and> sector_of fs c < UINT32_MAX"
proof -
  assume "layout_ok fs" "c < fs_fat_entry_count fs"
  then have "512 \<le> fs_bytes_per_sector fs" "4 * c < 17179869180" by (auto simp: layout_ok_def)
  then have "(4 * c) div fs_bytes_per_sector fs \<le> (4 * c) div 512" by (intro div_le_mono2) auto
  also have "\<dots> < 4294967295" using \<open>4 * c < 17179869180\<close> by (simp add: div_less_iff_less_mult)
  finally show ?thesis by (simp add: sector_of_def u32_id mult.commute)
qed

text \<open>
  A completed batch leaves the memory table updated in order, and every copy in use in
  agreement with it, whichever path it took.
\<close>

lemma apply_sequential:
  assumes "foldI (\<lambda>u fs. fat32_write_entry E fs (upd_cluster u) (upd_value u)) us fs w = (Inr fs', w')"
    "io_exact E" "endian_ok E" "disk_ok fs (w_disk w)" "table_ok fs" "synced fs (w_disk w)"
  shows "fs' = put_all us fs \<and> synced fs' (w_disk w') \<and> only_copies_change fs (w_disk w) (w_disk w') \<and>
    (\<forall>u \<in> set us. upd_cluster u < fs_fat_entry_count fs) \<and> w_files w' = w_files w \<and> w_stop w' = w_stop w"
  using assms
proof (induction us arbitrary: fs w)
  case Nil
  then show ?case by (simp add: res_simps put_all_def)
next
  case (Cons u us)
  from Cons.prems(1) obtain fs1 w1
    where one: "fat32_write_entry E fs (upd_cluster u) (upd_value u) w = (Inr fs1, w1)"
      and rest: "foldI (\<lambda>u fs. fat32_write_entry E fs (upd_cluster u) (upd_value u)) us fs1 w1 = (Inr fs', w')"
    by (auto simp: res_simps)
  note m = fat32_write_entry_mapped [OF one Cons.prems(2-4)]
  note sy = fat32_write_entry_synced [OF one Cons.prems(2-6)]
  have fs1: "fs1 = mem_put (upd_cluster u) (upd_value u) fs" using m by simp
  have ok: "disk_ok fs1 (w_disk w1)"
  proof -
    have "disk_ok fs (w_disk w1) = disk_ok fs (w_disk w)" using m tables_mapped_disk_ok by blast
    then show ?thesis using Cons.prems(4) by (simp add: fs1)
  qed
  have same: "only_copies_change fs1 = only_copies_change fs"
    by (simp add: fs1)
  show ?case
    using Cons.IH [OF rest Cons.prems(2,3) ok _ sy] Cons.prems(5) m same
      tables_mapped_only_copies [of fs "store_entry E fs (upd_cluster u) (upd_value u)" "w_disk w" "w_disk w1"]
    by (auto simp: fs1 table_ok_mem_put put_all_def intro: only_copies_change_trans)
qed

lemma fat32_apply_updates_synced:
  assumes "fat32_apply_updates E fs us w = (Inr fs', w')"
    "io_exact E" "endian_ok E" "disk_ok fs (w_disk w)" "table_ok fs" "synced fs (w_disk w)"
  shows "fs' = put_all us fs \<and> synced fs' (w_disk w') \<and> only_copies_change fs (w_disk w) (w_disk w') \<and>
    (\<forall>u \<in> set us. upd_cluster u < fs_fat_entry_count fs) \<and> w_files w' = w_files w \<and> w_stop w' = w_stop w"
proof (cases "us = []")
  case True
  with assms show ?thesis by (simp add: fat32_apply_updates_def res_simps put_all_def)
next
  case nonempty: False
  show ?thesis
  proof (cases "fs_fat_type fs \<noteq> FAT_TYPE_32 \<or> (fs_recovery_mode fs \<and> fs_fat_mirroring fs)")
    case True
    with assms nonempty show ?thesis
      by (intro apply_sequential) (auto simp: fat32_apply_updates_def res_simps split: if_splits)
  next
    case False
    then have ty: "fs_fat_type fs = FAT_TYPE_32" by simp
    have layout: "layout_ok fs" using assms(4) by (simp add: disk_ok_def)
    from assms(1) nonempty False obtain sectors b
      where upd: "foldE bulk_update_step us (fs, []) = Inr (fs', sectors)"
        and run: "foldI (bulk_write_run E fs') (sector_runs (remdups_adj (sort sectors))) () w = (Inr b, w')"
      by (auto simp: fat32_apply_updates_def res_simps Let_def split: prod.splits)
    note f = foldE_bulk_update [OF assms(5) ty upd]
    have fs': "fs' = put_all us fs" using f by simp
    have "set sectors = sector_of fs ` upd_cluster ` set us" "\<forall>s \<in> set sectors. s < UINT32_MAX"
      using f sector_small [OF layout] by (auto simp: image_image)
    then have cover: "run_sectors (sector_runs (remdups_adj (sort sectors))) = sector_of fs ` upd_cluster ` set us"
      by (subst run_sectors_cover) auto
    have b: "only_copies_change fs' (w_disk w) (w_disk w') \<and> w_files w' = w_files w \<and> w_stop w' = w_stop w \<and>
      (\<forall>copy \<in> set (fat_copies fs'). \<forall>j < fs_fat_entry_count fs'. disk_entry fs' (w_disk w') copy j =
       (if sector_of fs' j \<in> sector_of fs ` upd_cluster ` set us then fat_entry fs' j else disk_entry fs' (w_disk w) copy j))"
      using bulk_write_runs [OF run assms(2,3)] assms(4,5) ty by (simp add: fs' cover table_ok_put_all)
    have untouched: "fat_entry fs' j = fat_entry fs j" if "j < fs_fat_entry_count fs" "j \<notin> upd_cluster ` set us" for j
    proof -
      have "map_of (rev (map (\<lambda>u. (upd_cluster u, upd_value u)) us)) j = None"
        using that(2) by (auto simp: map_of_eq_None_iff)
      then show ?thesis using entry_put_all [OF assms(5) _ that(1), of us] f by (simp add: fs')
    qed
    have sync: "disk_entry fs (w_disk w') copy j = fat_entry fs' j"
      if "copy \<in> set (fat_copies fs)" "j \<le> fs_max_cluster fs" for copy j
    proof -
      have j: "j < fs_fat_entry_count fs" using that(2) assms(5) by (simp add: table_ok_def)
      have old: "disk_entry fs (w_disk w) copy j = fat_entry fs j" using assms(6) that by (simp add: synced_def)
      have "disk_entry fs (w_disk w') copy j =
          (if sector_of fs j \<in> sector_of fs ` upd_cluster ` set us then fat_entry fs' j
           else disk_entry fs (w_disk w) copy j)"
        using b that(1) j by (simp add: fs')
      moreover have "fat_entry fs' j = fat_entry fs j" if "sector_of fs j \<notin> sector_of fs ` upd_cluster ` set us"
        using untouched [OF j] that by blast
      ultimately show ?thesis using old by simp
    qed
    then have "synced fs' (w_disk w')" by (simp add: synced_def fs')
    then show ?thesis using b f fs' by simp
  qed
qed

end
