(* ===== verification/FatLoad.thy ===== *)
theory FatLoad
  imports FatTable
begin

text \<open>
  Loading a volume (\<open>fat32_load\<close> of \<open>fat_volume.c\<close>): what a loaded volume satisfies,
  the agreement of its mirrored copies, and when the comparison of the copies ends.
\<close>

lemma decode_table_Inr:
  "decode_fat_table E fs raw n idx = Inr table \<Longrightarrow>
   length table = length idx \<and> (\<forall>i < length idx. decode_fat_entry E fs raw n (idx ! i) = Inr (table ! i))"
proof (induction idx arbitrary: table)
  case Nil
  then show ?case by simp
next
  case (Cons i idx)
  then show ?case by (auto simp: res_simps nth_Cons split: nat.split)
qed

lemma raw_entry_le_mask: "raw_entry fs raw c \<le> fat_mask fs"
proof (cases "fs_fat_type fs")
  case FAT_TYPE_12
  let ?k = "3 * (c div 2)"
  have "unat (raw ! ?k) + 256 * (unat (raw ! (?k + 1)) mod 16) < 4096"
    using unat_byte_less [of "raw ! ?k"] mod_less_divisor [of 16 "unat (raw ! (?k + 1))"] by linarith
  moreover have "unat (raw ! (?k + 1)) div 16 < 16"
    using unat_byte_less [of "raw ! (?k + 1)"] by (simp add: less_mult_imp_div_less)
  then have "unat (raw ! (?k + 1)) div 16 + 16 * unat (raw ! (?k + 2)) < 4096"
    using unat_byte_less [of "raw ! (?k + 2)"] by linarith
  ultimately show ?thesis
    unfolding raw_entry_12 [OF FAT_TYPE_12] fat_mask_def FAT_TYPE_12 FatType.case by (cases "even c") simp_all
next
  case FAT_TYPE_16
  then show ?thesis
    using unat_byte_less [of "raw ! (2 * c)"] unat_byte_less [of "raw ! (2 * c + 1)"]
    by (simp add: raw_entry_def fat_mask_def)
next
  case FAT_TYPE_32
  have "unat (raw ! (4 * c)) + 256 * unat (raw ! (4 * c + 1)) +
       65536 * unat (raw ! (4 * c + 2)) + 16777216 * (unat (raw ! (4 * c + 3)) mod 16) < 268435456"
    using unat_byte_less [of "raw ! (4 * c)"] unat_byte_less [of "raw ! (4 * c + 1)"]
      unat_byte_less [of "raw ! (4 * c + 2)"] mod_less_divisor [of 16 "unat (raw ! (4 * c + 3))"] by linarith
  then show ?thesis
    unfolding raw_entry_32 [OF FAT_TYPE_32] fat_mask_def FAT_TYPE_32 FatType.case by simp
qed

lemma raw_entry_cong: "fs_fat_type fs = fs_fat_type fs' \<Longrightarrow> raw_entry fs = raw_entry fs'"
  by (simp add: raw_entry_def fun_eq_iff)

lemma of_geometry_simps [simp]:
  "fs_dev (fat32_of_geometry dev a g) = dev" "fs_fat (fat32_of_geometry dev a g) = []"
  "fs_max_cluster (fat32_of_geometry dev a g) = geo_max_cluster g"
  "fs_cluster_count (fat32_of_geometry dev a g) = geo_cluster_count g"
  "fs_fat_entry_count (fat32_of_geometry dev a g) = geo_fat_entry_count g"
  "fs_recovery_mode (fat32_of_geometry dev a g) = a"
  "fs_fat_count (fat32_of_geometry dev a g) = geo_fat_count g"
  by (simp_all add: fat32_of_geometry_def Let_def)

lemma scratch_ok_of_geometry: "scratch_ok (fat32_of_geometry dev a g)"
  by (simp add: scratch_ok_def) (simp add: fat32_of_geometry_def Let_def del: replicate_Suc)

lemma layout_ok_table [simp]: "layout_ok (fs\<lparr>fs_fat := t\<rparr>) = layout_ok fs"
  by (cases "fs_fat_type fs") (simp_all add: layout_ok_def data_cluster_def fs_fat_bytes_def)

lemma scratch_ok_table [simp]: "scratch_ok (fs\<lparr>fs_fat := t\<rparr>) = scratch_ok fs"
  by (simp add: scratch_ok_def)

lemma geometry_fits_target:
  assumes "geometry_ok g" "geo_volume_bytes g \<le> length d"
  shows "disk_ok (fat32_of_geometry dev a g) d"
proof -
  have "fs_data_offset (fat32_of_geometry dev a g) = geo_data_offset g"
    "fs_cluster_size (fat32_of_geometry dev a g) = geo_cluster_size g"
    by (simp_all add: fat32_of_geometry_def Let_def geo_data_offset_def geo_cluster_size_def algebra_simps)
  moreover have "geo_data_offset g + geo_cluster_count g * geo_cluster_size g \<le> length d"
    using assms by (simp add: geometry_ok_def)
  ultimately show ?thesis using layout_ok_of_geometry [OF assms(1)] by (simp add: disk_ok_def)
qed

text \<open>A loaded volume is well formed and its table is the decoded active copy.\<close>

lemma fat32_load_table_ok:
  assumes "fat32_load_table E device allow d = Inr fs" "io_exact E" "endian_ok E"
    "dev_size_bytes device \<le> length d" "dev_size_bytes device < UINT64_MAX"
  shows "disk_ok fs d \<and> table_ok fs \<and> scratch_ok fs \<and> fs_dev fs = device \<and> fs_recovery_mode fs = allow \<and>
    (\<forall>c < fs_fat_entry_count fs. disk_entry fs d (fs_active_fat fs) c = fat_entry fs c) \<and>
    check_shutdown_bits fs = Inr ()"
proof -
  from assms(1) obtain boot g raw table
    where g: "fat_geometry_parse E boot (dev_size_bytes device) = Inr g"
      and raw: "ld_pread_exact E d (fs_fat_bytes (fat32_of_geometry device allow g))
        (fs_fat0_offset (fat32_of_geometry device allow g) +
         fs_active_fat (fat32_of_geometry device allow g) * fs_fat_bytes (fat32_of_geometry device allow g))
        ''read active FAT'' = Inr raw"
      and table: "decode_fat_table E (fat32_of_geometry device allow g) raw
        (fs_fat_bytes (fat32_of_geometry device allow g)) [0..<geo_fat_entry_count g] = Inr table"
      and fs: "fs = (fat32_of_geometry device allow g)\<lparr>fs_fat := table\<rparr>"
      and chk: "check_shutdown_bits fs = Inr ()"
    unfolding fat32_load_table_def Let_def bindE_Inr_iff relabel_Inr sum.inject of_geometry_simps
    by (elim exE conjE) (rule that, assumption+, erule sym, simp)
  let ?f = "fat32_of_geometry device allow g"
  have ok: "geometry_ok g" using fat_geometry_parse_geometry_ok g by (rule okE_D)
  have "geo_volume_bytes g \<le> dev_size_bytes device"
    using okE_D [OF fat_geometry_parse_within g] assms(5) by simp
  then have disk: "disk_ok ?f d" using ok assms(4) by (intro geometry_fits_target) auto
  have layout: "layout_ok ?f" by (rule layout_ok_of_geometry [OF ok])
  have r: "raw = disk_table ?f d (fs_active_fat ?f)" "length raw = fs_fat_bytes ?f"
    using ld_pread_exact_Inr [OF assms(2) raw] by (auto simp: disk_table_def table_offset_def buf_simps)
  have ent: "length table = geo_fat_entry_count g"
    "\<And>c. c < geo_fat_entry_count g \<Longrightarrow> table ! c = raw_entry ?f raw c"
  proof -
    note dec = decode_table_Inr [OF table]
    then show "length table = geo_fat_entry_count g" by simp
    fix c assume c: "c < geo_fat_entry_count g"
    have "entry_in ?f raw c" using c by (intro entry_in_range [OF layout r(2)]) simp
    from decode_fat_entry_raw [OF assms(3) this]
    have "decode_fat_entry E ?f raw (fs_fat_bytes ?f) c = Inr (raw_entry ?f raw c)" by (simp only: r(2))
    moreover have "decode_fat_entry E ?f raw (fs_fat_bytes ?f) c = Inr (table ! c)"
      using dec c by (metis add_0 length_upt minus_nat.diff_0 nth_upt)
    ultimately show "table ! c = raw_entry ?f raw c" by simp
  qed
  have mask: "table ! c AND fat_mask ?f = table ! c" if "c < geo_fat_entry_count g" for c
    using raw_entry_le_mask [of ?f raw c] ent(2) [OF that]
    by (cases "fs_fat_type ?f") (simp_all add: fat_mask_def)
  have "\<forall>v \<in> set table. v \<le> fat_mask ?f"
    using ent raw_entry_le_mask by (metis in_set_conv_nth)
  then have tab: "table_ok fs"
  proof -
    have "1 \<le> geo_cluster_count g \<and> geo_max_cluster g = geo_cluster_count g + 1 \<and>
        geo_max_cluster g < geo_fat_entry_count g \<and> geo_fat_entry_count g \<le> UINT32_MAX"
      using ok unfolding geometry_ok_def by (elim conjE) (intro conjI; assumption)
    moreover have "fat_mask fs = fat_mask ?f" by (simp add: fs fat_mask_def)
    ultimately show ?thesis
      using ent(1) \<open>\<forall>v \<in> set table. v \<le> fat_mask ?f\<close> by (simp add: table_ok_def fs)
  qed
  have "disk_entry fs d (fs_active_fat fs) c = fat_entry fs c" if "c < fs_fat_entry_count fs" for c
    using that mask [of c] ent(2) [of c] r(1)
    by (simp add: fs disk_entry_def fat_entry_def disk_table_def table_offset_def fs_fat_bytes_def fat_mask_def
        raw_entry_def)
  moreover have "disk_ok fs d" using disk by (simp add: fs disk_ok_def)
  ultimately show ?thesis
    using tab scratch_ok_of_geometry [of device allow g] chk by (simp add: fs)
qed

text \<open>The mirror comparison.\<close>

lemma mirror_mismatch_False:
  "mirror_mismatch E fs other n idx = Inr False \<Longrightarrow>
   \<forall>c \<in> set idx. decode_fat_entry E fs other n c = Inr (fat_entry fs c)"
  by (induction idx) (auto simp: res_simps fat_value_Inr split: if_splits)

lemma u8_step: "copy < n \<Longrightarrow> n < 256 \<Longrightarrow> u8 (copy + 1) = copy + 1"
  by (simp add: u8_def)

definition copy_agrees :: "env \<Rightarrow> Fat32 \<Rightarrow> bytes \<Rightarrow> nat \<Rightarrow> bool" where
  "copy_agrees E fs d k \<longleftrightarrow> (\<forall>c \<le> fs_max_cluster fs.
     decode_fat_entry E fs (disk_table fs d k) (fs_fat_bytes fs) c = Inr (fat_entry fs c))"

lemma mirror_copies_agree:
  assumes "mirror_copies E fs d (fs_fat_bytes fs) False copy = Some (Inr ())" "dev_writable (fs_dev fs)"
    "fs_fat_count fs < 256" "io_exact E"
    "copy \<le> k" "k < fs_fat_count fs" "k \<noteq> fs_active_fat fs"
  shows "copy_agrees E fs d k"
  using assms(1,5)
proof (induction "fs_fat_count fs - copy" arbitrary: copy rule: less_induct)
  case less
  have copy: "copy < fs_fat_count fs" using less.prems assms(6) by simp
  note u = u8_step [OF copy assms(3)]
  have step: "fs_fat_count fs - (copy + 1) < fs_fat_count fs - copy" using copy by simp
  show ?case
  proof (cases "copy = fs_active_fat fs")
    case True
    have "mirror_copies E fs d (fs_fat_bytes fs) False (copy + 1) = Some (Inr ())"
      using less.prems(1) copy True u by (subst (asm) mirror_copies.simps) simp
    with less.hyps [OF step this] less.prems(2) assms(7) True show ?thesis by (cases "copy = k") auto
  next
    case False
    from less.prems(1) copy False u assms(2) obtain other where
      rd: "ld_pread_exact E d (fs_fat_bytes fs) (fs_fat0_offset fs + copy * fs_fat_bytes fs) ''read mirrored FAT'' = Inr other"
      and eq: "mirror_mismatch E fs other (fs_fat_bytes fs) [0..<fs_max_cluster fs + 1] = Inr False"
      and rest: "mirror_copies E fs d (fs_fat_bytes fs) False (copy + 1) = Some (Inr ())"
      by (subst (asm) mirror_copies.simps) (auto split: sum.split_asm if_split_asm)
    have "other = disk_table fs d copy"
      using ld_pread_exact_Inr [OF assms(4) rd] by (simp add: disk_table_def table_offset_def)
    then have "copy_agrees E fs d copy"
      using mirror_mismatch_False [OF eq] by (simp add: copy_agrees_def less_Suc_eq_le del: upt_Suc)
    with less.hyps [OF step rest] less.prems(2) show ?thesis by (cases "copy = k") auto
  qed
qed

lemma copy_agrees_entry:
  assumes "copy_agrees E fs d k" "endian_ok E" "disk_ok fs d" "table_ok fs" "k < fs_fat_count fs"
    "c \<le> fs_max_cluster fs"
  shows "disk_entry fs d k c = fat_entry fs c"
proof -
  have len: "length (disk_table fs d k) = fs_fat_bytes fs" using assms(3,5) by simp
  moreover have "entry_in fs (disk_table fs d k) c"
    using assms(3,4,6) len by (intro entry_in_range) (auto simp: disk_ok_def table_ok_def)
  ultimately show ?thesis
    using assms(1,6) decode_fat_entry_raw [OF assms(2), of fs "disk_table fs d k" c]
    by (simp add: copy_agrees_def disk_entry_def)
qed

text \<open>A strict writable open hands out a volume whose copies in use all agree.\<close>

lemma fat32_load_synced:
  assumes "fat32_load E device False d = Some (Inr fs)" "io_exact E" "endian_ok E"
    "dev_size_bytes device \<le> length d" "dev_size_bytes device < UINT64_MAX" "dev_writable device"
  shows "disk_ok fs d \<and> table_ok fs \<and> scratch_ok fs \<and> synced fs d \<and> fs_dev fs = device \<and> \<not> fs_recovery_mode fs \<and>
    check_shutdown_bits fs = Inr ()"
proof -
  from assms(1) have tab: "fat32_load_table E device False d = Inr fs"
    and mir: "fs_fat_mirroring fs \<Longrightarrow> mirror_copies E fs d (fs_fat_bytes fs) False 0 = Some (Inr ())"
    by (auto simp: fat32_load_def res_simps split: sum.split_asm if_split_asm)
  note ok = fat32_load_table_ok [OF tab assms(2-5)]
  then have layout: "layout_ok fs" by (simp add: disk_ok_def)
  have "disk_entry fs d k c = fat_entry fs c" if "k \<in> set (fat_copies fs)" "c \<le> fs_max_cluster fs" for k c
  proof (cases "k = fs_active_fat fs")
    case True
    with ok that(2) show ?thesis by (simp add: table_ok_def)
  next
    case False
    have mirroring: "fs_fat_mirroring fs"
      using False that(1) layout by (auto simp: fat_copies_def layout_ok_def u8_def split: if_splits)
    have k: "k < fs_fat_count fs" using that(1) layout by (rule fat_copies_less [rotated])
    have "copy_agrees E fs d k"
      using mirror_copies_agree [OF mir [OF mirroring] _ _ assms(2) _ k False] ok assms(6) layout
      by (simp add: layout_ok_def)
    then show ?thesis using copy_agrees_entry ok assms(3) k that(2) by blast
  qed
  with ok show ?thesis by (simp add: synced_def)
qed

text \<open>The comparison ends on every volume with fewer than 255 copies.\<close>

lemma mirror_copies_step:
  assumes "copy < fs_fat_count fs"
  shows "(\<exists>e. mirror_copies E fs d n allow copy = Some (Inl e)) \<or>
    mirror_copies E fs d n allow copy = mirror_copies E fs d n allow (u8 (copy + 1)) \<or>
    mirror_copies E fs d n allow copy = mirror_copies E fs d n allow (u8 (fs_fat_count fs + 1))"
proof (cases "copy = fs_active_fat fs")
  case True
  then show ?thesis using assms by (subst mirror_copies.simps) simp
next
  case active: False
  note simps = mirror_copies.simps [of E fs d n allow copy]
  show ?thesis
  proof (cases "ld_pread_exact E d n (fs_fat0_offset fs + copy * n) ''read mirrored FAT''")
    case (Inl e)
    then show ?thesis using assms active simps by simp
  next
    case other: (Inr other)
    show ?thesis
    proof (cases "mirror_mismatch E fs other n [0..<fs_max_cluster fs + 1]")
      case (Inl e)
      then show ?thesis using assms active other simps by simp
    next
      case (Inr differs)
      then show ?thesis using assms active other simps
        by (cases differs; cases "\<not> allow \<and> dev_writable (fs_dev fs)") (simp_all del: upt_Suc)
    qed
  qed
qed

lemma mirror_copies_ends:
  assumes "fs_fat_count fs < 255"
  shows "\<exists>r. mirror_copies E fs d n allow copy = Some r"
proof (induction "fs_fat_count fs - copy" arbitrary: copy rule: less_induct)
  case less
  show ?case
  proof (cases "copy < fs_fat_count fs")
    case False
    then show ?thesis by (subst mirror_copies.simps) simp
  next
    case True
    have u: "u8 (copy + 1) = copy + 1" "u8 (fs_fat_count fs + 1) = fs_fat_count fs + 1"
      using True assms by (simp_all add: u8_def)
    have "\<exists>r. mirror_copies E fs d n allow (copy + 1) = Some r"
      "\<exists>r. mirror_copies E fs d n allow (fs_fat_count fs + 1) = Some r"
      using True by (auto intro!: less.hyps)
    then show ?thesis
      using mirror_copies_step [OF True, of E d n allow] unfolding u by (elim disjE) auto
  qed
qed

text \<open>With 255 copies a tolerated disagreement sends the counter back to 0.\<close>

text \<open>What makes every turn readable and the copy \<open>bad\<close> different.\<close>

definition mirror_readable :: "env \<Rightarrow> Fat32 \<Rightarrow> bytes \<Rightarrow> nat \<Rightarrow> nat \<Rightarrow> bool" where
  "mirror_readable E fs d n k \<longleftrightarrow>
     (\<exists>other b. ld_pread_exact E d n (fs_fat0_offset fs + k * n) ''read mirrored FAT'' = Inr other \<and>
        mirror_mismatch E fs other n [0..<fs_max_cluster fs + 1] = Inr b)"

definition mirror_differs :: "env \<Rightarrow> Fat32 \<Rightarrow> bytes \<Rightarrow> nat \<Rightarrow> nat \<Rightarrow> bool" where
  "mirror_differs E fs d n k \<longleftrightarrow>
     (\<exists>other. ld_pread_exact E d n (fs_fat0_offset fs + k * n) ''read mirrored FAT'' = Inr other \<and>
        mirror_mismatch E fs other n [0..<fs_max_cluster fs + 1] = Inr True)"

lemma mirror_copies_diverges_aux:
  assumes "mirror_copies E fs d n allow copy = Some r"
  shows "fs_fat_count fs = 255 \<longrightarrow> (allow \<or> \<not> dev_writable (fs_dev fs)) \<longrightarrow>
    (\<forall>k < 255. k \<noteq> fs_active_fat fs \<longrightarrow> mirror_readable E fs d n k) \<longrightarrow>
    mirror_differs E fs d n bad \<longrightarrow> bad < 255 \<longrightarrow> bad \<noteq> fs_active_fat fs \<longrightarrow> copy \<le> bad \<longrightarrow> False"
  using assms
proof (induction E fs d n allow copy r rule: mirror_copies.raw_induct [rotated, consumes 1, case_names step])
  case (step loop E fs d n allow copy r)
  show ?case
  proof (intro impI)
    assume a: "fs_fat_count fs = 255" "allow \<or> \<not> dev_writable (fs_dev fs)"
      "\<forall>k < 255. k \<noteq> fs_active_fat fs \<longrightarrow> mirror_readable E fs d n k"
      "mirror_differs E fs d n bad" "bad < 255" "bad \<noteq> fs_active_fat fs" "copy \<le> bad"
    have again: False if "loop E fs d n allow c = Some r" "c \<le> bad" for c
      using step(1) [OF that(1)] a that(2) by simp
    have wrap: "u8 256 = 0" "u8 (Suc copy) = Suc copy" using a(5,7) by (simp_all add: u8_def)
    show False
    proof (cases "copy = fs_active_fat fs")
      case True
      then have "loop E fs d n allow (copy + 1) = Some r" using step(2) a(1,5,7) wrap by simp
      moreover have "copy + 1 \<le> bad" using a(6,7) True by simp
      ultimately show False by (rule again)
    next
      case False
      obtain other b where o: "ld_pread_exact E d n (fs_fat0_offset fs + copy * n) ''read mirrored FAT'' = Inr other"
        "mirror_mismatch E fs other n [0..<fs_max_cluster fs + 1] = Inr b"
        using a(3,5,7) False unfolding mirror_readable_def by (meson le_less_trans)
      have b: "b" if "copy = bad" using a(4) o that by (simp add: mirror_differs_def del: upt_Suc)
      have t: "(\<not> allow \<and> dev_writable (fs_dev fs)) = False" using a(2) by blast
      then have "loop E fs d n allow (if b then 0 else copy + 1) = Some r"
        using step(2) a(1,5,7) False o wrap unfolding t by (cases b) (simp_all del: upt_Suc)
      moreover have "(if b then 0 else copy + 1) \<le> bad" using a(7) b by (cases b) (auto simp: le_less)
      ultimately show False by (rule again)
    qed
  qed
qed

lemma mirror_copies_diverges:
  assumes "fs_fat_count fs = 255" "allow \<or> \<not> dev_writable (fs_dev fs)"
    "\<forall>k < 255. k \<noteq> fs_active_fat fs \<longrightarrow> mirror_readable E fs d n k"
    "mirror_differs E fs d n bad" "bad < 255" "bad \<noteq> fs_active_fat fs"
  shows "mirror_copies E fs d n allow 0 = None"
  using mirror_copies_diverges_aux [of E fs d n allow 0 _ bad] assms
  by (cases "mirror_copies E fs d n allow 0") auto


section \<open>Table writes that cannot fail\<close>

lemma write_entry_copy_total:
  assumes "io_reliable E" "endian_ok E" "disk_ok fs (w_disk w)" "copy < fs_fat_count fs" "c < fs_fat_entry_count fs"
  shows "\<exists>w'. write_entry_copy E fs c v copy u w = (Inr (), w')"
proof -
  let ?off = "fat_entry_byte_offset fs c"
  have "entry_in fs (disk_table fs (w_disk w) copy) c"
    using assms(3-5) by (intro entry_in_range) (auto simp: disk_ok_def)
  then have "table_offset fs copy + ?off + fat_entry_span fs \<le> length (w_disk w)"
    using table_inside [OF assms(3,4)] assms(3,4) by (simp add: entry_in_def)
  moreover have "fat_entry_span fs \<le> SSIZE_MAX" by (simp add: fat_entry_span_def)
  ultimately show ?thesis
    using assms(1,2) ld_pread_exact_total [of E _ "fat_entry_span fs" "w_disk w"]
      ld_pwrite_exact_total [of E _ _ w]
    by (auto simp: write_entry_copy_def Let_def bindI_def readI_def table_offset_def)
qed

lemma fat32_write_entry_total:
  assumes "io_reliable E" "endian_ok E" "disk_ok fs (w_disk w)" "dev_writable (fs_dev fs)" "c < fs_fat_entry_count fs"
  shows "\<exists>w'. fat32_write_entry E fs c v w = (Inr (mem_put c v fs), w')"
proof -
  have "\<exists>t w'. foldI (write_entry_copy E fs c v) (fat_copies fs) () w = (Inr t, w') \<and> disk_ok fs (w_disk w')"
  proof (rule foldI_total)
    fix k and a :: unit and u :: world
    assume k: "k \<in> set (fat_copies fs)" "disk_ok fs (w_disk u)"
    then have k': "k < fs_fat_count fs" by (simp add: disk_ok_def fat_copies_less)
    obtain w' where w': "write_entry_copy E fs c v k a u = (Inr (), w')"
      using write_entry_copy_total [OF assms(1,2) k(2) k' assms(5)] by blast
    with write_entry_copy_mapped [OF w' io_reliable_exact [OF assms(1)] assms(2) k(2) k' assms(5)] k(2)
    show "\<exists>b v'. write_entry_copy E fs c v k a u = (Inr b, v') \<and> disk_ok fs (w_disk v')"
      using tables_mapped_disk_ok by blast
  qed (rule assms(3))
  then show ?thesis
    using assms(4,5) by (auto simp: fat32_write_entry_def thenI_def bindI_def die_ifI_def retI_def mem_put_def)
qed

lemma apply_sequential_total:
  assumes "io_reliable E" "endian_ok E" "disk_ok fs (w_disk w)" "dev_writable (fs_dev fs)"
    "\<forall>u \<in> set us. upd_cluster u < fs_fat_entry_count fs"
  shows "\<exists>fs' w'. foldI (\<lambda>u fs. fat32_write_entry E fs (upd_cluster u) (upd_value u)) us fs w = (Inr fs', w')"
proof -
  let ?P = "\<lambda>f (w::world). disk_ok f (w_disk w) \<and> dev_writable (fs_dev f) \<and> fs_fat_entry_count f = fs_fat_entry_count fs"
  have "\<exists>fs' w'. foldI (\<lambda>u fs. fat32_write_entry E fs (upd_cluster u) (upd_value u)) us fs w = (Inr fs', w') \<and> ?P fs' w'"
  proof (rule foldI_total)
    show "?P fs w" using assms by simp
    fix x f and u :: world assume x: "x \<in> set us" "?P f u"
    then obtain w' where w': "fat32_write_entry E f (upd_cluster x) (upd_value x) u = (Inr (mem_put (upd_cluster x) (upd_value x) f), w')"
      using fat32_write_entry_total [OF assms(1,2), of f u "upd_cluster x"] assms(5) by auto
    have "disk_ok f (w_disk w')"
      using fat32_write_entry_mapped [OF w' io_reliable_exact [OF assms(1)] assms(2)] x(2) tables_mapped_disk_ok by blast
    with w' x(2) show "\<exists>b v. fat32_write_entry E f (upd_cluster x) (upd_value x) u = (Inr b, v) \<and> ?P b v"
      by (auto simp: mem_put_def) (simp add: disk_ok_def)
  qed
  then show ?thesis by blast
qed


end
