(* ===== verification/Demo.thy ===== *)
theory Demo
  imports FatLoad
begin

text \<open>A concrete volume for the witnesses.\<close>

section \<open>A small volume\<close>

text \<open>
  A five-sector FAT12 volume with one file of two clusters, on which the witnesses
  evaluate the model.
\<close>

definition demo_boot :: bytes where
  "demo_boot = [0xEB, 0x3C, 0x90] @ replicate 8 0 @
     [0, 2, 1, 1, 0, 1, 16, 0, 5, 0, 0xF8, 1, 0] @ replicate 486 0 @ [0x55, 0xAA]"

definition demo_fat :: bytes where
  "demo_fat = [0xF8, 0xFF, 0xFF, 0x03, 0xF0, 0xFF] @ replicate 506 0"

definition demo_disk :: bytes where
  "demo_disk = demo_boot @ demo_fat @ replicate 1536 0"

definition demo_device :: Device where
  "demo_device = \<lparr>dev_path = ''/dev/fd0'', dev_writable = True, dev_is_block = False,
     dev_size_bytes = 2560, dev_number = (0, 0), dev_host = 0, dev_inode = 0\<rparr>"

definition demo_geometry :: FatGeometry where
  "demo_geometry = \<lparr>geo_fat_type = FAT_TYPE_12, geo_bytes_per_sector = 512, geo_sectors_per_cluster = 1,
     geo_reserved_sectors = 1, geo_fat_count = 1, geo_ext_flags = 0, geo_fat_mirroring = True,
     geo_active_fat = 0, geo_sectors_per_fat = 1, geo_total_sectors = 5, geo_root_cluster = 0,
     geo_root_entry_count = 16, geo_fsinfo_sector = 0, geo_backup_boot_sector = 0, geo_volume_id = 0,
     geo_root_dir_sectors = 1, geo_fat_sectors_total = 1, geo_volume_bytes = 2560,
     geo_cluster_count = 2, geo_max_cluster = 3, geo_fat_entry_count = 341\<rparr>"

definition demo_fs :: Fat32 where
  "demo_fs = (fat32_of_geometry demo_device False demo_geometry)
     \<lparr>fs_fat := map (raw_entry (fat32_of_geometry demo_device False demo_geometry) demo_fat) [0..<341]\<rparr>"

definition demo_world :: world where
  "demo_world = \<lparr>w_disk = demo_disk, w_files = Map.empty, w_stop = None, w_trace = []\<rparr>"

lemma length_demo [simp]: "length demo_boot = 512" "length demo_fat = 512" "length demo_disk = 2560"
  by (simp_all add: demo_boot_def demo_fat_def demo_disk_def)

lemma demo_parse: "fat_geometry_parse ref_env demo_boot 2560 = Inr demo_geometry"
proof -
  have "demo_boot ! 510 = 0x55" "demo_boot ! 511 = 0xAA" "demo_boot ! 13 = 1" "demo_boot ! 16 = 1"
    by (simp_all add: demo_boot_def nth_append)
  moreover have "load_le16 ref_env (drop 11 demo_boot) = 512" "load_le16 ref_env (drop 14 demo_boot) = 1"
    "load_le16 ref_env (drop 17 demo_boot) = 16" "load_le16 ref_env (drop 19 demo_boot) = 5"
    "load_le16 ref_env (drop 22 demo_boot) = 1" "load_le32 ref_env (drop 32 demo_boot) = 0"
    "load_le32 ref_env (drop 36 demo_boot) = 0" "load_le32 ref_env (drop 39 demo_boot) = 0"
    by (simp_all add: ref_env_def) (simp_all add: demo_boot_def nth_append)
  ultimately show ?thesis by (simp add: fat_geometry_parse_def Let_def demo_geometry_def)
qed

lemma demo_geometry_ok: "geometry_ok demo_geometry"
  using okE_D [OF fat_geometry_parse_geometry_ok demo_parse] .

lemma demo_fs_simps [simp]:
  "fs_fat_type demo_fs = FAT_TYPE_12" "fs_fat_bytes demo_fs = 512" "fs_fat0_offset demo_fs = 512"
  "fs_active_fat demo_fs = 0" "fs_fat_entry_count demo_fs = 341" "fs_max_cluster demo_fs = 3"
  "fs_cluster_count demo_fs = 2" "fs_fat_mirroring demo_fs" "fs_fat_count demo_fs = 1"
  "fs_dev demo_fs = demo_device" "dev_writable demo_device" "dev_size_bytes demo_device = 2560"
  "fs_data_offset demo_fs = 1536" "fs_cluster_size demo_fs = 512" "fs_root_dir_offset demo_fs = 1024"
  "\<not> fs_recovery_mode demo_fs" "fs_bytes_per_sector demo_fs = 512"
  by (simp_all add: demo_fs_def fat32_of_geometry_def demo_geometry_def Let_def fs_fat_bytes_def demo_device_def)

lemma demo_raw_entries:
  "raw_entry demo_fs demo_fat 0 = 0xFF8" "raw_entry demo_fs demo_fat 1 = 0xFFF"
  "raw_entry demo_fs demo_fat 2 = 3" "raw_entry demo_fs demo_fat 3 = 0xFFF"
  by (simp_all add: raw_entry_12 demo_fat_def)

lemma demo_entry: "c < 341 \<Longrightarrow> fat_entry demo_fs c = raw_entry demo_fs demo_fat c"
proof -
  assume c: "c < 341"
  have "raw_entry (fat32_of_geometry demo_device False demo_geometry) = raw_entry demo_fs"
    by (rule raw_entry_cong) (simp add: demo_fs_def)
  then have "fs_fat demo_fs ! c = raw_entry demo_fs demo_fat c"
    using c by (simp add: demo_fs_def)
  then show ?thesis
    using raw_entry_le_mask [of demo_fs demo_fat c] by (simp add: fat_entry_def fat_mask_def)
qed

lemma demo_load_table: "fat32_load_table ref_env demo_device False demo_disk = Inr demo_fs"
proof -
  let ?f = "fat32_of_geometry demo_device False demo_geometry"
  have f: "fs_fat_bytes ?f = 512" "fs_fat0_offset ?f = 512" "fs_active_fat ?f = 0"
    "fs_fat_type ?f = FAT_TYPE_12" "geo_fat_entry_count demo_geometry = 341"
    by (simp_all add: fat32_of_geometry_def demo_geometry_def Let_def fs_fat_bytes_def)
  have rd: "ld_pread_exact ref_env demo_disk 512 0 ''read boot sector'' = Inr demo_boot"
    "ld_pread_exact ref_env demo_disk 512 512 ''read active FAT'' = Inr demo_fat"
    by (simp_all add: ld_pread_exact_total read_at_def) (simp_all add: demo_disk_def)
  have "decode_fat_table ref_env ?f demo_fat 512 idx = Inr (map (raw_entry ?f demo_fat) idx)"
    if "\<forall>c \<in> set idx. c < 341" for idx
    using that
  proof (induction idx)
    case (Cons c idx)
    have "entry_in ?f demo_fat c"
      using Cons.prems f layout_ok_of_geometry [OF demo_geometry_ok] by (intro entry_in_range) simp_all
    with Cons decode_fat_entry_raw [OF endian_ok_ref, of ?f demo_fat c] show ?case by simp
  qed simp
  from this [of "[0..<341]"] show ?thesis
    using rd demo_parse f by (simp add: fat32_load_table_def Let_def demo_fs_def check_shutdown_bits_def)
qed

lemma demo_load: "fat32_load ref_env demo_device False demo_disk = Some (Inr demo_fs)"
proof -
  have "mirror_copies ref_env demo_fs demo_disk 512 False 1 = Some (Inr ())"
    by (subst mirror_copies.simps) simp
  then have "mirror_copies ref_env demo_fs demo_disk 512 False 0 = Some (Inr ())"
    by (subst mirror_copies.simps) (simp add: u8_def)
  then show ?thesis by (simp add: fat32_load_def demo_load_table)
qed

lemma demo_ok:
  "disk_ok demo_fs demo_disk" "table_ok demo_fs" "scratch_ok demo_fs" "synced demo_fs demo_disk" "layout_ok demo_fs"
  using fat32_load_synced [OF demo_load] by (simp_all add: disk_ok_def)

lemma demo_chain: "is_chain demo_fs 2 [2, 3]"
  using demo_entry [of 2] demo_entry [of 3] demo_raw_entries
  by (simp add: is_chain_def data_cluster_def fat_links_def fat_ends_def fat_eoc_min_def fat_reserved_min_def)

end
