(* ===== verification/FatVolumeProps.thy ===== *)
theory FatVolumeProps
  imports Demo
begin

text \<open>
  Properties of \<open>fat_volume.c\<close>: the boot-sector parser, loading, the entry codec, single
  and batched table writes, chain traversal.
\<close>

text \<open>C26. Whatever bytes the boot sector holds, an accepted geometry is consistent: the
  divisions by sector and cluster size are by positive numbers, the table has an entry for
  every cluster, the active copy and the FAT32 root exist, the data region with all its
  clusters lies inside the volume and the volume inside the target.\<close>

theorem geometry_parse_sound:
  assumes "fat_geometry_parse E boot target = Inr g"
  shows "geometry_ok g \<and> (target \<noteq> UINT64_MAX \<longrightarrow> geo_volume_bytes g \<le> target)"
  using okE_D [OF fat_geometry_parse_geometry_ok assms] okE_D [OF fat_geometry_parse_within assms] by simp

theorem geometry_parse_sound_witness:
  "fat_geometry_parse ref_env demo_boot 2560 = Inr demo_geometry \<and> geometry_ok demo_geometry \<and>
   geo_volume_bytes demo_geometry \<le> 2560"
  using geometry_parse_sound [OF demo_parse] demo_parse by simp

text \<open>C8. A strict writable open succeeds only with a well-formed volume: the table has the
  decoded entries of the active copy within the entry width, the scratch arrays cover every
  cluster, all copies in use agree with the table on every cluster, and the clean-shutdown
  and no-error bits are set.\<close>

theorem load_establishes_invariants:
  assumes "fat32_load E device False d = Some (Inr fs)" "io_exact E" "endian_ok E"
    "dev_size_bytes device \<le> length d" "dev_size_bytes device < UINT64_MAX" "dev_writable device"
  shows "disk_ok fs d \<and> table_ok fs \<and> scratch_ok fs \<and> synced fs d \<and> fs_dev fs = device \<and>
    check_shutdown_bits fs = Inr ()"
  using fat32_load_synced [OF assms] by simp

theorem load_establishes_invariants_witness:
  "fat32_load ref_env demo_device False demo_disk = Some (Inr demo_fs) \<and> disk_ok demo_fs demo_disk \<and>
   synced demo_fs demo_disk"
  using load_establishes_invariants [OF demo_load] demo_load by simp

text \<open>C27. Entry codec, at each of the three widths: after an entry is stored into the raw
  table, decoding it returns the value reduced to the entry width, and decoding any other
  entry returns what it did before, although FAT12 entries share bytes and FAT32 entries
  keep their reserved high bits.\<close>

theorem entry_codec_roundtrip:
  assumes "endian_ok E" "entry_in fs raw c" "entry_in fs raw j"
  shows "decode_fat_entry E fs (store_entry E fs c v raw) (length raw) j =
    (if j = c then Inr (v AND fat_mask fs) else decode_fat_entry E fs raw (length raw) j)"
proof -
  have "entry_in fs (store_entry E fs c v raw) j"
    using assms by (simp add: entry_in_def)
  then show ?thesis
    using decode_fat_entry_raw [OF assms(1)] assms raw_entry_store [OF assms]
    by (metis length_store_entry)
qed

theorem entry_codec_roundtrip_witness:
  "decode_fat_entry ref_env demo_fs (store_entry ref_env demo_fs 2 0xABC demo_fat) 512 3 = Inr 0xFFF \<and>
   decode_fat_entry ref_env demo_fs (store_entry ref_env demo_fs 2 0xABC demo_fat) 512 2 = Inr 0xABC"
proof -
  have i: "entry_in demo_fs demo_fat 2" "entry_in demo_fs demo_fat 3"
    by (simp_all add: entry_in_def fat_entry_byte_offset_def fat_entry_span_def)
  show ?thesis
    using entry_codec_roundtrip [OF endian_ok_ref i(1,2), where v = "0xABC"]
      entry_codec_roundtrip [OF endian_ok_ref i(1,1), where v = "0xABC"]
      decode_fat_entry_raw [OF endian_ok_ref i(2)] demo_raw_entries by (simp add: fat_mask_def)
qed

text \<open>C19. A completed \<open>fat32_write_entry\<close> changed that entry in every copy of the table
  in use and in memory, left every other entry of every copy, the copies not in use and all
  bytes outside the table region as they were, and keeps the copies in agreement.\<close>

theorem write_entry_all_copies:
  assumes "fat32_write_entry E fs c v w = (Inr fs', w')" "io_exact E" "endian_ok E"
    "disk_ok fs (w_disk w)" "table_ok fs" "synced fs (w_disk w)"
  shows "fs' = mem_put c v fs \<and> synced fs' (w_disk w') \<and> only_copies_change fs (w_disk w) (w_disk w') \<and>
    (\<forall>copy \<in> set (fat_copies fs). \<forall>j < fs_fat_entry_count fs. disk_entry fs (w_disk w') copy j =
       (if j = c then v AND fat_mask fs else disk_entry fs (w_disk w) copy j))"
proof -
  note m = fat32_write_entry_mapped [OF assms(1-4)]
  have layout: "layout_ok fs" using assms(4) by (simp add: disk_ok_def)
  have "disk_entry fs (w_disk w') copy j = (if j = c then v AND fat_mask fs else disk_entry fs (w_disk w) copy j)"
    if "copy \<in> set (fat_copies fs)" "j < fs_fat_entry_count fs" for copy j
  proof -
    have k: "copy < fs_fat_count fs" using that(1) layout fat_copies_less by blast
    then have "raw_ok E fs (disk_table fs (w_disk w) copy)"
      using assms(3,4) layout by (simp add: raw_ok_def)
    then show ?thesis using m k that by (simp add: tables_mapped_def disk_entry_def raw_table.get_put)
  qed
  then show ?thesis using m fat32_write_entry_synced [OF assms] tables_mapped_only_copies by blast
qed

theorem write_entry_all_copies_witness:
  "\<exists>w'. fat32_write_entry ref_env demo_fs 3 0 demo_world = (Inr (mem_put 3 0 demo_fs), w') \<and>
     disk_entry demo_fs (w_disk w') 0 3 = 0 \<and> disk_entry demo_fs (w_disk w') 0 2 = 3"
proof -
  have d: "w_disk demo_world = demo_disk" by (simp add: demo_world_def)
  obtain w' where run: "fat32_write_entry ref_env demo_fs 3 0 demo_world = (Inr (mem_put 3 0 demo_fs), w')"
    using fat32_write_entry_total [of ref_env demo_fs demo_world 3] demo_ok d by auto
  have c: "0 \<in> set (fat_copies demo_fs)" by (simp add: fat_copies_def)
  have "disk_entry demo_fs demo_disk 0 2 = 3"
    using demo_ok(4) c demo_entry [of 2] demo_raw_entries by (simp add: synced_def)
  then show ?thesis
    using write_entry_all_copies [OF run] demo_ok d c run by auto
qed



text \<open>C17. Chain traversal is exact: on a well-formed table \<open>fat32_read_chain\<close> returns a list
  exactly when it is the chain from that cluster (distinct data clusters, each entry the
  next one, the last an end mark), it always ends, and it changes nothing but its marks,
  also when the traversal number wraps.\<close>

theorem read_chain_exact:
  assumes "table_ok fs" "scratch_ok fs" "reserve_ok E" "first \<noteq> 0"
  shows "((\<exists>fs'. fat32_read_chain E fs first = Inr (cs, fs')) \<longleftrightarrow> is_chain fs first cs) \<and>
    (\<forall>fs'. fat32_read_chain E fs first = Inr (cs, fs') \<longrightarrow> same_but_marks fs fs' \<and> scratch_ok fs')"
  using fat32_read_chain_sound [OF _ assms(2,4)] fat32_read_chain_complete [OF _ assms(1-3)] by blast+

theorem read_chain_exact_witness:
  "(\<exists>fs'. fat32_read_chain ref_env demo_fs 2 = Inr ([2, 3], fs') \<and> same_but_marks demo_fs fs')"
  using read_chain_exact [of demo_fs ref_env 2 "[2, 3]"] demo_ok demo_chain by auto

text \<open>A chain counts one fragment exactly when it is a run of consecutive clusters.\<close>

lemma one_fragment_iff_run:
  assumes "\<forall>c \<in> set cs. c < UINT32_MAX"
  shows "chain_fragments cs = 1 \<longleftrightarrow> cs \<noteq> [] \<and> cs = [hd cs..<hd cs + length cs]"
  using assms by (rule chain_fragments_one)

text \<open>The comparison of the mirrored copies ends on every volume with fewer than 255
  copies, whatever it reads, so a load with mirroring always produces a result there.\<close>

lemma load_ends:
  assumes "\<And>fs. fat32_load_table E device allow d = Inr fs \<Longrightarrow> fs_fat_count fs < 255"
  shows "\<exists>r. fat32_load E device allow d = Some r"
proof (cases "fat32_load_table E device allow d")
  case (Inr fs)
  then show ?thesis
    using mirror_copies_ends [OF assms [OF Inr], of E d "fs_fat_bytes fs" allow 0]
    by (auto simp: fat32_load_def)
qed (simp add: fat32_load_def)

end
