(* ===== verification/FatDirectory.thy ===== *)
theory FatDirectory
  imports FatLoad
begin

text \<open>
  \<open>fat_directory.c\<close>: VFAT long names, short-name fallback, the recursive directory scan
  and its ownership checks. File names are byte strings without their terminating NUL;
  a C buffer that is filled from the front is the list of the bytes written so far, and
  its write position is the length of that list.
\<close>

section \<open>Names\<close>

record LfnState =
  lfn_chars :: "nat list"
  lfn_present :: "bool list"
  lfn_checksum :: nat
  lfn_slots :: nat
  lfn_active :: bool

definition lfn_reset :: LfnState where
  "lfn_reset = \<lparr>lfn_chars = replicate 260 0xFFFF, lfn_present = replicate 20 False,
     lfn_checksum = 0, lfn_slots = 0, lfn_active = False\<rparr>"

text \<open>\<open>(sum & 1 ? 0x80 : 0) + (sum >> 1) + byte\<close>, truncated to eight bits.\<close>

definition lfn_short_checksum :: "bytes \<Rightarrow> nat" where
  "lfn_short_checksum entry =
     foldl (\<lambda>sum i. u8 ((if sum AND 1 \<noteq> 0 then 0x80 else 0) + sum div 2 + unat (entry ! i))) 0 [0..<11]"

definition lfn_offsets :: "nat list" where
  "lfn_offsets = [1, 3, 5, 7, 9, 14, 16, 18, 20, 22, 24, 28, 30]"

definition lfn_accept_entry :: "env \<Rightarrow> LfnState \<Rightarrow> bytes \<Rightarrow> LfnState" where
  "lfn_accept_entry E state entry =
     (let ordinal = unat (entry ! 0);
          slot = ordinal AND 0x1F
      in if slot = 0 \<or> slot > 20 then lfn_reset
         else
           let state = (if ordinal AND 0x40 \<noteq> 0
                        then lfn_reset\<lparr>lfn_active := True, lfn_slots := slot, lfn_checksum := unat (entry ! 13)\<rparr>
                        else state)
           in if \<not> lfn_active state \<or> slot > lfn_slots state \<or> unat (entry ! 13) \<noteq> lfn_checksum state
              then lfn_reset
              else state\<lparr>lfn_chars := patch (lfn_chars state) ((slot - 1) * 13)
                           (map (\<lambda>o'. load_le16 E (drop o' entry)) lfn_offsets),
                         lfn_present := (lfn_present state)[slot - 1 := True]\<rparr>)"

text \<open>The bytes of one code point, and the append that drops what does not fit.\<close>

definition utf8_bytes :: "nat \<Rightarrow> nat list" where
  "utf8_bytes codepoint =
     (if codepoint \<le> 0x7F then [codepoint]
      else if codepoint \<le> 0x7FF then [0xC0 OR codepoint div 64, 0x80 OR codepoint AND 0x3F]
      else if codepoint \<le> 0xFFFF
      then [0xE0 OR codepoint div 4096, 0x80 OR codepoint div 64 AND 0x3F, 0x80 OR codepoint AND 0x3F]
      else if codepoint \<le> 0x10FFFF
      then [0xF0 OR codepoint div 262144, 0x80 OR codepoint div 4096 AND 0x3F,
            0x80 OR codepoint div 64 AND 0x3F, 0x80 OR codepoint AND 0x3F]
      else [])"

definition safe_codepoint :: "nat \<Rightarrow> nat" where
  "safe_codepoint codepoint =
     (if codepoint = 47 \<or> codepoint = 92 \<or> codepoint = 0 then 95 else codepoint)"

definition utf8_append :: "nat \<Rightarrow> nat list \<Rightarrow> nat \<Rightarrow> nat list" where
  "utf8_append capacity out codepoint =
     (let new = utf8_bytes (safe_codepoint codepoint) in
      if length out + length new < capacity then out @ new else out)"

text \<open>The loop over the UTF-16 units; an index past a low surrogate skips it.\<close>

function lfn_units :: "nat list \<Rightarrow> nat \<Rightarrow> nat \<Rightarrow> nat list \<Rightarrow> nat list" where
  "lfn_units chars units i out =
     (if i \<ge> units then out
      else
        let word = chars ! i in
        if word = 0 \<or> word = 0xFFFF then out
        else if word \<ge> 0xD800 \<and> word \<le> 0xDBFF \<and> i + 1 < units then
          let low = chars ! (i + 1) in
          if low \<ge> 0xDC00 \<and> low \<le> 0xDFFF then
            lfn_units chars units (i + 2)
              (utf8_append 1041 out (0x10000 + (word - 0xD800) * 1024 + (low - 0xDC00)))
          else lfn_units chars units (i + 1) (utf8_append 1041 out 0xFFFD)
        else if word \<ge> 0xDC00 \<and> word \<le> 0xDFFF
        then lfn_units chars units (i + 1) (utf8_append 1041 out 0xFFFD)
        else lfn_units chars units (i + 1) (utf8_append 1041 out word))"
  by pat_completeness auto
termination by (relation "measure (\<lambda>(chars, units, i, out). units - i)") auto

declare lfn_units.simps [simp del]

definition lfn_name :: "LfnState \<Rightarrow> bytes \<Rightarrow> nat list option" where
  "lfn_name state short_entry =
     (if \<not> lfn_active state \<or> lfn_slots state = 0 \<or> lfn_checksum state \<noteq> lfn_short_checksum short_entry
      then None
      else if \<not> list_all (\<lambda>i. lfn_present state ! i) [0..<lfn_slots state] then None
      else
        let out = lfn_units (lfn_chars state) (lfn_slots state * 13) 0 [] in
        if out = [] then None else Some out)"

text \<open>Trailing spaces of the two fields of a short name do not count.\<close>

fun trimmed :: "bytes \<Rightarrow> nat \<Rightarrow> nat \<Rightarrow> nat" where
  "trimmed entry start 0 = 0"
| "trimmed entry start (Suc n) = (if entry ! (start + n) = 0x20 then trimmed entry start n else Suc n)"

definition short_raw :: "bytes \<Rightarrow> bytes" where
  "short_raw entry =
     (let base_end = trimmed entry 0 8;
          extension_end = trimmed entry 8 3;
          raw = map (\<lambda>i. entry ! i) [0..<base_end];
          raw = (if raw \<noteq> [] \<and> raw ! 0 = 0x05 then raw[0 := 0xE5] else raw)
      in if extension_end \<noteq> 0
         then raw @ [0x2E] @ map (\<lambda>i. entry ! (8 + i)) [0..<extension_end] else raw)"

definition hex_digit :: "nat \<Rightarrow> nat" where
  "hex_digit v = (if v < 10 then 48 + v else 55 + v)"

definition hex_escape :: "nat \<Rightarrow> nat list" where
  "hex_escape ch = [92, 120, hex_digit (ch div 16), hex_digit (ch mod 16)]"

fun short_emit :: "bytes \<Rightarrow> nat list \<Rightarrow> nat list" where
  "short_emit [] out = out"
| "short_emit (b # rest) out =
     (if length out + 1 < 64 then
        let ch = unat b in
        if 0x20 \<le> ch \<and> ch < 0x7F then short_emit rest (out @ [ch])
        else if length out + 4 < 64 then short_emit rest (out @ hex_escape ch)
        else short_emit rest out
      else out)"

definition short_name :: "bytes \<Rightarrow> nat list" where
  "short_name entry = short_emit (short_raw entry) []"

definition path_join :: "nat list \<Rightarrow> nat list \<Rightarrow> nat list" where
  "path_join parent name =
     (let slash = (parent \<noteq> [] \<and> last parent \<noteq> 47) in
      parent @ (if slash then [47] else []) @ name)"

definition is_dot_entry :: "bytes \<Rightarrow> bool" where
  "is_dot_entry entry = (if entry ! 0 \<noteq> 0x2E then False else entry ! 1 = 0x20 \<or> entry ! 1 = 0x2E)"

section \<open>The catalogue\<close>

record FileRecord =
  fr_path :: "nat list"
  fr_dirent_offset :: nat
  fr_first_cluster :: nat
  fr_size_bytes :: nat
  fr_attr :: nat
  fr_is_dir :: bool
  fr_chain :: "nat list"
  fr_fragments :: nat

record DirRef =
  ref_offset :: nat
  ref_target_cluster :: nat

definition dirreflist_push :: "env \<Rightarrow> DirRef list \<Rightarrow> DirRef \<Rightarrow> DirRef list res" where
  "dirreflist_push E v x =
     (if length v = SIZE_MAX \<or> \<not> array_reserve E 16 (length v + 1)
      then Inl (Die ''cannot grow FAT directory-reference list'') else Inr (v @ [x]))"

definition filelist_push :: "env \<Rightarrow> FileRecord list \<Rightarrow> FileRecord \<Rightarrow> FileRecord list res" where
  "filelist_push E v x =
     (if length v = SIZE_MAX \<or> \<not> array_reserve E 72 (length v + 1)
      then Inl (Die ''cannot grow FAT file list'') else Inr (v @ [x]))"

fun claim_chain :: "Fat32 \<Rightarrow> nat list \<Rightarrow> Fat32 res" where
  "claim_chain fs [] = Inr fs"
| "claim_chain fs (cluster # rest) =
     (if fs_claimed_clusters fs ! cluster then Inl (ExitFailure ''cross-linked cluster'')
      else claim_chain (fs\<lparr>fs_claimed_clusters := (fs_claimed_clusters fs)[cluster := True]\<rparr>) rest)"

section \<open>The scan\<close>

record ScanState =
  sc_fs :: Fat32
  sc_files :: "FileRecord list"
  sc_refs :: "DirRef list option" \<comment> \<open>\<open>None\<close>: the caller passed no list\<close>
  sc_lfn :: LfnState
  sc_end :: bool

definition entry_first_cluster :: "env \<Rightarrow> Fat32 \<Rightarrow> bytes \<Rightarrow> nat" where
  "entry_first_cluster E fs entry =
     (let first = load_le16 E (drop 26 entry);
          first = (if fs_fat_type fs = FAT_TYPE_32
                   then first OR push_bit 16 (load_le16 E (drop 20 entry)) else first)
      in first AND fat_mask fs)"

definition push_ref :: "env \<Rightarrow> DirRef list option \<Rightarrow> nat \<Rightarrow> nat \<Rightarrow> DirRef list option res" where
  "push_ref E refs offset first =
     (case refs of
        None \<Rightarrow> Inr None
      | Some v \<Rightarrow>
          if first = 0 then Inr (Some v)
          else bindE (dirreflist_push E v \<lparr>ref_offset = offset, ref_target_cluster = first\<rparr>) (\<lambda>v. Inr (Some v)))"

text \<open>The chain of a named entry: read, counted and claimed when it has one.\<close>

definition entry_chain :: "env \<Rightarrow> Fat32 \<Rightarrow> nat \<Rightarrow> (Fat32 \<times> nat list \<times> nat) res" where
  "entry_chain E fs first =
     (if first \<noteq> 0 then
        bindE (fat32_read_chain E fs first) (\<lambda>(chain, fs).
        bindE (claim_chain fs chain) (\<lambda>fs. Inr (fs, chain, chain_fragments chain)))
      else Inr (fs, [], 0))"

definition size_disagrees :: "Fat32 \<Rightarrow> nat \<Rightarrow> nat \<Rightarrow> nat list \<Rightarrow> bool" where
  "size_disagrees fs size_bytes first chain =
     (let expected = (if size_bytes = 0 then 0
                      else (size_bytes + fs_cluster_size fs - 1) div fs_cluster_size fs)
      in (size_bytes = 0 \<and> first \<noteq> 0) \<or> (size_bytes \<noteq> 0 \<and> first = 0) \<or> length chain \<noteq> expected)"

type_synonym dir_walk = "nat \<Rightarrow> nat list \<Rightarrow> Fat32 \<Rightarrow> FileRecord list \<Rightarrow> DirRef list option \<Rightarrow>
  (Fat32 \<times> FileRecord list \<times> DirRef list option) res"

text \<open>
  A named entry: catalogue it and, for a directory, walk it with \<open>walk\<close>.
\<close>

definition scan_named ::
  "env \<Rightarrow> dir_walk \<Rightarrow> nat list \<Rightarrow> nat \<Rightarrow> bytes \<Rightarrow> nat \<Rightarrow> nat list \<Rightarrow> ScanState \<Rightarrow> ScanState res" where
  "scan_named E walk path dirent entry first name st =
     (let size_bytes = load_le32 E (drop 28 entry);
          attributes = unat (entry ! 11);
          is_directory = (attributes AND 0x10 \<noteq> 0);
          full_path = path_join path name
      in
      bindE (entry_chain E (sc_fs st) first) (\<lambda>(fs, chain, fragments).
      bindE (die_if (\<not> is_directory \<and> size_disagrees fs size_bytes first chain)
               (ExitFailure ''file size and cluster-chain length disagree'')) (\<lambda>_.
      bindE (filelist_push E (sc_files st)
        \<lparr>fr_path = full_path, fr_dirent_offset = dirent, fr_first_cluster = first, fr_size_bytes = size_bytes,
         fr_attr = attributes, fr_is_dir = is_directory, fr_chain = chain, fr_fragments = fragments\<rparr>) (\<lambda>files.
      if is_directory \<and> first \<noteq> 0 then
        bindE (walk first full_path fs files (sc_refs st)) (\<lambda>(fs, files, refs).
        Inr (st\<lparr>sc_fs := fs, sc_files := files, sc_refs := refs\<rparr>))
      else Inr (st\<lparr>sc_fs := fs, sc_files := files\<rparr>)))))"

text \<open>One 32-byte entry. After the end marker nothing of the directory is looked at.\<close>

definition scan_entry ::
  "env \<Rightarrow> dir_walk \<Rightarrow> nat list \<Rightarrow> nat \<Rightarrow> bytes \<Rightarrow> nat \<Rightarrow> ScanState \<Rightarrow> ScanState res" where
  "scan_entry E walk path cluster_position buffer position st =
     (let entry = read_at position 32 buffer in
      if sc_end st then Inr st
      else if entry ! 0 = 0x00 then Inr (st\<lparr>sc_end := True, sc_lfn := lfn_reset\<rparr>)
      else if entry ! 0 = 0xE5 then Inr (st\<lparr>sc_lfn := lfn_reset\<rparr>)
      else
        let attributes = unat (entry ! 11) in
        if attributes = 0x0F then Inr (st\<lparr>sc_lfn := lfn_accept_entry E (sc_lfn st) entry\<rparr>)
        else if attributes AND 0x08 \<noteq> 0 then Inr (st\<lparr>sc_lfn := lfn_reset\<rparr>)
        else
          let first = entry_first_cluster E (sc_fs st) entry in
          bindE (push_ref E (sc_refs st) (cluster_position + position) first) (\<lambda>refs.
          let st = st\<lparr>sc_refs := refs\<rparr> in
          if is_dot_entry entry then Inr (st\<lparr>sc_lfn := lfn_reset\<rparr>)
          else
            let long_name = lfn_name (sc_lfn st) entry;
                st = st\<lparr>sc_lfn := lfn_reset\<rparr>;
                name = (case long_name of None \<Rightarrow> short_name entry | Some n \<Rightarrow> n)
            in if name = [] then Inr st
               else scan_named E walk path (cluster_position + position) entry first name st))"

definition entry_positions :: "nat \<Rightarrow> nat list" where
  "entry_positions unit_size = map (\<lambda>i. i * 32) [0..<unit_size div 32]"

text \<open>One cluster (or the fixed root area) of a directory.\<close>

definition scan_unit ::
  "env \<Rightarrow> dir_walk \<Rightarrow> bytes \<Rightarrow> nat list \<Rightarrow> nat \<Rightarrow> nat option \<Rightarrow> ScanState \<Rightarrow> ScanState res" where
  "scan_unit E walk d path unit_size location st =
     (if sc_end st then Inr st
      else
        bindE (case location of
                 None \<Rightarrow> Inr (fs_root_dir_offset (sc_fs st))
               | Some cluster \<Rightarrow> cluster_offset (sc_fs st) cluster) (\<lambda>cluster_position.
        bindE (ld_pread_exact E d unit_size cluster_position ''read directory data'') (\<lambda>buffer.
        foldE (scan_entry E walk path cluster_position buffer) (entry_positions unit_size) st)))"

text \<open>
  The walk of one directory at a depth of \<open>129 - levels\<close>: \<open>levels\<close> counts down to the
  recursion limit.
\<close>

primrec scan_levels :: "env \<Rightarrow> bytes \<Rightarrow> nat \<Rightarrow> dir_walk" where
  "scan_levels E d 0 = (\<lambda>first path fs files refs. Inl (Die ''directory recursion limit exceeded''))"
| "scan_levels E d (Suc levels) = (\<lambda>first path fs files refs.
     let fixed_root = (fs_root_is_fixed fs \<and> first = 0 \<and> levels = 128) in
     bindE
      (if fixed_root then
         Inr (fs, if fs_root_dir_size fs = 0 then [] else [None], fs_root_dir_size fs)
       else if first < 2 \<or> first > fs_max_cluster fs then Inl (Die ''invalid directory cluster'')
       else if fs_visited_dirs fs ! first then Inl (Die ''directory cycle or cross-link detected'')
       else
         bindE (fat32_read_chain E (fs\<lparr>fs_visited_dirs := (fs_visited_dirs fs)[first := True]\<rparr>) first) (\<lambda>(chain, fs).
         Inr (fs, map Some chain, fs_cluster_size fs)))
      (\<lambda>(fs, units, unit_size).
     bindE (foldE (scan_unit E (scan_levels E d levels) d path unit_size) units
              \<lparr>sc_fs = fs, sc_files = files, sc_refs = refs, sc_lfn = lfn_reset, sc_end = False\<rparr>) (\<lambda>st.
     Inr (sc_fs st, sc_files st, sc_refs st))))"

definition scan_directory :: "env \<Rightarrow> bytes \<Rightarrow> nat \<Rightarrow> dir_walk" where
  "scan_directory E d depth = scan_levels E d (129 - depth)"

definition filesystem_root_chain :: "env \<Rightarrow> Fat32 \<Rightarrow> (nat list \<times> Fat32) res" where
  "filesystem_root_chain E fs =
     (if fs_root_is_fixed fs then Inr ([], fs) else fat32_read_chain E fs (fs_root_cluster fs))"

fun check_allocation :: "Fat32 \<Rightarrow> nat list \<Rightarrow> unit res" where
  "check_allocation fs [] = Inr ()"
| "check_allocation fs (cluster # rest) =
     bindE (fat_value fs cluster) (\<lambda>value.
     if value = 0 \<or> value = fat_bad_value fs then check_allocation fs rest
     else bindE (die_if (value \<ge> fat_reserved_min fs \<and> value < fat_eoc_min fs)
                   (ExitFailure ''reserved FAT value'')) (\<lambda>_.
       bindE (die_if (\<not> fs_claimed_clusters fs ! cluster)
                (ExitFailure ''allocated but unreferenced cluster'')) (\<lambda>_.
       check_allocation fs rest)))"

definition scan_files ::
  "env \<Rightarrow> bytes \<Rightarrow> Fat32 \<Rightarrow> bool \<Rightarrow> (FileRecord list \<times> DirRef list option \<times> Fat32) res" where
  "scan_files E d fs want_refs =
     (let fs = fs\<lparr>fs_visited_dirs := replicate (fs_max_cluster fs + 1) False,
                  fs_claimed_clusters := replicate (fs_max_cluster fs + 1) False\<rparr>
      in
      bindE (if \<not> fs_root_is_fixed fs then
               bindE (filesystem_root_chain E fs) (\<lambda>(root_chain, fs). claim_chain fs root_chain)
             else Inr fs) (\<lambda>fs.
      bindE (scan_directory E d 0 (if fs_root_is_fixed fs then 0 else fs_root_cluster fs) [] fs []
               (if want_refs then Some [] else None)) (\<lambda>(fs, files, refs).
      bindE (check_allocation fs [2..<fs_max_cluster fs + 1]) (\<lambda>_.
      Inr (files, refs, fs)))))"

end
