(* ===== verification/FatNames.thy ===== *)
theory FatNames
  imports FatDirectory
begin

text \<open>
  The names the directory scan produces: no buffer overflows, nothing is cut, and no name
  holds a NUL or a path separator.
\<close>

section \<open>Names never overflow and are never cut\<close>

definition utf8_text :: "nat list \<Rightarrow> nat list" where
  "utf8_text cps = concat (map (\<lambda>c. utf8_bytes (safe_codepoint c)) cps)"

lemma length_utf8_bytes: "length (utf8_bytes c) \<le> 4" "c \<le> 0xFFFF \<Longrightarrow> length (utf8_bytes c) \<le> 3"
  by (simp_all add: utf8_bytes_def)

lemma safe_codepoint_le: "c \<le> 0xFFFF \<Longrightarrow> safe_codepoint c \<le> 0xFFFF"
  by (simp add: safe_codepoint_def)

lemma utf8_append_fits:
  "length out + length (utf8_bytes (safe_codepoint c)) < capacity \<Longrightarrow>
   utf8_append capacity out c = out @ utf8_bytes (safe_codepoint c)"
  by (simp add: utf8_append_def)

text \<open>The code points of a name: its units up to a terminator, surrogate pairs combined.\<close>

function codepoints :: "nat list \<Rightarrow> nat \<Rightarrow> nat \<Rightarrow> nat list" where
  "codepoints chars units i =
     (if i \<ge> units \<or> chars ! i = 0 \<or> chars ! i = 0xFFFF then []
      else if chars ! i \<in> {0xD800..0xDBFF} \<and> i + 1 < units \<and> chars ! (i + 1) \<in> {0xDC00..0xDFFF}
      then (0x10000 + (chars ! i - 0xD800) * 1024 + (chars ! (i + 1) - 0xDC00)) # codepoints chars units (i + 2)
      else (if chars ! i \<in> {0xD800..0xDBFF} \<and> i + 1 < units \<or> chars ! i \<in> {0xDC00..0xDFFF}
            then 0xFFFD else chars ! i) # codepoints chars units (i + 1))"
  by pat_completeness auto
termination by (relation "measure (\<lambda>(chars, units, i). units - i)") auto

declare codepoints.simps [simp del]

lemma lfn_units_step:
  assumes "length out \<le> 3 * i" "i < 260" "length (utf8_bytes (safe_codepoint c)) \<le> k" "k \<le> 4"
  shows "utf8_append 1041 out c = out @ utf8_bytes (safe_codepoint c) \<and>
    length (utf8_append 1041 out c) \<le> 3 * i + k"
  using assms by (simp add: utf8_append_fits)

lemma utf8_text_Cons: "utf8_text (c # cps) = utf8_bytes (safe_codepoint c) @ utf8_text cps"
  by (simp add: utf8_text_def)

lemma lfn_units_codepoints:
  assumes "\<forall>w \<in> set chars. w < 65536" "units \<le> length chars" "length out \<le> 3 * i" "i \<le> units" "units \<le> 260"
  shows "lfn_units chars units i out = out @ utf8_text (codepoints chars units i) \<and>
    length (lfn_units chars units i out) \<le> 3 * units"
  using assms(3,4)
proof (induction "units - i" arbitrary: i out rule: less_induct)
  case less
  note L = lfn_units.simps [of chars units i out] and C = codepoints.simps [of chars units i]
  let ?w = "chars ! i"
  show ?case
  proof (cases "i \<ge> units \<or> ?w = 0 \<or> ?w = 0xFFFF")
    case True
    then have "codepoints chars units i = []" using C by simp
    moreover have "lfn_units chars units i out = out"
      using True L by (auto simp: Let_def)
    ultimately show ?thesis using less.prems by (simp add: utf8_text_def)
  next
    case False
    then have i: "i < units" by simp
    then have w: "?w < 65536" using assms(1,2) by simp
    have i260: "i < 260" using i assms(5) by simp
    have three: "(3::nat) \<le> 4" by simp
    have next1: "lfn_units chars units (i + 1) (utf8_append 1041 out c) =
          out @ utf8_text (c # codepoints chars units (i + 1)) \<and>
        length (lfn_units chars units (i + 1) (utf8_append 1041 out c)) \<le> 3 * units" if "c \<le> 0xFFFF" for c
    proof -
      note st = lfn_units_step [OF less.prems(1) i260 length_utf8_bytes(2) [OF safe_codepoint_le [OF that]] three]
      have "length (utf8_append 1041 out c) \<le> 3 * (i + 1)" using conjunct2 [OF st] by simp
      then have "lfn_units chars units (i + 1) (utf8_append 1041 out c) =
          utf8_append 1041 out c @ utf8_text (codepoints chars units (i + 1)) \<and>
          length (lfn_units chars units (i + 1) (utf8_append 1041 out c)) \<le> 3 * units"
        using i by (intro less.hyps) auto
      moreover have "utf8_append 1041 out c = out @ utf8_bytes (safe_codepoint c)" using st by blast
      ultimately show ?thesis unfolding utf8_text_Cons by (metis append_assoc)
    qed
    show ?thesis
    proof (cases "?w \<in> {0xD800..0xDBFF} \<and> i + 1 < units \<and> chars ! (i + 1) \<in> {0xDC00..0xDFFF}")
      case True
      define c where "c = 0x10000 + (?w - 0xD800) * 1024 + (chars ! (i + 1) - 0xDC00)"
      note st = lfn_units_step [OF less.prems(1) i260 length_utf8_bytes(1) [of "safe_codepoint c"] order_refl]
      have "length (utf8_append 1041 out c) \<le> 3 * (i + 2)" using conjunct2 [OF st] by simp
      moreover have "units - (i + 2) < units - i" "i + 2 \<le> units" using True i by auto
      ultimately have "lfn_units chars units (i + 2) (utf8_append 1041 out c) =
          utf8_append 1041 out c @ utf8_text (codepoints chars units (i + 2)) \<and>
          length (lfn_units chars units (i + 2) (utf8_append 1041 out c)) \<le> 3 * units"
        by (intro less.hyps)
      moreover have "lfn_units chars units i out = lfn_units chars units (i + 2) (utf8_append 1041 out c)"
        using True False by (subst L) (simp add: Let_def c_def)
      moreover have "codepoints chars units i = c # codepoints chars units (i + 2)"
        using True False by (subst C) (simp add: c_def)
      ultimately show ?thesis using st by (metis append_assoc utf8_text_Cons)
    next
      case pair: False
      define c where "c = (if ?w \<in> {0xD800..0xDBFF} \<and> i + 1 < units \<or> ?w \<in> {0xDC00..0xDFFF} then 0xFFFD else ?w)"
      have "lfn_units chars units i out = lfn_units chars units (i + 1) (utf8_append 1041 out c)"
        using pair False by (subst L) (auto simp: Let_def c_def)
      moreover have "codepoints chars units i = c # codepoints chars units (i + 1)"
        using pair False by (subst C) (simp add: c_def)
      moreover have "c \<le> 0xFFFF" using w by (simp add: c_def)
      ultimately show ?thesis using next1 [of c] by metis
    qed
  qed
qed

text \<open>What the state machine of the long-name slots keeps.\<close>

definition lfn_ok :: "LfnState \<Rightarrow> bool" where
  "lfn_ok st \<longleftrightarrow> length (lfn_chars st) = 260 \<and> length (lfn_present st) = 20 \<and> lfn_slots st \<le> 20 \<and>
     (\<forall>w \<in> set (lfn_chars st). w < 65536)"

lemma lfn_ok_reset [simp]: "lfn_ok lfn_reset"
  by (simp add: lfn_ok_def lfn_reset_def)

lemma nat_and_0x1F [simp]: "(n::nat) AND 31 = n mod 32"
  using nat_and_mask [of n 5] by (simp add: mask_eq_exp_minus_1)

lemma set_patch: "set (patch b off ys) \<subseteq> set b \<union> set ys"
  by (auto simp: patch_def dest: in_set_takeD in_set_dropD)

lemma lfn_ok_accept:
  assumes "lfn_ok st" "endian_ok E" "length e = 32"
  shows "lfn_ok (lfn_accept_entry E st e)"
proof -
  have w: "\<forall>w \<in> set (map (\<lambda>i. load_le16 E (drop i e)) lfn_offsets). w < 65536"
    using load_le16_less [OF assms(2)] assms(3) by (auto simp: lfn_offsets_def)
  have fit: "(s - 1) * 13 + 13 \<le> 260" if "s \<noteq> 0" "s \<le> 20" for s :: nat
    using that by (cases s) auto
  have step: "lfn_ok (s\<lparr>lfn_chars := patch (lfn_chars s) ((k - 1) * 13) (map (\<lambda>i. load_le16 E (drop i e)) lfn_offsets),
      lfn_present := (lfn_present s)[k - 1 := True]\<rparr>)" if "lfn_ok s" "k \<noteq> 0" "k \<le> 20" for s k
  proof -
    let ?ys = "map (\<lambda>i. load_le16 E (drop i e)) lfn_offsets"
    have "\<forall>w \<in> set (patch (lfn_chars s) ((k - 1) * 13) ?ys). w < 65536"
      using set_patch [of "lfn_chars s" "(k - 1) * 13" ?ys] w that(1) unfolding lfn_ok_def by blast
    moreover have "length (patch (lfn_chars s) ((k - 1) * 13) ?ys) = 260"
      using that fit [of k] by (simp add: lfn_ok_def length_patch lfn_offsets_def)
    ultimately show ?thesis using that(1) by (simp add: lfn_ok_def)
  qed
  have fresh: "lfn_ok (lfn_reset\<lparr>lfn_active := True, lfn_slots := k, lfn_checksum := c\<rparr>)" if "k \<le> 20" for k c
    using that by (simp add: lfn_ok_def lfn_reset_def)
  show ?thesis
    using step [OF fresh] step [OF assms(1)] unfolding lfn_accept_entry_def Let_def
    by (auto split: if_splits)
qed

lemma utf8_bytes_clean:
  "c \<noteq> 0 \<Longrightarrow> c \<noteq> 47 \<Longrightarrow> 0 \<notin> set (utf8_bytes c) \<and> 47 \<notin> set (utf8_bytes c)"
proof -
  assume c: "c \<noteq> 0" "c \<noteq> 47"
  have le_or: "a \<le> a OR b" for a b :: nat
  proof -
    have "int a \<le> int a OR int b" by (simp add: or_greater_eq)
    then show ?thesis by (simp add: of_nat_or_eq [symmetric])
  qed
  have high: "0x80 OR x \<ge> (128::nat)" "0xC0 OR x \<ge> (128::nat)" "0xE0 OR x \<ge> (128::nat)" "0xF0 OR x \<ge> (128::nat)" for x
    using le_or [of 128 x] le_or [of 192 x] le_or [of 224 x] le_or [of 240 x] by auto
  have "\<forall>b \<in> set (utf8_bytes c). b = c \<or> 128 \<le> b"
    unfolding utf8_bytes_def using high by auto
  with c show ?thesis by fastforce
qed

lemma safe_codepoint_clean: "safe_codepoint c \<noteq> 0 \<and> safe_codepoint c \<noteq> 47"
  by (simp add: safe_codepoint_def)

lemma utf8_text_clean: "0 \<notin> set (utf8_text cps) \<and> 47 \<notin> set (utf8_text cps)"
  using utf8_bytes_clean safe_codepoint_clean by (induction cps) (auto simp: utf8_text_def)

lemma lfn_name_text:
  assumes "lfn_ok st" "lfn_name st e = Some name"
  shows "name = utf8_text (codepoints (lfn_chars st) (lfn_slots st * 13) 0) \<and> length name \<le> 780"
proof -
  have "lfn_slots st * 13 \<le> 260" using assms(1) by (simp add: lfn_ok_def)
  then show ?thesis
    using assms lfn_units_codepoints [of "lfn_chars st" "lfn_slots st * 13" "[]" 0]
    by (auto simp: lfn_name_def lfn_ok_def Let_def split: if_splits)
qed

lemma length_short_raw: "length (short_raw e) \<le> 12"
proof -
  have "trimmed e s n \<le> n" for s n by (induction n) auto
  then have "trimmed e 0 8 \<le> 8" "trimmed e 8 3 \<le> 3" by blast+
  then show ?thesis by (simp add: short_raw_def Let_def)
qed

definition short_char :: "byte \<Rightarrow> nat list" where
  "short_char b = (if 0x20 \<le> unat b \<and> unat b < 0x7F then [unat b] else hex_escape (unat b))"

lemma short_emit_all:
  "length out + 4 * length bs < 60 \<Longrightarrow> short_emit bs out = out @ concat (map short_char bs)"
  by (induction bs arbitrary: out) (auto simp: short_char_def Let_def hex_escape_def)

lemma short_name_text: "short_name e = concat (map short_char (short_raw e)) \<and> length (short_name e) \<le> 48"
proof -
  have e: "short_name e = concat (map short_char (short_raw e))"
    using short_emit_all [of "[]" "short_raw e"] length_short_raw [of e] by (simp add: short_name_def)
  have "length (concat (map short_char bs)) \<le> 4 * length bs" for bs
    by (induction bs) (auto simp: short_char_def hex_escape_def)
  from this [of "short_raw e"] length_short_raw [of e] e show ?thesis by simp
qed
end
