(* ===== verification/FatScan.thy ===== *)
theory FatScan
  imports FatNames
begin

text \<open>
  What a completed directory scan establishes: the chains of the catalogue are chains of
  the table, no cluster has two owners, every allocated cluster has one, and each
  directory reference names the bytes it came from.
\<close>

section \<open>What a scan establishes\<close>

definition same_but_scratch :: "Fat32 \<Rightarrow> Fat32 \<Rightarrow> bool" where
  "same_but_scratch fs fs' \<longleftrightarrow>
     (\<exists>v c s g. fs' = fs\<lparr>fs_visited_dirs := v, fs_claimed_clusters := c, fs_chain_seen := s, fs_chain_generation := g\<rparr>)"

lemma same_but_scratch_refl [simp]: "same_but_scratch fs fs"
  unfolding same_but_scratch_def
  by (rule exI [of _ "fs_visited_dirs fs"], rule exI [of _ "fs_claimed_clusters fs"],
      rule exI [of _ "fs_chain_seen fs"], rule exI [of _ "fs_chain_generation fs"]) simp

lemma same_but_scratch_trans:
  "same_but_scratch a b \<Longrightarrow> same_but_scratch b c \<Longrightarrow> same_but_scratch a c"
  unfolding same_but_scratch_def by (clarsimp, blast)

lemma same_but_scratch_marks: "same_but_marks fs fs' \<Longrightarrow> same_but_scratch fs fs'"
  unfolding same_but_scratch_def same_but_marks_def
  by (clarify, rule exI [of _ "fs_visited_dirs fs"], rule exI [of _ "fs_claimed_clusters fs"]) auto

lemma same_but_scratch_claimed [simp]:
  "same_but_scratch fs (fs\<lparr>fs_claimed_clusters := c\<rparr>)" "same_but_scratch fs (fs\<lparr>fs_visited_dirs := v\<rparr>)"
  unfolding same_but_scratch_def
   apply (rule exI [of _ "fs_visited_dirs fs"], rule exI [of _ c],
      rule exI [of _ "fs_chain_seen fs"], rule exI [of _ "fs_chain_generation fs"], simp)
  apply (rule exI [of _ v], rule exI [of _ "fs_claimed_clusters fs"],
      rule exI [of _ "fs_chain_seen fs"], rule exI [of _ "fs_chain_generation fs"], simp)
  done

text \<open>Whatever does not look at the scratch arrays is the same before and after.\<close>

lemma same_but_scratch_simps:
  assumes "same_but_scratch fs fs'"
  shows "fs_max_cluster fs' = fs_max_cluster fs" "fs_cluster_size fs' = fs_cluster_size fs"
    "fs_root_is_fixed fs' = fs_root_is_fixed fs" "fs_root_dir_size fs' = fs_root_dir_size fs"
    "fs_fat_type fs' = fs_fat_type fs" "fat_entry fs' = fat_entry fs" "linked fs' = linked fs"
    "is_chain fs' = is_chain fs" "table_ok fs' = table_ok fs" "layout_ok fs' = layout_ok fs"
    "entry_first_cluster E fs' = entry_first_cluster E fs" "size_disagrees fs' = size_disagrees fs"
    "fat_value fs' = fat_value fs" "fat_bad_value fs' = fat_bad_value fs"
    "fat_reserved_min fs' = fat_reserved_min fs" "fat_eoc_min fs' = fat_eoc_min fs"
    "data_cluster fs' = data_cluster fs" "disk_ok fs' = disk_ok fs" "fs_root_cluster fs' = fs_root_cluster fs"
    "fs_fat_entry_count fs' = fs_fat_entry_count fs"
proof -
  obtain v c s g where fs': "fs' = fs\<lparr>fs_visited_dirs := v, fs_claimed_clusters := c,
      fs_chain_seen := s, fs_chain_generation := g\<rparr>"
    using assms by (auto simp: same_but_scratch_def)
  show m: "fs_max_cluster fs' = fs_max_cluster fs" "fs_cluster_size fs' = fs_cluster_size fs"
    "fs_root_is_fixed fs' = fs_root_is_fixed fs" "fs_root_dir_size fs' = fs_root_dir_size fs"
    "fs_fat_type fs' = fs_fat_type fs" "fs_root_cluster fs' = fs_root_cluster fs"
    "fs_fat_entry_count fs' = fs_fat_entry_count fs" by (simp_all add: fs')
  show e: "fat_entry fs' = fat_entry fs" by (simp add: fat_entry_def fun_eq_iff fs' fat_mask_def)
  show b: "fat_bad_value fs' = fat_bad_value fs" "fat_reserved_min fs' = fat_reserved_min fs"
    "fat_eoc_min fs' = fat_eoc_min fs" by (simp_all add: fs' fat_bad_value_def fat_reserved_min_def fat_eoc_min_def)
  show d: "data_cluster fs' = data_cluster fs" by (simp add: data_cluster_def m fun_eq_iff)
  have "linked fs' cs = linked fs cs" for cs
    by (induction cs rule: induct_list012) (simp_all add: fat_ends_def fat_links_def e b d)
  then show l: "linked fs' = linked fs" by blast
  then show "is_chain fs' = is_chain fs" by (simp add: is_chain_def fun_eq_iff)
  show "table_ok fs' = table_ok fs" by (simp add: table_ok_def fs' fat_mask_def)
  show lay: "layout_ok fs' = layout_ok fs"
    by (cases "fs_fat_type fs") (simp_all add: layout_ok_def fs' data_cluster_def fs_fat_bytes_def)
  show "disk_ok fs' = disk_ok fs" unfolding disk_ok_def fun_eq_iff lay by (simp add: fs')
  show "entry_first_cluster E fs' = entry_first_cluster E fs"
    by (simp add: entry_first_cluster_def fun_eq_iff fs' fat_mask_def)
  show "size_disagrees fs' = size_disagrees fs" by (simp add: size_disagrees_def fun_eq_iff fs' Let_def)
  show "fat_value fs' = fat_value fs" by (simp add: fat_value_def fun_eq_iff fs' fat_mask_def)
qed

lemma claim_chain_Inr:
  "claim_chain fs cs = Inr fs' \<Longrightarrow> \<forall>c \<in> set cs. c < length (fs_claimed_clusters fs) \<Longrightarrow>
   \<exists>cl. fs' = fs\<lparr>fs_claimed_clusters := cl\<rparr> \<and> length cl = length (fs_claimed_clusters fs) \<and>
     (\<forall>i < length cl. cl ! i \<longleftrightarrow> fs_claimed_clusters fs ! i \<or> i \<in> set cs) \<and>
     distinct cs \<and> (\<forall>c \<in> set cs. \<not> fs_claimed_clusters fs ! c)"
proof (induction cs arbitrary: fs)
  case Nil
  then show ?case by (intro exI [of _ "fs_claimed_clusters fs"]) auto
next
  case (Cons c cs)
  define B where "B = (fs_claimed_clusters fs)[c := True]"
  from Cons.prems have c: "\<not> fs_claimed_clusters fs ! c" "c < length (fs_claimed_clusters fs)"
    and rest: "claim_chain (fs\<lparr>fs_claimed_clusters := B\<rparr>) cs = Inr fs'"
    unfolding B_def by (auto split: if_splits)
  have B: "fs_claimed_clusters (fs\<lparr>fs_claimed_clusters := B\<rparr>) = B"
    "fs\<lparr>fs_claimed_clusters := B\<rparr>\<lparr>fs_claimed_clusters := x\<rparr> = fs\<lparr>fs_claimed_clusters := x\<rparr>" for x by simp_all
  have lB: "length B = length (fs_claimed_clusters fs)" by (simp add: B_def)
  have upd: "B ! x = (x = c \<or> fs_claimed_clusters fs ! x)" if "x < length B" for x
    using that c lB by (auto simp: B_def nth_list_update)
  have bound: "\<forall>x \<in> set cs. x < length B" using Cons.prems(2) lB by simp
  from Cons.IH [OF rest, unfolded B] bound obtain cl where cl: "fs' = fs\<lparr>fs_claimed_clusters := cl\<rparr>" "length cl = length B"
    "\<forall>i < length cl. cl ! i \<longleftrightarrow> B ! i \<or> i \<in> set cs" "distinct cs" "\<forall>x \<in> set cs. \<not> B ! x" by blast
  have "c \<notin> set cs" using cl(5) upd bound by blast
  moreover have "\<forall>x \<in> set cs. \<not> fs_claimed_clusters fs ! x" using cl(5) upd bound by blast
  moreover have "\<forall>i < length cl. cl ! i \<longleftrightarrow> fs_claimed_clusters fs ! i \<or> i \<in> set (c # cs)"
    using cl(2,3) upd by auto
  ultimately show ?case using c(1) cl(1,2,4) lB by (intro exI [of _ cl]) simp
qed

definition record_ok :: "env \<Rightarrow> Fat32 \<Rightarrow> bytes \<Rightarrow> FileRecord \<Rightarrow> bool" where
  "record_ok E fs d f \<longleftrightarrow>
     (fr_first_cluster f = 0 \<longrightarrow> fr_chain f = []) \<and>
     (fr_first_cluster f \<noteq> 0 \<longrightarrow> is_chain fs (fr_first_cluster f) (fr_chain f)) \<and>
     fr_fragments f = chain_fragments (fr_chain f) \<and>
     (\<not> fr_is_dir f \<longrightarrow> \<not> size_disagrees fs (fr_size_bytes f) (fr_first_cluster f) (fr_chain f)) \<and>
     fr_dirent_offset f + 32 \<le> length d \<and>
     entry_first_cluster E fs (read_at (fr_dirent_offset f) 32 d) = fr_first_cluster f"

definition ref_ok :: "env \<Rightarrow> Fat32 \<Rightarrow> bytes \<Rightarrow> DirRef \<Rightarrow> bool" where
  "ref_ok E fs d r \<longleftrightarrow> ref_target_cluster r \<noteq> 0 \<and> ref_offset r + 32 \<le> length d \<and>
     entry_first_cluster E fs (read_at (ref_offset r) 32 d) = ref_target_cluster r"

definition owned_clusters :: "nat list \<Rightarrow> FileRecord list \<Rightarrow> nat list" where
  "owned_clusters root files = root @ concat (map fr_chain files)"

definition catalogue_ok ::
  "env \<Rightarrow> Fat32 \<Rightarrow> bytes \<Rightarrow> nat list \<Rightarrow> Fat32 \<Rightarrow> FileRecord list \<Rightarrow> DirRef list option \<Rightarrow> bool" where
  "catalogue_ok E fs0 d root fs files refs \<longleftrightarrow>
     same_but_scratch fs0 fs \<and> scratch_ok fs \<and>
     distinct (owned_clusters root files) \<and>
     (\<forall>c \<le> fs_max_cluster fs0. fs_claimed_clusters fs ! c \<longleftrightarrow> c \<in> set (owned_clusters root files)) \<and>
     (\<forall>f \<in> set files. record_ok E fs0 d f) \<and>
     (\<forall>v. refs = Some v \<longrightarrow> (\<forall>r \<in> set v. ref_ok E fs0 d r) \<and>
        (\<forall>f \<in> set files. fr_first_cluster f \<noteq> 0 \<longrightarrow>
           \<lparr>ref_offset = fr_dirent_offset f, ref_target_cluster = fr_first_cluster f\<rparr> \<in> set v))"

lemma scratch_ok_claimed:
  "scratch_ok fs \<Longrightarrow> length cl = length (fs_claimed_clusters fs) \<Longrightarrow> scratch_ok (fs\<lparr>fs_claimed_clusters := cl\<rparr>)"
  by (simp add: scratch_ok_def)

text \<open>Reading and claiming one chain.\<close>

lemma read_and_claim:
  assumes "fat32_read_chain E fs first = Inr (chain, fs1)" "claim_chain fs1 chain = Inr fs2"
    "same_but_scratch fs0 fs" "scratch_ok fs" "first \<noteq> 0"
    "\<forall>c \<le> fs_max_cluster fs0. fs_claimed_clusters fs ! c \<longleftrightarrow> c \<in> set owned" "distinct owned"
  shows "same_but_scratch fs0 fs2 \<and> scratch_ok fs2 \<and> is_chain fs0 first chain \<and> distinct (owned @ chain) \<and>
    (\<forall>c \<le> fs_max_cluster fs0. fs_claimed_clusters fs2 ! c \<longleftrightarrow> c \<in> set (owned @ chain))"
proof -
  note s = same_but_scratch_simps [OF assms(3)]
  have r: "is_chain fs first chain" "same_but_marks fs fs1" "scratch_ok fs1"
    using fat32_read_chain_sound [OF assms(1,4,5)] by auto
  have chain: "is_chain fs0 first chain" using r(1) s by simp
  have len: "length (fs_claimed_clusters fs1) = fs_max_cluster fs0 + 1"
    and same: "fs_claimed_clusters fs1 = fs_claimed_clusters fs"
    using r(2,3) s by (auto simp: scratch_ok_def same_but_marks_def)
  have data: "\<forall>c \<in> set chain. 2 \<le> c \<and> c \<le> fs_max_cluster fs0"
    using chain linked_data by (auto simp: is_chain_def data_cluster_def)
  then obtain cl where cl: "fs2 = fs1\<lparr>fs_claimed_clusters := cl\<rparr>" "length cl = length (fs_claimed_clusters fs1)"
      "\<forall>i < length cl. cl ! i \<longleftrightarrow> fs_claimed_clusters fs1 ! i \<or> i \<in> set chain"
      "distinct chain" "\<forall>c \<in> set chain. \<not> fs_claimed_clusters fs1 ! c"
    using claim_chain_Inr [OF assms(2)] len by fastforce
  have "same_but_scratch fs0 fs2"
    using same_but_scratch_trans [OF assms(3) same_but_scratch_trans [OF same_but_scratch_marks [OF r(2)]]]
    by (simp add: cl(1))
  moreover have "scratch_ok fs2" using r(3) cl(2) by (simp add: cl(1) scratch_ok_claimed)
  moreover have "set chain \<inter> set owned = {}" using cl(5) data assms(6) by (auto simp: same)
  moreover have "\<forall>c \<le> fs_max_cluster fs0. fs_claimed_clusters fs2 ! c \<longleftrightarrow> c \<in> set (owned @ chain)"
    using cl(1-3) len assms(6) by (auto simp: same less_Suc_eq_le)
  ultimately show ?thesis using chain cl(4) assms(7) by auto
qed

definition walk_ok :: "env \<Rightarrow> Fat32 \<Rightarrow> bytes \<Rightarrow> nat list \<Rightarrow> dir_walk \<Rightarrow> bool" where
  "walk_ok E fs0 d root walk \<longleftrightarrow>
     (\<forall>first path fs files refs fs' files' refs'.
        catalogue_ok E fs0 d root fs files refs \<longrightarrow> walk first path fs files refs = Inr (fs', files', refs') \<longrightarrow>
        catalogue_ok E fs0 d root fs' files' refs')"

abbreviation state_ok :: "env \<Rightarrow> Fat32 \<Rightarrow> bytes \<Rightarrow> nat list \<Rightarrow> ScanState \<Rightarrow> bool" where
  "state_ok E fs0 d root st \<equiv> catalogue_ok E fs0 d root (sc_fs st) (sc_files st) (sc_refs st)"

lemma scan_named_ok:
  assumes "scan_named E walk path dirent e first name st = Inr st'" "walk_ok E fs0 d root walk"
    "state_ok E fs0 d root st" "dirent + 32 \<le> length d" "e = read_at dirent 32 d"
    "first = entry_first_cluster E fs0 e"
    "\<forall>v. sc_refs st = Some v \<longrightarrow> first \<noteq> 0 \<longrightarrow> \<lparr>ref_offset = dirent, ref_target_cluster = first\<rparr> \<in> set v"
  shows "state_ok E fs0 d root st'"
proof -
  let ?size = "load_le32 E (drop 28 e)" and ?dir = "unat (e ! 11) AND 0x10 \<noteq> 0"
  from assms(1) obtain fs chain fragments files
    where ch: "entry_chain E (sc_fs st) first = Inr (fs, chain, fragments)"
      and sz: "\<not> (\<not> ?dir \<and> size_disagrees fs ?size first chain)"
      and push: "filelist_push E (sc_files st)
        \<lparr>fr_path = path_join path name, fr_dirent_offset = dirent, fr_first_cluster = first, fr_size_bytes = ?size,
         fr_attr = unat (e ! 11), fr_is_dir = ?dir, fr_chain = chain, fr_fragments = fragments\<rparr> = Inr files"
      and rest: "(if ?dir \<and> first \<noteq> 0 then
        bindE (walk first (path_join path name) fs files (sc_refs st)) (\<lambda>(fs, files, refs).
        Inr (st\<lparr>sc_fs := fs, sc_files := files, sc_refs := refs\<rparr>))
      else Inr (st\<lparr>sc_fs := fs, sc_files := files\<rparr>)) = Inr st'"
    unfolding scan_named_def Let_def by (auto simp: res_simps split: prod.splits)
  have files: "files = sc_files st @ [\<lparr>fr_path = path_join path name, fr_dirent_offset = dirent, fr_first_cluster = first, fr_size_bytes = ?size,
         fr_attr = unat (e ! 11), fr_is_dir = ?dir, fr_chain = chain, fr_fragments = fragments\<rparr>]"
    using push by (auto simp: filelist_push_def split: if_splits)
  note c = assms(3) [unfolded catalogue_ok_def]
  have one: "same_but_scratch fs0 fs \<and> scratch_ok fs \<and> distinct (owned_clusters root (sc_files st) @ chain) \<and>
    (\<forall>x \<le> fs_max_cluster fs0. fs_claimed_clusters fs ! x \<longleftrightarrow> x \<in> set (owned_clusters root (sc_files st) @ chain)) \<and>
    (first = 0 \<longrightarrow> chain = []) \<and> (first \<noteq> 0 \<longrightarrow> is_chain fs0 first chain) \<and> fragments = chain_fragments chain"
  proof (cases "first = 0")
    case True
    with ch c show ?thesis by (auto simp: entry_chain_def chain_fragments_def)
  next
    case False
    with ch obtain fs1 where "fat32_read_chain E (sc_fs st) first = Inr (chain, fs1)" "claim_chain fs1 chain = Inr fs"
      "fragments = chain_fragments chain" by (auto simp: entry_chain_def res_simps)
    with read_and_claim [of E "sc_fs st" first chain fs1 fs fs0] c False show ?thesis by auto
  qed
  have "size_disagrees fs = size_disagrees fs0" using one same_but_scratch_simps(12) [of fs0 fs] by simp
  then have mid: "catalogue_ok E fs0 d root fs files (sc_refs st)"
    using one c sz assms(4-7) unfolding catalogue_ok_def files
    by (auto simp: owned_clusters_def record_ok_def)
  show ?thesis
  proof (cases "?dir \<and> first \<noteq> 0")
    case True
    then obtain fs' files' refs' where "walk first (path_join path name) fs files (sc_refs st) = Inr (fs', files', refs')"
      "st' = st\<lparr>sc_fs := fs', sc_files := files', sc_refs := refs'\<rparr>"
      using rest by (auto simp: res_simps)
    with assms(2) mid show ?thesis by (auto simp: walk_ok_def)
  next
    case False
    then have "st' = st\<lparr>sc_fs := fs, sc_files := files\<rparr>" using rest by (auto split: if_splits)
    with mid show ?thesis by simp
  qed
qed

lemma push_ref_ok:
  assumes "push_ref E refs off first = Inr refs'" "catalogue_ok E fs0 d root fs files refs" "off + 32 \<le> length d"
    "first = entry_first_cluster E fs0 (read_at off 32 d)"
  shows "catalogue_ok E fs0 d root fs files refs' \<and>
    (\<forall>v. refs' = Some v \<longrightarrow> first \<noteq> 0 \<longrightarrow> \<lparr>ref_offset = off, ref_target_cluster = first\<rparr> \<in> set v)"
proof (cases refs)
  case None
  with assms show ?thesis by (auto simp: push_ref_def catalogue_ok_def)
next
  case (Some v)
  show ?thesis
  proof (cases "first = 0")
    case True
    with Some assms show ?thesis by (auto simp: push_ref_def)
  next
    case False
    with Some assms(1) have "refs' = Some (v @ [\<lparr>ref_offset = off, ref_target_cluster = first\<rparr>])"
      by (auto simp: push_ref_def dirreflist_push_def res_simps split: if_splits)
    with Some assms(2-4) False show ?thesis by (auto simp: catalogue_ok_def ref_ok_def)
  qed
qed

lemma scan_entry_ok:
  assumes "scan_entry E walk path pos buffer i st = Inr st'" "walk_ok E fs0 d root walk"
    "state_ok E fs0 d root st" "buffer = read_at pos n d" "pos + n \<le> length d" "i + 32 \<le> n"
  shows "state_ok E fs0 d root st'"
proof -
  let ?e = "read_at i 32 buffer"
  have e: "?e = read_at (pos + i) 32 d" using assms(4,6) by (simp add: read_at_read_at)
  have fits: "pos + i + 32 \<le> length d" using assms(5,6) by simp
  let ?first = "entry_first_cluster E (sc_fs st) ?e"
  have first: "?first = entry_first_cluster E fs0 ?e"
    using assms(3) same_but_scratch_simps [of fs0 "sc_fs st"] by (simp add: catalogue_ok_def)
  show ?thesis
  proof (cases "sc_end st \<or> ?e ! 0 = 0x00 \<or> ?e ! 0 = 0xE5 \<or> unat (?e ! 11) = 0x0F \<or> unat (?e ! 11) AND 0x08 \<noteq> 0")
    case True
    with assms(1,3) show ?thesis by (auto simp: scan_entry_def Let_def split: if_splits)
  next
    case False
    with assms(1) obtain refs where push: "push_ref E (sc_refs st) (pos + i) ?first = Inr refs"
      and rest: "(if is_dot_entry ?e then Inr (st\<lparr>sc_refs := refs, sc_lfn := lfn_reset\<rparr>)
          else if (case lfn_name (sc_lfn st) ?e of None \<Rightarrow> short_name ?e | Some n \<Rightarrow> n) = []
          then Inr (st\<lparr>sc_refs := refs, sc_lfn := lfn_reset\<rparr>)
          else scan_named E walk path (pos + i) ?e ?first
            (case lfn_name (sc_lfn st) ?e of None \<Rightarrow> short_name ?e | Some n \<Rightarrow> n)
            (st\<lparr>sc_refs := refs, sc_lfn := lfn_reset\<rparr>)) = Inr st'"
      unfolding scan_entry_def Let_def by (auto simp: res_simps cong: if_cong)
    have p: "catalogue_ok E fs0 d root (sc_fs st) (sc_files st) refs"
      "\<forall>v. refs = Some v \<longrightarrow> ?first \<noteq> 0 \<longrightarrow> \<lparr>ref_offset = pos + i, ref_target_cluster = ?first\<rparr> \<in> set v"
      using push_ref_ok [OF push assms(3) fits] first e by auto
    show ?thesis
      using rest p scan_named_ok [OF _ assms(2) _ fits e first]
      by (auto split: if_splits)
  qed
qed

lemma scan_unit_ok:
  assumes "scan_unit E walk d path n loc st = Inr st'" "walk_ok E fs0 d root walk" "state_ok E fs0 d root st" "io_exact E"
  shows "state_ok E fs0 d root st'"
proof (cases "sc_end st")
  case True
  with assms show ?thesis by (auto simp: scan_unit_def)
next
  case False
  with assms(1) obtain pos buffer where rd: "ld_pread_exact E d n pos ''read directory data'' = Inr buffer"
    and run: "foldE (scan_entry E walk path pos buffer) (entry_positions n) st = Inr st'"
    by (auto simp: scan_unit_def res_simps)
  note b = ld_pread_exact_Inr [OF assms(4) rd]
  show ?thesis
  proof (rule foldE_invariant [OF run])
    fix i a c assume "i \<in> set (entry_positions n)" "state_ok E fs0 d root a" "scan_entry E walk path pos buffer i a = Inr c"
    moreover from this have "i + 32 \<le> n"
      by (auto simp: entry_positions_def)
    ultimately show "state_ok E fs0 d root c" using scan_entry_ok [OF _ assms(2)] b by blast
  qed (rule assms(3))
qed

lemma scan_levels_ok: "io_exact E \<Longrightarrow> walk_ok E fs0 d root (scan_levels E d levels)"
proof (induction levels)
  case 0
  then show ?case by (simp add: walk_ok_def)
next
  case (Suc levels)
  show ?case
    unfolding walk_ok_def
  proof (intro allI impI)
    fix first path fs files refs fs' files' refs'
    assume cat: "catalogue_ok E fs0 d root fs files refs"
      and run: "scan_levels E d (Suc levels) first path fs files refs = Inr (fs', files', refs')"
    from run obtain fs1 units n st where
      pre: "(if fs_root_is_fixed fs \<and> first = 0 \<and> levels = 128 then
         Inr (fs, if fs_root_dir_size fs = 0 then [] else [None], fs_root_dir_size fs)
       else if first < 2 \<or> first > fs_max_cluster fs then Inl (Die ''invalid directory cluster'')
       else if fs_visited_dirs fs ! first then Inl (Die ''directory cycle or cross-link detected'')
       else
         bindE (fat32_read_chain E (fs\<lparr>fs_visited_dirs := (fs_visited_dirs fs)[first := True]\<rparr>) first) (\<lambda>(chain, fs).
         Inr (fs, map Some chain, fs_cluster_size fs))) = Inr (fs1, units, n)"
      and units: "foldE (scan_unit E (scan_levels E d levels) d path n) units
              \<lparr>sc_fs = fs1, sc_files = files, sc_refs = refs, sc_lfn = lfn_reset, sc_end = False\<rparr> = Inr st"
      and out: "fs' = sc_fs st" "files' = sc_files st" "refs' = sc_refs st"
      unfolding scan_levels.simps Let_def bindE_Inr_iff [of _ "\<lambda>(fs, units, unit_size). _ fs units unit_size"]
      by (auto simp: bindE_Inr_iff [of "foldE _ _ _"])
    have cat1: "catalogue_ok E fs0 d root fs1 files refs"
    proof (cases "fs_root_is_fixed fs \<and> first = 0 \<and> levels = 128")
      case True
      with pre cat show ?thesis by auto
    next
      case False
      let ?v = "fs\<lparr>fs_visited_dirs := (fs_visited_dirs fs)[first := True]\<rparr>"
      from False pre obtain chain where ch: "fat32_read_chain E ?v first = Inr (chain, fs1)" and f: "\<not> first < 2"
        by (auto simp: res_simps split: if_splits)
      have "scratch_ok ?v" using cat by (simp add: catalogue_ok_def scratch_ok_def)
      from fat32_read_chain_sound [OF ch this] f have "same_but_marks ?v fs1" "scratch_ok fs1" by auto
      moreover from this have "same_but_scratch fs0 fs1"
        using cat same_but_scratch_trans same_but_scratch_marks same_but_scratch_claimed(2)
        unfolding catalogue_ok_def by metis
      moreover have "fs_claimed_clusters fs1 = fs_claimed_clusters fs"
        using \<open>same_but_marks ?v fs1\<close> by (auto simp: same_but_marks_def)
      ultimately show ?thesis using cat by (simp add: catalogue_ok_def)
    qed
    have "state_ok E fs0 d root st"
      by (rule foldE_invariant [OF units]) (use cat1 scan_unit_ok [OF _ Suc.IH [OF Suc.prems] _ Suc.prems] in auto)
    with out show "catalogue_ok E fs0 d root fs' files' refs'" by simp
  qed
qed

lemma check_allocation_Inr:
  "check_allocation fs cs = Inr u \<Longrightarrow> c \<in> set cs \<Longrightarrow>
   fat_entry fs c = 0 \<or> fat_entry fs c = fat_bad_value fs \<or>
   (fs_claimed_clusters fs ! c \<and> \<not> (fat_reserved_min fs \<le> fat_entry fs c \<and> fat_entry fs c < fat_eoc_min fs))"
  by (induction cs) (auto simp: res_simps fat_value_Inr split: if_splits)

text \<open>The clusters in use are exactly those whose entry is neither free nor bad.\<close>

definition in_use :: "Fat32 \<Rightarrow> nat \<Rightarrow> bool" where
  "in_use fs c \<longleftrightarrow> data_cluster fs c \<and> fat_entry fs c \<noteq> 0 \<and> fat_entry fs c \<noteq> fat_bad_value fs"

lemma linked_in_use: "linked fs cs \<Longrightarrow> c \<in> set cs \<Longrightarrow> in_use fs c"
proof (induction cs rule: induct_list012)
  case (2 x)
  then show ?case using fat_constants [of fs] by (auto simp: in_use_def fat_ends_def)
next
  case (3 x n rest)
  then show ?case using fat_constants [of fs] by (auto simp: in_use_def fat_links_def data_cluster_def)
qed simp

definition root_chain_ok :: "Fat32 \<Rightarrow> nat list \<Rightarrow> bool" where
  "root_chain_ok fs root \<longleftrightarrow>
     (if fs_root_is_fixed fs then root = [] else is_chain fs (fs_root_cluster fs) root)"

lemma owned_in_use:
  assumes "catalogue_ok E fs d root fs' files refs" "root_chain_ok fs root" "c \<in> set (owned_clusters root files)"
  shows "in_use fs c"
proof -
  have "linked fs (fr_chain f)" if "f \<in> set files" "fr_chain f \<noteq> []" for f
    using assms(1) that by (auto simp: catalogue_ok_def record_ok_def is_chain_def)
  then have "c \<in> set (fr_chain f) \<Longrightarrow> f \<in> set files \<Longrightarrow> in_use fs c" for f
    using linked_in_use by (metis empty_iff list.set(1))
  moreover have "c \<in> set root \<Longrightarrow> in_use fs c"
    using assms(2) linked_in_use by (auto simp: root_chain_ok_def is_chain_def split: if_splits)
  ultimately show ?thesis using assms(3) by (auto simp: owned_clusters_def)
qed

lemma scan_files_ok:
  assumes "scan_files E d fs want = Inr (files, refs, fs')" "io_exact E" "scratch_ok fs" "table_ok fs"
    "\<not> fs_root_is_fixed fs \<Longrightarrow> fs_root_cluster fs \<noteq> 0"
  shows "\<exists>root. root_chain_ok fs root \<and> catalogue_ok E fs d root fs' files refs \<and>
    (\<forall>c. c \<in> set (owned_clusters root files) \<longleftrightarrow> in_use fs c)"
proof -
  define z where "z = fs\<lparr>fs_visited_dirs := replicate (fs_max_cluster fs + 1) False,
                  fs_claimed_clusters := replicate (fs_max_cluster fs + 1) False\<rparr>"
  have z: "same_but_scratch fs z" "scratch_ok z" "\<forall>c \<le> fs_max_cluster fs. \<not> fs_claimed_clusters z ! c"
    "fs_root_is_fixed z = fs_root_is_fixed fs" "fs_root_cluster z = fs_root_cluster fs"
    using assms(3) same_but_scratch_trans [OF same_but_scratch_claimed(2) same_but_scratch_claimed(1)]
    by (auto simp: z_def scratch_ok_def simp del: replicate_Suc)
  from assms(1) obtain fs1 fs2
    where root: "(if \<not> fs_root_is_fixed z then
               bindE (filesystem_root_chain E z) (\<lambda>(root_chain, fs). claim_chain fs root_chain) else Inr z) = Inr fs1"
      and scan: "scan_levels E d 129 (if fs_root_is_fixed fs1 then 0 else fs_root_cluster fs1) [] fs1 [] (if want then Some [] else None) = Inr (fs2, files, refs)"
      and chk: "check_allocation fs2 [2..<fs_max_cluster fs2 + 1] = Inr ()" and fs': "fs' = fs2"
    unfolding scan_files_def Let_def z_def [symmetric] scan_directory_def by (auto simp: res_simps)
  have "\<exists>rc. root_chain_ok fs rc \<and> catalogue_ok E fs d rc fs1 [] (if want then Some [] else None)"
  proof (cases "fs_root_is_fixed fs")
    case True
    then have "fs1 = z" using root z(4) by simp
    with z True show ?thesis
      by (intro exI [of _ "[]"]) (auto simp: root_chain_ok_def catalogue_ok_def owned_clusters_def)
  next
    case False
    with root z(4,5) obtain rc y where ch: "fat32_read_chain E z (fs_root_cluster fs) = Inr (rc, y)"
      and cl: "claim_chain y rc = Inr fs1" by (auto simp: filesystem_root_chain_def res_simps)
    from read_and_claim [OF ch cl z(1,2) assms(5) [OF False], of "[]"] z(3) False show ?thesis
      by (intro exI [of _ rc]) (auto simp: root_chain_ok_def catalogue_ok_def owned_clusters_def)
  qed
  then obtain rc where rc: "root_chain_ok fs rc" "catalogue_ok E fs d rc fs1 [] (if want then Some [] else None)" by blast
  have cat: "catalogue_ok E fs d rc fs2 files refs"
    using scan_levels_ok [OF assms(2), of fs d rc 129] rc(2) scan unfolding walk_ok_def by blast
  have all: "c \<in> set (owned_clusters rc files)" if "in_use fs c" for c
  proof -
    have s: "same_but_scratch fs fs2" using cat by (simp add: catalogue_ok_def)
    have "c \<in> set [2..<fs_max_cluster fs2 + 1]"
      using that same_but_scratch_simps(1) [OF s] by (auto simp: in_use_def data_cluster_def simp del: upt_Suc)
    from check_allocation_Inr [OF chk this] that same_but_scratch_simps [OF s]
    have "fs_claimed_clusters fs2 ! c" by (simp add: in_use_def)
    with cat that show ?thesis by (simp add: catalogue_ok_def in_use_def data_cluster_def)
  qed
  with rc(1) cat owned_in_use [OF cat rc(1)] fs' show ?thesis by blast
qed

end
