(* ===== verification/FatScanProps.thy ===== *)
theory FatScanProps
  imports FatScan FatNames Demo
begin

text \<open>Properties of the directory catalogue.\<close>

section \<open>Names\<close>

definition entry_name :: "env \<Rightarrow> bytes list \<Rightarrow> bytes \<Rightarrow> nat list" where
  "entry_name E slots entry =
     (case lfn_name (fold (\<lambda>s st. lfn_accept_entry E st s) slots lfn_reset) entry of
        None \<Rightarrow> short_name entry | Some n \<Rightarrow> n)"

lemma short_name_clean: "0 \<notin> set (short_name e)"
proof -
  have "0 \<notin> set (short_char b)" for b
    by (auto simp: short_char_def hex_escape_def hex_digit_def)
  then show ?thesis using short_name_text [of e] by auto
qed


definition demo_entry_bytes :: bytes where
  "demo_entry_bytes = [65, 32, 32, 32, 32, 32, 32, 32, 66, 32, 32, 32,
     0, 0, 0, 0, 0, 0, 0, 0, 0, 0, 0, 0, 0, 0, 2, 0, 0, 4, 0, 0]"


section \<open>An example scan\<close>

text \<open>The example volume with an entry \<open>A.B\<close> for its chain.\<close>

definition demo_dir_disk :: bytes where
  "demo_dir_disk = demo_boot @ demo_fat @ demo_entry_bytes @ replicate 1504 0"

lemma length_demo_dir_disk [simp]: "length demo_dir_disk = 2560" "length demo_entry_bytes = 32"
  by (simp_all add: demo_dir_disk_def demo_entry_bytes_def)

lemma trimmed_numeral:
  "trimmed e s (numeral k) = (if e ! (s + pred_numeral k) = 32 then trimmed e s (pred_numeral k) else numeral k)"
  by (simp add: numeral_eq_Suc)

lemma demo_entry_fields:
  "demo_entry_bytes ! 0 = 65" "demo_entry_bytes ! 11 = 32" "load_le32 ref_env (drop 28 demo_entry_bytes) = 1024"
  "short_name demo_entry_bytes = [65, 46, 66]" "lfn_name lfn_reset demo_entry_bytes = None"
  "\<not> is_dot_entry demo_entry_bytes"
proof -
  show "demo_entry_bytes ! 0 = 65" "demo_entry_bytes ! 11 = 32" by (simp_all add: demo_entry_bytes_def)
  then show "\<not> is_dot_entry demo_entry_bytes" by (simp add: is_dot_entry_def)
  show "load_le32 ref_env (drop 28 demo_entry_bytes) = 1024"
    by (simp add: ref_env_def) (simp add: demo_entry_bytes_def)
  have e: "demo_entry_bytes ! 8 = 66" "\<And>i. i \<in> {1..7} \<Longrightarrow> demo_entry_bytes ! i = 32" "demo_entry_bytes ! 9 = 32" "demo_entry_bytes ! 10 = 32"
    by (auto simp: demo_entry_bytes_def nth_append nth_Cons split: nat.splits)
  have "trimmed demo_entry_bytes 0 8 = 1" "trimmed demo_entry_bytes 8 3 = 1"
    using e \<open>demo_entry_bytes ! 0 = 65\<close> by (simp_all add: trimmed_numeral)
  then have "short_raw demo_entry_bytes = [65, 46, 66]"
    using e \<open>demo_entry_bytes ! 0 = 65\<close> by (simp add: short_raw_def)
  then show "short_name demo_entry_bytes = [65, 46, 66]" by (simp add: short_name_def)
  show "lfn_name lfn_reset demo_entry_bytes = None" by (simp add: lfn_name_def lfn_reset_def)
qed

lemma scan_after_end: "sc_end st \<Longrightarrow> foldE (scan_entry E walk path cp buffer) ps st = Inr st"
  by (induction ps) (simp_all add: scan_entry_def)

definition demo_scan_fs :: Fat32 where
  "demo_scan_fs = demo_fs\<lparr>fs_visited_dirs := replicate 4 False, fs_claimed_clusters := replicate 4 False\<rparr>"

lemma demo_entry_chain:
  obtains fs2 where "entry_chain ref_env demo_scan_fs 2 = Inr (fs2, [2, 3], 1)" "same_but_scratch demo_fs fs2"
    "fs_claimed_clusters fs2 ! 2" "fs_claimed_clusters fs2 ! 3"
proof -
  have ok: "table_ok demo_scan_fs" "scratch_ok demo_scan_fs"
    using demo_ok by (auto simp: demo_scan_fs_def table_ok_def scratch_ok_def fat_mask_def)
  have "is_chain demo_scan_fs 2 [2, 3]"
    using demo_chain by (simp add: demo_scan_fs_def is_chain_def data_cluster_def fat_links_def fat_ends_def fat_eoc_min_def
        fat_reserved_min_def fat_entry_def fat_mask_def)
  then obtain fs1 where rd: "fat32_read_chain ref_env demo_scan_fs 2 = Inr ([2, 3], fs1)"
    using fat32_read_chain_complete [OF _ ok reserve_ok_ref] by force
  have m: "same_but_marks demo_scan_fs fs1" using fat32_read_chain_sound [OF rd ok(2)] by simp
  have cl: "fs_claimed_clusters fs1 = replicate 4 False" using m by (auto simp: same_but_marks_def demo_scan_fs_def)
  let ?fs2 = "fs1\<lparr>fs_claimed_clusters := (fs_claimed_clusters fs1)[2 := True, 3 := True]\<rparr>"
  have upd: "\<not> replicate 4 False ! 2" "\<not> (replicate 4 False)[2 := True] ! 3"
    "(replicate 4 False)[2 := True, 3 := True] ! 2" "(replicate 4 False)[2 := True, 3 := True] ! 3"
    by (simp_all add: eval_nat_numeral)
  have "chain_fragments [2, 3] = 1" by (simp add: chain_fragments_def u32_def)
  then have "entry_chain ref_env demo_scan_fs 2 = Inr (?fs2, [2, 3], 1)"
    using upd by (simp add: entry_chain_def rd cl)
  moreover have "same_but_scratch demo_scan_fs fs1" using m by (rule same_but_scratch_marks)
  then have "same_but_scratch demo_fs fs1"
    using same_but_scratch_trans same_but_scratch_claimed unfolding demo_scan_fs_def by metis
  then have "same_but_scratch demo_fs ?fs2" using same_but_scratch_trans same_but_scratch_claimed by blast
  ultimately show thesis using that upd cl by simp
qed

definition demo_record :: FileRecord where
  "demo_record = \<lparr>fr_path = [65, 46, 66], fr_dirent_offset = 1024, fr_first_cluster = 2, fr_size_bytes = 1024,
     fr_attr = 32, fr_is_dir = False, fr_chain = [2, 3], fr_fragments = 1\<rparr>"

lemma demo_scan_simps [simp]:
  "fs_fat_type demo_scan_fs = FAT_TYPE_12" "fs_max_cluster demo_scan_fs = 3" "fs_root_dir_offset demo_scan_fs = 1024"
  "fs_root_is_fixed demo_scan_fs" "fs_root_dir_size demo_scan_fs = 512" "fs_cluster_size demo_scan_fs = 512"
proof -
  have "fs_root_is_fixed demo_fs" "fs_root_dir_size demo_fs = 512"
    by (simp_all add: demo_fs_def fat32_of_geometry_def demo_geometry_def Let_def del: upt_rec_numeral)
  then show "fs_root_is_fixed demo_scan_fs" "fs_root_dir_size demo_scan_fs = 512" by (simp_all add: demo_scan_fs_def)
qed (simp_all add: demo_scan_fs_def)

lemma demo_first_cluster: "entry_first_cluster ref_env demo_scan_fs demo_entry_bytes = 2"
proof -
  have "load_le16 ref_env (drop 26 demo_entry_bytes) = 2"
    by (simp add: ref_env_def) (simp add: demo_entry_bytes_def)
  then show ?thesis by (simp add: entry_first_cluster_def fat_mask_def Let_def)
qed

lemma demo_scan_entry:
  assumes "entry_chain ref_env demo_scan_fs 2 = Inr (fs2, [2, 3], 1)" "same_but_scratch demo_fs fs2"
  shows "scan_entry ref_env walk [] 1024 (demo_entry_bytes @ rest) 0
    \<lparr>sc_fs = demo_scan_fs, sc_files = [], sc_refs = None, sc_lfn = lfn_reset, sc_end = False\<rparr> =
    Inr \<lparr>sc_fs = fs2, sc_files = [demo_record], sc_refs = None, sc_lfn = lfn_reset, sc_end = False\<rparr>"
proof -
  have entry: "read_at 0 32 (demo_entry_bytes @ rest) = demo_entry_bytes" by (simp add: read_at_def)
  have "fs_cluster_size fs2 = 512" using assms(2) by (auto simp: same_but_scratch_def)
  then have size: "\<not> size_disagrees fs2 1024 2 [2, 3]" by (simp add: size_disagrees_def Let_def)
  have push: "filelist_push ref_env [] x = Inr [x]" for x by (simp add: filelist_push_def ref_env_def)
  show ?thesis
    by (simp add: scan_entry_def entry demo_entry_fields demo_first_cluster push_ref_def scan_named_def assms(1) Let_def
        size die_if_def push path_join_def demo_record_def)
qed

lemma demo_scan:
  obtains fs' where "scan_files ref_env demo_dir_disk demo_fs False = Inr ([demo_record], None, fs')"
proof -
  obtain fs2 where ch: "entry_chain ref_env demo_scan_fs 2 = Inr (fs2, [2, 3], 1)" and same: "same_but_scratch demo_fs fs2"
    and cl: "fs_claimed_clusters fs2 ! 2" "fs_claimed_clusters fs2 ! 3" using demo_entry_chain .
  let ?st = "\<lparr>sc_fs = fs2, sc_files = [demo_record], sc_refs = None, sc_lfn = lfn_reset, sc_end = False\<rparr>"
  let ?buf = "demo_entry_bytes @ replicate 480 0"
  have rd: "ld_pread_exact ref_env demo_dir_disk 512 1024 what = Inr ?buf" for what
  proof -
    have "demo_dir_disk = (demo_boot @ demo_fat) @ ?buf @ replicate 1024 0"
      by (simp add: demo_dir_disk_def replicate_add [symmetric])
    moreover have "read_at 1024 512 ((demo_boot @ demo_fat) @ ?buf @ replicate 1024 0) = ?buf"
      by (simp add: read_at_def)
    ultimately have "read_at 1024 512 demo_dir_disk = ?buf" by metis
    then show ?thesis by (simp add: ld_pread_exact_total)
  qed
  have pos: "entry_positions 512 = 0 # 32 # map (\<lambda>i. i * 32) [2..<16]"
    by (simp add: entry_positions_def upt_conv_Cons del: upt_rec_numeral)
  have "foldE (scan_entry ref_env walk [] 1024 ?buf) (entry_positions 512)
      \<lparr>sc_fs = demo_scan_fs, sc_files = [], sc_refs = None, sc_lfn = lfn_reset, sc_end = False\<rparr> = Inr (?st\<lparr>sc_end := True\<rparr>)" for walk
  proof -
    have "scan_entry ref_env walk [] 1024 ?buf 32 ?st = Inr (?st\<lparr>sc_end := True\<rparr>)"
      by (simp add: scan_entry_def read_at_def Let_def)
    then show ?thesis
      using demo_scan_entry [OF ch same] scan_after_end [of "?st\<lparr>sc_end := True\<rparr>"] by (simp add: pos del: upt_rec_numeral)
  qed
  then have "scan_levels ref_env demo_dir_disk (Suc 128) 0 [] demo_scan_fs [] None = Inr (fs2, [demo_record], None)"
    by (simp only: scan_levels.simps) (simp add: scan_unit_def rd)
  then have walk: "scan_directory ref_env demo_dir_disk 0 0 [] demo_scan_fs [] None = Inr (fs2, [demo_record], None)"
    by (simp only: scan_directory_def minus_nat.diff_0) simp
  have m: "fs_max_cluster fs2 = 3" "fs_fat fs2 = fs_fat demo_fs" "fs_fat_type fs2 = FAT_TYPE_12" "fs_fat_entry_count fs2 = 341"
    using same by (auto simp: same_but_scratch_def)
  have len: "length (fs_fat demo_fs) = 341" using demo_ok(2) by (simp add: table_ok_def)
  have v: "fat_value fs2 c = Inr (fat_entry demo_fs c)" if "c < 341" for c
    using that m len by (simp add: fat_value_def fat_entry_def fat_mask_def)
  have "check_allocation fs2 [2..<fs_max_cluster fs2 + 1] = Inr ()"
    using cl v [of 2] v [of 3] demo_entry [of 2] demo_entry [of 3] demo_raw_entries
    by (simp add: m upt_rec die_if_def fat_bad_value_def fat_reserved_min_def fat_eoc_min_def)
  then have "scan_files ref_env demo_dir_disk demo_fs False = Inr ([demo_record], None, fs2)"
    using walk demo_scan_simps(4) by (simp add: scan_files_def demo_scan_fs_def Let_def)
  then show thesis by (rule that)
qed

section \<open>The catalogue\<close>

text \<open>C2. A scan that returns has seen everything exactly once: every record names the chain of
  the entry it was read from, with its fragments counted and, for a file, its size agreeing
  with its chain; no cluster belongs to two records or to a record and the root directory;
  and a cluster is in use in the table if and only if a record or the root owns it.\<close>

theorem scan_accounts_for_every_cluster:
  assumes "scan_files E d fs want = Inr (files, refs, fs')" "io_exact E" "scratch_ok fs" "table_ok fs"
    "fs_root_is_fixed fs \<or> fs_root_cluster fs \<noteq> 0"
  shows "\<exists>root. (if fs_root_is_fixed fs then root = [] else is_chain fs (fs_root_cluster fs) root) \<and>
    (\<forall>f \<in> set files. record_ok E fs d f) \<and> distinct (root @ concat (map fr_chain files)) \<and>
    (\<forall>c. c \<in> set root \<or> (\<exists>f \<in> set files. c \<in> set (fr_chain f)) \<longleftrightarrow> in_use fs c)"
proof -
  obtain root where "root_chain_ok fs root" "catalogue_ok E fs d root fs' files refs"
    "\<forall>c. c \<in> set (owned_clusters root files) \<longleftrightarrow> in_use fs c"
    using scan_files_ok [OF assms(1-4)] assms(5) by blast
  then show ?thesis
    by (intro exI [of _ root]) (auto simp: root_chain_ok_def catalogue_ok_def owned_clusters_def)
qed

theorem scan_accounts_for_every_cluster_witness:
  "\<exists>fs'. scan_files ref_env demo_dir_disk demo_fs False = Inr ([demo_record], None, fs') \<and>
     record_ok ref_env demo_fs demo_dir_disk demo_record \<and> (\<forall>c. c = 2 \<or> c = 3 \<longleftrightarrow> in_use demo_fs c)"
proof -
  obtain fs' where run: "scan_files ref_env demo_dir_disk demo_fs False = Inr ([demo_record], None, fs')" using demo_scan .
  have fixed: "fs_root_is_fixed demo_fs" using demo_scan_simps(4) by (simp add: demo_scan_fs_def)
  from scan_accounts_for_every_cluster [OF run io_exact_ref demo_ok(3,2)] fixed
  have "record_ok ref_env demo_fs demo_dir_disk demo_record"
    "\<forall>c. c \<in> set (fr_chain demo_record) \<longleftrightarrow> in_use demo_fs c" by auto
  with run show ?thesis by (simp add: demo_record_def)
qed

end
