(* ===== verification/TextFormat.thy ===== *)
theory TextFormat
  imports Prelude "HOL-Library.Multiset"
begin

text \<open>
  The conversions of \<open>printf\<close> that the engines use, as strings: \<open>%u\<close>, \<open>%zu\<close> and
  \<open>%PRIu32\<close> are \<open>dec\<close>, \<open>%08x\<close> is \<open>hex08\<close>, \<open>%s\<close> on a file name (a byte string) is
  \<open>bytes_text\<close>. What the code prints is a value of the model, not an effect.
\<close>

definition digit :: "nat \<Rightarrow> char" where
  "digit d = ''0123456789abcdef'' ! d"

fun radix :: "nat \<Rightarrow> nat \<Rightarrow> string" where
  "radix base n = (if n < base \<or> base < 2 then [digit (n mod base)]
                   else radix base (n div base) @ [digit (n mod base)])"

declare radix.simps [simp del]

definition dec :: "nat \<Rightarrow> string" where "dec n = radix 10 n"

definition hex :: "nat \<Rightarrow> string" where "hex n = radix 16 n"

text \<open>Minimum field widths: \<open>%6zu\<close>, \<open>%-4s\<close> and \<open>%04x\<close>.\<close>

definition pad_left :: "char \<Rightarrow> nat \<Rightarrow> string \<Rightarrow> string" where
  "pad_left c n s = replicate (n - length s) c @ s"

definition pad_right :: "nat \<Rightarrow> string \<Rightarrow> string" where
  "pad_right n s = s @ replicate (n - length s) (CHR '' '')"

definition hex08 :: "nat \<Rightarrow> string" where
  "hex08 n = pad_left (CHR ''0'') 8 (hex n)"

definition bytes_text :: "nat list \<Rightarrow> string" where
  "bytes_text bs = map char_of bs"

definition text_bytes :: "string \<Rightarrow> nat list" where
  "text_bytes s = map of_char s"

abbreviation NL :: char where "NL \<equiv> CHR 0x0A"

abbreviation QUOTE :: char where "QUOTE \<equiv> CHR 0x22"

definition json_quoted :: "string \<Rightarrow> string" where
  "json_quoted s = QUOTE # s @ [QUOTE]"

definition json_pair :: "string \<Rightarrow> nat \<Rightarrow> string" where
  "json_pair key value = json_quoted key @ '':'' @ dec value"

definition plural :: "nat \<Rightarrow> string \<Rightarrow> string \<Rightarrow> string" where
  "plural n one many = (if n = 1 then one else many)"

section \<open>Comparison of byte strings\<close>

text \<open>The sign of \<open>strcmp\<close>.\<close>

fun strcmp :: "nat list \<Rightarrow> nat list \<Rightarrow> int" where
  "strcmp [] [] = 0"
| "strcmp [] (b # bs) = -1"
| "strcmp (a # as) [] = 1"
| "strcmp (a # as) (b # bs) = (if a < b then -1 else if b < a then 1 else strcmp as bs)"

lemma strcmp_0: "strcmp a b = 0 \<longleftrightarrow> a = b"
  by (induction a b rule: strcmp.induct) auto

lemma strcmp_neg: "strcmp a b < 0 \<longleftrightarrow> strcmp b a > 0"
  by (induction a b rule: strcmp.induct) auto

lemma strcmp_linear: "\<not> strcmp a b \<le> 0 \<Longrightarrow> strcmp b a \<le> 0"
  using strcmp_neg [of b a] by simp

lemma strcmp_Nil [simp]: "strcmp [] b \<le> 0" "strcmp (x # xs) [] \<le> 0 \<longleftrightarrow> False"
  by (cases b) auto

lemma strcmp_trans: "strcmp a b \<le> 0 \<Longrightarrow> strcmp b c \<le> 0 \<Longrightarrow> strcmp a c \<le> 0"
proof (induction a arbitrary: b c)
  case (Cons x xs)
  obtain y ys where b: "b = y # ys" using Cons.prems(1) by (cases b) auto
  obtain z zs where c: "c = z # zs" using Cons.prems(2) b by (cases c) auto
  show ?case using Cons.prems Cons.IH [of ys zs] unfolding b c by (simp split: if_splits)
qed simp

section \<open>\<open>qsort\<close> with a three-way comparison\<close>

text \<open>
  The result of \<open>qsort\<close> is determined up to elements that compare equal; the model takes
  the stable order.
\<close>

fun insert_by :: "('a \<Rightarrow> 'a \<Rightarrow> int) \<Rightarrow> 'a \<Rightarrow> 'a list \<Rightarrow> 'a list" where
  "insert_by cmp x [] = [x]"
| "insert_by cmp x (y # ys) = (if cmp x y \<le> 0 then x # y # ys else y # insert_by cmp x ys)"

definition qsort_by :: "('a \<Rightarrow> 'a \<Rightarrow> int) \<Rightarrow> 'a list \<Rightarrow> 'a list" where
  "qsort_by cmp xs = foldr (insert_by cmp) xs []"

lemma set_insert_by [simp]: "set (insert_by cmp x ys) = insert x (set ys)"
  by (induction ys) auto

lemma mset_insert_by [simp]: "mset (insert_by cmp x ys) = add_mset x (mset ys)"
  by (induction ys) auto

lemma mset_qsort_by [simp]: "mset (qsort_by cmp xs) = mset xs"
  unfolding qsort_by_def by (induction xs) simp_all

lemma set_qsort_by [simp]: "set (qsort_by cmp xs) = set xs"
  by (metis mset_qsort_by set_mset_mset)

lemma length_qsort_by [simp]: "length (qsort_by cmp xs) = length xs"
  by (metis mset_qsort_by size_mset)

lemma distinct_qsort_by [simp]: "distinct (qsort_by cmp xs) = distinct xs"
  by (metis mset_qsort_by mset_eq_imp_distinct_iff)

text \<open>The contract a comparison function has to meet.\<close>

locale comparator =
  fixes cmp :: "'a \<Rightarrow> 'a \<Rightarrow> int"
  assumes total: "cmp x y \<le> 0 \<or> cmp y x \<le> 0"
    and trans: "cmp x y \<le> 0 \<Longrightarrow> cmp y z \<le> 0 \<Longrightarrow> cmp x z \<le> 0"
begin

lemma sorted_insert:
  "sorted_wrt (\<lambda>a b. cmp a b \<le> 0) ys \<Longrightarrow> sorted_wrt (\<lambda>a b. cmp a b \<le> 0) (insert_by cmp x ys)"
proof (induction ys)
  case (Cons y ys)
  show ?case
  proof (cases "cmp x y \<le> 0")
    case True
    with Cons.prems show ?thesis by (auto intro: trans [OF True])
  next
    case False
    then have "cmp y x \<le> 0" using total [of x y] by simp
    with False Cons show ?thesis by simp
  qed
qed simp

lemma sorted: "sorted_wrt (\<lambda>a b. cmp a b \<le> 0) (qsort_by cmp xs)"
  unfolding qsort_by_def by (induction xs) (simp_all add: sorted_insert)

end

lemma insert_by_sorted: "(\<forall>y \<in> set ys. cmp x y \<le> 0) \<Longrightarrow> insert_by cmp x ys = x # ys"
  by (cases ys) auto

lemma qsort_by_sorted: "sorted_wrt (\<lambda>a b. cmp a b \<le> 0) xs \<Longrightarrow> qsort_by cmp xs = xs"
  unfolding qsort_by_def by (induction xs) (auto simp: insert_by_sorted)


section \<open>Reading numbers back\<close>

lemma radix_step:
  "2 \<le> base \<Longrightarrow> radix base n =
     (if n < base then [digit n] else radix base (n div base) @ [digit (n mod base)])"
  by (subst radix.simps) simp

lemma radix_induct [consumes 1, case_names small large]:
  assumes "2 \<le> base"
    and "\<And>n. n < base \<Longrightarrow> P n" "\<And>n. base \<le> n \<Longrightarrow> P (n div base) \<Longrightarrow> P n"
  shows "P (n :: nat)"
proof (induction n rule: less_induct)
  case (less n)
  show ?case
  proof (cases "n < base")
    case False
    then have "n div base < n" using assms(1) by (intro div_less_dividend) auto
    with less False assms(3) show ?thesis by simp
  qed (rule assms(2))
qed

lemma radix_value:
  assumes "2 \<le> base" "\<And>d. d < base \<Longrightarrow> val (digit d) = d"
  shows "foldl (\<lambda>v c. v * base + val c) 0 (radix base n) = n"
  using assms(1)
proof (induction n rule: radix_induct)
  case (small n)
  then show ?case using assms by (simp add: radix_step)
next
  case (large n)
  moreover have "n mod base < base" using assms(1) by simp
  ultimately show ?case using assms by (simp add: radix_step [of base n])
qed

lemma radix_chars:
  assumes "2 \<le> base" "c \<in> set (radix base n)"
  shows "\<exists>d < base. c = digit d"
  using assms
proof (induction n rule: radix_induct)
  case (small n)
  then show ?case using assms(1) by (auto simp: radix_step)
next
  case (large n)
  have m: "n mod base < base" using assms(1) by simp
  from large.prems large.hyps assms(1) have "c \<in> set (radix base (n div base)) \<or> c = digit (n mod base)"
    by (auto simp: radix_step [of base n])
  then show ?case using large.IH large.prems m by blast
qed

lemma radix_not_Nil [simp]: "radix base n \<noteq> []"
  by (subst radix.simps) simp

definition digit_value :: "char \<Rightarrow> nat" where
  "digit_value c = of_char c - 48"

lemma digit_dec:
  assumes "d < 10"
  shows "digit_value (digit d) = d \<and> digit d \<in> set ''0123456789''"
proof -
  have "d = 0 \<or> d = 1 \<or> d = 2 \<or> d = 3 \<or> d = 4 \<or> d = 5 \<or> d = 6 \<or> d = 7 \<or> d = 8 \<or> d = 9"
    using assms by presburger
  then show ?thesis by (elim disjE; simp add: digit_def digit_value_def)
qed

lemma dec_value: "foldl (\<lambda>v c. v * 10 + digit_value c) 0 (dec n) = n"
  unfolding dec_def by (rule radix_value) (simp_all add: digit_dec)

lemma dec_inj [simp]: "dec a = dec b \<longleftrightarrow> a = b"
  by (metis dec_value)

lemma dec_chars: "c \<in> set (dec n) \<Longrightarrow> c \<in> set ''0123456789''"
  using radix_chars [of 10 c n] digit_dec unfolding dec_def by fastforce

end
