(* ===== verification/FatRelayout.thy ===== *)
theory FatRelayout
  imports FatScan TextFormat
begin

text \<open>
  \<open>fat_relayout.c\<close>: the canonical relayout planner shared by Defragment (no gaps) and
  Growth Defrag (a reserve after every file), its read-only preflight and the idempotence
  check. A chain is a vector of 4-byte clusters in memory, so its length added to a
  cluster number stays inside 64 bits and no wrap-around is written for that sum.
\<close>

section \<open>Objects\<close>

record FatRelayoutObject =
  ro_is_root :: bool
  ro_is_dir :: bool
  ro_path :: "nat list"
  ro_clusters :: nat
  ro_physical_first :: nat
  ro_target :: nat
  ro_reserve_after :: nat

definition chain_min_cluster :: "nat list \<Rightarrow> nat" where
  "chain_min_cluster chain = foldl (\<lambda>minimum c. if c < minimum then c else minimum) UINT32_MAX chain"

definition compare_relayout_objects_asc :: "FatRelayoutObject \<Rightarrow> FatRelayoutObject \<Rightarrow> int" where
  "compare_relayout_objects_asc oa ob =
     (if ro_physical_first oa \<noteq> ro_physical_first ob
      then (if ro_physical_first oa < ro_physical_first ob then -1 else 1)
      else if ro_is_root oa \<noteq> ro_is_root ob then (if ro_is_root oa then -1 else 1)
      else if ro_is_dir oa \<noteq> ro_is_dir ob then (if ro_is_dir oa then -1 else 1)
      else strcmp (ro_path oa) (ro_path ob))"

interpretation object_order: comparator compare_relayout_objects_asc
  by unfold_locales
    (auto simp: compare_relayout_objects_asc_def split: if_splits intro: strcmp_linear strcmp_trans)

record ObjectCounts =
  oc_largest :: nat
  oc_regular_clusters :: nat
  oc_regular_files :: nat
  oc_directories :: nat

definition relayout_object_list_push ::
  "env \<Rightarrow> FatRelayoutObject list \<Rightarrow> FatRelayoutObject \<Rightarrow> FatRelayoutObject list res" where
  "relayout_object_list_push E v x =
     (if length v = SIZE_MAX \<or> \<not> array_reserve E 40 (length v + 1)
      then Inl (Die ''cannot grow FAT relayout object list'') else Inr (v @ [x]))"

definition root_object :: "nat list \<Rightarrow> FatRelayoutObject" where
  "root_object root =
     \<lparr>ro_is_root = True, ro_is_dir = True, ro_path = text_bytes ''<root directory>'',
      ro_clusters = length root, ro_physical_first = chain_min_cluster root,
      ro_target = 0, ro_reserve_after = 0\<rparr>"

definition file_object :: "FileRecord \<Rightarrow> FatRelayoutObject" where
  "file_object file =
     \<lparr>ro_is_root = False, ro_is_dir = fr_is_dir file, ro_path = fr_path file,
      ro_clusters = length (fr_chain file), ro_physical_first = chain_min_cluster (fr_chain file),
      ro_target = 0, ro_reserve_after = 0\<rparr>"

definition add_file_object ::
  "env \<Rightarrow> FileRecord \<Rightarrow> FatRelayoutObject list \<times> ObjectCounts \<Rightarrow> (FatRelayoutObject list \<times> ObjectCounts) res" where
  "add_file_object E file st =
     (let (objects, counts) = st; n = length (fr_chain file) in
      if n = 0 then Inr st
      else
        bindE (relayout_object_list_push E objects (file_object file)) (\<lambda>objects.
        let counts = (if n > oc_largest counts then counts\<lparr>oc_largest := n\<rparr> else counts);
            counts = (if fr_is_dir file then counts\<lparr>oc_directories := oc_directories counts + 1\<rparr>
                      else counts\<lparr>oc_regular_files := oc_regular_files counts + 1,
                                  oc_regular_clusters := u64 (oc_regular_clusters counts + n)\<rparr>)
        in Inr (objects, counts)))"

definition fat_relayout_build_objects ::
  "env \<Rightarrow> Fat32 \<Rightarrow> FileRecord list \<Rightarrow> (FatRelayoutObject list \<times> ObjectCounts \<times> Fat32) res" where
  "fat_relayout_build_objects E fs files =
     (let counts = \<lparr>oc_largest = 0, oc_regular_clusters = 0, oc_regular_files = 0, oc_directories = 0\<rparr> in
      bindE (filesystem_root_chain E fs) (\<lambda>(root, fs).
      bindE (if root \<noteq> [] then
               bindE (relayout_object_list_push E [] (root_object root)) (\<lambda>objects.
               Inr (objects, counts\<lparr>oc_largest := length root, oc_directories := 1\<rparr>))
             else Inr ([], counts)) (\<lambda>st.
      bindE (foldE (add_file_object E) files st) (\<lambda>(objects, counts).
      Inr (qsort_by compare_relayout_objects_asc objects, counts, fs)))))"

section \<open>The planner\<close>

definition relayout_cluster_is_barrier :: "Fat32 \<Rightarrow> nat \<Rightarrow> bool res" where
  "relayout_cluster_is_barrier fs cluster =
     bindE (fat_value fs cluster) (\<lambda>value. Inr (value = fat_bad_value fs))"

text \<open>The first barrier of a run, if there is one.\<close>

fun first_barrier :: "Fat32 \<Rightarrow> nat \<Rightarrow> nat \<Rightarrow> nat option res" where
  "first_barrier fs start 0 = Inr None"
| "first_barrier fs start (Suc n) =
     bindE (relayout_cluster_is_barrier fs start) (\<lambda>barrier.
     if barrier then Inr (Some start) else first_barrier fs (start + 1) n)"

lemma first_barrier_range:
  "first_barrier fs start n = Inr (Some c) \<Longrightarrow> start \<le> c \<and> c < start + n"
  by (induction n arbitrary: start) (fastforce simp: res_simps split: if_splits)+

function relayout_run_from :: "Fat32 \<Rightarrow> nat \<Rightarrow> nat \<Rightarrow> nat \<Rightarrow> nat option res" where
  "relayout_run_from fs start len limit_exclusive =
     (if start < limit_exclusive then
        (if start + len > limit_exclusive then Inr None
         else bindE (first_barrier fs start len) (\<lambda>barrier.
           case barrier of
             None \<Rightarrow> Inr (Some start)
           | Some cluster \<Rightarrow>
               if cluster = UINT32_MAX then Inr None
               else relayout_run_from fs (cluster + 1) len limit_exclusive))
      else Inr None)"
  by pat_completeness auto
termination
  by (relation "measure (\<lambda>(fs, start, len, limit). limit - start)")
    (auto dest!: first_barrier_range)

declare relayout_run_from.simps [simp del]

definition relayout_find_usable_run :: "Fat32 \<Rightarrow> nat \<Rightarrow> nat \<Rightarrow> nat \<Rightarrow> nat option res" where
  "relayout_find_usable_run fs cursor len limit_exclusive =
     (if len = 0 \<or> cursor < 2 then Inr None else relayout_run_from fs cursor len limit_exclusive)"

function relayout_advance_reserve :: "Fat32 \<Rightarrow> nat \<Rightarrow> nat \<Rightarrow> nat \<Rightarrow> nat option res" where
  "relayout_advance_reserve fs c remaining limit_exclusive =
     (if remaining \<noteq> 0 then
        (if c \<ge> limit_exclusive then Inr None
         else bindE (relayout_cluster_is_barrier fs c) (\<lambda>barrier.
           let remaining = (if \<not> barrier then remaining - 1 else remaining) in
           if c = UINT32_MAX then Inr None
           else relayout_advance_reserve fs (c + 1) remaining limit_exclusive))
      else Inr (if c \<le> limit_exclusive then Some c else None))"
  by pat_completeness auto
termination
  by (relation "measure (\<lambda>(fs, c, remaining, limit). limit - c)") auto

declare relayout_advance_reserve.simps [simp del]

definition reserve_for :: "nat \<Rightarrow> nat \<Rightarrow> nat" where
  "reserve_for clusters percent = u64 (u64 (clusters * percent) + 99) div 100"

text \<open>The loop over the objects; \<open>None\<close> is the \<open>false\<close> return.\<close>

fun plan_objects ::
  "Fat32 \<Rightarrow> nat \<Rightarrow> nat \<Rightarrow> nat \<Rightarrow> nat \<Rightarrow> FatRelayoutObject list \<Rightarrow>
   (FatRelayoutObject list \<times> nat \<times> nat) option res" where
  "plan_objects fs percent workspace_start cursor reserve_total [] = Inr (Some ([], reserve_total, cursor))"
| "plan_objects fs percent workspace_start cursor reserve_total (object # rest) =
     bindE (relayout_find_usable_run fs cursor (ro_clusters object) workspace_start) (\<lambda>found.
     case found of
       None \<Rightarrow> Inr None
     | Some target \<Rightarrow>
       let object = object\<lparr>ro_target := target\<rparr>;
           after = target + ro_clusters object
       in
       if after > workspace_start then Inr None
       else
         let cursor = u32 after;
             reserve = (if ro_is_dir object then 0 else reserve_for (ro_clusters object) percent);
             object = object\<lparr>ro_reserve_after := reserve\<rparr>
         in
         if \<not> ro_is_dir object \<and> reserve > SIZE_MAX - reserve_total then Inr None
         else
           bindE (if ro_is_dir object then Inr (Some cursor)
                  else relayout_advance_reserve fs cursor reserve workspace_start) (\<lambda>advanced.
           case advanced of
             None \<Rightarrow> Inr None
           | Some cursor \<Rightarrow>
             bindE (plan_objects fs percent workspace_start cursor (reserve_total + reserve) rest) (\<lambda>planned.
             Inr (map_option (\<lambda>(objects, total, final). (object # objects, total, final)) planned))))"

text \<open>The objects with their targets, the total reserve and the last cluster of the layout.\<close>

definition fat_relayout_plan_layout ::
  "Fat32 \<Rightarrow> FatRelayoutObject list \<Rightarrow> nat \<Rightarrow> nat \<Rightarrow> (FatRelayoutObject list \<times> nat \<times> nat) option res" where
  "fat_relayout_plan_layout fs objects percent workspace_start =
     bindE (plan_objects fs percent workspace_start 2 0 objects) (\<lambda>planned.
     Inr (map_option (\<lambda>(objects, total, cursor). (objects, total, if cursor = 0 then 0 else cursor - 1)) planned))"

section \<open>Preflight and idempotence\<close>

fun exact_run_from :: "nat list \<Rightarrow> nat \<Rightarrow> nat \<Rightarrow> bool" where
  "exact_run_from [] start i = True"
| "exact_run_from (c # rest) start i = (if c \<noteq> u32 (start + u32 i) then False else exact_run_from rest start (i + 1))"

definition chain_is_exact_run :: "nat list \<Rightarrow> nat \<Rightarrow> bool" where
  "chain_is_exact_run chain start = (if chain = [] then False else exact_run_from chain start 0)"

datatype FatRelayoutPreflightIssue =
    FAT_RELAYOUT_PREFLIGHT_OK
  | FAT_RELAYOUT_PREFLIGHT_NO_FILES
  | FAT_RELAYOUT_PREFLIGHT_ROOT_FRAGMENTED
  | FAT_RELAYOUT_PREFLIGHT_OBJECT_FRAGMENTED
  | FAT_RELAYOUT_PREFLIGHT_RESERVE_SHORT

record FatRelayoutPreflight =
  pf_issue :: FatRelayoutPreflightIssue
  pf_regular_files :: nat
  pf_directories :: nat
  pf_reserve_clusters :: nat
  pf_required_reserve :: nat
  pf_available_reserve :: nat
  pf_problem_path :: "nat list option"

text \<open>Free clusters after a file, bad ones skipped, counted up to the reserve wanted.\<close>

function available_after :: "Fat32 \<Rightarrow> nat \<Rightarrow> nat \<Rightarrow> nat \<Rightarrow> nat res" where
  "available_after fs reserve cursor available =
     (if available < reserve then
        (if cursor > fs_max_cluster fs then Inr available
         else
           bindE (fat_value fs (u32 cursor)) (\<lambda>value.
           if value = fat_bad_value fs then available_after fs reserve (cursor + 1) available
           else
             bindE (fat_is_free fs (u32 cursor)) (\<lambda>free.
             if \<not> free then Inr available
             else available_after fs reserve (cursor + 1) (available + 1))))
      else Inr available)"
  by pat_completeness auto
termination
  by (relation "measure (\<lambda>(fs, reserve, cursor, available). fs_max_cluster fs + 1 - cursor)") auto

declare available_after.simps [simp del]

text \<open>One object of the preflight; \<open>Inl\<close> in the inner sum is the early return.\<close>

definition preflight_file ::
  "Fat32 \<Rightarrow> nat \<Rightarrow> FileRecord \<Rightarrow> FatRelayoutPreflight \<Rightarrow> (FatRelayoutPreflight + FatRelayoutPreflight) res" where
  "preflight_file fs percent file result =
     (let chain = fr_chain file in
      if chain = [] then Inr (Inr result)
      else if \<not> chain_is_exact_run chain (chain ! 0) then
        Inr (Inl (result\<lparr>pf_issue := FAT_RELAYOUT_PREFLIGHT_OBJECT_FRAGMENTED,
                         pf_problem_path := Some (fr_path file)\<rparr>))
      else if fr_is_dir file then Inr (Inr (result\<lparr>pf_directories := pf_directories result + 1\<rparr>))
      else
        let result = result\<lparr>pf_regular_files := pf_regular_files result + 1\<rparr>;
            reserve = reserve_for (length chain) percent
        in
        if reserve > SIZE_MAX - pf_reserve_clusters result then
          Inr (Inl (result\<lparr>pf_issue := FAT_RELAYOUT_PREFLIGHT_RESERVE_SHORT,
                           pf_problem_path := Some (fr_path file), pf_required_reserve := reserve\<rparr>))
        else
          let result = result\<lparr>pf_reserve_clusters := pf_reserve_clusters result + reserve\<rparr> in
          bindE (available_after fs reserve (chain ! 0 + length chain) 0) (\<lambda>available.
          if available < reserve then
            Inr (Inl (result\<lparr>pf_issue := FAT_RELAYOUT_PREFLIGHT_RESERVE_SHORT,
                             pf_problem_path := Some (fr_path file),
                             pf_required_reserve := reserve, pf_available_reserve := available\<rparr>))
          else Inr (Inr result)))"

fun preflight_files ::
  "Fat32 \<Rightarrow> nat \<Rightarrow> FileRecord list \<Rightarrow> FatRelayoutPreflight \<Rightarrow> FatRelayoutPreflight res" where
  "preflight_files fs percent [] result =
     Inr (result\<lparr>pf_issue := if pf_regular_files result = 0
        then FAT_RELAYOUT_PREFLIGHT_NO_FILES else FAT_RELAYOUT_PREFLIGHT_OK\<rparr>)"
| "preflight_files fs percent (file # rest) result =
     bindE (preflight_file fs percent file result) (\<lambda>r.
     case r of Inl final \<Rightarrow> Inr final | Inr result \<Rightarrow> preflight_files fs percent rest result)"

definition fat_relayout_preflight ::
  "env \<Rightarrow> Fat32 \<Rightarrow> FileRecord list \<Rightarrow> nat \<Rightarrow> (FatRelayoutPreflight \<times> Fat32) res" where
  "fat_relayout_preflight E fs files percent =
     (let result = \<lparr>pf_issue = FAT_RELAYOUT_PREFLIGHT_OK, pf_regular_files = 0, pf_directories = 0,
                    pf_reserve_clusters = 0, pf_required_reserve = 0, pf_available_reserve = 0,
                    pf_problem_path = None\<rparr>
      in
      bindE (filesystem_root_chain E fs) (\<lambda>(root, fs).
      let result = (if root \<noteq> [] then result\<lparr>pf_directories := 1\<rparr> else result) in
      if root \<noteq> [] \<and> \<not> chain_is_exact_run root (root ! 0) then
        Inr (result\<lparr>pf_issue := FAT_RELAYOUT_PREFLIGHT_ROOT_FRAGMENTED,
                    pf_problem_path := Some (text_bytes ''<root directory>'')\<rparr>, fs)
      else bindE (preflight_files fs percent files result) (\<lambda>result. Inr (result, fs))))"

text \<open>\<open>Some total\<close> is the \<open>true\<close> return with the reserve it reports.\<close>

definition fat_relayout_matches_canonical ::
  "Fat32 \<Rightarrow> FatRelayoutObject list \<Rightarrow> nat \<Rightarrow> nat option res" where
  "fat_relayout_matches_canonical fs objects percent =
     (if fs_max_cluster fs = UINT32_MAX then Inr None
      else
        bindE (fat_relayout_plan_layout fs objects percent (fs_max_cluster fs + 1)) (\<lambda>planned.
        case planned of
          None \<Rightarrow> Inr None
        | Some (objects, reserve_total, layout_end) \<Rightarrow>
          if \<not> list_all (\<lambda>object. ro_target object = ro_physical_first object) objects then Inr None
          else if objects \<noteq> [] then Inr (Some reserve_total) else Inr None))"

definition fat_relayout_print_preflight_failure :: "FatRelayoutPreflight \<Rightarrow> nat \<Rightarrow> string \<Rightarrow> string" where
  "fat_relayout_print_preflight_failure preflight percent layout_name =
     (let path = (\<lambda>default. case pf_problem_path preflight of None \<Rightarrow> default | Some p \<Rightarrow> bytes_text p) in
      (case pf_issue preflight of
        FAT_RELAYOUT_PREFLIGHT_NO_FILES \<Rightarrow>
          layout_name @ '' preflight result: no allocated regular files were found.'' @ [NL]
      | FAT_RELAYOUT_PREFLIGHT_ROOT_FRAGMENTED \<Rightarrow>
          layout_name @ '' preflight result: the FAT root directory is fragmented.'' @ [NL]
      | FAT_RELAYOUT_PREFLIGHT_OBJECT_FRAGMENTED \<Rightarrow>
          layout_name @ '' preflight result: '' @ path ''an allocated object'' @ '' is fragmented.'' @ [NL]
      | FAT_RELAYOUT_PREFLIGHT_RESERVE_SHORT \<Rightarrow>
          layout_name @ '' preflight result: '' @ path ''a regular file'' @ '' has '' @
          dec (pf_available_reserve preflight) @ '' usable free cluster'' @
          plural (pf_available_reserve preflight) '''' ''s'' @ '' immediately after it; '' @
          dec (pf_required_reserve preflight) @ '' '' @
          plural (pf_required_reserve preflight) ''is'' ''are'' @ '' required for a '' @
          dec percent @ ''% reserve.'' @ [NL]
      | FAT_RELAYOUT_PREFLIGHT_OK \<Rightarrow> '''') @
      layout_name @ '' preflight completed read-only; no filesystem writes have occurred yet.'' @ [NL])"

end
