(* ===== verification/FatPlan.thy ===== *)
theory FatPlan
  imports FatRelayout
begin

text \<open>
  What the relayout planner of \<open>fat_relayout.c\<close> computes: the two searches, the greedy plan
  as the earliest layout that exists, its independence of the workspace limit, runs and the
  preflight.
\<close>

section \<open>The searches\<close>


definition bad :: "Fat32 \<Rightarrow> nat \<Rightarrow> bool" where
  "bad fs c \<longleftrightarrow> fat_entry fs c = fat_bad_value fs"

definition clear_run :: "Fat32 \<Rightarrow> nat \<Rightarrow> nat \<Rightarrow> bool" where
  "clear_run fs s n \<longleftrightarrow> (\<forall>c. s \<le> c \<and> c < s + n \<longrightarrow> \<not> bad fs c)"

definition usable_count :: "Fat32 \<Rightarrow> nat \<Rightarrow> nat \<Rightarrow> nat" where
  "usable_count fs a b = length (filter (\<lambda>c. \<not> bad fs c) [a..<b])"

lemma barrier_eq: "c < fs_fat_entry_count fs \<Longrightarrow> relayout_cluster_is_barrier fs c = Inr (bad fs c)"
  by (simp add: relayout_cluster_is_barrier_def fat_value_def bad_def fat_entry_def)

lemma first_barrier_spec:
  assumes "start + n \<le> fs_fat_entry_count fs"
  shows "\<exists>r. first_barrier fs start n = Inr r \<and>
    (case r of None \<Rightarrow> clear_run fs start n
     | Some c \<Rightarrow> start \<le> c \<and> c < start + n \<and> bad fs c)"
  using assms
proof (induction n arbitrary: start)
  case 0
  show ?case by (auto simp: clear_run_def)
next
  case (Suc n)
  have b: "relayout_cluster_is_barrier fs start = Inr (bad fs start)"
    using Suc.prems by (intro barrier_eq) simp
  show ?case
  proof (cases "bad fs start")
    case True
    then show ?thesis by (simp add: b)
  next
    case False
    obtain r where r: "first_barrier fs (start + 1) n = Inr r"
      "case r of None \<Rightarrow> clear_run fs (start + 1) n
       | Some c \<Rightarrow> start + 1 \<le> c \<and> c < start + 1 + n \<and> bad fs c"
      using Suc.IH [of "start + 1"] Suc.prems by auto
    have "clear_run fs start (Suc n)" if "clear_run fs (start + 1) n"
      using that False by (auto simp: clear_run_def) (metis Suc_leI le_neq_implies_less)
    with r False show ?thesis by (auto simp: b split: option.splits)
  qed
qed

definition run_fits :: "Fat32 \<Rightarrow> nat \<Rightarrow> nat \<Rightarrow> nat \<Rightarrow> bool" where
  "run_fits fs limit n t \<longleftrightarrow> t < limit \<and> t + n \<le> limit \<and> clear_run fs t n"

lemma run_from_spec:
  assumes "limit \<le> fs_fat_entry_count fs" "limit \<le> UINT32_MAX"
  shows "\<exists>r. relayout_run_from fs start n limit = Inr r \<and>
    (case r of None \<Rightarrow> \<forall>t \<ge> start. \<not> run_fits fs limit n t
     | Some t \<Rightarrow> start \<le> t \<and> run_fits fs limit n t \<and> (\<forall>u. start \<le> u \<and> u < t \<longrightarrow> \<not> run_fits fs limit n u))"
  using assms
proof (induction fs start n limit rule: relayout_run_from.induct)
  case (1 fs start n limit)
  consider (out) "\<not> start < limit" | (long) "start < limit" "start + n > limit" | (inside) "start < limit" "start + n \<le> limit"
    by linarith
  then show ?case
  proof cases
    case out
    then show ?thesis by (auto simp: relayout_run_from.simps [of fs start] run_fits_def)
  next
    case long
    then show ?thesis by (auto simp: relayout_run_from.simps [of fs start] run_fits_def)
  next
    case inside
    obtain r where r: "first_barrier fs start n = Inr r"
      "case r of None \<Rightarrow> clear_run fs start n | Some c \<Rightarrow> start \<le> c \<and> c < start + n \<and> bad fs c"
      using first_barrier_spec [of start n fs] inside "1.prems" by auto
    show ?thesis
    proof (cases r)
      case None
      with r inside show ?thesis by (auto simp: relayout_run_from.simps [of fs start] run_fits_def)
    next
      case (Some c)
      with r have c: "start \<le> c" "c < start + n" "bad fs c" by auto
      have ne: "c \<noteq> UINT32_MAX" using c inside "1.prems" by auto
      have none: "\<not> run_fits fs limit n u" if "start \<le> u" "u < c + 1" for u
      proof -
        have "u \<le> c" "c < u + n" using that c by simp_all
        with c show ?thesis unfolding run_fits_def clear_run_def by blast
      qed
      obtain s where s: "relayout_run_from fs (c + 1) n limit = Inr s"
        "case s of None \<Rightarrow> \<forall>t \<ge> c + 1. \<not> run_fits fs limit n t
         | Some t \<Rightarrow> c + 1 \<le> t \<and> run_fits fs limit n t \<and> (\<forall>u. c + 1 \<le> u \<and> u < t \<longrightarrow> \<not> run_fits fs limit n u)"
        using "1.IH" [OF inside(1) _ r(1) Some ne] inside "1.prems" by auto
      have eq: "relayout_run_from fs start n limit = Inr s"
        using inside r Some ne s by (simp add: relayout_run_from.simps [of fs start])
      show ?thesis
      proof (cases s)
        case None
        with s(2) none eq show ?thesis by (auto, metis not_less)
      next
        case (Some t)
        with s(2) none eq c show ?thesis by (auto, metis not_less)
      qed
    qed
  qed
qed

lemma find_usable_run_spec:
  assumes "limit \<le> fs_fat_entry_count fs" "limit \<le> UINT32_MAX" "2 \<le> cursor" "0 < n"
  shows "\<exists>r. relayout_find_usable_run fs cursor n limit = Inr r \<and>
    (case r of None \<Rightarrow> \<forall>t \<ge> cursor. \<not> run_fits fs limit n t
     | Some t \<Rightarrow> cursor \<le> t \<and> run_fits fs limit n t \<and> (\<forall>u. cursor \<le> u \<and> u < t \<longrightarrow> \<not> run_fits fs limit n u))"
  using run_from_spec [OF assms(1,2), of cursor n] assms(3,4) by (simp add: relayout_find_usable_run_def)

lemma usable_count_Suc: "c < b \<Longrightarrow> usable_count fs c b = (if bad fs c then 0 else 1) + usable_count fs (c + 1) b"
  by (simp add: usable_count_def upt_Cons)

lemma usable_count_card: "usable_count fs a b = card {c. a \<le> c \<and> c < b \<and> \<not> bad fs c}"
proof -
  have "{c. a \<le> c \<and> c < b \<and> \<not> bad fs c} = set (filter (\<lambda>c. \<not> bad fs c) [a..<b])" by auto
  then show ?thesis by (simp only: usable_count_def distinct_card distinct_filter distinct_upt)
qed

lemma usable_count_mono: "a' \<le> a \<Longrightarrow> b \<le> b' \<Longrightarrow> usable_count fs a b \<le> usable_count fs a' b'"
  unfolding usable_count_card by (rule card_mono) auto

lemma usable_count_le: "usable_count fs a b \<le> b - a"
  using length_filter_le [of "\<lambda>c. \<not> bad fs c" "[a..<b]"] by (simp add: usable_count_def)

lemma advance_spec:
  assumes "limit \<le> fs_fat_entry_count fs" "limit \<le> UINT32_MAX" "c \<le> limit"
  shows "\<exists>r. relayout_advance_reserve fs c n limit = Inr r \<and>
    (case r of None \<Rightarrow> usable_count fs c limit < n
     | Some e \<Rightarrow> c \<le> e \<and> e \<le> limit \<and> usable_count fs c e = n \<and>
         (\<forall>e' \<ge> c. n \<le> usable_count fs c e' \<longrightarrow> e \<le> e'))"
  using assms
proof (induction fs c n limit rule: relayout_advance_reserve.induct)
  case (1 fs c n limit)
  consider (fin) "n = 0" | (out) "n \<noteq> 0" "c = limit" | (more) "n \<noteq> 0" "c < limit"
    using "1.prems" by linarith
  then show ?case
  proof cases
    case fin
    then show ?thesis
      using "1.prems" by (auto simp: relayout_advance_reserve.simps [of fs c] usable_count_def)
  next
    case out
    then show ?thesis
      by (auto simp: relayout_advance_reserve.simps [of fs limit n limit] usable_count_def)
  next
    case more
    have b: "relayout_cluster_is_barrier fs c = Inr (bad fs c)"
      using more "1.prems" by (intro barrier_eq) simp
    define m where "m = (if \<not> bad fs c then n - 1 else n)"
    have ne: "c \<noteq> UINT32_MAX" using more "1.prems" by simp
    obtain r where r: "relayout_advance_reserve fs (c + 1) m limit = Inr r"
      "case r of None \<Rightarrow> usable_count fs (c + 1) limit < m
       | Some e \<Rightarrow> c + 1 \<le> e \<and> e \<le> limit \<and> usable_count fs (c + 1) e = m \<and>
           (\<forall>e' \<ge> c + 1. m \<le> usable_count fs (c + 1) e' \<longrightarrow> e \<le> e')"
      using "1.IH" [OF more(1) _ b m_def ne] more "1.prems" by (auto simp: not_le)
    have eq: "relayout_advance_reserve fs c n limit = Inr r"
      using more b ne r(1) by (simp add: relayout_advance_reserve.simps [of fs c] Let_def m_def)
    have step: "usable_count fs c e = (n - m) + usable_count fs (c + 1) e" if "c < e" for e
      using usable_count_Suc [OF that, of fs] more by (simp add: m_def)
    have mn: "m \<le> n" by (simp add: m_def)
    show ?thesis
    proof (cases r)
      case None
      then show ?thesis using r(2) eq step [OF more(2)] mn by auto
    next
      case (Some e)
      with r(2) have e: "c + 1 \<le> e" "e \<le> limit" "usable_count fs (c + 1) e = m"
        "\<forall>e' \<ge> c + 1. m \<le> usable_count fs (c + 1) e' \<longrightarrow> e \<le> e'" by auto
      have "e \<le> e'" if "c \<le> e'" "n \<le> usable_count fs c e'" for e'
      proof -
        have "c < e'" using that more by (cases "e' = c") (auto simp: usable_count_def)
        with step [OF this] that(2) mn e(4) show ?thesis by auto
      qed
      moreover have "usable_count fs c e = n" using step [of e] e mn by simp
      ultimately show ?thesis using eq Some e by auto
    qed
  qed
qed

section \<open>Layouts\<close>

text \<open>
  A layout gives every object a slot: where it starts, its length and the usable clusters
  kept free after it. \<open>fits\<close>: the slots lie in order from \<open>cursor\<close> on, below the
  limit, without a bad cluster.
\<close>

fun fits :: "Fat32 \<Rightarrow> nat \<Rightarrow> nat \<Rightarrow> (nat \<times> nat \<times> nat) list \<Rightarrow> bool" where
  "fits fs limit cursor [] = True"
| "fits fs limit cursor ((t, n, r) # rest) =
     (cursor \<le> t \<and> run_fits fs limit n t \<and>
      (\<exists>c. t + n \<le> c \<and> c \<le> limit \<and> r \<le> usable_count fs (t + n) c \<and> fits fs limit c rest))"

lemma fits_mono: "fits fs limit c xs \<Longrightarrow> c' \<le> c \<Longrightarrow> fits fs limit c' xs"
  by (cases xs) auto

lemma fits_upper: "fits fs limit c xs \<Longrightarrow> limit \<le> big \<Longrightarrow> fits fs big c xs"
  by (induction xs arbitrary: c) (fastforce simp: run_fits_def)+

definition reserve_of :: "nat \<Rightarrow> FatRelayoutObject \<Rightarrow> nat" where
  "reserve_of percent o' = (if ro_is_dir o' then 0 else reserve_for (ro_clusters o') percent)"

definition slots_at :: "nat \<Rightarrow> FatRelayoutObject list \<Rightarrow> nat list \<Rightarrow> (nat \<times> nat \<times> nat) list" where
  "slots_at percent objects ts = map2 (\<lambda>o' t. (t, ro_clusters o', reserve_of percent o')) objects ts"

definition placed_at :: "nat \<Rightarrow> FatRelayoutObject list \<Rightarrow> nat list \<Rightarrow> FatRelayoutObject list" where
  "placed_at percent objects ts =
     map2 (\<lambda>o' t. o'\<lparr>ro_target := t, ro_reserve_after := reserve_of percent o'\<rparr>) objects ts"

lemma slots_at_Cons: "slots_at p (o' # os) (t # ts) = (t, ro_clusters o', reserve_of p o') # slots_at p os ts"
  by (simp add: slots_at_def)

lemma placed_at_Cons:
  "placed_at p (o' # os) (t # ts) = o'\<lparr>ro_target := t, ro_reserve_after := reserve_of p o'\<rparr> # placed_at p os ts"
  by (simp add: placed_at_def)

lemma no_reserve: "relayout_advance_reserve fs c 0 limit = Inr (if c \<le> limit then Some c else None)"
  by (subst relayout_advance_reserve.simps) simp

text \<open>One object of the plan, as the two searches.\<close>

lemma plan_objects_Cons:
  assumes "limit \<le> UINT32_MAX"
  shows "plan_objects fs p limit cursor tot (o' # rest) =
    bindE (relayout_find_usable_run fs cursor (ro_clusters o') limit) (\<lambda>found.
    case found of None \<Rightarrow> Inr None
    | Some t \<Rightarrow>
        if t + ro_clusters o' > limit then Inr None
        else if reserve_of p o' > SIZE_MAX - tot \<and> \<not> ro_is_dir o' then Inr None
        else bindE (relayout_advance_reserve fs (t + ro_clusters o') (reserve_of p o') limit) (\<lambda>adv.
          case adv of None \<Rightarrow> Inr None
          | Some c \<Rightarrow>
              bindE (plan_objects fs p limit c (tot + reserve_of p o') rest) (\<lambda>r.
              Inr (map_option (\<lambda>(os, t', f). (o'\<lparr>ro_target := t, ro_reserve_after := reserve_of p o'\<rparr> # os, t', f)) r))))"
proof -
  have "u32 (t + ro_clusters o') = t + ro_clusters o'" if "t + ro_clusters o' \<le> limit" for t
    using that assms by (intro u32_id) simp
  then show ?thesis
    by (auto simp: reserve_of_def no_reserve not_less Let_def intro!: arg_cong2 [where f = bindE] split: option.splits)
qed
definition total_reserve :: "nat \<Rightarrow> FatRelayoutObject list \<Rightarrow> nat" where
  "total_reserve percent objects = sum_list (map (reserve_of percent) objects)"

lemma plan_objects_spec:
  assumes "limit \<le> fs_fat_entry_count fs" "limit \<le> UINT32_MAX" "2 \<le> cursor" "cursor \<le> limit"
    and "\<forall>o' \<in> set objects. 0 < ro_clusters o'" "tot \<le> cursor"
  shows "\<exists>r. plan_objects fs p limit cursor tot objects = Inr r \<and>
    (case r of
       None \<Rightarrow> \<forall>ts. length ts = length objects \<longrightarrow> \<not> fits fs limit cursor (slots_at p objects ts)
     | Some (objects', tot', final) \<Rightarrow>
         cursor \<le> final \<and> final \<le> limit \<and> tot' = tot + total_reserve p objects \<and>
         (\<exists>ts. length ts = length objects \<and> objects' = placed_at p objects ts \<and>
            fits fs final cursor (slots_at p objects ts) \<and>
            (\<forall>us. length us = length objects \<longrightarrow> fits fs limit cursor (slots_at p objects us) \<longrightarrow>
               list_all2 (\<le>) ts us)))"
  using assms(3-)
proof (induction objects arbitrary: cursor tot)
  case Nil
  then show ?case by (auto simp: placed_at_def total_reserve_def slots_at_def)
next
  case (Cons o' objects)
  note eq = plan_objects_Cons [OF assms(2), of fs p cursor tot o' objects]
  define n where "n = ro_clusters o'"
  define r where "r = reserve_of p o'"
  have n: "0 < n" using Cons.prems by (simp add: n_def)
  obtain found where found: "relayout_find_usable_run fs cursor n limit = Inr found"
    "case found of None \<Rightarrow> \<forall>t \<ge> cursor. \<not> run_fits fs limit n t
     | Some t \<Rightarrow> cursor \<le> t \<and> run_fits fs limit n t \<and> (\<forall>u. cursor \<le> u \<and> u < t \<longrightarrow> \<not> run_fits fs limit n u)"
    using find_usable_run_spec [OF assms(1,2) Cons.prems(1) n] by blast
  show ?case
  proof (cases found)
    case None
    have "\<not> fits fs limit cursor (slots_at p (o' # objects) ts)" if "length ts = length (o' # objects)" for ts
      using that None found(2) by (cases ts) (auto simp: slots_at_Cons n_def)
    then show ?thesis using found(1) None by (simp add: eq n_def del: plan_objects.simps)
  next
    case (Some t)
    with found have t: "cursor \<le> t" "run_fits fs limit n t" "\<And>u. cursor \<le> u \<Longrightarrow> u < t \<Longrightarrow> \<not> run_fits fs limit n u"
      by auto
    have tn: "t + n \<le> limit" using t by (simp add: run_fits_def)
    have least: "t \<le> u" if "cursor \<le> u" "run_fits fs limit n u" for u
      using t(3) that by (meson not_le)
    obtain adv where adv: "relayout_advance_reserve fs (t + n) r limit = Inr adv"
      "case adv of None \<Rightarrow> usable_count fs (t + n) limit < r
       | Some e \<Rightarrow> t + n \<le> e \<and> e \<le> limit \<and> usable_count fs (t + n) e = r \<and>
           (\<forall>e' \<ge> t + n. r \<le> usable_count fs (t + n) e' \<longrightarrow> e \<le> e')"
      using advance_spec [OF assms(1,2) tn] by blast
    have over: "\<not> (r > SIZE_MAX - tot \<and> \<not> ro_is_dir o')" if "r \<le> limit"
    proof -
      have "r + tot \<le> SIZE_MAX" using that Cons.prems(2,4) assms(2) by linarith
      then show ?thesis by linarith
    qed
    have room: "usable_count fs (u + n) limit \<le> usable_count fs (t + n) limit" if "t \<le> u" for u
      using that by (intro usable_count_mono) auto
    show ?thesis
    proof (cases adv)
      case None
      have "\<not> fits fs limit cursor (slots_at p (o' # objects) ts)" if len: "length ts = length (o' # objects)" for ts
      proof
        assume f: "fits fs limit cursor (slots_at p (o' # objects) ts)"
        obtain u us where ts: "ts = u # us" using len by (cases ts) auto
        from f obtain c where "t \<le> u" "u + n \<le> c" "c \<le> limit" "r \<le> usable_count fs (u + n) c"
          using least by (auto simp: ts slots_at_Cons n_def r_def)
        moreover have "usable_count fs (u + n) c \<le> usable_count fs (u + n) limit"
          using \<open>c \<le> limit\<close> by (intro usable_count_mono) auto
        ultimately show False using room [of u] adv(2) None by simp
      qed
      then show ?thesis
        using found(1) Some adv(1) None tn
        by (auto simp: eq n_def [symmetric] r_def [symmetric] simp del: plan_objects.simps)
    next
      case (Some e)
      with adv have e: "t + n \<le> e" "e \<le> limit" "usable_count fs (t + n) e = r"
        "\<And>e'. t + n \<le> e' \<Longrightarrow> r \<le> usable_count fs (t + n) e' \<Longrightarrow> e \<le> e'" by auto
      have re: "r \<le> e - (t + n)" using e(3) usable_count_le [of fs "t + n" e] by simp
      have rl: "r \<le> limit" using re e(2) by simp
      have tr: "tot + r \<le> e" "2 \<le> e" using Cons.prems(1,4) t(1) e(1) re by linarith+
      have pos: "\<forall>o' \<in> set objects. 0 < ro_clusters o'" using Cons.prems(3) by simp
      obtain rest where rest: "plan_objects fs p limit e (tot + r) objects = Inr rest"
        "case rest of
           None \<Rightarrow> \<forall>ts. length ts = length objects \<longrightarrow> \<not> fits fs limit e (slots_at p objects ts)
         | Some (objects', tot', final) \<Rightarrow>
             e \<le> final \<and> final \<le> limit \<and> tot' = tot + r + total_reserve p objects \<and>
             (\<exists>ts. length ts = length objects \<and> objects' = placed_at p objects ts \<and>
                fits fs final e (slots_at p objects ts) \<and>
                (\<forall>us. length us = length objects \<longrightarrow> fits fs limit e (slots_at p objects us) \<longrightarrow>
                   list_all2 (\<le>) ts us))"
        using Cons.IH [OF tr(2) e(2) pos tr(1)] by blast
      have whole: "plan_objects fs p limit cursor tot (o' # objects) =
          Inr (map_option (\<lambda>(os, t', f). (o'\<lparr>ro_target := t, ro_reserve_after := r\<rparr> # os, t', f)) rest)"
        using found(1) \<open>found = Some t\<close> adv(1) Some tn over [OF rl] rest(1)
        by (auto simp: eq n_def [symmetric] r_def [symmetric] simp del: plan_objects.simps)
      have tail: "t \<le> u \<and> fits fs limit e (slots_at p objects us)"
        if f: "fits fs limit cursor (slots_at p (o' # objects) (u # us))" for u us
      proof -
        from f obtain c where c: "t \<le> u" "u + n \<le> c" "c \<le> limit" "r \<le> usable_count fs (u + n) c"
          "fits fs limit c (slots_at p objects us)"
          using least by (auto simp: slots_at_Cons n_def r_def)
        have "usable_count fs (u + n) c \<le> usable_count fs (t + n) c"
          using c(1) by (intro usable_count_mono) auto
        then have "e \<le> c" using e(4) [of c] c by simp
        then show ?thesis using c(1) fits_mono [OF c(5)] by blast
      qed
      show ?thesis
      proof (cases rest)
        case None
        have "\<not> fits fs limit cursor (slots_at p (o' # objects) ts)" if "length ts = length (o' # objects)" for ts
          using that None rest(2) tail by (cases ts) auto
        then show ?thesis using whole None by simp
      next
        case (Some result)
        obtain objects' tot' final where result: "result = (objects', tot', final)" by (cases result) auto
        from rest(2) obtain ts where ts: "e \<le> final" "final \<le> limit" "tot' = tot + r + total_reserve p objects"
          "length ts = length objects" "objects' = placed_at p objects ts" "fits fs final e (slots_at p objects ts)"
          "\<And>us. length us = length objects \<Longrightarrow> fits fs limit e (slots_at p objects us) \<Longrightarrow> list_all2 (\<le>) ts us"
          using Some result by auto
        have fit: "fits fs final cursor (slots_at p (o' # objects) (t # ts))"
          using t e ts(1,6) n
          by (auto simp: slots_at_Cons n_def [symmetric] r_def [symmetric] run_fits_def intro!: exI [of _ e])
        have least': "list_all2 (\<le>) (t # ts) us"
          if "length us = length (o' # objects)" "fits fs limit cursor (slots_at p (o' # objects) us)" for us
          using that tail ts(7) by (cases us) auto
        show ?thesis
          unfolding whole Some result
          using t(1) e(1) ts(1-5) fit least'
          by (auto simp: total_reserve_def r_def [symmetric] placed_at_Cons intro!: exI [of _ "t # ts"])
      qed
    qed
  qed
qed
lemma fits_bounds:
  "fits fs limit c xs \<Longrightarrow>
   (\<forall>(t, n, r) \<in> set xs. c \<le> t \<and> t + n \<le> limit \<and> clear_run fs t n \<and> r \<le> usable_count fs (t + n) limit) \<and>
   sorted_wrt (\<lambda>(t, n, r) (t', n', r'). t + n \<le> t' \<and> r \<le> usable_count fs (t + n) t') xs"
proof (induction xs arbitrary: c)
  case (Cons x xs)
  obtain t n r where x: "x = (t, n, r)" by (cases x) auto
  from Cons.prems obtain e where e: "c \<le> t" "run_fits fs limit n t" "t + n \<le> e" "e \<le> limit"
    "r \<le> usable_count fs (t + n) e" "fits fs limit e xs" by (auto simp: x)
  from Cons.IH [OF e(6)] have IH: "\<forall>(t', n', r') \<in> set xs. e \<le> t' \<and> t' + n' \<le> limit \<and> clear_run fs t' n' \<and>
      r' \<le> usable_count fs (t' + n') limit"
    "sorted_wrt (\<lambda>(t, n, r) (t', n', r'). t + n \<le> t' \<and> r \<le> usable_count fs (t + n) t') xs" by auto
  have up: "r \<le> usable_count fs (t + n) y" if "e \<le> y" for y
    using e(5) usable_count_mono [of "t + n" "t + n" e y fs] that by simp
  from IH e up [of limit] up show ?case by (fastforce simp: x run_fits_def)
qed simp

lemma plan_layout_eq:
  assumes "limit \<le> fs_fat_entry_count fs" "limit \<le> UINT32_MAX" "2 \<le> limit"
    "\<forall>o' \<in> set objects. 0 < ro_clusters o'"
  shows "\<exists>r. fat_relayout_plan_layout fs objects p limit = Inr r \<and>
    (case r of
       None \<Rightarrow> \<forall>ts. length ts = length objects \<longrightarrow> \<not> fits fs limit 2 (slots_at p objects ts)
     | Some (objects', tot', fin) \<Rightarrow>
         1 \<le> fin \<and> fin < limit \<and> tot' = total_reserve p objects \<and>
         (\<exists>ts. length ts = length objects \<and> objects' = placed_at p objects ts \<and>
            fits fs (fin + 1) 2 (slots_at p objects ts) \<and>
            (\<forall>us. length us = length objects \<longrightarrow> fits fs limit 2 (slots_at p objects us) \<longrightarrow>
               list_all2 (\<le>) ts us)))"
proof -
  obtain r where r: "plan_objects fs p limit 2 0 objects = Inr r"
    "case r of
       None \<Rightarrow> \<forall>ts. length ts = length objects \<longrightarrow> \<not> fits fs limit 2 (slots_at p objects ts)
     | Some (objects', tot', final) \<Rightarrow>
         2 \<le> final \<and> final \<le> limit \<and> tot' = 0 + total_reserve p objects \<and>
         (\<exists>ts. length ts = length objects \<and> objects' = placed_at p objects ts \<and>
            fits fs final 2 (slots_at p objects ts) \<and>
            (\<forall>us. length us = length objects \<longrightarrow> fits fs limit 2 (slots_at p objects us) \<longrightarrow>
               list_all2 (\<le>) ts us))"
    using plan_objects_spec [OF assms(1,2) order_refl assms(3,4), of 0 p] by blast
  show ?thesis
  proof (cases r)
    case (Some x)
    then obtain objs tot' final where "r = Some (objs, tot', final)" by (cases x) auto
    with r show ?thesis by (auto simp: fat_relayout_plan_layout_def)
  qed (use r in \<open>auto simp: fat_relayout_plan_layout_def\<close>)
qed

lemma placed_slots:
  "length ts = length objects \<Longrightarrow>
   map (\<lambda>o'. (ro_target o', ro_clusters o', ro_reserve_after o')) (placed_at p objects ts) = slots_at p objects ts"
  by (induction objects ts rule: list_induct2') (auto simp: placed_at_def slots_at_def)

lemma placed_at_fields:
  "length ts = length objects \<Longrightarrow>
   map ro_path (placed_at p objects ts) = map ro_path objects \<and>
   map ro_clusters (placed_at p objects ts) = map ro_clusters objects \<and>
   map ro_target (placed_at p objects ts) = ts \<and>
   map ro_reserve_after (placed_at p objects ts) = map (reserve_of p) objects"
  by (induction objects ts rule: list_induct2') (auto simp: placed_at_def)

lemma placed_at_kinds:
  "length ts = length objects \<Longrightarrow> map ro_is_dir (placed_at p objects ts) = map ro_is_dir objects"
  by (induction objects ts rule: list_induct2') (auto simp: placed_at_def)

section \<open>The limit does not matter\<close>

lemma fits_lower_limit:
  "fits fs big c (slots_at p objects us) \<Longrightarrow> fits fs limit d (slots_at p objects ts) \<Longrightarrow>
   list_all2 (\<le>) us ts \<Longrightarrow> length ts = length objects \<Longrightarrow> limit \<le> big \<Longrightarrow> c \<le> limit \<Longrightarrow>
   fits fs limit c (slots_at p objects us)"
proof (induction objects arbitrary: c d us ts)
  case Nil
  then show ?case by (simp add: slots_at_def)
next
  case (Cons o' objects)
  obtain t ts' where ts: "ts = t # ts'" using Cons.prems(4) by (cases ts) auto
  obtain u us' where us: "us = u # us'" using Cons.prems(3) ts by (cases us) auto
  let ?n = "ro_clusters o'" and ?r = "reserve_of p o'"
  from Cons.prems(1) obtain e where e: "c \<le> u" "run_fits fs big ?n u" "u + ?n \<le> e"
    "?r \<le> usable_count fs (u + ?n) e" "fits fs big e (slots_at p objects us')"
    by (auto simp: us slots_at_Cons)
  from Cons.prems(2) obtain f where f: "run_fits fs limit ?n t" "t + ?n \<le> f" "f \<le> limit"
    "?r \<le> usable_count fs (t + ?n) f" "fits fs limit f (slots_at p objects ts')"
    by (auto simp: ts slots_at_Cons)
  have ut: "u \<le> t" "list_all2 (\<le>) us' ts'" using Cons.prems(3) by (simp_all add: us ts)
  have run: "run_fits fs limit ?n u" using e(2) f(1) ut(1) by (simp add: run_fits_def)
  have "?r \<le> usable_count fs (u + ?n) limit"
    using f(4) usable_count_mono [of "u + ?n" "t + ?n" f limit fs] ut(1) f(3) by simp
  then have room: "?r \<le> usable_count fs (u + ?n) (min e limit)"
    using e(4) by (cases "e \<le> limit") auto
  have rest: "fits fs limit (min e limit) (slots_at p objects us')"
    using Cons.IH [OF fits_mono [OF e(5), of "min e limit"] f(5) ut(2)] Cons.prems(4,5) by (simp add: ts)
  show ?case
    using e(1,3) run room rest f ut(1) by (auto simp: us slots_at_Cons intro!: exI [of _ "min e limit"])
qed

lemma list_le_antisym: "list_all2 (\<le>) ts us \<Longrightarrow> list_all2 (\<le>) us (ts :: nat list) \<Longrightarrow> ts = us"
  by (rule list_all2_antisym) auto


lemma slots_at_cong:
  "map ro_clusters os = map ro_clusters os' \<Longrightarrow> map ro_is_dir os = map ro_is_dir os' \<Longrightarrow>
   slots_at p os ts = slots_at p os' ts \<and> total_reserve p os = total_reserve p os'"
proof (induction os os' arbitrary: ts rule: list_induct2')
  case (4 x xs y ys)
  then have "reserve_of p x = reserve_of p y" by (simp add: reserve_of_def)
  with 4 show ?case by (cases ts) (auto simp: slots_at_def total_reserve_def)
qed (auto simp: slots_at_def total_reserve_def)

lemma plan_layout_result:
  assumes "limit \<le> fs_fat_entry_count fs" "limit \<le> UINT32_MAX" "2 \<le> limit"
    "\<forall>o' \<in> set objects. 0 < ro_clusters o'"
    and "fat_relayout_plan_layout fs objects p limit = Inr (Some (planned, tot', fin))"
  obtains ts where "fin < limit" "tot' = total_reserve p objects" "length ts = length objects"
    "planned = placed_at p objects ts" "fits fs (fin + 1) 2 (slots_at p objects ts)"
    "fits fs limit 2 (slots_at p objects ts)"
    "\<And>us. length us = length objects \<Longrightarrow> fits fs limit 2 (slots_at p objects us) \<Longrightarrow> list_all2 (\<le>) ts us"
proof -
  obtain ts where ts: "fin < limit" "tot' = total_reserve p objects" "length ts = length objects"
    "planned = placed_at p objects ts" "fits fs (fin + 1) 2 (slots_at p objects ts)"
    "\<And>us. length us = length objects \<Longrightarrow> fits fs limit 2 (slots_at p objects us) \<Longrightarrow> list_all2 (\<le>) ts us"
    using plan_layout_eq [OF assms(1-4), of p] assms(5) by auto
  have "fits fs limit 2 (slots_at p objects ts)"
    using fits_upper [OF ts(5), of limit] ts(1) by simp
  with ts that show ?thesis by blast
qed

text \<open>A layout found below one limit is the layout found below any larger one, for every list
  of objects with the same sizes and kinds.\<close>

lemma plan_layout_larger:
  assumes "limit \<le> big" "big \<le> fs_fat_entry_count fs" "big \<le> UINT32_MAX" "2 \<le> limit"
    "\<forall>o' \<in> set objects. 0 < ro_clusters o'"
    and "fat_relayout_plan_layout fs objects p limit = Inr (Some (planned, tot', fin))"
    and "map ro_clusters os = map ro_clusters objects" "map ro_is_dir os = map ro_is_dir objects"
  shows "\<exists>fin'. fat_relayout_plan_layout fs os p big =
    Inr (Some (placed_at p os (map ro_target planned), tot', fin'))"
proof -
  have lim: "limit \<le> fs_fat_entry_count fs" "limit \<le> UINT32_MAX" "2 \<le> big"
    using assms(1-4) by auto
  have len: "length os = length objects" using assms(7) by (metis length_map)
  have pos: "\<forall>o' \<in> set os. 0 < ro_clusters o'"
  proof
    fix x assume "x \<in> set os"
    then have "ro_clusters x \<in> set (map ro_clusters objects)" unfolding assms(7) [symmetric] by simp
    with assms(5) show "0 < ro_clusters x" by auto
  qed
  note same = slots_at_cong [OF assms(7,8), of p]
  obtain ts where ts: "fin < limit" "tot' = total_reserve p objects" "length ts = length objects"
    "planned = placed_at p objects ts" "fits fs limit 2 (slots_at p objects ts)"
    "\<And>us. length us = length objects \<Longrightarrow> fits fs limit 2 (slots_at p objects us) \<Longrightarrow> list_all2 (\<le>) ts us"
    using plan_layout_result [OF lim(1,2) assms(4-6)] by metis
  have big: "fits fs big 2 (slots_at p os ts)"
    using fits_upper [OF ts(5) assms(1)] same by simp
  obtain r where r: "fat_relayout_plan_layout fs os p big = Inr r"
    "case r of
       None \<Rightarrow> \<forall>ts. length ts = length os \<longrightarrow> \<not> fits fs big 2 (slots_at p os ts)
     | Some (objects', tot', fin) \<Rightarrow>
         1 \<le> fin \<and> fin < big \<and> tot' = total_reserve p os \<and>
         (\<exists>ts. length ts = length os \<and> objects' = placed_at p os ts \<and>
            fits fs (fin + 1) 2 (slots_at p os ts) \<and>
            (\<forall>us. length us = length os \<longrightarrow> fits fs big 2 (slots_at p os us) \<longrightarrow> list_all2 (\<le>) ts us))"
    using plan_layout_eq [OF assms(2,3) lim(3) pos, of p] by blast
  show ?thesis
  proof (cases r)
    case None
    with r(2) big ts(3) len show ?thesis by simp
  next
    case (Some x)
    with r(2) obtain fin' us where us: "x = (placed_at p os us, total_reserve p os, fin')" "fin' < big"
      "length us = length os" "fits fs (fin' + 1) 2 (slots_at p os us)"
      "\<And>vs. length vs = length os \<Longrightarrow> fits fs big 2 (slots_at p os vs) \<Longrightarrow> list_all2 (\<le>) us vs"
      by (cases x) auto
    have le: "list_all2 (\<le>) us ts" using us(5) [of ts] big ts(3) len by simp
    have "fits fs big 2 (slots_at p objects us)"
      using fits_upper [OF us(4), of big] us(2) same by simp
    from fits_lower_limit [OF this ts(5) le ts(3) assms(1,4)]
    have "list_all2 (\<le>) ts us" using ts(6) us(3) len by simp
    with le have "us = ts" using list_le_antisym by blast
    moreover have "map ro_target planned = ts" using placed_at_fields [OF ts(3), of p] ts(4) by simp
    ultimately show ?thesis using r(1) Some us(1) same ts(2) by simp
  qed
qed

section \<open>Runs\<close>

lemma exact_run_from_iff:
  "exact_run_from chain start i \<longleftrightarrow> (\<forall>j < length chain. chain ! j = u32 (start + u32 (i + j)))"
proof (induction chain arbitrary: i)
  case (Cons c chain)
  then show ?case by (auto simp: nth_Cons All_less_Suc2 split: nat.splits)
qed simp

lemma exact_run_iff:
  assumes "\<forall>c \<in> set chain. c < UINT32_MAX" "start \<le> UINT32_MAX"
  shows "chain_is_exact_run chain start \<longleftrightarrow> chain \<noteq> [] \<and> chain = [start..<start + length chain]"
proof -
  have step: "start + j < UINT32_MAX \<and> chain ! j = start + j"
    if run: "\<forall>j < length chain. chain ! j = u32 (start + u32 j)" and j: "j < length chain" for j
    using j
  proof (induction j)
    case 0
    then have "chain ! 0 = start" using run assms(2) by (simp add: u32_id)
    moreover have "chain ! 0 < UINT32_MAX" using 0 assms(1) by simp
    ultimately show ?case by simp
  next
    case (Suc j)
    then have b: "start + Suc j \<le> UINT32_MAX" by simp
    then have "chain ! Suc j = start + Suc j" using run Suc.prems by (simp add: u32_id)
    moreover have "chain ! Suc j < UINT32_MAX" using Suc.prems assms(1) by simp
    ultimately show ?case by simp
  qed
  have conv: "chain ! j = u32 (start + u32 j)"
    if run: "chain = [start..<start + length chain]" and j: "j < length chain" for j
  proof -
    have "chain ! j = start + j" using run j by (metis add_less_cancel_left nth_upt)
    moreover have "chain ! j < UINT32_MAX" using j assms(1) by simp
    ultimately show ?thesis by (simp add: u32_id)
  qed
  have "(\<forall>j < length chain. chain ! j = u32 (start + u32 j)) \<longleftrightarrow> chain = [start..<start + length chain]"
    using step conv by (auto intro!: nth_equalityI)
  then show ?thesis by (simp add: chain_is_exact_run_def exact_run_from_iff)
qed

section \<open>The preflight\<close>

text \<open>The free clusters that follow a cluster, bad ones stepped over.\<close>

definition free_after :: "Fat32 \<Rightarrow> nat \<Rightarrow> nat" where
  "free_after fs start = length (filter (\<lambda>c. fat_entry fs c = 0)
     (takeWhile (\<lambda>c. fat_entry fs c = 0 \<or> bad fs c) [start..<fs_max_cluster fs + 1]))"

lemma free_after_step:
  "start \<le> fs_max_cluster fs \<Longrightarrow> free_after fs start =
     (if fat_entry fs start = 0 then Suc (free_after fs (start + 1))
      else if bad fs start then free_after fs (start + 1) else 0)"
  "fs_max_cluster fs < start \<Longrightarrow> free_after fs start = 0"
  by (simp_all add: free_after_def upt_rec [of start])

lemma bad_not_free: "bad fs c \<Longrightarrow> fat_entry fs c \<noteq> 0"
  using fat_constants [of fs] by (simp add: bad_def)

lemma available_after_eq:
  assumes "table_ok fs" "available \<le> reserve"
  shows "available_after fs reserve cursor available = Inr (min reserve (available + free_after fs cursor))"
  using assms
proof (induction fs reserve cursor available rule: available_after.induct)
  case (1 fs reserve cursor available)
  consider (full) "available = reserve" | (edge) "available < reserve" "fs_max_cluster fs < cursor"
    | (more) "available < reserve" "cursor \<le> fs_max_cluster fs"
    using "1.prems"(2) by linarith
  then show ?case
  proof cases
    case more
    have c: "u32 cursor = cursor" "cursor < fs_fat_entry_count fs"
      using more "1.prems"(1) by (auto simp: table_ok_def u32_id)
    have v: "fat_value fs cursor = Inr (fat_entry fs cursor)"
      using c by (simp add: fat_value_def fat_entry_def)
    note ih = "1.IH" [OF more(1), of "fat_entry fs cursor"]
    show ?thesis
      using more c v ih "1.prems" bad_not_free [of fs cursor]
      by (auto simp: available_after.simps [of fs reserve cursor] free_after_step fat_is_free_def bad_def [symmetric])
  qed (auto simp: available_after.simps [of fs reserve cursor] free_after_step)
qed

text \<open>What the preflight asks of one catalogue entry.\<close>

definition file_ready :: "Fat32 \<Rightarrow> nat \<Rightarrow> FileRecord \<Rightarrow> bool" where
  "file_ready fs percent file \<longleftrightarrow> fr_chain file = [] \<or>
     chain_is_exact_run (fr_chain file) (fr_chain file ! 0) \<and>
     (fr_is_dir file \<or> reserve_for (length (fr_chain file)) percent
        \<le> free_after fs (fr_chain file ! 0 + length (fr_chain file)))"

definition allocated_file :: "FileRecord \<Rightarrow> bool" where
  "allocated_file file \<longleftrightarrow> fr_chain file \<noteq> [] \<and> \<not> fr_is_dir file"

definition reserves :: "nat \<Rightarrow> FileRecord list \<Rightarrow> nat" where
  "reserves percent files =
     sum_list (map (\<lambda>file. reserve_for (length (fr_chain file)) percent) (filter allocated_file files))"

lemma preflight_file_eq:
  assumes "table_ok fs" "pf_reserve_clusters result + reserves percent [file] \<le> SIZE_MAX"
  shows "(\<exists>r. preflight_file fs percent file result = Inr (Inl r) \<and> \<not> file_ready fs percent file \<and>
       pf_issue r \<in> {FAT_RELAYOUT_PREFLIGHT_OBJECT_FRAGMENTED, FAT_RELAYOUT_PREFLIGHT_RESERVE_SHORT} \<and>
       pf_problem_path r = Some (fr_path file)) \<or>
     (\<exists>r. preflight_file fs percent file result = Inr (Inr r) \<and> file_ready fs percent file \<and>
       pf_regular_files r = pf_regular_files result + (if allocated_file file then 1 else 0) \<and>
       pf_reserve_clusters r = pf_reserve_clusters result + reserves percent [file])"
proof (cases "fr_chain file = [] \<or> \<not> chain_is_exact_run (fr_chain file) (fr_chain file ! 0) \<or> fr_is_dir file")
  case True
  then show ?thesis
    by (auto simp: preflight_file_def Let_def file_ready_def allocated_file_def reserves_def)
next
  case False
  let ?r = "reserve_for (length (fr_chain file)) percent"
  from False assms(2) have room: "\<not> ?r > SIZE_MAX - pf_reserve_clusters result"
    by (simp add: reserves_def allocated_file_def)
  have av: "available_after fs ?r c 0 = Inr (min ?r (free_after fs c))" for c
    using available_after_eq [OF assms(1), of 0 ?r c] by simp
  show ?thesis
    using False room
    by (auto simp: preflight_file_def Let_def av file_ready_def allocated_file_def reserves_def)
qed

lemma preflight_files_eq:
  assumes "table_ok fs" "pf_reserve_clusters result + reserves percent files \<le> SIZE_MAX"
  shows "\<exists>r. preflight_files fs percent files result = Inr r \<and>
    (pf_issue r = FAT_RELAYOUT_PREFLIGHT_OK \<longleftrightarrow>
       (\<forall>file \<in> set files. file_ready fs percent file) \<and>
       (0 < pf_regular_files result \<or> (\<exists>file \<in> set files. allocated_file file)))"
  using assms(2)
proof (induction files arbitrary: result)
  case (Cons x xs)
  have split: "reserves percent (x # xs) = reserves percent [x] + reserves percent xs"
    by (simp add: reserves_def)
  from Cons.prems split have "pf_reserve_clusters result + reserves percent [x] \<le> SIZE_MAX" by simp
  from preflight_file_eq [OF assms(1) this] show ?case
  proof (elim disjE exE conjE)
    fix r assume "preflight_file fs percent x result = Inr (Inr r)" "file_ready fs percent x"
      "pf_regular_files r = pf_regular_files result + (if allocated_file x then 1 else 0)"
      "pf_reserve_clusters r = pf_reserve_clusters result + reserves percent [x]"
    with Cons.IH [of r] Cons.prems split show ?thesis by (auto split: if_splits)
  qed auto
qed auto

end
