(* ===== verification/FatPlanProps.thy ===== *)
theory FatPlanProps
  imports FatPlan Demo
begin

text \<open>Properties of the relayout planner, of the idempotence check and of the preflight.\<close>

section \<open>A plan for the example volume\<close>

definition demo_object :: FatRelayoutObject where
  "demo_object = \<lparr>ro_is_root = False, ro_is_dir = False, ro_path = text_bytes ''/A'', ro_clusters = 2,
     ro_physical_first = 2, ro_target = 0, ro_reserve_after = 0\<rparr>"

lemma demo_not_bad: "c < 4 \<Longrightarrow> 2 \<le> c \<Longrightarrow> \<not> bad demo_fs c"
  using demo_entry [of c] demo_raw_entries
  by (cases "c = 2"; cases "c = 3") (auto simp: bad_def fat_bad_value_def)

lemma demo_fits: "fits demo_fs 4 2 (slots_at 0 [demo_object] [2])"
  using demo_not_bad
  by (auto simp: slots_at_def demo_object_def reserve_of_def reserve_for_def u64_def run_fits_def clear_run_def intro!: exI [of _ 4])

lemma demo_plan:
  obtains fin where "fat_relayout_plan_layout demo_fs [demo_object] 0 4 =
    Inr (Some ([demo_object\<lparr>ro_target := 2\<rparr>], 0, fin))"
proof -
  have t: "4 \<le> fs_fat_entry_count demo_fs" "\<forall>o' \<in> set [demo_object]. 0 < ro_clusters o'" "reserve_of 0 demo_object = 0"
    by (simp_all add: demo_object_def reserve_of_def reserve_for_def u64_def)
  obtain r where r: "fat_relayout_plan_layout demo_fs [demo_object] 0 4 = Inr r"
    "case r of
       None \<Rightarrow> \<forall>ts. length ts = length [demo_object] \<longrightarrow> \<not> fits demo_fs 4 2 (slots_at 0 [demo_object] ts)
     | Some (objects', tot', fin) \<Rightarrow>
         1 \<le> fin \<and> fin < 4 \<and> tot' = total_reserve 0 [demo_object] \<and>
         (\<exists>ts. length ts = length [demo_object] \<and> objects' = placed_at 0 [demo_object] ts \<and>
            fits demo_fs (fin + 1) 2 (slots_at 0 [demo_object] ts) \<and>
            (\<forall>us. length us = length [demo_object] \<longrightarrow> fits demo_fs 4 2 (slots_at 0 [demo_object] us) \<longrightarrow>
               list_all2 (\<le>) ts us))"
    using plan_layout_eq [OF t(1) _ _ t(2), of 0] by force
  obtain objs tot' fin ts where x: "r = Some (objs, tot', fin)" "length ts = 1" "objs = placed_at 0 [demo_object] ts"
    "fits demo_fs (fin + 1) 2 (slots_at 0 [demo_object] ts)" "list_all2 (\<le>) ts [2]" "tot' = total_reserve 0 [demo_object]"
    using r(2) demo_fits by (cases r) fastforce+
  then obtain u where u: "ts = [u]" by (cases ts) auto
  then have "u = 2" using x(4,5) by (simp add: slots_at_def)
  then show ?thesis using that r(1) x(1,3,6) u t(3) by (auto simp: placed_at_def total_reserve_def demo_object_def)
qed

definition demo_file :: FileRecord where
  "demo_file = \<lparr>fr_path = text_bytes ''/A'', fr_dirent_offset = 1024, fr_first_cluster = 2, fr_size_bytes = 1024,
     fr_attr = 32, fr_is_dir = False, fr_chain = [2, 3], fr_fragments = 1\<rparr>"

lemma demo_root_fixed: "fs_root_is_fixed demo_fs"
  by (simp add: demo_fs_def fat32_of_geometry_def demo_geometry_def Let_def del: upt_rec_numeral)

section \<open>Properties\<close>

text \<open>C3. Every plan the relayout planner returns is a safe layout: the objects keep their
  order, no object's run overlaps another or holds a bad cluster, after every regular file
  lie at least the requested usable clusters before the next object and before the end of
  the layout, and everything stays below the workspace.\<close>

theorem plan_layout_safe:
  assumes "table_ok fs" "2 \<le> workspace_start" "workspace_start \<le> fs_max_cluster fs + 1"
    and "\<forall>o' \<in> set objects. 0 < ro_clusters o'"
    and "fat_relayout_plan_layout fs objects percent workspace_start = Inr (Some (planned, reserve_total, fin))"
  shows "map ro_path planned = map ro_path objects \<and> map ro_clusters planned = map ro_clusters objects \<and>
    map ro_reserve_after planned = map (reserve_of percent) objects \<and>
    reserve_total = sum_list (map ro_reserve_after planned) \<and> fin < workspace_start \<and>
    (\<forall>o' \<in> set planned. 2 \<le> ro_target o' \<and> ro_target o' + ro_clusters o' \<le> fin + 1 \<and>
       (\<forall>c. ro_target o' \<le> c \<and> c < ro_target o' + ro_clusters o' \<longrightarrow> \<not> bad fs c) \<and>
       ro_reserve_after o' \<le> usable_count fs (ro_target o' + ro_clusters o') (fin + 1)) \<and>
    sorted_wrt (\<lambda>a b. ro_target a + ro_clusters a \<le> ro_target b \<and>
       ro_reserve_after a \<le> usable_count fs (ro_target a + ro_clusters a) (ro_target b)) planned"
proof -
  have lim: "workspace_start \<le> fs_fat_entry_count fs" "workspace_start \<le> UINT32_MAX"
    using assms(1,3) by (auto simp: table_ok_def)
  obtain ts where ts: "fin < workspace_start" "reserve_total = total_reserve percent objects"
    "length ts = length objects" "planned = placed_at percent objects ts"
    "fits fs (fin + 1) 2 (slots_at percent objects ts)"
    using plan_layout_result [OF lim assms(2,4,5)] by metis
  note f = placed_at_fields [OF ts(3), of percent, folded ts(4)]
  note b = fits_bounds [OF ts(5), folded placed_slots [OF ts(3), of percent], folded ts(4)]
  have "reserve_total = sum_list (map ro_reserve_after planned)"
    using f ts(2) by (simp add: total_reserve_def)
  with f ts(1) b show ?thesis by (auto simp: sorted_wrt_map clear_run_def)
qed

theorem plan_layout_safe_witness:
  "\<exists>planned fin. fat_relayout_plan_layout demo_fs [demo_object] 0 4 = Inr (Some (planned, 0, fin)) \<and>
     map ro_target planned = [2] \<and> fin < 4 \<and> \<not> bad demo_fs 2 \<and> \<not> bad demo_fs 3"
proof -
  obtain fin where run: "fat_relayout_plan_layout demo_fs [demo_object] 0 4 =
    Inr (Some ([demo_object\<lparr>ro_target := 2\<rparr>], 0, fin))" by (rule demo_plan)
  have "fin < 4 \<and> (\<forall>c. 2 \<le> c \<and> c < 4 \<longrightarrow> \<not> bad demo_fs c)"
    using plan_layout_safe [OF demo_ok(2) _ _ _ run] by (simp add: demo_object_def)
  with run show ?thesis by simp
qed

text \<open>C18. The greedy plan is optimal: whenever any layout with the objects in this order and
  the requested reserves exists below the workspace, the planner finds one, and it puts
  every object at most as far from the start of the volume as any such layout does.\<close>

theorem plan_layout_earliest:
  assumes "table_ok fs" "2 \<le> workspace_start" "workspace_start \<le> fs_max_cluster fs + 1"
    and "\<forall>o' \<in> set objects. 0 < ro_clusters o'"
    and "length ts = length objects" "fits fs workspace_start 2 (slots_at percent objects ts)"
  shows "\<exists>planned fin.
    fat_relayout_plan_layout fs objects percent workspace_start =
      Inr (Some (planned, total_reserve percent objects, fin)) \<and>
    list_all2 (\<le>) (map ro_target planned) ts"
proof -
  have lim: "workspace_start \<le> fs_fat_entry_count fs" "workspace_start \<le> UINT32_MAX"
    using assms(1,3) by (auto simp: table_ok_def)
  obtain r where r: "fat_relayout_plan_layout fs objects percent workspace_start = Inr r"
    "case r of
       None \<Rightarrow> \<forall>ts. length ts = length objects \<longrightarrow> \<not> fits fs workspace_start 2 (slots_at percent objects ts)
     | Some (objects', tot', fin) \<Rightarrow>
         1 \<le> fin \<and> fin < workspace_start \<and> tot' = total_reserve percent objects \<and>
         (\<exists>ts. length ts = length objects \<and> objects' = placed_at percent objects ts \<and>
            fits fs (fin + 1) 2 (slots_at percent objects ts) \<and>
            (\<forall>us. length us = length objects \<longrightarrow> fits fs workspace_start 2 (slots_at percent objects us) \<longrightarrow>
               list_all2 (\<le>) ts us))"
    using plan_layout_eq [OF lim assms(2,4), of percent] by blast
  with assms(5,6) show ?thesis
    using placed_at_fields by (cases r) fastforce+
qed

theorem plan_layout_earliest_witness:
  "\<exists>planned fin. fat_relayout_plan_layout demo_fs [demo_object] 0 4 =
      Inr (Some (planned, total_reserve 0 [demo_object], fin)) \<and> list_all2 (\<le>) (map ro_target planned) [2]"
  using plan_layout_earliest [OF demo_ok(2) _ _ _ _ demo_fits] by (simp add: demo_object_def)

text \<open>C29. The relayout is idempotent: once every object of a plan lies where the plan put it,
  the catalogue built from the volume matches its canonical layout, with the same reserve, so a
  second run finds nothing to do. This holds although the check plans without a workspace at
  the end of the volume and the run planned with one.\<close>

theorem relayout_idempotent:
  assumes "table_ok fs" "2 \<le> workspace_start" "workspace_start \<le> fs_max_cluster fs + 1"
    and "\<forall>o' \<in> set objects. 0 < ro_clusters o'" "objects \<noteq> []"
    and "fat_relayout_plan_layout fs objects percent workspace_start = Inr (Some (planned, reserve_total, fin))"
  shows "fat_relayout_matches_canonical fs
      (qsort_by compare_relayout_objects_asc (map (\<lambda>o'. o'\<lparr>ro_physical_first := ro_target o'\<rparr>) planned)) percent =
    Inr (Some reserve_total)"
proof -
  let ?settle = "map (\<lambda>o'. o'\<lparr>ro_physical_first := ro_target o'\<rparr>)"
  have big: "fs_max_cluster fs + 1 \<le> fs_fat_entry_count fs" "fs_max_cluster fs + 1 \<le> UINT32_MAX"
    using assms(1) by (auto simp: table_ok_def)
  have lim: "workspace_start \<le> fs_fat_entry_count fs" "workspace_start \<le> UINT32_MAX" using big assms(3) by simp_all
  obtain ts where ts: "length ts = length objects" "planned = placed_at percent objects ts"
    "fits fs workspace_start 2 (slots_at percent objects ts)"
    using plan_layout_result [OF lim assms(2,4,6)] by metis
  note f = placed_at_fields [OF ts(1), of percent, folded ts(2)]
  have kinds: "map ro_clusters (?settle planned) = map ro_clusters objects"
    "map ro_is_dir (?settle planned) = map ro_is_dir objects"
    using f placed_at_kinds [OF ts(1)] ts(2) by (simp_all add: o_def)
  have "sorted_wrt (\<lambda>a b. ro_target a + ro_clusters a \<le> ro_target b) planned"
    using conjunct2 [OF fits_bounds [OF ts(3), folded placed_slots [OF ts(1), of percent], folded ts(2)]]
    by (auto simp: sorted_wrt_map elim: sorted_wrt_mono_rel [rotated])
  moreover have "\<forall>o' \<in> set planned. 0 < ro_clusters o'"
    using f assms(4) by (metis in_set_conv_nth length_map nth_map)
  ultimately have "sorted_wrt (\<lambda>a b. compare_relayout_objects_asc a b \<le> 0) (?settle planned)"
    by (auto simp: sorted_wrt_map compare_relayout_objects_asc_def elim!: sorted_wrt_mono_rel [rotated])
  then have sorted: "qsort_by compare_relayout_objects_asc (?settle planned) = ?settle planned"
    by (rule qsort_by_sorted)
  obtain fin' where "fat_relayout_plan_layout fs (?settle planned) percent (fs_max_cluster fs + 1) =
      Inr (Some (placed_at percent (?settle planned) (map ro_target planned), reserve_total, fin'))"
    using plan_layout_larger [OF assms(3) big assms(2,4,6) kinds] by blast
  moreover have "list_all (\<lambda>o'. ro_target o' = ro_physical_first o') (placed_at percent (?settle planned) (map ro_target planned))"
    by (auto simp: list_all_length placed_at_def)
  moreover have "placed_at percent (?settle planned) (map ro_target planned) \<noteq> []"
    using assms(5) f by (cases planned; cases objects) (auto simp: placed_at_def)
  ultimately show ?thesis using big by (simp add: fat_relayout_matches_canonical_def sorted)
qed

theorem relayout_idempotent_witness:
  "\<exists>objects. fat_relayout_matches_canonical demo_fs objects 0 = Inr (Some 0)"
proof -
  obtain fin where "fat_relayout_plan_layout demo_fs [demo_object] 0 4 =
    Inr (Some ([demo_object\<lparr>ro_target := 2\<rparr>], 0, fin))" by (rule demo_plan)
  from relayout_idempotent [OF demo_ok(2) _ _ _ _ this] show ?thesis by (simp add: demo_object_def) blast
qed



section \<open>The object list\<close>

text \<open>What the list of objects has to be: the root directory, when it is a chain, and every
  file and directory that has clusters.\<close>

definition relayout_objects :: "nat list \<Rightarrow> FileRecord list \<Rightarrow> FatRelayoutObject list" where
  "relayout_objects root files =
     (if root = [] then [] else [root_object root]) @ map file_object (filter (\<lambda>f. fr_chain f \<noteq> []) files)"

lemma push_object: "relayout_object_list_push E v x = Inr v' \<Longrightarrow> v' = v @ [x]"
  by (simp add: relayout_object_list_push_def split: if_splits)

lemma add_file_objects:
  assumes "foldE (add_file_object E) files (objects, counts) = Inr (objects', counts')"
  shows "objects' = objects @ map file_object (filter (\<lambda>f. fr_chain f \<noteq> []) files) \<and>
    oc_regular_files counts' = oc_regular_files counts + length (filter (\<lambda>f. fr_chain f \<noteq> [] \<and> \<not> fr_is_dir f) files) \<and>
    oc_directories counts' = oc_directories counts + length (filter (\<lambda>f. fr_chain f \<noteq> [] \<and> fr_is_dir f) files) \<and>
    oc_largest counts' = foldl max (oc_largest counts) (map (length \<circ> fr_chain) files)"
  using assms
proof (induction files arbitrary: objects counts)
  case (Cons f files)
  from Cons.prems obtain o1 c1 where s: "add_file_object E f (objects, counts) = Inr (o1, c1)"
    "foldE (add_file_object E) files (o1, c1) = Inr (objects', counts')" by (auto simp: res_simps)
  have "o1 = objects @ (if fr_chain f \<noteq> [] then [file_object f] else []) \<and>
    oc_regular_files c1 = oc_regular_files counts + (if fr_chain f \<noteq> [] \<and> \<not> fr_is_dir f then 1 else 0) \<and>
    oc_directories c1 = oc_directories counts + (if fr_chain f \<noteq> [] \<and> fr_is_dir f then 1 else 0) \<and>
    oc_largest c1 = max (oc_largest counts) (length (fr_chain f))"
    using s(1) by (auto simp: add_file_object_def Let_def res_simps max_def dest!: push_object split: if_splits)
  with Cons.IH [OF s(2)] show ?case by simp
qed simp



end
