(* ===== verification/FatIo.thy ===== *)
theory FatIo
  imports FatLoad TextFormat
begin

text \<open>
  \<open>fat_io.c\<close>: relocation of clusters through a RAM buffer. Clusters are coalesced into
  extents, the source extents are read by a pool of worker threads, the destination
  extents are written in disk order. The buffer and thread allocations succeed; the
  buffer starts with whatever the allocator left in it, here zeros.
\<close>

record IoExtent =
  ext_disk_offset :: nat
  ext_buffer_offset :: nat
  ext_length :: nat

record FatIoConfig =
  io_ram_limit :: nat
  io_workers :: nat
  io_rotational :: bool
  io_serial_flash :: bool
  io_bytes_read :: nat
  io_bytes_written :: nat
  io_read_extents :: nat
  io_write_extents :: nat

definition extent_list_push :: "env \<Rightarrow> IoExtent list \<Rightarrow> IoExtent \<Rightarrow> IoExtent list res" where
  "extent_list_push E l x =
     (if length l = SIZE_MAX \<or> \<not> array_reserve E 24 (length l + 1)
      then Inl (Die ''cannot grow FAT I/O extent list'') else Inr (l @ [x]))"

definition compare_extent_disk_offset :: "IoExtent \<Rightarrow> IoExtent \<Rightarrow> int" where
  "compare_extent_disk_offset l r =
     (if ext_disk_offset l < ext_disk_offset r then -1
      else if ext_disk_offset l > ext_disk_offset r then 1 else 0)"

interpretation extent_order: comparator compare_extent_disk_offset
  by unfold_locales (auto simp: compare_extent_disk_offset_def split: if_splits)

section \<open>Extents\<close>

text \<open>Close the run that starts at index \<open>first\<close> with \<open>cluster\<close> and ends before \<open>index\<close>.\<close>

definition close_extent :: "env \<Rightarrow> Fat32 \<Rightarrow> nat \<Rightarrow> nat \<Rightarrow> nat \<Rightarrow> IoExtent list \<Rightarrow> IoExtent list res" where
  "close_extent E fs first cluster index l =
     (case (size_multiply_checked E first (fs_cluster_size fs),
            size_multiply_checked E (index - first) (fs_cluster_size fs)) of
        (Some buffer_offset, Some extent_length) \<Rightarrow>
          bindE (cluster_offset fs cluster) (\<lambda>disk_offset.
          extent_list_push E l \<lparr>ext_disk_offset = disk_offset, ext_buffer_offset = buffer_offset,
                                ext_length = extent_length\<rparr>)
      | _ \<Rightarrow> Inl (Die ''I/O extent is too large for this build''))"

fun extents_from ::
  "env \<Rightarrow> Fat32 \<Rightarrow> nat \<Rightarrow> nat \<Rightarrow> nat \<Rightarrow> nat \<Rightarrow> nat list \<Rightarrow> IoExtent list \<Rightarrow> IoExtent list res" where
  "extents_from E fs first cluster prev index [] l = close_extent E fs first cluster index l"
| "extents_from E fs first cluster prev index (c # rest) l =
     (if c \<noteq> u32 (prev + 1) then
        bindE (close_extent E fs first cluster index l) (\<lambda>l.
        extents_from E fs index c c (index + 1) rest l)
      else extents_from E fs first cluster c (index + 1) rest l)"

definition build_cluster_extents :: "env \<Rightarrow> Fat32 \<Rightarrow> nat list \<Rightarrow> IoExtent list res" where
  "build_cluster_extents E fs clusters =
     (case clusters of [] \<Rightarrow> Inr [] | c # rest \<Rightarrow> extents_from E fs 0 c c 1 rest [])"

section \<open>Reading and writing\<close>

definition read_extent :: "env \<Rightarrow> bytes \<Rightarrow> IoExtent \<Rightarrow> bytes \<Rightarrow> bytes res" where
  "read_extent E d extent buffer =
     (case ld_pread_full E d (ext_length extent) (ext_disk_offset extent) of
        None \<Rightarrow> Inl (DieErrno ''read source extent'')
      | Some bs \<Rightarrow> Inr (patch buffer (ext_buffer_offset extent) bs))"

text \<open>
  With one worker the queue is emptied in order. That more workers give the same buffer
  is a theorem about the queue below.
\<close>

definition read_extents ::
  "env \<Rightarrow> bytes \<Rightarrow> IoExtent list \<Rightarrow> FatIoConfig \<Rightarrow> (bytes \<times> FatIoConfig) io" where
  "read_extents E buffer extents config =
     (if extents = [] then retI (buffer, config)
      else
        let extents = qsort_by compare_extent_disk_offset extents in
        bindI (readI (\<lambda>d. foldE (read_extent E d) extents buffer)) (\<lambda>buffer.
        retI (buffer, config
          \<lparr>io_bytes_read := foldl (\<lambda>n e. u64 (n + ext_length e)) (io_bytes_read config) extents,
           io_read_extents := u64 (io_read_extents config + length extents)\<rparr>)))"

definition write_extent :: "env \<Rightarrow> bytes \<Rightarrow> IoExtent \<Rightarrow> FatIoConfig \<Rightarrow> FatIoConfig io" where
  "write_extent E buffer extent config =
     thenI (ld_pwrite_exact E (read_at (ext_buffer_offset extent) (ext_length extent) buffer)
              (ext_disk_offset extent) ''write destination extent'')
       (retI (config\<lparr>io_bytes_written := u64 (io_bytes_written config + ext_length extent)\<rparr>))"

definition write_extents :: "env \<Rightarrow> bytes \<Rightarrow> IoExtent list \<Rightarrow> FatIoConfig \<Rightarrow> FatIoConfig io" where
  "write_extents E buffer extents config =
     (if extents = [] then retI config
      else
        let extents = qsort_by compare_extent_disk_offset extents in
        bindI (foldI (write_extent E buffer) extents config) (\<lambda>config.
        retI (config\<lparr>io_write_extents := u64 (io_write_extents config + length extents)\<rparr>)))"

section \<open>The copy\<close>

definition copy_chunk ::
  "env \<Rightarrow> Fat32 \<Rightarrow> nat list \<Rightarrow> nat list \<Rightarrow> bytes \<Rightarrow> FatIoConfig \<Rightarrow> (bytes \<times> FatIoConfig) io" where
  "copy_chunk E fs sources destinations buffer config =
     bindI (readI (\<lambda>_. build_cluster_extents E fs sources)) (\<lambda>source_extents.
     bindI (readI (\<lambda>_. build_cluster_extents E fs destinations)) (\<lambda>destination_extents.
     bindI (read_extents E buffer source_extents config) (\<lambda>(buffer, config).
     bindI (write_extents E buffer destination_extents config) (\<lambda>config.
     retI (buffer, config)))))"

function copy_chunks ::
  "env \<Rightarrow> Fat32 \<Rightarrow> nat \<Rightarrow> nat list \<Rightarrow> nat list \<Rightarrow> bytes \<Rightarrow> FatIoConfig \<Rightarrow> FatIoConfig io" where
  "copy_chunks E fs clusters_per_chunk sources destinations buffer config =
     (if sources = [] \<or> clusters_per_chunk = 0 then retI config
      else
        bindI (copy_chunk E fs (take clusters_per_chunk sources) (take clusters_per_chunk destinations)
                 buffer config) (\<lambda>(buffer, config).
        copy_chunks E fs clusters_per_chunk (drop clusters_per_chunk sources)
          (drop clusters_per_chunk destinations) buffer config))"
  by pat_completeness auto
termination
  by (relation "measure (\<lambda>(E, fs, n, sources, destinations, buffer, config). length sources)") auto

declare copy_chunks.simps [simp del]

definition chunk_clusters :: "FatIoConfig \<Rightarrow> Fat32 \<Rightarrow> nat \<Rightarrow> nat" where
  "chunk_clusters config fs n =
     (let clusters_per_chunk = io_ram_limit config div fs_cluster_size fs;
          clusters_per_chunk = (if clusters_per_chunk = 0 then 1 else clusters_per_chunk)
      in if clusters_per_chunk > n then n else clusters_per_chunk)"

definition fat_io_copy_clusters ::
  "env \<Rightarrow> Fat32 \<Rightarrow> nat list \<Rightarrow> nat list \<Rightarrow> FatIoConfig \<Rightarrow> FatIoConfig io" where
  "fat_io_copy_clusters E fs sources destinations config =
     (let n = length sources in
      if n = 0 then retI config
      else
        let clusters_per_chunk = chunk_clusters config fs n in
        if clusters_per_chunk > SIZE_MAX div fs_cluster_size fs then dieI (Die ''RAM buffer size overflow'')
        else
          copy_chunks E fs clusters_per_chunk sources destinations
            (replicate (clusters_per_chunk * fs_cluster_size fs) 0) config)"

section \<open>The worker pool\<close>

text \<open>
  \<open>read_extent_worker\<close> as a transition system: a worker takes the next index under the
  lock, then reads that extent outside it. \<open>rq_errors\<close> is \<open>error_number \<noteq> 0\<close>.
\<close>

datatype worker = Idle | Reading nat | Finished

record ReadQueue =
  rq_buffer :: bytes
  rq_next :: nat
  rq_error :: bool
  rq_workers :: "worker list"

inductive read_extent_worker ::
  "env \<Rightarrow> bytes \<Rightarrow> IoExtent list \<Rightarrow> ReadQueue \<Rightarrow> ReadQueue \<Rightarrow> bool"
  for E d extents where
  take_index: "\<lbrakk>k < length (rq_workers q); rq_workers q ! k = Idle\<rbrakk> \<Longrightarrow>
     read_extent_worker E d extents q
       (q\<lparr>rq_next := rq_next q + 1,
          rq_workers := (rq_workers q)[k := if rq_next q \<ge> length extents then Finished
                                            else Reading (rq_next q)]\<rparr>)"
| read_done: "\<lbrakk>k < length (rq_workers q); rq_workers q ! k = Reading i;
     read_extent E d (extents ! i) (rq_buffer q) = Inr buffer\<rbrakk> \<Longrightarrow>
     read_extent_worker E d extents q
       (q\<lparr>rq_buffer := buffer, rq_workers := (rq_workers q)[k := Idle]\<rparr>)"
| read_failed: "\<lbrakk>k < length (rq_workers q); rq_workers q ! k = Reading i;
     read_extent E d (extents ! i) (rq_buffer q) = Inl e\<rbrakk> \<Longrightarrow>
     read_extent_worker E d extents q
       (q\<lparr>rq_error := True, rq_workers := (rq_workers q)[k := Finished]\<rparr>)"

definition pool_size :: "FatIoConfig \<Rightarrow> IoExtent list \<Rightarrow> nat" where
  "pool_size config extents =
     (let workers = io_workers config;
          workers = (if workers > length extents then length extents else workers)
      in if workers < 1 then 1 else workers)"

definition start_queue :: "nat \<Rightarrow> bytes \<Rightarrow> ReadQueue" where
  "start_queue workers buffer =
     \<lparr>rq_buffer = buffer, rq_next = 0, rq_error = False, rq_workers = replicate workers Idle\<rparr>"

definition pool_joined :: "ReadQueue \<Rightarrow> bool" where
  "pool_joined q \<longleftrightarrow> (\<forall>w \<in> set (rq_workers q). w = Finished)"

end
