(* ===== verification/FatCopy.thy ===== *)
theory FatCopy
  imports FatIo Demo
begin

text \<open>
  What the copy of \<open>fat_io.c\<close> does to the volume: the extents of a cluster list, reading
  and writing them in any order, the chunks, and the pool of reader threads.
\<close>

section \<open>Clusters on the volume\<close>

definition cluster_at :: "Fat32 \<Rightarrow> nat \<Rightarrow> nat" where
  "cluster_at fs c = fs_data_offset fs + (c - 2) * fs_cluster_size fs"

definition cluster_data :: "Fat32 \<Rightarrow> bytes \<Rightarrow> nat \<Rightarrow> bytes" where
  "cluster_data fs d c = read_at (cluster_at fs c) (fs_cluster_size fs) d"

lemma cluster_inside:
  "disk_ok fs d \<Longrightarrow> data_cluster fs c \<Longrightarrow> cluster_at fs c + fs_cluster_size fs \<le> length d"
proof -
  assume a: "disk_ok fs d" "data_cluster fs c"
  have "fs_max_cluster fs = fs_cluster_count fs + 1" using a(1) by (simp add: disk_ok_def layout_ok_def)
  with a(2) have "c - 2 + 1 \<le> fs_cluster_count fs" unfolding data_cluster_def by linarith
  then have "(c - 2 + 1) * fs_cluster_size fs \<le> fs_cluster_count fs * fs_cluster_size fs" by (rule mult_le_mono1)
  then show ?thesis using a(1) by (simp add: disk_ok_def cluster_at_def)
qed

lemma cluster_offset_Inr:
  assumes "disk_ok fs d" "length d \<le> UINT64_MAX" "data_cluster fs c"
  shows "cluster_offset fs c = Inr (cluster_at fs c)"
proof -
  have "cluster_at fs c \<le> UINT64_MAX" using cluster_inside [OF assms(1,3)] assms(2) by simp
  then show ?thesis using assms(3) by (simp add: cluster_offset_def data_cluster_def cluster_at_def u64_id)
qed

lemma cluster_at_add: "2 \<le> c \<Longrightarrow> cluster_at fs (c + k) = cluster_at fs c + k * fs_cluster_size fs"
  by (simp add: cluster_at_def add_mult_distrib [symmetric])

text \<open>Blocks of \<open>z\<close> bytes inside a patched range.\<close>

lemma read_at_part:
  assumes "off + len \<le> length d" "a + k \<le> len"
  shows "read_at a k (read_at off len d) = read_at (off + a) k d"
  by (rule nth_equalityI) (use assms in \<open>auto simp: buf_simps add.assoc\<close>)

lemma block_patch_at:
  assumes "base + b * z + length ys \<le> length buf" "length ys = n * z" "base + (j + 1) * z \<le> length buf"
  shows "read_at (base + j * z) z (patch buf (base + b * z) ys) =
    (if b \<le> j \<and> j < b + n then read_at ((j - b) * z) z ys else read_at (base + j * z) z buf)"
proof (cases "b \<le> j \<and> j < b + n")
  case True
  then have e: "j * z = b * z + (j - b) * z" by (metis add_mult_distrib le_add_diff_inverse)
  have "j - b + 1 \<le> n" using True by linarith
  then have "(j - b + 1) * z \<le> n * z" by (rule mult_le_mono1)
  then have l: "(j - b) * z + z \<le> length ys" using assms(2) by simp
  have "read_at (base + j * z) z (patch buf (base + b * z) ys) = read_at ((j - b) * z) z ys"
    by (rule nth_equalityI) (use l assms e in \<open>auto simp: buf_simps nth_patch\<close>)
  then show ?thesis using True by simp
next
  case False
  then consider "j < b" | "b + n \<le> j" by linarith
  then have "j * z + z \<le> b * z \<or> b * z + length ys \<le> j * z"
  proof cases
    case 1
    then have "(j + 1) * z \<le> b * z" by (intro mult_le_mono1) simp
    then show ?thesis by simp
  next
    case 2
    then have "(b + n) * z \<le> j * z" by (intro mult_le_mono1)
    then show ?thesis using assms(2) by (simp add: add_mult_distrib)
  qed
  then have "read_at (base + j * z) z (patch buf (base + b * z) ys) = read_at (base + j * z) z buf"
    using assms by (intro read_at_patch_other) auto
  with False show ?thesis by auto
qed

lemmas block_patch = block_patch_at [where base = 0, simplified add_0]

section \<open>Extents as runs\<close>

definition is_run :: "nat list \<Rightarrow> nat \<times> nat \<Rightarrow> bool" where
  "is_run cs r \<longleftrightarrow> (case r of (i, n) \<Rightarrow> 0 < n \<and> i + n \<le> length cs \<and> (\<forall>k < n. cs ! (i + k) = cs ! i + k))"

definition run_extent :: "Fat32 \<Rightarrow> nat list \<Rightarrow> nat \<times> nat \<Rightarrow> IoExtent" where
  "run_extent fs cs r = (case r of (i, n) \<Rightarrow>
     \<lparr>ext_disk_offset = cluster_at fs (cs ! i), ext_buffer_offset = i * fs_cluster_size fs,
      ext_length = n * fs_cluster_size fs\<rparr>)"

definition run_indices :: "(nat \<times> nat) list \<Rightarrow> nat list" where
  "run_indices rs = concat (map (\<lambda>(i, n). [i..<i + n]) rs)"

lemma run_indices_simps [simp]:
  "run_indices [] = []" "run_indices ((i, n) # rs) = [i..<i + n] @ run_indices rs"
  "run_indices (rs @ rs') = run_indices rs @ run_indices rs'"
  by (simp_all add: run_indices_def)

lemma upt_split: "a \<le> b \<Longrightarrow> b \<le> c \<Longrightarrow> [a..<b] @ [b..<c] = [a..<c]"
  by (metis upt_add_eq_append le_iff_add)

lemma close_extent_run:
  assumes "close_extent E fs first cluster index l = Inr l'" "checked_ok E" "disk_ok fs d" "length d \<le> UINT64_MAX"
    and "data_cluster fs (cs ! first)" "cluster = cs ! first" "first < index"
  shows "l' = l @ [run_extent fs cs (first, index - first)]"
  using assms(1) cluster_offset_Inr [OF assms(3-5)] assms(2,6)
  by (auto simp: close_extent_def checked_ok_def res_simps extent_list_push_def run_extent_def split: if_splits)

lemma extents_from_runs:
  assumes "extents_from E fs first cluster prev index rest l = Inr exts"
    and "checked_ok E" "disk_ok fs d" "length d \<le> UINT64_MAX" "fs_max_cluster fs < UINT32_MAX"
    and "\<forall>c \<in> set cs. data_cluster fs c" "drop index cs = rest"
    and "first < index" "index \<le> length cs" "cluster = cs ! first" "prev = cs ! (index - 1)"
    and "is_run cs (first, index - first)" "l = map (run_extent fs cs) rs" "\<forall>r \<in> set rs. is_run cs r"
    and "run_indices rs = [0..<first]"
  shows "\<exists>rs. exts = map (run_extent fs cs) rs \<and> (\<forall>r \<in> set rs. is_run cs r) \<and> run_indices rs = [0..<length cs]"
  using assms(1,7-)
proof (induction rest arbitrary: first cluster prev index l rs)
  case Nil
  have data: "data_cluster fs (cs ! first)" using assms(6) Nil.prems(3,4) by simp
  have len: "index = length cs" using Nil.prems(2,4) by simp
  have "exts = map (run_extent fs cs) (rs @ [(first, index - first)])"
    using close_extent_run [OF _ assms(2-4) data Nil.prems(5,3)] Nil.prems(1,8) by simp
  moreover have "run_indices (rs @ [(first, index - first)]) = [0..<length cs]"
    using Nil.prems(3,10) len by (simp add: upt_split)
  ultimately show ?case using Nil.prems(7,9) by (intro exI [of _ "rs @ [(first, index - first)]"]) simp
next
  case (Cons c rest)
  have i: "index < length cs" using Cons.prems(2) by (metis drop_all leI list.distinct(1))
  have c: "c = cs ! index" "drop (index + 1) cs = rest"
    using Cons.prems(2) i by (simp_all add: Cons_nth_drop_Suc [symmetric])
  have data: "data_cluster fs (cs ! k)" if "k < length cs" for k using assms(6) that by simp
  have "index - 1 < length cs" using Cons.prems(3,4) by simp
  from data [OF this] have prev: "u32 (prev + 1) = prev + 1"
    using Cons.prems(6) assms(5) by (intro u32_id) (simp add: data_cluster_def)
  have run: "0 < index - first" "\<forall>k < index - first. cs ! (first + k) = cs ! first + k"
    using Cons.prems(7) by (auto simp: is_run_def)
  show ?case
  proof (cases "c = prev + 1")
    case False
    then obtain l' where l': "close_extent E fs first cluster index l = Inr l'"
      "extents_from E fs index c c (index + 1) rest l' = Inr exts"
      using Cons.prems(1) prev by (auto simp: res_simps)
    have "first < length cs" using Cons.prems(3) i by simp
    from close_extent_run [OF l'(1) assms(2-4) data [OF this] Cons.prems(5,3)]
    have eq: "l' = map (run_extent fs cs) (rs @ [(first, index - first)])" using Cons.prems(8) by simp
    show ?thesis
      by (rule Cons.IH [OF l'(2) c(2) _ _ c(1) _ _ eq])
        (use i Cons.prems(3,7,9,10) c(1) in \<open>auto simp: is_run_def upt_split\<close>)
  next
    case True
    have "cs ! (first + k) = cs ! first + k" if "k < index + 1 - first" for k
    proof (cases "k < index - first")
      case True
      then show ?thesis using run by simp
    next
      case False
      then have k: "k = index - first" "first + k = index" using that Cons.prems(3) by simp_all
      have "cs ! (first + (index - first - 1)) = cs ! first + (index - first - 1)"
        using run(2) Cons.prems(3) by (metis diff_less run(1) zero_less_one)
      moreover have "first + (index - first - 1) = index - 1" "index - first - 1 + 1 = index - first"
        using Cons.prems(3) by simp_all
      ultimately have "prev + 1 = cs ! first + k" using Cons.prems(6) k(1) by simp
      then show ?thesis using True c(1) k(2) by simp
    qed
    then have "is_run cs (first, index + 1 - first)" using Cons.prems(3) i by (auto simp: is_run_def)
    moreover have "extents_from E fs first cluster c (index + 1) rest l = Inr exts"
      using Cons.prems(1) prev True by simp
    ultimately show ?thesis
      using Cons.IH [of first cluster c "index + 1" l rs] Cons.prems c i by simp
  qed
qed

lemma build_cluster_extents_runs:
  assumes "build_cluster_extents E fs cs = Inr exts" "checked_ok E" "disk_ok fs d" "length d \<le> UINT64_MAX"
    "fs_max_cluster fs < UINT32_MAX" "\<forall>c \<in> set cs. data_cluster fs c"
  shows "\<exists>rs. exts = map (run_extent fs cs) rs \<and> (\<forall>r \<in> set rs. is_run cs r) \<and> run_indices rs = [0..<length cs]"
proof (cases cs)
  case Nil
  then show ?thesis using assms(1) by (auto simp: build_cluster_extents_def)
next
  case (Cons c rest)
  then have run: "extents_from E fs 0 c c 1 rest [] = Inr exts" using assms(1) by (simp add: build_cluster_extents_def)
  show ?thesis
    by (rule extents_from_runs [OF run assms(2-6), where rs = "[]"]) (simp_all add: Cons is_run_def)
qed

section \<open>Reading the extents\<close>

lemma run_cluster:
  assumes "is_run cs (i, n)" "i \<le> j" "j < i + n" "\<forall>c \<in> set cs. data_cluster fs c"
  shows "cluster_at fs (cs ! j) = cluster_at fs (cs ! i) + (j - i) * fs_cluster_size fs"
proof -
  obtain k where k: "j = i + k" using assms(2) le_Suc_ex by blast
  then have "cs ! j = cs ! i + (j - i)" using assms(1,3) by (simp add: is_run_def)
  moreover have "2 \<le> cs ! i" using assms(1,4) by (auto simp: is_run_def data_cluster_def)
  ultimately show ?thesis by (simp add: cluster_at_add)
qed

text \<open>The buffer after the extents of some runs, in whatever order they were read.\<close>

definition filled :: "Fat32 \<Rightarrow> bytes \<Rightarrow> nat list \<Rightarrow> (nat \<times> nat) list \<Rightarrow> bytes \<Rightarrow> bytes \<Rightarrow> bool" where
  "filled fs d cs rs buf buf' \<longleftrightarrow> length buf' = length buf \<and>
     (\<forall>j < length cs. read_at (j * fs_cluster_size fs) (fs_cluster_size fs) buf' =
        (if j \<in> set (run_indices rs) then cluster_data fs d (cs ! j)
         else read_at (j * fs_cluster_size fs) (fs_cluster_size fs) buf))"

lemma read_extent_filled:
  assumes "read_extent E d (run_extent fs cs (i, n)) buf = Inr buf'" "io_exact E" "is_run cs (i, n)"
    and "length cs * fs_cluster_size fs \<le> length buf" "\<forall>c \<in> set cs. data_cluster fs c"
  shows "filled fs d cs [(i, n)] buf buf'"
proof -
  let ?z = "fs_cluster_size fs" and ?D = "cluster_at fs (cs ! i)"
  from assms(1) have rd: "?D + n * ?z \<le> length d" "buf' = patch buf (i * ?z) (read_at ?D (n * ?z) d)"
    using ld_pread_full_Some [OF assms(2)] by (auto simp: read_extent_def run_extent_def split: option.splits)
  have len: "length (read_at ?D (n * ?z) d) = n * ?z" using rd(1) by (simp add: buf_simps)
  have "(i + n) * ?z \<le> length cs * ?z" using assms(3) by (intro mult_le_mono1) (simp add: is_run_def)
  then have fit: "i * ?z + length (read_at ?D (n * ?z) d) \<le> length buf"
    using assms(4) len by (simp add: add_mult_distrib)
  have "read_at (j * ?z) ?z buf' = (if i \<le> j \<and> j < i + n then cluster_data fs d (cs ! j) else read_at (j * ?z) ?z buf)"
    if j: "j < length cs" for j
  proof -
    have "(j + 1) * ?z \<le> length cs * ?z" using j by (intro mult_le_mono1) simp
    then have "(j + 1) * ?z \<le> length buf" using assms(4) by linarith
    note b = block_patch [OF fit len this]
    have "read_at ((j - i) * ?z) ?z (read_at ?D (n * ?z) d) = cluster_data fs d (cs ! j)" if "i \<le> j" "j < i + n"
    proof -
      have "j - i + 1 \<le> n" using that by linarith
      then have "(j - i + 1) * ?z \<le> n * ?z" by (rule mult_le_mono1)
      then show ?thesis
        using read_at_part [OF rd(1), of "(j - i) * ?z" ?z] run_cluster [OF assms(3) that assms(5)]
        by (simp add: cluster_data_def)
    qed
    with b show ?thesis by (simp add: rd(2))
  qed
  then show ?thesis using fit by (simp add: filled_def rd(2) length_patch)
qed

lemma filled_trans:
  "filled fs d cs rs a b \<Longrightarrow> filled fs d cs rs' b c \<Longrightarrow> filled fs d cs (rs @ rs') a c"
  by (auto simp: filled_def)

lemma filled_foldE:
  assumes "foldE (read_extent E d) (map (run_extent fs cs) rs) buf = Inr buf'" "io_exact E"
    and "\<forall>r \<in> set rs. is_run cs r" "length cs * fs_cluster_size fs \<le> length buf"
    and "\<forall>c \<in> set cs. data_cluster fs c"
  shows "filled fs d cs rs buf buf'"
  using assms(1,3,4)
proof (induction rs arbitrary: buf)
  case Nil
  then show ?case by (simp add: filled_def)
next
  case (Cons r rs)
  obtain i n where r: "r = (i, n)" by (cases r)
  from Cons.prems(1) obtain b where b: "read_extent E d (run_extent fs cs r) buf = Inr b"
    "foldE (read_extent E d) (map (run_extent fs cs) rs) b = Inr buf'" by (auto simp: res_simps)
  have one: "filled fs d cs [(i, n)] buf b"
    using read_extent_filled [OF b(1) [unfolded r] assms(2) _ Cons.prems(3) assms(5)] Cons.prems(2) r by simp
  then have "length cs * fs_cluster_size fs \<le> length b" using Cons.prems(3) by (simp add: filled_def)
  with Cons.IH [OF b(2)] Cons.prems(2) have "filled fs d cs rs b buf'" by simp
  from filled_trans [OF one this] show ?case by (simp add: r)
qed

text \<open>A sorted list of extents belongs to a permutation of the runs.\<close>

lemma insert_by_map:
  "\<exists>rs'. insert_by cmp (f r) (map f rs) = map f rs' \<and> mset rs' = add_mset r (mset rs)"
proof (induction rs)
  case Nil
  show ?case by (rule exI [of _ "[r]"]) simp
next
  case (Cons x rs)
  then obtain rs' where rs': "insert_by cmp (f r) (map f rs) = map f rs'" "mset rs' = add_mset r (mset rs)" by blast
  show ?case
  proof (cases "cmp (f r) (f x) \<le> 0")
    case True
    then show ?thesis by (intro exI [of _ "r # x # rs"]) simp
  next
    case False
    with rs' show ?thesis by (intro exI [of _ "x # rs'"]) simp
  qed
qed

lemma qsort_extents: "\<exists>rs'. qsort_by cmp (map f rs) = map f rs' \<and> mset rs' = mset rs"
proof (induction rs)
  case Nil
  show ?case by (simp add: qsort_by_def)
next
  case (Cons r rs)
  then obtain rs' where rs': "qsort_by cmp (map f rs) = map f rs'" "mset rs' = mset rs" by blast
  have "qsort_by cmp (map f (r # rs)) = insert_by cmp (f r) (qsort_by cmp (map f rs))"
    by (simp add: qsort_by_def)
  with rs' insert_by_map [of cmp f r rs'] show ?case by auto
qed

lemma mset_run_indices: "mset rs' = mset rs \<Longrightarrow> set (run_indices rs') = set (run_indices rs)"
proof -
  assume "mset rs' = mset rs"
  then have "set rs' = set rs" by (metis set_mset_mset)
  then show ?thesis by (auto simp: run_indices_def)
qed

lemma read_extents_filled:
  assumes "read_extents E buf (map (run_extent fs cs) rs) config w = (Inr (buf', config'), w')" "io_exact E"
    and "\<forall>r \<in> set rs. is_run cs r" "length cs * fs_cluster_size fs \<le> length buf"
    and "\<forall>c \<in> set cs. data_cluster fs c" "run_indices rs = [0..<length cs]"
  shows "w' = w \<and> length buf' = length buf \<and>
    (\<forall>j < length cs. read_at (j * fs_cluster_size fs) (fs_cluster_size fs) buf' = cluster_data fs (w_disk w) (cs ! j))"
proof (cases "rs = []")
  case True
  then have "cs = []" using arg_cong [OF assms(6), of length] by simp
  with True show ?thesis using assms(1) by (auto simp: read_extents_def res_simps)
next
  case False
  obtain rs' where rs': "qsort_by compare_extent_disk_offset (map (run_extent fs cs) rs) = map (run_extent fs cs) rs'"
    "mset rs' = mset rs" using qsort_extents by metis
  have runs: "\<forall>r \<in> set rs'. is_run cs r" using assms(3) rs'(2) by (metis set_mset_mset)
  from assms(1) False have f: "foldE (read_extent E (w_disk w)) (map (run_extent fs cs) rs') buf = Inr buf'" "w' = w"
    by (auto simp: read_extents_def res_simps Let_def rs')
  have "set (run_indices rs') = {0..<length cs}" using mset_run_indices [OF rs'(2)] assms(6) by simp
  with filled_foldE [OF f(1) assms(2) runs assms(4,5)] f(2) show ?thesis by (simp add: filled_def)
qed

section \<open>Writing the extents\<close>

definition stored :: "Fat32 \<Rightarrow> nat list \<Rightarrow> (nat \<times> nat) list \<Rightarrow> bytes \<Rightarrow> bytes \<Rightarrow> bytes \<Rightarrow> bool" where
  "stored fs cs rs buf d d' \<longleftrightarrow> length d' = length d \<and>
     (\<forall>j \<in> set (run_indices rs). cluster_data fs d' (cs ! j) = read_at (j * fs_cluster_size fs) (fs_cluster_size fs) buf) \<and>
     (\<forall>c. data_cluster fs c \<and> c \<notin> (!) cs ` set (run_indices rs) \<longrightarrow> cluster_data fs d' c = cluster_data fs d c) \<and>
     (\<forall>x < fs_data_offset fs. d' ! x = d ! x)"

lemma write_extent_stored:
  assumes "write_extent E buf (run_extent fs cs (i, n)) config w = (Inr config', w')" "io_exact E" "is_run cs (i, n)"
    and "length cs * fs_cluster_size fs \<le> length buf" "\<forall>c \<in> set cs. data_cluster fs c" "disk_ok fs (w_disk w)"
  shows "stored fs cs [(i, n)] buf (w_disk w) (w_disk w') \<and> w_files w' = w_files w \<and> w_stop w' = w_stop w"
proof -
  let ?z = "fs_cluster_size fs" and ?d = "w_disk w" and ?o = "fs_data_offset fs"
  let ?b = "cs ! i - 2" and ?ys = "read_at (i * fs_cluster_size fs) (n * fs_cluster_size fs) buf"
  have "(i + n) * ?z \<le> length cs * ?z" using assms(3) by (intro mult_le_mono1) (simp add: is_run_def)
  then have fit: "i * ?z + n * ?z \<le> length buf" using assms(4) by (simp add: add_mult_distrib)
  then have len: "length ?ys = n * ?z" by (simp add: buf_simps)
  from assms(1) have wr: "?o + ?b * ?z + length ?ys \<le> length ?d" "w' = after_write ?ys (?o + ?b * ?z) w"
    using ld_pwrite_exact_Inr [OF assms(2)] by (auto simp: write_extent_def run_extent_def res_simps cluster_at_def)
  have head: "2 \<le> cs ! i" using assms(3,5) by (auto simp: is_run_def data_cluster_def)
  have block: "cluster_data fs (w_disk w') c =
      (if ?b \<le> c - 2 \<and> c - 2 < ?b + n then read_at ((c - 2 - ?b) * ?z) ?z ?ys else cluster_data fs ?d c)"
    if "data_cluster fs c" for c
  proof -
    have "?o + (c - 2 + 1) * ?z \<le> length ?d" using cluster_inside [OF assms(6) that] by (simp add: cluster_at_def)
    from block_patch_at [OF wr(1) len this] show ?thesis by (simp add: cluster_data_def cluster_at_def wr(2))
  qed
  have inside: "cluster_data fs (w_disk w') (cs ! j) = read_at (j * ?z) ?z buf" if j: "i \<le> j" "j < i + n" for j
  proof -
    obtain k where k: "j = i + k" using j(1) le_Suc_ex by blast
    have cj: "cs ! j = cs ! i + k" "j < length cs" using assms(3) j k by (auto simp: is_run_def)
    have "(k + 1) * ?z \<le> n * ?z" using j k by (intro mult_le_mono1) simp
    then have "read_at (k * ?z) ?z ?ys = read_at (i * ?z + k * ?z) ?z buf"
      using fit by (intro read_at_part) simp_all
    moreover have "cs ! j - 2 = ?b + k" using cj(1) head by linarith
    moreover have "data_cluster fs (cs ! j)" using cj(2) assms(5) by simp
    ultimately show ?thesis using block [of "cs ! j"] k j(2) by (simp add: add_mult_distrib)
  qed
  have outside: "cluster_data fs (w_disk w') c = cluster_data fs ?d c"
    if c: "data_cluster fs c" "c \<notin> (!) cs ` {i..<i + n}" for c
  proof -
    have "\<not> (?b \<le> c - 2 \<and> c - 2 < ?b + n)"
    proof
      assume a: "?b \<le> c - 2 \<and> c - 2 < ?b + n"
      define k where "k = c - cs ! i"
      have k: "c = cs ! i + k" "k < n" using a c(1) head by (auto simp: k_def data_cluster_def)
      then have "c = cs ! (i + k)" using assms(3) by (simp add: is_run_def)
      with c(2) k(2) show False by auto
    qed
    then show ?thesis using block [OF c(1)] by auto
  qed
  have "w_disk w' ! x = ?d ! x" if "x < ?o" for x
    using that wr(1) by (auto simp: wr(2) nth_patch)
  then show ?thesis
    using inside outside wr by (auto simp: stored_def length_patch)
qed

lemma stored_trans:
  assumes "stored fs cs rs buf d d1" "stored fs cs rs' buf d1 d2" "distinct cs"
    and "set (run_indices rs) \<subseteq> {..<length cs}" "set (run_indices rs') \<subseteq> {..<length cs}" "\<forall>c \<in> set cs. data_cluster fs c"
  shows "stored fs cs (rs @ rs') buf d d2"
proof -
  have "cluster_data fs d2 (cs ! j) = read_at (j * fs_cluster_size fs) (fs_cluster_size fs) buf"
    if j: "j \<in> set (run_indices (rs @ rs'))" for j
  proof (cases "j \<in> set (run_indices rs')")
    case True
    then show ?thesis using assms(2) by (simp add: stored_def)
  next
    case False
    then have r: "j \<in> set (run_indices rs)" "j < length cs" using j assms(4) by auto
    have "cs ! j \<notin> (!) cs ` set (run_indices rs')"
    proof
      assume "cs ! j \<in> (!) cs ` set (run_indices rs')"
      then obtain k where "k \<in> set (run_indices rs')" "cs ! j = cs ! k" by auto
      moreover from this have "k < length cs" using assms(5) by auto
      ultimately show False using False r(2) assms(3) by (simp add: nth_eq_iff_index_eq)
    qed
    then have "cluster_data fs d2 (cs ! j) = cluster_data fs d1 (cs ! j)"
      using assms(2,6) r(2) by (simp add: stored_def)
    with r(1) assms(1) show ?thesis by (simp add: stored_def)
  qed
  with assms(1,2) show ?thesis by (auto simp: stored_def image_Un)
qed

lemma stored_disk_ok: "stored fs cs rs buf d d' \<Longrightarrow> disk_ok fs d' = disk_ok fs d"
  by (simp add: stored_def disk_ok_def)

lemma run_indices_less: "\<forall>r \<in> set rs. is_run cs r \<Longrightarrow> set (run_indices rs) \<subseteq> {..<length cs}"
  by (force simp: run_indices_def is_run_def)

lemma write_fold_stored:
  assumes "foldI (write_extent E buf) (map (run_extent fs cs) rs) config w = (Inr config', w')" "io_exact E"
    and "\<forall>r \<in> set rs. is_run cs r" "length cs * fs_cluster_size fs \<le> length buf"
    and "\<forall>c \<in> set cs. data_cluster fs c" "disk_ok fs (w_disk w)" "distinct cs"
  shows "stored fs cs rs buf (w_disk w) (w_disk w') \<and> w_files w' = w_files w \<and> w_stop w' = w_stop w"
  using assms(1,3,6)
proof (induction rs arbitrary: config w)
  case Nil
  then show ?case by (simp add: stored_def res_simps)
next
  case (Cons r rs)
  obtain i n where r: "r = (i, n)" by (cases r)
  from Cons.prems(1) obtain c1 w1 where one: "write_extent E buf (run_extent fs cs r) config w = (Inr c1, w1)"
    and rest: "foldI (write_extent E buf) (map (run_extent fs cs) rs) c1 w1 = (Inr config', w')" by (auto simp: res_simps)
  have "is_run cs (i, n)" using Cons.prems(2) r by simp
  note a = write_extent_stored [OF one [unfolded r] assms(2) this assms(4,5) Cons.prems(3)]
  have "disk_ok fs (w_disk w1)" using a stored_disk_ok Cons.prems(3) by blast
  note b = Cons.IH [OF rest _ this]
  have "stored fs cs ([(i, n)] @ rs) buf (w_disk w) (w_disk w')"
    using a b Cons.prems(2) assms(5,7) run_indices_less [of rs cs] run_indices_less [of "[(i, n)]" cs] r
    by (intro stored_trans) auto
  then show ?case using a b Cons.prems(2) r by simp
qed

lemma stored_mset: "mset rs' = mset rs \<Longrightarrow> stored fs cs rs' buf d d' = stored fs cs rs buf d d'"
  using mset_run_indices [of rs' rs] unfolding stored_def by simp

lemma write_extents_stored:
  assumes "write_extents E buf (map (run_extent fs cs) rs) config w = (Inr config', w')" "io_exact E"
    and "\<forall>r \<in> set rs. is_run cs r" "length cs * fs_cluster_size fs \<le> length buf"
    and "\<forall>c \<in> set cs. data_cluster fs c" "disk_ok fs (w_disk w)" "distinct cs"
  shows "stored fs cs rs buf (w_disk w) (w_disk w') \<and> w_files w' = w_files w \<and> w_stop w' = w_stop w"
proof (cases "rs = []")
  case True
  then show ?thesis using assms(1) by (auto simp: write_extents_def res_simps stored_def)
next
  case False
  obtain rs' where rs': "qsort_by compare_extent_disk_offset (map (run_extent fs cs) rs) = map (run_extent fs cs) rs'"
    "mset rs' = mset rs" using qsort_extents by metis
  have runs: "\<forall>r \<in> set rs'. is_run cs r" using assms(3) rs'(2) by (metis set_mset_mset)
  from assms(1) False obtain c1 where
    "foldI (write_extent E buf) (map (run_extent fs cs) rs') config w = (Inr c1, w')"
    by (auto simp: write_extents_def res_simps Let_def rs')
  from write_fold_stored [OF this assms(2) runs assms(4-7)] stored_mset [OF rs'(2)] show ?thesis by blast
qed

section \<open>The copy\<close>

text \<open>\<open>copied\<close>: every destination holds what its source held, and no other cluster and no
  byte before the data region changed.\<close>

definition copied :: "Fat32 \<Rightarrow> (nat \<times> nat) list \<Rightarrow> bytes \<Rightarrow> bytes \<Rightarrow> bool" where
  "copied fs pairs d d' \<longleftrightarrow> length d' = length d \<and>
     (\<forall>(s, t) \<in> set pairs. cluster_data fs d' t = cluster_data fs d s) \<and>
     (\<forall>c. data_cluster fs c \<and> c \<notin> snd ` set pairs \<longrightarrow> cluster_data fs d' c = cluster_data fs d c) \<and>
     (\<forall>x < fs_data_offset fs. d' ! x = d ! x)"

definition copy_ok :: "Fat32 \<Rightarrow> nat list \<Rightarrow> nat list \<Rightarrow> bool" where
  "copy_ok fs srcs dsts \<longleftrightarrow> length srcs = length dsts \<and> distinct dsts \<and> set srcs \<inter> set dsts = {} \<and>
     (\<forall>c \<in> set srcs \<union> set dsts. data_cluster fs c)"

definition volume_small :: "Fat32 \<Rightarrow> bytes \<Rightarrow> bool" where
  "volume_small fs d \<longleftrightarrow> length d \<le> UINT64_MAX \<and> fs_max_cluster fs < UINT32_MAX"

lemma copy_chunk_copied:
  assumes "copy_chunk E fs srcs dsts buf config w = (Inr (buf', config'), w')" "io_exact E" "checked_ok E"
    and "disk_ok fs (w_disk w)" "volume_small fs (w_disk w)" "copy_ok fs srcs dsts"
    and "length srcs * fs_cluster_size fs \<le> length buf"
  shows "copied fs (zip srcs dsts) (w_disk w) (w_disk w') \<and> length buf' = length buf \<and>
    w_files w' = w_files w \<and> w_stop w' = w_stop w"
proof -
  have vol: "length (w_disk w) \<le> UINT64_MAX" "fs_max_cluster fs < UINT32_MAX" using assms(5) by (simp_all add: volume_small_def)
  have data: "\<forall>c \<in> set srcs. data_cluster fs c" "\<forall>c \<in> set dsts. data_cluster fs c" and len: "length srcs = length dsts"
    and dis: "distinct dsts"
    using assms(6) by (auto simp: copy_ok_def)
  from assms(1) obtain se de w1 where st: "build_cluster_extents E fs srcs = Inr se" "build_cluster_extents E fs dsts = Inr de"
    and rd: "\<exists>c1. read_extents E buf se config w = (Inr (buf', c1), w1) \<and> write_extents E buf' de c1 w1 = (Inr config', w')"
    by (auto simp: copy_chunk_def res_simps)
  obtain rs where rs: "se = map (run_extent fs srcs) rs" "\<forall>r \<in> set rs. is_run srcs r" "run_indices rs = [0..<length srcs]"
    using build_cluster_extents_runs [OF st(1) assms(3,4) vol data(1)] by blast
  obtain ds where ds: "de = map (run_extent fs dsts) ds" "\<forall>r \<in> set ds. is_run dsts r" "run_indices ds = [0..<length dsts]"
    using build_cluster_extents_runs [OF st(2) assms(3,4) vol data(2)] by blast
  from rd obtain c1 where c1: "read_extents E buf se config w = (Inr (buf', c1), w1)"
    "write_extents E buf' de c1 w1 = (Inr config', w')" by blast
  note r = read_extents_filled [OF c1(1) [unfolded rs(1)] assms(2) rs(2) assms(7) data(1) rs(3)]
  have w1: "w1 = w" using r by simp
  have "length dsts * fs_cluster_size fs \<le> length buf'" using r assms(7) len by simp
  from write_extents_stored [OF c1(2) [unfolded ds(1) w1] assms(2) ds(2) this data(2) assms(4) dis]
  have s: "stored fs dsts ds buf' (w_disk w) (w_disk w')" "w_files w' = w_files w" "w_stop w' = w_stop w" by auto
  have "cluster_data fs (w_disk w') t = cluster_data fs (w_disk w) c" if "(c, t) \<in> set (zip srcs dsts)" for c t
  proof -
    from that obtain j where "j < length srcs" "c = srcs ! j" "t = dsts ! j" by (auto simp: in_set_zip)
    with r s(1) ds(3) len show ?thesis by (simp add: stored_def)
  qed
  moreover have "(!) dsts ` set (run_indices ds) = snd ` set (zip srcs dsts)"
    using len by (metis ds(3) map_snd_zip set_map map_nth)
  ultimately show ?thesis using s r unfolding copied_def stored_def by auto
qed

lemma copied_disk_ok: "copied fs ps d d' \<Longrightarrow> disk_ok fs d' = disk_ok fs d"
  by (simp add: copied_def disk_ok_def)

lemma copied_trans:
  assumes "copied fs ps d d1" "copied fs qs d1 d2" "\<forall>(s, t) \<in> set ps \<union> set qs. data_cluster fs s \<and> data_cluster fs t"
    and "snd ` set ps \<inter> snd ` set qs = {}" "fst ` set qs \<inter> snd ` set ps = {}"
  shows "copied fs (ps @ qs) d d2"
proof -
  have "cluster_data fs d2 t = cluster_data fs d s" if st: "(s, t) \<in> set (ps @ qs)" for s t
  proof (cases "(s, t) \<in> set ps")
    case True
    then have "t \<notin> snd ` set qs" "data_cluster fs t" using assms(3,4) by force+
    then have "cluster_data fs d2 t = cluster_data fs d1 t" using assms(2) by (simp add: copied_def)
    with True assms(1) show ?thesis by (auto simp: copied_def)
  next
    case False
    then have q: "(s, t) \<in> set qs" using st by simp
    then have "s \<notin> snd ` set ps" "data_cluster fs s" using assms(3,5) by force+
    then have "cluster_data fs d1 s = cluster_data fs d s" using assms(1) by (simp add: copied_def)
    with q assms(2) show ?thesis by (auto simp: copied_def)
  qed
  with assms(1,2) show ?thesis by (auto simp: copied_def image_Un)
qed

lemma zip_sets: "snd ` set (zip xs ys) \<subseteq> set ys" "fst ` set (zip xs ys) \<subseteq> set xs"
  by (auto dest: set_zip_rightD set_zip_leftD)

lemma copy_chunks_copied:
  assumes "copy_chunks E fs n srcs dsts buf config w = (Inr config', w')" "io_exact E" "checked_ok E" "0 < n"
    and "disk_ok fs (w_disk w)" "volume_small fs (w_disk w)" "copy_ok fs srcs dsts" "n * fs_cluster_size fs \<le> length buf"
  shows "copied fs (zip srcs dsts) (w_disk w) (w_disk w') \<and> w_files w' = w_files w \<and> w_stop w' = w_stop w"
  using assms(1,5-)
proof (induction "length srcs" arbitrary: srcs dsts buf config w rule: less_induct)
  case less
  show ?case
  proof (cases "srcs = []")
    case True
    then show ?thesis using less.prems(1) by (simp add: copy_chunks.simps [of E fs n] res_simps copied_def)
  next
    case False
    let ?s = "take n srcs" and ?t = "take n dsts"
    from less.prems(1) False assms(4) obtain b1 c1 w1 where one: "copy_chunk E fs ?s ?t buf config w = (Inr (b1, c1), w1)"
      and rest: "copy_chunks E fs n (drop n srcs) (drop n dsts) b1 c1 w1 = (Inr config', w')"
      by (auto simp: copy_chunks.simps [of E fs n srcs] res_simps)
    have ok: "copy_ok fs ?s ?t" "copy_ok fs (drop n srcs) (drop n dsts)"
      using less.prems(4) by (auto simp: copy_ok_def dest: in_set_takeD in_set_dropD)
    have "length ?s * fs_cluster_size fs \<le> n * fs_cluster_size fs" by (intro mult_le_mono1) simp
    then have "length ?s * fs_cluster_size fs \<le> length buf" using less.prems(5) by linarith
    note a = copy_chunk_copied [OF one assms(2,3) less.prems(2,3) ok(1) this]
    have w1: "disk_ok fs (w_disk w1)" "volume_small fs (w_disk w1)" "n * fs_cluster_size fs \<le> length b1"
      using a less.prems(2,3,5) copied_disk_ok by (auto simp: volume_small_def copied_def)
    have "length (drop n srcs) < length srcs" using False assms(4) by simp
    note b = less.hyps [OF this rest w1(1,2) ok(2) w1(3)]
    have "copied fs (zip ?s ?t @ zip (drop n srcs) (drop n dsts)) (w_disk w) (w_disk w')"
    proof (rule copied_trans)
      show "copied fs (zip ?s ?t) (w_disk w) (w_disk w1)" using a by simp
      show "copied fs (zip (drop n srcs) (drop n dsts)) (w_disk w1) (w_disk w')" using b by simp
      show "\<forall>(s, t) \<in> set (zip ?s ?t) \<union> set (zip (drop n srcs) (drop n dsts)). data_cluster fs s \<and> data_cluster fs t"
        using ok by (auto simp: copy_ok_def dest: set_zip_leftD set_zip_rightD)
      have "set ?t \<inter> set (drop n dsts) = {}" using less.prems(4) by (simp add: copy_ok_def set_take_disj_set_drop_if_distinct)
      then show "snd ` set (zip ?s ?t) \<inter> snd ` set (zip (drop n srcs) (drop n dsts)) = {}"
        using zip_sets(1) [of ?s ?t] zip_sets(1) [of "drop n srcs" "drop n dsts"] by blast
      have "set (drop n srcs) \<inter> set ?t = {}"
        using less.prems(4) by (auto simp: copy_ok_def dest: in_set_takeD in_set_dropD)
      then show "fst ` set (zip (drop n srcs) (drop n dsts)) \<inter> snd ` set (zip ?s ?t) = {}"
        using zip_sets(1) [of ?s ?t] zip_sets(2) [of "drop n srcs" "drop n dsts"] by blast
    qed
    moreover have "zip ?s ?t @ zip (drop n srcs) (drop n dsts) = zip srcs dsts"
      by (metis append_take_drop_id take_zip drop_zip)
    ultimately show ?thesis using a b by simp
  qed
qed

lemma copy_clusters_copied:
  assumes "fat_io_copy_clusters E fs srcs dsts config w = (Inr config', w')" "io_exact E" "checked_ok E"
    and "disk_ok fs (w_disk w)" "volume_small fs (w_disk w)" "copy_ok fs srcs dsts"
  shows "copied fs (zip srcs dsts) (w_disk w) (w_disk w') \<and> w_files w' = w_files w \<and> w_stop w' = w_stop w"
proof (cases "srcs = []")
  case True
  then show ?thesis using assms(1) by (simp add: fat_io_copy_clusters_def res_simps copied_def)
next
  case False
  let ?n = "chunk_clusters config fs (length srcs)"
  have n: "0 < ?n" using False by (simp add: chunk_clusters_def Let_def)
  have "copy_chunks E fs ?n srcs dsts (replicate (?n * fs_cluster_size fs) 0) config w = (Inr config', w')"
    using assms(1) False by (auto simp: fat_io_copy_clusters_def Let_def res_simps split: if_splits)
  from copy_chunks_copied [OF this assms(2,3) n assms(4-6)] show ?thesis by simp
qed

end
