(* ===== verification/FatCopyProps.thy ===== *)
theory FatCopyProps
  imports FatCopy
begin

text \<open>Properties of \<open>fat_io.c\<close>: the pool of reader threads and the copy of clusters.\<close>

section \<open>The worker pool\<close>

inductive_cases worker_step: "read_extent_worker E d extents q q'"

definition worker_weight :: "worker \<Rightarrow> nat" where
  "worker_weight w = (case w of Idle \<Rightarrow> 1 | Reading i \<Rightarrow> 2 | Finished \<Rightarrow> 0)"

definition pool_measure :: "IoExtent list \<Rightarrow> ReadQueue \<Rightarrow> nat" where
  "pool_measure extents q = 2 * (length extents - rq_next q) + sum_list (map worker_weight (rq_workers q))"

lemma sum_list_change:
  "k < length xs \<Longrightarrow> sum_list (map f (xs[k := x])) + f (xs ! k) = sum_list (map f xs) + (f x :: nat)"
proof (induction xs arbitrary: k)
  case (Cons y ys)
  then show ?case by (cases k) (auto simp: add.commute add.left_commute)
qed simp

lemma pool_step_decreases:
  assumes "read_extent_worker E d extents q q'"
  shows "pool_measure extents q' < pool_measure extents q"
  using assms
proof (cases rule: read_extent_worker.cases)
  case (take_index k)
  show ?thesis
    using sum_list_change [OF take_index(2), of worker_weight Finished] take_index(3)
      sum_list_change [OF take_index(2), of worker_weight "Reading (rq_next q)"]
    by (auto simp: take_index(1) pool_measure_def worker_weight_def)
next
  case (read_done k i buffer)
  show ?thesis
    using sum_list_change [OF read_done(2), of worker_weight Idle] read_done(3)
    by (simp add: read_done(1) pool_measure_def worker_weight_def)
next
  case (read_failed k i e)
  show ?thesis
    using sum_list_change [OF read_failed(2), of worker_weight Finished] read_failed(3)
    by (simp add: read_failed(1) pool_measure_def worker_weight_def)
qed

lemma pool_not_stuck:
  assumes "\<not> pool_joined q"
  shows "\<exists>q'. read_extent_worker E d extents q q'"
proof -
  obtain k where k: "k < length (rq_workers q)" "rq_workers q ! k \<noteq> Finished"
    using assms by (auto simp: pool_joined_def in_set_conv_nth)
  show ?thesis
  proof (cases "rq_workers q ! k")
    case Idle
    then show ?thesis using k(1) read_extent_worker.take_index by blast
  next
    case (Reading i)
    then show ?thesis
      using k(1) read_extent_worker.read_done read_extent_worker.read_failed
      by (cases "read_extent E d (extents ! i) (rq_buffer q)") blast+
  qed (use k in simp)
qed

text \<open>What holds in every state of the pool over the extents of some runs.\<close>

definition run_done :: "Fat32 \<Rightarrow> bytes \<Rightarrow> nat list \<Rightarrow> nat \<times> nat \<Rightarrow> bytes \<Rightarrow> bool" where
  "run_done fs d cs r buf \<longleftrightarrow> (case r of (i, n) \<Rightarrow> \<forall>j. i \<le> j \<and> j < i + n \<longrightarrow>
     read_at (j * fs_cluster_size fs) (fs_cluster_size fs) buf = cluster_data fs d (cs ! j))"

definition pool_inv :: "Fat32 \<Rightarrow> bytes \<Rightarrow> nat list \<Rightarrow> (nat \<times> nat) list \<Rightarrow> nat \<Rightarrow> ReadQueue \<Rightarrow> bool" where
  "pool_inv fs d cs rs n q \<longleftrightarrow> length (rq_buffer q) = n \<and>
     (\<forall>i. Reading i \<in> set (rq_workers q) \<longrightarrow> i < length rs) \<and>
     (Finished \<in> set (rq_workers q) \<longrightarrow> rq_error q \<or> length rs \<le> rq_next q) \<and>
     (\<forall>i < length rs. i < rq_next q \<longrightarrow>
        rq_error q \<or> Reading i \<in> set (rq_workers q) \<or> run_done fs d cs (rs ! i) (rq_buffer q))"

lemma in_set_update: "x \<in> set (xs[k := y]) \<Longrightarrow> x = y \<or> x \<in> set xs"
  using set_update_subset_insert [of xs k y] by auto

lemma kept_in_update: "x \<in> set xs \<Longrightarrow> k < length xs \<Longrightarrow> x \<noteq> xs ! k \<Longrightarrow> x \<in> set (xs[k := y])"
  by (metis in_set_conv_nth length_list_update nth_list_update_neq)

lemma pool_inv_step:
  assumes "read_extent_worker E d (map (run_extent fs cs) rs) q q'" "pool_inv fs d cs rs n q" "io_exact E"
    and "\<forall>r \<in> set rs. is_run cs r" "length cs * fs_cluster_size fs \<le> n" "\<forall>c \<in> set cs. data_cluster fs c"
  shows "pool_inv fs d cs rs n q'"
  using assms(1)
proof (cases rule: read_extent_worker.cases)
  case (take_index k)
  note q' = take_index(1) and k = take_index(2,3)
  show ?thesis
    using assms(2) k set_update_memI [OF k(1)] kept_in_update [OF _ k(1)]
    by (auto simp: q' pool_inv_def less_Suc_eq dest!: in_set_update split: if_splits)
next
  case (read_done k i buffer)
  note q' = read_done(1) and k = read_done(2,3) and rd = read_done(4)
  have i: "i < length rs" using assms(2) k by (auto simp: pool_inv_def dest: nth_mem)
  obtain a b where r: "rs ! i = (a, b)" by (cases "rs ! i")
  have run: "is_run cs (a, b)" using assms(4) i r by (metis nth_mem)
  have "length cs * fs_cluster_size fs \<le> length (rq_buffer q)" using assms(2,5) by (simp add: pool_inv_def)
  from read_extent_filled [OF _ assms(3) run this assms(6)] rd i r
  have f: "filled fs d cs [(a, b)] (rq_buffer q) buffer" by simp
  have in_cs: "j < length cs" if "x < length rs" "rs ! x = (a', b')" "a' \<le> j" "j < a' + b'" for x a' b' j
  proof -
    have "is_run cs (a', b')" using assms(4) that by (metis nth_mem)
    then show ?thesis using that by (simp add: is_run_def)
  qed
  have "run_done fs d cs (rs ! i) buffer"
    using f in_cs [OF i r] by (auto simp: run_done_def r filled_def)
  moreover have "run_done fs d cs (rs ! x) buffer" if "run_done fs d cs (rs ! x) (rq_buffer q)" "x < length rs" for x
    using that f in_cs [OF that(2)] by (auto simp: run_done_def filled_def)
  ultimately have "rq_error q \<or> Reading x \<in> set ((rq_workers q)[k := Idle]) \<or> run_done fs d cs (rs ! x) buffer"
    if "x < length rs" "x < rq_next q" for x
    using that assms(2) kept_in_update [OF _ k(1), of "Reading x"] k(2) by (cases "x = i") (auto simp: pool_inv_def)
  then show ?thesis
    using assms(2) f by (auto simp: q' pool_inv_def filled_def dest!: in_set_update)
next
  case (read_failed k i e)
  show ?thesis using assms(2) by (auto simp: read_failed(1) pool_inv_def dest!: in_set_update)
qed

lemma pool_inv_start: "pool_inv fs d cs rs (length buf) (start_queue workers buf)"
  by (simp add: pool_inv_def start_queue_def)

lemma pool_inv_reachable:
  assumes "(read_extent_worker E d (map (run_extent fs cs) rs))\<^sup>*\<^sup>* (start_queue workers buf) q" "io_exact E"
    and "\<forall>r \<in> set rs. is_run cs r" "length cs * fs_cluster_size fs \<le> length buf" "\<forall>c \<in> set cs. data_cluster fs c"
  shows "pool_inv fs d cs rs (length buf) q \<and> length (rq_workers q) = workers"
  using assms(1)
proof (induction rule: rtranclp_induct)
  case base
  show ?case using pool_inv_start by (auto simp: start_queue_def)
next
  case (step y z)
  have "length (rq_workers z) = length (rq_workers y)" using step(2) by (auto elim!: worker_step)
  then show ?case using pool_inv_step [OF step(2) _ assms(2-5)] step.IH by simp
qed

lemma run_done_all:
  assumes "\<forall>i < length rs. run_done fs d cs (rs ! i) buf" "j \<in> set (run_indices rs)"
  shows "read_at (j * fs_cluster_size fs) (fs_cluster_size fs) buf = cluster_data fs d (cs ! j)"
proof -
  from assms(2) obtain a b where r: "(a, b) \<in> set rs" "a \<le> j" "j < a + b" by (auto simp: run_indices_def)
  then obtain i where "i < length rs" "rs ! i = (a, b)" by (metis in_set_conv_nth)
  with assms(1) r show ?thesis by (auto simp: run_done_def)
qed

section \<open>An example copy\<close>

definition demo_config :: FatIoConfig where
  "demo_config = \<lparr>io_ram_limit = 4096, io_workers = 1, io_rotational = False, io_serial_flash = False,
     io_bytes_read = 0, io_bytes_written = 0, io_read_extents = 0, io_write_extents = 0\<rparr>"

lemma demo_extents:
  "build_cluster_extents ref_env demo_fs [2, 3] =
     Inr [\<lparr>ext_disk_offset = 1536, ext_buffer_offset = 0, ext_length = 1024\<rparr>]"
  "build_cluster_extents ref_env demo_fs [2] =
     Inr [\<lparr>ext_disk_offset = 1536, ext_buffer_offset = 0, ext_length = 512\<rparr>]"
  "build_cluster_extents ref_env demo_fs [3] =
     Inr [\<lparr>ext_disk_offset = 2048, ext_buffer_offset = 0, ext_length = 512\<rparr>]"
  by (simp_all add: build_cluster_extents_def close_extent_def u32_id ref_env_def cluster_offset_def u64_id extent_list_push_def)

lemma demo_volume_small: "volume_small demo_fs demo_disk"
  by (simp add: volume_small_def)

lemma demo_data: "data_cluster demo_fs c \<longleftrightarrow> c = 2 \<or> c = 3"
  by (auto simp: data_cluster_def)

lemma demo_copy:
  "\<exists>config' w'. fat_io_copy_clusters ref_env demo_fs [2] [3] demo_config demo_world = (Inr config', w')"
proof -
  define x where "x = read_at 1536 512 demo_disk"
  have x: "length x = 512" by (simp add: x_def buf_simps)
  have d: "w_disk demo_world = demo_disk" by (simp add: demo_world_def)
  have rd: "ld_pread_full ref_env demo_disk 512 1536 = Some x"
    by (simp add: ld_pread_full_def ref_env_def x_def)
  have fill: "patch (replicate 512 0) 0 x = x" "read_at 0 512 x = x" using x by (simp_all add: patch_def read_at_def)
  have wr: "ld_pwrite_exact ref_env x 2048 what demo_world = (Inr (), after_write x 2048 demo_world)" for what
    by (rule ld_pwrite_exact_total) (simp_all add: x d)
  show ?thesis
    by (simp add: fat_io_copy_clusters_def demo_config_def chunk_clusters_def copy_chunks.simps copy_chunk_def
      demo_extents read_extents_def write_extents_def qsort_by_def read_extent_def write_extent_def
      bindI_def retI_def readI_def thenI_def Let_def d rd fill wr)
qed

lemma demo_pool:
  "\<exists>q. (read_extent_worker ref_env demo_disk (qsort_by compare_extent_disk_offset
        [\<lparr>ext_disk_offset = 1536, ext_buffer_offset = 0, ext_length = 1024\<rparr>]))\<^sup>*\<^sup>*
      (start_queue 1 (replicate 1024 0)) q \<and> pool_joined q \<and> \<not> rq_error q"
proof -
  let ?x = "\<lparr>ext_disk_offset = 1536, ext_buffer_offset = 0, ext_length = 1024\<rparr>"
  define buf where "buf = patch (replicate 1024 0) 0 (read_at 1536 1024 demo_disk)"
  have rd: "read_extent ref_env demo_disk ?x (replicate 1024 0) = Inr buf"
    by (simp add: read_extent_def ld_pread_full_def ref_env_def buf_def)
  define q where "q = (\<lambda>b n w. \<lparr>rq_buffer = b, rq_next = n, rq_error = False, rq_workers = [w]\<rparr>)"
  let ?step = "read_extent_worker ref_env demo_disk [?x]"
  have "?step (q (replicate 1024 0) 0 Idle) (q (replicate 1024 0) 1 (Reading 0))"
    using read_extent_worker.take_index [of 0 "q (replicate 1024 0) 0 Idle" ref_env demo_disk "[?x]"] by (simp add: q_def)
  moreover have "?step (q (replicate 1024 0) 1 (Reading 0)) (q buf 1 Idle)"
    using read_extent_worker.read_done [of 0 "q (replicate 1024 0) 1 (Reading 0)" 0 ref_env demo_disk "[?x]" buf] rd
    by (simp add: q_def)
  moreover have "?step (q buf 1 Idle) (q buf 2 Finished)"
    using read_extent_worker.take_index [of 0 "q buf 1 Idle" ref_env demo_disk "[?x]"] by (simp add: q_def numeral_2_eq_2)
  ultimately have "?step\<^sup>*\<^sup>* (q (replicate 1024 0) 0 Idle) (q buf 2 Finished)"
    by (meson rtranclp.rtrancl_into_rtrancl rtranclp.rtrancl_refl)
  then show ?thesis
    by (intro exI [of _ "q buf 2 Finished"]) (simp add: q_def start_queue_def qsort_by_def pool_joined_def)
qed

section \<open>Properties\<close>

text \<open>C22. The reader threads agree with one reader: whatever number of threads takes the
  extents of a cluster list from the queue, and in whatever order their reads finish, when
  all have ended without an error every block of the buffer holds the cluster with its
  index in the list.\<close>

theorem pool_reads_all_clusters:
  assumes "io_exact E" "checked_ok E" "disk_ok fs d" "volume_small fs d" "\<forall>c \<in> set cs. data_cluster fs c"
    and "build_cluster_extents E fs cs = Inr extents" "length cs * fs_cluster_size fs \<le> length buf"
    and "(read_extent_worker E d (qsort_by compare_extent_disk_offset extents))\<^sup>*\<^sup>*
           (start_queue (pool_size config extents) buf) q"
    and "pool_joined q" "\<not> rq_error q" "j < length cs"
  shows "read_at (j * fs_cluster_size fs) (fs_cluster_size fs) (rq_buffer q) = cluster_data fs d (cs ! j)"
proof -
  have vol: "length d \<le> UINT64_MAX" "fs_max_cluster fs < UINT32_MAX" using assms(4) by (simp_all add: volume_small_def)
  obtain rs where rs: "extents = map (run_extent fs cs) rs" "\<forall>r \<in> set rs. is_run cs r" "run_indices rs = [0..<length cs]"
    using build_cluster_extents_runs [OF assms(6,2,3) vol assms(5)] by blast
  obtain rs' where rs': "qsort_by compare_extent_disk_offset extents = map (run_extent fs cs) rs'" "mset rs' = mset rs"
    using qsort_extents rs(1) by metis
  have runs: "\<forall>r \<in> set rs'. is_run cs r" using rs(2) rs'(2) by (metis set_mset_mset)
  note inv = pool_inv_reachable [OF assms(8) [unfolded rs'(1)] assms(1) runs assms(7,5)]
  have "rq_workers q \<noteq> []" using inv by (auto simp: pool_size_def Let_def split: if_splits)
  then have "Finished \<in> set (rq_workers q)" using assms(9) by (cases "rq_workers q") (auto simp: pool_joined_def)
  then have "\<forall>i < length rs'. run_done fs d cs (rs' ! i) (rq_buffer q)"
    using inv assms(9,10) by (auto simp: pool_inv_def pool_joined_def)
  moreover have "j \<in> set (run_indices rs')" using mset_run_indices [OF rs'(2)] rs(3) assms(11) by simp
  ultimately show ?thesis by (rule run_done_all)
qed

theorem pool_reads_all_clusters_witness:
  "\<exists>q. pool_joined q \<and> read_at 512 512 (rq_buffer q) = cluster_data demo_fs demo_disk 3"
proof -
  obtain q where q: "(read_extent_worker ref_env demo_disk (qsort_by compare_extent_disk_offset
        [\<lparr>ext_disk_offset = 1536, ext_buffer_offset = 0, ext_length = 1024\<rparr>]))\<^sup>*\<^sup>*
      (start_queue 1 (replicate 1024 0)) q" "pool_joined q" "\<not> rq_error q" using demo_pool by blast
  have one: "pool_size demo_config [\<lparr>ext_disk_offset = 1536, ext_buffer_offset = 0, ext_length = 1024\<rparr>] = 1"
    by (simp add: pool_size_def demo_config_def)
  have "read_at (1 * fs_cluster_size demo_fs) (fs_cluster_size demo_fs) (rq_buffer q) =
      cluster_data demo_fs demo_disk ([2, 3] ! 1)"
    by (rule pool_reads_all_clusters [OF io_exact_ref checked_ok_ref demo_ok(1) demo_volume_small _ demo_extents(1),
        where config = demo_config and buf = "replicate 1024 0"])
      (use q one in \<open>simp_all add: demo_data\<close>)
  with q(2) show ?thesis by auto
qed


text \<open>C14. A completed copy is exact: every destination cluster holds what its source held
  before the copy, whatever the buffer size and however the lists fall into extents; no
  other cluster, no byte before the data region and no host file changed.\<close>

theorem copy_clusters_exact:
  assumes "fat_io_copy_clusters E fs srcs dsts config w = (Inr config', w')" "io_exact E" "checked_ok E"
    and "disk_ok fs (w_disk w)" "volume_small fs (w_disk w)"
    and "length srcs = length dsts" "distinct dsts" "set srcs \<inter> set dsts = {}"
    and "\<forall>c \<in> set srcs \<union> set dsts. data_cluster fs c"
  shows "(\<forall>j < length dsts. cluster_data fs (w_disk w') (dsts ! j) = cluster_data fs (w_disk w) (srcs ! j)) \<and>
    (\<forall>c. data_cluster fs c \<and> c \<notin> set dsts \<longrightarrow> cluster_data fs (w_disk w') c = cluster_data fs (w_disk w) c) \<and>
    (\<forall>x < fs_data_offset fs. w_disk w' ! x = w_disk w ! x) \<and> w_files w' = w_files w"
proof -
  have ok: "copy_ok fs srcs dsts" using assms(6-9) by (simp add: copy_ok_def)
  have c: "copied fs (zip srcs dsts) (w_disk w) (w_disk w')" "w_files w' = w_files w"
    using copy_clusters_copied [OF assms(1-5) ok] by auto
  have "(srcs ! j, dsts ! j) \<in> set (zip srcs dsts)" if "j < length dsts" for j
    using that assms(6) by (metis length_zip min.idem nth_mem nth_zip)
  moreover have "snd ` set (zip srcs dsts) = set dsts" using assms(6) by (metis map_snd_zip set_map)
  ultimately show ?thesis using c by (fastforce simp: copied_def)
qed


theorem copy_clusters_exact_witness:
  "\<exists>config' w'. fat_io_copy_clusters ref_env demo_fs [2] [3] demo_config demo_world = (Inr config', w') \<and>
     cluster_data demo_fs (w_disk w') 3 = cluster_data demo_fs demo_disk 2"
proof -
  have d: "w_disk demo_world = demo_disk" by (simp add: demo_world_def)
  obtain config' w' where run: "fat_io_copy_clusters ref_env demo_fs [2] [3] demo_config demo_world = (Inr config', w')"
    using demo_copy by blast
  from copy_clusters_exact [OF run io_exact_ref checked_ok_ref] demo_ok(1) demo_volume_small
  have "cluster_data demo_fs (w_disk w') 3 = cluster_data demo_fs demo_disk 2" by (simp add: d demo_data)
  with run show ?thesis by blast
qed

end
