(* ===== verification/HostFiles.thy ===== *)
theory HostFiles
  imports LdCore TextFormat
begin

text \<open>
  The host files of the engines, their journals: lines of the form \<open>key=value\<close>, replaced
  atomically and removed durably by Infiltratr Common, whose success at each moment is a
  field of the environment. At the end the result events of \<open>ld_protocol.c\<close>.
\<close>

section \<open>Files\<close>

definition field_line :: "string \<Rightarrow> string \<Rightarrow> string" where
  "field_line key value = key @ ''='' @ value @ [NL]"

text \<open>\<open>infiltratr_atomic_file_write\<close> and \<open>infiltratr_unlink_durable\<close>.\<close>

definition atomic_file_write :: "env \<Rightarrow> string \<Rightarrow> string \<Rightarrow> string \<Rightarrow> unit io" where
  "atomic_file_write E path contents what w =
     (if file_write_ok E (length (w_trace w))
      then (Inr (), w\<lparr>w_files := (w_files w)(path \<mapsto> contents), w_trace := w_trace w @ [EvFile path contents]\<rparr>)
      else (Inl (DieErrno what), w))"

definition path_exists :: "string \<Rightarrow> bool io" where
  "path_exists path w = (Inr (w_files w path \<noteq> None), w)"

text \<open>The lines \<open>getline\<close> returns, each with its newline when it has one.\<close>

fun file_lines :: "string \<Rightarrow> string list" where
  "file_lines [] = []"
| "file_lines (c # rest) =
     (if c = NL then [NL] # file_lines rest
      else case file_lines rest of
        [] \<Rightarrow> [[c]]
      | line # others \<Rightarrow> (c # line) # others)"

definition open_file :: "string \<Rightarrow> string \<Rightarrow> string io" where
  "open_file path what w =
     (case w_files w path of None \<Rightarrow> (Inl (DieErrno what), w) | Some text \<Rightarrow> (Inr text, w))"

section \<open>Lines and values\<close>

text \<open>A value that no reader of \<open>key=value\<close> lines trims or cuts.\<close>

definition clean_value :: "string \<Rightarrow> bool" where
  "clean_value v \<longleftrightarrow> v \<noteq> [] \<and> hd v \<noteq> CHR '' '' \<and> List.last v \<noteq> CHR '' '' \<and>
     (\<forall>c \<in> set v. 32 \<le> (of_char c :: nat) \<and> c \<notin> {CHR ''#'', CHR '';''})"

lemma dec_not_Nil [simp]: "dec n \<noteq> []"
  by (simp add: dec_def)

lemma clean_digits: "v \<noteq> [] \<Longrightarrow> set v \<subseteq> set ''0123456789abcdef,'' \<Longrightarrow> clean_value v"
proof -
  assume v: "v \<noteq> []" "set v \<subseteq> set ''0123456789abcdef,''"
  then have "hd v \<in> set ''0123456789abcdef,''" "List.last v \<in> set ''0123456789abcdef,''"
    using hd_in_set last_in_set by blast+
  then have "hd v \<noteq> CHR '' ''" "List.last v \<noteq> CHR '' ''" by auto
  moreover have "32 \<le> (of_char c :: nat) \<and> c \<notin> {CHR ''#'', CHR '';''}" if "c \<in> set v" for c
  proof -
    have "c \<in> set ''0123456789abcdef,''" using that v(2) by blast
    then show ?thesis by auto
  qed
  ultimately show ?thesis using v(1) by (simp add: clean_value_def)
qed

lemma dec_set: "set (dec n) \<subseteq> set ''0123456789abcdef,''"
proof
  fix c assume "c \<in> set (dec n)"
  from dec_chars [OF this] show "c \<in> set ''0123456789abcdef,''" by (elim set_ConsD [elim_format] disjE) auto
qed

lemma clean_dec [simp]: "clean_value (dec n)"
  by (intro clean_digits dec_set) simp

lemma file_lines_step: "NL \<notin> set l \<Longrightarrow> file_lines (l @ NL # rest) = (l @ [NL]) # file_lines rest"
  by (induction l) (simp_all add: eq_commute [of NL])

lemma clean_no_newline: "clean_value v \<Longrightarrow> NL \<notin> set v"
proof
  assume "clean_value v" "NL \<in> set v"
  then have "32 \<le> (of_char NL :: nat)" unfolding clean_value_def by blast
  then show False by simp
qed

section \<open>Result events\<close>

text \<open>\<open>ld_protocol.c\<close>; \<open>None\<close> is the \<open>-1\<close> return, after which nothing has been printed.\<close>

definition ld_emit_result_event :: "env \<Rightarrow> string \<Rightarrow> string \<Rightarrow> string \<Rightarrow> string option" where
  "ld_emit_result_event E operation status message =
     (case (escape_json E operation, escape_json E status, escape_json E message) of
        (Some operation, Some status, Some message) \<Rightarrow>
          Some (''@@RESULT {'' @ json_quoted ''operation'' @ '':'' @ json_quoted operation @ '','' @
                json_quoted ''status'' @ '':'' @ json_quoted status @ '','' @
                json_quoted ''message'' @ '':'' @ json_quoted message @ ''}'' @ [NL])
      | _ \<Rightarrow> None)"

definition result_event :: "env \<Rightarrow> string \<Rightarrow> string \<Rightarrow> string" where
  "result_event E operation status =
     (case ld_emit_result_event E operation status '''' of None \<Rightarrow> '''' | Some text \<Rightarrow> text)"

end
