(* ===== verification/FatJournal.thy ===== *)
theory FatJournal
  imports FatLoad HostFiles
begin

text \<open>
  \<open>fat_journal.c\<close>: the text form of the relocation journals. A journal is a host file of
  the world; it is replaced atomically and removed durably by Infiltratr Common, whose
  success at each moment is a field of the environment. Journal text holds no NUL.
\<close>

abbreviation JOURNAL_MAGIC :: string where "JOURNAL_MAGIC \<equiv> ''LINUX-DEFRAGGER-JOURNAL-1''"
abbreviation RELOCATION_JOURNAL_MAGIC :: string where
  "RELOCATION_JOURNAL_MAGIC \<equiv> ''LINUX-DEFRAGGER-RELOCATION-JOURNAL-1''"

datatype JournalStage = J_PREPARED | J_DATA_COPIED | J_DEST_LINKED | J_SWITCHED | J_OLD_FREED

fun stage_number :: "JournalStage \<Rightarrow> nat" where
  "stage_number J_PREPARED = 0"
| "stage_number J_DATA_COPIED = 1"
| "stage_number J_DEST_LINKED = 2"
| "stage_number J_SWITCHED = 3"
| "stage_number J_OLD_FREED = 4"

definition stage_of_number :: "nat \<Rightarrow> JournalStage" where
  "stage_of_number n =
     (if n = 0 then J_PREPARED else if n = 1 then J_DATA_COPIED else if n = 2 then J_DEST_LINKED
      else if n = 3 then J_SWITCHED else J_OLD_FREED)"

record Journal =
  jl_device_path :: "string option"
  jl_volume_id :: nat
  jl_stage :: JournalStage
  jl_dirent_offset :: nat
  jl_old_first :: nat
  jl_dest_start :: nat
  jl_source :: "nat list"

record RelocationMove =
  mv_source :: nat
  mv_destination :: nat
  mv_next :: nat
  mv_predecessor :: nat

record RelocationDirPatch =
  dp_offset :: nat
  dp_old_target :: nat
  dp_new_target :: nat

record RelocationJournal =
  rj_device_path :: "string option"
  rj_volume_id :: nat
  rj_stage :: JournalStage
  rj_root_old :: nat
  rj_root_new :: nat
  rj_moves :: "RelocationMove list"
  rj_dir_patches :: "RelocationDirPatch list"

definition relocation_journal_add_move ::
  "env \<Rightarrow> RelocationJournal \<Rightarrow> RelocationMove \<Rightarrow> RelocationJournal res" where
  "relocation_journal_add_move E j move =
     (if \<not> array_reserve E 16 (u64 (length (rj_moves j) + 1))
      then Inl (Die ''cannot grow FAT relocation move list'')
      else Inr (j\<lparr>rj_moves := rj_moves j @ [move]\<rparr>))"

definition relocation_journal_add_dir_patch ::
  "env \<Rightarrow> RelocationJournal \<Rightarrow> RelocationDirPatch \<Rightarrow> RelocationJournal res" where
  "relocation_journal_add_dir_patch E j p =
     (if \<not> array_reserve E 16 (u64 (length (rj_dir_patches j) + 1))
      then Inl (Die ''cannot grow FAT relocation directory-patch list'')
      else Inr (j\<lparr>rj_dir_patches := rj_dir_patches j @ [p]\<rparr>))"

section \<open>Parsing values\<close>

definition invalid_field :: "string \<Rightarrow> fault" where
  "invalid_field field = Die (''invalid FAT journal '' @ field)"

definition parse_u64_value :: "env \<Rightarrow> string \<Rightarrow> nat \<Rightarrow> string \<Rightarrow> nat res" where
  "parse_u64_value E text base field =
     (case parse_u64 E text base of None \<Rightarrow> Inl (invalid_field field) | Some value \<Rightarrow> Inr value)"

definition parse_u32_value :: "env \<Rightarrow> string \<Rightarrow> nat \<Rightarrow> string \<Rightarrow> nat res" where
  "parse_u32_value E text base field =
     (case parse_u64_range E text base 0 UINT32_MAX of
        None \<Rightarrow> Inl (invalid_field field) | Some value \<Rightarrow> Inr (u32 value))"

definition parse_size_value :: "env \<Rightarrow> string \<Rightarrow> string \<Rightarrow> nat res" where
  "parse_size_value E text field =
     (case parse_u64_range E text 10 0 SIZE_MAX of
        None \<Rightarrow> Inl (invalid_field field) | Some value \<Rightarrow> Inr value)"

definition parse_stage_value :: "env \<Rightarrow> string \<Rightarrow> JournalStage res" where
  "parse_stage_value E text =
     (case parse_u64_range E text 10 0 4 of
        None \<Rightarrow> Inl (Die ''invalid FAT journal stage'') | Some value \<Rightarrow> Inr (stage_of_number value))"

text \<open>\<open>count\<close> decimal numbers separated by commas and nothing after them.\<close>

fun parse_csv_u64 :: "env \<Rightarrow> string \<Rightarrow> nat \<Rightarrow> nat list option" where
  "parse_csv_u64 E cursor 0 = (if cursor = [] then Some [] else None)"
| "parse_csv_u64 E cursor (Suc n) =
     (case parse_u64_token E cursor 10 of
        None \<Rightarrow> None
      | Some (value, cursor) \<Rightarrow>
          if n = 0 then (if cursor = [] then Some [value] else None)
          else if cursor = [] \<or> hd cursor \<noteq> CHR '','' then None
          else map_option (\<lambda>values. value # values) (parse_csv_u64 E (tl cursor) n))"

section \<open>Writing\<close>

definition move_line :: "RelocationMove \<Rightarrow> string" where
  "move_line m = field_line ''move''
     (dec (mv_source m) @ '','' @ dec (mv_destination m) @ '','' @ dec (mv_next m) @ '','' @
      dec (mv_predecessor m))"

definition dir_patch_line :: "RelocationDirPatch \<Rightarrow> string" where
  "dir_patch_line p = field_line ''dir_patch''
     (dec (dp_offset p) @ '','' @ dec (dp_old_target p) @ '','' @ dec (dp_new_target p))"

definition relocation_journal_write_stream :: "RelocationJournal \<Rightarrow> string" where
  "relocation_journal_write_stream j =
     RELOCATION_JOURNAL_MAGIC @ [NL] @
     field_line ''device'' (case rj_device_path j of None \<Rightarrow> ''(null)'' | Some p \<Rightarrow> p) @
     field_line ''volume_id'' (hex08 (rj_volume_id j)) @
     field_line ''stage'' (dec (stage_number (rj_stage j))) @
     field_line ''root_old'' (dec (rj_root_old j)) @
     field_line ''root_new'' (dec (rj_root_new j)) @
     field_line ''move_count'' (dec (length (rj_moves j))) @
     concat (map move_line (rj_moves j)) @
     field_line ''dir_patch_count'' (dec (length (rj_dir_patches j))) @
     concat (map dir_patch_line (rj_dir_patches j))"

definition relocation_journal_write :: "env \<Rightarrow> string \<Rightarrow> RelocationJournal \<Rightarrow> unit io" where
  "relocation_journal_write E path j =
     thenI (die_ifI (\<not> ld_path_ensure_trusted_directory_tree E (ld_path_parent_directory path))
              (DieErrno ''create relocation journal directory''))
       (atomic_file_write E path (relocation_journal_write_stream j) ''write relocation journal'')"

definition journal_remove :: "env \<Rightarrow> string \<Rightarrow> unit io" where
  "journal_remove E path w =
     (if unlink_ok E (length (w_trace w))
      then (Inr (), w\<lparr>w_files := (w_files w)(path := None), w_trace := w_trace w @ [EvUnlink path]\<rparr>)
      else (Inl (DieErrno ''durably remove journal''), w))"

section \<open>Reading\<close>

definition journal_has_magic :: "env \<Rightarrow> string \<Rightarrow> string \<Rightarrow> bool io" where
  "journal_has_magic E path magic =
     bindI (open_file path ''open journal'') (\<lambda>text.
     retI (case file_lines text of [] \<Rightarrow> False | line # _ \<Rightarrow> trim_line_end E line = magic))"

text \<open>The comma-separated source list of the first journal format.\<close>

function parse_source_list :: "env \<Rightarrow> nat \<Rightarrow> string \<Rightarrow> nat list \<Rightarrow> nat list res" where
  "parse_source_list E fuel cursor source =
     (case parse_u64_token E cursor 10 of
        None \<Rightarrow> Inl (Die ''invalid FAT journal source cluster list'')
      | Some (value, cursor) \<Rightarrow>
          if value > UINT32_MAX then Inl (Die ''invalid FAT journal source cluster list'')
          else
            bindE (u32vec_push E source value) (\<lambda>source.
            if cursor = [] then Inr source
            else if hd cursor \<noteq> CHR '','' \<or> tl cursor = [] \<or> fuel = 0
            then Inl (Die ''invalid FAT journal source cluster list'')
            else parse_source_list E (fuel - 1) (tl cursor) source))"
  by pat_completeness auto
termination by (relation "measure (\<lambda>(E, fuel, cursor, source). fuel)") auto

declare parse_source_list.simps [simp del]

definition journal_line :: "env \<Rightarrow> string \<Rightarrow> Journal \<times> nat \<Rightarrow> (Journal \<times> nat) res" where
  "journal_line E line st =
     (let (j, expected_count) = st in
      case config_parse_line E line of
        None \<Rightarrow> Inr st
      | Some (key, eq) \<Rightarrow>
          if key = ''device'' then Inr (j\<lparr>jl_device_path := Some eq\<rparr>, expected_count)
          else if key = ''volume_id'' then
            bindE (parse_u32_value E eq 16 ''volume_id'') (\<lambda>v. Inr (j\<lparr>jl_volume_id := v\<rparr>, expected_count))
          else if key = ''stage'' then
            bindE (parse_stage_value E eq) (\<lambda>v. Inr (j\<lparr>jl_stage := v\<rparr>, expected_count))
          else if key = ''dirent_offset'' then
            bindE (parse_u64_value E eq 10 ''dirent_offset'') (\<lambda>v. Inr (j\<lparr>jl_dirent_offset := v\<rparr>, expected_count))
          else if key = ''old_first'' then
            bindE (parse_u32_value E eq 10 ''old_first'') (\<lambda>v. Inr (j\<lparr>jl_old_first := v\<rparr>, expected_count))
          else if key = ''dest_start'' then
            bindE (parse_u32_value E eq 10 ''dest_start'') (\<lambda>v. Inr (j\<lparr>jl_dest_start := v\<rparr>, expected_count))
          else if key = ''count'' then
            bindE (parse_size_value E eq ''count'') (\<lambda>v. Inr (j, v))
          else if key = ''source'' then
            (if eq = [] then Inl (Die ''invalid FAT journal source cluster list'')
             else bindE (parse_source_list E (length eq) eq (jl_source j)) (\<lambda>source.
               Inr (j\<lparr>jl_source := source\<rparr>, expected_count)))
          else Inr st)"

definition parse_journal :: "env \<Rightarrow> string \<Rightarrow> Journal res" where
  "parse_journal E text =
     (let j = \<lparr>jl_device_path = None, jl_volume_id = 0, jl_stage = J_PREPARED, jl_dirent_offset = 0,
               jl_old_first = 0, jl_dest_start = 0, jl_source = []\<rparr>;
          lines = file_lines text
      in if lines = [] \<or> hd lines \<noteq> JOURNAL_MAGIC @ [NL] then Inl (Die ''invalid journal header'')
      else
        bindE (foldE (journal_line E) (tl lines) (j, 0)) (\<lambda>(j, expected_count).
        bindE (die_if (jl_device_path j = None \<or> length (jl_source j) \<noteq> expected_count \<or> jl_source j = [])
                 (Die ''journal is incomplete or corrupt'')) (\<lambda>_. Inr j)))"

definition journal_read :: "env \<Rightarrow> string \<Rightarrow> Journal io" where
  "journal_read E path =
     bindI (open_file path ''open journal'') (\<lambda>text. readI (\<lambda>_. parse_journal E text))"

definition relocation_line ::
  "env \<Rightarrow> string \<Rightarrow> RelocationJournal \<times> nat \<times> nat \<Rightarrow> (RelocationJournal \<times> nat \<times> nat) res" where
  "relocation_line E line st =
     (let (j, expected_moves, expected_patches) = st in
      case config_parse_line E line of
        None \<Rightarrow> Inr st
      | Some (key, eq) \<Rightarrow>
          if key = ''device'' then Inr (j\<lparr>rj_device_path := Some eq\<rparr>, expected_moves, expected_patches)
          else if key = ''volume_id'' then
            bindE (parse_u32_value E eq 16 ''volume_id'') (\<lambda>v.
            Inr (j\<lparr>rj_volume_id := v\<rparr>, expected_moves, expected_patches))
          else if key = ''stage'' then
            bindE (parse_stage_value E eq) (\<lambda>v. Inr (j\<lparr>rj_stage := v\<rparr>, expected_moves, expected_patches))
          else if key = ''root_old'' then
            bindE (parse_u32_value E eq 10 ''root_old'') (\<lambda>v.
            Inr (j\<lparr>rj_root_old := v\<rparr>, expected_moves, expected_patches))
          else if key = ''root_new'' then
            bindE (parse_u32_value E eq 10 ''root_new'') (\<lambda>v.
            Inr (j\<lparr>rj_root_new := v\<rparr>, expected_moves, expected_patches))
          else if key = ''move_count'' then
            bindE (parse_size_value E eq ''move_count'') (\<lambda>v. Inr (j, v, expected_patches))
          else if key = ''dir_patch_count'' then
            bindE (parse_size_value E eq ''dir_patch_count'') (\<lambda>v. Inr (j, expected_moves, v))
          else if key = ''move'' then
            (case parse_csv_u64 E eq 4 of
               None \<Rightarrow> Inl (Die ''invalid relocation journal move record'')
             | Some values \<Rightarrow>
                 if values ! 0 > UINT32_MAX \<or> values ! 1 > UINT32_MAX \<or>
                    values ! 2 > UINT32_MAX \<or> values ! 3 > UINT32_MAX
                 then Inl (Die ''invalid relocation journal move record'')
                 else bindE (relocation_journal_add_move E j
                        \<lparr>mv_source = values ! 0, mv_destination = values ! 1, mv_next = values ! 2,
                         mv_predecessor = values ! 3\<rparr>) (\<lambda>j. Inr (j, expected_moves, expected_patches)))
          else if key = ''dir_patch'' then
            (case parse_csv_u64 E eq 3 of
               None \<Rightarrow> Inl (Die ''invalid relocation journal directory patch'')
             | Some values \<Rightarrow>
                 if values ! 1 > UINT32_MAX \<or> values ! 2 > UINT32_MAX
                 then Inl (Die ''invalid relocation journal directory patch'')
                 else bindE (relocation_journal_add_dir_patch E j
                        \<lparr>dp_offset = values ! 0, dp_old_target = values ! 1, dp_new_target = values ! 2\<rparr>)
                        (\<lambda>j. Inr (j, expected_moves, expected_patches)))
          else Inr st)"

definition relocation_journal_valid :: "RelocationJournal \<Rightarrow> nat \<Rightarrow> nat \<Rightarrow> bool" where
  "relocation_journal_valid j expected_moves expected_patches \<longleftrightarrow>
     \<not> (rj_device_path j = None \<or> rj_moves j = [] \<or> length (rj_moves j) \<noteq> expected_moves \<or>
        length (rj_dir_patches j) \<noteq> expected_patches \<or> rj_root_old j < 2 \<or> rj_root_new j < 2)"

definition parse_relocation_journal :: "env \<Rightarrow> string \<Rightarrow> RelocationJournal res" where
  "parse_relocation_journal E text =
     (let j = \<lparr>rj_device_path = None, rj_volume_id = 0, rj_stage = J_PREPARED, rj_root_old = 0,
               rj_root_new = 0, rj_moves = [], rj_dir_patches = []\<rparr>;
          lines = file_lines text
      in if lines = [] \<or> hd lines \<noteq> RELOCATION_JOURNAL_MAGIC @ [NL]
      then Inl (Die ''invalid relocation journal header'')
      else
        bindE (foldE (relocation_line E) (tl lines) (j, 0, 0)) (\<lambda>(j, expected_moves, expected_patches).
        bindE (die_if (\<not> relocation_journal_valid j expected_moves expected_patches)
                 (Die ''relocation journal is incomplete or corrupt'')) (\<lambda>_. Inr j)))"

definition relocation_journal_read :: "env \<Rightarrow> string \<Rightarrow> RelocationJournal io" where
  "relocation_journal_read E path =
     bindI (open_file path ''open relocation journal'') (\<lambda>text.
     readI (\<lambda>_. parse_relocation_journal E text))"

end
