(* ===== verification/FatRelocation.thy ===== *)
theory FatRelocation
  imports FatScan FatIo FatJournal
begin

text \<open>
  \<open>fat_relocation.c\<close>: the journalled relocation transaction. The data of every moved
  cluster is copied, every reference to it (table links, directory entries, the FAT32
  root cluster) is switched, the old clusters are freed, and the journal records each
  stage. Recovery repeats the transaction from the journal. An index outside a C array is
  a \<open>MemFault\<close>. The optional log line is not modelled.
\<close>

section \<open>Directory entries\<close>

record DirentSectorPatch =
  ds_sector_offset :: nat
  ds_entry_offset :: nat
  ds_new_target :: nat

definition compare_dirent_sector_patch :: "DirentSectorPatch \<Rightarrow> DirentSectorPatch \<Rightarrow> int" where
  "compare_dirent_sector_patch l r =
     (if ds_sector_offset l < ds_sector_offset r then -1
      else if ds_sector_offset l > ds_sector_offset r then 1
      else if ds_entry_offset l < ds_entry_offset r then -1
      else if ds_entry_offset l > ds_entry_offset r then 1
      else if ds_new_target l < ds_new_target r then -1
      else if ds_new_target l > ds_new_target r then 1
      else 0)"

interpretation dirent_order: comparator compare_dirent_sector_patch
  by unfold_locales (auto simp: compare_dirent_sector_patch_def split: if_splits)

definition sector_patch :: "nat \<Rightarrow> RelocationDirPatch \<Rightarrow> DirentSectorPatch" where
  "sector_patch bytes_per_sector p =
     \<lparr>ds_sector_offset = dp_offset p - dp_offset p mod bytes_per_sector,
      ds_entry_offset = dp_offset p, ds_new_target = dp_new_target p\<rparr>"

fun order_patches :: "nat \<Rightarrow> RelocationDirPatch list \<Rightarrow> DirentSectorPatch list res" where
  "order_patches bytes_per_sector [] = Inr []"
| "order_patches bytes_per_sector (p # rest) =
     (let within = dp_offset p mod bytes_per_sector in
      bindE (die_if (within mod 32 \<noteq> 0 \<or> within + 32 > bytes_per_sector)
               (Die ''directory entry is not aligned inside a FAT sector'')) (\<lambda>_.
      bindE (order_patches bytes_per_sector rest) (\<lambda>ordered.
      Inr (sector_patch bytes_per_sector p # ordered))))"

definition store_first_cluster :: "env \<Rightarrow> Fat32 \<Rightarrow> nat \<Rightarrow> nat \<Rightarrow> bytes \<Rightarrow> bytes" where
  "store_first_cluster E fs within new_target sector =
     (let sector = patch sector (within + 20)
            (store_le16 E (if fs_fat_type fs = FAT_TYPE_32
                           then u16 (drop_bit 16 new_target AND 0xFFFF) else 0))
      in patch sector (within + 26) (store_le16 E (u16 (new_target AND 0xFFFF))))"

fun patch_sector ::
  "env \<Rightarrow> Fat32 \<Rightarrow> nat \<Rightarrow> DirentSectorPatch option \<Rightarrow> DirentSectorPatch list \<Rightarrow> bytes \<Rightarrow> bytes res" where
  "patch_sector E fs sector_offset prev [] sector = Inr sector"
| "patch_sector E fs sector_offset prev (p # rest) sector =
     bindE (die_if (case prev of None \<Rightarrow> False
              | Some q \<Rightarrow> ds_entry_offset p = ds_entry_offset q \<and> ds_new_target p \<noteq> ds_new_target q)
              (Die ''conflicting directory-entry patches in one transaction'')) (\<lambda>_.
     patch_sector E fs sector_offset (Some p) rest
       (store_first_cluster E fs (ds_entry_offset p - sector_offset) (ds_new_target p) sector))"

function write_sector_batches :: "env \<Rightarrow> Fat32 \<Rightarrow> DirentSectorPatch list \<Rightarrow> nat \<Rightarrow> nat io" where
  "write_sector_batches E fs [] sector_writes = retI sector_writes"
| "write_sector_batches E fs (p # rest) sector_writes =
     (let sector_offset = ds_sector_offset p;
          same = (\<lambda>q. ds_sector_offset q = sector_offset)
      in
      bindI (readI (\<lambda>d. ld_pread_exact E d (fs_bytes_per_sector fs) sector_offset
               ''read directory sector batch'')) (\<lambda>sector.
      bindI (readI (\<lambda>_. patch_sector E fs sector_offset None (p # takeWhile same rest) sector)) (\<lambda>sector.
      bindI (ld_pwrite_exact E sector sector_offset ''write directory sector batch'') (\<lambda>_.
      write_sector_batches E fs (dropWhile same rest) (sector_writes + 1)))))"
  by pat_completeness auto
termination
  by (relation "measure (\<lambda>(E, fs, ordered, n). length ordered)")
    (auto simp: less_Suc_eq_le length_dropWhile_le)

definition write_dirent_first_clusters_batched ::
  "env \<Rightarrow> Fat32 \<Rightarrow> RelocationDirPatch list \<Rightarrow> nat io" where
  "write_dirent_first_clusters_batched E fs patches =
     (if patches = [] then retI 0
      else
        let bytes_per_sector = fs_bytes_per_sector fs in
        thenI (die_ifI (bytes_per_sector < 32 \<or> bytes_per_sector mod 32 \<noteq> 0)
                 (Die ''FAT sector size cannot contain aligned directory entries''))
       (bindI (readI (\<lambda>_. order_patches bytes_per_sector patches)) (\<lambda>ordered.
        write_sector_batches E fs (qsort_by compare_dirent_sector_patch ordered) 0)))"

definition read_dirent_first_cluster :: "env \<Rightarrow> bytes \<Rightarrow> Fat32 \<Rightarrow> nat \<Rightarrow> nat res" where
  "read_dirent_first_cluster E d fs offset =
     bindE (ld_pread_exact E d 32 offset ''read directory entry'') (\<lambda>entry.
     let first = load_le16 E (drop 26 entry);
         first = (if fs_fat_type fs = FAT_TYPE_32
                  then first OR push_bit 16 (load_le16 E (drop 20 entry)) else first)
     in Inr (first AND fat_mask fs))"

definition data_offset_to_cluster :: "Fat32 \<Rightarrow> nat \<Rightarrow> nat res" where
  "data_offset_to_cluster fs offset =
     (if offset < fs_data_offset fs then Inl (Die ''directory reference lies outside the data region'')
      else
        let index = (offset - fs_data_offset fs) div fs_cluster_size fs in
        if index \<ge> fs_cluster_count fs
        then Inl (Die ''directory reference lies beyond the data region'')
        else Inr (u32 (u32 index + 2)))"

definition move_offset_between_clusters :: "Fat32 \<Rightarrow> nat \<Rightarrow> nat \<Rightarrow> nat \<Rightarrow> nat res" where
  "move_offset_between_clusters fs offset source destination =
     bindE (cluster_offset fs source) (\<lambda>source_offset.
     bindE (die_if (offset < source_offset \<or> offset \<ge> u64 (source_offset + fs_cluster_size fs))
              (Die ''internal error: reference offset is not inside its source cluster'')) (\<lambda>_.
     bindE (cluster_offset fs destination) (\<lambda>destination_offset.
     Inr (u64 (destination_offset + (offset - source_offset))))))"

section \<open>Boot sectors and FSInfo\<close>

definition write_boot_root_cluster_one :: "env \<Rightarrow> Fat32 \<Rightarrow> nat \<Rightarrow> nat \<Rightarrow> unit io" where
  "write_boot_root_cluster_one E fs sector_number root_cluster =
     (if sector_number = 0xFFFF \<or> sector_number \<ge> fs_reserved_sectors fs then retI ()
      else
        let bytes_per_sector = fs_bytes_per_sector fs;
            offset = sector_number * bytes_per_sector
        in
        bindI (readI (\<lambda>d. ld_pread_exact E d bytes_per_sector offset ''read boot sector'')) (\<lambda>sector.
        thenI (die_ifI (bytes_per_sector < 512 \<or> sector ! 510 \<noteq> 0x55 \<or> sector ! 511 \<noteq> 0xAA)
                 (Die ''invalid FAT32 boot-sector copy while updating root cluster''))
         (ld_pwrite_exact E (patch sector 44 (store_le32 E (root_cluster AND FAT32_MASK))) offset
            ''write boot sector'')))"

definition write_root_cluster :: "env \<Rightarrow> Fat32 \<Rightarrow> nat \<Rightarrow> Fat32 io" where
  "write_root_cluster E fs root_cluster =
     thenI (die_ifI (fs_root_is_fixed fs)
              (Die ''internal error: FAT12/FAT16 root directory cannot be relocated''))
    (thenI (write_boot_root_cluster_one E fs 0 root_cluster)
    (thenI (if fs_backup_boot_sector fs \<noteq> 0 \<and> fs_backup_boot_sector fs \<noteq> 0xFFFF
            then write_boot_root_cluster_one E fs (fs_backup_boot_sector fs) root_cluster
            else retI ())
     (retI (fs\<lparr>fs_root_cluster := root_cluster\<rparr>))))"

definition update_fsinfo_one :: "env \<Rightarrow> Fat32 \<Rightarrow> nat \<Rightarrow> nat \<Rightarrow> unit io" where
  "update_fsinfo_one E fs sector_number next_free =
     (if sector_number = 0 \<or> sector_number = 0xFFFF \<or> sector_number \<ge> fs_reserved_sectors fs
      then retI ()
      else
        let bytes_per_sector = fs_bytes_per_sector fs;
            offset = sector_number * bytes_per_sector
        in
        bindI (readI (\<lambda>d. ld_pread_exact E d bytes_per_sector offset ''read FSInfo'')) (\<lambda>sector.
        if bytes_per_sector \<ge> 512 \<and> load_le32 E sector = 0x41615252 \<and>
           load_le32 E (drop 484 sector) = 0x61417272 \<and> load_le32 E (drop 508 sector) = 0xAA550000
        then ld_pwrite_exact E (patch sector 492 (store_le32 E next_free)) offset ''write FSInfo''
        else retI ()))"

definition fat_relocation_update_fsinfo :: "env \<Rightarrow> Fat32 \<Rightarrow> nat \<Rightarrow> unit io" where
  "fat_relocation_update_fsinfo E fs next_free =
     (if fs_fat_type fs \<noteq> FAT_TYPE_32 then retI ()
      else
        thenI (update_fsinfo_one E fs (fs_fsinfo_sector fs) next_free)
         (if fs_backup_boot_sector fs \<noteq> 0 \<and> fs_backup_boot_sector fs \<noteq> 0xFFFF then
            (let backup = fs_backup_boot_sector fs + fs_fsinfo_sector fs in
             if backup < fs_reserved_sectors fs then update_fsinfo_one E fs (u16 backup) next_free
             else retI ())
          else retI ()))"

fun first_free :: "Fat32 \<Rightarrow> nat list \<Rightarrow> nat res" where
  "first_free fs [] = Inr 0xFFFFFFFF"
| "first_free fs (cluster # rest) =
     bindE (fat_is_free fs cluster) (\<lambda>free. if free then Inr cluster else first_free fs rest)"

definition fat_relocation_first_free_hint :: "Fat32 \<Rightarrow> nat res" where
  "fat_relocation_first_free_hint fs = first_free fs [2..<fs_max_cluster fs + 1]"

definition free_cluster_list :: "env \<Rightarrow> Fat32 \<Rightarrow> nat list \<Rightarrow> Fat32 io" where
  "free_cluster_list E fs clusters =
     fat32_apply_updates E fs (map (\<lambda>c. \<lparr>upd_cluster = c, upd_value = 0\<rparr>) clusters)"

definition free_contiguous_run :: "env \<Rightarrow> Fat32 \<Rightarrow> nat \<Rightarrow> nat \<Rightarrow> Fat32 io" where
  "free_contiguous_run E fs start n =
     fat32_apply_updates E fs (map (\<lambda>i. \<lparr>upd_cluster = u32 (start + u32 i), upd_value = 0\<rparr>) [0..<n])"

section \<open>Recovery of the first journal format\<close>

definition check_legacy_journal :: "Fat32 \<Rightarrow> Journal \<Rightarrow> unit res" where
  "check_legacy_journal fs j =
     bindE (die_if (jl_device_path j \<noteq> Some (dev_path (fs_dev fs)))
              (Die ''journal belongs to a different device path'')) (\<lambda>_.
     bindE (die_if (jl_volume_id j \<noteq> fs_volume_id fs)
              (Die ''journal volume ID does not match target'')) (\<lambda>_.
     die_if (jl_dest_start j < 2 \<or> length (jl_source j) > fs_cluster_count fs \<or>
             jl_dest_start j > sub32 (fs_max_cluster fs) (u32 (length (jl_source j) - 1)))
       (Die ''journal destination range is invalid'')))"

definition link_destination :: "env \<Rightarrow> Journal \<Rightarrow> nat \<Rightarrow> Fat32 \<Rightarrow> Fat32 io" where
  "link_destination E j index fs =
     (let destination = u32 (jl_dest_start j + u32 index);
          nxt = (if index + 1 = length (jl_source j) then fat_eoc_value fs else u32 (destination + 1))
      in fat32_write_entry E fs destination nxt)"

definition fat_relocation_recover_legacy :: "env \<Rightarrow> Fat32 \<Rightarrow> string \<Rightarrow> Fat32 io" where
  "fat_relocation_recover_legacy E fs journal_path =
     bindI (journal_read E journal_path) (\<lambda>j.
     thenI (readI (\<lambda>_. check_legacy_journal fs j))
    (bindI (readI (\<lambda>d. read_dirent_first_cluster E d fs (jl_dirent_offset j))) (\<lambda>current.
     bindI
      (if current = jl_dest_start j then
         bindI (foldI (link_destination E j) [0..<length (jl_source j)] fs) (\<lambda>fs.
         bindI (free_cluster_list E fs (jl_source j)) (\<lambda>fs.
         thenI (fat_relocation_update_fsinfo E fs (jl_source j ! 0))
        (thenI (fat32_sync E) (retI fs))))
       else if current = jl_old_first j then
         bindI (free_contiguous_run E fs (jl_dest_start j) (length (jl_source j))) (\<lambda>fs.
         thenI (fat32_sync E) (retI fs))
       else dieI (Die ''directory entry points to neither old nor new chain; manual recovery required''))
      (\<lambda>fs. thenI (journal_remove E journal_path) (retI fs)))))"

section \<open>The relocation map\<close>

definition fat_value_is_cluster :: "Fat32 \<Rightarrow> nat \<Rightarrow> bool" where
  "fat_value_is_cluster fs value =
     (let value = value AND fat_mask fs in value \<ge> 2 \<and> value \<le> fs_max_cluster fs)"

definition map_move :: "Fat32 \<Rightarrow> RelocationMove \<Rightarrow> nat list \<times> bool list \<Rightarrow> (nat list \<times> bool list) res" where
  "map_move fs move st =
     (let (relocation, destinations) = st in
      bindE (die_if (mv_source move < 2 \<or> mv_source move > fs_max_cluster fs \<or>
                     mv_destination move < 2 \<or> mv_destination move > fs_max_cluster fs \<or>
                     mv_destination move = mv_source move)
               (Die ''relocation journal contains an invalid source/destination pair'')) (\<lambda>_.
      bindE (die_if (relocation ! mv_source move \<noteq> 0 \<or> destinations ! mv_destination move)
               (Die ''relocation journal contains duplicate source or destination clusters'')) (\<lambda>_.
      Inr (relocation[mv_source move := mv_destination move],
           destinations[mv_destination move := True]))))"

definition build_relocation_map :: "Fat32 \<Rightarrow> RelocationMove list \<Rightarrow> nat list res" where
  "build_relocation_map fs moves =
     bindE (foldE (map_move fs) moves
              (replicate (fs_max_cluster fs + 1) 0, replicate (fs_max_cluster fs + 1) False))
       (\<lambda>(relocation, destinations).
     bindE (die_if (list_ex (\<lambda>move. destinations ! mv_source move) moves)
              (Die ''relocation journal source and destination sets overlap'')) (\<lambda>_.
     Inr relocation))"

definition note_predecessor :: "Fat32 \<Rightarrow> nat \<Rightarrow> nat list \<Rightarrow> nat list res" where
  "note_predecessor fs cluster predecessors =
     bindE (fat_value fs cluster) (\<lambda>nxt.
     if \<not> fat_value_is_cluster fs nxt then Inr predecessors
     else
       bindE (die_if (predecessors ! nxt \<noteq> 0)
                (Die ''multiple FAT predecessors detected while building relocation map'')) (\<lambda>_.
       Inr (predecessors[nxt := cluster])))"

definition build_predecessor_table :: "Fat32 \<Rightarrow> nat list res" where
  "build_predecessor_table fs =
     foldE (note_predecessor fs) [2..<fs_max_cluster fs + 1] (replicate (fs_max_cluster fs + 1) 0)"

section \<open>Building the journal\<close>

definition complete_move ::
  "env \<Rightarrow> Fat32 \<Rightarrow> nat list \<Rightarrow> RelocationMove \<Rightarrow> RelocationJournal \<Rightarrow> RelocationJournal res" where
  "complete_move E fs predecessors move j =
     bindE (fat_value fs (mv_source move)) (\<lambda>nxt.
     bindE (array_get ''predecessors'' predecessors (mv_source move)) (\<lambda>predecessor.
     relocation_journal_add_move E j (move\<lparr>mv_next := nxt, mv_predecessor := predecessor\<rparr>)))"

definition in_fixed_root :: "Fat32 \<Rightarrow> nat \<Rightarrow> bool" where
  "in_fixed_root fs offset \<longleftrightarrow>
     fs_root_is_fixed fs \<and> offset \<ge> fs_root_dir_offset fs \<and>
     offset < fs_root_dir_offset fs + fs_root_dir_size fs"

text \<open>Where a directory entry will be once the clusters have moved.\<close>

definition patch_location :: "Fat32 \<Rightarrow> nat list \<Rightarrow> nat \<Rightarrow> nat res" where
  "patch_location fs relocation offset =
     (if in_fixed_root fs offset then Inr offset
      else
        bindE (data_offset_to_cluster fs offset) (\<lambda>container.
        bindE (array_get ''map'' relocation container) (\<lambda>moved.
        if moved \<noteq> 0 then move_offset_between_clusters fs offset container moved else Inr offset)))"

definition add_reference ::
  "env \<Rightarrow> Fat32 \<Rightarrow> nat list \<Rightarrow> DirRef \<Rightarrow> RelocationJournal \<times> bool list \<Rightarrow>
   (RelocationJournal \<times> bool list) res" where
  "add_reference E fs relocation reference st =
     (let (j, first_has_reference) = st in
      bindE (array_get ''map'' relocation (ref_target_cluster reference)) (\<lambda>new_target.
      if new_target = 0 then Inr st
      else
        bindE (patch_location fs relocation (ref_offset reference)) (\<lambda>patch_offset.
        bindE (relocation_journal_add_dir_patch E j
          \<lparr>dp_offset = patch_offset, dp_old_target = ref_target_cluster reference,
           dp_new_target = new_target\<rparr>) (\<lambda>j.
        Inr (j, first_has_reference[ref_target_cluster reference := True])))))"

definition make_relocation_journal ::
  "env \<Rightarrow> Fat32 \<Rightarrow> DirRef list \<Rightarrow> nat list \<Rightarrow> RelocationMove list \<Rightarrow> RelocationJournal res" where
  "make_relocation_journal E fs directory_references predecessors moves =
     (let j = \<lparr>rj_device_path = Some (dev_path (fs_dev fs)), rj_volume_id = fs_volume_id fs,
               rj_stage = J_PREPARED, rj_root_old = fs_root_cluster fs, rj_root_new = fs_root_cluster fs,
               rj_moves = [], rj_dir_patches = []\<rparr>
      in
      bindE (foldE (complete_move E fs predecessors) moves j) (\<lambda>j.
      bindE (build_relocation_map fs (rj_moves j)) (\<lambda>relocation.
      bindE (array_get ''map'' relocation (rj_root_old j)) (\<lambda>new_root.
      let j = (if new_root \<noteq> 0 then j\<lparr>rj_root_new := new_root\<rparr> else j) in
      bindE (foldE (add_reference E fs relocation) directory_references
               (j, replicate (fs_max_cluster fs + 1) False)) (\<lambda>(j, first_has_reference).
      bindE (die_if (list_ex (\<lambda>move. mv_predecessor move = 0 \<and> mv_source move \<noteq> rj_root_old j \<and>
                        \<not> first_has_reference ! mv_source move) (rj_moves j))
               (Die ''first cluster has no directory reference during packed defragmentation'')) (\<lambda>_.
      Inr j))))))"

section \<open>The transaction\<close>

definition check_relocation_journal :: "Fat32 \<Rightarrow> RelocationJournal \<Rightarrow> unit res" where
  "check_relocation_journal fs j =
     bindE (die_if (rj_device_path j \<noteq> Some (dev_path (fs_dev fs)))
              (Die ''relocation journal belongs to a different device path'')) (\<lambda>_.
     die_if (rj_volume_id j \<noteq> fs_volume_id fs)
       (Die ''relocation journal volume ID does not match target''))"

definition destination_update :: "Fat32 \<Rightarrow> nat list \<Rightarrow> RelocationMove \<Rightarrow> FatUpdate list \<Rightarrow> FatUpdate list res" where
  "destination_update fs relocation move updates =
     bindE (if fat_value_is_cluster fs (mv_next move) then
              bindE (array_get ''map'' relocation (mv_next move)) (\<lambda>moved.
              Inr (if moved \<noteq> 0 then moved else mv_next move))
            else Inr (mv_next move)) (\<lambda>new_next.
     Inr (updates @ [\<lparr>upd_cluster = mv_destination move, upd_value = new_next\<rparr>]))"

definition predecessor_update :: "nat list \<Rightarrow> RelocationMove \<Rightarrow> FatUpdate list \<Rightarrow> FatUpdate list res" where
  "predecessor_update relocation move updates =
     (if mv_predecessor move = 0 then Inr updates
      else
        bindE (array_get ''map'' relocation (mv_predecessor move)) (\<lambda>moved.
        Inr (if moved = 0
             then updates @ [\<lparr>upd_cluster = mv_predecessor move, upd_value = mv_destination move\<rparr>]
             else updates)))"

definition link_updates :: "Fat32 \<Rightarrow> nat list \<Rightarrow> RelocationMove list \<Rightarrow> FatUpdate list res" where
  "link_updates fs relocation moves =
     bindE (foldE (destination_update fs relocation) moves []) (\<lambda>updates.
     foldE (predecessor_update relocation) moves updates)"

definition lowest_source :: "Fat32 \<Rightarrow> RelocationMove list \<Rightarrow> nat" where
  "lowest_source fs moves =
     foldl (\<lambda>next_free move. if mv_source move < next_free then mv_source move else next_free)
       (fs_max_cluster fs) moves"

text \<open>Switch every reference: links of the table, directory entries, the root cluster.\<close>

definition switch_references ::
  "env \<Rightarrow> Fat32 \<Rightarrow> nat list \<Rightarrow> RelocationJournal \<Rightarrow> Fat32 io" where
  "switch_references E fs relocation j =
     bindI (readI (\<lambda>_. link_updates fs relocation (rj_moves j))) (\<lambda>updates.
     bindI (fat32_apply_updates E fs updates) (\<lambda>fs.
     bindI (write_dirent_first_clusters_batched E fs (rj_dir_patches j)) (\<lambda>sector_writes.
     if rj_root_new j \<noteq> rj_root_old j then write_root_cluster E fs (rj_root_new j) else retI fs)))"

definition record_stage :: "env \<Rightarrow> string \<Rightarrow> RelocationJournal \<Rightarrow> JournalStage \<Rightarrow> RelocationJournal io" where
  "record_stage E journal_path j stage =
     thenI (fat32_sync E)
    (let j = j\<lparr>rj_stage := stage\<rparr> in
     thenI (relocation_journal_write E journal_path j) (retI j))"

definition complete_relocation_journal ::
  "env \<Rightarrow> Fat32 \<Rightarrow> string \<Rightarrow> RelocationJournal \<Rightarrow> FatIoConfig \<Rightarrow> (Fat32 \<times> FatIoConfig) io" where
  "complete_relocation_journal E fs journal_path j io =
     thenI (readI (\<lambda>_. check_relocation_journal fs j))
    (bindI (readI (\<lambda>_. build_relocation_map fs (rj_moves j))) (\<lambda>relocation.
     bindI (fat_io_copy_clusters E fs (map mv_source (rj_moves j)) (map mv_destination (rj_moves j)) io) (\<lambda>io.
     bindI (record_stage E journal_path j J_DATA_COPIED) (\<lambda>j.
     bindI (switch_references E fs relocation j) (\<lambda>fs.
     bindI (record_stage E journal_path j J_SWITCHED) (\<lambda>j.
     bindI (free_cluster_list E fs (map mv_source (rj_moves j))) (\<lambda>fs.
     thenI (fat_relocation_update_fsinfo E fs (lowest_source fs (rj_moves j)))
    (bindI (record_stage E journal_path j J_OLD_FREED) (\<lambda>j.
     thenI (journal_remove E journal_path) (retI (fs, io)))))))))))"

definition fat_relocation_execute ::
  "env \<Rightarrow> Fat32 \<Rightarrow> DirRef list \<Rightarrow> string \<Rightarrow> RelocationMove list \<Rightarrow> FatIoConfig \<Rightarrow> (Fat32 \<times> FatIoConfig) io" where
  "fat_relocation_execute E fs directory_references journal_path moves io =
     bindI (readI (\<lambda>_. build_predecessor_table fs)) (\<lambda>predecessors.
     bindI (readI (\<lambda>_. make_relocation_journal E fs directory_references predecessors moves)) (\<lambda>j.
     thenI (relocation_journal_write E journal_path j)
       (complete_relocation_journal E fs journal_path j io)))"

definition fat_relocation_recover_mapped ::
  "env \<Rightarrow> Fat32 \<Rightarrow> string \<Rightarrow> FatIoConfig \<Rightarrow> (Fat32 \<times> FatIoConfig) io" where
  "fat_relocation_recover_mapped E fs journal_path io =
     bindI (relocation_journal_read E journal_path) (\<lambda>j.
     complete_relocation_journal E fs journal_path j io)"

end
