(* ===== verification/FatJournalProps.thy ===== *)
theory FatJournalProps
  imports FatRelocation Demo
begin

text \<open>
  Properties of \<open>fat_journal.c\<close>: a relocation journal that is written can be read back,
  and what a journal that is read guarantees.
\<close>

section \<open>What the text helpers do\<close>

definition journal_keys :: "string set" where
  "journal_keys = {''device'', ''volume_id'', ''stage'', ''root_old'', ''root_new'', ''move_count'',
     ''dir_patch_count'', ''move'', ''dir_patch''}"

definition journal_text_ok :: "env \<Rightarrow> bool" where
  "journal_text_ok E \<longleftrightarrow>
     (\<forall>key \<in> journal_keys. \<forall>v. clean_value v \<longrightarrow> config_parse_line E (field_line key v) = Some (key, v)) \<and>
     (\<forall>n limit. n \<le> limit \<and> limit \<le> UINT64_MAX \<longrightarrow> parse_u64_range E (dec n) 10 0 limit = Some n) \<and>
     (\<forall>n \<le> UINT32_MAX. parse_u64_range E (hex08 n) 16 0 UINT32_MAX = Some n) \<and>
     (\<forall>n \<le> UINT64_MAX. \<forall>rest. rest = [] \<or> hd rest = CHR '','' \<longrightarrow>
        parse_u64_token E (dec n @ rest) 10 = Some (n, rest))"

section \<open>Lines\<close>

lemma file_lines_field:
  assumes "key \<in> journal_keys" "clean_value v"
  shows "file_lines (field_line key v @ rest) = field_line key v # file_lines rest"
proof -
  have "NL \<notin> set key" using assms(1) unfolding journal_keys_def by (elim insertE emptyE; simp)
  then have "NL \<notin> set (key @ ''='' @ v)" using clean_no_newline [OF assms(2)] by simp
  from file_lines_step [OF this, of rest] show ?thesis by (simp add: field_line_def)
qed

fun csv :: "nat list \<Rightarrow> string" where
  "csv [] = []"
| "csv [n] = dec n"
| "csv (n # rest) = dec n @ '','' @ csv rest"

lemma csv_chars: "set (csv ns) \<subseteq> set ''0123456789abcdef,''"
proof (induction ns rule: csv.induct)
  case (2 n)
  then show ?case using dec_set by simp
next
  case (3 n m rest)
  then show ?case using dec_set [of n] by simp
qed simp

lemma clean_csv: "ns \<noteq> [] \<Longrightarrow> clean_value (csv ns)"
  by (intro clean_digits csv_chars) (cases ns rule: csv.cases; simp)

lemma parse_csv:
  assumes "journal_text_ok E" "ns \<noteq> []" "\<forall>n \<in> set ns. n \<le> UINT64_MAX"
  shows "parse_csv_u64 E (csv ns) (length ns) = Some ns"
  using assms(2,3)
proof (induction ns rule: csv.induct)
  case (2 n)
  then have "parse_u64_token E (dec n @ []) 10 = Some (n, [])" using assms(1) by (simp add: journal_text_ok_def)
  then show ?case by simp
next
  case (3 n m rest)
  then have "parse_u64_token E (dec n @ '','' @ csv (m # rest)) 10 = Some (n, '','' @ csv (m # rest))"
    using assms(1) by (simp add: journal_text_ok_def)
  with 3 show ?case by simp
qed simp

section \<open>Records\<close>

definition move_ok :: "RelocationMove \<Rightarrow> bool" where
  "move_ok m \<longleftrightarrow> mv_source m \<le> UINT32_MAX \<and> mv_destination m \<le> UINT32_MAX \<and> mv_next m \<le> UINT32_MAX \<and>
     mv_predecessor m \<le> UINT32_MAX"

definition dir_patch_ok :: "RelocationDirPatch \<Rightarrow> bool" where
  "dir_patch_ok p \<longleftrightarrow> dp_offset p \<le> UINT64_MAX \<and> dp_old_target p \<le> UINT32_MAX \<and> dp_new_target p \<le> UINT32_MAX"

text \<open>The values of a journal in C types; the lists fit the address space.\<close>

definition journal_ok :: "RelocationJournal \<Rightarrow> bool" where
  "journal_ok j \<longleftrightarrow>
     (\<exists>p. rj_device_path j = Some p \<and> clean_value p) \<and> rj_volume_id j \<le> UINT32_MAX \<and>
     rj_root_old j \<le> UINT32_MAX \<and> rj_root_new j \<le> UINT32_MAX \<and>
     length (rj_moves j) \<le> SIZE_MAX \<and> length (rj_dir_patches j) \<le> SIZE_MAX \<and>
     (\<forall>m \<in> set (rj_moves j). move_ok m) \<and> (\<forall>p \<in> set (rj_dir_patches j). dir_patch_ok p)"

lemma move_line_csv: "move_line m = field_line ''move'' (csv [mv_source m, mv_destination m, mv_next m, mv_predecessor m])"
  by (simp add: move_line_def)

lemma dir_patch_line_csv: "dir_patch_line p = field_line ''dir_patch'' (csv [dp_offset p, dp_old_target p, dp_new_target p])"
  by (simp add: dir_patch_line_def)

lemma config_line:
  "journal_text_ok E \<Longrightarrow> key \<in> journal_keys \<Longrightarrow> clean_value v \<Longrightarrow> config_parse_line E (field_line key v) = Some (key, v)"
  by (simp add: journal_text_ok_def)

lemma read_move:
  assumes "journal_text_ok E" "move_ok m" "array_reserve E 16 (u64 (length (rj_moves j) + 1))"
  shows "relocation_line E (move_line m) (j, a, b) = Inr (j\<lparr>rj_moves := rj_moves j @ [m]\<rparr>, a, b)"
proof -
  let ?ns = "[mv_source m, mv_destination m, mv_next m, mv_predecessor m]"
  have len: "length ?ns = 4" by simp
  have "parse_csv_u64 E (csv ?ns) 4 = Some ?ns"
    using parse_csv [OF assms(1), of ?ns, unfolded len] assms(2)
    by (simp add: move_ok_def del: csv.simps parse_csv_u64.simps)
  moreover have "config_parse_line E (move_line m) = Some (''move'', csv ?ns)"
    unfolding move_line_csv by (rule config_line [OF assms(1)]) (simp_all add: journal_keys_def clean_csv del: csv.simps)
  ultimately show ?thesis
    using assms(2,3) by (simp add: relocation_line_def move_ok_def relocation_journal_add_move_def not_less del: csv.simps)
qed

lemma read_dir_patch:
  assumes "journal_text_ok E" "dir_patch_ok p" "array_reserve E 16 (u64 (length (rj_dir_patches j) + 1))"
  shows "relocation_line E (dir_patch_line p) (j, a, b) = Inr (j\<lparr>rj_dir_patches := rj_dir_patches j @ [p]\<rparr>, a, b)"
proof -
  let ?ns = "[dp_offset p, dp_old_target p, dp_new_target p]"
  have len: "length ?ns = 3" by simp
  have "parse_csv_u64 E (csv ?ns) 3 = Some ?ns"
    using parse_csv [OF assms(1), of ?ns, unfolded len] assms(2)
    by (simp add: dir_patch_ok_def del: csv.simps parse_csv_u64.simps)
  moreover have "config_parse_line E (dir_patch_line p) = Some (''dir_patch'', csv ?ns)"
    unfolding dir_patch_line_csv by (rule config_line [OF assms(1)]) (simp_all add: journal_keys_def clean_csv del: csv.simps)
  ultimately show ?thesis
    using assms(2,3) by (simp add: relocation_line_def dir_patch_ok_def relocation_journal_add_dir_patch_def not_less del: csv.simps)
qed

lemma reserve_u64: "reserve_ok E \<Longrightarrow> array_reserve E k (u64 n)"
  by (simp add: reserve_ok_def u64_def less_Suc_eq_le [symmetric])

lemma read_moves:
  assumes "journal_text_ok E" "reserve_ok E" "\<forall>m \<in> set ms. move_ok m"
  shows "foldE (relocation_line E) (map move_line ms) (j, a, b) = Inr (j\<lparr>rj_moves := rj_moves j @ ms\<rparr>, a, b)"
  using assms(3)
proof (induction ms arbitrary: j)
  case (Cons m ms)
  then show ?case using read_move [OF assms(1), of m j a b] reserve_u64 [OF assms(2)] by simp
qed simp

lemma read_dir_patches:
  assumes "journal_text_ok E" "reserve_ok E" "\<forall>p \<in> set ps. dir_patch_ok p"
  shows "foldE (relocation_line E) (map dir_patch_line ps) (j, a, b) =
    Inr (j\<lparr>rj_dir_patches := rj_dir_patches j @ ps\<rparr>, a, b)"
  using assms(3)
proof (induction ps arbitrary: j)
  case (Cons p ps)
  then show ?case using read_dir_patch [OF assms(1), of p j a b] reserve_u64 [OF assms(2)] by simp
qed simp

section \<open>The whole journal\<close>

lemma clean_hex: "n \<le> UINT32_MAX \<Longrightarrow> clean_value (hex08 n)"
proof (intro clean_digits)
  show "hex08 n \<noteq> []" by (simp add: hex08_def pad_left_def hex_def)
  have "digit d \<in> set ''0123456789abcdef,''" if "d < 16" for d
  proof -
    have "digit d \<in> set ''0123456789abcdef''"
      unfolding digit_def by (rule nth_mem) (use that in simp)
    then show ?thesis by auto
  qed
  then have "set (hex n) \<subseteq> set ''0123456789abcdef,''"
    using radix_chars [of 16 _ n] unfolding hex_def by fastforce
  then show "set (hex08 n) \<subseteq> set ''0123456789abcdef,''"
    by (auto simp: hex08_def pad_left_def)
qed

lemma stage_roundtrip [simp]: "stage_of_number (stage_number st) = st"
  by (cases st) (simp_all add: stage_of_number_def)

lemma stage_number_le: "stage_number st \<le> 4"
  by (cases st) simp_all

definition header_lines :: "RelocationJournal \<Rightarrow> string list" where
  "header_lines j = [field_line ''device'' (the (rj_device_path j)), field_line ''volume_id'' (hex08 (rj_volume_id j)),
     field_line ''stage'' (dec (stage_number (rj_stage j))), field_line ''root_old'' (dec (rj_root_old j)),
     field_line ''root_new'' (dec (rj_root_new j)), field_line ''move_count'' (dec (length (rj_moves j)))]"

lemma keys [simp]:
  "''device'' \<in> journal_keys" "''volume_id'' \<in> journal_keys" "''stage'' \<in> journal_keys" "''root_old'' \<in> journal_keys"
  "''root_new'' \<in> journal_keys" "''move_count'' \<in> journal_keys" "''dir_patch_count'' \<in> journal_keys"
  "''move'' \<in> journal_keys" "''dir_patch'' \<in> journal_keys"
  by (simp_all add: journal_keys_def)

lemma file_lines_fields:
  assumes "\<forall>x \<in> set xs. \<exists>key v. key \<in> journal_keys \<and> clean_value v \<and> f x = field_line key v"
  shows "file_lines (concat (map f xs) @ rest) = map f xs @ file_lines rest"
  using assms by (induction xs) (fastforce simp: file_lines_field)+

lemma journal_lines:
  assumes "journal_ok j"
  shows "file_lines (relocation_journal_write_stream j) =
    (RELOCATION_JOURNAL_MAGIC @ [NL]) # header_lines j @ map move_line (rj_moves j) @
    [field_line ''dir_patch_count'' (dec (length (rj_dir_patches j)))] @ map dir_patch_line (rj_dir_patches j)"
proof -
  have moves: "file_lines (concat (map move_line ms) @ rest) = map move_line ms @ file_lines rest" for ms rest
    by (rule file_lines_fields) (metis keys(8) clean_csv list.distinct(1) move_line_csv)
  have patches: "file_lines (concat (map dir_patch_line ps) @ rest) = map dir_patch_line ps @ file_lines rest" for ps rest
    by (rule file_lines_fields) (metis keys(9) clean_csv list.distinct(1) dir_patch_line_csv)
  from patches [of _ "[]"] have patches': "file_lines (concat (map dir_patch_line ps)) = map dir_patch_line ps" for ps by simp
  obtain p where p: "rj_device_path j = Some p" "clean_value p" using assms by (auto simp: journal_ok_def)
  have "clean_value (hex08 (rj_volume_id j))" using assms clean_hex by (simp add: journal_ok_def)
  moreover have "NL \<notin> set RELOCATION_JOURNAL_MAGIC" by simp
  from file_lines_step [OF this]
  have "file_lines (RELOCATION_JOURNAL_MAGIC @ [NL] @ rest) = (RELOCATION_JOURNAL_MAGIC @ [NL]) # file_lines rest" for rest
    by (simp only: append.simps append_Cons append_Nil)
  ultimately show ?thesis
    unfolding relocation_journal_write_stream_def header_lines_def p(1)
    by (simp only: file_lines_field keys clean_dec p(2) moves patches' option.simps option.sel append.simps)
qed

text \<open>The lines before the moves, one by one.\<close>

lemma read_device:
  "journal_text_ok E \<Longrightarrow> clean_value p \<Longrightarrow>
   relocation_line E (field_line ''device'' p) (j, a, b) = Inr (j\<lparr>rj_device_path := Some p\<rparr>, a, b)"
  by (simp add: relocation_line_def config_line)

lemma read_volume_id:
  "journal_text_ok E \<Longrightarrow> n \<le> UINT32_MAX \<Longrightarrow>
   relocation_line E (field_line ''volume_id'' (hex08 n)) (j, a, b) = Inr (j\<lparr>rj_volume_id := n\<rparr>, a, b)"
  by (simp add: relocation_line_def config_line clean_hex parse_u32_value_def journal_text_ok_def u32_id)

lemma parse_dec:
  "journal_text_ok E \<Longrightarrow> n \<le> limit \<Longrightarrow> limit \<le> UINT64_MAX \<Longrightarrow> parse_u64_range E (dec n) 10 0 limit = Some n"
  by (simp add: journal_text_ok_def)

lemma read_stage:
  "journal_text_ok E \<Longrightarrow>
   relocation_line E (field_line ''stage'' (dec (stage_number st))) (j, a, b) = Inr (j\<lparr>rj_stage := st\<rparr>, a, b)"
  by (simp add: relocation_line_def config_line parse_stage_value_def parse_dec stage_number_le)

lemma read_roots:
  assumes "journal_text_ok E" "n \<le> UINT32_MAX"
  shows "relocation_line E (field_line ''root_old'' (dec n)) (j, a, b) = Inr (j\<lparr>rj_root_old := n\<rparr>, a, b)"
    "relocation_line E (field_line ''root_new'' (dec n)) (j, a, b) = Inr (j\<lparr>rj_root_new := n\<rparr>, a, b)"
  using assms by (simp_all add: relocation_line_def config_line parse_u32_value_def parse_dec u32_id)

lemma read_counts:
  assumes "journal_text_ok E" "n \<le> SIZE_MAX"
  shows "relocation_line E (field_line ''move_count'' (dec n)) (j, a, b) = Inr (j, n, b)"
    "relocation_line E (field_line ''dir_patch_count'' (dec n)) (j, a, b) = Inr (j, a, n)"
  using assms by (simp_all add: relocation_line_def config_line parse_size_value_def parse_dec)

lemmas read_lines = read_device read_volume_id read_stage read_roots read_counts

abbreviation empty_journal :: RelocationJournal where
  "empty_journal \<equiv> \<lparr>rj_device_path = None, rj_volume_id = 0, rj_stage = J_PREPARED, rj_root_old = 0,
     rj_root_new = 0, rj_moves = [], rj_dir_patches = []\<rparr>"

lemma read_header:
  assumes "journal_text_ok E" "journal_ok j"
  shows "foldE (relocation_line E) (header_lines j) (empty_journal, 0, 0) =
    Inr (j\<lparr>rj_moves := [], rj_dir_patches := []\<rparr>, length (rj_moves j), 0)"
proof -
  obtain p where p: "rj_device_path j = Some p" "clean_value p" using assms(2) by (auto simp: journal_ok_def)
  have "rj_volume_id j \<le> UINT32_MAX" "rj_root_old j \<le> UINT32_MAX" "rj_root_new j \<le> UINT32_MAX"
    "length (rj_moves j) \<le> SIZE_MAX" using assms(2) by (simp_all add: journal_ok_def)
  with p show ?thesis by (simp add: header_lines_def read_lines [OF assms(1)])
qed

lemma parse_written_journal:
  assumes "journal_text_ok E" "reserve_ok E" "journal_ok j"
  shows "parse_relocation_journal E (relocation_journal_write_stream j) =
    (if relocation_journal_valid j (length (rj_moves j)) (length (rj_dir_patches j)) then Inr j
     else Inl (Die ''relocation journal is incomplete or corrupt''))"
proof -
  have ok: "\<forall>m \<in> set (rj_moves j). move_ok m" "\<forall>p \<in> set (rj_dir_patches j). dir_patch_ok p"
    "length (rj_dir_patches j) \<le> SIZE_MAX" using assms(3) by (simp_all add: journal_ok_def)
  show ?thesis
    by (simp add: parse_relocation_journal_def journal_lines [OF assms(3)] foldE_append read_header [OF assms(1,3)]
        read_moves [OF assms(1,2) ok(1)] read_dir_patches [OF assms(1,2) ok(2)] read_counts [OF assms(1) ok(3)]
        die_if_def)
qed

section \<open>The reference environment\<close>

lemma ref_digit_digit: "d < 16 \<Longrightarrow> ref_digit (digit d) = d"
proof -
  assume "d < 16"
  then have "d = 0 \<or> d = 1 \<or> d = 2 \<or> d = 3 \<or> d = 4 \<or> d = 5 \<or> d = 6 \<or> d = 7 \<or> d = 8 \<or> d = 9 \<or>
      d = 10 \<or> d = 11 \<or> d = 12 \<or> d = 13 \<or> d = 14 \<or> d = 15" by presburger
  then show ?thesis by (elim disjE; simp add: digit_def ref_digit_def)
qed

lemma radix_digits:
  assumes "2 \<le> base" "base \<le> 16"
  shows "list_all (\<lambda>c. ref_digit c < base) (radix base n)"
  using radix_chars [OF assms(1), of _ n] ref_digit_digit assms(2) by (fastforce simp: list_all_iff)

lemma ref_radix_value:
  assumes "2 \<le> base" "base \<le> 16"
  shows "foldl (\<lambda>v c. v * base + ref_digit c) 0 (radix base n) = n"
  by (rule radix_value [OF assms(1)]) (use assms(2) ref_digit_digit in simp)

lemma ref_parse_dec: "n \<le> UINT64_MAX \<Longrightarrow> ref_parse_u64 (dec n) 10 = Some n"
  using radix_digits [of 10 n] ref_radix_value [of 10 n] by (simp add: ref_parse_u64_def digits_value_def dec_def)

lemma ref_parse_hex:
  assumes "n \<le> UINT32_MAX"
  shows "ref_parse_u64 (hex08 n) 16 = Some n"
proof -
  have zero: "foldl (\<lambda>v c. v * 16 + ref_digit c) 0 (replicate k (CHR ''0'')) = 0" for k
    by (induction k) (simp_all add: ref_digit_def)
  have "ref_digit (CHR ''0'') = 0" by (simp add: ref_digit_def)
  then have "list_all (\<lambda>c. ref_digit c < 16) (hex08 n)"
    using radix_digits [of 16 n] by (auto simp: hex08_def pad_left_def hex_def list_all_iff)
  moreover have "foldl (\<lambda>v c. v * 16 + ref_digit c) 0 (hex08 n) = n"
    using ref_radix_value [of 16 n] by (simp add: hex08_def pad_left_def hex_def zero)
  moreover have "hex08 n \<noteq> []" by (simp add: hex08_def pad_left_def hex_def)
  ultimately show ?thesis using assms by (simp add: ref_parse_u64_def digits_value_def)
qed

lemma ref_token_dec:
  assumes "n \<le> UINT64_MAX" "rest = [] \<or> hd rest = CHR '',''"
  shows "ref_token (dec n @ rest) 10 = Some (n, rest)"
proof -
  have digits: "\<forall>c \<in> set (dec n). ref_digit c < 10"
    using radix_digits [of 10 n] by (simp add: dec_def list_all_iff)
  have "dropWhile (\<lambda>c. c = CHR '' '') (dec n @ rest) = dec n @ rest"
  proof (cases "dec n")
    case (Cons c cs)
    then have "c \<noteq> CHR '' ''" using digits by (auto simp: ref_digit_def)
    then show ?thesis by (simp add: Cons)
  qed simp
  moreover have "takeWhile (\<lambda>c. ref_digit c < 10) (dec n @ rest) = dec n"
  proof -
    have "takeWhile (\<lambda>c. ref_digit c < 10) rest = []"
      using assms(2) by (cases rest) (auto simp: ref_digit_def)
    with digits show ?thesis by (simp add: takeWhile_append2)
  qed
  ultimately show ?thesis using ref_parse_dec [OF assms(1)] by (simp add: ref_token_def Let_def)
qed

lemma ref_config_field:
  assumes "key \<in> journal_keys" "clean_value v"
  shows "ref_config_line (field_line key v) = Some (key, v)"
proof -
  have key: "\<forall>c \<in> set key. c \<noteq> CHR ''=''"
    using assms(1) unfolding journal_keys_def by (elim insertE emptyE; simp)
  have ne: "v \<noteq> []" using assms(2) by (simp add: clean_value_def)
  then have "32 \<le> (of_char (List.last v) :: nat)"
    using assms(2) last_in_set [of v] unfolding clean_value_def by blast
  then have v: "v \<noteq> []" "List.last v \<noteq> CHR 0x0A" "List.last v \<noteq> CHR 0x0D"
    using ne by (auto simp del: of_char_eq_iff)
  obtain u c where uc: "v = u @ [c]" using v(1) by (cases v rule: rev_cases) auto
  have "ref_trim (field_line key v) = key @ ''='' @ v"
    using v by (simp add: ref_trim_def field_line_def uc)
  then show ?thesis
    using key by (simp add: ref_config_line_def field_line_def takeWhile_append2 dropWhile_append2)
qed

lemma ref_journal_text: "journal_text_ok ref_env"
  using ref_config_field ref_parse_dec ref_parse_hex ref_token_dec
  by (auto simp: journal_text_ok_def ref_env_def)

lemma make_journal_root:
  assumes "make_relocation_journal E fs refs predecessors moves = Inr j"
  shows "rj_root_old j = fs_root_cluster fs"
proof -
  have add: "foldE (complete_move E fs predecessors) moves j0 = Inr j1 \<Longrightarrow> rj_root_old j1 = rj_root_old j0" for j0 j1
    by (erule foldE_invariant [where P = "\<lambda>j. rj_root_old j = rj_root_old j0"])
      (auto simp: complete_move_def relocation_journal_add_move_def res_simps split: if_splits)
  have refs: "foldE (add_reference E fs relocation) refs st0 = Inr st1 \<Longrightarrow> rj_root_old (fst st1) = rj_root_old (fst st0)"
    for relocation st0 st1
    by (erule foldE_invariant [where P = "\<lambda>st. rj_root_old (fst st) = rj_root_old (fst st0)"])
      (auto simp: add_reference_def relocation_journal_add_dir_patch_def res_simps Let_def split: if_splits prod.splits)
  show ?thesis
    using assms unfolding make_relocation_journal_def
    by (auto simp: res_simps Let_def dest!: add refs split: if_splits)
qed

section \<open>Properties\<close>

text \<open>C23. What a relocation journal says survives a crash: for every journal of an
  interrupted transaction whose fields fit their types, reading the written file gives back
  the journal, with every move and directory patch in its order, and the file is accepted
  exactly when it names moves and a root cluster.\<close>

theorem relocation_journal_roundtrip:
  assumes "journal_text_ok E" "reserve_ok E" "journal_ok j" "rj_moves j \<noteq> []"
    and "w_files w path = Some (relocation_journal_write_stream j)"
  shows "relocation_journal_read E path w =
    (if 2 \<le> rj_root_old j \<and> 2 \<le> rj_root_new j then (Inr j, w)
     else (Inl (Die ''relocation journal is incomplete or corrupt''), w))"
  using parse_written_journal [OF assms(1-3)] assms(3-5)
  by (auto simp: relocation_journal_read_def open_file_def bindI_def readI_def relocation_journal_valid_def journal_ok_def)

definition demo_journal :: RelocationJournal where
  "demo_journal = \<lparr>rj_device_path = Some ''/dev/sda1'', rj_volume_id = 0xABCD, rj_stage = J_SWITCHED, rj_root_old = 2,
     rj_root_new = 9, rj_moves = [\<lparr>mv_source = 2, mv_destination = 9, mv_next = 0x0FFFFFFF, mv_predecessor = 0\<rparr>],
     rj_dir_patches = [\<lparr>dp_offset = 4096, dp_old_target = 2, dp_new_target = 9\<rparr>]\<rparr>"

lemma demo_journal_ok: "journal_ok demo_journal"
  by (simp add: journal_ok_def demo_journal_def move_ok_def dir_patch_ok_def clean_value_def)

definition journal_world :: "RelocationJournal \<Rightarrow> world" where
  "journal_world j = \<lparr>w_disk = [], w_files = [''/j'' \<mapsto> relocation_journal_write_stream j], w_stop = None, w_trace = []\<rparr>"

theorem relocation_journal_roundtrip_witness:
  "relocation_journal_read ref_env ''/j'' (journal_world demo_journal) = (Inr demo_journal, journal_world demo_journal)"
  using relocation_journal_roundtrip [OF ref_journal_text reserve_ok_ref demo_journal_ok, of "journal_world demo_journal" "''/j''"]
  by (simp add: journal_world_def demo_journal_def)


text \<open>The two clusters of the example file exchanged, an offset as it may occur.\<close>

definition demo_fixed_journal :: RelocationJournal where
  "demo_fixed_journal = \<lparr>rj_device_path = Some ''/dev/fd0'', rj_volume_id = 0, rj_stage = J_PREPARED, rj_root_old = 0,
     rj_root_new = 0, rj_moves = [\<lparr>mv_source = 2, mv_destination = 3, mv_next = 3, mv_predecessor = 0\<rparr>],
     rj_dir_patches = [\<lparr>dp_offset = 1024, dp_old_target = 2, dp_new_target = 3\<rparr>]\<rparr>"

lemma demo_make_journal:
  "make_relocation_journal ref_env demo_fs [\<lparr>ref_offset = 1024, ref_target_cluster = 2\<rparr>] [0, 0, 0, 2]
     [\<lparr>mv_source = 2, mv_destination = 3, mv_next = 0, mv_predecessor = 0\<rparr>] = Inr demo_fixed_journal"
proof -
  have v: "fat_value demo_fs 2 = Inr 3"
    using demo_entry [of 2] demo_raw_entries by (simp add: fat_value_Inr)
  have f: "fs_root_cluster demo_fs = 0" "fs_volume_id demo_fs = 0" "dev_path demo_device = ''/dev/fd0''"
    "fs_root_is_fixed demo_fs" "fs_root_dir_size demo_fs = 512"
    by (simp_all add: demo_fs_def fat32_of_geometry_def demo_geometry_def Let_def demo_device_def)
  have four: "replicate 4 x = [x, x, x, x]" "[a, b, c, d][2 := x] = [a, b, x, d]" "[a, b, c, d][3 := x] = [a, b, c, x]"
    for x a b c d :: 'x
    by (simp_all add: eval_nat_numeral)
  show ?thesis
    by (simp add: make_relocation_journal_def complete_move_def v f four array_get_def relocation_journal_add_move_def
      reserve_u64 [OF reserve_ok_ref] build_relocation_map_def map_move_def die_if_def add_reference_def
      patch_location_def in_fixed_root_def relocation_journal_add_dir_patch_def demo_fixed_journal_def Let_def)
qed

lemma demo_fixed_ok: "journal_ok demo_fixed_journal"
  by (simp add: journal_ok_def demo_fixed_journal_def move_ok_def dir_patch_ok_def clean_value_def)


end
