(* ===== verification/FatRelocationMap.thy ===== *)
theory FatRelocationMap
  imports FatRelocation
begin

text \<open>
  The tables of a relocation: the map from old to new clusters, the predecessors, and the
  effect of the link updates on every chain.
\<close>

section \<open>The relocation map\<close>

definition sources_of :: "RelocationMove list \<Rightarrow> nat list" where
  "sources_of moves = map mv_source moves"

definition destinations_of :: "RelocationMove list \<Rightarrow> nat list" where
  "destinations_of moves = map mv_destination moves"

text \<open>Moves between data clusters, each source once, each destination once and never a source.\<close>

definition moves_ok :: "Fat32 \<Rightarrow> RelocationMove list \<Rightarrow> bool" where
  "moves_ok fs moves \<longleftrightarrow>
     (\<forall>m \<in> set moves. data_cluster fs (mv_source m) \<and> data_cluster fs (mv_destination m)) \<and>
     distinct (sources_of moves) \<and> distinct (destinations_of moves) \<and>
     set (sources_of moves) \<inter> set (destinations_of moves) = {}"

text \<open>The map as a table with one entry per cluster.\<close>

definition is_map :: "Fat32 \<Rightarrow> RelocationMove list \<Rightarrow> nat list \<Rightarrow> bool" where
  "is_map fs moves table \<longleftrightarrow> length table = fs_max_cluster fs + 1 \<and>
     (\<forall>c \<le> fs_max_cluster fs. table ! c \<noteq> 0 \<longleftrightarrow> c \<in> set (sources_of moves)) \<and>
     (\<forall>m \<in> set moves. table ! mv_source m = mv_destination m)"

definition partial_map :: "Fat32 \<Rightarrow> RelocationMove list \<Rightarrow> nat list \<times> bool list \<Rightarrow> bool" where
  "partial_map fs ms st \<longleftrightarrow> is_map fs ms (fst st) \<and> length (snd st) = fs_max_cluster fs + 1 \<and>
     (\<forall>m \<in> set ms. data_cluster fs (mv_source m) \<and> data_cluster fs (mv_destination m)) \<and>
     (\<forall>c \<le> fs_max_cluster fs. snd st ! c \<longleftrightarrow> c \<in> set (destinations_of ms)) \<and>
     distinct (sources_of ms) \<and> distinct (destinations_of ms)"

lemma map_move_step:
  assumes "map_move fs m a = Inr b" "partial_map fs ms a"
  shows "partial_map fs (ms @ [m]) b"
proof -
  obtain t d where a: "a = (t, d)" by (cases a)
  from assms(1) have m: "data_cluster fs (mv_source m)" "data_cluster fs (mv_destination m)"
    "t ! mv_source m = 0" "\<not> d ! mv_destination m"
    "b = (t[mv_source m := mv_destination m], d[mv_destination m := True])"
    by (auto simp: a map_move_def res_simps data_cluster_def)
  have len: "length t = fs_max_cluster fs + 1" "length d = fs_max_cluster fs + 1"
    using assms(2) by (auto simp: a partial_map_def is_map_def)
  have new: "mv_source m \<notin> set (sources_of ms)" "mv_destination m \<notin> set (destinations_of ms)"
    using m assms(2) by (auto simp: a partial_map_def is_map_def data_cluster_def)
  have src: "mv_source m < length t" using m(1) len by (simp add: data_cluster_def)
  have old: "\<And>c. c \<le> fs_max_cluster fs \<Longrightarrow> t ! c \<noteq> 0 \<longleftrightarrow> c \<in> set (sources_of ms)"
    "\<And>x. x \<in> set ms \<Longrightarrow> t ! mv_source x = mv_destination x"
    using assms(2) by (auto simp: a partial_map_def is_map_def)
  have "t[mv_source m := mv_destination m] ! c \<noteq> 0 \<longleftrightarrow> c \<in> set (sources_of (ms @ [m]))" if "c \<le> fs_max_cluster fs" for c
    using old(1) [OF that] m(2) src by (cases "c = mv_source m") (auto simp: sources_of_def data_cluster_def)
  moreover have "t[mv_source m := mv_destination m] ! mv_source x = mv_destination x" if x: "x \<in> set (ms @ [m])" for x
  proof (cases "x = m")
    case False
    then have "x \<in> set ms" using x by simp
    moreover from this have "mv_source x \<noteq> mv_source m" using new(1) unfolding sources_of_def by (metis image_eqI set_map)
    ultimately show ?thesis using old(2) by simp
  qed (use src in simp)
  ultimately show ?thesis
    using assms(2) m len new
    by (auto simp: a partial_map_def is_map_def sources_of_def destinations_of_def nth_list_update data_cluster_def)
qed

lemma partial_map_foldE:
  assumes "foldE (map_move fs) moves (replicate (fs_max_cluster fs + 1) 0, replicate (fs_max_cluster fs + 1) False) = Inr st"
  shows "partial_map fs moves st"
  using assms
proof (rule foldE_prefix_invariant [where P = "partial_map fs"])
  show "partial_map fs [] (replicate (fs_max_cluster fs + 1) 0, replicate (fs_max_cluster fs + 1) False)"
    by (simp add: partial_map_def is_map_def sources_of_def destinations_of_def del: replicate_Suc)
qed (use map_move_step in blast)

lemma build_relocation_map_sound:
  assumes "build_relocation_map fs moves = Inr table"
  shows "moves_ok fs moves \<and> is_map fs moves table"
proof -
  obtain dests where st: "foldE (map_move fs) moves
      (replicate (fs_max_cluster fs + 1) 0, replicate (fs_max_cluster fs + 1) False) = Inr (table, dests)"
    "\<not> list_ex (\<lambda>m. dests ! mv_source m) moves"
    using assms by (auto simp: build_relocation_map_def res_simps)
  note p = partial_map_foldE [OF st(1)]
  have "set (sources_of moves) \<inter> set (destinations_of moves) = {}"
    using st(2) p by (auto simp: partial_map_def sources_of_def list_ex_iff data_cluster_def)
  with p show ?thesis by (auto simp: partial_map_def moves_ok_def)
qed

lemma build_relocation_map_complete:
  assumes "moves_ok fs moves"
  shows "\<exists>table. build_relocation_map fs moves = Inr table"
proof -
  let ?init = "(replicate (fs_max_cluster fs + 1) 0, replicate (fs_max_cluster fs + 1) False)"
  have "\<exists>st. foldE (map_move fs) zs a = Inr st" if "moves = ys @ zs" "partial_map fs ys a" for ys zs a
    using that
  proof (induction zs arbitrary: ys a)
    case (Cons m zs)
    obtain t d where a: "a = (t, d)" by (cases a)
    have m: "data_cluster fs (mv_source m)" "data_cluster fs (mv_destination m)" "mv_source m \<noteq> mv_destination m"
      "mv_source m \<notin> set (sources_of ys)" "mv_destination m \<notin> set (destinations_of ys)"
      using assms Cons.prems(1) by (auto simp: moves_ok_def sources_of_def destinations_of_def)
    then have "t ! mv_source m = 0" "\<not> d ! mv_destination m"
      using Cons.prems(2) by (auto simp: a partial_map_def is_map_def data_cluster_def)
    with m have "map_move fs m a = Inr (t[mv_source m := mv_destination m], d[mv_destination m := True])"
      by (auto simp: a map_move_def die_if_def data_cluster_def)
    with Cons.IH [of "ys @ [m]"] Cons.prems map_move_step [OF this] show ?case by simp
  qed simp
  moreover have "partial_map fs [] ?init"
    by (simp add: partial_map_def is_map_def sources_of_def destinations_of_def del: replicate_Suc)
  ultimately obtain table dests where st: "foldE (map_move fs) moves ?init = Inr (table, dests)"
    by (metis append_Nil surj_pair)
  note p = partial_map_foldE [OF st]
  have "\<not> list_ex (\<lambda>m. dests ! mv_source m) moves"
    using p assms by (auto simp: partial_map_def moves_ok_def list_ex_iff sources_of_def data_cluster_def)
  then show ?thesis unfolding build_relocation_map_def st by (simp add: die_if_def)
qed

section \<open>The predecessor table\<close>

text \<open>An entry that continues a chain: a data cluster, whatever its place in the reserved range.\<close>

definition points_to :: "Fat32 \<Rightarrow> nat \<Rightarrow> nat \<Rightarrow> bool" where
  "points_to fs p c \<longleftrightarrow> data_cluster fs p \<and> data_cluster fs c \<and> fat_entry fs p = c"

lemma is_cluster_entry: "fat_value_is_cluster fs (fat_entry fs p) \<longleftrightarrow> data_cluster fs (fat_entry fs p)"
  by (simp add: fat_value_is_cluster_def Let_def fat_entry_def data_cluster_def)

definition is_predecessors :: "Fat32 \<Rightarrow> nat list \<Rightarrow> bool" where
  "is_predecessors fs table \<longleftrightarrow> length table = fs_max_cluster fs + 1 \<and>
     (\<forall>c p. points_to fs p c \<longrightarrow> table ! c = p) \<and>
     (\<forall>c \<le> fs_max_cluster fs. table ! c \<noteq> 0 \<longrightarrow> points_to fs (table ! c) c)"

lemma note_predecessor_step:
  assumes "note_predecessor fs c a = Inr b" "data_cluster fs c" "c \<notin> set cs"
    and "length a = fs_max_cluster fs + 1" "\<forall>p \<in> set cs. \<forall>n. points_to fs p n \<longrightarrow> a ! n = p"
    and "\<forall>n \<le> fs_max_cluster fs. a ! n \<noteq> 0 \<longrightarrow> points_to fs (a ! n) n"
  shows "length b = fs_max_cluster fs + 1 \<and> (\<forall>p \<in> set (cs @ [c]). \<forall>n. points_to fs p n \<longrightarrow> b ! n = p) \<and>
    (\<forall>n \<le> fs_max_cluster fs. b ! n \<noteq> 0 \<longrightarrow> points_to fs (b ! n) n)"
proof (cases "fat_value_is_cluster fs (fat_entry fs c)")
  case False
  then have "b = a" using assms(1) by (auto simp: note_predecessor_def res_simps fat_value_Inr)
  moreover have "\<not> points_to fs c n" for n using False is_cluster_entry by (auto simp: points_to_def)
  ultimately show ?thesis using assms(4-6) by auto
next
  case True
  let ?n = "fat_entry fs c"
  from True assms(1) have b: "a ! ?n = 0" "b = a[?n := c]"
    by (auto simp: note_predecessor_def res_simps fat_value_Inr)
  have n: "data_cluster fs ?n" using True is_cluster_entry by simp
  then have len: "?n < length a" using assms(4) by (simp add: data_cluster_def)
  have c: "points_to fs c ?n" using n assms(2) by (simp add: points_to_def)
  have "b ! m = p" if p: "p \<in> set (cs @ [c])" "points_to fs p m" for p m
  proof (cases "p = c")
    case True
    then have "m = ?n" using p(2) by (simp add: points_to_def)
    with True len show ?thesis by (simp add: b)
  next
    case False
    then have a: "a ! m = p" "p \<noteq> 0" using p assms(5) by (auto simp: points_to_def data_cluster_def)
    then have "m \<noteq> ?n" using b(1) by auto
    with a show ?thesis by (simp add: b)
  qed
  moreover have "points_to fs (b ! m) m" if "m \<le> fs_max_cluster fs" "b ! m \<noteq> 0" for m
    using that assms(6) c len by (cases "m = ?n") (simp_all add: b)
  ultimately show ?thesis using assms(4) by (simp add: b)
qed

lemma build_predecessor_table_sound:
  assumes "build_predecessor_table fs = Inr table"
  shows "is_predecessors fs table"
proof -
  let ?P = "\<lambda>cs a. length a = fs_max_cluster fs + 1 \<and> (\<forall>p \<in> set cs. \<forall>n. points_to fs p n \<longrightarrow> a ! n = p) \<and>
    (\<forall>n \<le> fs_max_cluster fs. a ! n \<noteq> 0 \<longrightarrow> points_to fs (a ! n) n)"
  have "?P [2..<fs_max_cluster fs + 1] table"
    using assms unfolding build_predecessor_table_def
  proof (rule foldE_prefix_invariant [where P = ?P])
    show "?P [] (replicate (fs_max_cluster fs + 1) 0)" by (simp del: replicate_Suc)
  next
    fix ys x zs a b
    assume xs: "[2..<fs_max_cluster fs + 1] = ys @ x # zs" and P: "?P ys a" and run: "note_predecessor fs x a = Inr b"
    have "x \<in> set [2..<fs_max_cluster fs + 1]" by (simp only: xs) simp
    then have x: "data_cluster fs x" by (auto simp: data_cluster_def simp del: upt_Suc)
    have "distinct (ys @ x # zs)" by (metis xs distinct_upt)
    then have "x \<notin> set ys" by simp
    with note_predecessor_step [OF run x this] P show "?P (ys @ [x]) b" by blast
  qed
  then show ?thesis by (auto simp: is_predecessors_def points_to_def data_cluster_def simp del: upt_Suc)
qed

section \<open>The link updates\<close>

lemma and_mask_small: "v \<le> fat_mask fs \<Longrightarrow> v AND fat_mask fs = v"
  by (cases "fs_fat_type fs") (simp_all add: fat_mask_def)

lemma data_cluster_le_mask: "table_ok fs \<Longrightarrow> c < fat_eoc_min fs \<Longrightarrow> c AND fat_mask fs = c"
  using fat_constants [of fs] by (intro and_mask_small) simp

lemma put_all_distinct:
  assumes "table_ok fs" "\<forall>u \<in> set us. upd_cluster u < fs_fat_entry_count fs" "distinct (map upd_cluster us)"
  shows "u \<in> set us \<Longrightarrow> fat_entry (put_all us fs) (upd_cluster u) = upd_value u AND fat_mask fs"
    and "c < fs_fat_entry_count fs \<Longrightarrow> c \<notin> upd_cluster ` set us \<Longrightarrow> fat_entry (put_all us fs) c = fat_entry fs c"
proof -
  let ?l = "rev (map (\<lambda>u. (upd_cluster u, upd_value u)) us)"
  {
    assume u: "u \<in> set us"
    have "distinct (map fst ?l)" using assms(3) by (simp add: rev_map [symmetric] o_def)
    moreover have "(upd_cluster u, upd_value u) \<in> set ?l" using u by auto
    ultimately have "map_of ?l (upd_cluster u) = Some (upd_value u)" by simp
    then show "fat_entry (put_all us fs) (upd_cluster u) = upd_value u AND fat_mask fs"
      using entry_put_all [OF assms(1,2), of "upd_cluster u"] assms(2) u by simp
  }
  assume "c < fs_fat_entry_count fs" "c \<notin> upd_cluster ` set us"
  moreover from this have "map_of ?l c = None" by (auto simp: map_of_eq_None_iff)
  ultimately show "fat_entry (put_all us fs) c = fat_entry fs c"
    using entry_put_all [OF assms(1,2), of c] by simp
qed

definition moved :: "nat list \<Rightarrow> nat \<Rightarrow> nat" where
  "moved table c = (if table ! c \<noteq> 0 then table ! c else c)"

text \<open>The moves with the links read from the table, as the journal records them.\<close>

definition complete_moves :: "Fat32 \<Rightarrow> nat list \<Rightarrow> RelocationMove list \<Rightarrow> bool" where
  "complete_moves fs predecessors moves \<longleftrightarrow>
     (\<forall>m \<in> set moves. mv_next m = fat_entry fs (mv_source m) \<and> mv_predecessor m = predecessors ! mv_source m)"

definition new_next :: "Fat32 \<Rightarrow> nat list \<Rightarrow> nat \<Rightarrow> nat" where
  "new_next fs table v = (if data_cluster fs v then moved table v else v)"

definition destination_upd :: "Fat32 \<Rightarrow> nat list \<Rightarrow> RelocationMove \<Rightarrow> FatUpdate" where
  "destination_upd fs table m = \<lparr>upd_cluster = mv_destination m, upd_value = new_next fs table (mv_next m)\<rparr>"

definition predecessor_upd :: "RelocationMove \<Rightarrow> FatUpdate" where
  "predecessor_upd m = \<lparr>upd_cluster = mv_predecessor m, upd_value = mv_destination m\<rparr>"

lemma link_updates_eq:
  assumes "is_map fs moves table" "is_predecessors fs preds" "complete_moves fs preds ms"
    and "\<forall>m \<in> set ms. data_cluster fs (mv_source m)" "link_updates fs table ms = Inr us"
  shows "us = map (destination_upd fs table) ms @
    map predecessor_upd (filter (\<lambda>m. mv_predecessor m \<noteq> 0 \<and> table ! mv_predecessor m = 0) ms)"
proof -
  have dest: "foldE (destination_update fs table) xs us0 = Inr us1 \<Longrightarrow> set xs \<subseteq> set ms \<Longrightarrow>
      us1 = us0 @ map (destination_upd fs table) xs" for xs us0 us1
  proof (induction xs arbitrary: us0)
    case (Cons m xs)
    have nx: "mv_next m = fat_entry fs (mv_source m)" using assms(3) Cons.prems(2) by (simp add: complete_moves_def)
    from Cons.prems(1) obtain v where v: "destination_update fs table m us0 = Inr v"
      "foldE (destination_update fs table) xs v = Inr us1" by (auto simp: res_simps)
    have "v = us0 @ [destination_upd fs table m]"
      using v(1) is_cluster_entry [of fs "mv_source m"]
      by (auto simp: destination_update_def res_simps destination_upd_def new_next_def moved_def nx split: if_splits)
    with Cons.IH [OF v(2)] Cons.prems(2) show ?case by simp
  qed simp
  have pred: "foldE (predecessor_update table) xs us0 = Inr us1 \<Longrightarrow>
      us1 = us0 @ map predecessor_upd (filter (\<lambda>m. mv_predecessor m \<noteq> 0 \<and> table ! mv_predecessor m = 0) xs)" for xs us0 us1
  proof (induction xs arbitrary: us0)
    case (Cons m xs)
    let ?b = "mv_predecessor m \<noteq> 0 \<and> table ! mv_predecessor m = 0"
    from Cons.prems obtain v where v: "predecessor_update table m us0 = Inr v"
      "foldE (predecessor_update table) xs v = Inr us1" by (auto simp: res_simps)
    have "v = us0 @ (if ?b then [predecessor_upd m] else [])"
      using v(1) by (auto simp: predecessor_update_def res_simps predecessor_upd_def split: if_splits)
    with Cons.IH [OF v(2)] show ?case by simp
  qed simp
  from assms(5) obtain us0 where "foldE (destination_update fs table) ms [] = Inr us0"
    "foldE (predecessor_update table) ms us0 = Inr us" by (auto simp: link_updates_def res_simps)
  with dest [of ms "[]" us0] pred [of ms us0 us] show ?thesis by simp
qed

text \<open>Everything the switch of a transaction relies on.\<close>

definition switch_ok :: "Fat32 \<Rightarrow> nat list \<Rightarrow> nat list \<Rightarrow> RelocationMove list \<Rightarrow> bool" where
  "switch_ok fs table preds moves \<longleftrightarrow>
     table_ok fs \<and> fs_max_cluster fs < fat_eoc_min fs \<and> moves_ok fs moves \<and> is_map fs moves table \<and>
     is_predecessors fs preds \<and> complete_moves fs preds moves \<and>
     (\<forall>m \<in> set moves. fat_entry fs (mv_destination m) = 0)"

lemma switch_distinct:
  assumes "switch_ok fs table preds moves" "link_updates fs table moves = Inr us"
  shows "distinct (map upd_cluster us) \<and> (\<forall>u \<in> set us. upd_cluster u < fs_fat_entry_count fs) \<and>
    us = map (destination_upd fs table) moves @
      map predecessor_upd (filter (\<lambda>m. mv_predecessor m \<noteq> 0 \<and> table ! mv_predecessor m = 0) moves)"
proof -
  let ?Q = "filter (\<lambda>m. mv_predecessor m \<noteq> 0 \<and> table ! mv_predecessor m = 0) moves"
  have ok: "table_ok fs" "moves_ok fs moves" "is_map fs moves table" "is_predecessors fs preds"
    "complete_moves fs preds moves" using assms(1) by (auto simp: switch_ok_def)
  have data: "data_cluster fs (mv_source m)" "data_cluster fs (mv_destination m)" if "m \<in> set moves" for m
    using ok(2) that by (auto simp: moves_ok_def)
  have us: "us = map (destination_upd fs table) moves @ map predecessor_upd ?Q"
    using link_updates_eq [OF ok(3-5) _ assms(2)] data by blast
  have points: "points_to fs (mv_predecessor m) (mv_source m)" if "m \<in> set ?Q" for m
    using that ok(4,5) data by (auto simp: complete_moves_def is_predecessors_def data_cluster_def)
  have dests: "map upd_cluster (map (destination_upd fs table) moves) = destinations_of moves"
    by (simp add: destination_upd_def destinations_of_def)
  have preds: "map upd_cluster (map predecessor_upd ?Q) = map mv_predecessor ?Q"
    by (simp add: predecessor_upd_def)
  have "distinct (map mv_predecessor ?Q)"
  proof -
    have "inj_on mv_source (set moves)" "distinct moves"
      using ok(2) by (auto simp: moves_ok_def sources_of_def distinct_map)
    moreover have "mv_source m = mv_source m'" if "m \<in> set ?Q" "m' \<in> set ?Q" "mv_predecessor m = mv_predecessor m'" for m m'
      using points [OF that(1)] points [OF that(2)] that(3) by (simp add: points_to_def)
    ultimately show ?thesis by (auto simp: distinct_map inj_on_def)
  qed
  moreover have "set (destinations_of moves) \<inter> set (map mv_predecessor ?Q) = {}"
  proof -
    have "fat_entry fs c = 0" if "c \<in> set (destinations_of moves)" for c
      using that assms(1) by (auto simp: switch_ok_def destinations_of_def)
    moreover have "fat_entry fs c \<noteq> 0" if c: "c \<in> set (map mv_predecessor ?Q)" for c
    proof -
      obtain m where "m \<in> set ?Q" "c = mv_predecessor m" using c unfolding set_map by blast
      with points [of m] show ?thesis by (simp add: points_to_def data_cluster_def)
    qed
    ultimately show ?thesis by blast
  qed
  moreover have "distinct (destinations_of moves)" using ok(2) by (simp add: moves_ok_def)
  ultimately have "distinct (map upd_cluster us)" by (simp only: us map_append dests preds distinct_append)
  moreover have "upd_cluster u < fs_fat_entry_count fs" if "u \<in> set us" for u
  proof -
    have "data_cluster fs (upd_cluster u)"
      using that us data points by (auto simp: destination_upd_def predecessor_upd_def points_to_def)
    then show ?thesis using ok(1) by (simp add: table_ok_def data_cluster_def)
  qed
  ultimately show ?thesis using us by blast
qed

section \<open>The table after the transaction\<close>

definition free_upd :: "nat \<Rightarrow> FatUpdate" where
  "free_upd c = \<lparr>upd_cluster = c, upd_value = 0\<rparr>"

text \<open>The volume after the links are switched and the sources freed.\<close>

definition relocated :: "FatUpdate list \<Rightarrow> RelocationMove list \<Rightarrow> Fat32 \<Rightarrow> Fat32" where
  "relocated us moves fs = put_all (map free_upd (sources_of moves)) (put_all us fs)"

lemma relocated_same [simp]:
  "fs_max_cluster (relocated us moves fs) = fs_max_cluster fs"
  "data_cluster (relocated us moves fs) = data_cluster fs"
  "fat_ends (relocated us moves fs) c \<longleftrightarrow> fat_eoc_min fs \<le> fat_entry (relocated us moves fs) c"
  "fat_reserved_min (relocated us moves fs) = fat_reserved_min fs"
  by (simp_all add: relocated_def data_cluster_def fun_eq_iff fat_ends_def fat_eoc_min_def fat_reserved_min_def)

lemma fat_mask_put_all [simp]: "fat_mask (put_all us fs) = fat_mask fs"
  by (simp add: fat_mask_def)

lemma relocated_freed:
  assumes "table_ok fs" "\<forall>c \<in> set (sources_of moves). data_cluster fs c" "distinct (sources_of moves)"
  shows "c \<in> set (sources_of moves) \<Longrightarrow> fat_entry (relocated us moves fs) c = 0"
    and "c < fs_fat_entry_count fs \<Longrightarrow> c \<notin> set (sources_of moves) \<Longrightarrow>
      fat_entry (relocated us moves fs) c = fat_entry (put_all us fs) c"
proof -
  let ?f = "put_all us fs" and ?us = "map free_upd (sources_of moves)"
  have f: "table_ok ?f" using assms(1) by (rule table_ok_put_all)
  have r: "\<forall>u \<in> set ?us. upd_cluster u < fs_fat_entry_count ?f"
    using assms(1,2) by (auto simp: free_upd_def table_ok_def data_cluster_def)
  have d: "distinct (map upd_cluster ?us)" using assms(3) by (simp add: free_upd_def o_def)
  show "c \<in> set (sources_of moves) \<Longrightarrow> fat_entry (relocated us moves fs) c = 0"
    using put_all_distinct(1) [OF f r d, of "free_upd c"] by (simp add: relocated_def free_upd_def)
  show "c < fs_fat_entry_count fs \<Longrightarrow> c \<notin> set (sources_of moves) \<Longrightarrow>
      fat_entry (relocated us moves fs) c = fat_entry (put_all us fs) c"
    using put_all_distinct(2) [OF f r d, of c] by (simp add: relocated_def free_upd_def image_image)
qed

lemma moved_source:
  assumes "moves_ok fs moves" "is_map fs moves table" "m \<in> set moves"
  shows "moved table (mv_source m) = mv_destination m"
  using assms by (auto simp: moved_def is_map_def moves_ok_def data_cluster_def)

lemma moved_other:
  assumes "is_map fs moves table" "data_cluster fs c" "c \<notin> set (sources_of moves)"
  shows "moved table c = c"
proof -
  have "table ! c = 0" using assms by (auto simp: is_map_def data_cluster_def)
  then show ?thesis by (simp add: moved_def)
qed

lemma relocated_entry:
  assumes "switch_ok fs table preds moves" "link_updates fs table moves = Inr us"
    and "data_cluster fs c" "c \<notin> set (destinations_of moves)"
  shows "fat_entry (relocated us moves fs) (moved table c) = new_next fs table (fat_entry fs c) AND fat_mask fs"
proof -
  let ?Q = "filter (\<lambda>m. mv_predecessor m \<noteq> 0 \<and> table ! mv_predecessor m = 0) moves"
  have ok: "table_ok fs" "moves_ok fs moves" "is_map fs moves table" "is_predecessors fs preds"
    "complete_moves fs preds moves" using assms(1) by (auto simp: switch_ok_def)
  have us: "distinct (map upd_cluster us)" "\<forall>u \<in> set us. upd_cluster u < fs_fat_entry_count fs"
    "us = map (destination_upd fs table) moves @ map predecessor_upd ?Q"
    using switch_distinct [OF assms(1,2)] by blast+
  have srcs: "\<forall>c \<in> set (sources_of moves). data_cluster fs c" "distinct (sources_of moves)"
    and apart: "set (sources_of moves) \<inter> set (destinations_of moves) = {}"
    using ok(2) by (auto simp: moves_ok_def sources_of_def)
  note freed = relocated_freed [OF ok(1) srcs, where us = us]
  note put = put_all_distinct [OF ok(1) us(2,1)]
  have range: "x < fs_fat_entry_count fs" if "data_cluster fs x" for x
    using that ok(1) by (simp add: table_ok_def data_cluster_def)
  have in_Q: "points_to fs (mv_predecessor m) (mv_source m)" "m \<in> set moves" if "m \<in> set ?Q" for m
    using that ok(2,4,5) by (auto simp: complete_moves_def is_predecessors_def moves_ok_def data_cluster_def)
  show ?thesis
  proof (cases "c \<in> set (sources_of moves)")
    case True
    then obtain m where m: "m \<in> set moves" "c = mv_source m" by (auto simp: sources_of_def)
    have d: "data_cluster fs (mv_destination m)" "mv_destination m \<in> set (destinations_of moves)"
      using ok(2) m(1) by (auto simp: moves_ok_def destinations_of_def)
    have "destination_upd fs table m \<in> set us" using m(1) by (simp add: us(3))
    from put(1) [OF this] have "fat_entry (put_all us fs) (mv_destination m) =
        new_next fs table (fat_entry fs c) AND fat_mask fs"
      using ok(5) m by (simp add: destination_upd_def complete_moves_def)
    then show ?thesis
      using freed(2) [OF range [OF d(1)]] d(2) apart moved_source [OF ok(2,3) m(1)] m(2) by auto
  next
    case False
    have keep: "moved table c = c" "table ! c = 0"
      using moved_other [OF ok(3) assms(3) False] ok(3) assms(3) False by (auto simp: is_map_def data_cluster_def)
    have f: "fat_entry (relocated us moves fs) c = fat_entry (put_all us fs) c"
      using freed(2) [OF range [OF assms(3)] False] .
    show ?thesis
    proof (cases "\<exists>m \<in> set ?Q. c = mv_predecessor m")
      case True
      then obtain m where m: "m \<in> set ?Q" "c = mv_predecessor m" by blast
      have "predecessor_upd m \<in> set us" using m(1) by (simp add: us(3))
      from put(1) [OF this] have "fat_entry (put_all us fs) c = mv_destination m AND fat_mask fs"
        by (simp add: predecessor_upd_def m(2))
      moreover have "new_next fs table (fat_entry fs c) = mv_destination m"
        using in_Q [OF m(1)] moved_source [OF ok(2,3)] by (simp add: points_to_def new_next_def m(2))
      ultimately show ?thesis using f keep by simp
    next
      case other: False
      have "c \<notin> upd_cluster ` set us"
        using assms(4) other by (auto simp: us(3) destination_upd_def predecessor_upd_def destinations_of_def)
      then have same: "fat_entry (put_all us fs) c = fat_entry fs c" using put(2) [OF range [OF assms(3)]] by simp
      have "fat_entry fs c \<notin> set (sources_of moves)"
      proof
        assume "fat_entry fs c \<in> set (sources_of moves)"
        then obtain m where m: "m \<in> set moves" "mv_source m = fat_entry fs c" by (auto simp: sources_of_def)
        have "points_to fs c (mv_source m)"
          using assms(3) ok(2) m by (auto simp: points_to_def moves_ok_def)
        then have "mv_predecessor m = c" using ok(4,5) m(1) by (auto simp: is_predecessors_def complete_moves_def)
        with other keep(2) assms(3) m(1) show False by (auto simp: data_cluster_def)
      qed
      then have "new_next fs table (fat_entry fs c) = fat_entry fs c"
        using moved_other [OF ok(3)] by (simp add: new_next_def)
      then show ?thesis using f same keep by (simp add: fat_entry_def)
    qed
  qed
qed

lemma moved_inj:
  assumes "moves_ok fs moves" "is_map fs moves table" "\<forall>c \<in> S. data_cluster fs c"
    and "S \<inter> set (destinations_of moves) = {}"
  shows "inj_on (moved table) S"
proof (rule inj_onI)
  fix x y assume xy: "x \<in> S" "y \<in> S" "moved table x = moved table y"
  have dest: "moved table c \<in> set (destinations_of moves) \<longleftrightarrow> c \<in> set (sources_of moves)" if "c \<in> S" for c
  proof (cases "c \<in> set (sources_of moves)")
    case True
    then obtain m where "m \<in> set moves" "c = mv_source m" by (auto simp: sources_of_def)
    with moved_source [OF assms(1,2)] True show ?thesis by (auto simp: destinations_of_def)
  next
    case False
    with moved_other [OF assms(2)] assms(3,4) that show ?thesis by auto
  qed
  show "x = y"
  proof (cases "x \<in> set (sources_of moves)")
    case True
    then have "y \<in> set (sources_of moves)" using dest xy by metis
    with True obtain m n where mn: "m \<in> set moves" "x = mv_source m" "n \<in> set moves" "y = mv_source n"
      by (auto simp: sources_of_def)
    then have "mv_destination m = mv_destination n" using xy(3) moved_source [OF assms(1,2)] by simp
    moreover have "inj_on mv_destination (set moves)"
      using assms(1) by (simp add: moves_ok_def destinations_of_def distinct_map)
    ultimately have "m = n" using mn by (simp add: inj_on_def)
    then show ?thesis using mn by simp
  next
    case False
    then have "y \<notin> set (sources_of moves)" using dest xy by metis
    with False show ?thesis using xy moved_other [OF assms(2)] assms(3) by metis
  qed
qed

text \<open>Every chain survives, with its clusters renamed by the map.\<close>

lemma relocated_linked:
  assumes "switch_ok fs table preds moves" "link_updates fs table moves = Inr us"
    and "\<forall>m \<in> set moves. mv_destination m < fat_reserved_min fs" "linked fs cs"
  shows "linked (relocated us moves fs) (map (moved table) cs)"
proof -
  have ok: "table_ok fs" "moves_ok fs moves" "is_map fs moves table" "fs_max_cluster fs < fat_eoc_min fs"
    using assms(1) by (auto simp: switch_ok_def)
  have free: "fat_entry fs c = 0" if "c \<in> set (destinations_of moves)" for c
    using that assms(1) by (auto simp: switch_ok_def destinations_of_def)
  have used: "c \<notin> set (destinations_of moves)" if "fat_entry fs c \<noteq> 0" for c
    using free [of c] that by auto
  have data: "data_cluster fs (moved table c)" if "data_cluster fs c" for c
  proof (cases "c \<in> set (sources_of moves)")
    case True
    then obtain m where "m \<in> set moves" "c = mv_source m" by (auto simp: sources_of_def)
    with moved_source [OF ok(2,3)] ok(2) show ?thesis by (auto simp: moves_ok_def)
  qed (use moved_other [OF ok(3) that] that in simp)
  have small: "moved table c < fat_reserved_min fs" if "data_cluster fs c" "c < fat_reserved_min fs" for c
  proof (cases "c \<in> set (sources_of moves)")
    case True
    then obtain m where "m \<in> set moves" "c = mv_source m" by (auto simp: sources_of_def)
    with moved_source [OF ok(2,3)] assms(3) show ?thesis by auto
  qed (use moved_other [OF ok(3) that(1)] that in simp)
  show ?thesis
    using assms(4)
  proof (induction cs rule: induct_list012)
    case (2 c)
    then have c: "data_cluster fs c" "fat_eoc_min fs \<le> fat_entry fs c" by (auto simp: fat_ends_def)
    have "fat_entry fs c \<noteq> 0" using c(2) fat_constants [of fs] by simp
    note e = relocated_entry [OF assms(1,2) c(1) used [OF this]]
    have "new_next fs table (fat_entry fs c) = fat_entry fs c"
      using c(2) ok(4) by (simp add: new_next_def data_cluster_def)
    then show ?case using e c data by (simp add: fat_entry_def)
  next
    case (3 c n rest)
    then have c: "data_cluster fs c" "fat_entry fs c = n" "data_cluster fs n" "n < fat_reserved_min fs"
      by (auto simp: fat_links_def)
    have "fat_entry fs c \<noteq> 0" using c by (simp add: data_cluster_def)
    note e = relocated_entry [OF assms(1,2) c(1) used [OF this]]
    have "moved table n AND fat_mask fs = moved table n"
      using small [OF c(3,4)] fat_constants [of fs] by (intro and_mask_small) simp
    then have "fat_entry (relocated us moves fs) (moved table c) = moved table n"
      using e c by (simp add: new_next_def)
    then show ?case using 3 c data small by (simp add: fat_links_def)
  qed simp
qed

lemma linked_used: "linked fs cs \<Longrightarrow> c \<in> set cs \<Longrightarrow> fat_entry fs c \<noteq> 0"
  using linked_in_use by (auto simp: in_use_def)

lemma relocated_chain:
  assumes "switch_ok fs table preds moves" "link_updates fs table moves = Inr us"
    and "\<forall>m \<in> set moves. mv_destination m < fat_reserved_min fs" "is_chain fs first cs"
  shows "is_chain (relocated us moves fs) (moved table first) (map (moved table) cs)"
proof -
  have cs: "linked fs cs" "hd cs = first" "distinct cs" "cs \<noteq> []" using assms(4) by (cases cs; simp add: is_chain_def)+
  have "set cs \<inter> set (destinations_of moves) = {}"
    using linked_used [OF cs(1)] assms(1) by (fastforce simp: switch_ok_def destinations_of_def)
  then have "inj_on (moved table) (set cs)"
    using moved_inj [of fs moves table "set cs"] assms(1) linked_data [OF cs(1)] by (auto simp: switch_ok_def)
  then show ?thesis
    using relocated_linked [OF assms(1-3) cs(1)] cs by (simp add: is_chain_def distinct_map hd_map)
qed

end
