(* ===== verification/FatDirents.thy ===== *)
theory FatDirents
  imports FatRelocation
begin

text \<open>
  What the batched directory-entry updates of \<open>fat_relocation.c\<close> do to the volume: the
  sectors are read, changed and written as a whole, and the effect is that of storing
  each new first cluster in place.
\<close>

section \<open>A window of a buffer\<close>

lemma read_at_window:
  assumes "so + n \<le> length d" "k + length ys \<le> n"
  shows "read_at so n (patch d (so + k) ys) = patch (read_at so n d) k ys"
  by (rule nth_equalityI) (use assms in \<open>auto simp: buf_simps nth_patch add.assoc\<close>)

lemma drop_window:
  assumes "off + n \<le> length d" "k + length ys \<le> n"
  shows "drop k (read_at off n (patch d (off + k) ys)) = ys @ drop (k + length ys) (read_at off n d)"
  by (rule nth_equalityI) (use assms in \<open>auto simp: buf_simps nth_patch nth_append add.assoc\<close>)

text \<open>Two buffers that agree outside a window.\<close>

definition same_outside :: "nat set \<Rightarrow> bytes \<Rightarrow> bytes \<Rightarrow> bool" where
  "same_outside S d d' \<longleftrightarrow> length d' = length d \<and> (\<forall>x < length d. x \<notin> S \<longrightarrow> d' ! x = d ! x)"

lemma same_outside_refl [simp]: "same_outside S d d"
  by (simp add: same_outside_def)

lemma same_outside_trans: "same_outside S d d1 \<Longrightarrow> same_outside S d1 d2 \<Longrightarrow> same_outside S d d2"
  by (auto simp: same_outside_def)

lemma same_outside_mono: "same_outside S d d' \<Longrightarrow> S \<subseteq> T \<Longrightarrow> same_outside T d d'"
  by (auto simp: same_outside_def)

lemma same_outside_patch:
  "off + length ys \<le> length d \<Longrightarrow> {off..<off + length ys} \<subseteq> S \<Longrightarrow> same_outside S d (patch d off ys)"
  by (auto simp: same_outside_def buf_simps nth_patch)

lemma patch_window:
  assumes "same_outside {so..<so + n} d d'" "so + n \<le> length d"
  shows "patch d so (read_at so n d') = d'"
  by (rule nth_equalityI) (use assms in \<open>auto simp: same_outside_def buf_simps nth_patch\<close>)

lemma same_outside_read:
  assumes "same_outside S d d'" "off + n \<le> length d" "S \<inter> {off..<off + n} = {}"
  shows "read_at off n d' = read_at off n d"
proof (rule nth_equalityI)
  show "length (read_at off n d') = length (read_at off n d)"
    using assms(1,2) by (simp add: same_outside_def buf_simps)
  fix i assume "i < length (read_at off n d')"
  then have i: "i < n" using assms(1,2) by (simp add: same_outside_def buf_simps)
  then have "off + i \<notin> S" using assms(3) by auto
  then show "read_at off n d' ! i = read_at off n d ! i"
    using i assms(1,2) by (simp add: same_outside_def buf_simps)
qed

section \<open>One entry\<close>

definition field_bytes :: "nat \<Rightarrow> nat set" where
  "field_bytes off = {off + 20, off + 21, off + 26, off + 27}"

lemma length_store_first [simp]:
  "endian_ok E \<Longrightarrow> off + 32 \<le> length d \<Longrightarrow> length (store_first_cluster E fs off t d) = length d"
  by (simp add: store_first_cluster_def Let_def length_patch)

lemma store_first_outside:
  assumes "endian_ok E" "off + 32 \<le> length d"
  shows "same_outside (field_bytes off) d (store_first_cluster E fs off t d)"
  unfolding store_first_cluster_def Let_def
  by (rule same_outside_trans; rule same_outside_patch)
    (use assms in \<open>auto simp: field_bytes_def length_patch\<close>)

lemma store_first_window:
  assumes "endian_ok E" "so + n \<le> length d" "k + 32 \<le> n"
  shows "read_at so n (store_first_cluster E fs (so + k) t d) = store_first_cluster E fs k t (read_at so n d)"
  using assms
  by (simp add: store_first_cluster_def Let_def read_at_window length_patch add.assoc)

lemma u16_or:
  assumes "(t :: nat) < 4294967296"
  shows "(t AND 0xFFFF) OR push_bit 16 (drop_bit 16 t AND 0xFFFF) = t"
proof -
  have h: "t div 65536 < 65536" using assms by (simp add: less_mult_imp_div_less)
  have "push_bit 16 (t div 65536) OR (t mod 65536) = 65536 * (t div 65536) + t mod 65536"
    using nat_or_disjoint [of "t mod 65536" 16 "t div 65536"] by (simp add: push_bit_eq_mult mult.commute)
  also have "\<dots> = t" by simp
  finally show ?thesis using h by (simp add: drop_bit_eq_div or.commute)
qed

lemma stored_first_cluster:
  assumes "endian_ok E" "off + 32 \<le> length d" "t \<le> fat_mask fs"
  shows "entry_first_cluster E fs (read_at off 32 (store_first_cluster E fs off t d)) = t"
proof -
  let ?hi = "if fs_fat_type fs = FAT_TYPE_32 then u16 (drop_bit 16 t AND 0xFFFF) else 0" and ?lo = "u16 (t AND 0xFFFF)"
  let ?d1 = "patch d (off + 20) (store_le16 E ?hi)"
  have len: "length ?d1 = length d" using assms(1,2) by (simp add: length_patch)
  have t: "t < 4294967296" using assms(3) by (cases "fs_fat_type fs") (simp_all add: fat_mask_def)
  have s: "store_first_cluster E fs off t d = patch ?d1 (off + 26) (store_le16 E ?lo)"
    by (simp add: store_first_cluster_def Let_def)
  have lo: "load_le16 E (drop 26 (read_at off 32 (store_first_cluster E fs off t d))) = t mod 65536"
    unfolding s using drop_window [of off 32 ?d1 26 "store_le16 E ?lo"] assms(1,2) len
    by (simp add: load_store_le16 u16_def)
  have "\<exists>r. drop 20 (read_at off 32 (store_first_cluster E fs off t d)) = store_le16 E ?hi @ r"
  proof -
    have "store_first_cluster E fs off t d = patch (patch d (off + 26) (store_le16 E ?lo)) (off + 20) (store_le16 E ?hi)"
      unfolding s using assms(1,2) by (intro nth_equalityI) (auto simp: buf_simps nth_patch length_patch)
    then show ?thesis
      using drop_window [of off 32 "patch d (off + 26) (store_le16 E ?lo)" 20 "store_le16 E ?hi"] assms(1,2)
      by (simp add: length_patch)
  qed
  then have hi: "load_le16 E (drop 20 (read_at off 32 (store_first_cluster E fs off t d))) = ?hi mod 65536"
    using assms(1) by (auto simp: load_store_le16)
  show ?thesis
  proof (cases "fs_fat_type fs = FAT_TYPE_32")
    case True
    have "(t mod 65536) OR push_bit 16 (t div 65536 mod 65536) = t"
      using u16_or [OF t] by (simp add: drop_bit_eq_div)
    then show ?thesis
      using True lo hi assms(3) by (simp add: entry_first_cluster_def Let_def u16_def drop_bit_eq_div fat_mask_def)
  next
    case False
    then have "t < 65536" using assms(3) by (cases "fs_fat_type fs") (simp_all add: fat_mask_def)
    then show ?thesis using False lo assms(3)
      by (cases "fs_fat_type fs") (simp_all add: entry_first_cluster_def Let_def fat_mask_def)
  qed
qed

section \<open>All entries of a batch\<close>

definition put_dirent :: "env \<Rightarrow> Fat32 \<Rightarrow> DirentSectorPatch \<Rightarrow> bytes \<Rightarrow> bytes" where
  "put_dirent E fs p d = store_first_cluster E fs (ds_entry_offset p) (ds_new_target p) d"

definition patch_in :: "nat \<Rightarrow> DirentSectorPatch \<Rightarrow> bool" where
  "patch_in n p \<longleftrightarrow> ds_sector_offset p \<le> ds_entry_offset p \<and>
     ds_entry_offset p + 32 \<le> ds_sector_offset p + n"

lemma field_subset: "field_bytes off \<subseteq> {off..<off + 32}"
  by (auto simp: field_bytes_def)

lemma put_dirents_outside:
  assumes "endian_ok E" "\<forall>p \<in> set ps. ds_entry_offset p + 32 \<le> length d"
  shows "same_outside (\<Union>p \<in> set ps. field_bytes (ds_entry_offset p)) d (fold (put_dirent E fs) ps d)"
  using assms(2)
proof (induction ps arbitrary: d)
  case (Cons p ps)
  have one: "same_outside (field_bytes (ds_entry_offset p)) d (put_dirent E fs p d)"
    using Cons.prems store_first_outside [OF assms(1)] by (simp add: put_dirent_def)
  then have "length (put_dirent E fs p d) = length d" by (simp add: same_outside_def)
  with Cons have "same_outside (\<Union>p \<in> set ps. field_bytes (ds_entry_offset p)) (put_dirent E fs p d)
      (fold (put_dirent E fs) ps (put_dirent E fs p d))" by simp
  from same_outside_trans [OF same_outside_mono [OF one] same_outside_mono [OF this]]
  show ?case by auto
qed simp

lemma patch_sector_effect:
  assumes "patch_sector E fs so prev ps (read_at so n d) = Inr sector" "endian_ok E" "so + n \<le> length d"
    and "\<forall>p \<in> set ps. ds_sector_offset p = so \<and> patch_in n p"
  shows "sector = read_at so n (fold (put_dirent E fs) ps d)"
  using assms(1,3,4)
proof (induction ps arbitrary: prev d)
  case (Cons p ps)
  define k where "k = ds_entry_offset p - so"
  have p: "ds_entry_offset p = so + k" "k + 32 \<le> n" using Cons.prems(3) by (auto simp: patch_in_def k_def)
  have step: "store_first_cluster E fs k (ds_new_target p) (read_at so n d) = read_at so n (put_dirent E fs p d)"
    using store_first_window [OF assms(2) Cons.prems(2) p(2)] by (simp add: put_dirent_def p(1))
  have len: "length (put_dirent E fs p d) = length d"
    using p Cons.prems(2) assms(2) by (simp add: put_dirent_def)
  from Cons.prems(1) step have "patch_sector E fs so (Some p) ps (read_at so n (put_dirent E fs p d)) = Inr sector"
    by (auto simp: res_simps k_def)
  moreover have "so + n \<le> length (put_dirent E fs p d)" using Cons.prems(2) len by simp
  moreover have "\<forall>p \<in> set ps. ds_sector_offset p = so \<and> patch_in n p" using Cons.prems(3) by simp
  ultimately show ?case using Cons.IH by simp
qed simp

lemma write_sector_batches_effect:
  assumes "write_sector_batches E fs ps k w = (Inr r, w')" "io_exact E" "endian_ok E"
    and "\<forall>p \<in> set ps. patch_in (fs_bytes_per_sector fs) p"
  shows "w_disk w' = fold (put_dirent E fs) ps (w_disk w) \<and> w_files w' = w_files w \<and> w_stop w' = w_stop w \<and>
    (\<forall>p \<in> set ps. ds_entry_offset p + 32 \<le> length (w_disk w))"
  using assms
proof (induction E fs ps k arbitrary: w rule: write_sector_batches.induct)
  case (1 E fs k)
  then show ?case by (simp add: res_simps)
next
  case (2 E fs p rest k)
  define so where "so = ds_sector_offset p"
  define n where "n = fs_bytes_per_sector fs"
  define batch where "batch = p # takeWhile (\<lambda>q. ds_sector_offset q = so) rest"
  define others where "others = dropWhile (\<lambda>q. ds_sector_offset q = so) rest"
  have split: "p # rest = batch @ others" by (simp add: batch_def others_def)
  have in_batch: "\<forall>q \<in> set batch. ds_sector_offset q = so \<and> patch_in n q"
    using "2.prems"(4) by (auto simp: batch_def so_def n_def dest: set_takeWhileD)
  from "2.prems"(1) obtain sec sec' w1 where
    rd: "ld_pread_exact E (w_disk w) n so ''read directory sector batch'' = Inr sec"
    and ps: "patch_sector E fs so None batch sec = Inr sec'"
    and wr: "ld_pwrite_exact E sec' so ''write directory sector batch'' w = (Inr (), w1)"
    and rest: "write_sector_batches E fs others (k + 1) w1 = (Inr r, w')"
    by (auto simp: res_simps Let_def so_def n_def batch_def others_def)
  note r = ld_pread_exact_Inr [OF "2.prems"(2) rd]
  let ?d = "fold (put_dirent E fs) batch (w_disk w)"
  have inside: "ds_entry_offset q + 32 \<le> length (w_disk w) \<and> field_bytes (ds_entry_offset q) \<subseteq> {so..<so + n}"
    if "q \<in> set batch" for q
    using in_batch that r by (auto simp: patch_in_def field_bytes_def)
  have "sec' = read_at so n ?d"
    using patch_sector_effect [OF _ "2.prems"(3) _ in_batch] ps r by simp
  moreover have "same_outside {so..<so + n} (w_disk w) ?d"
  proof (rule same_outside_mono [OF put_dirents_outside [OF "2.prems"(3)]])
    show "\<forall>q \<in> set batch. ds_entry_offset q + 32 \<le> length (w_disk w)" using inside by blast
    show "(\<Union>q \<in> set batch. field_bytes (ds_entry_offset q)) \<subseteq> {so..<so + n}" using inside by blast
  qed
  ultimately have w1: "w_disk w1 = ?d" "w_files w1 = w_files w" "w_stop w1 = w_stop w"
    using ld_pwrite_exact_Inr [OF "2.prems"(2) wr] patch_window r by auto
  have len: "length ?d = length (w_disk w)"
    using \<open>same_outside {so..<so + n} (w_disk w) ?d\<close> by (simp add: same_outside_def)
  have "\<forall>q \<in> set others. patch_in (fs_bytes_per_sector fs) q"
    using "2.prems"(4) by (auto simp: others_def dest: set_dropWhileD)
  note ih = "2.IH" [OF so_def refl rest [unfolded others_def] "2.prems"(2,3), folded others_def, OF this]
  have "w_disk w' = fold (put_dirent E fs) others ?d" using ih w1 by simp
  moreover have "fold (put_dirent E fs) (p # rest) (w_disk w) = fold (put_dirent E fs) others ?d"
    by (simp only: split fold_append comp_apply)
  moreover have "\<forall>q \<in> set (p # rest). ds_entry_offset q + 32 \<le> length (w_disk w)"
    unfolding split using ih inside w1 len by auto
  ultimately show ?case using ih w1 by simp
qed

lemma order_patches_Inr:
  "order_patches n ps = Inr ordered \<Longrightarrow> ordered = map (sector_patch n) ps \<and>
   (\<forall>p \<in> set ps. dp_offset p mod n mod 32 = 0 \<and> dp_offset p mod n + 32 \<le> n)"
  by (induction ps arbitrary: ordered) (auto simp: res_simps Let_def)

lemma put_dirent_other:
  assumes "endian_ok E" "ds_entry_offset q + 32 \<le> length d" "off + 32 \<le> length d"
    and "off + 32 \<le> ds_entry_offset q \<or> ds_entry_offset q + 32 \<le> off"
  shows "read_at off 32 (put_dirent E fs q d) = read_at off 32 d"
  unfolding put_dirent_def
  by (rule same_outside_read [OF store_first_outside [OF assms(1,2)] assms(3)]) (use assms(4) in \<open>auto simp: field_bytes_def\<close>)

lemma put_dirents_other:
  assumes "endian_ok E" "\<forall>q \<in> set ps. ds_entry_offset q + 32 \<le> length d \<and>
      (off + 32 \<le> ds_entry_offset q \<or> ds_entry_offset q + 32 \<le> off)" "off + 32 \<le> length d"
  shows "read_at off 32 (fold (put_dirent E fs) ps d) = read_at off 32 d"
  using assms(2,3)
proof (induction ps arbitrary: d)
  case (Cons q ps)
  have "length (put_dirent E fs q d) = length d" using Cons.prems(1) assms(1) by (simp add: put_dirent_def)
  with Cons show ?case using put_dirent_other [OF assms(1)] by simp
qed simp

text \<open>Aligned entries at different offsets do not overlap.\<close>

lemma aligned_apart:
  assumes "a mod 32 = 0" "b mod 32 = 0" "a \<noteq> (b :: nat)"
  shows "a + 32 \<le> b \<or> b + 32 \<le> a"
proof -
  obtain x y where "a = 32 * x" "b = 32 * y" using assms(1,2) by (metis mod_0_imp_dvd dvdE)
  with assms(3) show ?thesis by (cases "x < y") auto
qed

lemma put_dirents_read:
  assumes "endian_ok E" "\<forall>q \<in> set ps. ds_entry_offset q + 32 \<le> length d \<and> ds_entry_offset q mod 32 = 0 \<and>
      ds_new_target q \<le> fat_mask fs"
    and "distinct (map ds_entry_offset ps)" "p \<in> set ps"
  shows "entry_first_cluster E fs (read_at (ds_entry_offset p) 32 (fold (put_dirent E fs) ps d)) = ds_new_target p"
proof -
  obtain ys zs where split: "ps = ys @ p # zs" using assms(4) by (meson split_list)
  let ?d1 = "fold (put_dirent E fs) ys d" and ?off = "ds_entry_offset p"
  have "same_outside (\<Union>q \<in> set ys. field_bytes (ds_entry_offset q)) d ?d1"
    using assms(2) by (intro put_dirents_outside [OF assms(1)]) (simp add: split)
  then have l1: "length ?d1 = length d" by (simp add: same_outside_def)
  have p: "?off + 32 \<le> length d" "ds_new_target p \<le> fat_mask fs" using assms(2,4) by auto
  have l2: "length (put_dirent E fs p ?d1) = length d" using p(1) l1 assms(1) by (simp add: put_dirent_def)
  have "?off \<noteq> ds_entry_offset q" if "q \<in> set zs" for q
    using that assms(3) by (auto simp: split image_iff)
  then have "read_at ?off 32 (fold (put_dirent E fs) zs (put_dirent E fs p ?d1)) = read_at ?off 32 (put_dirent E fs p ?d1)"
    using assms(2) l2 p(1) aligned_apart by (intro put_dirents_other [OF assms(1)]) (simp_all add: split)
  moreover have "entry_first_cluster E fs (read_at ?off 32 (put_dirent E fs p ?d1)) = ds_new_target p"
    unfolding put_dirent_def [of E fs p] by (rule stored_first_cluster [OF assms(1)]) (use p l1 in simp_all)
  ultimately show ?thesis by (simp add: split)
qed

lemma write_dirents_effect:
  assumes "write_dirent_first_clusters_batched E fs patches w = (Inr k, w')" "io_exact E" "endian_ok E"
  shows "same_outside (\<Union>p \<in> set patches. field_bytes (dp_offset p)) (w_disk w) (w_disk w') \<and>
    w_files w' = w_files w \<and> w_stop w' = w_stop w \<and> (\<forall>p \<in> set patches. dp_offset p + 32 \<le> length (w_disk w)) \<and>
    (distinct (map dp_offset patches) \<longrightarrow> (\<forall>p \<in> set patches. dp_new_target p \<le> fat_mask fs) \<longrightarrow>
     (\<forall>p \<in> set patches. entry_first_cluster E fs (read_at (dp_offset p) 32 (w_disk w')) = dp_new_target p))"
proof (cases "patches = []")
  case True
  then show ?thesis using assms(1) by (simp add: write_dirent_first_clusters_batched_def res_simps)
next
  case False
  let ?n = "fs_bytes_per_sector fs"
  from assms(1) False obtain ordered where o: "order_patches ?n patches = Inr ordered" "?n mod 32 = 0"
    "write_sector_batches E fs (qsort_by compare_dirent_sector_patch ordered) 0 w = (Inr k, w')"
    by (auto simp: write_dirent_first_clusters_batched_def res_simps Let_def)
  note ord = order_patches_Inr [OF o(1)]
  let ?ps = "qsort_by compare_dirent_sector_patch ordered"
  have ms: "mset ?ps = mset (map (sector_patch ?n) patches)" using ord by simp
  have set: "set ?ps = sector_patch ?n ` set patches" using ord by simp
  have "patch_in ?n p" if "p \<in> set ?ps" for p
    using that ord unfolding set by (auto simp: patch_in_def sector_patch_def)
  then have eff: "w_disk w' = fold (put_dirent E fs) ?ps (w_disk w)" "w_files w' = w_files w" "w_stop w' = w_stop w"
    "\<forall>p \<in> set ?ps. ds_entry_offset p + 32 \<le> length (w_disk w)"
    using write_sector_batches_effect [OF o(3) assms(2,3)] by blast+
  have aligned: "dp_offset p mod 32 = 0" if "p \<in> set patches" for p
  proof -
    have "32 dvd ?n" using o(2) by auto
    then show ?thesis using ord that by (metis mod_mod_cancel)
  qed
  have "same_outside (\<Union>p \<in> set ?ps. field_bytes (ds_entry_offset p)) (w_disk w) (w_disk w')"
    unfolding eff(1) by (rule put_dirents_outside [OF assms(3) eff(4)])
  then have "same_outside (\<Union>p \<in> set patches. field_bytes (dp_offset p)) (w_disk w) (w_disk w')"
    unfolding set by (simp add: sector_patch_def)
  moreover have "dp_offset p + 32 \<le> length (w_disk w)" if "p \<in> set patches" for p
    using eff(4) that unfolding set by (auto simp: sector_patch_def)
  moreover have "entry_first_cluster E fs (read_at (dp_offset p) 32 (w_disk w')) = dp_new_target p"
    if d: "distinct (map dp_offset patches)" "\<forall>p \<in> set patches. dp_new_target p \<le> fat_mask fs" "p \<in> set patches" for p
  proof -
    have "mset (map ds_entry_offset ?ps) = mset (map dp_offset patches)"
      using ms by (simp add: sector_patch_def image_mset.compositionality o_def)
    then have "distinct (map ds_entry_offset ?ps)" using d(1) by (metis mset_eq_imp_distinct_iff)
    moreover have "\<forall>q \<in> set ?ps. ds_entry_offset q + 32 \<le> length (w_disk w) \<and> ds_entry_offset q mod 32 = 0 \<and>
        ds_new_target q \<le> fat_mask fs"
      using eff(4) d(2) aligned unfolding set by (auto simp: sector_patch_def)
    moreover have "sector_patch ?n p \<in> set ?ps" unfolding set using d(3) by simp
    ultimately show ?thesis using put_dirents_read [OF assms(3), of ?ps "w_disk w" fs "sector_patch ?n p"] eff(1)
      by (simp add: sector_patch_def)
  qed
  ultimately show ?thesis using eff by blast
qed

end
