(* ===== verification/FatTransaction.thy ===== *)
theory FatTransaction
  imports FatRelocationMap FatDirents FatCopy
begin

text \<open>
  The relocation transaction as a whole: which parts of the volume each stage of
  \<open>complete_relocation_journal\<close> may change, and the state it ends in.
\<close>

section \<open>The table region\<close>

text \<open>The copies of the table lie between the reserved sectors and the root directory.\<close>

definition table_region :: "Fat32 \<Rightarrow> nat set" where
  "table_region fs = {fs_fat0_offset fs..<fs_root_dir_offset fs}"

lemma synced_outside:
  assumes "synced fs d" "disk_ok fs d" "same_outside S d d'" "S \<inter> table_region fs = {}"
  shows "synced fs d' \<and> disk_ok fs d'"
proof -
  have layout: "layout_ok fs" using assms(2) by (simp add: disk_ok_def)
  have "disk_table fs d' copy = disk_table fs d copy" if "copy \<in> set (fat_copies fs)" for copy
  proof -
    have "copy + 1 \<le> fs_fat_count fs" using fat_copies_less [OF layout that] by simp
    then have "(copy + 1) * fs_fat_bytes fs \<le> fs_fat_count fs * fs_fat_bytes fs" by (rule mult_le_mono1)
    then have range: "table_offset fs copy + fs_fat_bytes fs \<le> fs_root_dir_offset fs"
      using layout by (simp add: table_offset_def layout_ok_def)
    then have "S \<inter> {table_offset fs copy..<table_offset fs copy + fs_fat_bytes fs} = {}"
      using assms(4) by (auto simp: table_region_def table_offset_def disjoint_iff)
    moreover have "fs_root_dir_offset fs \<le> length d" using assms(2) by (simp add: disk_ok_def layout_ok_def)
    ultimately show ?thesis
      unfolding disk_table_def using range by (intro same_outside_read [OF assms(3)]) simp_all
  qed
  moreover have "length d' = length d" using assms(3) by (simp add: same_outside_def)
  ultimately show ?thesis using assms(1,2) by (simp add: synced_def disk_entry_def disk_ok_def)
qed

lemma copies_outside: "only_copies_change fs d d' \<Longrightarrow> layout_ok fs \<Longrightarrow> same_outside (table_region fs) d d'"
  by (auto simp: only_copies_change_def same_outside_def table_region_def)

section \<open>Stages that do not touch the table\<close>

lemma copied_outside:
  assumes "copied fs ps d d'" "layout_ok fs"
  shows "same_outside {fs_data_offset fs..} d d'"
  using assms by (auto simp: copied_def same_outside_def)

lemma sync_world: "fat32_sync E w = (Inr u, w') \<Longrightarrow> w_disk w' = w_disk w \<and> w_files w' = w_files w \<and> w_stop w' = w_stop w"
  by (auto simp: fat32_sync_def split: if_splits)

lemma journal_write_world:
  "relocation_journal_write E path j w = (Inr u, w') \<Longrightarrow>
   w_disk w' = w_disk w \<and> w_files w' = (w_files w)(path \<mapsto> relocation_journal_write_stream j) \<and> w_stop w' = w_stop w"
  by (auto simp: relocation_journal_write_def res_simps atomic_file_write_def split: if_splits)

lemma record_stage_world:
  "record_stage E path j st w = (Inr j', w') \<Longrightarrow>
   j' = j\<lparr>rj_stage := st\<rparr> \<and> w_disk w' = w_disk w \<and>
   w_files w' = (w_files w)(path \<mapsto> relocation_journal_write_stream (j\<lparr>rj_stage := st\<rparr>)) \<and> w_stop w' = w_stop w"
  using sync_world journal_write_world by (fastforce simp: record_stage_def res_simps Let_def)

lemma journal_remove_world:
  "journal_remove E path w = (Inr u, w') \<Longrightarrow>
   w_disk w' = w_disk w \<and> w_files w' = (w_files w)(path := None) \<and> w_stop w' = w_stop w"
  by (auto simp: journal_remove_def split: if_splits)

text \<open>A sector of the reserved region, read and written back with a change.\<close>

definition reserved_region :: "Fat32 \<Rightarrow> nat set" where
  "reserved_region fs = {..<fs_reserved_sectors fs * fs_bytes_per_sector fs}"

lemma reserved_sector_write:
  assumes "ld_pread_exact E (w_disk w) (fs_bytes_per_sector fs) (n * fs_bytes_per_sector fs) what = Inr sector"
    and "ld_pwrite_exact E (patch sector k ys) (n * fs_bytes_per_sector fs) what' w = (Inr u, w')"
    and "io_exact E" "n < fs_reserved_sectors fs" "k + length ys \<le> fs_bytes_per_sector fs"
  shows "same_outside (reserved_region fs) (w_disk w) (w_disk w') \<and> w_files w' = w_files w \<and> w_stop w' = w_stop w"
proof -
  let ?b = "fs_bytes_per_sector fs"
  have len: "length (patch sector k ys) = ?b"
    using ld_pread_exact_Inr [OF assms(3,1)] assms(5) by (simp add: length_patch buf_simps)
  have "(n + 1) * ?b \<le> fs_reserved_sectors fs * ?b" using assms(4) by (intro mult_le_mono1) simp
  then have "{n * ?b..<n * ?b + length (patch sector k ys)} \<subseteq> reserved_region fs"
    by (auto simp: len reserved_region_def)
  then show ?thesis
    using ld_pwrite_exact_Inr [OF assms(3,2)] same_outside_patch by simp
qed

lemma fsinfo_one_outside:
  assumes "update_fsinfo_one E fs s n w = (Inr u, w')" "io_exact E" "endian_ok E"
  shows "same_outside (reserved_region fs) (w_disk w) (w_disk w') \<and> w_files w' = w_files w \<and> w_stop w' = w_stop w"
  using assms(1) unfolding update_fsinfo_one_def
  by (auto simp: res_simps Let_def assms(3) split: if_splits
      dest!: reserved_sector_write [OF _ _ assms(2), where ys = "store_le32 E n" and k = 492])

lemma fsinfo_outside:
  assumes "fat_relocation_update_fsinfo E fs n w = (Inr u, w')" "io_exact E" "endian_ok E"
  shows "same_outside (reserved_region fs) (w_disk w) (w_disk w') \<and> w_files w' = w_files w \<and> w_stop w' = w_stop w"
  using assms(1) fsinfo_one_outside [OF _ assms(2,3)]
  by (auto simp: fat_relocation_update_fsinfo_def res_simps Let_def split: if_splits) (metis same_outside_trans)+

lemma boot_one_outside:
  assumes "write_boot_root_cluster_one E fs s c w = (Inr u, w')" "io_exact E" "endian_ok E"
  shows "same_outside (reserved_region fs) (w_disk w) (w_disk w') \<and> w_files w' = w_files w \<and> w_stop w' = w_stop w"
  using assms(1) unfolding write_boot_root_cluster_one_def
  by (auto simp: res_simps Let_def assms(3) split: if_splits
      dest!: reserved_sector_write [OF _ _ assms(2), where ys = "store_le32 E (c AND FAT32_MASK)" and k = 44])

lemma root_cluster_outside:
  assumes "write_root_cluster E fs c w = (Inr fs', w')" "io_exact E" "endian_ok E"
  shows "same_outside (reserved_region fs) (w_disk w) (w_disk w') \<and> fs' = fs\<lparr>fs_root_cluster := c\<rparr> \<and>
    \<not> fs_root_is_fixed fs \<and> w_files w' = w_files w \<and> w_stop w' = w_stop w"
  using assms(1) boot_one_outside [OF _ assms(2,3)]
  by (auto simp: write_root_cluster_def res_simps split: if_splits) (metis same_outside_trans)+

section \<open>The fields a transaction leaves alone\<close>

lemma put_all_fields [simp]:
  "fs_reserved_sectors (put_all us fs) = fs_reserved_sectors fs"
  "fs_root_dir_offset (put_all us fs) = fs_root_dir_offset fs"
  "fs_data_offset (put_all us fs) = fs_data_offset fs"
  "fs_root_cluster (put_all us fs) = fs_root_cluster fs"
  "fs_root_is_fixed (put_all us fs) = fs_root_is_fixed fs"
  by (rule put_all_induct; simp add: mem_put_def)+

lemma mem_put_root: "mem_put c v (fs\<lparr>fs_root_cluster := r\<rparr>) = (mem_put c v fs)\<lparr>fs_root_cluster := r\<rparr>"
  by (simp add: mem_put_def fat_mask_def)

lemma put_all_root: "put_all us (fs\<lparr>fs_root_cluster := r\<rparr>) = (put_all us fs)\<lparr>fs_root_cluster := r\<rparr>"
  unfolding put_all_def by (induction us arbitrary: fs) (simp_all add: mem_put_root)

lemma root_same [simp]:
  "fat_entry (fs\<lparr>fs_root_cluster := r\<rparr>) = fat_entry fs" "fat_copies (fs\<lparr>fs_root_cluster := r\<rparr>) = fat_copies fs"
  "disk_entry (fs\<lparr>fs_root_cluster := r\<rparr>) = disk_entry fs" "synced (fs\<lparr>fs_root_cluster := r\<rparr>) = synced fs"
  "table_ok (fs\<lparr>fs_root_cluster := r\<rparr>) = table_ok fs" "table_region (fs\<lparr>fs_root_cluster := r\<rparr>) = table_region fs"
  "reserved_region (fs\<lparr>fs_root_cluster := r\<rparr>) = reserved_region fs"
  "data_cluster (fs\<lparr>fs_root_cluster := r\<rparr>) = data_cluster fs"
proof -
  show e: "fat_entry (fs\<lparr>fs_root_cluster := r\<rparr>) = fat_entry fs" and d: "disk_entry (fs\<lparr>fs_root_cluster := r\<rparr>) = disk_entry fs"
    by (auto simp: fun_eq_iff fat_entry_def fat_mask_def disk_entry_def disk_table_def table_offset_def fs_fat_bytes_def
        intro!: arg_cong2 [where f = raw_entry] raw_entry_cong [THEN fun_cong, THEN fun_cong])
  show c: "fat_copies (fs\<lparr>fs_root_cluster := r\<rparr>) = fat_copies fs" by (simp add: fat_copies_def)
  show "synced (fs\<lparr>fs_root_cluster := r\<rparr>) = synced fs" by (simp add: synced_def fun_eq_iff e d c)
qed (simp_all add: table_ok_def fat_mask_def table_region_def reserved_region_def data_cluster_def fun_eq_iff)

lemma disk_ok_root:
  "disk_ok fs d \<Longrightarrow> \<not> fs_root_is_fixed fs \<Longrightarrow> data_cluster fs r \<Longrightarrow> disk_ok (fs\<lparr>fs_root_cluster := r\<rparr>) d"
proof -
  assume a: "disk_ok fs d" "\<not> fs_root_is_fixed fs" "data_cluster fs r"
  have "fs_fat_bytes (fs\<lparr>fs_root_cluster := r\<rparr>) = fs_fat_bytes fs" by (simp add: fs_fat_bytes_def)
  with a show ?thesis by (auto simp: disk_ok_def layout_ok_def)
qed

lemma chain_root: "is_chain (fs\<lparr>fs_root_cluster := r\<rparr>) first cs = is_chain fs first cs"
proof -
  have l: "fat_links (fs\<lparr>fs_root_cluster := r\<rparr>) = fat_links fs" "fat_ends (fs\<lparr>fs_root_cluster := r\<rparr>) = fat_ends fs"
    by (simp_all add: fat_links_def fat_ends_def fun_eq_iff fat_reserved_min_def fat_eoc_min_def)
  have "linked (fs\<lparr>fs_root_cluster := r\<rparr>) cs = linked fs cs"
    by (induction cs rule: induct_list012) (simp_all add: l)
  then show ?thesis by (simp add: is_chain_def)
qed

section \<open>The transaction\<close>

text \<open>What the journal and the volume have to agree on. The journal built from the volume
  does; a journal read back from a crashed run need not.\<close>

definition journal_applies :: "Fat32 \<Rightarrow> RelocationJournal \<Rightarrow> bool" where
  "journal_applies fs j \<longleftrightarrow>
     (\<exists>preds. is_predecessors fs preds \<and> complete_moves fs preds (rj_moves j)) \<and>
     (\<forall>m \<in> set (rj_moves j). fat_entry fs (mv_destination m) = 0 \<and> mv_destination m < fat_reserved_min fs) \<and>
     (\<forall>p \<in> set (rj_dir_patches j). fs_root_dir_offset fs \<le> dp_offset p) \<and>
     (rj_root_new j \<noteq> rj_root_old j \<longrightarrow> data_cluster fs (rj_root_new j))"

definition volume_ok :: "Fat32 \<Rightarrow> bytes \<Rightarrow> bool" where
  "volume_ok fs d \<longleftrightarrow> disk_ok fs d \<and> volume_small fs d \<and> table_ok fs \<and> synced fs d \<and>
     fs_fat0_offset fs = fs_reserved_sectors fs * fs_bytes_per_sector fs \<and> fs_max_cluster fs < fat_eoc_min fs"

definition patched_fields :: "RelocationJournal \<Rightarrow> nat set" where
  "patched_fields j = (\<Union>p \<in> set (rj_dir_patches j). field_bytes (dp_offset p))"

definition new_root :: "RelocationJournal \<Rightarrow> Fat32 \<Rightarrow> Fat32" where
  "new_root j fs = (if rj_root_new j \<noteq> rj_root_old j then fs\<lparr>fs_root_cluster := rj_root_new j\<rparr> else fs)"

lemma switch_references_effect:
  assumes "switch_references E fs table j w = (Inr fs', w')" "io_exact E" "endian_ok E"
    and "disk_ok fs (w_disk w)" "table_ok fs" "synced fs (w_disk w)"
    and "fs_fat0_offset fs = fs_reserved_sectors fs * fs_bytes_per_sector fs"
    and "\<forall>p \<in> set (rj_dir_patches j). fs_root_dir_offset fs \<le> dp_offset p"
    and "rj_root_new j \<noteq> rj_root_old j \<longrightarrow> data_cluster fs (rj_root_new j)"
  shows "\<exists>us. link_updates fs table (rj_moves j) = Inr us \<and> fs' = new_root j (put_all us fs) \<and>
    synced fs' (w_disk w') \<and> disk_ok fs' (w_disk w') \<and> table_ok fs' \<and>
    same_outside (table_region fs \<union> reserved_region fs \<union> patched_fields j) (w_disk w) (w_disk w') \<and>
    (distinct (map dp_offset (rj_dir_patches j)) \<longrightarrow> (\<forall>p \<in> set (rj_dir_patches j). dp_new_target p \<le> fat_mask fs) \<longrightarrow>
     (\<forall>p \<in> set (rj_dir_patches j). entry_first_cluster E fs (read_at (dp_offset p) 32 (w_disk w')) = dp_new_target p)) \<and>
    w_files w' = w_files w \<and> w_stop w' = w_stop w"
proof -
  from assms(1) obtain us fs1 w1 k w2 where
    us: "link_updates fs table (rj_moves j) = Inr us"
    and ap: "fat32_apply_updates E fs us w = (Inr fs1, w1)"
    and di: "write_dirent_first_clusters_batched E fs1 (rj_dir_patches j) w1 = (Inr k, w2)"
    and ro: "(if rj_root_new j \<noteq> rj_root_old j then write_root_cluster E fs1 (rj_root_new j) else retI fs1) w2 = (Inr fs', w')"
    by (auto simp: switch_references_def res_simps)
  note a = fat32_apply_updates_synced [OF ap assms(2-6)]
  have fs1: "fs1 = put_all us fs" using a by simp
  have layout: "layout_ok fs" using assms(4) by (simp add: disk_ok_def)
  have out1: "same_outside (table_region fs) (w_disk w) (w_disk w1)" using a copies_outside layout by blast
  have ok1: "disk_ok fs1 (w_disk w1)" "table_ok fs1" "synced fs1 (w_disk w1)"
    using a assms(4,5) out1 table_ok_put_all by (auto simp: fs1 disk_ok_def same_outside_def)
  note d = write_dirents_effect [OF di assms(2,3)]
  have mask: "entry_first_cluster E fs1 = entry_first_cluster E fs" "fat_mask fs1 = fat_mask fs"
    by (simp_all add: fs1 entry_first_cluster_def fun_eq_iff)
  have regions: "table_region fs1 = table_region fs" "reserved_region fs1 = reserved_region fs"
    by (simp_all add: fs1 table_region_def reserved_region_def)
  have apart: "patched_fields j \<inter> table_region fs = {}" "reserved_region fs \<inter> table_region fs = {}"
    using assms(7,8) by (fastforce simp: patched_fields_def field_bytes_def table_region_def,
      auto simp: reserved_region_def table_region_def)
  have out2: "same_outside (patched_fields j) (w_disk w1) (w_disk w2)" using d by (simp add: patched_fields_def)
  have ok2: "synced fs1 (w_disk w2)" "disk_ok fs1 (w_disk w2)"
    using synced_outside [OF ok1(3,1) out2] apart regions by auto
  have r: "fs' = new_root j fs1 \<and> same_outside (reserved_region fs) (w_disk w2) (w_disk w') \<and>
      w_files w' = w_files w2 \<and> w_stop w' = w_stop w2 \<and> (rj_root_new j \<noteq> rj_root_old j \<longrightarrow> \<not> fs_root_is_fixed fs1)"
    using ro root_cluster_outside [OF _ assms(2,3), of fs1 "rj_root_new j" w2 fs' w'] regions
    by (auto simp: new_root_def res_simps split: if_splits)
  have ok3: "synced fs1 (w_disk w')" "disk_ok fs1 (w_disk w')"
    using synced_outside [OF ok2] r apart regions by auto
  have "data_cluster fs1 (rj_root_new j)" if "rj_root_new j \<noteq> rj_root_old j"
    using that assms(9) by (simp add: fs1 data_cluster_def)
  then have ok4: "synced fs' (w_disk w')" "disk_ok fs' (w_disk w')" "table_ok fs'"
    using ok3 ok1(2) r disk_ok_root by (auto simp: new_root_def)
  let ?S = "table_region fs \<union> reserved_region fs \<union> patched_fields j"
  have out: "same_outside ?S (w_disk w) (w_disk w')"
  proof -
    have "same_outside ?S (w_disk w) (w_disk w1)" by (rule same_outside_mono [OF out1]) blast
    moreover have "same_outside ?S (w_disk w1) (w_disk w2)" by (rule same_outside_mono [OF out2]) blast
    moreover have "same_outside ?S (w_disk w2) (w_disk w')"
      by (rule same_outside_mono [OF conjunct1 [OF conjunct2 [OF r]]]) blast
    ultimately show ?thesis using same_outside_trans by blast
  qed
  have "read_at (dp_offset p) 32 (w_disk w') = read_at (dp_offset p) 32 (w_disk w2)" if "p \<in> set (rj_dir_patches j)" for p
  proof (rule same_outside_read)
    show "same_outside (reserved_region fs) (w_disk w2) (w_disk w')" using r by simp
    show "dp_offset p + 32 \<le> length (w_disk w2)" using d that out2 by (simp add: same_outside_def)
    have "fs_fat0_offset fs \<le> fs_root_dir_offset fs" using layout by (simp add: layout_ok_def)
    moreover have "fs_root_dir_offset fs \<le> dp_offset p" using assms(8) that by simp
    ultimately have "fs_reserved_sectors fs * fs_bytes_per_sector fs \<le> dp_offset p" using assms(7) by simp
    then show "reserved_region fs \<inter> {dp_offset p..<dp_offset p + 32} = {}"
      unfolding reserved_region_def disjoint_iff lessThan_iff atLeastLessThan_iff
      by (intro allI impI notI) (elim conjE, linarith)
  qed
  then show ?thesis using us ok4 out d r a mask fs1 by auto
qed

section \<open>The whole run\<close>

lemma same_outside_read_any:
  assumes "same_outside S d d'" "S \<inter> {off..<off + n} = {}"
  shows "read_at off n d' = read_at off n d"
proof (rule nth_equalityI)
  show "length (read_at off n d') = length (read_at off n d)"
    using assms(1) by (simp add: same_outside_def read_at_def)
  fix i assume "i < length (read_at off n d')"
  then have "i < length d' - off \<and> i < n" by (simp add: read_at_def)
  then have i: "i < n" "off + i < length d'" by linarith+
  then have "off + i \<notin> S" using assms(2) by auto
  then show "read_at off n d' ! i = read_at off n d ! i"
    using assms(1) i by (simp add: same_outside_def read_at_def)
qed

text \<open>The pieces of a run, each with the volume and the world it leaves.\<close>

lemma switch_references_stage:
  "switch_references E fs table (j\<lparr>rj_stage := st\<rparr>) = switch_references E fs table j"
  by (simp add: fun_eq_iff switch_references_def cong: if_cong)

lemma complete_run_stages:
  assumes "complete_relocation_journal E fs path j io w = (Inr (fs', io'), w')" "io_exact E" "endian_ok E"
  obtains table w1 w2 fs1 w3 w4 w5 where
    "build_relocation_map fs (rj_moves j) = Inr table"
    "fat_io_copy_clusters E fs (sources_of (rj_moves j)) (destinations_of (rj_moves j)) io w = (Inr io', w1)"
    "w_disk w2 = w_disk w1" "switch_references E fs table j w2 = (Inr fs1, w3)" "w_disk w4 = w_disk w3"
    "fat32_apply_updates E fs1 (map free_upd (sources_of (rj_moves j))) w4 = (Inr fs', w5)"
    "same_outside (reserved_region fs') (w_disk w5) (w_disk w')"
    "w_files w' path = None"
proof -
  let ?m = "rj_moves j"
  from assms(1) obtain table io1 w1 j2 w2 fs1 w3 j4 w4 fs2 w5 u w6 j7 w7 v where
    map: "build_relocation_map fs ?m = Inr table"
    and run: "fat_io_copy_clusters E fs (map mv_source ?m) (map mv_destination ?m) io w = (Inr io1, w1)"
    and st: "record_stage E path j J_DATA_COPIED w1 = (Inr j2, w2)"
    and sw: "switch_references E fs table j2 w2 = (Inr fs1, w3)"
    and st2: "record_stage E path j2 J_SWITCHED w3 = (Inr j4, w4)"
    and fr: "free_cluster_list E fs1 (map mv_source (rj_moves j4)) w4 = (Inr fs2, w5)"
    and fi: "fat_relocation_update_fsinfo E fs2 (lowest_source fs2 (rj_moves j4)) w5 = (Inr u, w6)"
    and st3: "record_stage E path j4 J_OLD_FREED w6 = (Inr j7, w7)"
    and rm: "journal_remove E path w7 = (Inr v, w')" and out: "fs' = fs2" "io' = io1"
    unfolding complete_relocation_journal_def by (auto simp: res_simps)
  have j: "j2 = j\<lparr>rj_stage := J_DATA_COPIED\<rparr>" "j4 = j2\<lparr>rj_stage := J_SWITCHED\<rparr>"
    and d: "w_disk w2 = w_disk w1" "w_disk w4 = w_disk w3" "w_disk w7 = w_disk w6"
    using record_stage_world [OF st] record_stage_world [OF st2] record_stage_world [OF st3] by auto
  have "switch_references E fs table j w2 = (Inr fs1, w3)"
    using sw by (simp add: j switch_references_stage)
  moreover have "fat32_apply_updates E fs1 (map free_upd (sources_of ?m)) w4 = (Inr fs', w5)"
    using fr by (simp add: j out free_cluster_list_def sources_of_def free_upd_def o_def)
  moreover have "same_outside (reserved_region fs') (w_disk w5) (w_disk w')"
    using fsinfo_outside [OF fi assms(2,3)] journal_remove_world [OF rm] d out by auto
  moreover have "w_files w' path = None" using journal_remove_world [OF rm] by simp
  ultimately show thesis
    using that map run d out by (simp add: sources_of_def destinations_of_def)
qed

text \<open>Every patched directory entry names the new first cluster.\<close>

definition entries_switched :: "env \<Rightarrow> Fat32 \<Rightarrow> RelocationJournal \<Rightarrow> bytes \<Rightarrow> bool" where
  "entries_switched E fs j d \<longleftrightarrow>
     distinct (map dp_offset (rj_dir_patches j)) \<longrightarrow> (\<forall>p \<in> set (rj_dir_patches j). dp_new_target p \<le> fat_mask fs) \<longrightarrow>
     (\<forall>p \<in> set (rj_dir_patches j). entry_first_cluster E fs (read_at (dp_offset p) 32 d) = dp_new_target p)"

text \<open>The state a finished transaction leaves.\<close>

definition transaction_done ::
  "env \<Rightarrow> Fat32 \<Rightarrow> RelocationJournal \<Rightarrow> nat list \<Rightarrow> Fat32 \<Rightarrow> bytes \<Rightarrow> bytes \<Rightarrow> bool" where
  "transaction_done E fs j table fs' d d' \<longleftrightarrow>
     synced fs' d' \<and> disk_ok fs' d' \<and>
     (\<forall>first cs. is_chain fs first cs \<longrightarrow> is_chain fs' (moved table first) (map (moved table) cs)) \<and>
     (\<forall>c \<in> set (sources_of (rj_moves j)). fat_entry fs' c = 0) \<and>
     (\<forall>c i. data_cluster fs c \<and> i < fs_cluster_size fs \<and> fat_entry fs c \<noteq> 0 \<and>
        cluster_at fs (moved table c) + i \<notin> patched_fields j \<longrightarrow>
        d' ! (cluster_at fs (moved table c) + i) = d ! (cluster_at fs c + i)) \<and>
     entries_switched E fs j d' \<and>
     fs_root_cluster fs' = (if rj_root_new j \<noteq> rj_root_old j then rj_root_new j else fs_root_cluster fs)"

lemma new_root_same [simp]:
  "fat_entry (new_root j fs) = fat_entry fs" "is_chain (new_root j fs) = is_chain fs"
  "fs_root_dir_offset (new_root j fs) = fs_root_dir_offset fs" "fs_fat0_offset (new_root j fs) = fs_fat0_offset fs"
  "fs_data_offset (new_root j fs) = fs_data_offset fs"
  "table_region (new_root j fs) = table_region fs" "reserved_region (new_root j fs) = reserved_region fs"
  "put_all us (new_root j fs) = new_root j (put_all us fs)" "fs_cluster_size (new_root j fs) = fs_cluster_size fs"
  "fs_root_cluster (new_root j fs) = (if rj_root_new j \<noteq> rj_root_old j then rj_root_new j else fs_root_cluster fs)"
  by (simp_all add: new_root_def chain_root put_all_root fun_eq_iff)

lemma put_all_regions [simp]:
  "table_region (put_all us fs) = table_region fs" "reserved_region (put_all us fs) = reserved_region fs"
  by (simp_all add: table_region_def reserved_region_def)

lemma data_cluster_apart:
  assumes "volume_ok fs d" "data_cluster fs c" "i < fs_cluster_size fs"
  shows "cluster_at fs c + i \<notin> table_region fs \<union> reserved_region fs" "cluster_at fs c + i < length d"
    "fs_data_offset fs \<le> cluster_at fs c + i"
proof -
  have l: "layout_ok fs" "disk_ok fs d" "fs_fat0_offset fs = fs_reserved_sectors fs * fs_bytes_per_sector fs"
    using assms(1) by (auto simp: volume_ok_def disk_ok_def)
  have le: "fs_fat0_offset fs \<le> fs_root_dir_offset fs" "fs_root_dir_offset fs \<le> fs_data_offset fs"
    using l(1) by (simp_all add: layout_ok_def)
  show low: "fs_data_offset fs \<le> cluster_at fs c + i" by (simp add: cluster_at_def)
  show "cluster_at fs c + i \<notin> table_region fs \<union> reserved_region fs"
    using le low l(3) by (simp add: table_region_def reserved_region_def)
  show "cluster_at fs c + i < length d" using cluster_inside [OF l(2) assms(2)] assms(3) by linarith
qed

lemma cluster_data_nth:
  "disk_ok fs d \<Longrightarrow> data_cluster fs c \<Longrightarrow> i < fs_cluster_size fs \<Longrightarrow> cluster_data fs d c ! i = d ! (cluster_at fs c + i)"
  using cluster_inside [of fs d c] by (simp add: cluster_data_def read_at_def)

lemma moved_cluster_bytes:
  assumes "copied fs (zip (sources_of ms) (destinations_of ms)) d d1" "volume_ok fs d"
    and "moves_ok fs ms" "is_map fs ms table" "\<forall>m \<in> set ms. fat_entry fs (mv_destination m) = 0"
    and "data_cluster fs c" "fat_entry fs c \<noteq> 0" "i < fs_cluster_size fs"
  shows "d1 ! (cluster_at fs (moved table c) + i) = d ! (cluster_at fs c + i)" "data_cluster fs (moved table c)"
proof -
  have disk: "disk_ok fs d" "disk_ok fs d1" using assms(1,2) copied_disk_ok by (auto simp: volume_ok_def)
  have zip: "zip (sources_of ms) (destinations_of ms) = map (\<lambda>m. (mv_source m, mv_destination m)) ms"
    by (induction ms) (simp_all add: sources_of_def destinations_of_def)
  have same: "cluster_data fs d1 (moved table c) = cluster_data fs d c \<and> data_cluster fs (moved table c)"
  proof (cases "c \<in> set (sources_of ms)")
    case True
    then obtain m where m: "m \<in> set ms" "c = mv_source m" by (auto simp: sources_of_def)
    then have "moved table c = mv_destination m" "data_cluster fs (mv_destination m)"
      using moved_source [OF assms(3,4)] assms(3) by (auto simp: moves_ok_def)
    moreover have "cluster_data fs d1 (mv_destination m) = cluster_data fs d (mv_source m)"
      using assms(1) m(1) unfolding copied_def zip by fastforce
    ultimately show ?thesis using m(2) by simp
  next
    case False
    moreover have "c \<notin> snd ` set (zip (sources_of ms) (destinations_of ms))" unfolding zip using assms(5,7) by auto
    ultimately show ?thesis
      using moved_other [OF assms(4,6)] assms(1,6) by (simp add: copied_def)
  qed
  then show "data_cluster fs (moved table c)" by simp
  with same show "d1 ! (cluster_at fs (moved table c) + i) = d ! (cluster_at fs c + i)"
    using cluster_data_nth [OF disk(1) assms(6,8)] cluster_data_nth [OF disk(2) _ assms(8)] by metis
qed

text \<open>The conditions on a journal alone, whatever state of the table a crash left.\<close>

definition journal_inside :: "Fat32 \<Rightarrow> RelocationJournal \<Rightarrow> bool" where
  "journal_inside fs j \<longleftrightarrow>
     (\<forall>p \<in> set (rj_dir_patches j). fs_root_dir_offset fs \<le> dp_offset p) \<and>
     (rj_root_new j \<noteq> rj_root_old j \<longrightarrow> data_cluster fs (rj_root_new j))"

lemma data_beyond: "layout_ok fs \<Longrightarrow> {fs_data_offset fs..} \<inter> table_region fs = {}"
proof -
  assume "layout_ok fs"
  then have "fs_root_dir_offset fs \<le> fs_data_offset fs" by (simp add: layout_ok_def)
  then show ?thesis by (auto simp: table_region_def)
qed

lemma root_dir_beyond:
  assumes "volume_ok fs d" "fs_root_dir_offset fs \<le> off"
  shows "(table_region fs \<union> reserved_region fs) \<inter> {off..<off + n} = {}"
proof -
  have "fs_fat0_offset fs \<le> fs_root_dir_offset fs" "fs_fat0_offset fs = fs_reserved_sectors fs * fs_bytes_per_sector fs"
    using assms(1) by (simp_all add: volume_ok_def disk_ok_def layout_ok_def)
  then show ?thesis
    using assms(2) unfolding table_region_def reserved_region_def disjoint_iff Un_iff lessThan_iff atLeastLessThan_iff
    by (intro allI impI notI) (elim disjE conjE; linarith)
qed

text \<open>Freeing the sources and recording it, after the references are switched.\<close>

lemma free_stage_effect:
  assumes "fat32_apply_updates E fs1 (map free_upd cs) w4 = (Inr fs', w5)" "io_exact E" "endian_ok E"
    and "synced fs1 (w_disk w4)" "disk_ok fs1 (w_disk w4)" "table_ok fs1"
    and "same_outside (reserved_region fs') (w_disk w5) d'"
    and "fs_fat0_offset fs1 = fs_reserved_sectors fs1 * fs_bytes_per_sector fs1"
  shows "fs' = put_all (map free_upd cs) fs1 \<and> synced fs' d' \<and> disk_ok fs' d' \<and>
    same_outside (table_region fs1 \<union> reserved_region fs1) (w_disk w4) d'"
proof -
  note f = fat32_apply_updates_synced [OF assms(1-3,5,6,4)]
  have layout: "layout_ok fs1" using assms(5) by (simp add: disk_ok_def)
  have fs': "fs' = put_all (map free_upd cs) fs1" using f by simp
  have o5: "same_outside (table_region fs1) (w_disk w4) (w_disk w5)" using copies_outside [OF _ layout] f by blast
  have ok5: "disk_ok fs' (w_disk w5)" using assms(5) o5 by (simp add: fs' disk_ok_def same_outside_def)
  have regions: "reserved_region fs' = reserved_region fs1" "table_region fs' = table_region fs1" by (simp_all add: fs')
  have apart: "reserved_region fs1 \<inter> table_region fs1 = {}"
    using assms(8) by (auto simp: reserved_region_def table_region_def)
  have "synced fs' d' \<and> disk_ok fs' d'"
    using synced_outside [OF _ ok5 assms(7)] f regions apart by auto
  moreover have "same_outside (table_region fs1 \<union> reserved_region fs1) (w_disk w4) d'"
    by (rule same_outside_trans [OF same_outside_mono [OF o5] same_outside_mono [OF assms(7) [unfolded regions]]]) blast+
  ultimately show ?thesis using fs' by blast
qed

lemma complete_effect:
  assumes run: "complete_relocation_journal E fs path j io w = (Inr (fs', io'), w')"
    and env: "io_exact E" "endian_ok E" "checked_ok E"
    and vol: "volume_ok fs (w_disk w)" and inside: "journal_inside fs j"
  obtains table us d where
    "build_relocation_map fs (rj_moves j) = Inr table" "link_updates fs table (rj_moves j) = Inr us"
    "copied fs (zip (sources_of (rj_moves j)) (destinations_of (rj_moves j))) (w_disk w) d"
    "fs' = new_root j (relocated us (rj_moves j) fs)" "synced fs' (w_disk w')" "disk_ok fs' (w_disk w')"
    "same_outside (table_region fs \<union> reserved_region fs \<union> patched_fields j) d (w_disk w')"
    "entries_switched E fs j (w_disk w')" "w_files w' path = None"
proof -
  obtain table w1 w2 fs1 w3 w4 w5 where
    map: "build_relocation_map fs (rj_moves j) = Inr table"
    and cp: "fat_io_copy_clusters E fs (sources_of (rj_moves j)) (destinations_of (rj_moves j)) io w = (Inr io', w1)"
    and d2: "w_disk w2 = w_disk w1" and sw: "switch_references E fs table j w2 = (Inr fs1, w3)"
    and d4: "w_disk w4 = w_disk w3"
    and fr: "fat32_apply_updates E fs1 (map free_upd (sources_of (rj_moves j))) w4 = (Inr fs', w5)"
    and fi: "same_outside (reserved_region fs') (w_disk w5) (w_disk w')"
    and gone: "w_files w' path = None"
    using complete_run_stages [OF run env(1,2)] by metis
  let ?ms = "rj_moves j" and ?R = "table_region fs \<union> reserved_region fs"
  have v: "disk_ok fs (w_disk w)" "volume_small fs (w_disk w)" "table_ok fs" "synced fs (w_disk w)"
    "fs_fat0_offset fs = fs_reserved_sectors fs * fs_bytes_per_sector fs" "layout_ok fs"
    using vol by (auto simp: volume_ok_def disk_ok_def)
  have pat: "\<forall>p \<in> set (rj_dir_patches j). fs_root_dir_offset fs \<le> dp_offset p"
    and root: "rj_root_new j \<noteq> rj_root_old j \<longrightarrow> data_cluster fs (rj_root_new j)"
    using inside by (auto simp: journal_inside_def)
  have cpok: "copy_ok fs (sources_of ?ms) (destinations_of ?ms)"
    using build_relocation_map_sound [OF map] by (auto simp: copy_ok_def moves_ok_def sources_of_def destinations_of_def)
  have cpd: "copied fs (zip (sources_of ?ms) (destinations_of ?ms)) (w_disk w) (w_disk w1)"
    using copy_clusters_copied [OF cp env(1,3) v(1,2) cpok] by simp
  have s1: "synced fs (w_disk w1)" "disk_ok fs (w_disk w1)"
    using synced_outside [OF v(4,1) copied_outside [OF cpd v(6)] data_beyond [OF v(6)]] by simp_all
  obtain us where us: "link_updates fs table ?ms = Inr us" and fs1: "fs1 = new_root j (put_all us fs)"
    and s3: "synced fs1 (w_disk w3)" "disk_ok fs1 (w_disk w3)" "table_ok fs1"
    and o3: "same_outside (?R \<union> patched_fields j) (w_disk w1) (w_disk w3)" and di: "entries_switched E fs j (w_disk w3)"
    using switch_references_effect [OF sw env(1,2) _ v(3) _ v(5) pat root] s1 d2 by (auto simp: entries_switched_def)
  have "fs_fat0_offset fs1 = fs_reserved_sectors fs1 * fs_bytes_per_sector fs1"
    using v(5) by (simp add: fs1 new_root_def)
  note f = free_stage_effect [OF fr env(1,2) s3(1,2) [folded d4] s3(3) fi this]
  have o6: "same_outside ?R (w_disk w3) (w_disk w')" using f d4 by (simp add: fs1)
  have "entries_switched E fs j (w_disk w')"
    using di same_outside_read_any [OF o6 root_dir_beyond [OF vol]] pat by (simp add: entries_switched_def)
  moreover have "same_outside (?R \<union> patched_fields j) (w_disk w1) (w_disk w')"
    by (rule same_outside_trans [OF o3 same_outside_mono [OF o6]]) blast
  moreover have "fs' = new_root j (relocated us ?ms fs)" using f by (simp add: fs1 relocated_def)
  ultimately show thesis using that map us cpd f gone by blast
qed

lemma complete_done:
  assumes run: "complete_relocation_journal E fs path j io w = (Inr (fs', io'), w')"
    and env: "io_exact E" "endian_ok E" "checked_ok E"
    and vol: "volume_ok fs (w_disk w)" and app: "journal_applies fs j"
  shows "\<exists>table. build_relocation_map fs (rj_moves j) = Inr table \<and>
    transaction_done E fs j table fs' (w_disk w) (w_disk w') \<and> w_files w' path = None"
proof -
  let ?ms = "rj_moves j"
  have free: "\<forall>m \<in> set ?ms. fat_entry fs (mv_destination m) = 0" "\<forall>m \<in> set ?ms. mv_destination m < fat_reserved_min fs"
    and inside: "journal_inside fs j" using app by (auto simp: journal_applies_def journal_inside_def)
  obtain table us d1 where map: "build_relocation_map fs ?ms = Inr table" and us: "link_updates fs table ?ms = Inr us"
    and cpd: "copied fs (zip (sources_of ?ms) (destinations_of ?ms)) (w_disk w) d1"
    and fs': "fs' = new_root j (relocated us ?ms fs)" and s: "synced fs' (w_disk w')" "disk_ok fs' (w_disk w')"
    and o: "same_outside (table_region fs \<union> reserved_region fs \<union> patched_fields j) d1 (w_disk w')"
    and e: "entries_switched E fs j (w_disk w')" and gone: "w_files w' path = None"
    using complete_effect [OF run env vol inside] by metis
  note m = build_relocation_map_sound [OF map]
  obtain preds where "is_predecessors fs preds" "complete_moves fs preds ?ms"
    using app by (auto simp: journal_applies_def)
  then have ok: "switch_ok fs table preds ?ms" using m vol free by (simp add: switch_ok_def volume_ok_def)
  have chains: "is_chain fs' (moved table first) (map (moved table) cs)" if "is_chain fs first cs" for first cs
    using relocated_chain [OF ok us free(2) that] by (simp add: fs')
  have "table_ok fs" using vol by (simp add: volume_ok_def)
  then have freed: "fat_entry fs' c = 0" if "c \<in> set (sources_of ?ms)" for c
    using relocated_freed(1) [OF _ _ _ that] m by (auto simp: fs' moves_ok_def sources_of_def)
  have bytes: "w_disk w' ! (cluster_at fs (moved table c) + i) = w_disk w ! (cluster_at fs c + i)"
    if c: "data_cluster fs c" "i < fs_cluster_size fs" "fat_entry fs c \<noteq> 0"
      "cluster_at fs (moved table c) + i \<notin> patched_fields j" for c i
  proof -
    note b = moved_cluster_bytes [OF cpd vol conjunct1 [OF m] conjunct2 [OF m] free(1) c(1,3,2)]
    note a = data_cluster_apart [OF vol b(2) c(2)]
    have "cluster_at fs (moved table c) + i < length d1" using a(2) cpd by (simp add: copied_def)
    then have "w_disk w' ! (cluster_at fs (moved table c) + i) = d1 ! (cluster_at fs (moved table c) + i)"
      using o a(1) c(4) unfolding same_outside_def by blast
    then show ?thesis using b(1) by simp
  qed
  have "fs_root_cluster fs' = (if rj_root_new j \<noteq> rj_root_old j then rj_root_new j else fs_root_cluster fs)"
    by (simp add: fs' relocated_def)
  then have "transaction_done E fs j table fs' (w_disk w) (w_disk w')"
    unfolding transaction_done_def using s chains freed bytes e by (simp add: entries_switched_def)
  then show ?thesis using map gone by blast
qed

end
