(* ===== verification/FatAnalysis.thy ===== *)
theory FatAnalysis
  imports FatRelayout
begin

text \<open>
  \<open>fat_analysis.c\<close>: counters, the allocation map with its cells, the live map the GUI
  follows, and the verification of a finished layout. Printed text is a value. The
  version string comes from a generated header and is a parameter. The file-scope
  variables of the live map are the record \<open>LiveMap\<close>.
\<close>

section \<open>Counters\<close>

fun count_free :: "Fat32 \<Rightarrow> nat list \<Rightarrow> nat res" where
  "count_free fs [] = Inr 0"
| "count_free fs (cluster # rest) =
     bindE (fat_is_free fs cluster) (\<lambda>free.
     bindE (count_free fs rest) (\<lambda>n. Inr (if free then n + 1 else n)))"

definition count_free_clusters :: "Fat32 \<Rightarrow> nat res" where
  "count_free_clusters fs = count_free fs [2..<fs_max_cluster fs + 1]"

definition cluster_is_movable_allocation :: "Fat32 \<Rightarrow> nat \<Rightarrow> bool res" where
  "cluster_is_movable_allocation fs cluster =
     bindE (fat_value fs cluster) (\<lambda>value. Inr (value \<noteq> 0 \<and> value \<noteq> fat_bad_value fs))"

fun terminal_run :: "Fat32 \<Rightarrow> nat list \<Rightarrow> nat res" where
  "terminal_run fs [] = Inr 0"
| "terminal_run fs (cluster # rest) =
     bindE (fat_is_free fs cluster) (\<lambda>free.
     if \<not> free then Inr 0 else bindE (terminal_run fs rest) (\<lambda>n. Inr (n + 1)))"

definition clusters_downwards :: "Fat32 \<Rightarrow> nat list" where
  "clusters_downwards fs = rev [2..<fs_max_cluster fs + 1]"

definition terminal_free_clusters :: "Fat32 \<Rightarrow> nat res" where
  "terminal_free_clusters fs = terminal_run fs (clusters_downwards fs)"

fun first_movable :: "Fat32 \<Rightarrow> nat list \<Rightarrow> nat res" where
  "first_movable fs [] = Inr 1"
| "first_movable fs (cluster # rest) =
     bindE (cluster_is_movable_allocation fs cluster) (\<lambda>movable.
     if movable then Inr cluster else first_movable fs rest)"

text \<open>The number of holes and the highest allocated cluster.\<close>

definition holes_below_high_water :: "Fat32 \<Rightarrow> (nat \<times> nat) res" where
  "holes_below_high_water fs =
     bindE (first_movable fs (clusters_downwards fs)) (\<lambda>highest.
     bindE (if highest \<ge> 2 then count_free fs [2..<highest + 1] else Inr 0) (\<lambda>holes.
     Inr (holes, highest)))"

definition filesystem_root_fragments :: "env \<Rightarrow> Fat32 \<Rightarrow> (nat \<times> Fat32) res" where
  "filesystem_root_fragments E fs =
     (if fs_root_is_fixed fs then Inr (1, fs)
      else bindE (fat32_read_chain E fs (fs_root_cluster fs)) (\<lambda>(chain, fs). Inr (chain_fragments chain, fs)))"

section \<open>The text report\<close>

record Tally =
  ta_regular :: nat
  ta_directories :: nat
  ta_fragmented :: nat
  ta_dir_fragmented :: nat
  ta_allocated :: nat
  ta_worst_fragments :: nat
  ta_worst_path :: "nat list option"

definition no_tally :: Tally where
  "no_tally = \<lparr>ta_regular = 0, ta_directories = 0, ta_fragmented = 0, ta_dir_fragmented = 0,
     ta_allocated = 0, ta_worst_fragments = 0, ta_worst_path = None\<rparr>"

definition tally_worst :: "nat \<Rightarrow> nat list \<Rightarrow> Tally \<Rightarrow> Tally" where
  "tally_worst fragments path t =
     (if fragments > ta_worst_fragments t
      then t\<lparr>ta_worst_fragments := fragments, ta_worst_path := Some path\<rparr> else t)"

definition tally_file :: "Tally \<Rightarrow> FileRecord \<Rightarrow> Tally" where
  "tally_file t f =
     (let t = t\<lparr>ta_allocated := u64 (ta_allocated t + length (fr_chain f))\<rparr>;
          broken = (if fr_fragments f > 1 then 1 else 0);
          t = (if fr_is_dir f
               then t\<lparr>ta_directories := ta_directories t + 1,
                      ta_dir_fragmented := ta_dir_fragmented t + broken\<rparr>
               else t\<lparr>ta_regular := ta_regular t + 1, ta_fragmented := ta_fragmented t + broken\<rparr>)
      in tally_worst (fr_fragments f) (fr_path f) t)"

abbreviation root_path :: "nat list" where "root_path \<equiv> text_bytes ''<root directory>''"

definition fat_analysis_print :: "env \<Rightarrow> Fat32 \<Rightarrow> FileRecord list \<Rightarrow> (string \<times> Fat32) res" where
  "fat_analysis_print E fs files =
     (let t = foldl tally_file no_tally files in
      bindE (filesystem_root_chain E fs) (\<lambda>(root_chain, fs).
      bindE (filesystem_root_fragments E fs) (\<lambda>(root_frags, fs).
      let t = tally_worst root_frags root_path
                (t\<lparr>ta_allocated := u64 (ta_allocated t + length root_chain)\<rparr>) in
      bindE (count_free_clusters fs) (\<lambda>free_clusters.
      Inr (fat_type_name fs @ '' volume ID:        '' @ hex08 (fs_volume_id fs) @ [NL] @
           ''Bytes per sector:       '' @ dec (fs_bytes_per_sector fs) @ [NL] @
           ''Sectors per cluster:    '' @ dec (fs_sectors_per_cluster fs) @ [NL] @
           ''Cluster size:           '' @ dec (fs_cluster_size fs) @ '' bytes'' @ [NL] @
           ''Data clusters:          '' @ dec (fs_cluster_count fs) @ [NL] @
           ''Free clusters:          '' @ dec free_clusters @ [NL] @
           ''Scanned regular files:  '' @ dec (ta_regular t) @ [NL] @
           ''Fragmented files:       '' @ dec (ta_fragmented t) @ [NL] @
           ''Scanned directories:    '' @ dec (ta_directories t + 1) @ [NL] @
           ''Fragmented directories: '' @ dec (ta_dir_fragmented t) @ '' (root fragments: '' @
             dec root_frags @ '')'' @ [NL] @
           ''Referenced clusters:    '' @ dec (ta_allocated t) @ [NL] @
           (case ta_worst_path t of None \<Rightarrow> ''''
            | Some path \<Rightarrow> ''Worst chain:             '' @ dec (ta_worst_fragments t) @
                '' fragments: '' @ bytes_text path @ [NL]), fs)))))"

definition fragmented_line :: "string \<Rightarrow> nat \<Rightarrow> nat \<Rightarrow> string \<Rightarrow> string" where
  "fragmented_line kind clusters fragments path =
     pad_right 4 kind @ ''  '' @ pad_left (CHR '' '') 6 (dec clusters) @ '' clusters  '' @
     pad_left (CHR '' '') 4 (dec fragments) @ '' fragments  '' @ path @ [NL]"

definition fat_analysis_list_fragmented :: "env \<Rightarrow> Fat32 \<Rightarrow> FileRecord list \<Rightarrow> (string \<times> Fat32) res" where
  "fat_analysis_list_fragmented E fs files =
     bindE (filesystem_root_chain E fs) (\<lambda>(root_chain, fs).
     bindE (filesystem_root_fragments E fs) (\<lambda>(root_fragments, fs).
     Inr ((if root_fragments > 1
           then fragmented_line ''DIR'' (length root_chain) root_fragments ''<root directory>'' else '''') @
          concat (map (\<lambda>f. if fr_fragments f > 1
            then fragmented_line (if fr_is_dir f then ''DIR'' else ''FILE'') (length (fr_chain f))
                   (fr_fragments f) (bytes_text (fr_path f)) else '''') files), fs)))"

section \<open>The allocation map\<close>

abbreviation MAP_CLUSTER_USED :: nat where "MAP_CLUSTER_USED \<equiv> 1"
abbreviation MAP_CLUSTER_FRAGMENTED :: nat where "MAP_CLUSTER_FRAGMENTED \<equiv> 2"
abbreviation MAP_CLUSTER_DIRECTORY :: nat where "MAP_CLUSTER_DIRECTORY \<equiv> 4"
abbreviation MAP_CLUSTER_BAD :: nat where "MAP_CLUSTER_BAD \<equiv> 8"

record LiveMapCell =
  lc_start :: nat
  lc_end :: nat
  lc_free_count :: nat
  lc_used_count :: nat
  lc_fragmented_count :: nat
  lc_directory_count :: nat
  lc_bad_count :: nat

text \<open>
  \<open>displaced\<close> becomes true at the first discontinuity and stays true. \<open>prev\<close> is the
  cluster before, of which the first cluster has none.
\<close>

fun mark_extents :: "nat \<Rightarrow> bool \<Rightarrow> nat option \<Rightarrow> nat list \<Rightarrow> nat list \<Rightarrow> nat list res" where
  "mark_extents base displaced prev [] flags = Inr flags"
| "mark_extents base displaced prev (c # rest) flags =
     (let displaced = (displaced \<or> (case prev of None \<Rightarrow> False | Some p \<Rightarrow> c \<noteq> u32 (p + 1)));
          value = (if displaced then base OR MAP_CLUSTER_FRAGMENTED else base)
      in bindE (array_get ''flags'' flags c) (\<lambda>old.
         mark_extents base displaced (Some c) rest (flags[c := old OR value])))"

definition mark_map_chain :: "nat list \<Rightarrow> nat list \<Rightarrow> bool \<Rightarrow> nat list res" where
  "mark_map_chain flags chain directory =
     mark_extents (if directory then MAP_CLUSTER_USED OR MAP_CLUSTER_DIRECTORY else MAP_CLUSTER_USED)
       False None chain flags"

definition table_flag :: "Fat32 \<Rightarrow> nat \<Rightarrow> nat list \<Rightarrow> nat list res" where
  "table_flag fs c flags =
     bindE (fat_value fs c) (\<lambda>v.
     if v = 0 then Inr flags
     else
       let bad = (v = fat_bad_value fs \<or> (v \<ge> fat_reserved_min fs \<and> v < fat_eoc_min fs)) in
       Inr (flags[c := flags ! c OR (if bad then MAP_CLUSTER_USED OR MAP_CLUSTER_BAD else MAP_CLUSTER_USED)]))"

definition map_cell_count :: "Fat32 \<Rightarrow> nat \<Rightarrow> nat" where
  "map_cell_count fs requested_cells =
     (let cells = (if requested_cells = 0 then 4096 else requested_cells);
          cells = (if cells > fs_cluster_count fs then fs_cluster_count fs else cells)
      in if cells = 0 then 1 else cells)"

text \<open>The flags of every cluster: what the table says, the root chain, then every file.\<close>

definition map_flags :: "env \<Rightarrow> Fat32 \<Rightarrow> FileRecord list \<Rightarrow> (nat list \<times> nat \<times> Fat32) res" where
  "map_flags E fs files =
     bindE (foldE (table_flag fs) [2..<fs_max_cluster fs + 1] (replicate (fs_max_cluster fs + 1) 0)) (\<lambda>flags.
     bindE (filesystem_root_chain E fs) (\<lambda>(root_chain, fs).
     bindE (filesystem_root_fragments E fs) (\<lambda>(root_fragments, fs).
     bindE (mark_map_chain flags root_chain True) (\<lambda>flags.
     bindE (foldE (\<lambda>f flags. mark_map_chain flags (fr_chain f) (fr_is_dir f)) files flags) (\<lambda>flags.
     Inr (flags, root_fragments, fs))))))"

definition count_flag :: "nat list \<Rightarrow> nat \<Rightarrow> nat list \<Rightarrow> nat" where
  "count_flag flags flag clusters = length (filter (\<lambda>c. flags ! c AND flag \<noteq> 0) clusters)"

definition cell_range :: "Fat32 \<Rightarrow> nat \<Rightarrow> nat \<Rightarrow> nat \<times> nat" where
  "cell_range fs cells i =
     (let first_index = (i * fs_cluster_count fs) div cells;
          end_index = ((i + 1) * fs_cluster_count fs) div cells;
          end_index = (if end_index \<le> first_index then first_index + 1 else end_index);
          start = u32 (first_index + 2);
          stop = u32 (end_index + 1);
          stop = (if stop > fs_max_cluster fs then fs_max_cluster fs else stop)
      in (start, stop))"

definition map_cell :: "Fat32 \<Rightarrow> nat list \<Rightarrow> nat \<Rightarrow> nat \<Rightarrow> LiveMapCell" where
  "map_cell fs flags cells i =
     (let (start, stop) = cell_range fs cells i;
          clusters = [start..<stop + 1]
      in \<lparr>lc_start = start, lc_end = stop,
          lc_free_count = length (filter (\<lambda>c. flags ! c AND MAP_CLUSTER_USED = 0) clusters),
          lc_used_count = count_flag flags MAP_CLUSTER_USED clusters,
          lc_fragmented_count = count_flag flags MAP_CLUSTER_FRAGMENTED clusters,
          lc_directory_count = count_flag flags MAP_CLUSTER_DIRECTORY clusters,
          lc_bad_count = count_flag flags MAP_CLUSTER_BAD clusters\<rparr>)"

definition map_cells :: "Fat32 \<Rightarrow> nat list \<Rightarrow> nat \<Rightarrow> LiveMapCell list" where
  "map_cells fs flags cells = map (map_cell fs flags cells) [0..<cells]"

definition growth_layout_satisfied_for_map ::
  "env \<Rightarrow> Fat32 \<Rightarrow> FileRecord list \<Rightarrow> nat \<Rightarrow> (bool \<times> Fat32) res" where
  "growth_layout_satisfied_for_map E fs files percent =
     bindE (fat_relayout_preflight E fs files percent) (\<lambda>(preflight, fs).
     let satisfied = (pf_issue preflight = FAT_RELAYOUT_PREFLIGHT_OK) in
     if \<not> satisfied \<and> pf_issue preflight \<noteq> FAT_RELAYOUT_PREFLIGHT_OBJECT_FRAGMENTED \<and>
        pf_issue preflight \<noteq> FAT_RELAYOUT_PREFLIGHT_ROOT_FRAGMENTED then
       bindE (fat_relayout_build_objects E fs files) (\<lambda>(objects, counts, fs).
       bindE (if oc_regular_files counts \<noteq> 0 then
                bindE (fat_relayout_matches_canonical fs objects percent) (\<lambda>r. Inr (r \<noteq> None))
              else Inr satisfied) (\<lambda>satisfied.
       Inr (satisfied, fs)))
     else Inr (satisfied, fs))"

section \<open>JSON\<close>

abbreviation BACKSLASH :: char where "BACKSLASH \<equiv> CHR 0x5C"

definition json_escape :: "nat \<Rightarrow> string" where
  "json_escape p =
     (if p = 0x22 then [BACKSLASH, QUOTE]
      else if p = 0x5C then [BACKSLASH, BACKSLASH]
      else if p = 0x08 then [BACKSLASH, CHR ''b'']
      else if p = 0x0C then [BACKSLASH, CHR ''f'']
      else if p = 0x0A then [BACKSLASH, CHR ''n'']
      else if p = 0x0D then [BACKSLASH, CHR ''r'']
      else if p = 0x09 then [BACKSLASH, CHR ''t'']
      else if p < 0x20 then BACKSLASH # CHR ''u'' # pad_left (CHR ''0'') 4 (hex p)
      else [char_of p])"

definition json_print_string :: "nat list \<Rightarrow> string" where
  "json_print_string value = QUOTE # concat (map json_escape value) @ [QUOTE]"

definition json_field :: "string \<Rightarrow> string \<Rightarrow> string" where
  "json_field key value = ''  '' @ json_quoted key @ '': '' @ value @ '','' @ [NL]"

definition json_cell_body :: "LiveMapCell \<Rightarrow> string" where
  "json_cell_body cell =
     json_pair ''start'' (lc_start cell) @ '','' @ json_pair ''end'' (lc_end cell) @ '','' @
     json_pair ''free'' (lc_free_count cell) @ '','' @ json_pair ''used'' (lc_used_count cell) @ '','' @
     json_pair ''fragmented'' (lc_fragmented_count cell) @ '','' @
     json_pair ''directory'' (lc_directory_count cell) @ '','' @ json_pair ''bad'' (lc_bad_count cell)"

definition json_cells :: "LiveMapCell list \<Rightarrow> string" where
  "json_cells cells =
     concat (map (\<lambda>i. ''    {'' @ json_cell_body (cells ! i) @ ''}'' @
                      (if i + 1 = length cells then '''' else '','') @ [NL]) [0..<length cells])"

definition fat_analysis_print_map_json ::
  "env \<Rightarrow> string \<Rightarrow> Fat32 \<Rightarrow> FileRecord list \<Rightarrow> nat \<Rightarrow> (string \<times> Fat32) res" where
  "fat_analysis_print_map_json E program_version fs files requested_cells =
     (let cells = map_cell_count fs requested_cells in
      bindE (map_flags E fs files) (\<lambda>(flags, root_fragments, fs).
      let t = foldl tally_file (tally_worst root_fragments root_path (no_tally\<lparr>ta_directories := 1\<rparr>)) files in
      bindE (count_free_clusters fs) (\<lambda>free_clusters.
      bindE (holes_below_high_water fs) (\<lambda>(gaps, highest).
      bindE (terminal_free_clusters fs) (\<lambda>terminal.
      bindE (growth_layout_satisfied_for_map E fs files 10) (\<lambda>(growth_10_satisfied, fs).
      Inr (''{'' @ [NL] @
           json_field ''program'' (json_quoted ''linux-defragger-fat-worker'') @
           json_field ''version'' (json_quoted program_version) @
           json_field ''device'' (json_print_string (text_bytes (dev_path (fs_dev fs)))) @
           json_field ''filesystem'' (json_quoted (fat_type_name fs)) @
           json_field ''volume_id'' (json_quoted (hex08 (fs_volume_id fs))) @
           json_field ''bytes_per_sector'' (dec (fs_bytes_per_sector fs)) @
           json_field ''sectors_per_cluster'' (dec (fs_sectors_per_cluster fs)) @
           json_field ''cluster_size'' (dec (fs_cluster_size fs)) @
           json_field ''data_clusters'' (dec (fs_cluster_count fs)) @
           json_field ''free_clusters'' (dec free_clusters) @
           json_field ''used_clusters'' (dec (fs_cluster_count fs - free_clusters)) @
           json_field ''regular_files'' (dec (ta_regular t)) @
           json_field ''fragmented_files'' (dec (ta_fragmented t)) @
           json_field ''directories'' (dec (ta_directories t)) @
           json_field ''fragmented_directories'' (dec (ta_dir_fragmented t)) @
           json_field ''root_fragments'' (dec root_fragments) @
           json_field ''worst_fragments'' (dec (ta_worst_fragments t)) @
           json_field ''worst_path'' (case ta_worst_path t of None \<Rightarrow> ''null'' | Some p \<Rightarrow> json_print_string p) @
           json_field ''highest_allocated_cluster'' (dec highest) @
           json_field ''free_gaps_below_highest'' (dec gaps) @
           json_field ''terminal_free_clusters'' (dec terminal) @
           json_field ''growth_10_satisfied'' (if growth_10_satisfied then ''true'' else ''false'') @
           json_field ''cell_count'' (dec cells) @
           ''  '' @ json_quoted ''cells'' @ '': ['' @ [NL] @
           json_cells (map_cells fs flags cells) @
           ''  ]'' @ [NL] @ ''}'' @ [NL], fs)))))))"

section \<open>The live map\<close>

record LiveMap =
  lm_cells :: nat
  lm_previous :: "LiveMapCell list option"

definition fat_analysis_set_live_map_cells :: "nat \<Rightarrow> LiveMap \<Rightarrow> LiveMap" where
  "fat_analysis_set_live_map_cells cell_count m = m\<lparr>lm_cells := cell_count\<rparr>"

definition fat_analysis_reset_live_map :: "LiveMap \<Rightarrow> LiveMap" where
  "fat_analysis_reset_live_map m = m\<lparr>lm_previous := None, lm_cells := 0\<rparr>"

record LiveCounts =
  lv_fragmented_files :: nat
  lv_fragmented_dirs :: nat
  lv_free_clusters :: nat
  lv_free_gaps :: nat

definition build_live_map_cells ::
  "env \<Rightarrow> Fat32 \<Rightarrow> FileRecord list \<Rightarrow> nat \<Rightarrow> (LiveMapCell list \<times> LiveCounts \<times> Fat32) res" where
  "build_live_map_cells E fs files requested_cells =
     (let cells = map_cell_count fs requested_cells in
      bindE (map_flags E fs files) (\<lambda>(flags, root_fragments, fs).
      let fd = (if root_fragments > 1 then 1 else 0) +
               length (filter (\<lambda>f. fr_is_dir f \<and> fr_fragments f > 1) files);
          ff = length (filter (\<lambda>f. \<not> fr_is_dir f \<and> fr_fragments f > 1) files)
      in
      bindE (count_free_clusters fs) (\<lambda>free_clusters.
      bindE (holes_below_high_water fs) (\<lambda>(free_gaps, highest).
      Inr (map_cells fs flags cells,
           \<lparr>lv_fragmented_files = ff, lv_fragmented_dirs = fd, lv_free_clusters = free_clusters,
            lv_free_gaps = free_gaps\<rparr>, fs)))))"

text \<open>
  With the statistics pointers NULL, as here, the counters are not computed; they cannot
  fail on a loaded table.
\<close>

definition fat_analysis_initialise_live_map ::
  "env \<Rightarrow> Fat32 \<Rightarrow> FileRecord list \<Rightarrow> LiveMap \<Rightarrow> (LiveMap \<times> Fat32) res" where
  "fat_analysis_initialise_live_map E fs files m =
     (if lm_cells m = 0 then Inr (m, fs)
      else
        bindE (map_flags E fs files) (\<lambda>(flags, root_fragments, fs).
        Inr (m\<lparr>lm_previous := Some (map_cells fs flags (map_cell_count fs (lm_cells m)))\<rparr>, fs)))"

text \<open>The cells that differ from the previous map, by index.\<close>

definition changed_cells :: "LiveMapCell list option \<Rightarrow> LiveMapCell list \<Rightarrow> nat list" where
  "changed_cells previous now =
     filter (\<lambda>i. case previous of None \<Rightarrow> True
       | Some old \<Rightarrow> i \<ge> length old \<or> now ! i \<noteq> old ! i) [0..<length now]"

definition live_update_text :: "LiveCounts \<Rightarrow> LiveMapCell list \<Rightarrow> nat list \<Rightarrow> string" where
  "live_update_text counts now changed =
     ''@@LIVE_MAP {'' @ json_pair ''fragmented_files'' (lv_fragmented_files counts) @ '','' @
     json_pair ''fragmented_directories'' (lv_fragmented_dirs counts) @ '','' @
     json_pair ''free_clusters'' (lv_free_clusters counts) @ '','' @
     json_pair ''free_gaps_below_highest'' (lv_free_gaps counts) @ '','' @
     json_quoted ''cells'' @ '':['' @
     concat (map (\<lambda>(k, i). (if k = 0 then '''' else '','') @ ''{'' @ json_pair ''i'' i @ '','' @
                   json_cell_body (now ! i) @ ''}'') (zip [0..<length changed] changed)) @
     '']}'' @ [NL]"

definition fat_analysis_emit_live_map_update ::
  "env \<Rightarrow> bytes \<Rightarrow> Fat32 \<Rightarrow> LiveMap \<Rightarrow> (string \<times> LiveMap \<times> Fat32) res" where
  "fat_analysis_emit_live_map_update E d fs m =
     (if lm_cells m = 0 then Inr ('''', m, fs)
      else
        bindE (scan_files E d fs True) (\<lambda>(files, refs, fs).
        bindE (build_live_map_cells E fs files (lm_cells m)) (\<lambda>(now, counts, fs).
        Inr (live_update_text counts now (changed_cells (lm_previous m) now),
             m\<lparr>lm_previous := Some now\<rparr>, fs))))"

section \<open>Verification of a layout\<close>

definition verification_text :: "ObjectCounts \<Rightarrow> nat \<Rightarrow> nat \<Rightarrow> string" where
  "verification_text counts reserve_percent reserve_clusters =
     ''Layout verification:      '' @ dec (oc_regular_files counts) @ '' file'' @
     plural (oc_regular_files counts) '''' ''s'' @ '' and '' @ dec (oc_directories counts) @ '' director'' @
     plural (oc_directories counts) ''y'' ''ies'' @ '' contiguous; '' @
     (if reserve_percent = 0 then ''no free clusters below the final allocation'' @ [NL]
      else ''canonical '' @ dec reserve_percent @ ''% growth gaps verified ('' @ dec reserve_clusters @
           '' clusters)'' @ [NL])"

definition fat_analysis_verify_layout_policy ::
  "env \<Rightarrow> bytes \<Rightarrow> Fat32 \<Rightarrow> nat \<Rightarrow> (string \<times> Fat32) res" where
  "fat_analysis_verify_layout_policy E d fs reserve_percent =
     bindE (scan_files E d fs True) (\<lambda>(files, refs, fs).
     bindE (filesystem_root_chain E fs) (\<lambda>(root_chain, fs).
     bindE (die_if (chain_fragments root_chain > 1)
              (Die ''layout verification failed: the root directory is fragmented'')) (\<lambda>_.
     bindE (die_if (list_ex (\<lambda>f. fr_chain f \<noteq> [] \<and> fr_fragments f > 1) files)
              (ExitFailure ''layout verification failed: a file remains fragmented'')) (\<lambda>_.
     bindE (fat_relayout_build_objects E fs files) (\<lambda>(objects, counts, fs).
     bindE (fat_relayout_matches_canonical fs objects reserve_percent) (\<lambda>canonical.
     bindE (die_if (canonical = None \<and> (oc_regular_files counts \<noteq> 0 \<or> oc_directories counts \<noteq> 0))
              (Die ''layout verification failed: allocations do not match the canonical earliest layout'')) (\<lambda>_.
     bindE (holes_below_high_water fs) (\<lambda>(holes, highest).
     bindE (die_if (reserve_percent = 0 \<and> holes \<noteq> 0)
              (ExitFailure ''layout verification failed: free clusters remain below highest allocated cluster'')) (\<lambda>_.
     Inr (verification_text counts reserve_percent (case canonical of None \<Rightarrow> 0 | Some n \<Rightarrow> n), fs))))))))))"

end
