(* ===== verification/Loops.thy ===== *)
theory Loops
  imports Environment
begin

text \<open>
  Loops that act on the world and whose end is not evident. \<open>loopI\<close> repeats a body that
  either continues with a new state (\<open>Inl\<close>) or leaves with a result (\<open>Inr\<close>). A loop that
  never returns is \<open>None\<close>. Code that runs such a loop has the type \<open>loop\<close>.
\<close>

type_synonym 'a loop = "world \<Rightarrow> ('a res \<times> world) option"

partial_function (option) loopI :: "('s \<Rightarrow> ('s + 'a) io) \<Rightarrow> 's \<Rightarrow> 'a loop" where
  "loopI body s w =
     (case body s w of
        (Inl e, w') \<Rightarrow> Some (Inl e, w')
      | (Inr (Inl s'), w') \<Rightarrow> loopI body s' w'
      | (Inr (Inr r), w') \<Rightarrow> Some (Inr r, w'))"

definition onceL :: "'a io \<Rightarrow> 'a loop" where
  "onceL m w = Some (m w)"

definition bindL :: "'a loop \<Rightarrow> ('a \<Rightarrow> 'b loop) \<Rightarrow> 'b loop" where
  "bindL m f w =
     (case m w of
        None \<Rightarrow> None
      | Some (Inl e, w') \<Rightarrow> Some (Inl e, w')
      | Some (Inr x, w') \<Rightarrow> f x w')"

lemma onceL_Some [res_simps]: "onceL m w = Some r \<longleftrightarrow> m w = r"
  by (simp add: onceL_def)

lemma bindL_Inr [res_simps]:
  "bindL m f w = Some (Inr y, w') \<longleftrightarrow> (\<exists>x v. m w = Some (Inr x, v) \<and> f x v = Some (Inr y, w'))"
  by (auto simp: bindL_def split: option.splits prod.splits sum.splits)

text \<open>A property that every round keeps holds when the loop leaves normally.\<close>

lemma loopI_invariant:
  assumes "loopI body s w = Some (Inr r, v)" "P s w"
    and step: "\<And>s w s' w'. P s w \<Longrightarrow> body s w = (Inr (Inl s'), w') \<Longrightarrow> P s' w'"
    and leave: "\<And>s w r w'. P s w \<Longrightarrow> body s w = (Inr (Inr r), w') \<Longrightarrow> Q r w'"
  shows "Q r v"
proof -
  have "b = body \<longrightarrow> P s w \<longrightarrow> (\<forall>r v. t = (Inr r, v) \<longrightarrow> Q r v)" if "loopI b s w = Some t" for b s w t
    using that
  proof (induction rule: loopI.raw_induct [rotated, consumes 1, case_names round])
    case (round loop b s w t)
    show ?case
    proof (intro impI allI)
      fix r v
      assume b: "b = body" and P: "P s w" and t: "t = (Inr r, v)"
      consider (more) s' w' where "body s w = (Inr (Inl s'), w')" | (out) "body s w = (Inr (Inr r), v)"
        using round(2) t b by (auto split: prod.splits sum.splits)
      then show "Q r v"
      proof cases
        case more
        then have "loop body s' w' = Some t" using round(2) b by simp
        with round(1) b step [OF P more] t show ?thesis by blast
      next
        case out
        with P show ?thesis by (rule leave)
      qed
    qed
  qed
  with assms(1,2) show ?thesis by blast
qed

text \<open>A round that decreases a measure or leaves makes the loop return.\<close>

lemma loopI_returns:
  assumes "P s w"
    and "\<And>s w s' w'. P s w \<Longrightarrow> body s w = (Inr (Inl s'), w') \<Longrightarrow>
           P s' w' \<and> (m s' w' :: nat) < m s w"
  shows "\<exists>r v. loopI body s w = Some (r, v)"
  using assms(1)
proof (induction "m s w" arbitrary: s w rule: less_induct)
  case less
  show ?case
  proof (cases "body s w")
    case (Pair r w')
    show ?thesis
    proof (cases r)
      case (Inl e)
      then show ?thesis using Pair by (subst loopI.simps) simp
    next
      case (Inr c)
      show ?thesis
      proof (cases c)
        case (Inl s')
        then have "body s w = (Inr (Inl s'), w')" using Pair Inr by simp
        then show ?thesis
          using assms(2) [OF less.prems] less.hyps by (subst loopI.simps) auto
      next
        case (Inr x)
        then show ?thesis using Pair \<open>r = Inr c\<close> by (subst loopI.simps) simp
      qed
    qed
  qed
qed

end
