(* ===== verification/FatPacking.thy ===== *)
theory FatPacking
  imports FatAnalysis FatRelocation Loops
begin

text \<open>
  The first part of \<open>writer.c\<close>: the terminal workspace, forward compaction and the
  unified workspace layout. The file-scope state of the engine is the record \<open>Writer\<close>.
  Progress messages on stderr, the diagnostic log and clock readings are not modelled.
\<close>

record Writer =
  wr_fs :: Fat32
  wr_io :: FatIoConfig
  wr_map :: LiveMap

record FatRelayoutStats =
  rs_objects_moved :: nat
  rs_files_moved :: nat
  rs_directories_moved :: nat
  rs_clusters_copied :: nat
  rs_transactions :: nat
  rs_packing_clusters :: nat
  rs_packing_transactions :: nat
  rs_reserve_clusters :: nat
  rs_applied_percent :: nat
  rs_interrupted :: bool
  rs_layout_started :: bool
  rs_already_satisfied :: bool
  rs_canonical_layout_verified :: bool
  rs_checked_files :: nat
  rs_checked_directories :: nat

section \<open>Small operations\<close>

definition default_journal_path :: "env \<Rightarrow> string \<Rightarrow> string res" where
  "default_journal_path E device_path =
     (let base = path_basename E device_path in
      case size_add_checked E (length base) 40 of
        None \<Rightarrow> Inl (Die ''default FAT journal path is too long'')
      | Some n \<Rightarrow> Inr (take (n - 1) (''.linux-defragger-fat-worker-'' @ base @ ''.journal'')))"

definition reserve_relocation_moves :: "env \<Rightarrow> nat \<Rightarrow> nat \<Rightarrow> unit res" where
  "reserve_relocation_moves E n additional =
     (case size_add_checked E n additional of
        None \<Rightarrow> Inl (Die ''cannot grow FAT relocation move array'')
      | Some required \<Rightarrow>
          die_if (\<not> array_reserve E 16 required) (Die ''cannot grow FAT relocation move array''))"

definition writer_cluster_is_movable_allocation :: "Fat32 \<Rightarrow> nat \<Rightarrow> bool res" where
  "writer_cluster_is_movable_allocation fs cluster =
     bindE (fat_value fs cluster) (\<lambda>value.
     Inr (value \<noteq> 0 \<and> value \<noteq> fat_bad_value fs \<and>
          \<not> (value \<ge> fat_reserved_min fs \<and> value < fat_eoc_min fs)))"

definition writer_count_free_clusters :: "Fat32 \<Rightarrow> nat res" where
  "writer_count_free_clusters fs = count_free fs [2..<fs_max_cluster fs + 1]"

definition writer_terminal_free_clusters :: "Fat32 \<Rightarrow> nat res" where
  "writer_terminal_free_clusters fs = terminal_run fs (clusters_downwards fs)"

fun workspace_run :: "Fat32 \<Rightarrow> nat list \<Rightarrow> nat res" where
  "workspace_run fs [] = Inr 0"
| "workspace_run fs (c # rest) =
     bindE (fat_value fs c) (\<lambda>value.
     if value = fat_bad_value fs \<or> (value \<ge> fat_reserved_min fs \<and> value < fat_eoc_min fs) then Inr 0
     else bindE (workspace_run fs rest) (\<lambda>n. Inr (n + 1)))"

definition terminal_workspace_capacity :: "Fat32 \<Rightarrow> nat res" where
  "terminal_workspace_capacity fs = workspace_run fs (clusters_downwards fs)"

definition relayout_object_cluster_total :: "env \<Rightarrow> FatRelayoutObject list \<Rightarrow> nat res" where
  "relayout_object_cluster_total E objects =
     foldE (\<lambda>object total. case size_add_checked E total (ro_clusters object) of
       None \<Rightarrow> Inl (Die ''FAT relayout object-cluster total overflow'') | Some n \<Rightarrow> Inr n) objects 0"

text \<open>A move still without its table links.\<close>

definition new_move :: "nat \<Rightarrow> nat \<Rightarrow> RelocationMove" where
  "new_move source destination =
     \<lparr>mv_source = source, mv_destination = destination, mv_next = 0, mv_predecessor = 0\<rparr>"

definition chain_moves :: "nat list \<Rightarrow> nat \<Rightarrow> RelocationMove list" where
  "chain_moves chain destination =
     map (\<lambda>i. new_move (chain ! i) (u32 (destination + u32 i))) [0..<length chain]"

section \<open>Transactions of the writer\<close>

definition run_relocation ::
  "env \<Rightarrow> DirRef list \<Rightarrow> string \<Rightarrow> RelocationMove list \<Rightarrow> Writer \<Rightarrow> Writer io" where
  "run_relocation E refs journal_path moves st =
     bindI (fat_relocation_execute E (wr_fs st) refs journal_path moves (wr_io st)) (\<lambda>(fs, io).
     retI (st\<lparr>wr_fs := fs, wr_io := io\<rparr>))"

definition relocation_execute_moves ::
  "env \<Rightarrow> DirRef list \<Rightarrow> string \<Rightarrow> RelocationMove list \<Rightarrow> Writer \<Rightarrow> Writer io" where
  "relocation_execute_moves E refs journal_path moves st =
     bindI (run_relocation E refs journal_path moves st) (\<lambda>st.
     bindI (readI (\<lambda>d. fat_analysis_emit_live_map_update E d (wr_fs st) (wr_map st))) (\<lambda>(update, m, fs).
     retI (st\<lparr>wr_fs := fs, wr_map := m\<rparr>)))"

definition rescan :: "env \<Rightarrow> Writer \<Rightarrow> (FileRecord list \<times> DirRef list \<times> Writer) io" where
  "rescan E st =
     bindI (readI (\<lambda>d. scan_files E d (wr_fs st) True)) (\<lambda>(files, refs, fs).
     retI (files, (case refs of None \<Rightarrow> [] | Some r \<Rightarrow> r), st\<lparr>wr_fs := fs\<rparr>))"

definition refresh_fsinfo :: "env \<Rightarrow> Writer \<Rightarrow> unit io" where
  "refresh_fsinfo E st =
     bindI (readI (\<lambda>_. fat_relocation_first_free_hint (wr_fs st))) (\<lambda>hint.
     thenI (fat_relocation_update_fsinfo E (wr_fs st) hint) (fat32_sync E))"

section \<open>The terminal workspace\<close>

record PackingStats =
  ps_clusters_moved :: nat
  ps_transactions :: nat

text \<open>The first free cluster from \<open>destination\<close> on, or \<open>workspace_start\<close>.\<close>

function next_free_below :: "Fat32 \<Rightarrow> nat \<Rightarrow> nat \<Rightarrow> nat res" where
  "next_free_below fs workspace_start destination =
     (if destination < workspace_start then
        bindE (fat_is_free fs destination) (\<lambda>free.
        if free then Inr destination else next_free_below fs workspace_start (destination + 1))
      else Inr destination)"
  by pat_completeness auto
termination by (relation "measure (\<lambda>(fs, ws, d). ws - d)") auto

declare next_free_below.simps [simp del]

fun evacuation_moves ::
  "Fat32 \<Rightarrow> nat \<Rightarrow> nat \<Rightarrow> nat list \<Rightarrow> nat \<Rightarrow> RelocationMove list \<Rightarrow> RelocationMove list res" where
  "evacuation_moves fs workspace_start move_cap [] destination moves = Inr moves"
| "evacuation_moves fs workspace_start move_cap (source # rest) destination moves =
     (if length moves \<ge> move_cap then Inr moves
      else
        bindE (writer_cluster_is_movable_allocation fs source) (\<lambda>movable.
        if \<not> movable then evacuation_moves fs workspace_start move_cap rest destination moves
        else
          bindE (next_free_below fs workspace_start destination) (\<lambda>destination.
          if destination \<ge> workspace_start
          then Inl (Die ''terminal workspace evacuation ran out of free clusters below the workspace'')
          else evacuation_moves fs workspace_start move_cap rest (destination + 1)
                 (moves @ [new_move source destination]))))"

definition prepare_round ::
  "env \<Rightarrow> string \<Rightarrow> nat \<Rightarrow> nat \<Rightarrow> nat \<Rightarrow> Writer \<times> PackingStats \<Rightarrow>
   (Writer \<times> PackingStats + Writer \<times> PackingStats) io" where
  "prepare_round E journal_path workspace_start workspace_clusters batch_clusters loop_state =
     (let (st, stats) = loop_state in
      bindI ld_stop_requested (\<lambda>stop.
      if stop then retI (Inr (st, stats))
      else
        bindI (rescan E st) (\<lambda>(files, refs, st).
        let fs = wr_fs st;
            move_cap = (if batch_clusters < workspace_clusters then batch_clusters else workspace_clusters)
        in
        bindI (readI (\<lambda>_. evacuation_moves fs workspace_start move_cap
                 [workspace_start..<fs_max_cluster fs + 1] 2 [])) (\<lambda>moves.
        if moves = [] then retI (Inr (st, stats))
        else
          bindI (relocation_execute_moves E refs journal_path moves st) (\<lambda>st.
          bindI (readI (\<lambda>_. writer_terminal_free_clusters (wr_fs st))) (\<lambda>reported.
          retI (Inl (st, stats\<lparr>ps_transactions := ps_transactions stats + 1,
                               ps_clusters_moved := ps_clusters_moved stats + length moves\<rparr>))))))))"

definition prepare_terminal_workspace ::
  "env \<Rightarrow> string \<Rightarrow> nat \<Rightarrow> nat \<Rightarrow> nat \<Rightarrow> Writer \<Rightarrow> (Writer \<times> PackingStats) loop" where
  "prepare_terminal_workspace E journal_path workspace_start workspace_clusters batch_clusters st =
     (let batch_clusters = (if batch_clusters = 0 then 1 else batch_clusters) in
      bindL (onceL (die_ifI (workspace_clusters = 0 \<or> workspace_start < 2 \<or>
                workspace_start + workspace_clusters - 1 > fs_max_cluster (wr_fs st))
              (Die ''invalid terminal staging workspace''))) (\<lambda>_.
      bindL (loopI (prepare_round E journal_path workspace_start workspace_clusters batch_clusters)
               (st, \<lparr>ps_clusters_moved = 0, ps_transactions = 0\<rparr>)) (\<lambda>(st, stats).
      onceL (thenI (refresh_fsinfo E st) (retI (st, stats))))))"

section \<open>Chains and ranges\<close>

fun all_free :: "Fat32 \<Rightarrow> nat list \<Rightarrow> bool res" where
  "all_free fs [] = Inr True"
| "all_free fs (c # rest) =
     bindE (fat_is_free fs c) (\<lambda>free. if \<not> free then Inr False else all_free fs rest)"

definition cluster_range_is_free :: "Fat32 \<Rightarrow> nat \<Rightarrow> nat \<Rightarrow> bool res" where
  "cluster_range_is_free fs start n =
     (if n = 0 then Inr False
      else if start < 2 \<or> start + n - 1 > fs_max_cluster fs then Inr False
      else all_free fs (map (\<lambda>i. u32 (start + u32 i)) [0..<n]))"

definition find_relayout_object_chain ::
  "env \<Rightarrow> FatRelayoutObject \<Rightarrow> FileRecord list \<Rightarrow> Fat32 \<Rightarrow> (nat list \<times> Fat32) res" where
  "find_relayout_object_chain E object files fs =
     (if ro_is_root object then filesystem_root_chain E fs
      else
        case find (\<lambda>f. fr_path f = ro_path object \<and> fr_is_dir f = ro_is_dir object) files of
          None \<Rightarrow> Inl (Die ''layout object disappeared during rescan'')
        | Some f \<Rightarrow> Inr (fr_chain f, fs))"

definition current_chain_min_cluster :: "nat list \<Rightarrow> nat" where
  "current_chain_min_cluster chain = foldl (\<lambda>minimum c. if c < minimum then c else minimum) UINT32_MAX chain"

definition relayout_move_chain ::
  "env \<Rightarrow> DirRef list \<Rightarrow> nat list \<Rightarrow> nat \<Rightarrow> string \<Rightarrow> bool \<Rightarrow> Writer \<Rightarrow> Writer io" where
  "relayout_move_chain E refs chain destination journal_path emit_map st =
     (if emit_map then relocation_execute_moves E refs journal_path (chain_moves chain destination) st
      else run_relocation E refs journal_path (chain_moves chain destination) st)"

definition automatic_relayout_batch_clusters :: "FatIoConfig \<Rightarrow> Fat32 \<Rightarrow> nat" where
  "automatic_relayout_batch_clusters io fs =
     (let by_ram = io_ram_limit io div fs_cluster_size fs;
          four_gb = 4 * 1024 * 1024 * 1024 div fs_cluster_size fs;
          by_ram = (if by_ram > four_gb then four_gb else by_ram)
      in if by_ram = 0 then 1 else by_ram)"

definition relayout_batch_can_add ::
  "Fat32 \<Rightarrow> nat list \<Rightarrow> nat \<Rightarrow> bool list \<Rightarrow> bool list \<Rightarrow> bool res" where
  "relayout_batch_can_add fs chain destination source_seen destination_seen =
     bindE (cluster_range_is_free fs destination (length chain)) (\<lambda>free.
     Inr (free \<and> list_all (\<lambda>i.
       let source = chain ! i; target = u32 (destination + u32 i) in
       \<not> (source_seen ! source \<or> destination_seen ! source \<or>
          source_seen ! target \<or> destination_seen ! target)) [0..<length chain]))"

record WorkspaceStageItem =
  ws_object_index :: nat
  ws_staged_at :: nat

text \<open>What a batch counts by kind of object.\<close>

definition count_kinds :: "FatRelayoutObject list \<Rightarrow> nat \<times> nat" where
  "count_kinds objects =
     (length (filter (\<lambda>o'. \<not> ro_is_dir o') objects), length (filter ro_is_dir objects))"

definition add_placed ::
  "FatRelayoutObject list \<Rightarrow> nat \<Rightarrow> FatRelayoutStats \<Rightarrow> FatRelayoutStats" where
  "add_placed objects clusters stats =
     (let (files, directories) = count_kinds objects in
      stats\<lparr>rs_transactions := rs_transactions stats + 1,
            rs_clusters_copied := rs_clusters_copied stats + clusters,
            rs_objects_moved := rs_objects_moved stats + length objects,
            rs_files_moved := rs_files_moved stats + files,
            rs_directories_moved := rs_directories_moved stats + directories\<rparr>)"

definition add_staged :: "nat \<Rightarrow> FatRelayoutStats \<Rightarrow> FatRelayoutStats" where
  "add_staged clusters stats =
     stats\<lparr>rs_transactions := rs_transactions stats + 1,
           rs_clusters_copied := rs_clusters_copied stats + clusters\<rparr>"

section \<open>Forward compaction\<close>

text \<open>Skip the objects that already sit at their target.\<close>

fun forward_skip_exact ::
  "env \<Rightarrow> FileRecord list \<Rightarrow> FatRelayoutObject list \<Rightarrow> nat \<Rightarrow> Fat32 \<Rightarrow> (nat \<times> Fat32) res" where
  "forward_skip_exact E files [] nxt fs = Inr (nxt, fs)"
| "forward_skip_exact E files (object # rest) nxt fs =
     bindE (find_relayout_object_chain E object files fs) (\<lambda>(chain, fs).
     bindE (die_if (length chain \<noteq> ro_clusters object)
              (Die ''layout object changed size during forward compaction'')) (\<lambda>_.
     if chain_is_exact_run chain (ro_target object)
     then forward_skip_exact E files rest (nxt + 1) fs else Inr (nxt, fs)))"

record StageBatch =
  sb_items :: "WorkspaceStageItem list"
  sb_moves :: "RelocationMove list"
  sb_seen :: "bool list"

definition mark_clusters :: "nat list \<Rightarrow> bool list \<Rightarrow> bool list" where
  "mark_clusters clusters seen = foldl (\<lambda>s c. s[c := True]) seen clusters"

text \<open>\<open>None\<close> is the \<open>return false\<close> of the scheduler.\<close>

fun forward_collect ::
  "env \<Rightarrow> FileRecord list \<Rightarrow> nat \<Rightarrow> nat \<Rightarrow> nat \<Rightarrow> nat \<Rightarrow> FatRelayoutObject list \<Rightarrow> nat \<Rightarrow>
   StageBatch \<Rightarrow> Fat32 \<Rightarrow> (StageBatch option \<times> Fat32) res" where
  "forward_collect E files workspace_start workspace_clusters object_limit cluster_limit [] candidate batch fs =
     Inr (Some batch, fs)"
| "forward_collect E files workspace_start workspace_clusters object_limit cluster_limit
     (object # rest) candidate batch fs =
     (if length (sb_items batch) \<ge> object_limit then Inr (Some batch, fs)
      else
        bindE (find_relayout_object_chain E object files fs) (\<lambda>(chain, fs).
        bindE (die_if (length chain \<noteq> ro_clusters object)
                 (Die ''layout object changed size during forward compaction'')) (\<lambda>_.
        let staged = length (sb_moves batch) in
        if chain_is_exact_run chain (ro_target object) then Inr (Some batch, fs)
        else if ro_target object > current_chain_min_cluster chain then Inr (None, fs)
        else if sb_items batch \<noteq> [] \<and>
                (staged \<ge> cluster_limit \<or> ro_clusters object > workspace_clusters - staged \<or>
                 ro_clusters object > cluster_limit - staged) then Inr (Some batch, fs)
        else if sb_items batch = [] \<and> ro_clusters object > workspace_clusters then Inr (None, fs)
        else
          bindE (reserve_relocation_moves E staged (length chain)) (\<lambda>_.
          let staged_at = u32 (workspace_start + u32 staged);
              batch = batch\<lparr>sb_items := sb_items batch @ [\<lparr>ws_object_index = candidate, ws_staged_at = staged_at\<rparr>],
                            sb_moves := sb_moves batch @ chain_moves chain staged_at,
                            sb_seen := mark_clusters chain (sb_seen batch)\<rparr>
          in forward_collect E files workspace_start workspace_clusters object_limit cluster_limit
               rest (candidate + 1) batch fs))))"

fun released :: "Fat32 \<Rightarrow> bool list \<Rightarrow> nat list \<Rightarrow> bool res" where
  "released fs seen [] = Inr True"
| "released fs seen (cluster # rest) =
     bindE (fat_is_free fs cluster) (\<lambda>free.
     if \<not> free \<and> \<not> seen ! cluster then Inr False else released fs seen rest)"

fun targets_release_with_batch ::
  "Fat32 \<Rightarrow> bool list \<Rightarrow> FatRelayoutObject list \<Rightarrow> bool res" where
  "targets_release_with_batch fs seen [] = Inr True"
| "targets_release_with_batch fs seen (object # rest) =
     (let target_end = ro_target object + ro_clusters object - 1 in
      if target_end > fs_max_cluster fs then Inr False
      else
        bindE (released fs seen [ro_target object..<target_end + 1]) (\<lambda>ok.
        if ok then targets_release_with_batch fs seen rest else Inr False))"

text \<open>
  The moves from the workspace to the targets. \<open>lost\<close> and \<open>occupied\<close> are the messages of
  the two schedulers that place staged objects.
\<close>

fun place_moves ::
  "env \<Rightarrow> FileRecord list \<Rightarrow> string \<Rightarrow> string \<Rightarrow> FatRelayoutObject list \<Rightarrow> WorkspaceStageItem list \<Rightarrow>
   RelocationMove list \<Rightarrow> Fat32 \<Rightarrow> (RelocationMove list \<times> Fat32) res" where
  "place_moves E files lost occupied objects [] moves fs = Inr (moves, fs)"
| "place_moves E files lost occupied objects (item # rest) moves fs =
     (let object = objects ! ws_object_index item in
      bindE (find_relayout_object_chain E object files fs) (\<lambda>(chain, fs).
      bindE (die_if (\<not> chain_is_exact_run chain (ws_staged_at item)) (Die lost)) (\<lambda>_.
      bindE (cluster_range_is_free fs (ro_target object) (ro_clusters object)) (\<lambda>free.
      bindE (die_if (\<not> free) (Die occupied)) (\<lambda>_.
      place_moves E files lost occupied objects rest (moves @ chain_moves chain (ro_target object)) fs)))))"

definition items_objects :: "FatRelayoutObject list \<Rightarrow> WorkspaceStageItem list \<Rightarrow> FatRelayoutObject list" where
  "items_objects objects items = map (\<lambda>item. objects ! ws_object_index item) items"

record LayoutPlan =
  pl_journal_path :: string
  pl_objects :: "FatRelayoutObject list"
  pl_workspace_start :: nat
  pl_workspace_clusters :: nat
  pl_cluster_limit :: nat

text \<open>The second transaction of a batch: place what was staged.\<close>

definition place_batch ::
  "env \<Rightarrow> LayoutPlan \<Rightarrow> string \<Rightarrow> string \<Rightarrow> WorkspaceStageItem list \<Rightarrow> Writer \<Rightarrow> FatRelayoutStats \<Rightarrow>
   (Writer \<times> FatRelayoutStats) io" where
  "place_batch E plan lost occupied items st stats =
     bindI (rescan E st) (\<lambda>(files, refs, st).
     bindI (readI (\<lambda>_. place_moves E files lost occupied (pl_objects plan) items [] (wr_fs st))) (\<lambda>(moves, fs).
     bindI (relocation_execute_moves E refs (pl_journal_path plan) moves (st\<lparr>wr_fs := fs\<rparr>)) (\<lambda>st.
     retI (st, add_placed (items_objects (pl_objects plan) items) (length moves) stats))))"

text \<open>One round: the result is \<open>true\<close> (done or stopped) or \<open>false\<close> (not sufficient).\<close>

definition forward_round ::
  "env \<Rightarrow> LayoutPlan \<Rightarrow> Writer \<times> nat \<times> FatRelayoutStats \<Rightarrow>
   ((Writer \<times> nat \<times> FatRelayoutStats) + (bool \<times> Writer \<times> FatRelayoutStats)) io" where
  "forward_round E plan loop_state =
     (let (st, nxt, stats) = loop_state; objects = pl_objects plan in
      if nxt \<ge> length objects then retI (Inr (True, st, stats))
      else
        bindI ld_stop_requested (\<lambda>stop.
        if stop then retI (Inr (True, st, stats\<lparr>rs_interrupted := True\<rparr>))
        else
          bindI (rescan E st) (\<lambda>(files, refs, st).
          bindI (readI (\<lambda>_. forward_skip_exact E files (drop nxt objects) nxt (wr_fs st))) (\<lambda>(nxt, fs).
          if nxt = length objects then retI (Inr (True, st\<lparr>wr_fs := fs\<rparr>, stats))
          else
            bindI (readI (\<lambda>_. forward_collect E files (pl_workspace_start plan) (pl_workspace_clusters plan)
                     (length objects) (pl_cluster_limit plan) (drop nxt objects) nxt
                     \<lparr>sb_items = [], sb_moves = [], sb_seen = replicate (fs_max_cluster fs + 1) False\<rparr> fs))
              (\<lambda>(collected, fs).
            let st = st\<lparr>wr_fs := fs\<rparr> in
            case collected of
              None \<Rightarrow> retI (Inr (False, st, stats))
            | Some batch \<Rightarrow>
                bindI (readI (\<lambda>_. targets_release_with_batch fs (sb_seen batch)
                         (items_objects objects (sb_items batch)))) (\<lambda>release.
                if sb_items batch = [] \<or> \<not> release then retI (Inr (False, st, stats))
                else
                  bindI (run_relocation E refs (pl_journal_path plan) (sb_moves batch) st) (\<lambda>st.
                  let stats = add_staged (length (sb_moves batch)) stats in
                  bindI ld_stop_requested (\<lambda>stop.
                  if stop then retI (Inr (True, st, stats\<lparr>rs_interrupted := True\<rparr>))
                  else
                    bindI (place_batch E plan
                             ''forward compaction batch could not reopen its released targets''
                             ''forward compaction batch could not reopen its released targets''
                             (sb_items batch) st stats) (\<lambda>(st, stats).
                    retI (Inl (st, nxt + length (sb_items batch), stats)))))))))))"

definition execute_forward_compaction ::
  "env \<Rightarrow> LayoutPlan \<Rightarrow> Writer \<Rightarrow> FatRelayoutStats \<Rightarrow> (bool \<times> Writer \<times> FatRelayoutStats) loop" where
  "execute_forward_compaction E plan st stats = loopI (forward_round E plan) (st, 0, stats)"

section \<open>The unified workspace layout\<close>

text \<open>How much has to move: the clusters of every object that is not at its target.\<close>

fun unified_total ::
  "env \<Rightarrow> FileRecord list \<Rightarrow> FatRelayoutObject list \<Rightarrow> nat \<Rightarrow> nat \<Rightarrow> Fat32 \<Rightarrow> (nat \<times> nat \<times> Fat32) res" where
  "unified_total E files [] moving_objects moving_clusters fs = Inr (moving_objects, moving_clusters, fs)"
| "unified_total E files (object # rest) moving_objects moving_clusters fs =
     bindE (find_relayout_object_chain E object files fs) (\<lambda>(chain, fs).
     bindE (die_if (length chain \<noteq> ro_clusters object)
              (Die ''layout object changed size during unified workspace planning'')) (\<lambda>_.
     if chain_is_exact_run chain (ro_target object)
     then unified_total E files rest moving_objects moving_clusters fs
     else
       bindE (die_if (length chain > SIZE_MAX - moving_clusters)
                (Die ''unified FAT workspace cluster total overflow'')) (\<lambda>_.
       unified_total E files rest (moving_objects + 1) (moving_clusters + length chain) fs)))"

fun unified_stage ::
  "env \<Rightarrow> FileRecord list \<Rightarrow> FatRelayoutObject list \<Rightarrow> nat \<Rightarrow> nat \<Rightarrow> WorkspaceStageItem list \<Rightarrow>
   RelocationMove list \<Rightarrow> Fat32 \<Rightarrow> (WorkspaceStageItem list \<times> RelocationMove list \<times> Fat32) res" where
  "unified_stage E files [] index staged_cursor items moves fs = Inr (items, moves, fs)"
| "unified_stage E files (object # rest) index staged_cursor items moves fs =
     bindE (find_relayout_object_chain E object files fs) (\<lambda>(chain, fs).
     if chain_is_exact_run chain (ro_target object)
     then unified_stage E files rest (index + 1) staged_cursor items moves fs
     else unified_stage E files rest (index + 1) (u32 (staged_cursor + u32 (length chain)))
            (items @ [\<lparr>ws_object_index = index, ws_staged_at = staged_cursor\<rparr>])
            (moves @ chain_moves chain staged_cursor) fs)"

definition execute_full_workspace_layout ::
  "env \<Rightarrow> LayoutPlan \<Rightarrow> Writer \<Rightarrow> FatRelayoutStats \<Rightarrow> (bool \<times> Writer \<times> FatRelayoutStats) io" where
  "execute_full_workspace_layout E plan st stats =
     (let objects = pl_objects plan in
      bindI (rescan E st) (\<lambda>(files, refs, st).
      bindI (readI (\<lambda>_. unified_total E files objects 0 0 (wr_fs st))) (\<lambda>(moving_objects, moving_clusters, fs).
      let st = st\<lparr>wr_fs := fs\<rparr> in
      if moving_objects = 0 then retI (True, st, stats)
      else if moving_clusters > pl_workspace_clusters plan \<or> moving_clusters > pl_cluster_limit plan
      then retI (False, st, stats)
      else
        bindI (readI (\<lambda>_. cluster_range_is_free fs (pl_workspace_start plan) moving_clusters)) (\<lambda>free.
        thenI (die_ifI (\<not> free) (Die ''unified FAT workspace is unexpectedly occupied''))
       (bindI (readI (\<lambda>_. unified_stage E files objects 0 (pl_workspace_start plan) [] [] fs)) (\<lambda>(items, moves, fs).
        bindI (run_relocation E refs (pl_journal_path plan) moves (st\<lparr>wr_fs := fs\<rparr>)) (\<lambda>st.
        let stats = add_staged (length moves) stats in
        bindI ld_stop_requested (\<lambda>stop.
        if stop then retI (True, st, stats\<lparr>rs_interrupted := True\<rparr>)
        else
          bindI (place_batch E plan ''unified FAT workspace object did not reopen at its staged location''
                   ''unified FAT workspace did not release every canonical target'' items st stats) (\<lambda>(st, stats).
          retI (True, st, stats))))))))))"

end
