(* ===== verification/FatAdaptive.thy ===== *)
theory FatAdaptive
  imports FatPacking
begin

text \<open>
  The adaptive dependency scheduler of \<open>writer.c\<close>: place every object whose target is
  free, else stage the objects that block most targets into the terminal workspace.
\<close>

section \<open>The workspace\<close>

definition chain_is_inside_workspace :: "nat list \<Rightarrow> nat \<Rightarrow> nat \<Rightarrow> bool" where
  "chain_is_inside_workspace chain workspace_start workspace_clusters =
     (if chain = [] \<or> workspace_clusters = 0 then False
      else list_all (\<lambda>c. \<not> (c < workspace_start \<or> c > workspace_start + workspace_clusters - 1)) chain)"

fun free_runs :: "Fat32 \<Rightarrow> nat list \<Rightarrow> nat \<Rightarrow> nat \<Rightarrow> nat res" where
  "free_runs fs [] run best = Inr best"
| "free_runs fs (c # rest) run best =
     bindE (fat_is_free fs c) (\<lambda>free.
     if free then free_runs fs rest (run + 1) (if run + 1 > best then run + 1 else best)
     else free_runs fs rest 0 best)"

definition workspace_range :: "nat \<Rightarrow> nat \<Rightarrow> nat list" where
  "workspace_range workspace_start workspace_clusters =
     map (\<lambda>offset. u32 (workspace_start + u32 offset)) [0..<workspace_clusters]"

definition largest_free_workspace_run :: "Fat32 \<Rightarrow> nat \<Rightarrow> nat \<Rightarrow> nat res" where
  "largest_free_workspace_run fs workspace_start workspace_clusters =
     free_runs fs (workspace_range workspace_start workspace_clusters) 0 0"

fun find_run :: "Fat32 \<Rightarrow> nat list \<Rightarrow> nat \<Rightarrow> nat \<Rightarrow> nat res" where
  "find_run fs [] run n = Inr 0"
| "find_run fs (c # rest) run n =
     bindE (fat_is_free fs c) (\<lambda>free.
     if free then (if run + 1 = n then Inr (sub32 c (u32 (n - 1))) else find_run fs rest (run + 1) n)
     else find_run fs rest 0 n)"

definition find_free_workspace_run :: "Fat32 \<Rightarrow> nat \<Rightarrow> nat \<Rightarrow> nat \<Rightarrow> nat res" where
  "find_free_workspace_run fs workspace_start workspace_clusters n =
     (if n = 0 \<or> n > workspace_clusters then Inr 0
      else find_run fs (workspace_range workspace_start workspace_clusters) 0 n)"

definition adaptive_transaction_cluster_limit :: "Fat32 \<Rightarrow> nat \<Rightarrow> nat" where
  "adaptive_transaction_cluster_limit fs ram_cluster_limit =
     (let by_stop = 64 * 1024 * 1024 div fs_cluster_size fs;
          by_stop = (if by_stop = 0 then 1 else by_stop);
          limit = (if by_stop > SIZE_MAX then SIZE_MAX else by_stop);
          limit = (if limit > ram_cluster_limit then ram_cluster_limit else limit)
      in if limit = 0 then 1 else limit)"

section \<open>Blocking candidates\<close>

record AdaptiveBlockerCandidate =
  bc_object_index :: nat
  bc_score :: nat
  bc_chain :: "nat list"

definition compare_adaptive_blocker_candidate ::
  "AdaptiveBlockerCandidate \<Rightarrow> AdaptiveBlockerCandidate \<Rightarrow> int" where
  "compare_adaptive_blocker_candidate l r =
     (if bc_score l > bc_score r then -1
      else if bc_score l < bc_score r then 1
      else if length (bc_chain l) < length (bc_chain r) then -1
      else if length (bc_chain l) > length (bc_chain r) then 1
      else if bc_object_index l < bc_object_index r then -1
      else if bc_object_index l > bc_object_index r then 1
      else 0)"

interpretation blocker_order: comparator compare_adaptive_blocker_candidate
  by unfold_locales (auto simp: compare_adaptive_blocker_candidate_def split: if_splits)

section \<open>One pass\<close>

record AdaptiveScan =
  as_nonexact :: "bool list"
  as_staged :: "bool list"
  as_needed :: "bool list"

definition scan_object ::
  "env \<Rightarrow> LayoutPlan \<Rightarrow> FileRecord list \<Rightarrow> FatRelayoutObject \<Rightarrow> AdaptiveScan \<Rightarrow> Fat32 \<Rightarrow> (AdaptiveScan \<times> Fat32) res" where
  "scan_object E plan files object scan fs =
     bindE (find_relayout_object_chain E object files fs) (\<lambda>(chain, fs).
     bindE (die_if (length chain \<noteq> ro_clusters object)
              (Die ''layout object changed size during adaptive dependency scan'')) (\<lambda>_.
     if chain_is_exact_run chain (ro_target object) then
       Inr (scan\<lparr>as_nonexact := as_nonexact scan @ [False], as_staged := as_staged scan @ [False]\<rparr>, fs)
     else
       bindE (die_if (ro_target object + ro_clusters object - 1 > fs_max_cluster fs)
                (Die ''adaptive dependency target exceeds the filesystem'')) (\<lambda>_.
       Inr (scan\<lparr>as_nonexact := as_nonexact scan @ [True],
                 as_staged := as_staged scan @
                   [chain_is_inside_workspace chain (pl_workspace_start plan) (pl_workspace_clusters plan)],
                 as_needed := mark_clusters
                   (map (\<lambda>i. u32 (ro_target object + u32 i)) [0..<ro_clusters object]) (as_needed scan)\<rparr>, fs))))"

text \<open>The stop flag is polled before every object; \<open>None\<close>: a stop was requested.\<close>

fun adaptive_scan ::
  "env \<Rightarrow> LayoutPlan \<Rightarrow> FileRecord list \<Rightarrow> FatRelayoutObject list \<Rightarrow> AdaptiveScan \<Rightarrow> Fat32 \<Rightarrow>
   (AdaptiveScan option \<times> Fat32) io" where
  "adaptive_scan E plan files [] scan fs = retI (Some scan, fs)"
| "adaptive_scan E plan files (object # rest) scan fs =
     bindI ld_stop_requested (\<lambda>stop.
     if stop then retI (None, fs)
     else
       bindI (readI (\<lambda>_. scan_object E plan files object scan fs)) (\<lambda>(scan, fs).
       adaptive_scan E plan files rest scan fs))"

record DirectBatch =
  db_moves :: "RelocationMove list"
  db_objects :: "FatRelayoutObject list"
  db_source_seen :: "bool list"
  db_destination_seen :: "bool list"

definition direct_object ::
  "env \<Rightarrow> FileRecord list \<Rightarrow> nat \<Rightarrow> FatRelayoutObject \<Rightarrow> DirectBatch \<Rightarrow> Fat32 \<Rightarrow> (DirectBatch \<times> Fat32) res" where
  "direct_object E files limit object batch fs =
     bindE (find_relayout_object_chain E object files fs) (\<lambda>(chain, fs).
     bindE (die_if (length chain \<noteq> ro_clusters object)
              (Die ''layout object changed size during adaptive direct batch'')) (\<lambda>_.
     let n = length (db_moves batch) in
     if n \<noteq> 0 \<and> (ro_clusters object > limit - n \<or> n + ro_clusters object > limit) then Inr (batch, fs)
     else
       bindE (relayout_batch_can_add fs chain (ro_target object) (db_source_seen batch)
                (db_destination_seen batch)) (\<lambda>ok.
       if \<not> ok then Inr (batch, fs)
       else
         bindE (reserve_relocation_moves E n (length chain)) (\<lambda>_.
         let moves = chain_moves chain (ro_target object) in
         Inr (batch\<lparr>db_moves := db_moves batch @ moves, db_objects := db_objects batch @ [object],
                    db_source_seen := mark_clusters chain (db_source_seen batch),
                    db_destination_seen := mark_clusters (map mv_destination moves) (db_destination_seen batch)\<rparr>,
              fs)))))"

text \<open>From the last object to the first. The flag of the result says a stop was seen.\<close>

fun adaptive_direct ::
  "env \<Rightarrow> FileRecord list \<Rightarrow> nat \<Rightarrow> (bool \<times> FatRelayoutObject) list \<Rightarrow> DirectBatch \<Rightarrow> Fat32 \<Rightarrow>
   (bool \<times> DirectBatch \<times> Fat32) io" where
  "adaptive_direct E files limit [] batch fs = retI (False, batch, fs)"
| "adaptive_direct E files limit ((nonexact, object) # rest) batch fs =
     bindI ld_stop_requested (\<lambda>stop.
     if stop then retI (True, batch, fs)
     else if \<not> nonexact then adaptive_direct E files limit rest batch fs
     else
       bindI (readI (\<lambda>_. direct_object E files limit object batch fs)) (\<lambda>(batch', fs).
       if db_objects batch' \<noteq> db_objects batch \<and> length (db_moves batch') \<ge> limit
       then retI (False, batch', fs)
       else adaptive_direct E files limit rest batch' fs))"

definition candidate_object ::
  "env \<Rightarrow> FileRecord list \<Rightarrow> AdaptiveScan \<Rightarrow> nat \<Rightarrow> FatRelayoutObject list \<Rightarrow> nat \<Rightarrow>
   AdaptiveBlockerCandidate list \<Rightarrow> Fat32 \<Rightarrow> (AdaptiveBlockerCandidate list \<times> Fat32) res" where
  "candidate_object E files scan max_run objects index candidates fs =
     (let object = objects ! index in
      bindE (find_relayout_object_chain E object files fs) (\<lambda>(chain, fs).
      bindE (die_if (length chain \<noteq> ro_clusters object)
               (Die ''layout object changed size during adaptive blocker planning'')) (\<lambda>_.
      let score = length (filter (\<lambda>c. as_needed scan ! c) chain) in
      Inr (if score \<noteq> 0 \<and> length chain \<le> max_run
           then candidates @ [\<lparr>bc_object_index = index, bc_score = score, bc_chain = chain\<rparr>]
           else candidates, fs))))"

fun adaptive_candidates ::
  "env \<Rightarrow> FileRecord list \<Rightarrow> AdaptiveScan \<Rightarrow> nat \<Rightarrow> FatRelayoutObject list \<Rightarrow> nat list \<Rightarrow>
   AdaptiveBlockerCandidate list \<Rightarrow> Fat32 \<Rightarrow> (AdaptiveBlockerCandidate list option \<times> Fat32) io" where
  "adaptive_candidates E files scan max_run objects [] candidates fs = retI (Some candidates, fs)"
| "adaptive_candidates E files scan max_run objects (index # rest) candidates fs =
     bindI ld_stop_requested (\<lambda>stop.
     if stop then retI (None, fs)
     else if \<not> as_nonexact scan ! index \<or> as_staged scan ! index
     then adaptive_candidates E files scan max_run objects rest candidates fs
     else
       bindI (readI (\<lambda>_. candidate_object E files scan max_run objects index candidates fs)) (\<lambda>(candidates, fs).
       adaptive_candidates E files scan max_run objects rest candidates fs))"

text \<open>The first offset of \<open>n\<close> consecutive available slots.\<close>

fun first_available :: "bool list \<Rightarrow> nat \<Rightarrow> nat \<Rightarrow> nat \<Rightarrow> nat option" where
  "first_available [] offset run n = None"
| "first_available (a # rest) offset run n =
     (if a then (if run + 1 = n then Some (offset + 1 - n) else first_available rest (offset + 1) (run + 1) n)
      else first_available rest (offset + 1) 0 n)"

record StagePlan =
  sp_moves :: "RelocationMove list"
  sp_available :: "bool list"
  sp_released :: nat

definition stage_candidate ::
  "env \<Rightarrow> nat \<Rightarrow> nat \<Rightarrow> AdaptiveBlockerCandidate \<Rightarrow> StagePlan \<Rightarrow> StagePlan res" where
  "stage_candidate E workspace_start limit candidate p =
     (let chain = bc_chain candidate; n = length (sp_moves p) in
      if n \<noteq> 0 \<and> length chain > limit - n then Inr p
      else
        case first_available (sp_available p) 0 0 (length chain) of
          None \<Rightarrow> Inr p
        | Some first_offset \<Rightarrow>
            let candidate_at = u32 (workspace_start + u32 first_offset) in
            if candidate_at = 0 then Inr p
            else
              bindE (reserve_relocation_moves E n (length chain)) (\<lambda>_.
              bindE (die_if (bc_score candidate > SIZE_MAX - sp_released p)
                       (Die ''adaptive blocker score overflow'')) (\<lambda>_.
              let slot = sub32 candidate_at workspace_start in
              Inr \<lparr>sp_moves = sp_moves p @ chain_moves chain candidate_at,
                   sp_available = foldl (\<lambda>a i. a[slot + i := False]) (sp_available p) [0..<length chain],
                   sp_released = sp_released p + bc_score candidate\<rparr>)))"

fun adaptive_stage ::
  "env \<Rightarrow> nat \<Rightarrow> nat \<Rightarrow> AdaptiveBlockerCandidate list \<Rightarrow> StagePlan \<Rightarrow> StagePlan option io" where
  "adaptive_stage E workspace_start limit [] p = retI (Some p)"
| "adaptive_stage E workspace_start limit (candidate # rest) p =
     bindI ld_stop_requested (\<lambda>stop.
     if stop then retI None
     else if length (sp_moves p) \<ge> limit then retI (Some p)
     else
       bindI (readI (\<lambda>_. stage_candidate E workspace_start limit candidate p)) (\<lambda>p.
       adaptive_stage E workspace_start limit rest p))"

fun free_flags :: "Fat32 \<Rightarrow> nat list \<Rightarrow> bool list res" where
  "free_flags fs [] = Inr []"
| "free_flags fs (c # rest) =
     bindE (fat_is_free fs c) (\<lambda>free. bindE (free_flags fs rest) (\<lambda>flags. Inr (free # flags)))"

type_synonym adaptive_step =
  "((Writer \<times> FatRelayoutStats) + (bool \<times> Writer \<times> FatRelayoutStats)) io"

definition adaptive_stop_between_transactions :: "Writer \<Rightarrow> FatRelayoutStats \<Rightarrow> adaptive_step" where
  "adaptive_stop_between_transactions st stats = retI (Inr (True, st, stats\<lparr>rs_interrupted := True\<rparr>))"

text \<open>Stage the best blockers when nothing could be placed.\<close>

definition adaptive_stage_round ::
  "env \<Rightarrow> LayoutPlan \<Rightarrow> nat \<Rightarrow> FileRecord list \<Rightarrow> DirRef list \<Rightarrow> AdaptiveScan \<Rightarrow> Writer \<Rightarrow>
   FatRelayoutStats \<Rightarrow> adaptive_step" where
  "adaptive_stage_round E plan limit files refs scan st stats =
     (let fs = wr_fs st; ws = pl_workspace_start plan; wc = pl_workspace_clusters plan;
          objects = pl_objects plan in
      bindI (readI (\<lambda>_. largest_free_workspace_run fs ws wc)) (\<lambda>max_run.
      bindI (readI (\<lambda>_. find_free_workspace_run fs ws wc 1)) (\<lambda>first_workspace_cluster.
      if max_run = 0 \<or> first_workspace_cluster = 0 then retI (Inr (False, st, stats))
      else
        bindI (readI (\<lambda>_. free_flags fs (workspace_range ws wc))) (\<lambda>available.
        bindI (adaptive_candidates E files scan max_run objects [0..<length objects] [] fs) (\<lambda>(found, fs).
        let st = st\<lparr>wr_fs := fs\<rparr> in
        case found of
          None \<Rightarrow> adaptive_stop_between_transactions st stats
        | Some candidates \<Rightarrow>
            bindI (adaptive_stage E ws limit (qsort_by compare_adaptive_blocker_candidate candidates)
                     \<lparr>sp_moves = [], sp_available = available, sp_released = 0\<rparr>) (\<lambda>staged.
            case staged of
              None \<Rightarrow> adaptive_stop_between_transactions st stats
            | Some p \<Rightarrow>
                if sp_moves p = [] then retI (Inr (False, st, stats))
                else
                  bindI ld_stop_requested (\<lambda>stop.
                  if stop then adaptive_stop_between_transactions st stats
                  else
                    bindI (relocation_execute_moves E refs (pl_journal_path plan) (sp_moves p) st) (\<lambda>st.
                    retI (Inl (st, add_staged (length (sp_moves p)) stats))))))))))"

definition adaptive_round ::
  "env \<Rightarrow> LayoutPlan \<Rightarrow> nat \<Rightarrow> Writer \<times> FatRelayoutStats \<Rightarrow> adaptive_step" where
  "adaptive_round E plan limit loop_state =
     (let (st, stats) = loop_state; objects = pl_objects plan in
      bindI ld_stop_requested (\<lambda>stop.
      if stop then adaptive_stop_between_transactions st stats
      else
        bindI (rescan E st) (\<lambda>(files, refs, st).
        bindI (adaptive_scan E plan files objects
                 \<lparr>as_nonexact = [], as_staged = [],
                  as_needed = replicate (fs_max_cluster (wr_fs st) + 1) False\<rparr> (wr_fs st)) (\<lambda>(scanned, fs).
        let st = st\<lparr>wr_fs := fs\<rparr> in
        case scanned of
          None \<Rightarrow> adaptive_stop_between_transactions st stats
        | Some scan \<Rightarrow>
            if True \<notin> set (as_nonexact scan) then retI (Inr (True, st, stats))
            else
              bindI (adaptive_direct E files limit (rev (zip (as_nonexact scan) objects))
                       \<lparr>db_moves = [], db_objects = [],
                        db_source_seen = replicate (fs_max_cluster fs + 1) False,
                        db_destination_seen = replicate (fs_max_cluster fs + 1) False\<rparr> fs) (\<lambda>(stopped, batch, fs).
              let st = st\<lparr>wr_fs := fs\<rparr> in
              bindI (if stopped then retI True else ld_stop_requested) (\<lambda>stop.
              if stop then adaptive_stop_between_transactions st stats
              else if db_moves batch \<noteq> [] then
                bindI (relocation_execute_moves E refs (pl_journal_path plan) (db_moves batch) st) (\<lambda>st.
                retI (Inl (st, add_placed (db_objects batch) (length (db_moves batch)) stats)))
              else
                bindI ld_stop_requested (\<lambda>stop.
                if stop then adaptive_stop_between_transactions st stats
                else adaptive_stage_round E plan limit files refs scan st stats)))))))"

definition execute_adaptive_dependency_layout ::
  "env \<Rightarrow> LayoutPlan \<Rightarrow> Writer \<Rightarrow> FatRelayoutStats \<Rightarrow> (bool \<times> Writer \<times> FatRelayoutStats) loop" where
  "execute_adaptive_dependency_layout E plan st stats =
     loopI (adaptive_round E plan
              (adaptive_transaction_cluster_limit (wr_fs st) (pl_cluster_limit plan))) (st, stats)"

end
