(* ===== verification/FatWriter.thy ===== *)
theory FatWriter
  imports FatAdaptive
begin

text \<open>
  The rest of \<open>writer.c\<close>: the relayout operation \<open>fat_relayout_volume\<close> with its final
  one-object fallback, the command line and \<open>main\<close>. Progress and timing output are not
  modelled; the reports and the result event are.
\<close>

definition no_stats :: FatRelayoutStats where
  "no_stats = \<lparr>rs_objects_moved = 0, rs_files_moved = 0, rs_directories_moved = 0, rs_clusters_copied = 0,
     rs_transactions = 0, rs_packing_clusters = 0, rs_packing_transactions = 0, rs_reserve_clusters = 0,
     rs_applied_percent = 0, rs_interrupted = False, rs_layout_started = False,
     rs_already_satisfied = False, rs_canonical_layout_verified = False, rs_checked_files = 0,
     rs_checked_directories = 0\<rparr>"

section \<open>Preflight and planning\<close>

definition requested_reserve_total :: "FatRelayoutObject list \<Rightarrow> nat \<Rightarrow> nat" where
  "requested_reserve_total objects requested_percent =
     foldl (\<lambda>total object. if ro_is_dir object then total
       else u64 (total + reserve_for (ro_clusters object) requested_percent)) 0 objects"

definition check_free_space :: "FatRelayoutObject list \<Rightarrow> ObjectCounts \<Rightarrow> nat \<Rightarrow> nat \<Rightarrow> unit res" where
  "check_free_space objects counts free_before requested_percent =
     bindE (die_if (free_before \<le> oc_largest counts \<or> oc_regular_clusters counts = 0)
       (Die ''layout rewrite needs free space larger than the largest allocated object for safe staging'')) (\<lambda>_.
     die_if (requested_reserve_total objects requested_percent > free_before - oc_largest counts)
       (Die ''layout rewrite does not have enough free clusters for the requested reserve plus a safe staging workspace''))"

definition workspace_size :: "nat \<Rightarrow> nat \<Rightarrow> nat \<Rightarrow> nat \<Rightarrow> nat \<Rightarrow> nat" where
  "workspace_size total_object_clusters ram_cluster_limit tail_slack terminal_capacity largest =
     (let n = total_object_clusters;
          n = (if n > ram_cluster_limit then ram_cluster_limit else n);
          n = (if n > tail_slack then tail_slack else n);
          n = (if n > terminal_capacity then terminal_capacity else n)
      in if n < largest then largest else n)"

text \<open>The planned objects, the workspace and the cluster budget of a rewrite.\<close>

record Rewrite =
  rw_objects :: "FatRelayoutObject list"
  rw_workspace_start :: nat
  rw_workspace_clusters :: nat
  rw_ram_cluster_limit :: nat

definition plan_rewrite ::
  "env \<Rightarrow> FatIoConfig \<Rightarrow> Fat32 \<Rightarrow> FatRelayoutObject list \<Rightarrow> ObjectCounts \<Rightarrow> nat \<Rightarrow> Rewrite res" where
  "plan_rewrite E io fs objects counts requested_percent =
     (let failed = Die ''layout rewrite could not construct the canonical target layout'' in
      bindE (die_if (fs_max_cluster fs = UINT32_MAX) failed) (\<lambda>_.
      bindE (fat_relayout_plan_layout fs objects requested_percent (fs_max_cluster fs + 1)) (\<lambda>planned.
      case planned of
        None \<Rightarrow> Inl failed
      | Some (objects, preliminary_reserve, preliminary_end) \<Rightarrow>
          bindE (relayout_object_cluster_total E objects) (\<lambda>total_object_clusters.
          bindE (terminal_workspace_capacity fs) (\<lambda>terminal_capacity.
          let ram_cluster_limit = automatic_relayout_batch_clusters io fs;
              tail_slack = sub32 (fs_max_cluster fs) preliminary_end;
              workspace_clusters = workspace_size total_object_clusters ram_cluster_limit tail_slack
                terminal_capacity (oc_largest counts)
          in
          bindE (die_if (workspace_clusters > tail_slack \<or> workspace_clusters > terminal_capacity)
            (Die ''layout rewrite cannot create a durable terminal workspace large enough for the largest object'')) (\<lambda>_.
          Inr \<lparr>rw_objects = objects,
               rw_workspace_start = u32 (sub32 (fs_max_cluster fs) (u32 workspace_clusters) + 1),
               rw_workspace_clusters = workspace_clusters,
               rw_ram_cluster_limit = ram_cluster_limit\<rparr>))))))"

definition satisfied_stats :: "nat \<Rightarrow> nat \<Rightarrow> ObjectCounts \<Rightarrow> FatRelayoutStats" where
  "satisfied_stats requested_percent existing_reserve counts =
     no_stats\<lparr>rs_already_satisfied := True, rs_canonical_layout_verified := True,
              rs_applied_percent := requested_percent, rs_reserve_clusters := existing_reserve,
              rs_checked_files := oc_regular_files counts,
              rs_checked_directories := oc_directories counts\<rparr>"

text \<open>
  The read-only phase: the operation is already done (\<open>Inl\<close> with its statistics) or a
  rewrite is planned.
\<close>

definition relayout_preflight_phase ::
  "env \<Rightarrow> bytes \<Rightarrow> Writer \<Rightarrow> nat \<Rightarrow> ((FatRelayoutStats + Rewrite) \<times> Writer) res" where
  "relayout_preflight_phase E d st requested_percent =
     bindE (die_if (requested_percent > 25)
              (Die ''growth reserve percentage must be between 0 and 25'')) (\<lambda>_.
     bindE (scan_files E d (wr_fs st) True) (\<lambda>(files, refs, fs).
     bindE (fat_relayout_build_objects E fs files) (\<lambda>(objects, counts, fs).
     bindE (writer_count_free_clusters fs) (\<lambda>free_before.
     bindE (fat_relayout_preflight E fs files requested_percent) (\<lambda>(preflight, fs).
     bindE (if oc_regular_files counts \<noteq> 0 \<and> pf_issue preflight = FAT_RELAYOUT_PREFLIGHT_OK
            then fat_relayout_matches_canonical fs objects requested_percent else Inr None) (\<lambda>canonical.
     let st = st\<lparr>wr_fs := fs\<rparr> in
     case canonical of
       Some existing_reserve \<Rightarrow> Inr (Inl (satisfied_stats requested_percent existing_reserve counts), st)
     | None \<Rightarrow>
         if objects = [] \<or> oc_regular_files counts = 0 then Inr (Inl no_stats, st)
         else
           bindE (check_free_space objects counts free_before requested_percent) (\<lambda>_.
           bindE (plan_rewrite E (wr_io st) fs objects counts requested_percent) (\<lambda>rewrite.
           Inr (Inr rewrite, st)))))))))"

section \<open>The one-object fallback\<close>

record FallbackBatch =
  fb_reverse :: nat
  fb_moves :: "RelocationMove list"
  fb_objects :: "FatRelayoutObject list"
  fb_skipped :: nat
  fb_source_seen :: "bool list"
  fb_destination_seen :: "bool list"

text \<open>
  The objects are given from the last one not yet done to the first. A batch ends at the
  first object that does not fit it.
\<close>

fun fallback_collect ::
  "env \<Rightarrow> FileRecord list \<Rightarrow> nat \<Rightarrow> nat \<Rightarrow> FatRelayoutObject list \<Rightarrow> FallbackBatch \<Rightarrow> Fat32 \<Rightarrow>
   (FallbackBatch \<times> Fat32) res" where
  "fallback_collect E files object_limit cluster_limit [] b fs = Inr (b, fs)"
| "fallback_collect E files object_limit cluster_limit (object # rest) b fs =
     (if length (fb_objects b) \<ge> object_limit then Inr (b, fs)
      else
        bindE (find_relayout_object_chain E object files fs) (\<lambda>(chain, fs).
        bindE (die_if (length chain \<noteq> ro_clusters object)
                 (Die ''layout object changed size during offline operation'')) (\<lambda>_.
        let n = length (fb_moves b) in
        if chain_is_exact_run chain (ro_target object) then
          fallback_collect E files object_limit cluster_limit rest
            (b\<lparr>fb_reverse := fb_reverse b - 1, fb_skipped := fb_skipped b + 1\<rparr>) fs
        else if n \<noteq> 0 \<and> ro_clusters object > cluster_limit - n then Inr (b, fs)
        else if \<not> (n = 0 \<and> ro_clusters object > cluster_limit) \<and> n + ro_clusters object > cluster_limit
        then Inr (b, fs)
        else
          bindE (relayout_batch_can_add fs chain (ro_target object) (fb_source_seen b)
                   (fb_destination_seen b)) (\<lambda>ok.
          if \<not> ok then Inr (b, fs)
          else
            bindE (reserve_relocation_moves E n (length chain)) (\<lambda>_.
            let moves = chain_moves chain (ro_target object);
                b = b\<lparr>fb_moves := fb_moves b @ moves, fb_objects := fb_objects b @ [object],
                      fb_reverse := fb_reverse b - 1,
                      fb_source_seen := mark_clusters chain (fb_source_seen b),
                      fb_destination_seen := mark_clusters (map mv_destination moves) (fb_destination_seen b)\<rparr>
            in if length (fb_moves b) \<ge> cluster_limit then Inr (b, fs)
               else fallback_collect E files object_limit cluster_limit rest b fs)))))"

text \<open>The clusters the staged object left, outside its target range.\<close>

fun blocker_destinations :: "env \<Rightarrow> Fat32 \<Rightarrow> nat \<Rightarrow> nat \<Rightarrow> nat list \<Rightarrow> nat list \<Rightarrow> nat list res" where
  "blocker_destinations E fs target target_end [] out = Inr out"
| "blocker_destinations E fs target target_end (candidate # rest) out =
     (if candidate \<ge> target \<and> candidate \<le> target_end
      then blocker_destinations E fs target target_end rest out
      else
        bindE (fat_is_free fs candidate) (\<lambda>free.
        bindE (die_if (\<not> free) (Die ''layout staged source cluster was unexpectedly reused'')) (\<lambda>_.
        bindE (u32vec_push E out candidate) (\<lambda>out.
        blocker_destinations E fs target target_end rest out))))"

fun occupied_clusters :: "Fat32 \<Rightarrow> nat list \<Rightarrow> nat list res" where
  "occupied_clusters fs [] = Inr []"
| "occupied_clusters fs (c # rest) =
     bindE (fat_is_free fs c) (\<lambda>free.
     bindE (occupied_clusters fs rest) (\<lambda>cs. Inr (if free then cs else c # cs)))"

definition blocker_moves ::
  "env \<Rightarrow> Fat32 \<Rightarrow> FatRelayoutObject \<Rightarrow> nat list \<Rightarrow> RelocationMove list res" where
  "blocker_moves E fs object original_chain =
     (let target_end = ro_target object + ro_clusters object - 1 in
      bindE (die_if (target_end > fs_max_cluster fs) (Die ''layout target range exceeds the filesystem'')) (\<lambda>_.
      bindE (blocker_destinations E fs (ro_target object) target_end original_chain []) (\<lambda>destinations.
      bindE (occupied_clusters fs [ro_target object..<target_end + 1]) (\<lambda>blockers.
      bindE (die_if (blockers = [] \<or> length blockers > length destinations)
               (Die ''layout rewrite could not allocate safe source slots for target blockers'')) (\<lambda>_.
      Inr (map (\<lambda>i. new_move (blockers ! i) (destinations ! i)) [0..<length blockers]))))))"

text \<open>
  Find the object again: at the workspace or die. The result keeps the chain and the
  directory references of the fresh scan.
\<close>

definition reopen_staged ::
  "env \<Rightarrow> LayoutPlan \<Rightarrow> FatRelayoutObject \<Rightarrow> string \<Rightarrow> Writer \<Rightarrow> (nat list \<times> DirRef list \<times> Writer) io" where
  "reopen_staged E plan object message st =
     bindI (rescan E st) (\<lambda>(files, refs, st).
     bindI (readI (\<lambda>_. find_relayout_object_chain E object files (wr_fs st))) (\<lambda>(chain, fs).
     thenI (die_ifI (\<not> chain_is_exact_run chain (pl_workspace_start plan)) (Die message))
       (retI (chain, refs, st\<lparr>wr_fs := fs\<rparr>))))"

text \<open>Move what occupies the target into the clusters the staged object left.\<close>

definition clear_target ::
  "env \<Rightarrow> LayoutPlan \<Rightarrow> FatRelayoutObject \<Rightarrow> nat list \<Rightarrow> nat list \<Rightarrow> DirRef list \<Rightarrow> Writer \<Rightarrow>
   FatRelayoutStats \<Rightarrow> (nat list \<times> DirRef list \<times> Writer \<times> FatRelayoutStats) io" where
  "clear_target E plan object original_chain chain refs st stats =
     bindI (readI (\<lambda>_. cluster_range_is_free (wr_fs st) (ro_target object) (ro_clusters object))) (\<lambda>free.
     if free then retI (chain, refs, st, stats)
     else
       bindI (readI (\<lambda>_. blocker_moves E (wr_fs st) object original_chain)) (\<lambda>moves.
       bindI (relocation_execute_moves E refs (pl_journal_path plan) moves st) (\<lambda>st.
       let stats = add_staged (length moves) stats in
       bindI (reopen_staged E plan object ''layout staged object changed while clearing its target'' st)
         (\<lambda>(chain, refs, st).
       bindI (readI (\<lambda>_. cluster_range_is_free (wr_fs st) (ro_target object) (ro_clusters object))) (\<lambda>free.
       thenI (die_ifI (\<not> free) (Die ''layout target range remained occupied after blocker evacuation''))
         (retI (chain, refs, st, stats)))))))"

definition stage_one_object ::
  "env \<Rightarrow> LayoutPlan \<Rightarrow> FatRelayoutObject \<Rightarrow> FileRecord list \<Rightarrow> DirRef list \<Rightarrow> Writer \<Rightarrow>
   FatRelayoutStats \<Rightarrow> (Writer \<times> FatRelayoutStats) io" where
  "stage_one_object E plan object files refs st stats =
     bindI (readI (\<lambda>_. find_relayout_object_chain E object files (wr_fs st))) (\<lambda>(original_chain, fs).
     thenI (die_ifI (length original_chain \<noteq> ro_clusters object)
              (Die ''layout object changed size during offline operation''))
    (bindI (readI (\<lambda>_. cluster_range_is_free fs (pl_workspace_start plan) (ro_clusters object))) (\<lambda>free.
     thenI (die_ifI (\<not> free) (Die ''layout staging workspace is unexpectedly occupied''))
    (bindI (relayout_move_chain E refs original_chain (pl_workspace_start plan) (pl_journal_path plan)
              False (st\<lparr>wr_fs := fs\<rparr>)) (\<lambda>st.
     let stats = add_staged (ro_clusters object) stats in
     bindI (reopen_staged E plan object ''FAT relayout staged object did not reopen at the workspace'' st)
       (\<lambda>(chain, refs, st).
     bindI (clear_target E plan object original_chain chain refs st stats) (\<lambda>(chain, refs, st, stats).
     bindI (relayout_move_chain E refs chain (ro_target object) (pl_journal_path plan) True st) (\<lambda>st.
     retI (st, add_placed [object] (ro_clusters object) stats)))))))))"

definition fallback_round ::
  "env \<Rightarrow> LayoutPlan \<Rightarrow> Writer \<times> nat \<times> FatRelayoutStats \<Rightarrow>
   ((Writer \<times> nat \<times> FatRelayoutStats) + (Writer \<times> FatRelayoutStats)) io" where
  "fallback_round E plan loop_state =
     (let (st, reverse, stats) = loop_state; objects = pl_objects plan in
      if reverse = 0 then retI (Inr (st, stats))
      else
        bindI ld_stop_requested (\<lambda>stop.
        if stop then retI (Inr (st, stats\<lparr>rs_interrupted := True\<rparr>))
        else
          bindI (rescan E st) (\<lambda>(files, refs, st).
          let unseen = replicate (fs_max_cluster (wr_fs st) + 1) False in
          bindI (readI (\<lambda>_. fallback_collect E files (length objects) (pl_cluster_limit plan)
                   (rev (take reverse objects))
                   \<lparr>fb_reverse = reverse, fb_moves = [], fb_objects = [], fb_skipped = 0,
                    fb_source_seen = unseen, fb_destination_seen = unseen\<rparr> (wr_fs st))) (\<lambda>(b, fs).
          let st = st\<lparr>wr_fs := fs\<rparr>; reverse = fb_reverse b in
          if fb_moves b \<noteq> [] then
            bindI (relocation_execute_moves E refs (pl_journal_path plan) (fb_moves b) st) (\<lambda>st.
            retI (Inl (st, reverse, add_placed (fb_objects b) (length (fb_moves b)) stats)))
          else if fb_skipped b \<noteq> 0 then retI (Inl (st, reverse, stats))
          else
            bindI (stage_one_object E plan (objects ! (reverse - 1)) files refs st stats) (\<lambda>(st, stats).
            retI (Inl (st, reverse - 1, stats)))))))"

section \<open>The operation\<close>

definition finish_layout :: "env \<Rightarrow> Writer \<Rightarrow> FatRelayoutStats \<Rightarrow> (Writer \<times> FatRelayoutStats) loop" where
  "finish_layout E st stats = onceL (thenI (refresh_fsinfo E st) (retI (st, stats)))"

text \<open>The schedulers in order of cost; each one takes over what the one before could not do.\<close>

definition run_layout :: "env \<Rightarrow> LayoutPlan \<Rightarrow> Writer \<Rightarrow> FatRelayoutStats \<Rightarrow> (Writer \<times> FatRelayoutStats) loop" where
  "run_layout E plan st stats =
     bindL (execute_forward_compaction E plan st stats) (\<lambda>(completed_forward, st, stats).
     if completed_forward then finish_layout E st stats
     else
       bindL (onceL (execute_full_workspace_layout E plan st stats)) (\<lambda>(completed_workspace, st, stats).
       if completed_workspace then finish_layout E st stats
       else
         bindL (execute_adaptive_dependency_layout E plan st stats) (\<lambda>(completed_adaptive, st, stats).
         if completed_adaptive then finish_layout E st stats
         else
           bindL (loopI (fallback_round E plan) (st, length (pl_objects plan), stats)) (\<lambda>(st, stats).
           finish_layout E st stats))))"

text \<open>Phase 2, once the terminal workspace is clear.\<close>

definition start_layout ::
  "env \<Rightarrow> string \<Rightarrow> Rewrite \<Rightarrow> nat \<Rightarrow> Writer \<Rightarrow> FatRelayoutStats \<Rightarrow> (Writer \<times> FatRelayoutStats) loop" where
  "start_layout E journal_path rewrite requested_percent st stats =
     bindL (onceL (readI (\<lambda>_. writer_terminal_free_clusters (wr_fs st)))) (\<lambda>terminal.
     bindL (onceL (die_ifI (terminal < rw_workspace_clusters rewrite)
       (Die ''layout rewrite could not create the requested terminal safety workspace''))) (\<lambda>_.
     bindL (onceL (readI (\<lambda>_. fat_relayout_plan_layout (wr_fs st) (rw_objects rewrite) requested_percent
              (rw_workspace_start rewrite)))) (\<lambda>planned.
     case planned of
       None \<Rightarrow> onceL (dieI (Die ''layout rewrite could not fit the requested layout below the staging workspace''))
     | Some (objects, reserve_total, layout_end) \<Rightarrow>
         run_layout E
           \<lparr>pl_journal_path = journal_path, pl_objects = objects,
            pl_workspace_start = rw_workspace_start rewrite,
            pl_workspace_clusters = rw_workspace_clusters rewrite,
            pl_cluster_limit = rw_ram_cluster_limit rewrite\<rparr>
           st (stats\<lparr>rs_applied_percent := requested_percent, rs_reserve_clusters := reserve_total,
                     rs_layout_started := True\<rparr>))))"

definition fat_relayout_volume ::
  "env \<Rightarrow> string \<Rightarrow> nat \<Rightarrow> nat \<Rightarrow> Writer \<Rightarrow> (Writer \<times> FatRelayoutStats) loop" where
  "fat_relayout_volume E journal_path requested_percent batch_clusters st =
     bindL (onceL (readI (\<lambda>d. relayout_preflight_phase E d st requested_percent))) (\<lambda>(decision, st).
     case decision of
       Inl stats \<Rightarrow> onceL (retI (st, stats))
     | Inr rewrite \<Rightarrow>
         bindL (prepare_terminal_workspace E journal_path (rw_workspace_start rewrite)
                  (rw_workspace_clusters rewrite)
                  (if batch_clusters = 4096 then rw_ram_cluster_limit rewrite else batch_clusters) st)
           (\<lambda>(st, packing).
         let stats = no_stats\<lparr>rs_packing_clusters := ps_clusters_moved packing,
                              rs_packing_transactions := ps_transactions packing\<rparr>
         in
         bindL (onceL ld_stop_requested) (\<lambda>stop.
         if stop then onceL (retI (st, stats\<lparr>rs_interrupted := True\<rparr>))
         else start_layout E journal_path rewrite requested_percent st stats)))"

end
