(* ===== verification/FatMain.thy ===== *)
theory FatMain
  imports FatWriter
begin

text \<open>
  The command line and \<open>main\<close> of \<open>writer.c\<close>. The host answers what the engine asks of
  the system: the device, its kind, the memory and the processors. Standard output is part
  of the result, except for the lines with floating-point or clock values.
\<close>

abbreviation PROGRAM_NAME :: string where "PROGRAM_NAME \<equiv> ''linux-defragger-fat-worker''"

record Host =
  ho_version :: string
  ho_open :: "string \<Rightarrow> bool \<Rightarrow> Device res" \<comment> \<open>path, writable\<close>
  ho_rotational :: bool
  ho_serial_flash :: bool
  ho_available_memory :: nat
  ho_cpu_count :: int

section \<open>The command line\<close>

record Options =
  op_write :: bool
  op_list :: bool
  op_confirm :: "string option"
  op_journal :: "string option"
  op_map_cells :: nat
  op_live_map_cells :: nat
  op_batch_clusters :: nat
  op_growth_percent :: nat
  op_growth_percent_set :: bool
  op_ram_buffer :: string
  op_workers :: string

definition default_options :: Options where
  "default_options = \<lparr>op_write = False, op_list = False, op_confirm = None, op_journal = None,
     op_map_cells = 4096, op_live_map_cells = 0, op_batch_clusters = 4096, op_growth_percent = 10,
     op_growth_percent_set = False, op_ram_buffer = ''auto'', op_workers = ''auto''\<rparr>"

definition parse_size :: "env \<Rightarrow> string \<Rightarrow> nat res" where
  "parse_size E s =
     (case parse_u64_range E s 10 0 SIZE_MAX of
        None \<Rightarrow> Inl (Die ''invalid numeric argument'') | Some value \<Rightarrow> Inr value)"

definition parse_byte_size :: "env \<Rightarrow> string \<Rightarrow> nat res" where
  "parse_byte_size E s =
     (case parse_binary_quantity_u64 E s of
        None \<Rightarrow> Inl (Die ''invalid RAM buffer size'')
      | Some bytes \<Rightarrow>
          if bytes = 0 \<or> bytes > SIZE_MAX
          then Inl (Die ''RAM buffer size is outside this build's range'') else Inr bytes)"

text \<open>An exit of \<open>main\<close> before the engine runs: the status and the standard output.\<close>

datatype parsed = Parsed Options | Leave nat string

definition version_line :: "string \<Rightarrow> string" where
  "version_line version = PROGRAM_NAME @ '' '' @ version @ [NL]"

text \<open>An option whose argument is missing is not recognised and ends with the usage text.\<close>

fun parse_options :: "env \<Rightarrow> string \<Rightarrow> string list \<Rightarrow> Options \<Rightarrow> parsed res" where
  "parse_options E version [] o' = Inr (Parsed o')"
| "parse_options E version (arg # rest) o' =
     (if arg = ''--write'' then parse_options E version rest (o'\<lparr>op_write := True\<rparr>)
      else if arg = ''--list'' then parse_options E version rest (o'\<lparr>op_list := True\<rparr>)
      else if arg = ''--verbose'' then parse_options E version rest o'
      else if arg = ''--version'' then Inr (Leave 0 (version_line version))
      else
        case rest of
          [] \<Rightarrow> Inr (Leave 1 '''')
        | value # rest' \<Rightarrow>
          if arg = ''--cells'' then
            bindE (parse_size E value) (\<lambda>n.
            bindE (die_if (n = 0 \<or> n > 1048576) (Die ''--cells must be between 1 and 1048576'')) (\<lambda>_.
            parse_options E version rest' (o'\<lparr>op_map_cells := n\<rparr>)))
          else if arg = ''--live-map-cells'' then
            bindE (parse_size E value) (\<lambda>n.
            bindE (die_if (n = 0 \<or> n > 1048576) (Die ''--live-map-cells must be between 1 and 1048576'')) (\<lambda>_.
            parse_options E version rest' (o'\<lparr>op_live_map_cells := n\<rparr>)))
          else if arg = ''--confirm'' then parse_options E version rest' (o'\<lparr>op_confirm := Some value\<rparr>)
          else if arg = ''--journal'' then parse_options E version rest' (o'\<lparr>op_journal := Some value\<rparr>)
          else if arg = ''--batch-clusters'' then
            bindE (parse_size E value) (\<lambda>n.
            bindE (die_if (n = 0) (Die ''--batch-clusters must be at least 1'')) (\<lambda>_.
            parse_options E version rest' (o'\<lparr>op_batch_clusters := n\<rparr>)))
          else if arg = ''--growth-percent'' then
            bindE (parse_size E value) (\<lambda>n.
            bindE (die_if (n \<noteq> 10) (Die ''--growth-percent is fixed at 10'')) (\<lambda>_.
            parse_options E version rest' (o'\<lparr>op_growth_percent := n, op_growth_percent_set := True\<rparr>)))
          else if arg = ''--ram-buffer'' then parse_options E version rest' (o'\<lparr>op_ram_buffer := value\<rparr>)
          else if arg = ''--workers'' then parse_options E version rest' (o'\<lparr>op_workers := value\<rparr>)
          else if arg = ''--diagnostic-log'' then parse_options E version rest' o'
          else Inr (Leave 1 ''''))"

definition mutating_command :: "string \<Rightarrow> bool" where
  "mutating_command command \<longleftrightarrow> command = ''defrag'' \<or> command = ''growth-defrag'' \<or> command = ''recover''"

definition relayout_command :: "string \<Rightarrow> bool" where
  "relayout_command command \<longleftrightarrow> command = ''defrag'' \<or> command = ''growth-defrag''"

text \<open>The checks between the command line and the first look at the device.\<close>

definition check_command :: "string \<Rightarrow> string \<Rightarrow> Options \<Rightarrow> parsed res" where
  "check_command command device_path o' =
     bindE (die_if (op_growth_percent_set o' \<and> command \<noteq> ''growth-defrag'')
              (Die ''--growth-percent is valid only with growth-defrag'')) (\<lambda>_.
     bindE (die_if (op_map_cells o' \<noteq> 4096 \<and> command \<noteq> ''map'') (Die ''--cells is valid only with map'')) (\<lambda>_.
     bindE (die_if (op_live_map_cells o' \<noteq> 0 \<and> \<not> relayout_command command)
              (Die ''--live-map-cells is valid only with defrag or growth-defrag'')) (\<lambda>_.
     bindE (die_if (mutating_command command \<and> (\<not> op_write o' \<or> op_confirm o' \<noteq> Some device_path))
              (Die ''writes require both --write and --confirm with the exact DEVICE path'')) (\<lambda>_.
     if \<not> mutating_command command \<and> command \<noteq> ''identify'' \<and> command \<noteq> ''analyze'' \<and> command \<noteq> ''map''
     then Inr (Leave 1 '''') else Inr (Parsed o')))))"

section \<open>Reports\<close>

definition counted :: "nat \<Rightarrow> string \<Rightarrow> string" where
  "counted n noun = dec n @ '' '' @ noun @ plural n '''' ''s''"

definition directories_text :: "nat \<Rightarrow> string" where
  "directories_text n = dec n @ '' director'' @ plural n ''y'' ''ies''"

definition result_status :: "FatRelayoutStats \<Rightarrow> string" where
  "result_status s =
     (if rs_already_satisfied s then ''not-needed''
      else if rs_interrupted s then ''stopped'' else ''completed'')"

definition defrag_report :: "FatRelayoutStats \<Rightarrow> string" where
  "defrag_report s =
     (let transactions = rs_transactions s + rs_packing_transactions s;
          clusters = rs_clusters_copied s + rs_packing_clusters s
      in
      if rs_already_satisfied s then
        ''Defragment status:        Not needed; canonical packed layout verified'' @ [NL] @
        ''Defragment layout check:  '' @ counted (rs_checked_files s) ''regular file'' @ '' and '' @
        directories_text (rs_checked_directories s) @ '' verified'' @ [NL]
      else if rs_interrupted s then
        ''Defragment status:        Stopped safely after completed transactions'' @ [NL] @
        ''Defragment layout I/O:    '' @ dec clusters @ '' clusters in '' @ counted transactions ''completed transaction'' @ [NL] @
        ''Defragment canonical layout: Incomplete; phase 2 '' @
        (if rs_layout_started s then ''stopped between batches'' else ''was not started'') @ [NL] @
        ''Defragment verification:  Not run; a zero-fragment scan does not prove zero-gap packing'' @ [NL]
      else
        ''Defragment status:        Completed'' @ [NL] @
        ''Defragment layout phase:  '' @ counted (rs_files_moved s) ''file'' @ '' and '' @
        directories_text (rs_directories_moved s) @ '' repositioned'' @ [NL] @
        ''Defragment layout I/O:    '' @ dec clusters @ '' clusters in '' @ counted transactions ''transaction'' @ [NL])"

definition growth_report :: "FatRelayoutStats \<Rightarrow> string" where
  "growth_report s =
     (if rs_already_satisfied s then
        ''Growth Defrag status:          Not needed; layout already satisfies '' @ dec (rs_applied_percent s) @
        ''% reserve'' @ [NL] @
        ''Growth Defrag layout check:    '' @ counted (rs_checked_files s) ''regular file'' @ '' and '' @
        directories_text (rs_checked_directories s) @ '' verified'' @ [NL] @
        ''Growth Defrag reserve verified: '' @ dec (rs_reserve_clusters s) @
        '' requested clusters are free after files'' @ [NL] @
        ''Growth Defrag changes:         None'' @ [NL]
      else if rs_interrupted s \<and> \<not> rs_layout_started s then
        ''Growth Defrag status:          Stopped safely during preparation'' @ [NL] @
        ''Growth Defrag preparation:     '' @ dec (rs_packing_clusters s) @ '' clusters in '' @
        counted (rs_packing_transactions s) ''completed transaction'' @ [NL] @
        ''Growth Defrag reserve applied: No'' @ [NL] @
        ''Growth Defrag layout phase:    Not started'' @ [NL] @
        ''Growth Defrag verification:    Not run; canonical 10% layout is incomplete'' @ [NL]
      else if rs_interrupted s then
        ''Growth Defrag status:          Stopped safely during layout'' @ [NL] @
        ''Growth Defrag preparation:     '' @ dec (rs_packing_clusters s) @ '' clusters in '' @
        counted (rs_packing_transactions s) ''transaction'' @ [NL] @
        ''Growth Defrag planned reserve: '' @ dec (rs_applied_percent s) @ ''% ('' @
        dec (rs_reserve_clusters s) @ '' clusters)'' @ [NL] @
        ''Growth Defrag layout progress: '' @ counted (rs_files_moved s) ''file'' @ '' and '' @
        directories_text (rs_directories_moved s) @ '' repositioned'' @ [NL] @
        ''Growth Defrag layout I/O:      '' @ dec (rs_clusters_copied s) @ '' clusters in '' @
        counted (rs_transactions s) ''completed transaction'' @ [NL] @
        ''Growth Defrag reserve applied: Partial; the requested layout is incomplete'' @ [NL] @
        ''Growth Defrag verification:    Not run; canonical 10% layout is incomplete'' @ [NL]
      else
        ''Growth Defrag status:          Completed'' @ [NL] @
        ''Growth Defrag applied reserve: '' @ dec (rs_applied_percent s) @ ''% ('' @
        dec (rs_reserve_clusters s) @ '' clusters)'' @ [NL] @
        ''Growth Defrag packing phase:   '' @ dec (rs_packing_clusters s) @ '' clusters in '' @
        counted (rs_packing_transactions s) ''transaction'' @ [NL] @
        ''Growth Defrag layout phase:    '' @ counted (rs_files_moved s) ''file'' @ '' and '' @
        directories_text (rs_directories_moved s) @ '' repositioned'' @ [NL] @
        ''Growth Defrag layout I/O:      '' @ dec (rs_clusters_copied s) @ '' clusters in '' @
        counted (rs_transactions s) ''transaction'' @ [NL])"

section \<open>The engine\<close>

definition io_config :: "env \<Rightarrow> Host \<Rightarrow> Options \<Rightarrow> FatIoConfig res" where
  "io_config E host o' =
     bindE (if op_ram_buffer o' = ''auto'' then Inr (ld_default_ram_limit (ho_available_memory host))
            else parse_byte_size E (op_ram_buffer o')) (\<lambda>ram_limit.
     bindE (if op_workers o' = ''auto''
            then Inr (ld_default_worker_count (ho_cpu_count host) (ho_rotational host) (ho_serial_flash host))
            else parse_size E (op_workers o')) (\<lambda>workers.
     bindE (die_if (workers = 0) (Die ''--workers must be at least 1'')) (\<lambda>_.
     bindE (die_if (workers > ld_online_cpu_count (ho_cpu_count host) * 4)
              (Die ''--workers is unreasonably larger than the available CPU count'')) (\<lambda>_.
     Inr \<lparr>io_ram_limit = ram_limit, io_workers = workers, io_rotational = ho_rotational host,
          io_serial_flash = ho_serial_flash host, io_bytes_read = 0, io_bytes_written = 0,
          io_read_extents = 0, io_write_extents = 0\<rparr>))))"

definition loadL :: "env \<Rightarrow> Device \<Rightarrow> bool \<Rightarrow> Fat32 loop" where
  "loadL E dev allow_mirror_mismatch w =
     map_option (\<lambda>r. (r, w)) (fat32_load E dev allow_mirror_mismatch (w_disk w))"

definition run_recover :: "env \<Rightarrow> string \<Rightarrow> Fat32 \<Rightarrow> FatIoConfig \<Rightarrow> (nat \<times> string) io" where
  "run_recover E journal_path fs io =
     bindI (path_exists journal_path) (\<lambda>present.
     thenI (die_ifI (\<not> present) (Die ''journal file does not exist''))
    (bindI (journal_has_magic E journal_path RELOCATION_JOURNAL_MAGIC) (\<lambda>mapped.
     bindI (if mapped then
              bindI (fat_relocation_recover_mapped E fs journal_path io) (\<lambda>(fs, io). retI fs)
            else
              bindI (journal_has_magic E journal_path JOURNAL_MAGIC) (\<lambda>legacy.
              if legacy then fat_relocation_recover_legacy E fs journal_path
              else dieI (Die ''journal has an unrecognised format''))) (\<lambda>fs.
     retI (0, result_event E ''recover'' ''completed'')))))"

text \<open>The relayout commands: the operation, its report and the check of the result.\<close>

definition run_relayout ::
  "env \<Rightarrow> string \<Rightarrow> string \<Rightarrow> Options \<Rightarrow> Writer \<Rightarrow> (string \<times> Writer) loop" where
  "run_relayout E command journal_path o' st =
     (let percent = (if command = ''defrag'' then 0 else op_growth_percent o') in
      bindL (fat_relayout_volume E journal_path percent (op_batch_clusters o') st) (\<lambda>(st, stats).
      bindL (onceL (readI (\<lambda>d.
        bindE (scan_files E d (wr_fs st) False) (\<lambda>(files, refs, fs).
        bindE (fat_analysis_print E fs files) (\<lambda>(printed, fs).
        bindE (if \<not> rs_interrupted stats then fat_analysis_verify_layout_policy E d fs percent
               else Inr ('''', fs)) (\<lambda>(verified, fs).
        Inr (printed @ verified, fs))))))) (\<lambda>(text, fs).
      onceL (retI ((if command = ''defrag'' then defrag_report stats else growth_report stats) @ text @
                   result_event E command (result_status stats), st\<lparr>wr_fs := fs\<rparr>)))))"

definition run_analysis ::
  "env \<Rightarrow> Host \<Rightarrow> string \<Rightarrow> string \<Rightarrow> Options \<Rightarrow> Fat32 \<Rightarrow> FatIoConfig \<Rightarrow> (nat \<times> string) loop" where
  "run_analysis E host command journal_path o' fs io =
     bindL (onceL (path_exists journal_path)) (\<lambda>present.
     bindL (onceL (die_ifI present
       (Die ''an unfinished journal exists; run recover before analysis or filesystem relocation''))) (\<lambda>_.
     bindL (onceL (readI (\<lambda>d.
       bindE (scan_files E d fs (relayout_command command)) (\<lambda>(files, refs, fs).
       bindE (fat_analysis_initialise_live_map E fs files
                \<lparr>lm_cells = op_live_map_cells o', lm_previous = None\<rparr>) (\<lambda>(m, fs).
       Inr (files, m, fs)))))) (\<lambda>(files, m, fs).
     if command = ''map'' then
       bindL (onceL (readI (\<lambda>d. fat_analysis_print_map_json E (ho_version host) fs files (op_map_cells o')))) (\<lambda>(text, fs).
       onceL (retI (0, text)))
     else
       bindL (onceL (readI (\<lambda>d.
         bindE (fat_analysis_print E fs files) (\<lambda>(text, fs).
         bindE (if op_list o' then fat_analysis_list_fragmented E fs files else Inr ('''', fs)) (\<lambda>(listed, fs).
         Inr (text @ listed, fs)))))) (\<lambda>(text, fs).
       bindL (if relayout_command command
              then run_relayout E command journal_path o' \<lparr>wr_fs = fs, wr_io = io, wr_map = m\<rparr>
              else onceL (retI ('''', \<lparr>wr_fs = fs, wr_io = io, wr_map = m\<rparr>))) (\<lambda>(report, st).
       bindL (onceL ld_stop_requested) (\<lambda>stop.
       onceL (retI (if stop then 130 else 0, text @ report))))))))"

definition fat_type_bits :: "FatType \<Rightarrow> nat" where
  "fat_type_bits t = (case t of FAT_TYPE_12 \<Rightarrow> 12 | FAT_TYPE_16 \<Rightarrow> 16 | FAT_TYPE_32 \<Rightarrow> 32)"

definition run_identify :: "env \<Rightarrow> bytes \<Rightarrow> (nat \<times> string) res" where
  "run_identify E contents =
     (case fat_geometry_probe_path E contents of
        None \<Rightarrow> Inl (Die ''target does not contain a supported FAT12/16/32 geometry'')
      | Some t \<Rightarrow>
          Inr (0, ''{'' @ json_quoted ''filesystem'' @ '':'' @ json_quoted (''FAT'' @ dec (fat_type_bits t)) @
                  '','' @ json_pair ''bits'' (fat_type_bits t) @ ''}'' @ [NL]))"

definition run_engine ::
  "env \<Rightarrow> Host \<Rightarrow> string \<Rightarrow> string \<Rightarrow> Options \<Rightarrow> (nat \<times> string) loop" where
  "run_engine E host command device_path o' =
     (if command = ''identify'' then onceL (readI (run_identify E))
      else
        bindL (onceL (readI (\<lambda>_. case op_journal o' of
            None \<Rightarrow> default_journal_path E device_path | Some p \<Rightarrow> Inr p))) (\<lambda>journal_path.
        bindL (onceL (readI (\<lambda>_. ho_open host device_path (mutating_command command)))) (\<lambda>dev.
        bindL (onceL (readI (\<lambda>_. io_config E host o'))) (\<lambda>io.
        bindL (loadL E dev (command = ''recover'')) (\<lambda>fs.
        let io = (if io_ram_limit io < fs_cluster_size fs then io\<lparr>io_ram_limit := fs_cluster_size fs\<rparr> else io)
        in if command = ''recover'' then onceL (run_recover E journal_path fs io)
           else run_analysis E host command journal_path o' fs io)))))"

definition main :: "env \<Rightarrow> Host \<Rightarrow> string list \<Rightarrow> (nat \<times> string) loop" where
  "main E host argv =
     (if length argv = 2 \<and> argv ! 1 = ''--version'' then onceL (retI (0, version_line (ho_version host)))
      else if length argv < 3 then onceL (retI (1, ''''))
      else
        let command = argv ! 1; device_path = argv ! 2 in
        bindL (onceL (readI (\<lambda>_. parse_options E (ho_version host) (drop 3 argv) default_options))) (\<lambda>p.
        case p of
          Leave status out \<Rightarrow> onceL (retI (status, out))
        | Parsed o' \<Rightarrow>
            bindL (onceL (readI (\<lambda>_. check_command command device_path o'))) (\<lambda>c.
            case c of
              Leave status out \<Rightarrow> onceL (retI (status, out))
            | Parsed o' \<Rightarrow> run_engine E host command device_path o')))"

end
