(* ===== verification/FatEffects.thy ===== *)
theory FatEffects
  imports FatMain "HOL-Library.Sublist"
begin

text \<open>
  What the operations of the FAT engine may do to the world, whatever their result: a
  relation between the world before and after that holds for the primitive operations
  holds for every operation built from them. The relations are instances of one interface:
  the trace only grows, the stop countdown only falls, the pure writers record only writes.
\<close>

named_theorems frame_rules

definition frames :: "(world \<Rightarrow> world \<Rightarrow> bool) \<Rightarrow> 'a io \<Rightarrow> bool" where
  "frames R m \<longleftrightarrow> (\<forall>w. R w (snd (m w)))"

definition framesL :: "(world \<Rightarrow> world \<Rightarrow> bool) \<Rightarrow> 'a loop \<Rightarrow> bool" where
  "framesL R m \<longleftrightarrow> (\<forall>w r w'. m w = Some (r, w') \<longrightarrow> R w w')"

lemma framesD: "frames R m \<Longrightarrow> m w = (r, w') \<Longrightarrow> R w w'"
  unfolding frames_def by (metis snd_conv)

lemma framesLD: "framesL R m \<Longrightarrow> m w = Some (r, w') \<Longrightarrow> R w w'"
  by (simp add: framesL_def)

lemma frames_branches [frame_rules]:
  "(b \<Longrightarrow> frames R m) \<Longrightarrow> (\<not> b \<Longrightarrow> frames R n) \<Longrightarrow> frames R (if b then m else n)"
  "(\<And>a b. p = (a, b) \<Longrightarrow> frames R (f a b)) \<Longrightarrow> frames R (case p of (a, b) \<Rightarrow> f a b)"
  "(x = None \<Longrightarrow> frames R m) \<Longrightarrow> (\<And>a. x = Some a \<Longrightarrow> frames R (g a)) \<Longrightarrow>
   frames R (case x of None \<Rightarrow> m | Some a \<Rightarrow> g a)"
  "(\<And>a. s = Inl a \<Longrightarrow> frames R (k a)) \<Longrightarrow> (\<And>b. s = Inr b \<Longrightarrow> frames R (l b)) \<Longrightarrow>
   frames R (case s of Inl a \<Rightarrow> k a | Inr b \<Rightarrow> l b)"
  by (auto split: prod.splits option.splits sum.splits)

lemma framesL_branches [frame_rules]:
  "(b \<Longrightarrow> framesL R m) \<Longrightarrow> (\<not> b \<Longrightarrow> framesL R n) \<Longrightarrow> framesL R (if b then m else n)"
  "(\<And>a b. p = (a, b) \<Longrightarrow> framesL R (f a b)) \<Longrightarrow> framesL R (case p of (a, b) \<Rightarrow> f a b)"
  "(x = None \<Longrightarrow> framesL R m) \<Longrightarrow> (\<And>a. x = Some a \<Longrightarrow> framesL R (g a)) \<Longrightarrow>
   framesL R (case x of None \<Rightarrow> m | Some a \<Rightarrow> g a)"
  "(\<And>a. s = Inl a \<Longrightarrow> framesL R (k a)) \<Longrightarrow> (\<And>b. s = Inr b \<Longrightarrow> framesL R (l b)) \<Longrightarrow>
   framesL R (case s of Inl a \<Rightarrow> k a | Inr b \<Rightarrow> l b)"
  by (auto split: prod.splits option.splits sum.splits)

section \<open>The interfaces\<close>

text \<open>Operations that only look at the target.\<close>

locale read_frame =
  fixes R :: "world \<Rightarrow> world \<Rightarrow> bool"
  assumes refl: "R w w" and trans: "R w v \<Longrightarrow> R v u \<Longrightarrow> R w u"
begin

lemma frames_ret [frame_rules]: "frames R (retI x)" "frames R (dieI e)" "frames R (readI f)" "frames R (die_ifI b e)"
  by (auto simp: frames_def retI_def dieI_def readI_def die_ifI_def refl)

lemma frames_bind [frame_rules]: "frames R m \<Longrightarrow> (\<And>x. frames R (f x)) \<Longrightarrow> frames R (bindI m f)"
  unfolding frames_def
proof
  fix w
  assume m: "\<forall>w. R w (snd (m w))" and f: "\<And>x. \<forall>w. R w (snd (f x w))"
  obtain r v where v: "m w = (r, v)" by fastforce
  with m have "R w v" by (metis snd_conv)
  with f show "R w (snd (bindI m f w))" by (cases r) (auto simp: bindI_def v intro: trans)
qed

lemma frames_then [frame_rules]: "frames R m \<Longrightarrow> frames R n \<Longrightarrow> frames R (thenI m n)"
  unfolding thenI_def by (rule frames_bind)

lemma frames_fold [frame_rules]: "(\<And>x s. frames R (f x s)) \<Longrightarrow> frames R (foldI f xs s)"
proof (induction xs arbitrary: s)
  case (Cons x xs)
  then show ?case unfolding foldI.simps by (intro frames_bind) auto
qed (simp add: frames_ret)

lemma frames_exists [frame_rules]: "frames R (path_exists path)"
  by (simp add: frames_def path_exists_def refl)

lemma frames_open [frame_rules]: "frames R (open_file path what)"
  by (auto simp: frames_def open_file_def refl split: option.splits)

lemma frames_read_extents [frame_rules]: "frames R (read_extents E buffer extents config)"
  unfolding read_extents_def Let_def by (intro frame_rules)

lemma framesL_once [frame_rules]: "frames R m \<Longrightarrow> framesL R (onceL m)"
  by (auto simp: frames_def framesL_def onceL_def) (metis snd_conv)

lemma framesL_bind [frame_rules]: "framesL R m \<Longrightarrow> (\<And>x. framesL R (f x)) \<Longrightarrow> framesL R (bindL m f)"
  unfolding framesL_def
proof (intro allI impI)
  fix w r w'
  assume m: "\<forall>w r w'. m w = Some (r, w') \<longrightarrow> R w w'" and f: "\<And>x. \<forall>w r w'. f x w = Some (r, w') \<longrightarrow> R w w'"
    and run: "bindL m f w = Some (r, w')"
  obtain s v where v: "m w = Some (s, v)" using run by (auto simp: bindL_def split: option.splits)
  with m have "R w v" by blast
  with run f show "R w w'" by (cases s) (auto simp: bindL_def v intro: trans)
qed

lemma framesL_loop [frame_rules]:
  assumes "\<And>s. frames R (body s)"
  shows "framesL R (loopI body s)"
  unfolding framesL_def
proof (intro allI impI)
  fix w r w'
  have "b = body \<longrightarrow> R w (snd t)" if "loopI b s w = Some t" for b s w t
    using that
  proof (induction rule: loopI.raw_induct [rotated, consumes 1, case_names round])
    case (round loop b s w t)
    show ?case
    proof
      assume b: "b = body"
      obtain c v where v: "body s w = (c, v)" by fastforce
      have "R w v" using framesD [OF assms v] .
      moreover have "R w (snd t)" if "c = Inr (Inl s')" for s'
      proof -
        have "loop body s' v = Some t" using round(2) b v that by simp
        then have "R v (snd t)" using round(1) by (cases t) auto
        with \<open>R w v\<close> show ?thesis by (rule trans)
      qed
      ultimately show "R w (snd t)" using round(2) b v by (auto split: sum.splits)
    qed
  qed
  moreover assume "loopI body s w = Some (r, w')"
  ultimately show "R w w'" by fastforce
qed

lemma framesL_load [frame_rules]: "framesL R (loadL E dev allow)"
  by (auto simp: framesL_def loadL_def refl)

end

text \<open>Operations that also write to the target.\<close>

locale write_frame = read_frame +
  fixes E :: env
  assumes pwrite: "frames R (ld_pwrite_exact E bs off what)"
begin

lemmas [frame_rules] = pwrite

lemma frames_entry [frame_rules]: "frames R (fat32_write_entry E fs c v)"
  unfolding fat32_write_entry_def write_entry_copy_def Let_def by (intro frame_rules)

lemma frames_apply [frame_rules]: "frames R (fat32_apply_updates E fs us)"
  unfolding fat32_apply_updates_def bulk_write_run_def bulk_write_copy_def Let_def by (intro frame_rules)

lemma frames_free [frame_rules]: "frames R (free_cluster_list E fs cs)" "frames R (free_contiguous_run E fs start n)"
  unfolding free_cluster_list_def free_contiguous_run_def by (intro frame_rules)+

lemma frames_copy_chunk [frame_rules]: "frames R (copy_chunk E fs srcs dsts buffer config)"
  unfolding copy_chunk_def write_extents_def write_extent_def Let_def by (intro frame_rules)

lemma frames_copy_chunks [frame_rules]: "frames R (copy_chunks E fs n srcs dsts buffer config)"
proof (induction "length srcs" arbitrary: srcs dsts buffer config rule: less_induct)
  case less
  show ?case
  proof (cases "srcs = [] \<or> n = 0")
    case True
    then show ?thesis by (subst copy_chunks.simps) (simp add: frames_ret)
  next
    case False
    then have "frames R (copy_chunks E fs n (drop n srcs) (drop n dsts) b c)" for b c by (intro less) auto
    with False show ?thesis by (subst copy_chunks.simps) (simp, intro frame_rules, simp)
  qed
qed

lemma frames_copy [frame_rules]: "frames R (fat_io_copy_clusters E fs srcs dsts config)"
  unfolding fat_io_copy_clusters_def Let_def by (intro frame_rules)

lemma frames_batches [frame_rules]: "frames R (write_sector_batches E fs ps n)"
proof (induction "length ps" arbitrary: ps n rule: less_induct)
  case less
  show ?case
  proof (cases ps)
    case Nil
    then show ?thesis by (simp add: frames_ret)
  next
    case (Cons p rest)
    have "frames R (write_sector_batches E fs (dropWhile P rest) k)" for P k
      using length_dropWhile_le [of P rest] by (intro less) (simp add: Cons)
    then show ?thesis unfolding Cons write_sector_batches.simps Let_def by (intro frame_rules) auto
  qed
qed

lemma frames_dirents [frame_rules]: "frames R (write_dirent_first_clusters_batched E fs ps)"
  unfolding write_dirent_first_clusters_batched_def Let_def by (intro frame_rules)

lemma frames_root [frame_rules]: "frames R (write_root_cluster E fs c)"
  unfolding write_root_cluster_def write_boot_root_cluster_one_def Let_def by (intro frame_rules)

lemma frames_fsinfo [frame_rules]: "frames R (fat_relocation_update_fsinfo E fs n)"
  unfolding fat_relocation_update_fsinfo_def update_fsinfo_one_def Let_def by (intro frame_rules)

lemma frames_switch [frame_rules]: "frames R (switch_references E fs table j)"
  unfolding switch_references_def by (intro frame_rules)

end

text \<open>All primitive operations.\<close>

locale effect_frame = write_frame +
  assumes sync: "frames R (fat32_sync E)" and file_write: "frames R (atomic_file_write E path text what)"
    and remove: "frames R (journal_remove E path)" and poll: "frames R ld_stop_requested"
begin

lemmas [frame_rules] = sync file_write remove poll

lemma frames_journal [frame_rules]: "frames R (relocation_journal_write E path j)" "frames R (relocation_journal_read E path)"
  "frames R (journal_read E path)" "frames R (journal_has_magic E path magic)"
  unfolding relocation_journal_write_def relocation_journal_read_def journal_read_def journal_has_magic_def Let_def
  by (intro frame_rules)+

lemma frames_complete [frame_rules]: "frames R (complete_relocation_journal E fs path j io)"
  unfolding complete_relocation_journal_def record_stage_def Let_def by (intro frame_rules)

lemma frames_execute [frame_rules]: "frames R (fat_relocation_execute E fs refs path moves io)"
  unfolding fat_relocation_execute_def by (intro frame_rules)

lemma frames_recover [frame_rules]: "frames R (fat_relocation_recover_mapped E fs path io)"
  "frames R (fat_relocation_recover_legacy E fs path)"
  unfolding fat_relocation_recover_mapped_def fat_relocation_recover_legacy_def link_destination_def Let_def
  by (intro frame_rules)+

lemma frames_moves [frame_rules]: "frames R (run_relocation E refs path moves st)"
  "frames R (relocation_execute_moves E refs path moves st)" "frames R (rescan E st)" "frames R (refresh_fsinfo E st)"
  "frames R (relayout_move_chain E refs chain dst path emit st)" "frames R (place_batch E plan lost occ items st stats)"
  unfolding run_relocation_def relocation_execute_moves_def rescan_def refresh_fsinfo_def relayout_move_chain_def
    place_batch_def Let_def
  by (intro frame_rules)+

lemma frames_prepare_round [frame_rules]: "frames R (prepare_round E path start n batch s)"
  unfolding prepare_round_def Let_def by (intro frame_rules)

lemma frames_forward_round [frame_rules]: "frames R (forward_round E plan s)"
  unfolding forward_round_def Let_def by (intro frame_rules)

lemma framesL_prepare [frame_rules]: "framesL R (prepare_terminal_workspace E path start n batch st)"
  unfolding prepare_terminal_workspace_def Let_def by (intro frame_rules)

lemma framesL_forward [frame_rules]: "framesL R (execute_forward_compaction E plan st stats)"
  unfolding execute_forward_compaction_def by (intro frame_rules)

lemma frames_full [frame_rules]: "frames R (execute_full_workspace_layout E plan st stats)"
  unfolding execute_full_workspace_layout_def Let_def by (intro frame_rules)

lemma frames_scan [frame_rules]: "frames R (adaptive_scan E plan files objs scan fs)"
  by (induction objs arbitrary: scan fs) (simp_all only: adaptive_scan.simps, (intro frame_rules | assumption)+)

lemma frames_direct [frame_rules]: "frames R (adaptive_direct E files limit objs batch fs)"
  by (induction objs arbitrary: batch fs rule: list.induct)
    (simp_all only: adaptive_direct.simps split_paired_all, (intro frame_rules | assumption)+)

lemma frames_candidates [frame_rules]: "frames R (adaptive_candidates E files scan m objs idx cands fs)"
  by (induction idx arbitrary: cands fs) (simp_all only: adaptive_candidates.simps, (intro frame_rules | assumption)+)

lemma frames_stage [frame_rules]: "frames R (adaptive_stage E ws limit cands p)"
  by (induction cands arbitrary: p) (simp_all only: adaptive_stage.simps, (intro frame_rules | assumption)+)

lemma frames_stage_round [frame_rules]: "frames R (adaptive_stage_round E plan limit files refs scan st stats)"
  unfolding adaptive_stage_round_def adaptive_stop_between_transactions_def Let_def by (intro frame_rules)

lemma frames_adaptive_round [frame_rules]: "frames R (adaptive_round E plan limit s)"
  unfolding adaptive_round_def adaptive_stop_between_transactions_def Let_def by (intro frame_rules)

lemma framesL_adaptive [frame_rules]: "framesL R (execute_adaptive_dependency_layout E plan st stats)"
  unfolding execute_adaptive_dependency_layout_def by (intro frame_rules)

lemma frames_fallback [frame_rules]: "frames R (fallback_round E plan s)"
  unfolding fallback_round_def stage_one_object_def clear_target_def reopen_staged_def Let_def by (intro frame_rules)

lemma framesL_finish [frame_rules]: "framesL R (finish_layout E st stats)"
  unfolding finish_layout_def by (intro frame_rules)

lemma framesL_volume [frame_rules]: "framesL R (fat_relayout_volume E path percent batch st)"
  unfolding fat_relayout_volume_def start_layout_def run_layout_def Let_def by (intro frame_rules)

end

section \<open>The instances\<close>

text \<open>Nothing but the countdown of the stop request changes.\<close>

definition quiet :: "world \<Rightarrow> world \<Rightarrow> bool" where
  "quiet w w' \<longleftrightarrow> w_disk w' = w_disk w \<and> w_files w' = w_files w \<and> w_trace w' = w_trace w"

interpretation quiet_frame: read_frame quiet
  by unfold_locales (auto simp: quiet_def)

lemma quiet_poll [frame_rules]: "frames quiet ld_stop_requested"
  by (auto simp: frames_def ld_stop_requested_def quiet_def split: option.splits nat.splits)

text \<open>The countdown of a stop request never goes up.\<close>

definition stop_falls :: "world \<Rightarrow> world \<Rightarrow> bool" where
  "stop_falls w w' \<longleftrightarrow>
     (case w_stop w of None \<Rightarrow> w_stop w' = None | Some n \<Rightarrow> \<exists>k \<le> n. w_stop w' = Some k)"

interpretation stop_frame: effect_frame stop_falls E for E
  by unfold_locales
    (auto simp: stop_falls_def frames_def ld_pwrite_exact_def ld_pwrite_full_def bindI_def die_ifI_def dieI_def retI_def
      fat32_sync_def atomic_file_write_def journal_remove_def ld_stop_requested_def
      split: option.splits nat.splits prod.splits sum.splits if_splits intro: le_trans)

text \<open>Nothing that was done is ever taken out of the trace.\<close>

definition trace_grows :: "world \<Rightarrow> world \<Rightarrow> bool" where
  "trace_grows w w' \<longleftrightarrow> prefix (w_trace w) (w_trace w')"

interpretation trace_frame: effect_frame trace_grows E for E
  by unfold_locales
    (auto simp: trace_grows_def frames_def ld_pwrite_exact_def ld_pwrite_full_def bindI_def die_ifI_def dieI_def retI_def
      fat32_sync_def atomic_file_write_def journal_remove_def ld_stop_requested_def
      split: option.splits nat.splits prod.splits sum.splits if_splits intro: prefix_order.trans)

text \<open>The writers of the target touch no host file and record nothing but writes.\<close>

definition is_write :: "event \<Rightarrow> bool" where
  "is_write e \<longleftrightarrow> (\<exists>off bs. e = EvWrite off bs)"

definition only_writes :: "world \<Rightarrow> world \<Rightarrow> bool" where
  "only_writes w w' \<longleftrightarrow> w_files w' = w_files w \<and> (\<exists>evs. w_trace w' = w_trace w @ evs \<and> list_all is_write evs)"

interpretation writes_frame: write_frame only_writes E for E
proof unfold_locales
  show "only_writes w w" for w by (simp add: only_writes_def)
  show "only_writes w u" if a: "only_writes w v" "only_writes v u" for w v u
  proof -
    obtain xs ys where "w_trace v = w_trace w @ xs" "w_trace u = w_trace v @ ys" "list_all is_write xs" "list_all is_write ys"
      using a by (auto simp: only_writes_def)
    then have "w_trace u = w_trace w @ xs @ ys" "list_all is_write (xs @ ys)" by simp_all
    then show ?thesis using a unfolding only_writes_def by metis
  qed
  show "frames only_writes (ld_pwrite_exact E bs off what)" for bs off what
    by (auto simp: only_writes_def frames_def ld_pwrite_exact_def ld_pwrite_full_def bindI_def die_ifI_def dieI_def
        retI_def is_write_def split: prod.splits)
qed

end
