(* ===== verification/FatTransactionProps.thy ===== *)
theory FatTransactionProps
  imports FatTransaction FatCopyProps FatEffects
begin

text \<open>
  Properties of the relocation transaction of \<open>fat_relocation.c\<close>: the state a finished run
  leaves, and that recovery reaches it from whatever state of the table a crash left.
\<close>

section \<open>Recovery\<close>

text \<open>Volumes with the same geometry, whatever their tables and roots.\<close>

definition same_shape :: "Fat32 \<Rightarrow> Fat32 \<Rightarrow> bool" where
  "same_shape fs fs2 \<longleftrightarrow> fs_max_cluster fs2 = fs_max_cluster fs \<and> fs_fat_type fs2 = fs_fat_type fs \<and>
     fs_fat_entry_count fs2 = fs_fat_entry_count fs \<and> fs_root_dir_offset fs2 = fs_root_dir_offset fs"

text \<open>The clusters whose entries the transaction rewrites.\<close>

definition rewritten :: "RelocationJournal \<Rightarrow> nat set" where
  "rewritten j = set (sources_of (rj_moves j)) \<union> set (destinations_of (rj_moves j)) \<union>
     (mv_predecessor ` set (rj_moves j) - {0})"

lemma build_relocation_map_shape:
  assumes "same_shape fs fs2"
  shows "build_relocation_map fs2 = build_relocation_map fs"
proof -
  have "map_move fs2 = map_move fs"
    using assms by (simp add: same_shape_def map_move_def fun_eq_iff)
  moreover have "fs_max_cluster fs2 = fs_max_cluster fs" using assms by (simp add: same_shape_def)
  ultimately show ?thesis by (intro ext) (simp only: build_relocation_map_def)
qed

lemma link_updates_shape:
  assumes "same_shape fs fs2"
  shows "link_updates fs2 = link_updates fs"
proof -
  have "fat_value_is_cluster fs2 = fat_value_is_cluster fs"
    using assms by (simp add: same_shape_def fat_value_is_cluster_def fat_mask_def fun_eq_iff)
  then have "destination_update fs2 = destination_update fs"
    by (simp add: destination_update_def fun_eq_iff)
  then show ?thesis by (intro ext) (simp only: link_updates_def)
qed

lemma switched_clusters:
  assumes "switch_ok fs table preds (rj_moves j)" "link_updates fs table (rj_moves j) = Inr us"
  shows "upd_cluster ` set us \<union> set (sources_of (rj_moves j)) = rewritten j"
proof -
  let ?ms = "rj_moves j"
  let ?P = "mv_predecessor ` {m \<in> set ?ms. mv_predecessor m \<noteq> 0 \<and> table ! mv_predecessor m = 0}"
  have us: "us = map (destination_upd fs table) ?ms @
      map predecessor_upd (filter (\<lambda>m. mv_predecessor m \<noteq> 0 \<and> table ! mv_predecessor m = 0) ?ms)"
    using switch_distinct [OF assms] by blast
  have "mv_predecessor m \<in> set (sources_of ?ms)"
    if m: "m \<in> set ?ms" "mv_predecessor m \<noteq> 0" "table ! mv_predecessor m \<noteq> 0" for m
  proof -
    have "data_cluster fs (mv_source m)" using assms(1) m(1) by (auto simp: switch_ok_def moves_ok_def)
    then have "points_to fs (mv_predecessor m) (mv_source m)"
      using m assms(1) by (auto simp: switch_ok_def complete_moves_def is_predecessors_def data_cluster_def)
    then show ?thesis using m(3) assms(1) by (auto simp: switch_ok_def is_map_def points_to_def data_cluster_def)
  qed
  then have "mv_predecessor ` set ?ms - {0} \<subseteq> ?P \<union> set (sources_of ?ms)" by blast
  moreover have "?P \<subseteq> mv_predecessor ` set ?ms - {0}" by auto
  moreover have "upd_cluster ` set us = set (destinations_of ?ms) \<union> ?P"
    by (simp add: us image_Un image_image destination_upd_def predecessor_upd_def destinations_of_def)
  ultimately show ?thesis unfolding rewritten_def by blast
qed

lemma relocated_converges:
  assumes "switch_ok fs table preds (rj_moves j)" "link_updates fs table (rj_moves j) = Inr us"
    and "table_ok fs2" "same_shape fs fs2"
    and "\<forall>c < fs_fat_entry_count fs. c \<notin> rewritten j \<longrightarrow> fat_entry fs2 c = fat_entry fs c"
    and "c < fs_fat_entry_count fs"
  shows "fat_entry (relocated us (rj_moves j) fs2) c = fat_entry (relocated us (rj_moves j) fs) c"
proof -
  let ?ms = "rj_moves j"
  have ok: "table_ok fs" "moves_ok fs ?ms" using assms(1) by (auto simp: switch_ok_def)
  have shape: "fs_fat_entry_count fs2 = fs_fat_entry_count fs" "fat_mask fs2 = fat_mask fs"
    "data_cluster fs2 = data_cluster fs"
    using assms(4) by (simp_all add: same_shape_def fat_mask_def data_cluster_def fun_eq_iff)
  have srcs: "\<forall>c \<in> set (sources_of ?ms). data_cluster fs c" "distinct (sources_of ?ms)"
    using ok(2) by (auto simp: moves_ok_def sources_of_def)
  have us: "distinct (map upd_cluster us)" "\<forall>u \<in> set us. upd_cluster u < fs_fat_entry_count fs"
    using switch_distinct [OF assms(1,2)] by blast+
  note clusters = switched_clusters [OF assms(1,2)]
  show ?thesis
  proof (cases "c \<in> set (sources_of ?ms)")
    case True
    then show ?thesis
      using relocated_freed(1) [OF ok(1) srcs True] relocated_freed(1) [OF assms(3) _ srcs(2) True] srcs(1) shape by simp
  next
    case False
    have "fat_entry (put_all us fs2) c = fat_entry (put_all us fs) c"
    proof (cases "c \<in> upd_cluster ` set us")
      case True
      then obtain u where u: "u \<in> set us" "c = upd_cluster u" by blast
      show ?thesis
        using put_all_distinct(1) [OF ok(1) us(2,1) u(1)] put_all_distinct(1) [OF assms(3) _ us(1) u(1)] us(2) shape u(2)
        by simp
    next
      case out: False
      with False clusters have "c \<notin> rewritten j" by blast
      then show ?thesis
        using put_all_distinct(2) [OF ok(1) us(2,1) assms(6) out] put_all_distinct(2) [OF assms(3) _ us(1) _ out]
          us(2) shape assms(5,6) by simp
    qed
    then show ?thesis
      using relocated_freed(2) [OF ok(1) srcs assms(6) False] relocated_freed(2) [OF assms(3) _ srcs(2) _ False]
        srcs(1) shape assms(6) by simp
  qed
qed

section \<open>An example transaction\<close>

text \<open>The example volume with any table; moving its cluster 3 to cluster 2.\<close>

definition demo_like :: "Fat32 \<Rightarrow> world \<Rightarrow> bool" where
  "demo_like fs w \<longleftrightarrow> (\<exists>t. fs = demo_fs\<lparr>fs_fat := t\<rparr>) \<and> table_ok fs \<and> disk_ok fs (w_disk w) \<and> synced fs (w_disk w) \<and>
     length (w_disk w) = 2560"

definition demo_move_journal :: RelocationJournal where
  "demo_move_journal = \<lparr>rj_device_path = Some ''/dev/fd0'', rj_volume_id = 0, rj_stage = J_PREPARED,
     rj_root_old = 0, rj_root_new = 0,
     rj_moves = [\<lparr>mv_source = 3, mv_destination = 2, mv_next = 0xFFF, mv_predecessor = 0\<rparr>],
     rj_dir_patches = [\<lparr>dp_offset = 1024, dp_old_target = 3, dp_new_target = 2\<rparr>]\<rparr>"

lemma demo_fs_ids: "fs_volume_id demo_fs = 0" "fs_reserved_sectors demo_fs = 1" "fs_root_cluster demo_fs = 0"
  by (simp_all add: demo_fs_def fat32_of_geometry_def demo_geometry_def Let_def del: upt_rec_numeral)

lemma demo_like_fields:
  assumes "fs = demo_fs\<lparr>fs_fat := t\<rparr>"
  shows "fs_fat_type fs = FAT_TYPE_12" "fs_max_cluster fs = 3" "fs_fat_entry_count fs = 341" "fs_bytes_per_sector fs = 512"
    "fs_cluster_size fs = 512" "fs_data_offset fs = 1536" "fs_root_dir_offset fs = 1024" "fs_fat0_offset fs = 512"
    "fs_dev fs = demo_device" "fs_recovery_mode fs = False" "fs_volume_id fs = 0" "fs_reserved_sectors fs = 1"
  unfolding assms by (simp_all add: demo_fs_ids)

lemma demo_like_put:
  assumes "demo_like fs w" "c < 341" "dev_writable (fs_dev fs)"
  obtains w' where "fat32_write_entry ref_env fs c v w = (Inr (mem_put c v fs), w')" "demo_like (mem_put c v fs) w'"
proof -
  obtain t where t: "fs = demo_fs\<lparr>fs_fat := t\<rparr>" and ok: "table_ok fs" "disk_ok fs (w_disk w)" "synced fs (w_disk w)"
    "length (w_disk w) = 2560" using assms(1) by (auto simp: demo_like_def)
  obtain w' where run: "fat32_write_entry ref_env fs c v w = (Inr (mem_put c v fs), w')"
    using fat32_write_entry_total [of ref_env fs w c] ok assms(2,3) t by auto
  note m = fat32_write_entry_mapped [OF run io_exact_ref endian_ok_ref ok(2)]
  have "length (w_disk w') = 2560" using m tables_mapped_only_copies ok(4) by (fastforce simp: only_copies_change_def)
  moreover have "disk_ok fs (w_disk w')"
    using m tables_mapped_disk_ok [of fs _ _ "w_disk w" "w_disk w'"] ok(2) by blast
  then have "disk_ok (mem_put c v fs) (w_disk w')" by (simp add: disk_ok_def)
  moreover have "synced (mem_put c v fs) (w_disk w')"
    using fat32_write_entry_synced [OF run io_exact_ref endian_ok_ref ok(2,1,3)] by simp
  moreover have "table_ok (mem_put c v fs)" using table_ok_put_all [OF ok(1), of "[\<lparr>upd_cluster = c, upd_value = v\<rparr>]"]
    by (simp add: put_all_def)
  moreover have "mem_put c v fs = demo_fs\<lparr>fs_fat := t[c := v AND fat_mask fs]\<rparr>" by (simp add: mem_put_def t)
  then have "\<exists>t'. mem_put c v fs = demo_fs\<lparr>fs_fat := t'\<rparr>" by blast
  ultimately show thesis using that run by (simp add: demo_like_def)
qed

lemma demo_record_stage:
  "\<exists>w'. record_stage ref_env ''/j'' j st w = (Inr (j\<lparr>rj_stage := st\<rparr>), w') \<and> w_disk w' = w_disk w"
proof -
  have "ld_path_parent_directory ''/j'' = ''/''"
    by (simp add: ld_path_parent_directory_def before_last_slash_def)
  then have "ld_path_ensure_trusted_directory_tree ref_env (ld_path_parent_directory ''/j'')"
    by (simp add: ld_path_ensure_trusted_directory_tree_def path_components_def ref_env_def)
  moreover have "fsync_ok ref_env n" "file_write_ok ref_env n" for n by (simp_all add: ref_env_def)
  ultimately show ?thesis
    by (simp add: record_stage_def relocation_journal_write_def atomic_file_write_def fat32_sync_def
        thenI_def bindI_def die_ifI_def retI_def Let_def)
qed

lemma demo_copy_back:
  assumes "demo_like fs w"
  shows "\<exists>config' w'. fat_io_copy_clusters ref_env fs [3] [2] demo_config w = (Inr config', w') \<and> demo_like fs w'"
proof -
  obtain t where t: "fs = demo_fs\<lparr>fs_fat := t\<rparr>" and len: "length (w_disk w) = 2560"
    and ok: "table_ok fs" "disk_ok fs (w_disk w)" "synced fs (w_disk w)"
    using assms by (auto simp: demo_like_def)
  note f = demo_like_fields [OF t]
  define x where "x = read_at 2048 512 (w_disk w)"
  have x: "length x = 512" by (simp add: x_def buf_simps len)
  have rd: "ld_pread_full ref_env (w_disk w) 512 2048 = Some x"
    by (simp add: ld_pread_full_def ref_env_def x_def len)
  have fill: "patch (replicate 512 0) 0 x = x" "read_at 0 512 x = x" using x by (simp_all add: patch_def read_at_def)
  have wr: "ld_pwrite_exact ref_env x 1536 what w = (Inr (), after_write x 1536 w)" for what
    by (rule ld_pwrite_exact_total) (simp_all add: x len)
  have ex: "build_cluster_extents ref_env fs [2] = Inr [\<lparr>ext_disk_offset = 1536, ext_buffer_offset = 0, ext_length = 512\<rparr>]"
    "build_cluster_extents ref_env fs [3] = Inr [\<lparr>ext_disk_offset = 2048, ext_buffer_offset = 0, ext_length = 512\<rparr>]"
    by (simp_all add: build_cluster_extents_def close_extent_def u32_id ref_env_def cluster_offset_def u64_id
        extent_list_push_def f)
  obtain config' w' where run: "fat_io_copy_clusters ref_env fs [3] [2] demo_config w = (Inr config', w')"
    by (simp add: fat_io_copy_clusters_def demo_config_def chunk_clusters_def copy_chunks.simps copy_chunk_def
      ex read_extents_def write_extents_def qsort_by_def read_extent_def write_extent_def f
      bindI_def retI_def readI_def thenI_def Let_def rd fill wr)
  have small: "volume_small fs (w_disk w)" "copy_ok fs [3] [2]" by (simp_all add: volume_small_def copy_ok_def data_cluster_def f len)
  have c: "copied fs [(3, 2)] (w_disk w) (w_disk w')"
    using copy_clusters_copied [OF run io_exact_ref checked_ok_ref ok(2) small] by simp
  have layout: "layout_ok fs" using ok(2) by (simp add: disk_ok_def)
  have "synced fs (w_disk w') \<and> disk_ok fs (w_disk w')"
    using synced_outside [OF ok(3,2) copied_outside [OF c layout] data_beyond [OF layout]] .
  moreover have "length (w_disk w') = 2560" using c len by (simp add: copied_def)
  ultimately show ?thesis using run ok(1) t by (auto simp: demo_like_def)
qed

lemma demo_dirent:
  assumes "demo_like fs w"
  shows "\<exists>k w'. write_dirent_first_clusters_batched ref_env fs (rj_dir_patches demo_move_journal) w = (Inr k, w') \<and> demo_like fs w'"
proof -
  obtain t where t: "fs = demo_fs\<lparr>fs_fat := t\<rparr>" and len: "length (w_disk w) = 2560"
    and ok: "table_ok fs" "disk_ok fs (w_disk w)" "synced fs (w_disk w)"
    using assms by (auto simp: demo_like_def)
  note f = demo_like_fields [OF t]
  define x where "x = read_at 1024 512 (w_disk w)"
  have x: "length x = 512" by (simp add: x_def buf_simps len)
  have rd: "ld_pread_exact ref_env (w_disk w) 512 1024 what = Inr x" for what
    by (simp add: ld_pread_exact_total x_def len)
  define y where "y = store_first_cluster ref_env fs 0 2 x"
  have y: "length y = 512" by (simp add: y_def store_first_cluster_def Let_def length_patch x ref_env_def)
  have wr: "ld_pwrite_exact ref_env y 1024 what w = (Inr (), after_write y 1024 w)" for what
    by (rule ld_pwrite_exact_total) (simp_all add: y len)
  obtain k w' where run: "write_dirent_first_clusters_batched ref_env fs (rj_dir_patches demo_move_journal) w = (Inr k, w')"
    by (simp add: write_dirent_first_clusters_batched_def demo_move_journal_def f die_if_def sector_patch_def qsort_by_def
      bindI_def retI_def readI_def thenI_def die_ifI_def Let_def rd wr y_def [symmetric])
  note d = write_dirents_effect [OF run io_exact_ref endian_ok_ref]
  have "(\<Union>p \<in> set (rj_dir_patches demo_move_journal). field_bytes (dp_offset p)) \<inter> table_region fs = {}"
    by (auto simp: demo_move_journal_def field_bytes_def table_region_def f)
  then have "synced fs (w_disk w') \<and> disk_ok fs (w_disk w')"
    using synced_outside [OF ok(3,2)] d by blast
  moreover have "length (w_disk w') = 2560" using d len by (simp add: same_outside_def)
  ultimately show ?thesis using run ok(1) t by (auto simp: demo_like_def)
qed

lemma demo_like_sequence:
  assumes "demo_like fs w" "\<forall>u \<in> set us. upd_cluster u < 341" "us \<noteq> []"
  obtains fs' w' where "fat32_apply_updates ref_env fs us w = (Inr fs', w')" "demo_like fs' w'"
proof -
  have dev: "dev_writable (fs_dev f)" "fs_fat_type f = FAT_TYPE_12" if "demo_like f v" for f v
  proof -
    obtain t where t: "f = demo_fs\<lparr>fs_fat := t\<rparr>" using \<open>demo_like f v\<close> by (auto simp: demo_like_def)
    show "dev_writable (fs_dev f)" "fs_fat_type f = FAT_TYPE_12" using demo_like_fields [OF t] by simp_all
  qed
  have "\<exists>fs' w'. foldI (\<lambda>u fs. fat32_write_entry ref_env fs (upd_cluster u) (upd_value u)) us fs w = (Inr fs', w') \<and> demo_like fs' w'"
  proof (rule foldI_total)
    fix u f and v :: world
    assume "u \<in> set us" "demo_like f v"
    then show "\<exists>b v'. fat32_write_entry ref_env f (upd_cluster u) (upd_value u) v = (Inr b, v') \<and> demo_like b v'"
      using demo_like_put [of f v "upd_cluster u" "upd_value u"] dev assms(2) by metis
  qed (rule assms(1))
  then show thesis
    using that dev(1) [OF assms(1)] dev(2) [OF assms(1)] assms(3)
    by (auto simp: fat32_apply_updates_def thenI_def bindI_def die_ifI_def retI_def)
qed

lemma demo_transaction:
  assumes "demo_like fs w"
  shows "\<exists>fs' io' w'. complete_relocation_journal ref_env fs ''/j'' demo_move_journal demo_config w = (Inr (fs', io'), w')"
proof -
  let ?j = demo_move_journal
  obtain t where t: "fs = demo_fs\<lparr>fs_fat := t\<rparr>" using assms by (auto simp: demo_like_def)
  note f = demo_like_fields [OF t]
  have moves: "map mv_source (rj_moves ?j) = [3]" "map mv_destination (rj_moves ?j) = [2]"
    "rj_root_new ?j = 0" "rj_root_old ?j = 0" by (simp_all add: demo_move_journal_def)
  have "moves_ok fs (rj_moves ?j)"
    by (simp add: demo_move_journal_def moves_ok_def sources_of_def destinations_of_def data_cluster_def f)
  then obtain table where map: "build_relocation_map fs (rj_moves ?j) = Inr table" using build_relocation_map_complete by blast
  have us: "link_updates fs table (rj_moves ?j) = Inr [\<lparr>upd_cluster = 2, upd_value = 0xFFF\<rparr>]"
    by (simp add: demo_move_journal_def link_updates_def destination_update_def predecessor_update_def
        fat_value_is_cluster_def fat_mask_def f)
  obtain c1 w1 where cp: "fat_io_copy_clusters ref_env fs [3] [2] demo_config w = (Inr c1, w1)" "demo_like fs w1"
    using demo_copy_back [OF assms] by blast
  obtain w2 where st: "record_stage ref_env ''/j'' ?j J_DATA_COPIED w1 = (Inr (?j\<lparr>rj_stage := J_DATA_COPIED\<rparr>), w2)"
    "w_disk w2 = w_disk w1" using demo_record_stage by blast
  have like2: "demo_like fs w2" using cp(2) st(2) by (simp add: demo_like_def)
  obtain fs3 w3 where ap: "fat32_apply_updates ref_env fs [\<lparr>upd_cluster = 2, upd_value = 0xFFF\<rparr>] w2 = (Inr fs3, w3)"
    "demo_like fs3 w3" using demo_like_sequence [OF like2, of "[\<lparr>upd_cluster = 2, upd_value = 0xFFF\<rparr>]"] by auto
  obtain k w4 where di: "write_dirent_first_clusters_batched ref_env fs3 (rj_dir_patches ?j) w3 = (Inr k, w4)"
    "demo_like fs3 w4" using demo_dirent [OF ap(2)] by blast
  have sw: "switch_references ref_env fs table ?j w2 = (Inr fs3, w4)"
    by (simp add: switch_references_def bindI_def readI_def retI_def us ap(1) di(1) moves)
  obtain w5 where st2: "record_stage ref_env ''/j'' (?j\<lparr>rj_stage := J_DATA_COPIED\<rparr>) J_SWITCHED w4 =
      (Inr (?j\<lparr>rj_stage := J_SWITCHED\<rparr>), w5)" "w_disk w5 = w_disk w4"
    using demo_record_stage [of "?j\<lparr>rj_stage := J_DATA_COPIED\<rparr>" J_SWITCHED w4] by auto
  have like5: "demo_like fs3 w5" using di(2) st2(2) by (simp add: demo_like_def)
  obtain fs6 w6 where fr: "free_cluster_list ref_env fs3 [3] w5 = (Inr fs6, w6)" "demo_like fs6 w6"
    using demo_like_sequence [OF like5, of "[\<lparr>upd_cluster = 3, upd_value = 0\<rparr>]"] by (auto simp: free_cluster_list_def)
  obtain t6 where t6: "fs6 = demo_fs\<lparr>fs_fat := t6\<rparr>" using fr(2) by (auto simp: demo_like_def)
  have fi: "fat_relocation_update_fsinfo ref_env fs6 n w6 = (Inr (), w6)" for n
    using demo_like_fields [OF t6] by (simp add: fat_relocation_update_fsinfo_def retI_def)
  obtain w7 where st3: "record_stage ref_env ''/j'' (?j\<lparr>rj_stage := J_SWITCHED\<rparr>) J_OLD_FREED w6 =
      (Inr (?j\<lparr>rj_stage := J_OLD_FREED\<rparr>), w7)"
    using demo_record_stage [of "?j\<lparr>rj_stage := J_SWITCHED\<rparr>" J_OLD_FREED w6] by auto
  have rm: "\<exists>w8. journal_remove ref_env ''/j'' w7 = (Inr (), w8)"
    by (simp add: journal_remove_def ref_env_def)
  have chk: "check_relocation_journal fs ?j = Inr ()"
    by (simp add: check_relocation_journal_def demo_move_journal_def f demo_device_def die_if_def)
  show ?thesis
    using rm by (auto simp: complete_relocation_journal_def thenI_def bindI_def readI_def retI_def chk map moves cp(1) st(1)
        switch_references_stage sw st2(1) fr(1) fi st3)
qed

text \<open>The example volume with cluster 2 free, so that its chain is cluster 3 alone.\<close>

lemma demo_move_start:
  obtains fs w where "demo_like fs w" "fs = mem_put 2 0 demo_fs"
proof -
  have "demo_like demo_fs demo_world"
    using demo_ok by (auto simp: demo_like_def demo_world_def intro: exI [of _ "fs_fat demo_fs"])
  then show thesis using demo_like_put [of demo_fs demo_world 2 0] that by auto
qed

lemma demo_like_volume:
  assumes "demo_like fs w"
  shows "volume_ok fs (w_disk w)" "dev_writable (fs_dev fs)" "fs_fat_entry_count fs = 341" "fs_fat_type fs = FAT_TYPE_12"
proof -
  obtain t where t: "fs = demo_fs\<lparr>fs_fat := t\<rparr>" using assms by (auto simp: demo_like_def)
  note f = demo_like_fields [OF t]
  show "volume_ok fs (w_disk w)"
    using assms by (simp add: demo_like_def volume_ok_def volume_small_def f fat_eoc_min_def)
  show "dev_writable (fs_dev fs)" "fs_fat_entry_count fs = 341" "fs_fat_type fs = FAT_TYPE_12" by (simp_all add: f)
qed

lemma demo_move_volume:
  assumes "demo_like fs w" "fs = mem_put 2 0 demo_fs"
  shows "volume_ok fs (w_disk w)" "journal_applies fs demo_move_journal" "is_chain fs 3 [3]"
proof -
  obtain t where t: "fs = demo_fs\<lparr>fs_fat := t\<rparr>" and ok: "table_ok fs" "disk_ok fs (w_disk w)" "synced fs (w_disk w)"
    "length (w_disk w) = 2560" using assms(1) by (auto simp: demo_like_def)
  note f = demo_like_fields [OF t]
  have len: "length (fs_fat demo_fs) = 341" using demo_ok(2) by (simp add: table_ok_def)
  have e: "fat_entry fs 2 = 0" "fat_entry fs 3 = 0xFFF"
    using demo_entry [of 3] demo_raw_entries len by (simp_all add: assms(2) entry_mem_put)
  show "volume_ok fs (w_disk w)" by (rule demo_like_volume [OF assms(1)])
  show "is_chain fs 3 [3]"
    by (simp add: is_chain_def data_cluster_def fat_ends_def fat_eoc_min_def f e)
  have c: "data_cluster fs c \<longleftrightarrow> c = 2 \<or> c = 3" for c by (auto simp: data_cluster_def f)
  have "\<not> points_to fs p n" for p n
  proof
    assume "points_to fs p n"
    then have "(p = 2 \<or> p = 3) \<and> (n = 2 \<or> n = 3)" "fat_entry fs p = n" by (auto simp: points_to_def c)
    with e show False by auto
  qed
  then have "is_predecessors fs (replicate 4 0)"
    unfolding is_predecessors_def f(2) by (auto simp del: replicate_Suc)
  moreover have "complete_moves fs (replicate 4 0) (rj_moves demo_move_journal)"
    by (simp add: complete_moves_def demo_move_journal_def e)
  ultimately have "\<exists>preds. is_predecessors fs preds \<and> complete_moves fs preds (rj_moves demo_move_journal)" by blast
  then show "journal_applies fs demo_move_journal"
    unfolding journal_applies_def by (simp add: demo_move_journal_def e f fat_reserved_min_def)
qed

section \<open>Properties\<close>





section \<open>The relocation map\<close>

text \<open>C32. The map of a transaction is exact: building it succeeds precisely on a list of moves
  between data clusters with each source once, each destination once and no cluster both,
  and the table then sends every source to its destination and every other cluster nowhere.
  A journal with any other list of moves is refused before anything is copied.\<close>

theorem relocation_map_exact:
  "build_relocation_map fs moves = Inr table \<longleftrightarrow>
   (\<forall>m \<in> set moves. data_cluster fs (mv_source m) \<and> data_cluster fs (mv_destination m)) \<and>
   distinct (map mv_source moves) \<and> distinct (map mv_destination moves) \<and>
   mv_source ` set moves \<inter> mv_destination ` set moves = {} \<and>
   length table = fs_max_cluster fs + 1 \<and>
   (\<forall>c \<le> fs_max_cluster fs. table ! c =
      (case find (\<lambda>m. mv_source m = c) moves of None \<Rightarrow> 0 | Some m \<Rightarrow> mv_destination m))"
  (is "?L \<longleftrightarrow> ?A \<and> ?B \<and> ?C \<and> ?D \<and> ?len \<and> ?entries table")
proof -
  have entries: "is_map fs moves t \<Longrightarrow> moves_ok fs moves \<Longrightarrow> ?entries t" for t
  proof (intro allI impI)
    fix c assume t: "is_map fs moves t" "moves_ok fs moves" and c: "c \<le> fs_max_cluster fs"
    show "t ! c = (case find (\<lambda>m. mv_source m = c) moves of None \<Rightarrow> 0 | Some m \<Rightarrow> mv_destination m)"
    proof (cases "find (\<lambda>m. mv_source m = c) moves")
      case None
      then have "c \<notin> set (sources_of moves)" by (auto simp: find_None_iff sources_of_def)
      with t c None show ?thesis by (auto simp: is_map_def)
    next
      case (Some m)
      then have "m \<in> set moves" "mv_source m = c" by (auto simp: find_Some_iff)
      with t Some show ?thesis by (auto simp: is_map_def)
    qed
  qed
  have ok: "moves_ok fs moves \<longleftrightarrow> ?A \<and> ?B \<and> ?C \<and> ?D"
    by (auto simp: moves_ok_def sources_of_def destinations_of_def)
  show ?thesis
  proof
    assume ?L
    from build_relocation_map_sound [OF this] have m: "moves_ok fs moves" "is_map fs moves table" by auto
    have ?len using m(2) by (simp add: is_map_def)
    with ok m entries [OF m(2,1)] show "?A \<and> ?B \<and> ?C \<and> ?D \<and> ?len \<and> ?entries table" by blast
  next
    assume r: "?A \<and> ?B \<and> ?C \<and> ?D \<and> ?len \<and> ?entries table"
    then have good: "moves_ok fs moves" using ok by blast
    obtain t where t: "build_relocation_map fs moves = Inr t" using build_relocation_map_complete [OF good] by blast
    then have m: "is_map fs moves t" using build_relocation_map_sound by blast
    have "t = table"
    proof (rule nth_equalityI)
      show "length t = length table" using m r by (simp add: is_map_def)
      fix c assume "c < length t"
      then have "c \<le> fs_max_cluster fs" using m by (simp add: is_map_def)
      with r entries [OF m good] show "t ! c = table ! c" by simp
    qed
    with t show ?L by simp
  qed
qed

theorem relocation_map_exact_witness:
  "build_relocation_map demo_fs (rj_moves demo_move_journal) = Inr [0, 0, 0, 2]"
proof -
  have "([0, 0, 0, 2] :: nat list) ! c =
      (case find (\<lambda>m. mv_source m = c) (rj_moves demo_move_journal) of None \<Rightarrow> 0 | Some m \<Rightarrow> mv_destination m)"
    if le: "c \<le> 3" for c :: nat
  proof -
    consider "c = 0" | "c = 1" | "c = 2" | "c = 3" using le by linarith
    then show ?thesis by cases (simp_all add: demo_move_journal_def)
  qed
  then show ?thesis
    unfolding relocation_map_exact by (simp add: demo_move_journal_def data_cluster_def)
qed

section \<open>The order of the effects\<close>

text \<open>C12. The journal comes first: whatever becomes of a relocation, either it did nothing at
  all, or its first effect was the journal, complete with every move, directory patch and
  link the rest of the run needs, replaced atomically before anything else was done.\<close>

theorem journal_precedes_writes:
  "snd (fat_relocation_execute E fs refs path moves io w) = w \<or>
   (\<exists>preds j evs. build_predecessor_table fs = Inr preds \<and> make_relocation_journal E fs refs preds moves = Inr j \<and>
      w_trace (snd (fat_relocation_execute E fs refs path moves io w)) =
        w_trace w @ EvFile path (relocation_journal_write_stream j) # evs)"
proof (cases "build_predecessor_table fs")
  case (Inl e)
  then show ?thesis by (simp add: fat_relocation_execute_def bindI_def readI_def)
next
  case preds: (Inr preds)
  show ?thesis
  proof (cases "make_relocation_journal E fs refs preds moves")
    case (Inl e)
    then show ?thesis by (simp add: fat_relocation_execute_def bindI_def readI_def preds)
  next
    case j: (Inr j)
    obtain r v where w1: "relocation_journal_write E path j w = (r, v)" by fastforce
    show ?thesis
    proof (cases r)
      case (Inl e)
      then have "v = w" using w1
        by (auto simp: relocation_journal_write_def thenI_def bindI_def die_ifI_def dieI_def retI_def atomic_file_write_def
            split: if_splits)
      then show ?thesis using w1 Inl by (simp add: fat_relocation_execute_def bindI_def thenI_def readI_def preds j)
    next
      case (Inr u)
      then have v: "w_trace v = w_trace w @ [EvFile path (relocation_journal_write_stream j)]" using w1
        by (auto simp: relocation_journal_write_def thenI_def bindI_def die_ifI_def dieI_def retI_def atomic_file_write_def
            split: if_splits)
      let ?w' = "snd (complete_relocation_journal E fs path j io v)"
      have "prefix (w_trace v) (w_trace ?w')"
        using trace_frame.frames_complete by (simp add: frames_def trace_grows_def)
      then obtain evs where "w_trace ?w' = w_trace v @ evs" by (auto simp: prefix_def)
      moreover have "snd (fat_relocation_execute E fs refs path moves io w) = ?w'"
        using w1 Inr by (simp add: fat_relocation_execute_def bindI_def thenI_def readI_def preds j)
      ultimately show ?thesis using v preds j by auto
    qed
  qed
qed

lemma record_stage_trace:
  "record_stage E path j st w = (Inr j', w') \<Longrightarrow>
   j' = j\<lparr>rj_stage := st\<rparr> \<and>
   w_trace w' = w_trace w @ [EvSync, EvFile path (relocation_journal_write_stream (j\<lparr>rj_stage := st\<rparr>))]"
  by (auto simp: record_stage_def res_simps Let_def fat32_sync_def relocation_journal_write_def atomic_file_write_def
      split: if_splits)

lemma only_writesD:
  assumes "frames only_writes m" "m w = (r, w')"
  obtains evs where "w_trace w' = w_trace w @ evs" "list_all is_write evs"
  using framesD [OF assms] by (auto simp: only_writes_def)



end
