(* ===== verification/FatMainProps.thy ===== *)
theory FatMainProps
  imports FatEffects Demo
begin

text \<open>
  Properties of \<open>writer.c\<close> as a whole: what the command line has to say before anything is
  written, what an unfinished journal blocks, the order of the effects of a transaction, and
  that the loops of the schedulers end.
\<close>

section \<open>The command line\<close>

lemma if_eqE: "(if b then x else y) = z \<Longrightarrow> (b \<Longrightarrow> x = z \<Longrightarrow> P) \<Longrightarrow> (\<not> b \<Longrightarrow> y = z \<Longrightarrow> P) \<Longrightarrow> P"
  by (cases b) simp_all

text \<open>One step of the option loop: it consumes one argument or two.\<close>

lemma parse_options_step:
  assumes "parse_options E version (arg # rest) o0 = Inr (Parsed o1)"
  obtains (flag) o' where "parse_options E version rest o' = Inr (Parsed o1)" "op_confirm o' = op_confirm o0"
      "op_write o' \<Longrightarrow> op_write o0 \<or> arg = ''--write''"
  | (pair) v rest' o' where "rest = v # rest'" "parse_options E version rest' o' = Inr (Parsed o1)"
      "op_write o' = op_write o0" "op_confirm o' = op_confirm o0 \<or> arg = ''--confirm'' \<and> op_confirm o' = Some v"
proof (cases "arg = ''--write'' \<or> arg = ''--list'' \<or> arg = ''--verbose''")
  case True
  then show thesis
    using assms flag [of "o0\<lparr>op_write := True\<rparr>"] flag [of "o0\<lparr>op_list := True\<rparr>"] flag [of o0]
    unfolding parse_options.simps by (elim disjE) simp_all
next
  case False
  then have no: "arg \<noteq> ''--write''" "arg \<noteq> ''--list''" "arg \<noteq> ''--verbose''" by simp_all
  show thesis
  proof (cases rest)
    case Nil
    then show thesis using assms no unfolding parse_options.simps by (simp split: if_splits)
  next
    case (Cons v rest')
    note pair = pair [OF Cons]
    show thesis
      using assms unfolding parse_options.simps if_not_P [OF no(1)] if_not_P [OF no(2)] if_not_P [OF no(3)] Cons list.case
      by (elim if_eqE) (auto simp: res_simps intro: pair)
  qed
qed

lemma parse_options_write:
  "parse_options E version args o0 = Inr (Parsed o1) \<Longrightarrow> op_write o1 \<Longrightarrow> op_write o0 \<or> ''--write'' \<in> set args"
proof (induction "length args" arbitrary: args o0 rule: less_induct)
  case less
  show ?case
  proof (cases args)
    case (Cons arg rest)
    show ?thesis
      using less.prems(1) [unfolded Cons]
    proof (cases rule: parse_options_step)
      case (flag o')
      then show ?thesis using less.hyps [of rest o'] less.prems(2) Cons by auto
    next
      case (pair v rest' o')
      then show ?thesis using less.hyps [of rest' o'] less.prems(2) Cons by auto
    qed
  qed (use less.prems in simp)
qed

text \<open>Two arguments in a row.\<close>

definition follows :: "string \<Rightarrow> string \<Rightarrow> string list \<Rightarrow> bool" where
  "follows a b args \<longleftrightarrow> (\<exists>xs ys. args = xs @ [a, b] @ ys)"

lemma follows_intros: "follows a b (a # b # args)" "follows a b args \<Longrightarrow> follows a b (c # args)"
proof -
  show "follows a b (a # b # args)" unfolding follows_def by (rule exI [of _ "[]"]) simp
  show "follows a b args \<Longrightarrow> follows a b (c # args)" unfolding follows_def by (metis append_Cons)
qed

lemma parse_options_confirm:
  "parse_options E version args o0 = Inr (Parsed o1) \<Longrightarrow> op_confirm o1 = Some d \<Longrightarrow>
   op_confirm o0 = Some d \<or> follows ''--confirm'' d args"
proof (induction "length args" arbitrary: args o0 rule: less_induct)
  case less
  show ?case
  proof (cases args)
    case (Cons arg rest)
    show ?thesis
      using less.prems(1) [unfolded Cons]
    proof (cases rule: parse_options_step)
      case (flag o')
      then show ?thesis using less.hyps [of rest o'] less.prems(2) Cons by (auto intro: follows_intros)
    next
      case (pair v rest' o')
      then show ?thesis using less.hyps [of rest' o'] less.prems(2) Cons by (auto intro: follows_intros)
    qed
  qed (use less.prems in simp)
qed

section \<open>Reading commands\<close>

lemma quiet_read_only:
  assumes "\<not> mutating_command command"
  shows "framesL quiet (run_engine E host command device o')"
proof -
  have "command \<noteq> ''recover''" "\<not> relayout_command command"
    using assms by (auto simp: mutating_command_def relayout_command_def)
  then show ?thesis
    unfolding run_engine_def run_analysis_def Let_def by (intro frame_rules) simp_all
qed

lemma effects_need_confirmation:
  assumes "main E host argv w = Some (r, w')" "\<not> quiet w w'"
  shows "3 \<le> length argv \<and> mutating_command (argv ! 1) \<and> ''--write'' \<in> set (drop 3 argv) \<and>
    follows ''--confirm'' (argv ! 2) (drop 3 argv)"
proof -
  note noisy = assms(2)
  let ?parse = "onceL (readI (\<lambda>_. parse_options E (ho_version host) (drop 3 argv) default_options))"
  let ?check = "\<lambda>o'. onceL (readI (\<lambda>_. check_command (argv ! 1) (argv ! 2) o'))"
  let ?tail = "\<lambda>p. case p of Leave status out \<Rightarrow> onceL (retI (status, out))
      | Parsed o' \<Rightarrow> bindL (?check o') (\<lambda>c. case c of Leave status out \<Rightarrow> onceL (retI (status, out))
          | Parsed o' \<Rightarrow> run_engine E host (argv ! 1) (argv ! 2) o')"
  have long: "3 \<le> length argv" and run: "bindL ?parse ?tail w = Some (r, w')"
    using assms(1) noisy by (auto simp: main_def Let_def onceL_def retI_def quiet_def split: if_splits)
  obtain o1 where o1: "parse_options E (ho_version host) (drop 3 argv) default_options = Inr (Parsed o1)"
    "bindL (?check o1) (\<lambda>c. case c of Leave status out \<Rightarrow> onceL (retI (status, out))
          | Parsed o' \<Rightarrow> run_engine E host (argv ! 1) (argv ! 2) o') w = Some (r, w')"
    using run noisy by (auto simp: bindL_def onceL_def readI_def retI_def quiet_def split: sum.splits parsed.splits)
  obtain o2 where o2: "check_command (argv ! 1) (argv ! 2) o1 = Inr (Parsed o2)"
    "run_engine E host (argv ! 1) (argv ! 2) o2 w = Some (r, w')"
    using o1(2) noisy by (auto simp: bindL_def onceL_def readI_def retI_def quiet_def split: sum.splits parsed.splits)
  have mut: "mutating_command (argv ! 1)"
    using framesLD [where m = "run_engine E host (argv ! 1) (argv ! 2) o2"] quiet_read_only o2(2) noisy by blast
  then have "op_write o1" "op_confirm o1 = Some (argv ! 2)"
    using o2(1) by (auto simp: check_command_def res_simps)
  then show ?thesis
    using long mut parse_options_write [OF o1(1)] parse_options_confirm [OF o1(1)]
    by (auto simp: default_options_def)
qed


section \<open>The default journal\<close>

text \<open>The base name of a path has no slash, so neither has the default journal path.\<close>

definition basename_ok :: "env \<Rightarrow> bool" where
  "basename_ok E \<longleftrightarrow> (\<forall>path. CHR ''/'' \<notin> set (path_basename E path))"

lemma basename_ok_ref: "basename_ok ref_env"
  by (auto simp: basename_ok_def ref_env_def dest: set_takeWhileD)

lemma default_journal_relative:
  assumes "basename_ok E" "default_journal_path E device = Inr path"
  shows "CHR ''/'' \<notin> set path"
proof -
  from assms(2) obtain n where "path = take n (''.linux-defragger-fat-worker-'' @ path_basename E device @ ''.journal'')"
    by (auto simp: default_journal_path_def Let_def split: option.splits)
  then have "set path \<subseteq> set (''.linux-defragger-fat-worker-'' @ path_basename E device @ ''.journal'')"
    by (metis set_take_subset)
  moreover have "CHR ''/'' \<notin> set ''.linux-defragger-fat-worker-''" "CHR ''/'' \<notin> set ''.journal''" by simp_all
  ultimately show ?thesis using assms(1) unfolding basename_ok_def by auto
qed

text \<open>C39. Without \<open>--journal\<close> no relocation can ever start: the default journal path is
  relative, the check of its directory accepts absolute paths only, so every transaction
  ends with an error before the journal or anything else is written.\<close>

theorem default_journal_blocks_relocation:
  assumes "basename_ok E" "default_journal_path E device = Inr path"
  shows "\<exists>e. fat_relocation_execute E fs refs path moves io w = (Inl e, w)"
proof -
  have "before_last_slash path = None" using default_journal_relative [OF assms] by (simp add: before_last_slash_def)
  then have "\<not> ld_path_ensure_trusted_directory_tree E (ld_path_parent_directory path)"
    by (simp add: ld_path_parent_directory_def ld_path_ensure_trusted_directory_tree_def)
  then show ?thesis
    by (auto simp: fat_relocation_execute_def relocation_journal_write_def bindI_def thenI_def readI_def die_ifI_def dieI_def
        split: sum.splits)
qed

theorem default_journal_blocks_relocation_witness:
  "\<forall>io. \<exists>e. fat_relocation_execute ref_env demo_fs [] ''.linux-defragger-fat-worker-fd0.journal'' [] io demo_world =
     (Inl e, demo_world)"
proof -
  have "default_journal_path ref_env ''/dev/fd0'' = Inr ''.linux-defragger-fat-worker-fd0.journal''"
    by (simp add: default_journal_path_def ref_env_def Let_def)
  then show ?thesis using default_journal_blocks_relocation [OF basename_ok_ref] by blast
qed


definition demo_host :: Host where
  "demo_host = \<lparr>ho_version = ''1'', ho_open = (\<lambda>path writable. Inr demo_device), ho_rotational = False,
     ho_serial_flash = False, ho_available_memory = 1000000000, ho_cpu_count = 4\<rparr>"


section \<open>The loops of the schedulers\<close>

text \<open>Code that returns whenever the stop request is on its way.\<close>

definition ends :: "'a loop \<Rightarrow> bool" where
  "ends m \<longleftrightarrow> (\<forall>w n. w_stop w = Some n \<longrightarrow> (\<exists>r. m w = Some r))"

lemma ends_once: "ends (onceL m)"
  by (simp add: ends_def onceL_def)

lemma ends_bind:
  assumes "ends m" "framesL stop_falls m" "\<And>x. ends (f x)"
  shows "ends (bindL m f)"
  unfolding ends_def
proof (intro allI impI)
  fix w :: world and n assume n: "w_stop w = Some n"
  then obtain r v where v: "m w = Some (r, v)" using assms(1) unfolding ends_def by (metis surj_pair)
  then have "stop_falls w v" using assms(2) by (simp add: framesL_def)
  then obtain k where "w_stop v = Some k" using n by (auto simp: stop_falls_def)
  then show "\<exists>r. bindL m f w = Some r"
    using v assms(3) by (cases r) (auto simp: bindL_def ends_def)
qed

lemma ends_branches:
  "ends m \<Longrightarrow> ends n \<Longrightarrow> ends (if b then m else n)"
  "(\<And>a b. ends (g a b)) \<Longrightarrow> ends (case p of (a, b) \<Rightarrow> g a b)"
  "ends m \<Longrightarrow> (\<And>a. ends (h a)) \<Longrightarrow> ends (case x of None \<Rightarrow> m | Some a \<Rightarrow> h a)"
  "(\<And>a. ends (k a)) \<Longrightarrow> (\<And>b. ends (l b)) \<Longrightarrow> ends (case s of Inl a \<Rightarrow> k a | Inr b \<Rightarrow> l b)"
  by (auto split: prod.splits option.splits sum.splits)

text \<open>A round that polls the flag, leaves when it is set and otherwise only continues.\<close>

lemma polled_round:
  assumes "bindI ld_stop_requested f w = (Inr (Inl s'), w')" "f True = retI (Inr x) \<or> f True = dieI e"
    and "frames stop_falls (f False)" "w_stop w = Some n"
  shows "\<exists>k < n. w_stop w' = Some k"
proof (cases n)
  case 0
  then show ?thesis using assms(1,2,4) by (auto simp: bindI_def ld_stop_requested_def retI_def dieI_def)
next
  case (Suc m)
  let ?v = "w\<lparr>w_stop := Some m\<rparr>"
  have "f False ?v = (Inr (Inl s'), w')" using assms(1,4) Suc by (simp add: bindI_def ld_stop_requested_def)
  then have "stop_falls ?v w'" using framesD [OF assms(3)] by blast
  then show ?thesis using Suc by (auto simp: stop_falls_def)
qed

lemma ends_loop:
  assumes "\<And>s w s' w' n. body s w = (Inr (Inl s'), w') \<Longrightarrow> w_stop w = Some n \<Longrightarrow> \<exists>k < n. w_stop w' = Some k"
  shows "ends (loopI body s)"
  unfolding ends_def
proof (intro allI impI)
  fix w :: world and n assume "w_stop w = Some n"
  have "\<exists>r v. loopI body s w = Some (r, v)"
  proof (rule loopI_returns [where P = "\<lambda>s w. w_stop w \<noteq> None" and m = "\<lambda>s w. the (w_stop w)"])
    show "w_stop w \<noteq> None" using \<open>w_stop w = Some n\<close> by simp
    fix s s' and w w' :: world assume "w_stop w \<noteq> None" "body s w = (Inr (Inl s'), w')"
    with assms show "w_stop w' \<noteq> None \<and> the (w_stop w') < the (w_stop w)" by (cases "w_stop w") fastforce+
  qed
  then show "\<exists>r. loopI body s w = Some r" by blast
qed

text \<open>Every continuing round of the four schedulers used up a poll.\<close>

lemma prepare_round_polls:
  assumes "prepare_round E path start n b s w = (Inr (Inl s'), w')" "w_stop w = Some k"
  shows "\<exists>i < k. w_stop w' = Some i"
proof -
  obtain st stats where s: "s = (st, stats)" by fastforce
  show ?thesis
    using assms(1) unfolding prepare_round_def s Let_def prod.case
    by (rule polled_round [where x = "(st, stats)"]) (simp, simp only: if_False, intro frame_rules, rule assms(2))
qed

lemma forward_round_polls:
  assumes "forward_round E plan s w = (Inr (Inl s'), w')" "w_stop w = Some k"
  shows "\<exists>i < k. w_stop w' = Some i"
proof -
  obtain st nxt stats where s: "s = (st, nxt, stats)" by (metis surj_pair)
  have n: "\<not> nxt \<ge> length (pl_objects plan)" using assms(1) by (auto simp: forward_round_def s retI_def Let_def)
  from assms(1) show ?thesis unfolding forward_round_def s Let_def prod.case if_not_P [OF n]
    by (rule polled_round [where x = "(True, st, stats\<lparr>rs_interrupted := True\<rparr>)"])
      (simp, simp only: if_False, intro frame_rules, rule assms(2))
qed

lemma fallback_round_polls:
  assumes "fallback_round E plan s w = (Inr (Inl s'), w')" "w_stop w = Some k"
  shows "\<exists>i < k. w_stop w' = Some i"
proof -
  obtain st n stats where s: "s = (st, n, stats)" by (metis surj_pair)
  have n: "n \<noteq> 0"
  proof
    assume "n = 0"
    with assms(1) show False by (simp add: fallback_round_def s retI_def)
  qed
  from assms(1) show ?thesis unfolding fallback_round_def s Let_def prod.case if_not_P [OF n]
    by (rule polled_round [where x = "(st, stats\<lparr>rs_interrupted := True\<rparr>)"])
      (simp, simp only: if_False stage_one_object_def clear_target_def reopen_staged_def Let_def,
       intro frame_rules, rule assms(2))
qed

lemma adaptive_round_polls:
  assumes "adaptive_round E plan limit s w = (Inr (Inl s'), w')" "w_stop w = Some k"
  shows "\<exists>i < k. w_stop w' = Some i"
proof -
  obtain st stats where s: "s = (st, stats)" by fastforce
  from assms(1) show ?thesis unfolding adaptive_round_def s Let_def prod.case
    by (rule polled_round [where x = "(True, st, stats\<lparr>rs_interrupted := True\<rparr>)"])
      (simp add: adaptive_stop_between_transactions_def,
       simp only: if_False adaptive_stop_between_transactions_def, intro frame_rules, rule assms(2))
qed

lemmas ends_rules = ends_bind ends_once ends_branches
  ends_loop [OF prepare_round_polls] ends_loop [OF forward_round_polls]
  ends_loop [OF fallback_round_polls] ends_loop [OF adaptive_round_polls]

lemma ends_volume: "ends (fat_relayout_volume E path percent batch st)"
  unfolding fat_relayout_volume_def start_layout_def run_layout_def finish_layout_def prepare_terminal_workspace_def
    execute_forward_compaction_def execute_adaptive_dependency_layout_def Let_def
  by (intro ends_rules frame_rules)

text \<open>C24. A stop request always ends a relayout: if a request arrives, after whatever number of
  polls of the stop flag, the operation returns, whatever the volume holds and however the
  writes turn out; no loop of any of the schedulers goes on past it.\<close>

theorem stop_request_ends_relayout:
  assumes "w_stop w = Some n"
  shows "\<exists>r w'. fat_relayout_volume E path percent batch st w = Some (r, w')"
  using ends_volume assms unfolding ends_def by (metis surj_pair)

theorem stop_request_ends_relayout_witness:
  "\<forall>st. \<exists>r w'. fat_relayout_volume ref_env ''/j'' 0 4096 st (demo_world\<lparr>w_stop := Some 3\<rparr>) = Some (r, w')"
  by (rule allI, rule stop_request_ends_relayout [where n = 3]) simp

section \<open>Schedulers that always end\<close>

lemma forward_round_moves:
  assumes "forward_round E plan (st, nxt, stats) w = (Inr (Inl (st', nxt', stats')), w')"
  shows "nxt < length (pl_objects plan) \<and> nxt < nxt'"
proof -
  have skip: "n \<le> n'" if "forward_skip_exact E files objs n fs = Inr (n', fs')" for files objs n n' fs fs'
    using that
  proof (induction objs arbitrary: n fs)
    case (Cons o' objs)
    then show ?case by (fastforce simp: res_simps split: if_splits)
  qed simp
  have lt: "nxt < length (pl_objects plan)"
    using assms by (auto simp: forward_round_def res_simps Let_def split: if_splits)
  have grow: "n \<le> m \<Longrightarrow> xs \<noteq> [] \<Longrightarrow> n < m + length xs" for n m and xs :: "WorkspaceStageItem list"
    by (cases xs) auto
  have "nxt < nxt'"
    using assms by (auto simp: forward_round_def res_simps Let_def dest!: skip intro: grow
        split: if_splits option.splits prod.splits)
  with lt show ?thesis by simp
qed

lemma fallback_collect_step:
  assumes "fallback_collect E files ol cl (o' # objs) b fs = Inr (b', fs')"
  shows "b' = b \<or> (\<exists>b1 fs1. fb_reverse b1 = fb_reverse b - 1 \<and>
    (b' = b1 \<or> fallback_collect E files ol cl objs b1 fs1 = Inr (b', fs')))"
proof (cases "length (fb_objects b) \<ge> ol")
  case False
  then obtain chain fs1 where chain: "find_relayout_object_chain E o' files fs = Inr (chain, fs1)"
    using assms by (auto simp: res_simps)
  let ?n = "length (fb_moves b)"
  consider (exact) "chain_is_exact_run chain (ro_target o')"
    | (full) "\<not> chain_is_exact_run chain (ro_target o')" "b' = b"
    | (add) "\<not> chain_is_exact_run chain (ro_target o')" "b' \<noteq> b" by blast
  then show ?thesis
  proof cases
    case exact
    then have "fallback_collect E files ol cl objs (b\<lparr>fb_reverse := fb_reverse b - 1, fb_skipped := fb_skipped b + 1\<rparr>) fs1 = Inr (b', fs')"
      using assms False chain by (simp add: res_simps)
    then show ?thesis by (intro disjI2 exI conjI) auto
  next
    case add
    let ?moves = "chain_moves chain (ro_target o')"
    let ?b1 = "b\<lparr>fb_moves := fb_moves b @ ?moves, fb_objects := fb_objects b @ [o'], fb_reverse := fb_reverse b - 1,
      fb_source_seen := mark_clusters chain (fb_source_seen b),
      fb_destination_seen := mark_clusters (map mv_destination ?moves) (fb_destination_seen b)\<rparr>"
    have "b' = ?b1 \<or> fallback_collect E files ol cl objs ?b1 fs1 = Inr (b', fs')"
      using assms False chain add by (auto simp: res_simps Let_def split: if_splits)
    moreover have "fb_reverse ?b1 = fb_reverse b - 1" by simp
    ultimately show ?thesis by blast
  qed simp
qed (use assms in simp)

lemma fallback_collect_consumes:
  "fallback_collect E files ol cl objs b fs = Inr (b', fs') \<Longrightarrow> length objs \<le> fb_reverse b \<Longrightarrow>
   fb_reverse b' \<le> fb_reverse b \<and> (b' \<noteq> b \<longrightarrow> fb_reverse b' < fb_reverse b)"
proof (induction objs arbitrary: b fs)
  case (Cons o' objs)
  have "0 < fb_reverse b" "length objs \<le> fb_reverse b - 1" using Cons.prems(2) by simp_all
  from fallback_collect_step [OF Cons.prems(1)] show ?case
  proof (elim disjE exE conjE)
    fix b1 fs1 assume "fb_reverse b1 = fb_reverse b - 1" "fallback_collect E files ol cl objs b1 fs1 = Inr (b', fs')"
    with Cons.IH [of b1 fs1] \<open>0 < fb_reverse b\<close> \<open>length objs \<le> fb_reverse b - 1\<close> show ?thesis by auto
  qed (use \<open>0 < fb_reverse b\<close> in simp_all)
qed simp

lemma fallback_round_moves:
  assumes "fallback_round E plan (st, n, stats) w = (Inr (Inl (st', n', stats')), w')"
  shows "n' < n"
proof -
  have n: "0 < n"
  proof (rule ccontr)
    assume "\<not> 0 < n"
    with assms show False by (simp add: fallback_round_def retI_def)
  qed
  have step: "fb_reverse b \<le> n \<and> (fb_moves b \<noteq> [] \<or> fb_skipped b \<noteq> 0 \<longrightarrow> fb_reverse b < n)"
    if "fallback_collect E files ol cl (rev (take n objs))
      \<lparr>fb_reverse = n, fb_moves = [], fb_objects = [], fb_skipped = 0, fb_source_seen = u, fb_destination_seen = u\<rparr> fs = Inr (b, fs')"
    for files ol cl objs u fs b fs'
    using fallback_collect_consumes [OF that] by auto
  show ?thesis
    using assms n by (auto simp: fallback_round_def res_simps Let_def dest!: step split: if_splits prod.splits)
qed

text \<open>C25. Two of the schedulers end without any request: forward compaction, and the final
  fallback that moves one object at a time, return on every volume and with every outcome
  of the writes.\<close>

theorem ordered_schedulers_end:
  "(\<exists>r w'. execute_forward_compaction E plan st stats w = Some (r, w')) \<and>
   (\<exists>r w'. loopI (fallback_round E plan) (st, n, stats) w = Some (r, w'))"
proof
  show "\<exists>r w'. execute_forward_compaction E plan st stats w = Some (r, w')"
    unfolding execute_forward_compaction_def
  proof (rule loopI_returns [where P = "\<lambda>s w. True" and m = "\<lambda>(st, nxt, stats) w. length (pl_objects plan) - nxt"])
    fix s s' and v v' :: world
    assume "forward_round E plan s v = (Inr (Inl s'), v')"
    then show "True \<and> (case s' of (st, nxt, stats) \<Rightarrow> \<lambda>w. length (pl_objects plan) - nxt) v' <
        (case s of (st, nxt, stats) \<Rightarrow> \<lambda>w. length (pl_objects plan) - nxt) v"
      using forward_round_moves by (cases s; cases s') fastforce
  qed simp
  show "\<exists>r w'. loopI (fallback_round E plan) (st, n, stats) w = Some (r, w')"
  proof (rule loopI_returns [where P = "\<lambda>s w. True" and m = "\<lambda>(st, n, stats) w. n"])
    fix s s' and v v' :: world
    assume "fallback_round E plan s v = (Inr (Inl s'), v')"
    then show "True \<and> (case s' of (st, n, stats) \<Rightarrow> \<lambda>w. n) v' < (case s of (st, n, stats) \<Rightarrow> \<lambda>w. n) v"
      using fallback_round_moves by (cases s; cases s') fastforce
  qed simp
qed

end
