(* ===== verification/LdDevice.thy ===== *)
theory LdDevice
  imports LdCore TextFormat
begin

text \<open>
  \<open>ld_device.c\<close>: the identity and mounted-overlap checks of a target. What sysfs, the
  mount table and the open system calls answer is a parameter; the decisions taken on the
  answers are the model. Paths fit \<open>PATH_MAX\<close>.
\<close>

section \<open>Related block devices\<close>

type_synonym dev_t = "nat \<times> nat" \<comment> \<open>major and minor\<close>

abbreviation LD_MAX_RELATED_DEVICES :: nat where "LD_MAX_RELATED_DEVICES \<equiv> 1024"
abbreviation UINT_MAX :: nat where "UINT_MAX \<equiv> 4294967295"

record LdRelatedDevice =
  rd_value :: dev_t
  rd_exact_mapping :: bool
  rd_relations_scanned :: bool
  rd_children_scanned :: bool

text \<open>
  \<open>sy_known\<close>: the device has a sysfs directory; then \<open>sy_parent\<close> is the device number
  in the directory above, and the lists are the device numbers found under \<open>holders\<close>,
  \<open>slaves\<close> and the directory itself, in the order of the directory.
\<close>

record Sysfs =
  sy_known :: "dev_t \<Rightarrow> bool"
  sy_parent :: "dev_t \<Rightarrow> dev_t option"
  sy_holders :: "dev_t \<Rightarrow> dev_t list"
  sy_slaves :: "dev_t \<Rightarrow> dev_t list"
  sy_children :: "dev_t \<Rightarrow> dev_t list"

fun upgrade_related :: "LdRelatedDevice list \<Rightarrow> dev_t \<Rightarrow> bool \<Rightarrow> LdRelatedDevice list option" where
  "upgrade_related [] v exact_mapping = None"
| "upgrade_related (d # rest) v exact_mapping =
     (if rd_value d \<noteq> v then map_option (\<lambda>ds. d # ds) (upgrade_related rest v exact_mapping)
      else Some ((if exact_mapping then d\<lparr>rd_exact_mapping := True\<rparr> else d) # rest))"

text \<open>\<open>None\<close>: the table is full.\<close>

definition ld_add_related_device ::
  "LdRelatedDevice list \<Rightarrow> dev_t \<Rightarrow> bool \<Rightarrow> LdRelatedDevice list option" where
  "ld_add_related_device devices v exact_mapping =
     (case upgrade_related devices v exact_mapping of
        Some devices \<Rightarrow> Some devices
      | None \<Rightarrow>
          if length devices \<ge> LD_MAX_RELATED_DEVICES then None
          else Some (devices @ [\<lparr>rd_value = v, rd_exact_mapping = exact_mapping,
                                 rd_relations_scanned = False, rd_children_scanned = False\<rparr>]))"

fun ld_collect_sysfs_directory ::
  "dev_t list \<Rightarrow> LdRelatedDevice list \<Rightarrow> bool \<Rightarrow> LdRelatedDevice list option" where
  "ld_collect_sysfs_directory [] devices exact_mapping = Some devices"
| "ld_collect_sysfs_directory (related # rest) devices exact_mapping =
     (case ld_add_related_device devices related exact_mapping of
        None \<Rightarrow> None
      | Some devices \<Rightarrow> ld_collect_sysfs_directory rest devices exact_mapping)"

definition ld_add_parent_device ::
  "Sysfs \<Rightarrow> dev_t \<Rightarrow> LdRelatedDevice list \<Rightarrow> LdRelatedDevice list option" where
  "ld_add_parent_device sys v devices =
     (case sy_parent sys v of
        None \<Rightarrow> Some devices
      | Some parent \<Rightarrow> ld_add_related_device devices parent False)"

definition scan_relations :: "Sysfs \<Rightarrow> nat \<Rightarrow> LdRelatedDevice list \<Rightarrow> LdRelatedDevice list option" where
  "scan_relations sys index devices =
     (let v = rd_value (devices ! index) in
      if rd_relations_scanned (devices ! index) then Some devices
      else
        case ld_add_parent_device sys v (devices[index := (devices ! index)\<lparr>rd_relations_scanned := True\<rparr>]) of
          None \<Rightarrow> None
        | Some devices \<Rightarrow>
            (case ld_collect_sysfs_directory (sy_holders sys v) devices True of
               None \<Rightarrow> None
             | Some devices \<Rightarrow> ld_collect_sysfs_directory (sy_slaves sys v) devices True))"

definition scan_children :: "Sysfs \<Rightarrow> nat \<Rightarrow> LdRelatedDevice list \<Rightarrow> LdRelatedDevice list option" where
  "scan_children sys index devices =
     (if rd_exact_mapping (devices ! index) \<and> \<not> rd_children_scanned (devices ! index) then
        ld_collect_sysfs_directory (sy_children sys (rd_value (devices ! index)))
          (devices[index := (devices ! index)\<lparr>rd_children_scanned := True\<rparr>]) True
      else Some devices)"

text \<open>
  The scan goes over the table while it grows. The table never holds more than
  \<open>LD_MAX_RELATED_DEVICES\<close> entries, which bounds the index.
\<close>

function collect_from :: "Sysfs \<Rightarrow> nat \<Rightarrow> LdRelatedDevice list \<Rightarrow> LdRelatedDevice list option" where
  "collect_from sys index devices =
     (if index < length devices \<and> index < LD_MAX_RELATED_DEVICES then
        (if \<not> sy_known sys (rd_value (devices ! index)) then collect_from sys (index + 1) devices
         else
           case scan_relations sys index devices of
             None \<Rightarrow> None
           | Some devices \<Rightarrow>
               (case scan_children sys index devices of
                  None \<Rightarrow> None
                | Some devices \<Rightarrow> collect_from sys (index + 1) devices))
      else Some devices)"
  by pat_completeness auto
termination by (relation "measure (\<lambda>(sys, index, devices). LD_MAX_RELATED_DEVICES - index)") auto

declare collect_from.simps [simp del]

definition ld_collect_related_devices :: "Sysfs \<Rightarrow> dev_t \<Rightarrow> LdRelatedDevice list option" where
  "ld_collect_related_devices sys target =
     (case ld_add_related_device [] target True of
        None \<Rightarrow> None | Some devices \<Rightarrow> collect_from sys 0 devices)"

section \<open>The mount table\<close>

definition ld_parse_device_number :: "env \<Rightarrow> string \<Rightarrow> dev_t option" where
  "ld_parse_device_number E text =
     (case parse_u64_token E text 10 of
        None \<Rightarrow> None
      | Some (found_major, cursor) \<Rightarrow>
          if found_major > UINT_MAX \<or> cursor = [] \<or> hd cursor \<noteq> CHR '':'' then None
          else
            case parse_u64_token E (tl cursor) 10 of
              None \<Rightarrow> None
            | Some (found_minor, cursor) \<Rightarrow>
                if found_minor > UINT_MAX \<or> cursor \<noteq> [] then None else Some (found_major, found_minor))"

text \<open>The words of a line between single or repeated spaces; \<open>word\<close> is the one being read.\<close>

fun split_words :: "string \<Rightarrow> string \<Rightarrow> string list" where
  "split_words [] word = (if word = [] then [] else [word])"
| "split_words (c # rest) word =
     (if c = CHR '' '' then (if word = [] then split_words rest [] else word # split_words rest [])
      else split_words rest (word @ [c]))"

definition mountinfo_device :: "env \<Rightarrow> string \<Rightarrow> dev_t option" where
  "mountinfo_device E line =
     (let words = split_words line [] in
      if length words < 3 then None else ld_parse_device_number E (words ! 2))"

text \<open>The lines of \<open>/proc/self/mountinfo\<close>; \<open>None\<close>: it cannot be opened.\<close>

definition ld_device_number_is_mounted ::
  "env \<Rightarrow> Sysfs \<Rightarrow> string list option \<Rightarrow> dev_t \<Rightarrow> bool res" where
  "ld_device_number_is_mounted E sys mountinfo device_number =
     (case ld_collect_related_devices sys device_number of
        None \<Rightarrow> Inl (Die ''block-device topology is too large to validate safely'')
      | Some related \<Rightarrow>
          (case mountinfo of
             None \<Rightarrow> Inl (DieErrno ''open /proc/self/mountinfo'')
           | Some lines \<Rightarrow>
               Inr (list_ex (\<lambda>line. case mountinfo_device E line of
                      None \<Rightarrow> False
                    | Some found \<Rightarrow> list_ex (\<lambda>d. rd_value d = found) related) lines)))"

definition octal_digit :: "char \<Rightarrow> bool" where
  "octal_digit c \<longleftrightarrow> 48 \<le> (of_char c :: nat) \<and> (of_char c :: nat) \<le> 55"

definition octal_value :: "char \<Rightarrow> nat" where
  "octal_value c = of_char c - 48"

fun ld_decode_mount_field :: "string \<Rightarrow> string" where
  "ld_decode_mount_field (b # x # y # z # rest) =
     (if b = CHR 0x5C \<and> octal_digit x \<and> octal_digit y \<and> octal_digit z
      then char_of (octal_value x * 64 + octal_value y * 8 + octal_value z) # ld_decode_mount_field rest
      else b # ld_decode_mount_field (x # y # z # rest))"
| "ld_decode_mount_field short = short"

section \<open>Opening a target\<close>

datatype file_kind = BlockDevice | RegularFile | OtherFile

record Status =
  stat_kind :: file_kind
  stat_dev :: nat
  stat_ino :: nat
  stat_rdev :: dev_t

text \<open>The answers of the system in the order they are asked for.\<close>

record OpenAnswers =
  oa_realpath :: "string option"
  oa_expected :: "Status option"
  oa_mounted_before :: "bool res"
  oa_opened :: "Status option" \<comment> \<open>\<open>open\<close> with \<open>O_NOFOLLOW\<close> (and \<open>O_EXCL\<close>), then \<open>fstat\<close>\<close>
  oa_mounted_after :: "bool res"
  oa_size :: "nat option"

datatype open_error = NotFound | EINVAL | EBUSY | ESTALE | SystemError

definition same_object :: "Status \<Rightarrow> Status \<Rightarrow> bool" where
  "same_object expected opened \<longleftrightarrow>
     stat_kind expected = stat_kind opened \<and> stat_dev expected = stat_dev opened \<and>
     stat_ino expected = stat_ino opened \<and>
     (stat_kind expected \<noteq> BlockDevice \<or> stat_rdev expected = stat_rdev opened)"

text \<open>\<open>Inr (Inl e)\<close> is the \<open>-1\<close> return with \<open>errno\<close>.\<close>

definition ld_device_try_open :: "OpenAnswers \<Rightarrow> bool \<Rightarrow> (open_error + Device) res" where
  "ld_device_try_open a writable =
     (case (oa_realpath a, oa_expected a) of
        (Some resolved, Some expected) \<Rightarrow>
          let block = (stat_kind expected = BlockDevice) in
          if \<not> block \<and> stat_kind expected \<noteq> RegularFile then Inr (Inl EINVAL)
          else
            bindE (if block \<and> writable then oa_mounted_before a else Inr False) (\<lambda>mounted.
            if mounted then Inr (Inl EBUSY)
            else
              case oa_opened a of
                None \<Rightarrow> Inr (Inl SystemError)
              | Some opened \<Rightarrow>
                  if \<not> same_object expected opened then Inr (Inl ESTALE)
                  else
                    bindE (if block \<and> writable then oa_mounted_after a else Inr False) (\<lambda>mounted.
                    if mounted then Inr (Inl EBUSY)
                    else
                      case oa_size a of
                        None \<Rightarrow> Inr (Inl SystemError)
                      | Some n \<Rightarrow>
                          Inr (Inr \<lparr>dev_path = resolved, dev_writable = writable, dev_is_block = block,
                                    dev_size_bytes = n,
                                    dev_number = (if block then stat_rdev opened else (0, 0)),
                                    dev_host = stat_dev opened, dev_inode = stat_ino opened\<rparr>)))
      | _ \<Rightarrow> Inr (Inl NotFound))"

definition ld_device_open :: "OpenAnswers \<Rightarrow> bool \<Rightarrow> Device res" where
  "ld_device_open a writable =
     bindE (ld_device_try_open a writable) (\<lambda>r.
     case r of Inl e \<Rightarrow> Inl (DieErrno ''open target'') | Inr device \<Rightarrow> Inr device)"

section \<open>Identity\<close>

definition identity_text :: "bool \<Rightarrow> dev_t \<Rightarrow> nat \<Rightarrow> nat \<Rightarrow> string" where
  "identity_text block rdev host inode =
     (if block then ''block:'' @ dec (fst rdev) @ '':'' @ dec (snd rdev)
      else ''file:'' @ dec host @ '':'' @ dec inode)"

definition ld_device_matches_identity :: "Device \<Rightarrow> string \<Rightarrow> nat \<Rightarrow> bool" where
  "ld_device_matches_identity device expected_identity expected_size =
     (if expected_size \<noteq> 0 \<and> dev_size_bytes device \<noteq> expected_size then False
      else identity_text (dev_is_block device) (dev_number device) (dev_host device) (dev_inode device)
             = expected_identity)"

text \<open>The same check on an open descriptor, from its status and its size.\<close>

definition ld_fd_matches_identity :: "Status option \<Rightarrow> nat option \<Rightarrow> string \<Rightarrow> nat \<Rightarrow> bool" where
  "ld_fd_matches_identity status size_bytes expected_identity expected_size =
     (case (status, size_bytes) of
        (Some st, Some n) \<Rightarrow>
          (let block = (stat_kind st = BlockDevice) in
           if \<not> block \<and> stat_kind st \<noteq> RegularFile then False
           else if expected_size \<noteq> 0 \<and> n \<noteq> expected_size then False
           else identity_text block (stat_rdev st) (stat_dev st) (stat_ino st) = expected_identity)
      | _ \<Rightarrow> False)"

definition ld_device_open_verified_fd ::
  "OpenAnswers \<Rightarrow> bool \<Rightarrow> string option \<Rightarrow> nat \<Rightarrow> (open_error + Device) res" where
  "ld_device_open_verified_fd a writable expected_identity expected_size =
     bindE (ld_device_try_open a writable) (\<lambda>r.
     case r of
       Inl e \<Rightarrow> Inr (Inl e)
     | Inr device \<Rightarrow>
         (case expected_identity of
            None \<Rightarrow> Inr (Inr device)
          | Some identity \<Rightarrow>
              if \<not> ld_device_matches_identity device identity expected_size then Inr (Inl ESTALE)
              else Inr (Inr device)))"

definition ld_device_is_serial_flash :: "env \<Rightarrow> Device \<Rightarrow> bool" where
  "ld_device_is_serial_flash E device = (take 6 (path_basename E (dev_path device)) = ''mmcblk'')"

end
