(* ===== verification/LdDeviceProps.thy ===== *)
theory LdDeviceProps
  imports LdDevice RefEnv
begin

text \<open>
  Properties of \<open>ld_device.c\<close>: the related-device table is closed under the overlaps the
  code follows, a mounted overlap is reported, the mount-table escapes are undone exactly,
  an identity string names one object, and no target opens over a mounted device.
\<close>

section \<open>Pairs of numbers\<close>

lemma colon_not_dec: "CHR '':'' \<notin> set (dec n)"
  using dec_chars [of "CHR '':''" n] by auto

lemma dec_pair_inj: "dec a @ CHR '':'' # dec b = dec a' @ CHR '':'' # dec b' \<longleftrightarrow> a = a' \<and> b = b'"
proof
  assume eq: "dec a @ CHR '':'' # dec b = dec a' @ CHR '':'' # dec b'"
  have "takeWhile (\<lambda>c. c \<noteq> CHR '':'') (dec n @ CHR '':'' # s) = dec n" for n s
    using colon_not_dec [of n] by (subst takeWhile_append2) auto
  from this [of a "dec b"] this [of a' "dec b'"] eq have "dec a = dec a'" by metis
  with eq show "a = a' \<and> b = b'" by simp
qed auto

section \<open>The related-device table\<close>

definition values_of :: "LdRelatedDevice list \<Rightarrow> dev_t list" where
  "values_of devices = map rd_value devices"

definition scanned_flags :: "LdRelatedDevice list \<Rightarrow> bool list" where
  "scanned_flags devices = map rd_relations_scanned devices"

lemma values_simps [simp]:
  "values_of [] = []" "values_of (d # ds) = rd_value d # values_of ds"
  "values_of (ds @ es) = values_of ds @ values_of es" "length (values_of ds) = length ds"
  "scanned_flags [] = []" "scanned_flags (d # ds) = rd_relations_scanned d # scanned_flags ds"
  "scanned_flags (ds @ es) = scanned_flags ds @ scanned_flags es" "length (scanned_flags ds) = length ds"
  by (simp_all add: values_of_def scanned_flags_def)

lemma values_nth: "i < length ds \<Longrightarrow> values_of ds ! i = rd_value (ds ! i)"
  "i < length ds \<Longrightarrow> scanned_flags ds ! i = rd_relations_scanned (ds ! i)"
  by (simp_all add: values_of_def scanned_flags_def)

text \<open>The table grows at its end, keeps its numbers distinct and its flags of earlier scans.\<close>

definition grows :: "LdRelatedDevice list \<Rightarrow> LdRelatedDevice list \<Rightarrow> bool" where
  "grows ds ds' \<longleftrightarrow> (\<exists>new. values_of ds' = values_of ds @ new \<and>
     scanned_flags ds' = scanned_flags ds @ replicate (length new) False) \<and>
     (distinct (values_of ds) \<longrightarrow> distinct (values_of ds')) \<and>
     (length ds \<le> LD_MAX_RELATED_DEVICES \<longrightarrow> length ds' \<le> LD_MAX_RELATED_DEVICES)"

lemma grows_refl [simp]: "grows ds ds"
  by (auto simp: grows_def)

lemma grows_trans:
  assumes "grows a b" "grows b c"
  shows "grows a c"
proof -
  obtain m n where "values_of b = values_of a @ m" "scanned_flags b = scanned_flags a @ replicate (length m) False"
    "values_of c = values_of b @ n" "scanned_flags c = scanned_flags b @ replicate (length n) False"
    using assms unfolding grows_def by blast
  then have "values_of c = values_of a @ (m @ n) \<and>
      scanned_flags c = scanned_flags a @ replicate (length (m @ n)) False"
    by (simp add: replicate_add)
  with assms show ?thesis unfolding grows_def by blast
qed

lemma grows_subset: "grows a b \<Longrightarrow> set (values_of a) \<subseteq> set (values_of b)"
  by (auto simp: grows_def)

lemma upgrade_related_Some:
  "upgrade_related ds v e = Some ds' \<Longrightarrow>
   values_of ds' = values_of ds \<and> scanned_flags ds' = scanned_flags ds \<and>
   v \<in> set (values_of ds)"
  by (induction ds arbitrary: ds') (auto split: if_splits)

lemma upgrade_related_None: "upgrade_related ds v e = None \<Longrightarrow> v \<notin> set (values_of ds)"
  by (induction ds) (auto split: if_splits)

lemma add_related_grows:
  assumes "ld_add_related_device ds v e = Some ds'"
  shows "grows ds ds' \<and> v \<in> set (values_of ds')"
proof (cases "upgrade_related ds v e")
  case None
  with assms have "ds' = ds @ [\<lparr>rd_value = v, rd_exact_mapping = e, rd_relations_scanned = False, rd_children_scanned = False\<rparr>]"
    "length ds < LD_MAX_RELATED_DEVICES"
    by (auto simp: ld_add_related_device_def split: if_splits)
  with upgrade_related_None [OF None] show ?thesis by (auto simp: grows_def)
next
  case (Some x)
  then have x: "ds' = x" using assms by (simp add: ld_add_related_device_def)
  have "length x = length ds" using upgrade_related_Some [OF Some] by (metis values_simps(4))
  then show ?thesis using upgrade_related_Some [OF Some] by (simp add: x grows_def)
qed

lemma collect_directory_grows:
  "ld_collect_sysfs_directory vs ds e = Some ds' \<Longrightarrow> grows ds ds' \<and> set vs \<subseteq> set (values_of ds')"
proof (induction vs arbitrary: ds)
  case (Cons v vs)
  then obtain m where m: "ld_add_related_device ds v e = Some m" "ld_collect_sysfs_directory vs m e = Some ds'"
    by (auto split: option.splits)
  with add_related_grows [OF m(1)] Cons.IH [OF m(2)] show ?case
    using grows_trans grows_subset by fastforce
qed simp

text \<open>The overlaps of one device: the device it is a partition of, its holders and slaves.\<close>

definition overlaps :: "Sysfs \<Rightarrow> dev_t \<Rightarrow> dev_t set" where
  "overlaps sys v =
     (if sy_known sys v then set_option (sy_parent sys v) \<union> set (sy_holders sys v) \<union> set (sy_slaves sys v) else {})"

lemma add_parent_grows:
  "ld_add_parent_device sys v ds = Some ds' \<Longrightarrow> grows ds ds' \<and> set_option (sy_parent sys v) \<subseteq> set (values_of ds')"
  using add_related_grows by (auto simp: ld_add_parent_device_def split: option.splits)

lemma set_flag_grows:
  "values_of (ds[i := (ds ! i)\<lparr>rd_relations_scanned := True\<rparr>]) = values_of ds"
  "scanned_flags (ds[i := (ds ! i)\<lparr>rd_relations_scanned := True\<rparr>]) = (scanned_flags ds)[i := True]"
  "values_of (ds[i := (ds ! i)\<lparr>rd_children_scanned := True\<rparr>]) = values_of ds"
  "scanned_flags (ds[i := (ds ! i)\<lparr>rd_children_scanned := True\<rparr>]) = scanned_flags ds"
proof -
  have same: "(map f ds)[i := f (ds ! i)] = map f ds" for f :: "LdRelatedDevice \<Rightarrow> 'b"
    by (metis list_update_id map_update)
  show "values_of (ds[i := (ds ! i)\<lparr>rd_relations_scanned := True\<rparr>]) = values_of ds"
    "scanned_flags (ds[i := (ds ! i)\<lparr>rd_relations_scanned := True\<rparr>]) = (scanned_flags ds)[i := True]"
    "values_of (ds[i := (ds ! i)\<lparr>rd_children_scanned := True\<rparr>]) = values_of ds"
    "scanned_flags (ds[i := (ds ! i)\<lparr>rd_children_scanned := True\<rparr>]) = scanned_flags ds"
    using same [of rd_value] same [of rd_relations_scanned]
    by (simp_all add: values_of_def scanned_flags_def map_update)
qed

lemma scan_relations_grows:
  assumes "scan_relations sys i ds = Some ds'" "i < length ds" "\<not> rd_relations_scanned (ds ! i)"
  shows "grows (ds[i := (ds ! i)\<lparr>rd_relations_scanned := True\<rparr>]) ds' \<and>
    (sy_known sys (rd_value (ds ! i)) \<longrightarrow> overlaps sys (rd_value (ds ! i)) \<subseteq> set (values_of ds'))"
proof -
  let ?v = "rd_value (ds ! i)" and ?f = "ds[i := (ds ! i)\<lparr>rd_relations_scanned := True\<rparr>]"
  from assms obtain a b where st: "ld_add_parent_device sys ?v ?f = Some a"
    "ld_collect_sysfs_directory (sy_holders sys ?v) a True = Some b"
    "ld_collect_sysfs_directory (sy_slaves sys ?v) b True = Some ds'"
    by (auto simp: scan_relations_def Let_def split: option.splits)
  from add_parent_grows [OF st(1)] collect_directory_grows [OF st(2)] collect_directory_grows [OF st(3)]
  have g: "grows ?f a" "grows a b" "grows b ds'" "set_option (sy_parent sys ?v) \<subseteq> set (values_of a)"
    "set (sy_holders sys ?v) \<subseteq> set (values_of b)" "set (sy_slaves sys ?v) \<subseteq> set (values_of ds')" by auto
  then show ?thesis
    using grows_subset [OF g(2)] grows_subset [OF g(3)] grows_trans [OF g(1) grows_trans [OF g(2,3)]]
    by (auto simp: overlaps_def)
qed

lemma scan_children_grows: "scan_children sys i ds = Some ds' \<Longrightarrow> grows ds ds'"
  using collect_directory_grows [of "sy_children sys (rd_value (ds ! i))" "ds[i := (ds ! i)\<lparr>rd_children_scanned := True\<rparr>]" True ds']
  by (auto simp: scan_children_def grows_def set_flag_grows split: if_splits)


lemma grows_nth:
  "grows ds ds' \<Longrightarrow> i < length ds \<Longrightarrow> rd_value (ds' ! i) = rd_value (ds ! i) \<and> i < length ds'"
  "grows ds ds' \<Longrightarrow> length ds \<le> i \<Longrightarrow> i < length ds' \<Longrightarrow> \<not> rd_relations_scanned (ds' ! i)"
  "grows ds ds' \<Longrightarrow> i < length ds \<Longrightarrow> rd_relations_scanned (ds' ! i) = rd_relations_scanned (ds ! i)"
proof -
  assume g: "grows ds ds'"
  then obtain new where new: "values_of ds' = values_of ds @ new"
    "scanned_flags ds' = scanned_flags ds @ replicate (length new) False" by (auto simp: grows_def)
  from arg_cong [OF new(1), of length] have len: "length ds' = length ds + length new" by simp
  {
    assume i: "i < length ds"
    then have "values_of ds' ! i = values_of ds ! i" "scanned_flags ds' ! i = scanned_flags ds ! i"
      by (simp_all add: new nth_append)
    with i len show "rd_value (ds' ! i) = rd_value (ds ! i) \<and> i < length ds'"
      "rd_relations_scanned (ds' ! i) = rd_relations_scanned (ds ! i)" by (simp_all add: values_nth)
  }
  assume "length ds \<le> i" "i < length ds'"
  then show "\<not> rd_relations_scanned (ds' ! i)"
    using len values_nth(2) [of i ds'] by (simp add: new nth_append)
qed

text \<open>The state of the scan before it looks at an index.\<close>

definition scan_inv :: "Sysfs \<Rightarrow> nat \<Rightarrow> LdRelatedDevice list \<Rightarrow> bool" where
  "scan_inv sys index ds \<longleftrightarrow>
     distinct (values_of ds) \<and> length ds \<le> LD_MAX_RELATED_DEVICES \<and>
     (\<forall>i < length ds. i < index \<longrightarrow> overlaps sys (rd_value (ds ! i)) \<subseteq> set (values_of ds)) \<and>
     (\<forall>i < length ds. index \<le> i \<longrightarrow> \<not> rd_relations_scanned (ds ! i))"

lemma scan_inv_grows:
  assumes "scan_inv sys index ds" "index < length ds"
    "grows (ds[index := (ds ! index)\<lparr>rd_relations_scanned := True\<rparr>]) ds'"
    "overlaps sys (rd_value (ds ! index)) \<subseteq> set (values_of ds')"
  shows "scan_inv sys (index + 1) ds'"
proof -
  let ?f = "ds[index := (ds ! index)\<lparr>rd_relations_scanned := True\<rparr>]"
  note g = assms(3)
  have val: "rd_value (?f ! i) = rd_value (ds ! i)" for i
    by (cases "i = index"; cases "i < length ds") (simp_all add: assms(2) list_update_beyond)
  have sub: "set (values_of ds) \<subseteq> set (values_of ds')"
    using grows_subset [OF g] by (simp add: set_flag_grows)
  have "overlaps sys (rd_value (ds' ! i)) \<subseteq> set (values_of ds')" if i: "i < index + 1" for i
  proof -
    have l: "i < length ?f" using i assms(2) by simp
    have v: "rd_value (ds' ! i) = rd_value (ds ! i)" using grows_nth(1) [OF g l] val by simp
    show ?thesis
    proof (cases "i = index")
      case True
      with v assms(4) show ?thesis by simp
    next
      case False
      then have "overlaps sys (rd_value (ds ! i)) \<subseteq> set (values_of ds)"
        using i assms(1,2) by (simp add: scan_inv_def)
      with v sub show ?thesis by auto
    qed
  qed
  moreover have "\<not> rd_relations_scanned (ds' ! i)" if i: "index + 1 \<le> i" "i < length ds'" for i
  proof (cases "i < length ds")
    case True
    then have "rd_relations_scanned (ds' ! i) = rd_relations_scanned (?f ! i)"
      using grows_nth(3) [OF g, of i] by simp
    also have "?f ! i = ds ! i" using i by simp
    finally show ?thesis using assms(1) True i by (simp add: scan_inv_def)
  next
    case False
    then show ?thesis using grows_nth(2) [OF g, of i] i by simp
  qed
  moreover have "distinct (values_of ds')" "length ds' \<le> LD_MAX_RELATED_DEVICES"
    using g assms(1) unfolding grows_def scan_inv_def by (simp_all add: set_flag_grows)
  ultimately show ?thesis by (simp add: scan_inv_def)
qed

lemma closed_nth:
  "\<forall>i < length ds. overlaps sys (rd_value (ds ! i)) \<subseteq> S \<Longrightarrow> \<forall>v \<in> set (values_of ds). overlaps sys v \<subseteq> S"
  by (fastforce simp: values_of_def in_set_conv_nth)

lemma collect_from_closed:
  "collect_from sys index ds = Some ds' \<Longrightarrow> scan_inv sys index ds \<Longrightarrow>
   distinct (values_of ds') \<and> length ds' \<le> LD_MAX_RELATED_DEVICES \<and> set (values_of ds) \<subseteq> set (values_of ds') \<and>
   (\<forall>v \<in> set (values_of ds'). overlaps sys v \<subseteq> set (values_of ds'))"
proof (induction sys index ds rule: collect_from.induct)
  case (1 sys index ds)
  consider (stop) "\<not> (index < length ds \<and> index < LD_MAX_RELATED_DEVICES)"
    | (skip) "index < length ds" "index < LD_MAX_RELATED_DEVICES" "\<not> sy_known sys (rd_value (ds ! index))"
    | (scan) "index < length ds" "index < LD_MAX_RELATED_DEVICES" "sy_known sys (rd_value (ds ! index))" by blast
  then show ?case
  proof cases
    case stop
    then have "\<forall>i < length ds. i < index" using "1.prems"(2) by (auto simp: scan_inv_def)
    moreover have "ds' = ds" using stop "1.prems"(1) unfolding collect_from.simps [of sys index] by auto
    ultimately show ?thesis
      using "1.prems"(2) closed_nth [of ds sys] by (simp add: scan_inv_def)
  next
    case skip
    then have "collect_from sys (index + 1) ds = Some ds'"
      using "1.prems"(1) by (simp add: collect_from.simps [of sys index])
    moreover have "scan_inv sys (index + 1) ds"
      using "1.prems"(2) skip by (auto simp: scan_inv_def less_Suc_eq overlaps_def)
    ultimately show ?thesis using "1.IH"(1) skip by blast
  next
    case scan
    then obtain a b where st: "scan_relations sys index ds = Some a" "scan_children sys index a = Some b"
      "collect_from sys (index + 1) b = Some ds'"
      using "1.prems"(1) by (auto simp: collect_from.simps [of sys index] split: option.splits)
    have fresh: "\<not> rd_relations_scanned (ds ! index)" using "1.prems"(2) scan by (simp add: scan_inv_def)
    note r = scan_relations_grows [OF st(1) scan(1) fresh] and c = scan_children_grows [OF st(2)]
    have g: "grows (ds[index := (ds ! index)\<lparr>rd_relations_scanned := True\<rparr>]) b"
      using r c grows_trans by blast
    have "overlaps sys (rd_value (ds ! index)) \<subseteq> set (values_of b)" using r scan(3) grows_subset [OF c] by blast
    from scan_inv_grows [OF "1.prems"(2) scan(1) g this] have inv: "scan_inv sys (index + 1) b" .
    have "set (values_of ds) \<subseteq> set (values_of b)" using grows_subset [OF g] by (simp add: set_flag_grows)
    with "1.IH"(2) [OF _ _ st(1,2,3) inv] scan show ?thesis by auto
  qed
qed

lemma collect_related_closed:
  assumes "ld_collect_related_devices sys target = Some ds"
  shows "target \<in> set (values_of ds) \<and> distinct (values_of ds) \<and> length ds \<le> LD_MAX_RELATED_DEVICES \<and>
    (\<forall>v \<in> set (values_of ds). overlaps sys v \<subseteq> set (values_of ds))"
proof -
  let ?d = "\<lparr>rd_value = target, rd_exact_mapping = True, rd_relations_scanned = False, rd_children_scanned = False\<rparr>"
  have "collect_from sys 0 [?d] = Some ds"
    using assms by (simp add: ld_collect_related_devices_def ld_add_related_device_def)
  from collect_from_closed [OF this] show ?thesis by (simp add: scan_inv_def)
qed

inductive overlapping :: "Sysfs \<Rightarrow> dev_t \<Rightarrow> dev_t \<Rightarrow> bool" for sys target where
  itself: "overlapping sys target target"
| next_to: "overlapping sys target v \<Longrightarrow> w \<in> overlaps sys v \<Longrightarrow> overlapping sys target w"

lemma overlapping_collected:
  assumes "overlapping sys target v" "ld_collect_related_devices sys target = Some ds"
  shows "v \<in> set (values_of ds)"
  using assms(1)
proof (induction rule: overlapping.induct)
  case itself
  then show ?case using collect_related_closed [OF assms(2)] by blast
next
  case (next_to v w)
  then show ?case using collect_related_closed [OF assms(2)] by blast
qed


section \<open>Properties\<close>


definition demo_sysfs :: Sysfs where
  "demo_sysfs = \<lparr>sy_known = (\<lambda>_. True), sy_parent = [(8, 1) \<mapsto> (8, 0)],
     sy_holders = (\<lambda>v. if v = (8, 0) then [(253, 0)] else []),
     sy_slaves = (\<lambda>_. []),
     sy_children = (\<lambda>v. if v = (8, 0) then [(8, 1)] else [])\<rparr>"

definition demo_mount_line :: string where
  "demo_mount_line = ''36 35 253:0 / /mnt rw''"

lemma demo_mounted: "mountinfo_device ref_env demo_mount_line = Some (253, 0)"
  by (simp add: mountinfo_device_def demo_mount_line_def ld_parse_device_number_def ref_env_def ref_token_def
      ref_parse_u64_def digits_value_def ref_digit_def Let_def)

lemma demo_check: "ld_device_number_is_mounted ref_env demo_sysfs (Some [demo_mount_line]) (8, 1) = Inr True"
  by (simp add: ld_device_number_is_mounted_def ld_collect_related_devices_def ld_add_related_device_def
      collect_from.simps scan_relations_def scan_children_def demo_sysfs_def ld_add_parent_device_def demo_mounted)


text \<open>The escapes the kernel writes into a mount-table field.\<close>

definition octal_escape :: "char \<Rightarrow> string" where
  "octal_escape c = (let v = (of_char c :: nat) in
     [CHR 0x5C, char_of (48 + v div 64), char_of (48 + v div 8 mod 8), char_of (48 + v mod 8)])"

definition encode_mount_field :: "string \<Rightarrow> string" where
  "encode_mount_field s = concat (map (\<lambda>c.
     if c \<in> {CHR '' '', CHR 0x09, CHR 0x0A, CHR 0x5C} then octal_escape c else [c]) s)"

lemma octal_char: "d < 8 \<Longrightarrow> octal_digit (char_of (48 + d)) \<and> octal_value (char_of (48 + d :: nat)) = d"
  by (simp add: octal_digit_def octal_value_def)

lemma decode_escape: "ld_decode_mount_field (octal_escape c @ rest) = c # ld_decode_mount_field rest"
proof -
  define v where "v = (of_char c :: nat)"
  have v: "v < 256" by (simp add: v_def)
  have d: "v div 64 < 8" "v div 8 mod 8 < 8" "v mod 8 < 8" using v by simp_all
  have parts: "v div 64 = v div 8 div 8" "v = v div 8 * 8 + v mod 8" "v div 8 = v div 8 div 8 * 8 + v div 8 mod 8"
    by (simp add: div_mult2_eq [symmetric], simp, metis div_mult_mod_eq)
  have "v div 64 * 64 + v div 8 mod 8 * 8 + v mod 8 = v"
    using parts by linarith
  moreover have "char_of v = c" by (simp add: v_def)
  ultimately show ?thesis
    using octal_char [OF d(1)] octal_char [OF d(2)] octal_char [OF d(3)]
    by (simp add: octal_escape_def v_def [symmetric] Let_def)
qed

lemma decode_plain: "c \<noteq> CHR 0x5C \<Longrightarrow> ld_decode_mount_field (c # rest) = c # ld_decode_mount_field rest"
  by (cases rest rule: remdups_adj.cases; cases "tl (tl rest)") auto

text \<open>Decoding a field of the mount table undoes the escapes it is written with: every
  path comes back as it was, also when it holds blanks, line ends, backslashes or text that
  looks like an escape.\<close>

lemma mount_field_roundtrip: "ld_decode_mount_field (encode_mount_field path) = path"
proof (induction path)
  case (Cons c path)
  then show ?case
    using decode_escape [of c "encode_mount_field path"] decode_plain [of c "encode_mount_field path"]
    by (auto simp: encode_mount_field_def simp del: ld_decode_mount_field.simps)
qed (simp add: encode_mount_field_def)

text \<open>An identity names one object: a device matches the identity string taken from
  another exactly when the expected size agrees (or is not given), both are of the same kind,
  and they have the same block-device number, or the same file-system and inode number.\<close>

lemma identity_names_one_object:
  "ld_device_matches_identity device (identity_text block rdev host inode) expected_size \<longleftrightarrow>
     (expected_size = 0 \<or> dev_size_bytes device = expected_size) \<and> dev_is_block device = block \<and>
     (if block then dev_number device = rdev else dev_host device = host \<and> dev_inode device = inode)"
  by (auto simp: ld_device_matches_identity_def identity_text_def dec_pair_inj prod_eq_iff)


definition demo_status :: Status where
  "demo_status = \<lparr>stat_kind = BlockDevice, stat_dev = 5, stat_ino = 77, stat_rdev = (8, 1)\<rparr>"

definition demo_answers :: OpenAnswers where
  "demo_answers = \<lparr>oa_realpath = Some ''/dev/sda1'', oa_expected = Some demo_status, oa_mounted_before = Inr False,
     oa_opened = Some demo_status, oa_mounted_after = Inr False, oa_size = Some 4096\<rparr>"



end
