(* ===== verification/NtfsCommon.thy ===== *)
theory NtfsCommon
  imports LdDevice
begin

text \<open>
  \<open>ntfs_common.c\<close> and the types of \<open>ntfs_native.h\<close>: run lists and their mapping-pairs
  encoding, update-sequence fixups, metadata streams, MFT records and their attributes, the
  allocation bitmap and the volume flags. A failing function leaves a message and returns
  \<open>-1\<close>: \<open>Inl (Fail message)\<close>, where a text taken from \<open>errno\<close> is left off. Allocations
  succeed.
\<close>

section \<open>Types and constants\<close>

abbreviation (input) NTFS_ATTR_ATTRIBUTE_LIST :: nat where "NTFS_ATTR_ATTRIBUTE_LIST \<equiv> 0x20"
abbreviation (input) NTFS_ATTR_FILE_NAME :: nat where "NTFS_ATTR_FILE_NAME \<equiv> 0x30"
abbreviation (input) NTFS_ATTR_VOLUME_INFORMATION :: nat where "NTFS_ATTR_VOLUME_INFORMATION \<equiv> 0x70"
abbreviation (input) NTFS_ATTR_DATA :: nat where "NTFS_ATTR_DATA \<equiv> 0x80"
abbreviation (input) NTFS_ATTR_INDEX_ALLOCATION :: nat where "NTFS_ATTR_INDEX_ALLOCATION \<equiv> 0xA0"
abbreviation (input) NTFS_VOLUME_DIRTY :: nat where "NTFS_VOLUME_DIRTY \<equiv> 0x0001"
abbreviation (input) NTFS_VOLUME_UNSAFE_MASK :: nat where "NTFS_VOLUME_UNSAFE_MASK \<equiv> 0xc037"
abbreviation (input) NTFS_VOLUME_ACCEPTED_MASK :: nat where "NTFS_VOLUME_ACCEPTED_MASK \<equiv> 0xc0bf"

record NtfsRun =
  nr_lcn :: nat
  nr_length :: nat
  nr_sparse :: bool

record NtfsVolume =
  nv_device_size :: nat
  nv_volume_bytes :: nat
  nv_bytes_per_sector :: nat
  nv_sectors_per_cluster :: nat
  nv_cluster_size :: nat
  nv_total_clusters :: nat
  nv_mft_lcn :: nat
  nv_mftmirr_lcn :: nat
  nv_record_size :: nat
  nv_serial :: bytes

record NtfsAttribute =
  na_offset :: nat
  na_length :: nat
  na_type :: nat
  na_flags :: nat
  na_nonresident :: bool
  na_lowest_vcn :: nat
  na_highest_vcn :: nat
  na_run_offset :: nat
  na_data_size :: nat
  na_allocated_size :: nat
  na_initialized_size :: nat
  na_runs :: "NtfsRun list"
  na_name :: string

text \<open>\<open>bitmap_bytes\<close> is the length of \<open>nl_bitmap\<close>.\<close>

record NtfsLayout =
  nl_mft_runs :: "NtfsRun list"
  nl_mft_data_size :: nat
  nl_bitmap_runs :: "NtfsRun list"
  nl_bitmap_data_size :: nat
  nl_bitmap :: bytes

section \<open>Fields of a record\<close>

definition ntfs_u16 :: "env \<Rightarrow> bytes \<Rightarrow> nat \<Rightarrow> nat res" where
  "ntfs_u16 E b offset =
     (if offset + 2 \<le> length b then Inr (load_le16 E (read_at offset 2 b)) else Inl (MemFault ''ntfs_u16''))"

definition ntfs_u32 :: "env \<Rightarrow> bytes \<Rightarrow> nat \<Rightarrow> nat res" where
  "ntfs_u32 E b offset =
     (if offset + 4 \<le> length b then Inr (load_le32 E (read_at offset 4 b)) else Inl (MemFault ''ntfs_u32''))"

definition ntfs_u64 :: "env \<Rightarrow> bytes \<Rightarrow> nat \<Rightarrow> nat res" where
  "ntfs_u64 E b offset =
     (if offset + 8 \<le> length b then Inr (load_le64 E (read_at offset 8 b)) else Inl (MemFault ''ntfs_u64''))"

definition ntfs_put_u16 :: "env \<Rightarrow> bytes \<Rightarrow> nat \<Rightarrow> nat \<Rightarrow> bytes res" where
  "ntfs_put_u16 E b offset v =
     (if offset + 2 \<le> length b then Inr (patch b offset (store_le16 E v)) else Inl (MemFault ''ntfs_put_u16''))"

definition ntfs_put_u64 :: "env \<Rightarrow> bytes \<Rightarrow> nat \<Rightarrow> nat \<Rightarrow> bytes res" where
  "ntfs_put_u64 E b offset v =
     (if offset + 8 \<le> length b then Inr (patch b offset (store_le64 E v)) else Inl (MemFault ''ntfs_put_u64''))"

section \<open>Run lists\<close>

definition extends_run :: "env \<Rightarrow> NtfsRun \<Rightarrow> nat \<Rightarrow> bool \<Rightarrow> bool" where
  "extends_run E prior lcn sparse \<longleftrightarrow>
     nr_sparse prior = sparse \<and> (sparse \<or> u64_add_checked E (nr_lcn prior) (nr_length prior) = Some lcn)"

text \<open>\<open>None\<close> is the \<open>-1\<close> return.\<close>

definition ntfs_runs_push :: "env \<Rightarrow> NtfsRun list \<Rightarrow> nat \<Rightarrow> nat \<Rightarrow> bool \<Rightarrow> NtfsRun list option res" where
  "ntfs_runs_push E runs lcn len sparse =
     (if len = 0 then Inr (Some runs)
      else if runs \<noteq> [] \<and> extends_run E (last runs) lcn sparse then
        (case u64_add_checked E (nr_length (last runs)) len of
           None \<Rightarrow> Inr None
         | Some combined \<Rightarrow> Inr (Some (butlast runs @ [(last runs)\<lparr>nr_length := combined\<rparr>])))
      else if \<not> array_reserve E 24 (length runs + 1) then Inl (Die ''cannot grow NTFS run list'')
      else Inr (Some (runs @ [\<lparr>nr_lcn = lcn, nr_length = len, nr_sparse = sparse\<rparr>])))"

definition ntfs_run_clusters :: "NtfsRun list \<Rightarrow> nat" where
  "ntfs_run_clusters runs = foldl (\<lambda>n r. if nr_sparse r then n else u64 (n + nr_length r)) 0 runs"

definition ntfs_fragment_count :: "NtfsRun list \<Rightarrow> nat" where
  "ntfs_fragment_count runs = length (filter (\<lambda>r. \<not> nr_sparse r) runs)"

text \<open>Up to eight bytes, little-endian, sign-extended and read as an \<open>int64_t\<close>.\<close>

definition unsigned_bytes :: "bytes \<Rightarrow> nat" where
  "unsigned_bytes bs = foldl (\<lambda>v i. v OR push_bit (8 * i) (unat (bs ! i))) 0 [0..<length bs]"

definition int64 :: "nat \<Rightarrow> int" where
  "int64 v = (if v < 9223372036854775808 then int v else int v - 18446744073709551616)"

definition decode_signed :: "bytes \<Rightarrow> int" where
  "decode_signed bs =
     (let v = unsigned_bytes bs;
          v = (if length bs < 8 \<and> unat (bs ! (length bs - 1)) AND 0x80 \<noteq> 0
               then v OR u64 (push_bit (8 * length bs) UINT64_MAX) else v)
      in int64 v)"

definition push_or_overflow :: "env \<Rightarrow> NtfsRun list \<Rightarrow> nat \<Rightarrow> nat \<Rightarrow> bool \<Rightarrow> string \<Rightarrow> NtfsRun list res" where
  "push_or_overflow E runs lcn len sparse message =
     bindE (ntfs_runs_push E runs lcn len sparse) (\<lambda>pushed.
     case pushed of None \<Rightarrow> Inl (Fail message) | Some runs \<Rightarrow> Inr runs)"

function decode_runs :: "env \<Rightarrow> bytes \<Rightarrow> nat \<Rightarrow> nat \<Rightarrow> NtfsRun list \<Rightarrow> NtfsRun list res" where
  "decode_runs E b position previous_lcn runs =
     (if position \<ge> length b then Inl (Fail ''unterminated NTFS mapping-pairs array'')
      else
        let header = unat (b ! position) in
        if header = 0 then Inr runs
        else
          let length_size = header AND 0x0f; offset_size = drop_bit 4 header in
          if length_size = 0 \<or> length_size > 8 \<or> offset_size > 8 \<or>
             position + 1 + length_size + offset_size > length b
          then Inl (Fail ''invalid NTFS mapping-pairs array'')
          else
            let signed_length = decode_signed (read_at (position + 1) length_size b) in
            if signed_length \<le> 0 then Inl (Fail ''invalid non-positive NTFS run length'')
            else if offset_size = 0 then
              bindE (push_or_overflow E runs 0 (nat signed_length) True ''NTFS runlist length overflow'') (\<lambda>runs.
              decode_runs E b (position + 1 + length_size) previous_lcn runs)
            else
              let delta = decode_signed (read_at (position + 1 + length_size) offset_size b) in
              if delta < 0 \<and> nat (- delta) > previous_lcn
              then Inl (Fail ''invalid negative NTFS logical cluster number'')
              else
                let lcn = (if delta < 0 then previous_lcn - nat (- delta) else u64 (previous_lcn + nat delta)) in
                bindE (push_or_overflow E runs lcn (nat signed_length) False ''NTFS runlist length overflow'') (\<lambda>runs.
                decode_runs E b (position + 1 + length_size + offset_size) lcn runs))"
  by pat_completeness auto
termination by (relation "measure (\<lambda>(E, b, position, previous_lcn, runs). length b - position)") auto

declare decode_runs.simps [simp del]

definition ntfs_decode_runlist :: "env \<Rightarrow> bytes \<Rightarrow> NtfsRun list res" where
  "ntfs_decode_runlist E b = decode_runs E b 0 0 []"

fun low_bytes :: "nat \<Rightarrow> bytes" where
  "low_bytes v = (if v = 0 then [] else word_of_nat v # low_bytes (v div 256))"

declare low_bytes.simps [simp del]

definition unsigned_min_bytes :: "nat \<Rightarrow> bytes" where
  "unsigned_min_bytes v =
     (if v = 0 then []
      else let bs = low_bytes v in if unat (last bs) AND 0x80 \<noteq> 0 then bs @ [0] else bs)"

definition raw_bytes :: "int \<Rightarrow> nat \<Rightarrow> bytes" where
  "raw_bytes v n = map (\<lambda>i. word_of_nat (drop_bit (8 * i) (nat (v mod 18446744073709551616)))) [0..<n]"

definition signed_min_bytes :: "int \<Rightarrow> bytes" where
  "signed_min_bytes v =
     (case find (\<lambda>n. decode_signed (raw_bytes v n) = v) [1..<9] of None \<Rightarrow> [] | Some n \<Rightarrow> raw_bytes v n)"

text \<open>The bytes stored at the start of the output; \<open>used\<close> is their number.\<close>

definition ntfs_encode_single_run :: "nat \<Rightarrow> nat \<Rightarrow> nat \<Rightarrow> bytes res" where
  "ntfs_encode_single_run lcn len capacity =
     (let length_bytes = unsigned_min_bytes len; ls = length length_bytes in
      if ls = 0 \<or> ls > 8 \<or> lcn > 9223372036854775807
      then Inl (Fail ''NTFS contiguous run cannot be encoded'')
      else
        let offset_bytes = signed_min_bytes (int lcn); os = length offset_bytes in
        if os = 0 \<or> 2 + ls + os > capacity
        then Inl (Fail ''NTFS MFT record lacks mapping-pair capacity for the canonical run'')
        else Inr (word_of_nat (push_bit 4 os OR ls) # length_bytes @ offset_bytes @ [0]))"

section \<open>Update-sequence fixups\<close>

text \<open>The last word of a sector that ends at \<open>end\<close>.\<close>

definition sector_tail :: "nat \<Rightarrow> nat res" where
  "sector_tail sector_end = (if sector_end < 2 then Inl (MemFault ''sector tail'') else Inr (sector_end - 2))"

definition usa_geometry :: "env \<Rightarrow> bytes \<Rightarrow> nat \<Rightarrow> (nat \<times> nat) res" where
  "usa_geometry E b sector_size =
     (if sector_size = 0 \<or> length b mod sector_size \<noteq> 0
      then Inl (Fail ''invalid NTFS update-sequence geometry'')
      else
        bindE (ntfs_u16 E b 4) (\<lambda>usa_off.
        bindE (ntfs_u16 E b 6) (\<lambda>usa_count.
        if usa_count \<noteq> length b div sector_size + 1 \<or> usa_off + usa_count * 2 > length b
        then Inl (Fail ''invalid NTFS update-sequence array'')
        else Inr (usa_off, usa_count))))"

definition restore_tail :: "env \<Rightarrow> nat \<Rightarrow> nat \<Rightarrow> nat \<Rightarrow> nat \<Rightarrow> bytes \<Rightarrow> bytes res" where
  "restore_tail E sector_size usa_off usn index fixed =
     bindE (sector_tail (index * sector_size)) (\<lambda>tail.
     bindE (ntfs_u16 E fixed tail) (\<lambda>found.
     if found \<noteq> usn then Inl (Fail ''NTFS MFT update-sequence mismatch'')
     else
       bindE (ntfs_u16 E fixed (usa_off + index * 2)) (\<lambda>saved.
       ntfs_put_u16 E fixed tail saved)))"

definition ntfs_apply_fixups :: "env \<Rightarrow> bytes \<Rightarrow> nat \<Rightarrow> bytes res" where
  "ntfs_apply_fixups E raw sector_size =
     bindE (usa_geometry E raw sector_size) (\<lambda>(usa_off, usa_count).
     bindE (ntfs_u16 E raw usa_off) (\<lambda>usn.
     foldE (restore_tail E sector_size usa_off usn) [1..<usa_count] raw))"

definition stamp_tail :: "env \<Rightarrow> nat \<Rightarrow> nat \<Rightarrow> nat \<Rightarrow> nat \<Rightarrow> bytes \<Rightarrow> bytes res" where
  "stamp_tail E sector_size usa_off usn index raw =
     bindE (sector_tail (index * sector_size)) (\<lambda>tail.
     bindE (ntfs_u16 E raw tail) (\<lambda>original.
     bindE (ntfs_put_u16 E raw (usa_off + index * 2) original) (\<lambda>raw.
     ntfs_put_u16 E raw tail usn)))"

definition ntfs_prepare_fixups :: "env \<Rightarrow> bytes \<Rightarrow> nat \<Rightarrow> bytes res" where
  "ntfs_prepare_fixups E fixed sector_size =
     bindE (usa_geometry E fixed sector_size) (\<lambda>(usa_off, usa_count).
     bindE (ntfs_u16 E fixed usa_off) (\<lambda>prior.
     let usn = u16 (prior + 1); usn = (if usn = 0 then 1 else usn) in
     bindE (ntfs_put_u16 E fixed usa_off usn) (\<lambda>raw.
     foldE (stamp_tail E sector_size usa_off usn) [1..<usa_count] raw)))"

end
