(* ===== verification/NtfsRecords.thy ===== *)
theory NtfsRecords
  imports NtfsCommon
begin

text \<open>
  The second half of \<open>ntfs_common.c\<close>: opening a volume, metadata streams over run lists, MFT
  records, attributes, the layout (\<open>$MFT\<close> and \<open>$Bitmap\<close>) and the dirty flag.
\<close>

section \<open>Opening a volume\<close>

definition power_of_two :: "nat \<Rightarrow> bool" where
  "power_of_two n \<longleftrightarrow> n AND (n - 1) = 0"

text \<open>A negative size byte is the exponent of a power of two.\<close>

definition record_size_of :: "nat \<Rightarrow> nat \<Rightarrow> nat res" where
  "record_size_of encoded cluster =
     (if encoded \<ge> 128 then
        (if 256 - encoded \<ge> 64 then Inl (MemFault ''shift by 64 or more'') else Inr (push_bit (256 - encoded) 1))
      else Inr (encoded * cluster))"

definition ntfs_parse_boot :: "env \<Rightarrow> bytes \<Rightarrow> nat res \<Rightarrow> NtfsVolume res" where
  "ntfs_parse_boot E boot device_bytes =
     (if read_at 3 8 boot \<noteq> map word_of_nat (text_bytes ''NTFS    '') \<or> boot ! 510 \<noteq> 0x55 \<or> boot ! 511 \<noteq> 0xaa
      then Inl (Fail ''target does not contain a valid NTFS boot sector'')
      else
        bindE (ntfs_u16 E boot 11) (\<lambda>bps.
        let spc = unat (boot ! 13) in
        if bps < 256 \<or> bps > 4096 \<or> \<not> power_of_two bps \<or> spc = 0 \<or> \<not> power_of_two spc
        then Inl (Fail ''invalid NTFS sector or cluster geometry'')
        else
          let cluster = bps * spc in
          if cluster > 65536 then Inl (Fail ''unsupported NTFS cluster size'')
          else
            bindE (ntfs_u64 E boot 40) (\<lambda>sectors.
            let clusters = sectors div spc in
            bindE device_bytes (\<lambda>device_size.
            case u64_multiply_checked E sectors bps of
              None \<Rightarrow> Inl (Fail ''NTFS volume boundary exceeds the target device'')
            | Some volume_bytes \<Rightarrow>
                if sectors = 0 \<or> clusters = 0 \<or> volume_bytes > device_size
                then Inl (Fail ''NTFS volume boundary exceeds the target device'')
                else
                  bindE (record_size_of (unat (boot ! 64)) cluster) (\<lambda>record_size.
                  if record_size < 512 \<or> record_size > 1024 * 1024 \<or> record_size mod bps \<noteq> 0
                  then Inl (Fail ''invalid NTFS MFT record size'')
                  else
                    bindE (ntfs_u64 E boot 48) (\<lambda>mft.
                    bindE (ntfs_u64 E boot 56) (\<lambda>mirror.
                    Inr \<lparr>nv_device_size = device_size, nv_volume_bytes = volume_bytes, nv_bytes_per_sector = bps,
                         nv_sectors_per_cluster = spc, nv_cluster_size = cluster, nv_total_clusters = clusters,
                         nv_mft_lcn = mft, nv_mftmirr_lcn = mirror, nv_record_size = record_size,
                         nv_serial = read_at 72 8 boot\<rparr>)))))))"

text \<open>
  What the system answers while a target is opened; \<open>np_again\<close> are the answers to the second
  open that asks a block device for its size.
\<close>

record NtfsProbe =
  np_open :: OpenAnswers
  np_locked :: bool
  np_again :: OpenAnswers

definition ntfs_device_size :: "NtfsProbe \<Rightarrow> nat res" where
  "ntfs_device_size p =
     (case oa_opened (np_open p) of
        Some opened \<Rightarrow>
          if stat_kind opened = RegularFile
          then (case oa_size (np_open p) of Some n \<Rightarrow> Inr n | None \<Rightarrow> Inl (DieErrno ''open target''))
          else bindE (ld_device_open (np_again p) False) (\<lambda>d. Inr (dev_size_bytes d))
      | None \<Rightarrow> Inl (DieErrno ''open target''))"

definition ntfs_open_volume :: "env \<Rightarrow> NtfsProbe \<Rightarrow> bytes \<Rightarrow> bool \<Rightarrow> NtfsVolume res" where
  "ntfs_open_volume E p d write =
     (let a = np_open p in
      case oa_realpath a of
        None \<Rightarrow> Inl (Fail ''cannot resolve NTFS target'')
      | Some real \<Rightarrow>
      case oa_expected a of
        None \<Rightarrow> Inl (Fail ''NTFS target must be a block device or regular image'')
      | Some status \<Rightarrow>
          let block = (stat_kind status = BlockDevice) in
          if \<not> block \<and> stat_kind status \<noteq> RegularFile
          then Inl (Fail ''NTFS target must be a block device or regular image'')
          else
            bindE (if write \<and> block then oa_mounted_before a else Inr False) (\<lambda>mounted.
            if mounted then Inl (Fail ''NTFS target is mounted; raw mutation requires an unmounted filesystem'')
            else
              case oa_opened a of
                None \<Rightarrow> Inl (Fail ''cannot open NTFS target'')
              | Some opened \<Rightarrow>
                  if \<not> same_object status opened
                  then Inl (Fail ''NTFS target identity changed between validation and open'')
                  else
                    bindE (if write \<and> block then oa_mounted_after a else Inr False) (\<lambda>mounted.
                    if mounted then Inl (Fail ''NTFS target became mounted while opening for raw mutation'')
                    else if write \<and> \<not> np_locked p then Inl (Fail ''cannot lock NTFS target exclusively'')
                    else
                      case ld_pread_full E d 512 0 of
                        None \<Rightarrow> Inl (Fail ''target does not contain a valid NTFS boot sector'')
                      | Some boot \<Rightarrow> ntfs_parse_boot E boot (ntfs_device_size p))))"

section \<open>Metadata streams\<close>

fun read_segments :: "env \<Rightarrow> bytes \<Rightarrow> nat \<Rightarrow> NtfsRun list \<Rightarrow> nat \<Rightarrow> nat \<Rightarrow> nat \<Rightarrow> bytes res" where
  "read_segments E d cluster_size [] cursor wanted remaining =
     (if remaining = 0 then Inr [] else Inl (Fail ''NTFS stream runlist is shorter than requested range''))"
| "read_segments E d cluster_size (run # rest) cursor wanted remaining =
     (if remaining = 0 then Inr []
      else
        let run_bytes = u64 (nr_length run * cluster_size); run_end = u64 (cursor + run_bytes) in
        if wanted \<ge> run_end then read_segments E d cluster_size rest run_end wanted remaining
        else
          let within = (if wanted > cursor then wanted - cursor else 0); take = min (run_bytes - within) remaining in
          if nr_sparse run then Inl (Fail ''sparse run encountered in an NTFS metadata stream'')
          else
            case ld_pread_full E d take (u64 (u64 (nr_lcn run * cluster_size) + within)) of
              None \<Rightarrow> Inl (Fail ''short NTFS metadata-stream read'')
            | Some bs \<Rightarrow>
                bindE (read_segments E d cluster_size rest run_end (u64 (wanted + take)) (remaining - take)) (\<lambda>more.
                Inr (bs @ more)))"

fun write_segments :: "env \<Rightarrow> nat \<Rightarrow> NtfsRun list \<Rightarrow> nat \<Rightarrow> nat \<Rightarrow> bytes \<Rightarrow> unit io" where
  "write_segments E cluster_size [] cursor wanted data =
     die_ifI (data \<noteq> []) (Fail ''NTFS stream runlist is shorter than requested range'')"
| "write_segments E cluster_size (run # rest) cursor wanted data =
     (if data = [] then retI ()
      else
        let run_bytes = u64 (nr_length run * cluster_size); run_end = u64 (cursor + run_bytes) in
        if wanted \<ge> run_end then write_segments E cluster_size rest run_end wanted data
        else
          let within = (if wanted > cursor then wanted - cursor else 0);
              n = min (run_bytes - within) (length data) in
          if nr_sparse run then dieI (Fail ''sparse run encountered in an NTFS metadata stream'')
          else
            bindI (ld_pwrite_full E (take n data) (u64 (u64 (nr_lcn run * cluster_size) + within))) (\<lambda>ok.
            if \<not> ok then dieI (Fail ''short NTFS metadata-stream write'')
            else write_segments E cluster_size rest run_end (u64 (wanted + n)) (drop n data)))"

definition ntfs_read_stream :: "env \<Rightarrow> NtfsVolume \<Rightarrow> bytes \<Rightarrow> NtfsRun list \<Rightarrow> nat \<Rightarrow> nat \<Rightarrow> bytes res" where
  "ntfs_read_stream E v d runs logical_offset len = read_segments E d (nv_cluster_size v) runs 0 logical_offset len"

definition ntfs_write_stream :: "env \<Rightarrow> NtfsVolume \<Rightarrow> NtfsRun list \<Rightarrow> nat \<Rightarrow> bytes \<Rightarrow> unit io" where
  "ntfs_write_stream E v runs logical_offset data = write_segments E (nv_cluster_size v) runs 0 logical_offset data"

text \<open>The bytes on the target and the record after the fixups.\<close>

definition ntfs_read_record ::
  "env \<Rightarrow> NtfsVolume \<Rightarrow> bytes \<Rightarrow> NtfsRun list \<Rightarrow> nat \<Rightarrow> (bytes \<times> bytes) res" where
  "ntfs_read_record E v d mft_runs n =
     (case u64_multiply_checked E n (nv_record_size v) of
        None \<Rightarrow> Inl (Fail [])
      | Some record_offset \<Rightarrow>
          bindE (ntfs_read_stream E v d mft_runs record_offset (nv_record_size v)) (\<lambda>raw.
          bindE (ntfs_apply_fixups E raw (nv_bytes_per_sector v)) (\<lambda>fixed.
          Inr (raw, fixed))))"

definition ntfs_write_record :: "env \<Rightarrow> NtfsVolume \<Rightarrow> NtfsRun list \<Rightarrow> nat \<Rightarrow> bytes \<Rightarrow> unit io" where
  "ntfs_write_record E v mft_runs n raw =
     (case u64_multiply_checked E n (nv_record_size v) of
        None \<Rightarrow> dieI (Fail ''NTFS MFT record offset overflow'')
      | Some record_offset \<Rightarrow> ntfs_write_stream E v mft_runs record_offset raw)"

section \<open>Attributes\<close>

definition decode_utf16_ascii :: "env \<Rightarrow> bytes \<Rightarrow> nat \<Rightarrow> nat \<Rightarrow> nat \<Rightarrow> string res" where
  "decode_utf16_ascii E b start chars cap =
     foldE (\<lambda>i out. bindE (ntfs_u16 E b (start + i * 2)) (\<lambda>ch.
       Inr (out @ [if ch \<ge> 32 \<and> ch < 127 then char_of ch else CHR ''?'']))) [0..<min chars (cap - 1)] []"

definition attribute_name :: "env \<Rightarrow> bytes \<Rightarrow> nat \<Rightarrow> nat \<Rightarrow> string res" where
  "attribute_name E fixed position len =
     bindE (array_get ''record'' fixed (position + 9)) (\<lambda>name_byte.
     bindE (ntfs_u16 E fixed (position + 10)) (\<lambda>name_off.
     let name_chars = unat name_byte in
     if name_chars = 0 then Inr []
     else if name_off < 16 \<or> name_off + name_chars * 2 > len then Inl (Fail ''invalid NTFS attribute name'')
     else decode_utf16_ascii E fixed (position + name_off) name_chars 128))"

definition nonresident_fields :: "env \<Rightarrow> bytes \<Rightarrow> nat \<Rightarrow> nat \<Rightarrow> NtfsAttribute \<Rightarrow> NtfsAttribute res" where
  "nonresident_fields E fixed position len a =
     (if len < 64 then Inl (Fail ''truncated NTFS non-resident attribute'')
      else
        bindE (ntfs_u64 E fixed (position + 16)) (\<lambda>lowest.
        bindE (ntfs_u64 E fixed (position + 24)) (\<lambda>highest.
        bindE (ntfs_u16 E fixed (position + 32)) (\<lambda>run_offset.
        bindE (ntfs_u64 E fixed (position + 40)) (\<lambda>allocated.
        bindE (ntfs_u64 E fixed (position + 48)) (\<lambda>data_size.
        bindE (ntfs_u64 E fixed (position + 56)) (\<lambda>initialized.
        if run_offset < 64 \<or> run_offset \<ge> len then Inl (Fail ''invalid NTFS mapping-pairs offset'')
        else
          bindE (ntfs_decode_runlist E (read_at (position + run_offset) (len - run_offset) fixed)) (\<lambda>runs.
          let logical = foldl (\<lambda>n r. u64 (n + nr_length r)) 0 runs in
          if highest < lowest \<or> logical \<noteq> u64 (highest - lowest + 1)
          then Inl (Fail ''NTFS runlist length does not match its VCN range'')
          else Inr (a\<lparr>na_lowest_vcn := lowest, na_highest_vcn := highest, na_run_offset := run_offset,
                      na_allocated_size := allocated, na_data_size := data_size,
                      na_initialized_size := initialized, na_runs := runs\<rparr>)))))))))"

definition parse_attribute :: "env \<Rightarrow> bytes \<Rightarrow> nat \<Rightarrow> nat \<Rightarrow> nat \<Rightarrow> NtfsAttribute res" where
  "parse_attribute E fixed position kind len =
     bindE (array_get ''record'' fixed (position + 8)) (\<lambda>nonresident.
     bindE (ntfs_u16 E fixed (position + 12)) (\<lambda>flags.
     bindE (attribute_name E fixed position len) (\<lambda>name.
     let a = \<lparr>na_offset = position, na_length = len, na_type = kind, na_flags = flags,
              na_nonresident = (nonresident \<noteq> 0), na_lowest_vcn = 0, na_highest_vcn = 0, na_run_offset = 0,
              na_data_size = 0, na_allocated_size = 0, na_initialized_size = 0, na_runs = [], na_name = name\<rparr> in
     if nonresident \<noteq> 0 then nonresident_fields E fixed position len a else Inr a)))"

function parse_from :: "env \<Rightarrow> bytes \<Rightarrow> nat \<Rightarrow> nat \<Rightarrow> NtfsAttribute list \<Rightarrow> NtfsAttribute list res" where
  "parse_from E fixed in_use position attributes =
     (if position + 16 > in_use then Inr attributes
      else
        bindE (ntfs_u32 E fixed position) (\<lambda>kind.
        if kind = 0xffffffff then Inr attributes
        else
          bindE (ntfs_u32 E fixed (position + 4)) (\<lambda>len.
          if len < 24 \<or> position + len > in_use then Inl (Fail ''invalid NTFS attribute record'')
          else if \<not> array_reserve E 216 (length attributes + 1) then Inl (Die ''cannot grow NTFS attribute list'')
          else
            bindE (parse_attribute E fixed position kind len) (\<lambda>a.
            parse_from E fixed in_use (position + len) (attributes @ [a])))))"
  by pat_completeness auto
termination by (relation "measure (\<lambda>(E, fixed, in_use, position, attributes). in_use - position)") auto

declare parse_from.simps [simp del]

definition ntfs_parse_attributes :: "env \<Rightarrow> bytes \<Rightarrow> NtfsAttribute list res" where
  "ntfs_parse_attributes E fixed =
     bindE (ntfs_u16 E fixed 20) (\<lambda>position.
     bindE (ntfs_u32 E fixed 24) (\<lambda>in_use.
     parse_from E fixed (min in_use (length fixed)) position []))"

text \<open>The attribute, when there is exactly one.\<close>

definition find_unnamed_nonresident :: "NtfsAttribute list \<Rightarrow> nat \<Rightarrow> NtfsAttribute option" where
  "find_unnamed_nonresident attributes kind =
     (case filter (\<lambda>a. na_type a = kind \<and> na_nonresident a \<and> na_name a = []) attributes of
        [a] \<Rightarrow> Some a
      | _ \<Rightarrow> None)"

definition copy_runs_or :: "env \<Rightarrow> string \<Rightarrow> NtfsRun list \<Rightarrow> NtfsRun list \<Rightarrow> NtfsRun list res" where
  "copy_runs_or E message source destination =
     foldE (\<lambda>r runs. push_or_overflow E runs (nr_lcn r) (nr_length r) (nr_sparse r) message) source destination"

section \<open>Layout and flags\<close>

definition read_record0 :: "env \<Rightarrow> NtfsVolume \<Rightarrow> bytes \<Rightarrow> (NtfsRun list \<times> nat) res" where
  "read_record0 E v d =
     (case ld_pread_full E d (nv_record_size v) (u64 (nv_mft_lcn v * nv_cluster_size v)) of
        None \<Rightarrow> Inl (Fail ''NTFS $MFT record zero was not found'')
      | Some raw \<Rightarrow>
          if take 4 raw \<noteq> map word_of_nat (text_bytes ''FILE'')
          then Inl (Fail ''NTFS $MFT record zero was not found'')
          else
            bindE (ntfs_apply_fixups E raw (nv_bytes_per_sector v)) (\<lambda>fixed.
            bindE (ntfs_parse_attributes E fixed) (\<lambda>attributes.
            case find_unnamed_nonresident attributes NTFS_ATTR_DATA of
              None \<Rightarrow> Inl (Fail ''unsupported split $MFT data attribute'')
            | Some a \<Rightarrow>
                if na_lowest_vcn a \<noteq> 0 then Inl (Fail ''unsupported split $MFT data attribute'')
                else
                  bindE (copy_runs_or E ''MFT runlist overflow'' (na_runs a) []) (\<lambda>runs.
                  Inr (runs, na_data_size a)))))"

text \<open>
  The offset of the flags in the record. The length and the offset of the value are added in
  32 bits.
\<close>

definition volume_information :: "NtfsAttribute list \<Rightarrow> NtfsAttribute option" where
  "volume_information attributes =
     find (\<lambda>a. na_type a = NTFS_ATTR_VOLUME_INFORMATION \<and> \<not> na_nonresident a) attributes"

definition volume_flags_offset :: "env \<Rightarrow> bytes \<Rightarrow> NtfsAttribute list \<Rightarrow> nat res" where
  "volume_flags_offset E fixed attributes =
     (case volume_information attributes of
        None \<Rightarrow> Inl (Fail ''NTFS volume-information attribute was not found'')
      | Some a \<Rightarrow>
          bindE (ntfs_u32 E fixed (na_offset a + 16)) (\<lambda>len.
          bindE (ntfs_u16 E fixed (na_offset a + 20)) (\<lambda>off.
          if len < 12 \<or> u32 (off + len) > na_length a
          then Inl (Fail ''invalid NTFS volume-information attribute'')
          else Inr (na_offset a + off + 10))))"

definition resident_volume_flags :: "env \<Rightarrow> bytes \<Rightarrow> nat res" where
  "resident_volume_flags E fixed =
     bindE (ntfs_parse_attributes E fixed) (\<lambda>attributes.
     bindE (volume_flags_offset E fixed attributes) (ntfs_u16 E fixed))"

definition and_not16 :: "nat \<Rightarrow> nat \<Rightarrow> nat" where
  "and_not16 a b = a AND (0xffff XOR b)"

definition hex04 :: "nat \<Rightarrow> string" where
  "hex04 n = pad_left (CHR ''0'') 4 (hex n)"

definition validate_flags :: "nat \<Rightarrow> bool \<Rightarrow> unit res" where
  "validate_flags flags allow_dirty =
     (if and_not16 flags NTFS_VOLUME_ACCEPTED_MASK \<noteq> 0
      then Inl (Fail (''unsupported NTFS volume flags are set (0x'' @ hex04 flags @ '')''))
      else
        let unsafe = flags AND NTFS_VOLUME_UNSAFE_MASK;
            unsafe = (if allow_dirty then and_not16 unsafe NTFS_VOLUME_DIRTY else unsafe) in
        if unsafe \<noteq> 0
        then Inl (Fail (''NTFS volume has an active unsafe maintenance state (0x'' @ hex04 flags @ '')''))
        else if flags AND NTFS_VOLUME_DIRTY \<noteq> 0 \<and> \<not> allow_dirty
        then Inl (Fail ''NTFS dirty flag is set; complete Windows filesystem checking first'')
        else Inr ())"

definition ntfs_read_layout :: "env \<Rightarrow> NtfsVolume \<Rightarrow> bytes \<Rightarrow> bool \<Rightarrow> NtfsLayout res" where
  "ntfs_read_layout E v d allow_dirty =
     bindE (read_record0 E v d) (\<lambda>(mft_runs, mft_data_size).
     bindE (ntfs_read_record E v d mft_runs 3) (\<lambda>(raw, fixed).
     bindE (resident_volume_flags E fixed) (\<lambda>flags.
     bindE (validate_flags flags allow_dirty) (\<lambda>_.
     bindE (ntfs_read_record E v d mft_runs 6) (\<lambda>(raw, fixed).
     bindE (ntfs_parse_attributes E fixed) (\<lambda>attributes.
     case find_unnamed_nonresident attributes NTFS_ATTR_DATA of
       None \<Rightarrow> Inl (Fail ''unsupported split or resident NTFS $Bitmap stream'')
     | Some a \<Rightarrow>
         if na_lowest_vcn a \<noteq> 0 then Inl (Fail ''unsupported split or resident NTFS $Bitmap stream'')
         else
           bindE (copy_runs_or E ''bitmap runlist overflow'' (na_runs a) []) (\<lambda>bitmap_runs.
           bindE (ntfs_read_stream E v d bitmap_runs 0 (na_data_size a)) (\<lambda>bitmap.
           if u64 (length bitmap * 8) < nv_total_clusters v
           then Inl (Fail ''NTFS $Bitmap is shorter than the volume'')
           else Inr \<lparr>nl_mft_runs = mft_runs, nl_mft_data_size = mft_data_size, nl_bitmap_runs = bitmap_runs,
                     nl_bitmap_data_size = na_data_size a, nl_bitmap = bitmap\<rparr>))))))))"

definition bitmap_bit :: "bytes \<Rightarrow> nat \<Rightarrow> bool" where
  "bitmap_bit bitmap cluster \<longleftrightarrow>
     (if cluster \<ge> u64 (length bitmap * 8) then True
      else bitmap ! drop_bit 3 cluster AND push_bit (cluster AND 7) 1 \<noteq> 0)"

definition ntfs_bitmap_bit :: "NtfsLayout \<Rightarrow> nat \<Rightarrow> bool" where
  "ntfs_bitmap_bit layout cluster = bitmap_bit (nl_bitmap layout) cluster"

definition bitmap_set :: "bytes \<Rightarrow> nat \<Rightarrow> bool \<Rightarrow> bytes" where
  "bitmap_set bitmap cluster used =
     (if cluster \<ge> u64 (length bitmap * 8) then bitmap
      else
        let i = drop_bit 3 cluster; m = push_bit (cluster AND 7) 1 in
        bitmap[i := if used then bitmap ! i OR m else bitmap ! i AND NOT m])"

definition ntfs_bitmap_set :: "NtfsLayout \<Rightarrow> nat \<Rightarrow> bool \<Rightarrow> NtfsLayout" where
  "ntfs_bitmap_set layout cluster used = layout\<lparr>nl_bitmap := bitmap_set (nl_bitmap layout) cluster used\<rparr>"

definition ntfs_write_bitmap :: "env \<Rightarrow> NtfsVolume \<Rightarrow> NtfsLayout \<Rightarrow> unit io" where
  "ntfs_write_bitmap E v layout = ntfs_write_stream E v (nl_bitmap_runs layout) 0 (nl_bitmap layout)"

section \<open>The dirty flag\<close>

definition with_dirty :: "bool \<Rightarrow> nat \<Rightarrow> nat" where
  "with_dirty dirty flags = (if dirty then flags OR NTFS_VOLUME_DIRTY else and_not16 flags NTFS_VOLUME_DIRTY)"

definition dirty_record :: "env \<Rightarrow> NtfsVolume \<Rightarrow> bool \<Rightarrow> bytes \<Rightarrow> bytes res" where
  "dirty_record E v dirty fixed =
     bindE (ntfs_parse_attributes E fixed) (\<lambda>attributes.
     bindE (volume_flags_offset E fixed attributes) (\<lambda>flag_off.
     bindE (ntfs_u16 E fixed flag_off) (\<lambda>flags.
     bindE (if dirty then Inr () else validate_flags flags True) (\<lambda>_.
     bindE (ntfs_put_u16 E fixed flag_off (with_dirty dirty flags)) (\<lambda>fixed.
     ntfs_prepare_fixups E fixed (nv_bytes_per_sector v))))))"

text \<open>The mirrored record: the value offset is used as it is.\<close>

definition dirty_mirror :: "env \<Rightarrow> NtfsVolume \<Rightarrow> bool \<Rightarrow> bytes \<Rightarrow> bytes res" where
  "dirty_mirror E v dirty mirror_raw =
     bindE (ntfs_apply_fixups E mirror_raw (nv_bytes_per_sector v)) (\<lambda>fixed.
     bindE (ntfs_parse_attributes E fixed) (\<lambda>attributes.
     case volume_information attributes of
       None \<Rightarrow> Inl (Fail ''NTFS $MFTMirr lacks $Volume record'')
     | Some m \<Rightarrow>
         bindE (ntfs_u16 E fixed (na_offset m + 20)) (\<lambda>off.
         let flag_off = na_offset m + off + 10 in
         bindE (ntfs_u16 E fixed flag_off) (\<lambda>flags.
         bindE (ntfs_put_u16 E fixed flag_off (with_dirty dirty flags)) (\<lambda>fixed.
         ntfs_prepare_fixups E fixed (nv_bytes_per_sector v))))))"

definition sync_or :: "env \<Rightarrow> string \<Rightarrow> unit io" where
  "sync_or E message w =
     (if fsync_ok E (length (w_trace w)) then (Inr (), w\<lparr>w_trace := w_trace w @ [EvSync]\<rparr>) else (Inl (Fail message), w))"

definition ntfs_set_volume_dirty :: "env \<Rightarrow> NtfsVolume \<Rightarrow> NtfsLayout \<Rightarrow> bool \<Rightarrow> unit io" where
  "ntfs_set_volume_dirty E v layout dirty =
     bindI (readI (\<lambda>d. ntfs_read_record E v d (nl_mft_runs layout) 3)) (\<lambda>(raw, fixed).
     bindI (readI (\<lambda>d. dirty_record E v dirty fixed)) (\<lambda>raw.
     thenI (ntfs_write_record E v (nl_mft_runs layout) 3 raw)
    (let mirror_off = u64 (u64 (nv_mftmirr_lcn v * nv_cluster_size v) + 3 * nv_record_size v) in
     bindI (readI (\<lambda>d. case ld_pread_full E d (nv_record_size v) mirror_off of
              None \<Rightarrow> Inl (Fail ''NTFS volume-information attribute was not found'')
            | Some mirror \<Rightarrow> Inr mirror)) (\<lambda>mirror.
     bindI (readI (\<lambda>d. dirty_mirror E v dirty mirror)) (\<lambda>mirror.
     bindI (ld_pwrite_full E mirror mirror_off) (\<lambda>ok.
     if \<not> ok then dieI (Fail ''writing NTFS mirrored volume state failed'')
     else sync_or E ''syncing NTFS volume state failed''))))))"

end
