(* ===== verification/NtfsRuns.thy ===== *)
theory NtfsRuns
  imports NtfsRecords
begin

text \<open>
  Mapping pairs: what \<open>decode_signed\<close> reads, that the two encoders write what it reads back,
  and that the decoder inverts the on-disk format of a whole run list.
\<close>

section \<open>Little-endian values\<close>

lemma unsigned_bytes_Nil [simp]: "unsigned_bytes [] = 0"
  by (simp add: unsigned_bytes_def)

lemma foldl_or_bytes_cong:
  "(\<And>i. i \<in> set ns \<Longrightarrow> bs ! i = cs ! i) \<Longrightarrow>
   foldl (\<lambda>v i. v OR push_bit (8 * i) (unat (bs ! i :: byte))) a ns =
   foldl (\<lambda>v i. v OR push_bit (8 * i) (unat (cs ! i))) (a :: nat) ns"
  by (induction ns arbitrary: a) auto

lemma unsigned_bytes_snoc_or:
  "unsigned_bytes (bs @ [b]) = unsigned_bytes bs OR push_bit (8 * length bs) (unat b)"
proof -
  have "foldl (\<lambda>v i. v OR push_bit (8 * i) (unat ((bs @ [b]) ! i))) 0 [0..<length bs] = unsigned_bytes bs"
    unfolding unsigned_bytes_def by (rule foldl_or_bytes_cong) (simp add: nth_append)
  then show ?thesis by (simp add: unsigned_bytes_def)
qed

lemma unsigned_bytes_snoc_less:
  "unsigned_bytes (bs @ [b]) = unsigned_bytes bs + 2 ^ (8 * length bs) * unat b \<and>
   unsigned_bytes bs < 2 ^ (8 * length bs)"
proof (induction bs arbitrary: b rule: rev_induct)
  case Nil
  have "unsigned_bytes ([] @ [b]) = unat b" unfolding unsigned_bytes_snoc_or by simp
  then show ?case by simp
next
  case (snoc c bs)
  let ?k = "8 * length bs"
  have "unsigned_bytes (bs @ [c]) = unsigned_bytes bs + 2 ^ ?k * unat c" "unsigned_bytes bs < 2 ^ ?k"
    using snoc [of c] by auto
  moreover have "(2::nat) ^ ?k * (unat c + 1) \<le> 2 ^ ?k * 256" using unat_byte_less [of c] by (intro mult_le_mono2) simp
  moreover have "(2::nat) ^ ?k * (unat c + 1) = 2 ^ ?k * unat c + 2 ^ ?k" by simp
  ultimately have "unsigned_bytes (bs @ [c]) < 2 ^ ?k * 256" by linarith
  then have less: "unsigned_bytes (bs @ [c]) < 2 ^ (8 * length (bs @ [c]))" by (simp add: power_add mult.commute)
  have "unsigned_bytes ((bs @ [c]) @ [b]) =
      (2 ^ (8 * length (bs @ [c])) * unat b) OR unsigned_bytes (bs @ [c])"
    unfolding unsigned_bytes_snoc_or [of "bs @ [c]"] push_bit_eq_mult by (simp only: mult.commute or.commute)
  then show ?case using less by (simp only: nat_or_disjoint add.commute)
qed

lemma unsigned_bytes_snoc: "unsigned_bytes (bs @ [b]) = unsigned_bytes bs + 2 ^ (8 * length bs) * unat b"
  using unsigned_bytes_snoc_less by blast

lemma unsigned_bytes_less: "unsigned_bytes bs < 2 ^ (8 * length bs)"
  using unsigned_bytes_snoc_less by blast

lemma unsigned_bytes_Cons: "unsigned_bytes (b # bs) = unat b + 256 * unsigned_bytes bs"
proof (induction bs rule: rev_induct)
  case Nil
  then show ?case using unsigned_bytes_snoc [of "[]" b] by simp
next
  case (snoc c bs)
  have "unsigned_bytes (b # bs @ [c]) = unsigned_bytes (b # bs) + 2 ^ (8 * length (b # bs)) * unat c"
    using unsigned_bytes_snoc [of "b # bs" c] by simp
  then show ?case using snoc by (simp add: unsigned_bytes_snoc power_add algebra_simps)
qed

lemma unsigned_bytes_top:
  assumes "length cs \<le> 7" "unat c < 128"
  shows "unsigned_bytes (cs @ [c]) < 9223372036854775808"
proof -
  let ?p = "(2::nat) ^ (8 * length cs)"
  have "?p \<le> 2 ^ 56" using assms(1) by (intro power_increasing) auto
  then have "?p \<le> 72057594037927936" by simp
  moreover have "?p * (unat c + 1) \<le> ?p * 128" using assms(2) by (intro mult_le_mono2) simp
  moreover have "?p * (unat c + 1) = ?p * unat c + ?p" by simp
  moreover have "unsigned_bytes cs < ?p" by (rule unsigned_bytes_less)
  ultimately show ?thesis unfolding unsigned_bytes_snoc by linarith
qed

section \<open>Reading a signed value\<close>

lemma byte_sign: "unat (b :: byte) AND 128 \<noteq> 0 \<longleftrightarrow> 128 \<le> unat b"
proof -
  have "unat b AND 128 = 128 * (unat b div 128 mod 2)"
    using nat_and_shifted_mask [of "unat b" 7 1] by (simp add: push_bit_eq_mult mask_eq_exp_minus_1)
  moreover have "unat b div 128 < 2" using unat_byte_less [of b] by simp
  ultimately show ?thesis by auto
qed

lemma decode_signed_positive:
  assumes "bs \<noteq> []" "length bs \<le> 8" "unat (last bs) < 128"
  shows "decode_signed bs = int (unsigned_bytes bs)"
proof -
  obtain cs c where bs: "bs = cs @ [c]" using assms(1) by (cases bs rule: rev_cases) auto
  then have c: "unat c < 128" and len: "length cs \<le> 7" using assms by auto
  have "unsigned_bytes bs < 9223372036854775808" unfolding bs using len c by (rule unsigned_bytes_top)
  moreover have "\<not> (unat (bs ! (length bs - 1)) AND 0x80 \<noteq> 0)"
    using c byte_sign [of c] by (simp add: bs)
  ultimately show ?thesis by (simp add: decode_signed_def int64_def)
qed

lemma decode_signed_eight: "length bs = 8 \<Longrightarrow> decode_signed bs = int64 (unsigned_bytes bs)"
  by (simp add: decode_signed_def)

section \<open>The encoders\<close>

lemma low_bytes_0 [simp]: "low_bytes 0 = []"
  by (simp add: low_bytes.simps)

lemma low_bytes_step: "v \<noteq> 0 \<Longrightarrow> low_bytes v = word_of_nat v # low_bytes (v div 256)"
  by (subst low_bytes.simps) simp

lemma low_bytes_Nil [simp]: "low_bytes v = [] \<longleftrightarrow> v = 0"
  by (subst low_bytes.simps) simp

lemma low_bytes_value: "unsigned_bytes (low_bytes v) = v"
proof (induction v rule: low_bytes.induct)
  case (1 v)
  show ?case
  proof (cases "v = 0")
    case False
    then show ?thesis
      using 1 by (simp add: low_bytes_step unsigned_bytes_Cons unat_byte_of_nat)
  qed simp
qed

lemma low_bytes_length: "length (low_bytes v) \<le> n \<longleftrightarrow> v < 256 ^ n"
proof (induction n arbitrary: v)
  case (Suc n)
  show ?case
  proof (cases "v = 0")
    case False
    then show ?thesis
      using Suc.IH [of "v div 256"] by (simp add: low_bytes_step less_mult_imp_div_less div_less_iff_less_mult mult.commute)
  qed simp
qed simp

text \<open>The value fits eight bytes with the top bit clear.\<close>

lemma unsigned_min_bytes_ok:
  assumes "0 < v" "length (unsigned_min_bytes v) \<le> 8"
  shows "decode_signed (unsigned_min_bytes v) = int v" "unsigned_min_bytes v \<noteq> []" "v < 9223372036854775808"
proof -
  let ?bs = "low_bytes v"
  have ne: "?bs \<noteq> []" using assms(1) by simp
  have out: "unsigned_min_bytes v = (if 128 \<le> unat (last ?bs) then ?bs @ [0] else ?bs)"
    using assms(1) byte_sign [of "last ?bs"] by (simp add: unsigned_min_bytes_def Let_def)
  have "unsigned_bytes (?bs @ [0]) = unsigned_bytes ?bs" by (simp add: unsigned_bytes_snoc)
  then have val: "unsigned_bytes (unsigned_min_bytes v) = v" by (simp add: out low_bytes_value)
  show ne': "unsigned_min_bytes v \<noteq> []" using ne by (simp add: out)
  have top: "unat (last (unsigned_min_bytes v)) < 128" by (simp add: out not_le)
  show dec: "decode_signed (unsigned_min_bytes v) = int v"
    using decode_signed_positive [OF ne' assms(2) top] by (simp add: val)
  obtain cs c where bs: "unsigned_min_bytes v = cs @ [c]" using ne' by (cases "unsigned_min_bytes v" rule: rev_cases) auto
  then have "length cs \<le> 7" "unat c < 128" using assms(2) top by auto
  then show "v < 9223372036854775808" using unsigned_bytes_top [of cs c] val by (simp add: bs)
qed

lemma unsigned_min_bytes_fits:
  assumes "v < 9223372036854775808"
  shows "length (unsigned_min_bytes v) \<le> 8"
proof (cases "v = 0")
  case False
  let ?bs = "low_bytes v"
  have le: "length ?bs \<le> 8" using assms low_bytes_length [of v 8] by simp
  have "\<not> 128 \<le> unat (last ?bs)" if eight: "length ?bs = 8"
  proof
    assume top: "128 \<le> unat (last ?bs)"
    obtain cs c where bs: "?bs = cs @ [c]" using False by (cases ?bs rule: rev_cases) auto
    with eight have "length cs = 7" by simp
    then have "v = unsigned_bytes cs + 72057594037927936 * unat c"
      using low_bytes_value [of v] by (simp add: bs unsigned_bytes_snoc)
    moreover have "128 \<le> unat c" using top by (simp add: bs)
    ultimately show False using assms by linarith
  qed
  then show ?thesis using le False byte_sign [of "last ?bs"] by (auto simp: unsigned_min_bytes_def Let_def le_less)
qed (simp add: unsigned_min_bytes_def)

lemma unsigned_bytes_raw:
  assumes "u = nat (v mod 18446744073709551616)"
  shows "unsigned_bytes (raw_bytes v n) = u mod 2 ^ (8 * n)"
proof (induction n)
  case (Suc n)
  have "raw_bytes v (Suc n) = raw_bytes v n @ [word_of_nat (drop_bit (8 * n) u)]"
    by (simp add: raw_bytes_def assms)
  then have "unsigned_bytes (raw_bytes v (Suc n)) =
      u mod 2 ^ (8 * n) + 2 ^ (8 * n) * (u div 2 ^ (8 * n) mod 256)"
    using Suc by (simp add: unsigned_bytes_snoc unat_byte_of_nat drop_bit_eq_div raw_bytes_def)
  also have "\<dots> = u mod (2 ^ (8 * n) * 256)" by (simp add: mod_mult2_eq)
  finally show ?case by (simp add: power_add mult.commute)
qed (simp add: raw_bytes_def)

lemma raw_bytes_eight:
  assumes "- 9223372036854775808 \<le> v" "v < 9223372036854775808"
  shows "decode_signed (raw_bytes v 8) = v"
proof -
  define u where "u = nat (v mod 18446744073709551616)"
  have "unsigned_bytes (raw_bytes v 8) = u mod 2 ^ 64" using unsigned_bytes_raw [OF u_def, of 8] by simp
  moreover have "u < 18446744073709551616" unfolding u_def by (simp add: nat_less_iff)
  ultimately have val: "unsigned_bytes (raw_bytes v 8) = u" by simp
  have "int64 u = v"
  proof (cases "v < 0")
    case True
    have "v mod 18446744073709551616 = (v + 18446744073709551616) mod 18446744073709551616" by simp
    also have "\<dots> = v + 18446744073709551616" using assms True by (intro mod_pos_pos_trivial) auto
    finally have "u = nat (v + 18446744073709551616)" by (simp add: u_def)
    then show ?thesis using assms True by (simp add: int64_def nat_less_iff)
  next
    case False
    then have "u = nat v" using assms by (simp add: u_def)
    then show ?thesis using assms False by (simp add: int64_def nat_less_iff)
  qed
  then show ?thesis by (simp add: decode_signed_eight raw_bytes_def [of v 8] val [unfolded raw_bytes_def])
qed

lemma signed_min_bytes_ok:
  assumes "- 9223372036854775808 \<le> v" "v < 9223372036854775808"
  shows "decode_signed (signed_min_bytes v) = v \<and> signed_min_bytes v \<noteq> [] \<and> length (signed_min_bytes v) \<le> 8"
proof -
  have "find (\<lambda>n. decode_signed (raw_bytes v n) = v) [1..<9] \<noteq> None"
    using raw_bytes_eight [OF assms] by (auto simp: find_None_iff intro!: exI [of _ 8])
  then obtain n where n: "find (\<lambda>n. decode_signed (raw_bytes v n) = v) [1..<9] = Some n" by blast
  then have "decode_signed (raw_bytes v n) = v" "n \<in> set [1..<9]" by (auto simp: find_Some_iff)
  with n show ?thesis by (auto simp: signed_min_bytes_def raw_bytes_def)
qed

section \<open>The on-disk format\<close>

text \<open>
  The mapping pairs of a run list as the format defines them: a header with the two field
  widths, the length, and for an allocated run the signed distance from the previous one.
\<close>

definition mapping_pair :: "nat \<Rightarrow> NtfsRun \<Rightarrow> bytes" where
  "mapping_pair prior r =
     (let ls = unsigned_min_bytes (nr_length r) in
      if nr_sparse r then word_of_nat (length ls) # ls
      else
        let os = signed_min_bytes (int (nr_lcn r) - int prior) in
        word_of_nat (push_bit 4 (length os) OR length ls) # ls @ os)"

definition next_prior :: "nat \<Rightarrow> NtfsRun \<Rightarrow> nat" where
  "next_prior prior r = (if nr_sparse r then prior else nr_lcn r)"

fun mapping_pairs :: "nat \<Rightarrow> NtfsRun list \<Rightarrow> bytes" where
  "mapping_pairs prior [] = [0]"
| "mapping_pairs prior (r # runs) = mapping_pair prior r @ mapping_pairs (next_prior prior r) runs"

definition run_ok :: "NtfsRun \<Rightarrow> bool" where
  "run_ok r \<longleftrightarrow> 0 < nr_length r \<and> nr_length r < 9223372036854775808 \<and> nr_lcn r < 9223372036854775808 \<and>
     (nr_sparse r \<longrightarrow> nr_lcn r = 0)"

text \<open>Two neighbours that the decoder would merge.\<close>

definition joins :: "NtfsRun \<Rightarrow> NtfsRun \<Rightarrow> bool" where
  "joins r s \<longleftrightarrow> nr_sparse r = nr_sparse s \<and> (nr_sparse s \<or> nr_lcn r + nr_length r = nr_lcn s)"

lemma header_fields:
  assumes "l \<le> 8" "o' \<le> 8"
  shows "unat (word_of_nat (push_bit 4 o' OR l) :: byte) = 16 * o' + l" "(16 * o' + l) AND 15 = l" "drop_bit 4 (16 * o' + l) = o'"
proof -
  have "push_bit 4 o' OR l = 16 * o' + l"
    using nat_or_disjoint [of l 4 o'] assms by (simp add: push_bit_eq_mult mult.commute)
  moreover have "16 * o' + l < 256" using assms by simp
  ultimately show "unat (word_of_nat (push_bit 4 o' OR l) :: byte) = 16 * o' + l"
    by (simp only: unat_byte_of_nat mod_less)
  show "(16 * o' + l) AND 15 = l" using assms by simp
  show "drop_bit 4 (16 * o' + l) = o'" using assms by (simp add: drop_bit_eq_div)
qed

lemma decode_header:
  assumes b: "drop position b = word_of_nat (push_bit 4 o' OR l) # rest" and "0 < l" "l \<le> 8" "o' \<le> 8"
    and "l + o' \<le> length rest"
  shows "decode_runs E b position prior runs =
    (let signed_length = decode_signed (take l rest) in
     if signed_length \<le> 0 then Inl (Fail ''invalid non-positive NTFS run length'')
     else if o' = 0 then
       bindE (push_or_overflow E runs 0 (nat signed_length) True ''NTFS runlist length overflow'') (\<lambda>runs.
       decode_runs E b (position + 1 + l) prior runs)
     else
       let delta = decode_signed (take o' (drop l rest)) in
       if delta < 0 \<and> nat (- delta) > prior
       then Inl (Fail ''invalid negative NTFS logical cluster number'')
       else
         let lcn = (if delta < 0 then prior - nat (- delta) else u64 (prior + nat delta)) in
         bindE (push_or_overflow E runs lcn (nat signed_length) False ''NTFS runlist length overflow'') (\<lambda>runs.
         decode_runs E b (position + 1 + l + o') lcn runs))"
proof -
  have pos: "position < length b" using b by (metis drop_eq_Nil2 leI list.distinct(1))
  then have len: "length b = position + 1 + length rest" using arg_cong [OF b, of length] by simp
  have hd: "b ! position = word_of_nat (push_bit 4 o' OR l)"
    using b pos by (metis hd_drop_conv_nth list.sel(1))
  have rest: "drop (position + 1) b = rest" using b by (metis drop_drop drop_Suc_Cons add.commute drop0 One_nat_def)
  have r1: "read_at (position + 1) l b = take l rest" by (simp add: read_at_def rest [simplified])
  have r2: "read_at (position + 1 + l) o' b = take o' (drop l rest)"
    unfolding rest [symmetric] by (simp add: read_at_def add.commute)
  note h = header_fields [OF assms(3,4)]
  have c: "(position \<ge> length b) = False" "(16 * o' + l = 0) = False"
    "(l = 0 \<or> l > 8 \<or> o' > 8 \<or> position + 1 + l + o' > length b) = False"
    using assms len pos by auto
  show ?thesis
    unfolding decode_runs.simps [of E b position prior runs] hd Let_def h r1 r2 c if_False by (rule refl)
qed

lemma push_normal:
  assumes "checked64_ok E" "reserve_ok E" "run_ok r" "length runs < 1000000000"
    and "runs \<noteq> [] \<Longrightarrow> \<not> joins (last runs) r"
  shows "push_or_overflow E runs (nr_lcn r) (nr_length r) (nr_sparse r) message = Inr (runs @ [r])"
proof -
  have "\<not> (runs \<noteq> [] \<and> extends_run E (last runs) (nr_lcn r) (nr_sparse r))"
    using assms(1,5) by (auto simp: extends_run_def joins_def checked64_ok_def split: if_splits)
  moreover have "array_reserve E 24 (length runs + 1)" using assms(2,4) by (simp add: reserve_ok_def)
  ultimately show ?thesis
    using assms(3) by (cases r) (auto simp: push_or_overflow_def ntfs_runs_push_def run_ok_def)
qed

lemma decode_pair:
  assumes "checked64_ok E" "reserve_ok E" "run_ok r" "length runs < 1000000000" "prior < 9223372036854775808"
    and "runs \<noteq> [] \<Longrightarrow> \<not> joins (last runs) r"
    and b: "drop position b = mapping_pair prior r @ rest"
  shows "decode_runs E b position prior runs =
    decode_runs E b (position + length (mapping_pair prior r)) (next_prior prior r) (runs @ [r])"
proof -
  let ?ls = "unsigned_min_bytes (nr_length r)" and ?os = "signed_min_bytes (int (nr_lcn r) - int prior)"
  have r: "0 < nr_length r" "nr_length r < 9223372036854775808" "nr_lcn r < 9223372036854775808"
    "nr_sparse r \<Longrightarrow> nr_lcn r = 0" using assms(3) by (auto simp: run_ok_def)
  have l8: "length ?ls \<le> 8" by (rule unsigned_min_bytes_fits [OF r(2)])
  have l: "decode_signed ?ls = int (nr_length r)" "?ls \<noteq> []" using unsigned_min_bytes_ok [OF r(1) l8] by auto
  have pos: "\<not> int (nr_length r) \<le> 0" using r(1) by simp
  have push: "push_or_overflow E runs (nr_lcn r) (nr_length r) (nr_sparse r) m = Inr (runs @ [r])" for m
    by (rule push_normal [OF assms(1-4,6)])
  show ?thesis
  proof (cases "nr_sparse r")
    case True
    then have "drop position b = word_of_nat (push_bit 4 0 OR length ?ls) # ?ls @ rest"
      using b by (simp add: mapping_pair_def Let_def)
    from decode_header [OF this] l l8 True push r(4) pos show ?thesis
      by (simp add: mapping_pair_def next_prior_def Let_def)
  next
    case False
    have range: "- 9223372036854775808 \<le> int (nr_lcn r) - int prior" "int (nr_lcn r) - int prior < 9223372036854775808"
      using r(3) assms(5) by simp_all
    note os = signed_min_bytes_ok [OF range]
    have "drop position b = word_of_nat (push_bit 4 (length ?os) OR length ?ls) # ?ls @ ?os @ rest"
      using b False by (simp add: mapping_pair_def Let_def)
    note step = decode_header [OF this]
    have lcn: "(if int (nr_lcn r) - int prior < 0 then prior - nat (- (int (nr_lcn r) - int prior))
        else u64 (prior + nat (int (nr_lcn r) - int prior))) = nr_lcn r"
      using r(3) by (auto simp: width_simps nat_diff_distrib' split: if_splits)
    have neg: "\<not> (int (nr_lcn r) - int prior < 0 \<and> nat (- (int (nr_lcn r) - int prior)) > prior)" by auto
    have "length ?os \<noteq> 0" using os by simp
    with step os l l8 push pos lcn neg False show ?thesis
      by (auto simp: mapping_pair_def next_prior_def Let_def add.assoc)
  qed
qed

lemma decode_mapping_pairs:
  assumes "checked64_ok E" "reserve_ok E" "length (runs @ todo) < 1000000000" "prior < 9223372036854775808"
    and "list_all run_ok todo" "successively (\<lambda>r s. \<not> joins r s) todo"
    and "runs \<noteq> [] \<Longrightarrow> todo \<noteq> [] \<Longrightarrow> \<not> joins (last runs) (hd todo)"
    and "drop position b = mapping_pairs prior todo @ rest"
  shows "decode_runs E b position prior runs = Inr (runs @ todo)"
  using assms(3-)
proof (induction todo arbitrary: runs prior position)
  case Nil
  then have b: "drop position b = 0 # rest" by simp
  then have "position < length b" "b ! position = 0"
    by (metis drop_eq_Nil2 leI list.distinct(1), metis b drop_eq_Nil2 hd_drop_conv_nth leI list.distinct(1) list.sel(1))
  then show ?case by (subst decode_runs.simps) simp
next
  case (Cons r todo)
  have ok: "run_ok r" "length runs < 1000000000" "next_prior prior r < 9223372036854775808"
    using Cons.prems by (auto simp: run_ok_def next_prior_def)
  have b: "drop position b = mapping_pair prior r @ mapping_pairs (next_prior prior r) todo @ rest"
    using Cons.prems(6) by simp
  then have "drop (position + length (mapping_pair prior r)) b = mapping_pairs (next_prior prior r) todo @ rest"
    by (metis add.commute append_eq_conv_conj drop_drop)
  then have "decode_runs E b (position + length (mapping_pair prior r)) (next_prior prior r) (runs @ [r]) =
      Inr ((runs @ [r]) @ todo)"
    using Cons.prems ok by (intro Cons.IH) (auto simp: successively_Cons)
  moreover have "runs \<noteq> [] \<Longrightarrow> \<not> joins (last runs) r" using Cons.prems(5) by simp
  ultimately show ?case using decode_pair [OF assms(1,2) ok(1,2) Cons.prems(2) _ b] by simp
qed

lemma encode_single_mapping_pairs:
  assumes "ntfs_encode_single_run lcn len capacity = Inr bs"
  shows "bs = mapping_pairs 0 [\<lparr>nr_lcn = lcn, nr_length = len, nr_sparse = False\<rparr>]" "length bs \<le> capacity"
    "0 < len" "len < 9223372036854775808" "lcn < 9223372036854775808"
proof -
  have c: "length (unsigned_min_bytes len) \<noteq> 0" "length (unsigned_min_bytes len) \<le> 8" "lcn < 9223372036854775808"
    "2 + length (unsigned_min_bytes len) + length (signed_min_bytes (int lcn)) \<le> capacity"
    "bs = word_of_nat (push_bit 4 (length (signed_min_bytes (int lcn))) OR length (unsigned_min_bytes len)) #
       unsigned_min_bytes len @ signed_min_bytes (int lcn) @ [0]"
    using assms by (auto simp: ntfs_encode_single_run_def Let_def split: if_splits)
  then show "bs = mapping_pairs 0 [\<lparr>nr_lcn = lcn, nr_length = len, nr_sparse = False\<rparr>]" "length bs \<le> capacity"
    "lcn < 9223372036854775808"
    by (auto simp: mapping_pair_def Let_def)
  show "0 < len" using c(1) by (cases len) (auto simp: unsigned_min_bytes_def)
  then show "len < 9223372036854775808" using unsigned_min_bytes_ok(3) c(2) by blast
qed

lemma encode_single_fails:
  assumes "ntfs_encode_single_run lcn len capacity = Inl e"
  shows "len = 0 \<or> 9223372036854775807 < len \<or> 9223372036854775807 < lcn \<or>
    capacity < length (mapping_pairs 0 [\<lparr>nr_lcn = lcn, nr_length = len, nr_sparse = False\<rparr>])"
proof (rule ccontr)
  assume *: "\<not> ?thesis"
  then have fits: "0 < len" "len < 9223372036854775808" "lcn < 9223372036854775808" by auto
  have l: "length (unsigned_min_bytes len) \<le> 8" by (rule unsigned_min_bytes_fits [OF fits(2)])
  then have l0: "length (unsigned_min_bytes len) \<noteq> 0" using unsigned_min_bytes_ok(2) [OF fits(1) l] by simp
  have o0: "length (signed_min_bytes (int lcn)) \<noteq> 0" using signed_min_bytes_ok [of "int lcn"] fits(3) by simp
  have "2 + length (unsigned_min_bytes len) + length (signed_min_bytes (int lcn)) \<le> capacity"
    using * by (simp add: mapping_pair_def Let_def)
  then show False using assms l l0 o0 fits(3) by (simp add: ntfs_encode_single_run_def Let_def)
qed

text \<open>A small example: two bytes of length, two of cluster number.\<close>

lemma demo_pairs_length:
  "length (mapping_pairs 0 [\<lparr>nr_lcn = 1000, nr_length = 200, nr_sparse = False\<rparr>]) \<le> 18"
proof -
  have "length (unsigned_min_bytes 200) \<le> 8" by (rule unsigned_min_bytes_fits) simp
  moreover have "length (signed_min_bytes (int 1000)) \<le> 8" using signed_min_bytes_ok [of "int 1000"] by simp
  ultimately show ?thesis by (simp add: mapping_pair_def Let_def)
qed

end
