(* ===== verification/NtfsFixups.thy ===== *)
theory NtfsFixups
  imports NtfsRecords
begin

text \<open>
  Update-sequence fixups: what \<open>ntfs_apply_fixups\<close> and \<open>ntfs_prepare_fixups\<close> compute on a
  record whose update-sequence array lies in the first sector, before its tail.
\<close>

section \<open>Words of a record\<close>

definition word_at :: "env \<Rightarrow> nat \<Rightarrow> bytes \<Rightarrow> nat" where
  "word_at E off b = load_le16 E (read_at off 2 b)"

lemma store_load_le16:
  assumes "endian_ok E" "length bs = 2"
  shows "store_le16 E (load_le16 E bs) = bs"
proof -
  obtain x y where bs: "bs = [x, y]" using assms(2) by (auto simp: length_Suc_conv numeral_2_eq_2)
  have "unat (word_of_nat (unat x + 256 * unat y) :: byte) = unat x"
    unfolding unat_byte_of_nat using unat_byte_less [of x] by simp
  then have "word_of_nat (unat x + 256 * unat y) = x" by (simp only: word_unat_eq_iff)
  moreover have "(unat x + 256 * unat y) div 256 = unat y" using unat_byte_less [of x] by simp
  ultimately show ?thesis
    using load_le16_Cons [OF assms(1), of x y "[]"] store_le16_eq [OF assms(1)] by (simp add: bs)
qed

lemma word_at_less: "endian_ok E \<Longrightarrow> off + 2 \<le> length b \<Longrightarrow> word_at E off b < 65536"
  unfolding word_at_def by (rule load_le16_less) (simp_all add: buf_simps)

lemma word_at_patched:
  "endian_ok E \<Longrightarrow> off + 2 \<le> length b \<Longrightarrow> v < 65536 \<Longrightarrow> word_at E off (patch b off (store_le16 E v)) = v"
  using load_store_le16 [of E v "[]"] by (simp add: word_at_def buf_simps)

lemma get_word: "off + 2 \<le> length b \<Longrightarrow> ntfs_u16 E b off = Inr (word_at E off b)"
  by (simp add: ntfs_u16_def word_at_def)

lemma word_at_cong: "read_at off 2 a = read_at off 2 b \<Longrightarrow> word_at E off a = word_at E off b"
  by (simp add: word_at_def)

lemma put_read_word:
  "endian_ok E \<Longrightarrow> o' + 2 \<le> length a \<Longrightarrow> off + 2 \<le> length b \<Longrightarrow>
   ntfs_put_u16 E b off (word_at E o' a) = Inr (patch b off (read_at o' 2 a))"
  by (simp add: ntfs_put_u16_def word_at_def store_load_le16 buf_simps)

section \<open>The shape of a record\<close>

text \<open>Sectors, the offset of the array and the number of its words.\<close>

definition usa_ok :: "env \<Rightarrow> nat \<Rightarrow> nat \<Rightarrow> nat \<Rightarrow> bytes \<Rightarrow> bool" where
  "usa_ok E s usa_off usa_count b \<longleftrightarrow>
     0 < s \<and> length b = (usa_count - 1) * s \<and> 2 \<le> usa_count \<and> 8 \<le> usa_off \<and> usa_off + 2 * usa_count + 2 \<le> s \<and>
     word_at E 4 b = usa_off \<and> word_at E 6 b = usa_count"

lemma usa_ok_bounds:
  assumes "usa_ok E s usa_off usa_count b" "1 \<le> i" "i < usa_count"
  shows "s \<le> i * s" "i * s \<le> length b" "i * s - 2 + 2 = i * s" "usa_off + 2 * i + 2 \<le> s - 2"
    "usa_off + 2 * usa_count \<le> i * s - 2"
proof -
  have le: "i * s \<le> (usa_count - 1) * s" using assms(3) by (intro mult_le_mono1) simp
  then show "i * s \<le> length b" using assms(1) by (simp add: usa_ok_def)
  show "s \<le> i * s" using assms(2) by (cases i) auto
  then show "i * s - 2 + 2 = i * s" "usa_off + 2 * usa_count \<le> i * s - 2"
    using assms(1) unfolding usa_ok_def by linarith+
  show "usa_off + 2 * i + 2 \<le> s - 2" using assms(1,3) unfolding usa_ok_def by linarith
qed

lemma usa_ok_size:
  assumes "usa_ok E s usa_off usa_count b"
  shows "s \<le> length b" "usa_off + 2 * usa_count + 2 \<le> s" "14 \<le> s" "8 \<le> usa_off"
proof -
  show "usa_off + 2 * usa_count + 2 \<le> s" "8 \<le> usa_off" using assms by (auto simp: usa_ok_def)
  show "14 \<le> s" using assms unfolding usa_ok_def by linarith
  show "s \<le> length b" using usa_ok_bounds(1,2) [OF assms, of 1] assms by (simp add: usa_ok_def)
qed

lemma tails_apart: "i < (j::nat) \<Longrightarrow> i * s + s \<le> j * s"
  by (metis Suc_leI add.commute mult_Suc mult_le_mono1)

lemma usa_geometry_ok:
  assumes "usa_ok E s usa_off usa_count b"
  shows "usa_geometry E b s = Inr (usa_off, usa_count)"
proof -
  have u: "length b = (usa_count - 1) * s" "0 < s" "2 \<le> usa_count"
    "word_at E 4 b = usa_off" "word_at E 6 b = usa_count" using assms by (auto simp: usa_ok_def)
  note z = usa_ok_size [OF assms]
  have "length b mod s = 0" "length b div s + 1 = usa_count" using u by simp_all
  moreover have "4 + 2 \<le> length b" "6 + 2 \<le> length b" using z by linarith+
  then have "ntfs_u16 E b 4 = Inr usa_off" "ntfs_u16 E b 6 = Inr usa_count"
    by (simp_all only: get_word u)
  moreover have "\<not> usa_off + usa_count * 2 > length b" using z by linarith
  ultimately show ?thesis using u(2) by (simp add: usa_geometry_def)
qed

section \<open>Applying\<close>

definition restored :: "nat \<Rightarrow> nat \<Rightarrow> bytes \<Rightarrow> nat \<Rightarrow> bytes" where
  "restored s usa_off raw m = foldl (\<lambda>b i. patch b (i * s - 2) (read_at (usa_off + i * 2) 2 raw)) raw [1..<m]"

lemma restored_Suc: "1 \<le> m \<Longrightarrow>
    restored s usa_off raw (Suc m) = patch (restored s usa_off raw m) (m * s - 2) (read_at (usa_off + m * 2) 2 raw)"
  by (simp add: restored_def)

lemma restored_1 [simp]: "restored s usa_off raw (Suc 0) = raw" "restored s usa_off raw 0 = raw"
  by (simp_all add: restored_def)

lemma length_restored:
  assumes "usa_ok E s usa_off usa_count raw" "m \<le> usa_count"
  shows "length (restored s usa_off raw m) = length raw"
  using assms(2)
proof (induction m)
  case (Suc m)
  then show ?case
  proof (cases "m = 0")
    case False
    with Suc.prems have m: "1 \<le> m" "m < usa_count" by auto
    note b = usa_ok_bounds [OF assms(1) m]
    have "length (read_at (usa_off + m * 2) 2 raw) = 2" using b by (intro length_read_at) linarith
    with b Suc m show ?thesis by (simp add: restored_Suc length_patch)
  qed simp
qed simp

lemma read_restored_other:
  assumes "usa_ok E s usa_off usa_count raw" "m \<le> usa_count" "off + n \<le> length raw"
    and "\<And>i. 1 \<le> i \<Longrightarrow> i < m \<Longrightarrow> off + n \<le> i * s - 2 \<or> i * s \<le> off"
  shows "read_at off n (restored s usa_off raw m) = read_at off n raw"
  using assms(2,4)
proof (induction m)
  case (Suc m)
  show ?case
  proof (cases "m = 0")
    case False
    with Suc.prems have m: "1 \<le> m" "m < usa_count" by auto
    note b = usa_ok_bounds [OF assms(1) m]
    have len: "length (restored s usa_off raw m) = length raw" using length_restored [OF assms(1)] m by simp
    have two: "length (read_at (usa_off + m * 2) 2 raw) = 2" using b by (intro length_read_at) linarith
    have "off + n \<le> m * s - 2 \<or> m * s - 2 + 2 \<le> off" using Suc.prems(2) [of m] m b(3) by auto
    then have "read_at off n (restored s usa_off raw (Suc m)) = read_at off n (restored s usa_off raw m)"
      unfolding restored_Suc [OF m(1)] using b len two assms(3) by (intro read_at_patch_other) auto
    with Suc m show ?thesis by auto
  qed simp
qed simp

lemma read_restored_tail:
  assumes "usa_ok E s usa_off usa_count raw" "m \<le> usa_count" "1 \<le> i" "i < m"
  shows "read_at (i * s - 2) 2 (restored s usa_off raw m) = read_at (usa_off + i * 2) 2 raw"
  using assms(2,4)
proof (induction m)
  case (Suc m)
  with assms(3) have m: "1 \<le> m" "m < usa_count" by auto
  note b = usa_ok_bounds [OF assms(1) m]
  have len: "length (restored s usa_off raw m) = length raw" using length_restored [OF assms(1)] m by simp
  have two: "length (read_at (usa_off + m * 2) 2 raw) = 2" using b by (intro length_read_at) linarith
  show ?case
  proof (cases "i = m")
    case True
    then show ?thesis unfolding restored_Suc [OF m(1)] using b len two by (simp add: read_at_patch_same)
  next
    case False
    then have i: "i < m" using Suc.prems by simp
    have ib: "s \<le> i * s" "i * s \<le> length raw" "i * s - 2 + 2 = i * s"
      using usa_ok_bounds [OF assms(1), of i] assms(3) i m by auto
    have "i * s + s \<le> m * s" using i by (rule tails_apart)
    then have "i * s - 2 + 2 \<le> m * s - 2" using ib usa_ok_size(3) [OF assms(1)] by linarith
    then have "read_at (i * s - 2) 2 (restored s usa_off raw (Suc m)) = read_at (i * s - 2) 2 (restored s usa_off raw m)"
      unfolding restored_Suc [OF m(1)] using b(2,3) len two ib(2,3)
      by (intro read_at_patch_other) simp_all
    with Suc i show ?thesis by simp
  qed
qed simp

lemma apply_loop:
  assumes "endian_ok E" "usa_ok E s usa_off usa_count raw" "m \<le> usa_count"
  shows "foldE (restore_tail E s usa_off usn) [1..<m] raw =
    (if \<forall>i \<in> {1..<m}. word_at E (i * s - 2) raw = usn then Inr (restored s usa_off raw m)
     else Inl (Fail ''NTFS MFT update-sequence mismatch''))"
  using assms(3)
proof (induction m)
  case (Suc m)
  show ?case
  proof (cases "m = 0")
    case False
    with Suc.prems have m: "1 \<le> m" "m < usa_count" by auto
    note b = usa_ok_bounds [OF assms(2) m]
    let ?r = "restored s usa_off raw m"
    have len: "length ?r = length raw" using length_restored [OF assms(2)] m by simp
    have apart: "i * s \<le> m * s - 2" if "1 \<le> i" "i < m" for i
      using tails_apart [OF that(2), of s] assms(2) by (auto simp: usa_ok_def)
    have tail: "read_at (m * s - 2) 2 ?r = read_at (m * s - 2) 2 raw"
      using b m apart by (intro read_restored_other [OF assms(2)]) auto
    have low: "usa_off + m * 2 + 2 \<le> i * s - 2" if "1 \<le> i" "i < m" for i
      using usa_ok_bounds(1) [OF assms(2), of i] that m b(4) by linarith
    have saved: "read_at (usa_off + m * 2) 2 ?r = read_at (usa_off + m * 2) 2 raw"
      using b m low by (intro read_restored_other [OF assms(2)]) auto
    have step: "restore_tail E s usa_off usn m ?r =
        (if word_at E (m * s - 2) raw = usn then Inr (restored s usa_off raw (Suc m))
         else Inl (Fail ''NTFS MFT update-sequence mismatch''))"
    proof -
      have "\<not> m * s < 2" using b(1) usa_ok_size(3) [OF assms(2)] by linarith
      then have "sector_tail (m * s) = Inr (m * s - 2)" by (simp only: sector_tail_def if_False)
      moreover have "ntfs_u16 E ?r (m * s - 2) = Inr (word_at E (m * s - 2) raw)"
        using b len tail by (simp add: get_word word_at_cong [OF tail])
      moreover have "ntfs_u16 E ?r (usa_off + m * 2) = Inr (word_at E (usa_off + m * 2) raw)"
      proof -
        have "usa_off + m * 2 + 2 \<le> length ?r" using b(1,2,4) len by linarith
        then show ?thesis by (simp only: get_word word_at_cong [OF saved])
      qed
      moreover have "ntfs_put_u16 E ?r (m * s - 2) (word_at E (usa_off + m * 2) raw) = Inr (restored s usa_off raw (Suc m))"
      proof -
        have "usa_off + m * 2 + 2 \<le> length raw" "m * s - 2 + 2 \<le> length ?r" using b(1-4) len by linarith+
        then show ?thesis unfolding restored_Suc [OF m(1)] by (rule put_read_word [OF assms(1)])
      qed
      ultimately show ?thesis by (simp add: restore_tail_def)
    qed
    have "[1..<Suc m] = [1..<m] @ [m]" using m by simp
    then have "foldE (restore_tail E s usa_off usn) [1..<Suc m] raw =
        bindE (foldE (restore_tail E s usa_off usn) [1..<m] raw) (restore_tail E s usa_off usn m)"
      by (simp only: foldE_snoc)
    moreover have "{1..<Suc m} = insert m {1..<m}" using m by auto
    ultimately show ?thesis using Suc.IH m step by simp
  qed simp
qed simp

lemma apply_fixups_eq:
  assumes "endian_ok E" "usa_ok E s usa_off usa_count raw"
  shows "ntfs_apply_fixups E raw s =
    (if \<forall>i \<in> {1..<usa_count}. word_at E (i * s - 2) raw = word_at E usa_off raw
     then Inr (restored s usa_off raw usa_count) else Inl (Fail ''NTFS MFT update-sequence mismatch''))"
proof -
  have "usa_off + 2 \<le> length raw"
    using usa_ok_size [OF assms(2)] by linarith
  then show ?thesis
    using apply_loop [OF assms order.refl] by (simp add: ntfs_apply_fixups_def usa_geometry_ok [OF assms(2)] get_word)
qed

section \<open>Preparing\<close>

definition stamped :: "env \<Rightarrow> nat \<Rightarrow> nat \<Rightarrow> bytes \<Rightarrow> nat \<Rightarrow> nat \<Rightarrow> bytes" where
  "stamped E s usa_off fixed usn m =
     foldl (\<lambda>b i. patch (patch b (usa_off + i * 2) (read_at (i * s - 2) 2 fixed)) (i * s - 2) (store_le16 E usn))
       (patch fixed usa_off (store_le16 E usn)) [1..<m]"

lemma stamped_Suc: "1 \<le> m \<Longrightarrow> stamped E s usa_off fixed usn (Suc m) =
    patch (patch (stamped E s usa_off fixed usn m) (usa_off + m * 2) (read_at (m * s - 2) 2 fixed))
      (m * s - 2) (store_le16 E usn)"
  by (simp add: stamped_def)

lemma stamped_1: "stamped E s usa_off fixed usn 1 = patch fixed usa_off (store_le16 E usn)"
  by (simp add: stamped_def)

text \<open>
  What the stamped record holds after sectors \<open>1..<m\<close>: their tails carry the number, the
  array their tails, and everything outside the array and these tails is as before.
\<close>

definition stamped_ok :: "env \<Rightarrow> nat \<Rightarrow> nat \<Rightarrow> nat \<Rightarrow> bytes \<Rightarrow> nat \<Rightarrow> nat \<Rightarrow> bytes \<Rightarrow> bool" where
  "stamped_ok E s usa_off usa_count fixed usn m b \<longleftrightarrow>
     length b = length fixed \<and> read_at usa_off 2 b = store_le16 E usn \<and>
     (\<forall>i \<in> {1..<m}. read_at (i * s - 2) 2 b = store_le16 E usn \<and>
        read_at (usa_off + i * 2) 2 b = read_at (i * s - 2) 2 fixed) \<and>
     (\<forall>off n. off + n \<le> length fixed \<and> (off + n \<le> usa_off \<or> usa_off + 2 * usa_count \<le> off) \<and>
        (\<forall>i \<in> {1..<m}. off + n \<le> i * s - 2 \<or> i * s \<le> off) \<longrightarrow> read_at off n b = read_at off n fixed)"

lemma stamped_ok_first:
  assumes "endian_ok E" "usa_ok E s usa_off usa_count fixed"
  shows "stamped_ok E s usa_off usa_count fixed usn 1 (patch fixed usa_off (store_le16 E usn))"
proof -
  note z = usa_ok_size [OF assms(2)]
  have two: "length (store_le16 E usn) = 2" using assms(1) by simp
  have l: "usa_off + 2 \<le> length fixed" using z by linarith
  show ?thesis
    unfolding stamped_ok_def
  proof (intro conjI allI impI)
    show "length (patch fixed usa_off (store_le16 E usn)) = length fixed" using l two by (simp add: length_patch)
    show "read_at usa_off 2 (patch fixed usa_off (store_le16 E usn)) = store_le16 E usn"
      using l two by (simp add: read_at_patch_same)
    fix off n
    assume a: "off + n \<le> length fixed \<and> (off + n \<le> usa_off \<or> usa_off + 2 * usa_count \<le> off) \<and>
      (\<forall>i \<in> {1..<1}. off + n \<le> i * s - 2 \<or> i * s \<le> off)"
    have "usa_off + 2 \<le> usa_off + 2 * usa_count" using assms(2) by (simp add: usa_ok_def)
    then show "read_at off n (patch fixed usa_off (store_le16 E usn)) = read_at off n fixed"
      using a l two by (intro read_at_patch_other) auto
  qed simp
qed

lemma stamped_ok_step:
  assumes E: "endian_ok E" and ok: "usa_ok E s usa_off usa_count fixed" and m: "1 \<le> m" "m < usa_count"
    and b: "stamped_ok E s usa_off usa_count fixed usn m b"
  defines "t \<equiv> m * s - 2" and "u \<equiv> usa_off + m * 2"
  defines "c \<equiv> patch b u (read_at t 2 fixed)"
  shows "stamp_tail E s usa_off usn m b = Inr (patch c t (store_le16 E usn))" (is "?run")
    and "stamped_ok E s usa_off usa_count fixed usn (Suc m) (patch c t (store_le16 E usn))" (is "?ok")
proof -
  note z = usa_ok_size [OF ok] and bd = usa_ok_bounds [OF ok m]
  have two: "length (store_le16 E usn) = 2" using E by simp
  have t: "t + 2 \<le> length fixed" "t + 2 = m * s" "u + 2 \<le> t" "usa_off + 2 \<le> u"
    using bd z m unfolding t_def u_def by linarith+
  have w: "length (read_at t 2 fixed) = 2" using t by (simp add: length_read_at)
  have lb: "length b = length fixed" using b by (simp add: stamped_ok_def)
  have lc: "length c = length fixed" unfolding c_def using t w lb by (simp add: length_patch)
  have apart: "i * s \<le> t" "u + 2 \<le> i * s - 2" "i * s - 2 + 2 = i * s" "i * s \<le> length fixed" if "i \<in> {1..<m}" for i
  proof -
    have i: "1 \<le> i" "i < usa_count" "i < m" using that m by auto
    note ib = usa_ok_bounds [OF ok i(1,2)]
    show "i * s \<le> t" using tails_apart [OF i(3), of s] z unfolding t_def by linarith
    show "u + 2 \<le> i * s - 2" using ib(5) m unfolding u_def by linarith
    show "i * s - 2 + 2 = i * s" "i * s \<le> length fixed" using ib by auto
  qed
  have same: "read_at off n b = read_at off n fixed"
    if "off + n \<le> length fixed" "off + n \<le> usa_off \<or> usa_off + 2 * usa_count \<le> off"
      "\<And>i. i \<in> {1..<m} \<Longrightarrow> off + n \<le> i * s - 2 \<or> i * s \<le> off" for off n
    using b that unfolding stamped_ok_def by blast
  have tail: "read_at t 2 b = read_at t 2 fixed"
    using t bd(5) apart(1) by (intro same) (auto simp: t_def)
  show ?run
  proof -
    have "\<not> m * s < 2" using t by linarith
    then have "sector_tail (m * s) = Inr t" by (simp only: sector_tail_def if_False t_def)
    moreover have "ntfs_u16 E b t = Inr (word_at E t fixed)"
      using t lb by (simp add: get_word word_at_cong [OF tail])
    moreover have "ntfs_put_u16 E b u (word_at E t fixed) = Inr c"
      unfolding c_def using t lb by (intro put_read_word [OF E]) auto
    moreover have "ntfs_put_u16 E c t usn = Inr (patch c t (store_le16 E usn))"
      using t lc by (simp add: ntfs_put_u16_def)
    ultimately show ?thesis by (simp add: stamp_tail_def u_def)
  qed
  have final: "read_at off n (patch c t (store_le16 E usn)) = read_at off n b"
    if "off + n \<le> length fixed" "off + n \<le> u \<or> u + 2 \<le> off" "off + n \<le> t \<or> t + 2 \<le> off" for off n
  proof -
    have "read_at off n (patch c t (store_le16 E usn)) = read_at off n c"
      using that t lc two by (intro read_at_patch_other) auto
    also have "\<dots> = read_at off n b"
      unfolding c_def using that t lb w by (intro read_at_patch_other) auto
    finally show ?thesis .
  qed
  show ?ok
    unfolding stamped_ok_def
  proof (intro conjI ballI allI impI)
    show "length (patch c t (store_le16 E usn)) = length fixed" using t lc two by (simp add: length_patch)
    show "read_at usa_off 2 (patch c t (store_le16 E usn)) = store_le16 E usn"
      using final [of usa_off 2] b t by (simp add: stamped_ok_def)
    fix i assume "i \<in> {1..<Suc m}"
    then consider "i = m" | "i \<in> {1..<m}" by fastforce
    then show "read_at (i * s - 2) 2 (patch c t (store_le16 E usn)) = store_le16 E usn"
    proof cases
      case 1
      then show ?thesis using t lc two by (simp add: read_at_patch_same flip: t_def)
    next
      case 2
      then have "read_at (i * s - 2) 2 b = store_le16 E usn" using b by (simp add: stamped_ok_def)
      moreover have "read_at (i * s - 2) 2 (patch c t (store_le16 E usn)) = read_at (i * s - 2) 2 b"
        using apart [OF 2] t by (intro final) linarith+
      ultimately show ?thesis by simp
    qed
    from \<open>i \<in> {1..<Suc m}\<close> consider "i = m" | "i \<in> {1..<m}" by fastforce
    then show "read_at (usa_off + i * 2) 2 (patch c t (store_le16 E usn)) = read_at (i * s - 2) 2 fixed"
    proof cases
      case 1
      have "read_at u 2 (patch c t (store_le16 E usn)) = read_at u 2 c"
        using t lc two by (intro read_at_patch_other) auto
      also have "\<dots> = read_at t 2 fixed" unfolding c_def using t lb w by (simp add: read_at_patch_same)
      finally show ?thesis using 1 by (simp add: u_def t_def)
    next
      case 2
      then have "read_at (usa_off + i * 2) 2 b = read_at (i * s - 2) 2 fixed" using b by (simp add: stamped_ok_def)
      moreover have "usa_off + i * 2 + 2 \<le> u" using 2 by (simp add: u_def)
      then have "read_at (usa_off + i * 2) 2 (patch c t (store_le16 E usn)) = read_at (usa_off + i * 2) 2 b"
        using t by (intro final) linarith+
      ultimately show ?thesis by simp
    qed
  next
    fix off n
    assume a: "off + n \<le> length fixed \<and> (off + n \<le> usa_off \<or> usa_off + 2 * usa_count \<le> off) \<and>
      (\<forall>i \<in> {1..<Suc m}. off + n \<le> i * s - 2 \<or> i * s \<le> off)"
    have "m \<in> {1..<Suc m}" using m by simp
    then have "off + n \<le> t \<or> t + 2 \<le> off" using a t(2) unfolding t_def by metis
    moreover have "off + n \<le> u \<or> u + 2 \<le> off" using a m unfolding u_def by linarith
    ultimately have "read_at off n (patch c t (store_le16 E usn)) = read_at off n b" using a by (intro final) auto
    also have "\<dots> = read_at off n fixed" using a by (intro same) auto
    finally show "read_at off n (patch c t (store_le16 E usn)) = read_at off n fixed" .
  qed
qed

lemma stamp_loop:
  assumes "endian_ok E" "usa_ok E s usa_off usa_count fixed" "1 \<le> m" "m \<le> usa_count"
  shows "\<exists>b. foldE (stamp_tail E s usa_off usn) [1..<m] (patch fixed usa_off (store_le16 E usn)) = Inr b \<and>
    stamped_ok E s usa_off usa_count fixed usn m b"
  using assms(3,4)
proof (induction m rule: dec_induct)
  case base
  then show ?case using stamped_ok_first [OF assms(1,2)] by simp
next
  case (step m)
  then obtain b where b: "foldE (stamp_tail E s usa_off usn) [1..<m] (patch fixed usa_off (store_le16 E usn)) = Inr b"
    "stamped_ok E s usa_off usa_count fixed usn m b" by auto
  have "[1..<Suc m] = [1..<m] @ [m]" using step.hyps by simp
  then show ?case
    using stamped_ok_step [OF assms(1,2) _ _ b(2)] step.hyps step.prems b(1) by (auto simp: foldE_snoc)
qed

text \<open>The number a prepared record carries.\<close>

definition next_usn :: "env \<Rightarrow> nat \<Rightarrow> bytes \<Rightarrow> nat" where
  "next_usn E usa_off fixed = (let usn = u16 (word_at E usa_off fixed + 1) in if usn = 0 then 1 else usn)"

lemma prepare_fixups_ok:
  assumes "endian_ok E" "usa_ok E s usa_off usa_count fixed"
  shows "\<exists>raw. ntfs_prepare_fixups E fixed s = Inr raw \<and>
    stamped_ok E s usa_off usa_count fixed (next_usn E usa_off fixed) usa_count raw"
proof -
  note z = usa_ok_size [OF assms(2)]
  have l: "usa_off + 2 \<le> length fixed" using z by linarith
  have c: "1 \<le> usa_count" using assms(2) by (simp add: usa_ok_def)
  show ?thesis
    using stamp_loop [OF assms c order.refl, of "next_usn E usa_off fixed"] l
    by (simp add: ntfs_prepare_fixups_def usa_geometry_ok [OF assms(2)] get_word next_usn_def Let_def ntfs_put_u16_def)
qed

lemma next_usn_less: "next_usn E usa_off fixed < 65536"
  by (simp add: next_usn_def Let_def)

lemma next_usn_changes:
  assumes "endian_ok E" "usa_off + 2 \<le> length fixed"
  shows "next_usn E usa_off fixed \<noteq> word_at E usa_off fixed"
  using word_at_less [OF assms] by (auto simp: next_usn_def Let_def u16_def mod_Suc split: if_splits)

section \<open>The two directions together\<close>

lemma stamped_reads:
  assumes "stamped_ok E s usa_off usa_count fixed usn m b"
  shows "length b = length fixed" "read_at usa_off 2 b = store_le16 E usn"
    and "\<And>i. i \<in> {1..<m} \<Longrightarrow> read_at (i * s - 2) 2 b = store_le16 E usn"
    and "\<And>i. i \<in> {1..<m} \<Longrightarrow> read_at (usa_off + i * 2) 2 b = read_at (i * s - 2) 2 fixed"
    and "\<And>off n. off + n \<le> length fixed \<Longrightarrow> off + n \<le> usa_off \<or> usa_off + 2 * usa_count \<le> off \<Longrightarrow>
       (\<And>i. i \<in> {1..<m} \<Longrightarrow> off + n \<le> i * s - 2 \<or> i * s \<le> off) \<Longrightarrow> read_at off n b = read_at off n fixed"
  using assms unfolding stamped_ok_def by blast+

lemma usa_ok_stamped:
  assumes "usa_ok E s usa_off usa_count fixed" "stamped_ok E s usa_off usa_count fixed usn m b" "m \<le> usa_count"
  shows "usa_ok E s usa_off usa_count b"
proof -
  note z = usa_ok_size [OF assms(1)]
  have far: "8 \<le> i * s - 2" if "i \<in> {1..<m}" for i
    using usa_ok_bounds(5) [OF assms(1), of i] that assms(3) z by auto
  have "read_at 4 2 b = read_at 4 2 fixed" "read_at 6 2 b = read_at 6 2 fixed"
    using z far by (intro stamped_reads(5) [OF assms(2)]; fastforce)+
  then show ?thesis
    using assms(1) stamped_reads(1) [OF assms(2)] by (simp add: usa_ok_def word_at_def)
qed

lemma nth_of_read: "read_at off n a = read_at off n b \<Longrightarrow> off + n \<le> length a \<Longrightarrow> off + n \<le> length b \<Longrightarrow>
    off \<le> k \<Longrightarrow> k < off + n \<Longrightarrow> a ! k = b ! k"
  using nth_read_at [of off n a "k - off"] nth_read_at [of off n b "k - off"] by simp

lemma restored_stamped:
  assumes E: "endian_ok E" and ok: "usa_ok E s usa_off usa_count fixed"
    and st: "stamped_ok E s usa_off usa_count fixed usn usa_count raw"
    and k: "k < length fixed" "k < usa_off \<or> usa_off + 2 * usa_count \<le> k"
  shows "restored s usa_off raw usa_count ! k = fixed ! k"
proof -
  let ?r = "restored s usa_off raw usa_count"
  have raw: "usa_ok E s usa_off usa_count raw" by (rule usa_ok_stamped [OF ok st order.refl])
  note lr = length_restored [OF raw order.refl] and sr = stamped_reads [OF st]
  show ?thesis
  proof (cases "\<exists>i \<in> {1..<usa_count}. i * s - 2 \<le> k \<and> k < i * s")
    case True
    then obtain i where i: "i \<in> {1..<usa_count}" "i * s - 2 \<le> k" "k < i * s" by blast
    then have i': "1 \<le> i" "i < usa_count" by auto
    note b = usa_ok_bounds [OF ok i']
    have "read_at (i * s - 2) 2 ?r = read_at (i * s - 2) 2 fixed"
      using read_restored_tail [OF raw order.refl i'] sr(4) [OF i(1)] by simp
    then show ?thesis using i b lr sr(1) by (intro nth_of_read) auto
  next
    case False
    have out: "k + 1 \<le> i * s - 2 \<or> i * s \<le> k" if "i \<in> {1..<usa_count}" for i
    proof -
      have "\<not> (i * s - 2 \<le> k \<and> k < i * s)" using False that by blast
      then show ?thesis by linarith
    qed
    have "read_at k 1 ?r = read_at k 1 raw"
      using k sr(1) out by (intro read_restored_other [OF raw order.refl]) auto
    also have "\<dots> = read_at k 1 fixed" using k out by (intro sr(5)) auto
    finally have "read_at k 1 ?r = read_at k 1 fixed" .
    then show ?thesis using k lr sr(1) by (intro nth_of_read [of k 1]) auto
  qed
qed

lemma same_sectors:
  assumes "length a = n * s" "length b = n * s" "0 < s" "\<And>i. i < n \<Longrightarrow> read_at (i * s) s a = read_at (i * s) s b"
  shows "a = b"
proof (rule nth_equalityI)
  fix k assume "k < length a"
  then have i: "k div s < n" using assms(1,3) by (simp add: less_mult_imp_div_less)
  then have "(k div s) * s + s \<le> n * s" by (metis Suc_leI add.commute mult_Suc mult_le_mono1)
  moreover have "(k div s) * s \<le> k" "k < (k div s) * s + s"
    using assms(3) by (simp, metis add.commute div_mult_mod_eq mod_less_divisor nat_add_left_cancel_less)
  ultimately show "a ! k = b ! k" using nth_of_read [OF assms(4) [OF i]] assms(1,2) by simp
qed (use assms in simp)

lemma word_in_sector:
  assumes "read_at (i * s) s a = read_at (i * s) s b" "i * s + s \<le> length a" "i * s + s \<le> length b"
    and "i * s \<le> off" "off + 2 \<le> i * s + s"
  shows "word_at E off a = word_at E off b"
proof -
  have "read_at off 2 x = read_at (off - i * s) 2 (read_at (i * s) s x)" for x :: bytes
    using assms(4,5) by (simp add: read_at_def drop_take min_def)
  then show ?thesis using assms(1) by (simp add: word_at_def)
qed

text \<open>A record put together from the sectors of an old and of a new image.\<close>

definition torn :: "nat \<Rightarrow> nat \<Rightarrow> bytes \<Rightarrow> bytes \<Rightarrow> bytes \<Rightarrow> bool" where
  "torn s n old new b \<longleftrightarrow> length b = n * s \<and> b \<noteq> old \<and> b \<noteq> new \<and>
     (\<forall>i < n. read_at (i * s) s b = read_at (i * s) s old \<or> read_at (i * s) s b = read_at (i * s) s new)"

lemma torn_rejected:
  assumes E: "endian_ok E" and old: "usa_ok E s usa_off usa_count old" and new: "usa_ok E s usa_off usa_count new"
    and tails: "\<And>i. i \<in> {1..<usa_count} \<Longrightarrow> word_at E (i * s - 2) old = word_at E usa_off old"
      "\<And>i. i \<in> {1..<usa_count} \<Longrightarrow> word_at E (i * s - 2) new = word_at E usa_off new"
    and differ: "word_at E usa_off old \<noteq> word_at E usa_off new"
    and torn: "torn s (usa_count - 1) old new b"
  shows "ntfs_apply_fixups E b s = Inl (Fail ''NTFS MFT update-sequence mismatch'')"
proof -
  let ?n = "usa_count - 1"
  note z = usa_ok_size [OF old]
  have len: "length old = ?n * s" "length new = ?n * s" "length b = ?n * s" "0 < s" "2 \<le> usa_count"
    using old new torn by (auto simp: usa_ok_def torn_def)
  have sect: "i * s + s \<le> ?n * s" if "i < ?n" for i using tails_apart [OF that] .
  have word: "word_at E off b = word_at E off x"
    if "read_at (i * s) s b = read_at (i * s) s x" "length x = ?n * s" "i < ?n" "i * s \<le> off" "off + 2 \<le> i * s + s"
    for off i x
    using that sect [OF that(3)] len(3) by (intro word_in_sector [OF that(1)]) auto
  have tail_word: "word_at E ((i + 1) * s - 2) b = word_at E ((i + 1) * s - 2) x"
    if "read_at (i * s) s b = read_at (i * s) s x" "length x = ?n * s" "i < ?n" for i x
    using z by (intro word [OF that]) auto
  have first: "usa_ok E s usa_off usa_count b \<and> word_at E usa_off b = word_at E usa_off x"
    if "read_at (0 * s) s b = read_at (0 * s) s x" "usa_ok E s usa_off usa_count x" for x
  proof -
    have lx: "length x = ?n * s" "0 < ?n" using that(2) len by (auto simp: usa_ok_def)
    have "word_at E off b = word_at E off x" if "off + 2 \<le> s" for off
      using that by (intro word [OF \<open>read_at (0 * s) s b = _\<close> lx]) auto
    then show ?thesis using z that(2) len by (auto simp: usa_ok_def)
  qed
  have pick: "\<exists>i < ?n. read_at (i * s) s b = read_at (i * s) s y \<and> read_at (i * s) s b \<noteq> read_at (i * s) s x"
    if "b \<noteq> x" "length x = ?n * s" "x = old \<and> y = new \<or> x = new \<and> y = old" for x y
    using same_sectors [OF len(3) that(2) len(4)] that torn unfolding torn_def by metis
  have mismatch: "\<exists>i \<in> {1..<usa_count}. word_at E (i * s - 2) b \<noteq> word_at E usa_off b" "usa_ok E s usa_off usa_count b"
  proof -
    have "0 < ?n" using len by simp
    then consider "read_at (0 * s) s b = read_at (0 * s) s old" | "read_at (0 * s) s b = read_at (0 * s) s new"
      using torn unfolding torn_def by blast
    then have "(\<exists>i \<in> {1..<usa_count}. word_at E (i * s - 2) b \<noteq> word_at E usa_off b) \<and> usa_ok E s usa_off usa_count b"
    proof cases
      case 1
      obtain i where i: "i < ?n" "read_at (i * s) s b = read_at (i * s) s new" using pick [of old new] torn len by (auto simp: torn_def)
      then have "word_at E ((i + 1) * s - 2) b = word_at E usa_off new" using tail_word [OF i(2)] len tails(2) [of "i + 1"] by simp
      then show ?thesis using first [OF 1 old] differ i(1) by (intro conjI bexI [of _ "i + 1"]) auto
    next
      case 2
      obtain i where i: "i < ?n" "read_at (i * s) s b = read_at (i * s) s old" using pick [of new old] torn len by (auto simp: torn_def)
      then have "word_at E ((i + 1) * s - 2) b = word_at E usa_off old" using tail_word [OF i(2)] len tails(1) [of "i + 1"] by simp
      then show ?thesis using first [OF 2 new] differ i(1) by (intro conjI bexI [of _ "i + 1"]) auto
    qed
    then show "\<exists>i \<in> {1..<usa_count}. word_at E (i * s - 2) b \<noteq> word_at E usa_off b" "usa_ok E s usa_off usa_count b" by auto
  qed
  then show ?thesis using apply_fixups_eq [OF E mismatch(2)] by auto
qed

end
