(* ===== verification/NtfsStreams.thy ===== *)
theory NtfsStreams
  imports NtfsRecords
begin

text \<open>
  Metadata streams as one sequence of bytes: reading a range of a stream gives that range of
  its runs put together, and writing one changes exactly that range.
\<close>

section \<open>The bytes of a stream\<close>

definition run_data :: "bytes \<Rightarrow> nat \<Rightarrow> NtfsRun \<Rightarrow> bytes" where
  "run_data d cs r = read_at (nr_lcn r * cs) (nr_length r * cs) d"

definition stream_data :: "bytes \<Rightarrow> nat \<Rightarrow> NtfsRun list \<Rightarrow> bytes" where
  "stream_data d cs runs = concat (map (run_data d cs) runs)"

definition run_inside :: "nat \<Rightarrow> nat \<Rightarrow> NtfsRun \<Rightarrow> bool" where
  "run_inside disk_bytes cs r \<longleftrightarrow> \<not> nr_sparse r \<and> (nr_lcn r + nr_length r) * cs \<le> disk_bytes"

definition apart :: "NtfsRun \<Rightarrow> NtfsRun \<Rightarrow> bool" where
  "apart r s \<longleftrightarrow> nr_lcn r + nr_length r \<le> nr_lcn s \<or> nr_lcn s + nr_length s \<le> nr_lcn r"

definition stream_bytes :: "nat \<Rightarrow> NtfsRun list \<Rightarrow> nat" where
  "stream_bytes cs runs = sum_list (map (\<lambda>r. nr_length r * cs) runs)"

lemma stream_data_Cons [simp]: "stream_data d cs (r # runs) = run_data d cs r @ stream_data d cs runs"
  by (simp add: stream_data_def)

lemma stream_data_Nil [simp]: "stream_data d cs [] = []"
  by (simp add: stream_data_def)

lemma stream_bytes_simps [simp]:
  "stream_bytes cs [] = 0" "stream_bytes cs (r # runs) = nr_length r * cs + stream_bytes cs runs"
  by (simp_all add: stream_bytes_def)

lemma length_run_data: "run_inside (length d) cs r \<Longrightarrow> length (run_data d cs r) = nr_length r * cs"
  unfolding run_inside_def run_data_def by (intro length_read_at) (simp add: add_mult_distrib)

lemma length_stream_data: "list_all (run_inside (length d) cs) runs \<Longrightarrow> length (stream_data d cs runs) = stream_bytes cs runs"
  by (induction runs) (auto simp: length_run_data)

lemma read_at_append:
  "read_at off n (xs @ ys) = read_at off n xs @ read_at (off - length xs) (n - (length xs - off)) ys"
  by (simp add: read_at_def)

lemma read_at_skip: "length xs \<le> off \<Longrightarrow> read_at off n (xs @ ys) = read_at (off - length xs) n ys"
  by (simp add: read_at_def)

lemma read_at_all: "read_at off n xs = drop off xs" if "length xs \<le> off + n"
  using that by (simp add: read_at_def)

section \<open>Reading\<close>

lemma read_segments_eq:
  assumes "io_reliable E" "length d \<le> SSIZE_MAX" "0 < cs"
    and "list_all (run_inside (length d) cs) runs" "cursor + stream_bytes cs runs \<le> UINT64_MAX"
    and "cursor \<le> wanted" "wanted - cursor + remaining \<le> stream_bytes cs runs"
  shows "read_segments E d cs runs cursor wanted remaining =
    Inr (read_at (wanted - cursor) remaining (stream_data d cs runs))"
  using assms(4-)
proof (induction runs arbitrary: cursor wanted remaining)
  case Nil
  then show ?case by (simp add: read_at_def)
next
  case (Cons r runs)
  let ?L = "nr_length r * cs"
  have r: "run_inside (length d) cs r" and rest: "list_all (run_inside (length d) cs) runs" using Cons.prems(1) by auto
  have ins: "\<not> nr_sparse r" "nr_lcn r * cs + ?L \<le> length d" using r by (auto simp: run_inside_def add_mult_distrib)
  have L: "length (run_data d cs r) = ?L" by (rule length_run_data [OF r])
  have u: "u64 ?L = ?L" "u64 (cursor + ?L) = cursor + ?L" "u64 (nr_lcn r * cs) = nr_lcn r * cs"
    using Cons.prems(2) ins(2) assms(2) by (auto intro!: u64_id)
  show ?case
  proof (cases "remaining = 0")
    case True
    then show ?thesis by (simp add: read_at_def)
  next
    case False
    show ?thesis
    proof (cases "wanted \<ge> cursor + ?L")
      case True
      have "read_segments E d cs runs (cursor + ?L) wanted remaining =
          Inr (read_at (wanted - (cursor + ?L)) remaining (stream_data d cs runs))"
        using Cons.prems rest True by (intro Cons.IH) auto
      then show ?thesis using False True L by (simp add: u Let_def read_at_skip)
    next
      case inside: False
      define within n where "within = wanted - cursor" and "n = min (?L - within) remaining"
      have w: "within < ?L" "(if wanted > cursor then wanted - cursor else 0) = within" "n \<le> remaining" "within + n \<le> ?L"
        using inside Cons.prems(3) by (auto simp: within_def n_def)
      have phys: "u64 (u64 (nr_lcn r * cs) + within) = nr_lcn r * cs + within"
        unfolding u(3) using ins(2) w assms(2) by (intro u64_id) linarith
      have fit: "nr_lcn r * cs + within + n \<le> length d" using ins(2) w(4) by linarith
      then have rd: "ld_pread_full E d n (nr_lcn r * cs + within) = Some (read_at (nr_lcn r * cs + within) n d)"
        using assms(1,2) by (simp add: ld_pread_full_def io_reliable_read)
      have first: "read_at (nr_lcn r * cs + within) n d = read_at within n (run_data d cs r)"
        unfolding run_data_def using w(4) by (simp add: read_at_read_at)
      have wrap: "u64 (wanted + n) = wanted + n"
      proof (rule u64_id)
        have "wanted + n \<le> cursor + ?L" using w Cons.prems(3) by (simp add: within_def)
        then show "wanted + n < 18446744073709551616" using Cons.prems(2) by simp
      qed
      have rest_read: "read_segments E d cs runs (cursor + ?L) (wanted + n) (remaining - n) =
          Inr (read_at 0 (remaining - n) (stream_data d cs runs))"
      proof (cases "remaining = n")
        case True
        then show ?thesis by (cases runs) (simp_all add: read_at_def)
      next
        case False
        then have n: "n = ?L - within" using w by (simp add: n_def min_def split: if_splits)
        then have "wanted + n = cursor + ?L" using w Cons.prems(3) by (simp add: within_def)
        then show ?thesis using Cons.prems rest n w
          by (subst Cons.IH) (auto simp: within_def)
      qed
      have "read_at within remaining (run_data d cs r) = read_at within n (run_data d cs r)"
        using L by (simp add: read_at_def n_def min_def)
      moreover have "remaining - (?L - within) = remaining - n" by (simp add: n_def min_def)
      ultimately have "read_at within remaining (stream_data d cs (r # runs)) =
          read_at within n (run_data d cs r) @ read_at 0 (remaining - n) (stream_data d cs runs)"
        using L w by (simp add: read_at_append)
      then show ?thesis
        using False inside rd first rest_read ins(1) w(2)
        by (simp add: u(1,2) Let_def phys wrap flip: n_def within_def)
    qed
  qed
qed

section \<open>Writing\<close>

definition run_byte :: "nat \<Rightarrow> NtfsRun list \<Rightarrow> nat \<Rightarrow> bool" where
  "run_byte cs runs k \<longleftrightarrow> (\<exists>r \<in> set runs. nr_lcn r * cs \<le> k \<and> k < (nr_lcn r + nr_length r) * cs)"

lemma run_byte_Cons:
  "run_byte cs (r # runs) k \<longleftrightarrow> nr_lcn r * cs \<le> k \<and> k < (nr_lcn r + nr_length r) * cs \<or> run_byte cs runs k"
  by (auto simp: run_byte_def)

text \<open>What a completed write of \<open>data\<close> at \<open>off\<close> in the stream leaves on the target.\<close>

definition stream_written :: "nat \<Rightarrow> NtfsRun list \<Rightarrow> nat \<Rightarrow> bytes \<Rightarrow> bytes \<Rightarrow> bytes \<Rightarrow> bool" where
  "stream_written cs runs off data d d' \<longleftrightarrow> length d' = length d \<and>
     stream_data d' cs runs = patch (stream_data d cs runs) off data \<and>
     (\<forall>k < length d. \<not> run_byte cs runs k \<longrightarrow> d' ! k = d ! k)"

lemma run_data_cong:
  assumes "length d' = length d" "run_inside (length d) cs r"
    and "\<And>k. nr_lcn r * cs \<le> k \<Longrightarrow> k < (nr_lcn r + nr_length r) * cs \<Longrightarrow> d' ! k = d ! k"
  shows "run_data d' cs r = run_data d cs r"
proof (rule nth_equalityI)
  have ins: "nr_lcn r * cs + nr_length r * cs \<le> length d" using assms(2) by (simp add: run_inside_def add_mult_distrib)
  show "length (run_data d' cs r) = length (run_data d cs r)" using assms by (simp add: length_run_data)
  fix i assume "i < length (run_data d' cs r)"
  then have "i < nr_length r * cs" using assms by (simp add: length_run_data)
  then show "run_data d' cs r ! i = run_data d cs r ! i"
    using assms(1) ins by (simp add: run_data_def nth_read_at assms(3) add_mult_distrib)
qed

lemma stream_data_cong:
  assumes "length d' = length d" "list_all (run_inside (length d) cs) runs" "\<And>k. run_byte cs runs k \<Longrightarrow> d' ! k = d ! k"
  shows "stream_data d' cs runs = stream_data d cs runs"
  using assms(2,3)
  by (induction runs) (auto simp: run_byte_Cons intro!: run_data_cong [OF assms(1)])

lemma apart_bytes:
  assumes "\<forall>s \<in> set runs. apart r s" "run_byte cs runs k"
  shows "\<not> (nr_lcn r * cs \<le> k \<and> k < (nr_lcn r + nr_length r) * cs)"
proof
  assume r: "nr_lcn r * cs \<le> k \<and> k < (nr_lcn r + nr_length r) * cs"
  obtain s where s: "s \<in> set runs" "nr_lcn s * cs \<le> k" "k < (nr_lcn s + nr_length s) * cs"
    using assms(2) by (auto simp: run_byte_def)
  then consider "nr_lcn r + nr_length r \<le> nr_lcn s" | "nr_lcn s + nr_length s \<le> nr_lcn r"
    using assms(1) by (auto simp: apart_def)
  then show False
  proof cases
    case 1
    then have "(nr_lcn r + nr_length r) * cs \<le> nr_lcn s * cs" by (rule mult_le_mono1)
    with r s show False by linarith
  next
    case 2
    then have "(nr_lcn s + nr_length s) * cs \<le> nr_lcn r * cs" by (rule mult_le_mono1)
    with r s show False by linarith
  qed
qed

lemma write_segments_eq:
  assumes "io_reliable E" "0 < cs"
    and "length (w_disk w) \<le> SSIZE_MAX" "list_all (run_inside (length (w_disk w)) cs) runs" "sorted_wrt apart runs"
    and "cursor + stream_bytes cs runs \<le> UINT64_MAX"
    and "cursor \<le> wanted" "wanted - cursor + length data \<le> stream_bytes cs runs"
  shows "\<exists>w'. write_segments E cs runs cursor wanted data w = (Inr (), w') \<and>
    stream_written cs runs (wanted - cursor) data (w_disk w) (w_disk w')"
  using assms(3-)
proof (induction runs arbitrary: cursor wanted data w)
  case Nil
  then have "data = []" by (cases data) auto
  then show ?case by (simp add: die_ifI_def retI_def stream_written_def)
next
  case (Cons r runs)
  let ?L = "nr_length r * cs" and ?d = "w_disk w"
  have r: "run_inside (length ?d) cs r" and rest: "list_all (run_inside (length ?d) cs) runs"
    and ap: "\<forall>s \<in> set runs. apart r s" "sorted_wrt apart runs" using Cons.prems(2,3) by auto
  have ins: "\<not> nr_sparse r" "nr_lcn r * cs + ?L \<le> length ?d" using r by (auto simp: run_inside_def add_mult_distrib)
  have L: "length (run_data ?d cs r) = ?L" by (rule length_run_data [OF r])
  have u: "u64 ?L = ?L" "u64 (cursor + ?L) = cursor + ?L" "u64 (nr_lcn r * cs) = nr_lcn r * cs"
    using Cons.prems(1,4) ins(2) by (auto intro!: u64_id)
  have own: "\<not> run_byte cs runs k" if "nr_lcn r * cs \<le> k" "k < (nr_lcn r + nr_length r) * cs" for k
    using apart_bytes [OF ap(1)] that by blast
  show ?case
  proof (cases "data = []")
    case True
    then show ?thesis by (simp add: retI_def stream_written_def)
  next
    case data: False
    show ?thesis
    proof (cases "wanted \<ge> cursor + ?L")
      case True
      have "\<exists>w'. write_segments E cs runs (cursor + ?L) wanted data w = (Inr (), w') \<and>
          stream_written cs runs (wanted - (cursor + ?L)) data ?d (w_disk w')"
        using Cons.prems rest ap True by (intro Cons.IH) auto
      then obtain w' where w': "write_segments E cs runs (cursor + ?L) wanted data w = (Inr (), w')"
        "stream_written cs runs (wanted - (cursor + ?L)) data ?d (w_disk w')" by blast
      have "run_data (w_disk w') cs r = run_data ?d cs r"
        using w'(2) r own ins(2) by (intro run_data_cong) (auto simp: stream_written_def add_mult_distrib)
      moreover have "patch (run_data ?d cs r @ xs) (wanted - cursor) data =
          run_data ?d cs r @ patch xs (wanted - (cursor + ?L)) data" for xs
        using True L by (simp add: patch_def)
      ultimately have "stream_written cs (r # runs) (wanted - cursor) data ?d (w_disk w')"
        using w'(2) by (auto simp: stream_written_def run_byte_Cons)
      then show ?thesis using w'(1) data True by (simp add: u Let_def)
    next
      case inside: False
      define within n where "within = wanted - cursor" and "n = min (?L - within) (length data)"
      have w: "within < ?L" "(if wanted > cursor then wanted - cursor else 0) = within" "n \<le> length data" "within + n \<le> ?L"
        using inside Cons.prems(5) by (auto simp: within_def n_def)
      define p where "p = nr_lcn r * cs + within"
      have phys: "u64 (u64 (nr_lcn r * cs) + within) = p"
        unfolding u(3) p_def using ins(2) w Cons.prems(1) by (intro u64_id) linarith
      have fit: "p + n \<le> length ?d" using ins(2) w(4) unfolding p_def by linarith
      have n: "length (take n data) = n" using w(3) by simp
      define w1 where "w1 = after_write (take n data) p w"
      have "pwrite_full E (length (w_trace w)) ?d (take n data) p = (True, patch ?d p (take n data))"
        using fit n by (intro io_reliable_write [OF assms(1)]) simp
      then have wr: "ld_pwrite_full E (take n data) p w = (Inr True, w1)"
        using n fit Cons.prems(1) by (simp add: ld_pwrite_full_def w1_def after_write_def)
      have d1: "w_disk w1 = patch ?d p (take n data)" by (simp add: w1_def)
      have l1: "length (w_disk w1) = length ?d" unfolding d1 using fit n by (simp add: length_patch)
      have at1: "w_disk w1 ! k = (if p \<le> k \<and> k < p + n then take n data ! (k - p) else ?d ! k)" if "k < length ?d" for k
        unfolding d1 using nth_patch [of p "take n data" ?d k] fit n that by simp
      have p_in: "nr_lcn r * cs \<le> p" "p + n \<le> (nr_lcn r + nr_length r) * cs" using w(4) by (auto simp: p_def add_mult_distrib)
      have rest1: "stream_data (w_disk w1) cs runs = stream_data ?d cs runs"
      proof (rule stream_data_cong [OF l1 rest])
        fix k assume k: "run_byte cs runs k"
        then have "\<not> (p \<le> k \<and> k < p + n)" using own p_in by (meson le_trans less_le_trans)
        moreover have "k < length ?d" using k rest by (auto simp: run_byte_def list_all_iff run_inside_def)
        ultimately show "w_disk w1 ! k = ?d ! k" by (simp only: at1 if_False)
      qed
      have own1: "run_data (w_disk w1) cs r = patch (run_data ?d cs r) within (take n data)"
      proof (rule nth_equalityI)
        show "length (run_data (w_disk w1) cs r) = length (patch (run_data ?d cs r) within (take n data))"
          using r l1 L n w(4) by (simp add: length_run_data length_patch)
        fix i assume "i < length (run_data (w_disk w1) cs r)"
        then have i: "i < ?L" using r l1 by (simp add: length_run_data)
        then have "run_data (w_disk w1) cs r ! i = w_disk w1 ! (nr_lcn r * cs + i)"
          "run_data ?d cs r ! i = ?d ! (nr_lcn r * cs + i)"
          using ins(2) l1 by (simp_all add: run_data_def nth_read_at)
        moreover have "nr_lcn r * cs + i < length ?d" using i ins(2) by linarith
        moreover have "p \<le> nr_lcn r * cs + i \<longleftrightarrow> within \<le> i" "nr_lcn r * cs + i < p + n \<longleftrightarrow> i < within + n"
          "nr_lcn r * cs + i - p = i - within" by (auto simp: p_def)
        ultimately show "run_data (w_disk w1) cs r ! i = patch (run_data ?d cs r) within (take n data) ! i"
          using nth_patch [of within "take n data" "run_data ?d cs r" i] i w(4) n L by (simp add: at1)
      qed
      have wrap: "u64 (wanted + n) = wanted + n"
      proof (rule u64_id)
        have "wanted + n \<le> cursor + ?L" using w Cons.prems(5) by (simp add: within_def)
        then show "wanted + n < 18446744073709551616" using Cons.prems(4) by simp
      qed
      have "\<exists>w'. write_segments E cs runs (cursor + ?L) (wanted + n) (drop n data) w1 = (Inr (), w') \<and>
          stream_written cs runs 0 (drop n data) (w_disk w1) (w_disk w')"
      proof (cases "n = length data")
        case True
        then show ?thesis by (cases runs) (simp_all add: die_ifI_def retI_def stream_written_def)
      next
        case False
        then have n': "n = ?L - within" using w by (simp add: n_def min_def split: if_splits)
        then have e: "wanted + n = cursor + ?L" using w Cons.prems(5) by (simp add: within_def)
        have "\<exists>w'. write_segments E cs runs (cursor + ?L) (wanted + n) (drop n data) w1 = (Inr (), w') \<and>
            stream_written cs runs (wanted + n - (cursor + ?L)) (drop n data) (w_disk w1) (w_disk w')"
          using Cons.prems rest n' w ap e l1 by (intro Cons.IH) (auto simp: within_def)
        then show ?thesis by (simp add: e)
      qed
      then obtain w' where w': "write_segments E cs runs (cursor + ?L) (wanted + n) (drop n data) w1 = (Inr (), w')"
        "stream_written cs runs 0 (drop n data) (w_disk w1) (w_disk w')" by blast
      have lw: "length (w_disk w') = length ?d" using w'(2) l1 by (simp add: stream_written_def)
      have keep: "run_data (w_disk w') cs r = run_data (w_disk w1) cs r"
        using w'(2) r own ins(2) l1 by (intro run_data_cong) (auto simp: stream_written_def add_mult_distrib)
      have "patch (run_data ?d cs r @ xs) within data = patch (run_data ?d cs r) within (take n data) @ patch xs 0 (drop n data)"
        if "length data - n \<le> length xs" for xs
      proof (cases "n = length data")
        case True
        then show ?thesis using w(4) L by (simp add: patch_def)
      next
        case False
        then have "n = ?L - within" using w by (simp add: n_def min_def split: if_splits)
        then have "within + n = ?L" using w by simp
        moreover have "within + length data - ?L = length data - n" using calculation by simp
        ultimately show ?thesis using w L n by (simp add: patch_def)
      qed
      moreover have "length data - n \<le> length (stream_data ?d cs runs)"
        using Cons.prems(6) w(3) by (simp add: length_stream_data [OF rest] n_def within_def min_def split: if_splits)
      ultimately have "stream_data (w_disk w') cs (r # runs) = patch (stream_data ?d cs (r # runs)) within data"
        using w'(2) keep own1 rest1 by (simp add: stream_written_def)
      moreover have "w_disk w' ! k = ?d ! k" if k: "k < length ?d" "\<not> run_byte cs (r # runs) k" for k
      proof -
        have "\<not> (p \<le> k \<and> k < p + n)" using k(2) p_in unfolding run_byte_Cons by (meson le_trans less_le_trans)
        then have "w_disk w1 ! k = ?d ! k" using at1 [OF k(1)] by (simp only: if_False)
        moreover have "w_disk w' ! k = w_disk w1 ! k"
          using w'(2) k l1 by (simp add: stream_written_def run_byte_Cons)
        ultimately show ?thesis by simp
      qed
      ultimately have "stream_written cs (r # runs) within data ?d (w_disk w')"
        using lw by (auto simp: stream_written_def)
      then show ?thesis
        using w'(1) data inside ins(1) w(2)
        by (simp add: u(1,2) Let_def phys wrap bindI_def wr flip: n_def within_def)
    qed
  qed
qed

end
