(* ===== verification/NtfsCatalog.thy ===== *)
theory NtfsCatalog
  imports NtfsRecords
begin

text \<open>
  \<open>ntfs_catalog.c\<close>: the scan of all MFT records into a catalogue of non-resident streams, with
  the decision which of them may be moved and the fragmentation counts.
\<close>

section \<open>Streams and objects\<close>

abbreviation (input) NTFS_RECORD_IN_USE :: nat where "NTFS_RECORD_IN_USE \<equiv> 0x0001"
abbreviation (input) NTFS_RECORD_DIRECTORY :: nat where "NTFS_RECORD_DIRECTORY \<equiv> 0x0002"
abbreviation (input) NTFS_FIRST_USER_RECORD :: nat where "NTFS_FIRST_USER_RECORD \<equiv> 24"
abbreviation (input) NTFS_FILE_REFERENCE_MASK :: nat where "NTFS_FILE_REFERENCE_MASK \<equiv> 0x0000ffffffffffff"

text \<open>\<open>NTFS_ATTR_COMPRESSED | NTFS_ATTR_ENCRYPTED | NTFS_ATTR_SPARSE\<close>\<close>

abbreviation (input) NTFS_ATTR_SPECIAL :: nat where "NTFS_ATTR_SPECIAL \<equiv> 0xC001"

record NtfsStream =
  ns_record_number :: nat
  ns_base_record :: nat
  ns_attribute_offset :: nat
  ns_attribute_type :: nat
  ns_attribute_flags :: nat
  ns_directory :: bool
  ns_movable :: bool
  ns_lowest_vcn :: nat
  ns_clusters :: nat
  ns_data_size :: nat
  ns_mapping_capacity :: nat
  ns_file_name :: string
  ns_attribute_name :: string
  ns_runs :: "NtfsRun list"

record NtfsCatalogue =
  nc_items :: "NtfsStream list"
  nc_records_scanned :: nat
  nc_malformed_records :: nat
  nc_regular_files :: nat
  nc_directories :: nat
  nc_fragmented_files :: nat
  nc_fragmented_directories :: nat
  nc_growth_10_satisfied :: bool
  nc_hibernation_active :: bool

record ObjectState =
  os_record :: nat
  os_present :: bool
  os_directory :: bool
  os_name :: string

text \<open>The objects with the one of the record among them, and its index.\<close>

definition object_get :: "env \<Rightarrow> ObjectState list \<Rightarrow> nat \<Rightarrow> (ObjectState list \<times> nat) res" where
  "object_get E objects n =
     (let i = length (takeWhile (\<lambda>ob. os_record ob \<noteq> n) objects) in
      if i < length objects then Inr (objects, i)
      else if \<not> array_reserve E 272 (length objects + 1) then Inl (Die ''cannot grow NTFS object catalogue'')
      else Inr (objects @ [\<lparr>os_record = n, os_present = False, os_directory = False, os_name = []\<rparr>], i))"

definition stream_push :: "env \<Rightarrow> NtfsStream list \<Rightarrow> NtfsStream \<Rightarrow> NtfsStream list res" where
  "stream_push E items s =
     (if \<not> array_reserve E 472 (length items + 1) then Inl (Die ''cannot grow NTFS stream catalogue'')
      else Inr (items @ [s]))"

section \<open>Names\<close>

definition system_names :: "string list" where
  "system_names = [''$MFT'', ''$MFTMirr'', ''$LogFile'', ''$Volume'', ''$AttrDef'', ''$Root'', ''$Bitmap'', ''$Boot'',
     ''$BadClus'', ''$Secure'', ''$UpCase'', ''$Extend'']"

text \<open>
  One attribute of the search: the best score so far (none is \<open>-1\<close>) and the name it gave.
  Offset and length of the value are added in 32 bits.
\<close>

definition better_name :: "env \<Rightarrow> bytes \<Rightarrow> NtfsAttribute \<Rightarrow> int \<times> string \<Rightarrow> (int \<times> string) res" where
  "better_name E fixed a best =
     (if na_type a \<noteq> NTFS_ATTR_FILE_NAME \<or> na_nonresident a \<or> na_length a < 24 then Inr best
      else
        bindE (ntfs_u32 E fixed (na_offset a + 16)) (\<lambda>value_len.
        bindE (ntfs_u16 E fixed (na_offset a + 20)) (\<lambda>value_off.
        if value_len < 66 \<or> u32 (value_off + value_len) > na_length a then Inr best
        else
          let start = na_offset a + value_off in
          bindE (array_get ''file name'' fixed (start + 64)) (\<lambda>chars_byte.
          bindE (array_get ''file name'' fixed (start + 65)) (\<lambda>space_byte.
          let chars = unat chars_byte; ns = unat space_byte in
          if 66 + chars * 2 > value_len then Inr best
          else
            let score = (if ns = 1 \<or> ns = 3 then 3 else if ns = 0 then 2 else 1) in
            if score < fst best then Inr best
            else bindE (decode_utf16_ascii E fixed (start + 66) chars 256) (\<lambda>name. Inr (score, name)))))))"

definition best_file_name :: "env \<Rightarrow> bytes \<Rightarrow> NtfsAttribute list \<Rightarrow> nat \<Rightarrow> string res" where
  "best_file_name E fixed attributes n =
     (if n < length system_names then Inr (system_names ! n)
      else bindE (foldE (better_name E fixed) attributes (-1, [])) (\<lambda>best. Inr (snd best)))"

definition lower_ascii :: "char \<Rightarrow> nat" where
  "lower_ascii c = (let n = of_char c in if 65 \<le> n \<and> n \<le> 90 then n + 32 else n)"

definition equal_case_ascii :: "string \<Rightarrow> string \<Rightarrow> bool" where
  "equal_case_ascii a b \<longleftrightarrow> map lower_ascii a = map lower_ascii b"

section \<open>Which stream may move\<close>

definition desired_attribute :: "bool \<Rightarrow> NtfsAttribute \<Rightarrow> bool" where
  "desired_attribute directory a \<longleftrightarrow> na_nonresident a \<and>
     (if directory then na_type a = NTFS_ATTR_INDEX_ALLOCATION else na_type a = NTFS_ATTR_DATA \<and> na_name a = [])"

definition desired_count :: "bool \<Rightarrow> NtfsAttribute list \<Rightarrow> nat" where
  "desired_count directory attributes = length (filter (desired_attribute directory) attributes)"

definition has_attribute_list :: "NtfsAttribute list \<Rightarrow> bool" where
  "has_attribute_list attributes \<longleftrightarrow> list_ex (\<lambda>a. na_type a = NTFS_ATTR_ATTRIBUTE_LIST) attributes"

definition mapping_capacity :: "NtfsAttribute \<Rightarrow> nat" where
  "mapping_capacity a = (if na_run_offset a > na_length a then 0 else na_length a - na_run_offset a)"

definition all_physical :: "NtfsRun list \<Rightarrow> bool" where
  "all_physical runs \<longleftrightarrow> list_all (\<lambda>r. \<not> nr_sparse r) runs"

definition stream_movable :: "nat \<Rightarrow> nat \<Rightarrow> bool \<Rightarrow> NtfsAttribute list \<Rightarrow> NtfsAttribute \<Rightarrow> bool" where
  "stream_movable n base directory attributes a \<longleftrightarrow>
     n \<ge> NTFS_FIRST_USER_RECORD \<and> base = 0 \<and> \<not> has_attribute_list attributes \<and>
     desired_count directory attributes = 1 \<and> desired_attribute directory a \<and> na_lowest_vcn a = 0 \<and>
     na_flags a AND NTFS_ATTR_SPECIAL = 0 \<and> all_physical (na_runs a) \<and> na_data_size a \<noteq> 0 \<and> mapping_capacity a \<ge> 4"

definition stream_header_nonzero :: "env \<Rightarrow> NtfsVolume \<Rightarrow> bytes \<Rightarrow> NtfsRun list \<Rightarrow> nat \<Rightarrow> bool res" where
  "stream_header_nonzero E v d runs data_size =
     (if data_size = 0 \<or> runs = [] then Inr False
      else bindE (ntfs_read_stream E v d runs 0 (min data_size 4)) (\<lambda>header. Inr (list_ex (\<lambda>b. b \<noteq> 0) header)))"

section \<open>Fragmentation and growth\<close>

definition owner_of :: "NtfsStream \<Rightarrow> nat" where
  "owner_of s = (if ns_base_record s \<noteq> 0 then ns_base_record s else ns_record_number s)"

definition stream_is_fragmented :: "NtfsStream \<Rightarrow> bool" where
  "stream_is_fragmented s \<longleftrightarrow> ntfs_fragment_count (ns_runs s) > 1"

text \<open>The state of the loop: groups, fragmented so far, the expected first VCN.\<close>

definition object_fragmented :: "NtfsStream list \<Rightarrow> nat \<Rightarrow> bool \<Rightarrow> bool" where
  "object_fragmented items owner directory =
     (case foldl (\<lambda>(groups, fragmented, expected) s.
          if owner_of s \<noteq> owner \<or>
             ns_attribute_type s \<noteq> (if directory then NTFS_ATTR_INDEX_ALLOCATION else NTFS_ATTR_DATA) \<or>
             \<not> directory \<and> ns_attribute_name s \<noteq> []
          then (groups, fragmented, expected)
          else (groups + 1, fragmented \<or> ns_lowest_vcn s \<noteq> expected \<or> stream_is_fragmented s,
                u64 (ns_lowest_vcn s + foldl (\<lambda>n r. u64 (n + nr_length r)) 0 (ns_runs s))))
        (0 :: nat, False, 0) items of
      (groups, fragmented, expected) \<Rightarrow> groups > 1 \<or> fragmented)"

definition growth_object_ok :: "env \<Rightarrow> NtfsLayout \<Rightarrow> NtfsStream list \<Rightarrow> nat \<Rightarrow> bool" where
  "growth_object_ok E layout items owner =
     (case filter (\<lambda>s. owner_of s = owner \<and> ns_attribute_type s = NTFS_ATTR_DATA \<and> ns_attribute_name s = []) items of
        [] \<Rightarrow> True
      | [s] \<Rightarrow>
          ntfs_fragment_count (ns_runs s) = 1 \<and> \<not> nr_sparse (ns_runs s ! 0) \<and>
          (let start = nr_lcn (ns_runs s ! 0); clusters = ns_clusters s;
               reserve = clusters div 10 + (if clusters mod 10 \<noteq> 0 then 1 else 0) in
           case u64_add_checked E start clusters of
             None \<Rightarrow> False
           | Some data_end \<Rightarrow>
               \<not> data_end > u64 (length (nl_bitmap layout) * 8) \<and>
               (case u64_add_checked E data_end reserve of
                  None \<Rightarrow> False
                | Some reserve_end \<Rightarrow> list_all (\<lambda>c. \<not> ntfs_bitmap_bit layout c) [data_end..<reserve_end]))
      | _ \<Rightarrow> False)"

section \<open>The scan\<close>

text \<open>A message that the scan discards, counting the record as malformed.\<close>

definition discard_fail :: "'a res \<Rightarrow> 'a option res" where
  "discard_fail m = (case m of Inr x \<Rightarrow> Inr (Some x) | Inl (Fail message) \<Rightarrow> Inr None | Inl e \<Rightarrow> Inl e)"

definition record_bytes :: "env \<Rightarrow> NtfsVolume \<Rightarrow> bytes \<Rightarrow> NtfsLayout \<Rightarrow> nat \<Rightarrow> bytes res" where
  "record_bytes E v d layout n =
     (case u64_multiply_checked E n (nv_record_size v) of
        None \<Rightarrow> Inl (Fail [])
      | Some record_offset \<Rightarrow> ntfs_read_stream E v d (nl_mft_runs layout) record_offset (nv_record_size v))"

definition catalogue_attribute ::
  "env \<Rightarrow> NtfsVolume \<Rightarrow> bytes \<Rightarrow> nat \<Rightarrow> nat \<Rightarrow> bool \<Rightarrow> string \<Rightarrow> NtfsAttribute list \<Rightarrow> NtfsAttribute \<Rightarrow>
   NtfsCatalogue \<Rightarrow> NtfsCatalogue res" where
  "catalogue_attribute E v d n base directory file_name attributes a c =
     (if \<not> na_nonresident a \<or> na_type a \<noteq> NTFS_ATTR_DATA \<and> na_type a \<noteq> NTFS_ATTR_INDEX_ALLOCATION then Inr c
      else
        bindE (copy_runs_or E ''NTFS runlist allocation overflow'' (na_runs a) []) (\<lambda>runs.
        bindE (stream_push E (nc_items c)
          \<lparr>ns_record_number = n, ns_base_record = base, ns_attribute_offset = na_offset a, ns_attribute_type = na_type a,
           ns_attribute_flags = na_flags a, ns_directory = directory,
           ns_movable = stream_movable n base directory attributes a,
           ns_lowest_vcn = na_lowest_vcn a, ns_clusters = ntfs_run_clusters (na_runs a), ns_data_size = na_data_size a,
           ns_mapping_capacity = mapping_capacity a, ns_file_name = file_name, ns_attribute_name = na_name a,
           ns_runs = runs\<rparr>) (\<lambda>items.
        if \<not> nc_hibernation_active c \<and> equal_case_ascii file_name ''hiberfil.sys'' \<and>
           na_type a = NTFS_ATTR_DATA \<and> na_name a = []
        then
          bindE (stream_header_nonzero E v d (na_runs a) (na_data_size a)) (\<lambda>active.
          Inr (c\<lparr>nc_items := items, nc_hibernation_active := active\<rparr>))
        else Inr (c\<lparr>nc_items := items\<rparr>))))"

definition note_object :: "nat \<Rightarrow> bool \<Rightarrow> string \<Rightarrow> ObjectState \<Rightarrow> ObjectState" where
  "note_object base directory file_name ob =
     (if base = 0
      then ob\<lparr>os_present := True, os_directory := directory, os_name := (if file_name = [] then os_name ob else file_name)\<rparr>
      else ob)"

definition scan_record ::
  "env \<Rightarrow> NtfsVolume \<Rightarrow> bytes \<Rightarrow> NtfsLayout \<Rightarrow> nat \<Rightarrow> NtfsCatalogue \<times> ObjectState list \<Rightarrow>
   (NtfsCatalogue \<times> ObjectState list) res" where
  "scan_record E v d layout n = (\<lambda>(c, objects).
     let c = c\<lparr>nc_records_scanned := nc_records_scanned c + 1\<rparr>;
         malformed = c\<lparr>nc_malformed_records := nc_malformed_records c + 1\<rparr> in
     bindE (discard_fail (record_bytes E v d layout n)) (\<lambda>found.
     case found of
       None \<Rightarrow> Inr (malformed, objects)
     | Some raw \<Rightarrow>
         if take 4 raw \<noteq> map word_of_nat (text_bytes ''FILE'') then Inr (c, objects)
         else
           bindE (discard_fail (ntfs_apply_fixups E raw (nv_bytes_per_sector v))) (\<lambda>found.
           case found of
             None \<Rightarrow> Inr (malformed, objects)
           | Some fixed \<Rightarrow>
               bindE (ntfs_u16 E fixed 22) (\<lambda>flags.
               if flags AND NTFS_RECORD_IN_USE = 0 then Inr (c, objects)
               else
                 bindE (discard_fail (ntfs_parse_attributes E fixed)) (\<lambda>found.
                 case found of
                   None \<Rightarrow> Inr (malformed, objects)
                 | Some attributes \<Rightarrow>
                     bindE (ntfs_u64 E fixed 32) (\<lambda>reference.
                     let base = reference AND NTFS_FILE_REFERENCE_MASK; owner = (if base \<noteq> 0 then base else n);
                         directory = (flags AND NTFS_RECORD_DIRECTORY \<noteq> 0) in
                     bindE (object_get E objects owner) (\<lambda>(objects, i).
                     bindE (best_file_name E fixed attributes n) (\<lambda>file_name.
                     let objects = objects[i := note_object base directory file_name (objects ! i)] in
                     bindE (foldE (catalogue_attribute E v d n base directory file_name attributes) attributes c) (\<lambda>c.
                     Inr (c, objects))))))))))"

definition count_object :: "env \<Rightarrow> NtfsLayout \<Rightarrow> NtfsCatalogue \<Rightarrow> ObjectState \<Rightarrow> NtfsCatalogue" where
  "count_object E layout c ob =
     (if \<not> os_present ob then c
      else
        let fragmented = object_fragmented (nc_items c) (os_record ob) (os_directory ob) in
        if os_directory ob
        then c\<lparr>nc_directories := nc_directories c + 1,
               nc_fragmented_directories := nc_fragmented_directories c + (if fragmented then 1 else 0)\<rparr>
        else c\<lparr>nc_regular_files := nc_regular_files c + 1,
               nc_fragmented_files := nc_fragmented_files c + (if fragmented then 1 else 0),
               nc_growth_10_satisfied := nc_growth_10_satisfied c \<and>
                 \<not> (os_record ob \<ge> NTFS_FIRST_USER_RECORD \<and> \<not> growth_object_ok E layout (nc_items c) (os_record ob))\<rparr>)"

definition empty_catalogue :: NtfsCatalogue where
  "empty_catalogue = \<lparr>nc_items = [], nc_records_scanned = 0, nc_malformed_records = 0, nc_regular_files = 0,
     nc_directories = 0, nc_fragmented_files = 0, nc_fragmented_directories = 0, nc_growth_10_satisfied = True,
     nc_hibernation_active = False\<rparr>"

definition ntfs_scan_catalogue :: "env \<Rightarrow> NtfsVolume \<Rightarrow> bytes \<Rightarrow> NtfsLayout \<Rightarrow> NtfsCatalogue res" where
  "ntfs_scan_catalogue E v d layout =
     bindE (foldE (scan_record E v d layout) [0..<min (nl_mft_data_size layout div nv_record_size v) UINT32_MAX]
       (empty_catalogue, [])) (\<lambda>(c, objects).
     let c = foldl (count_object E layout) c objects in
     Inr (if nc_regular_files c = 0 \<or> nc_fragmented_directories c \<noteq> 0 then c\<lparr>nc_growth_10_satisfied := False\<rparr> else c))"

end
