(* ===== verification/NtfsPlan.thy ===== *)
theory NtfsPlan
  imports NtfsCatalog
begin

text \<open>
  The layout planner of \<open>ntfs_plan.c\<close>: movable streams are sorted, their clusters released in a
  copy of the bitmap, and the free runs filled from the lowest address, each with the subset
  of streams that leaves the least slack.
\<close>

section \<open>Plan items\<close>

record PlanItem =
  pi_stream :: NtfsStream
  pi_span :: nat

record FreeRun =
  fr_start :: nat
  fr_length :: nat

record NtfsPlacement =
  pm_record_number :: nat
  pm_attribute_offset :: nat
  pm_start :: nat
  pm_clusters :: nat
  pm_reserve :: nat

record NtfsPlacementVec =
  pv_items :: "NtfsPlacement list"
  pv_envelope_start :: nat
  pv_envelope_end :: nat
  pv_fixed_streams :: nat
  pv_fixed_slack_clusters :: nat

definition placement_push :: "env \<Rightarrow> NtfsPlacement list \<Rightarrow> NtfsPlacement \<Rightarrow> NtfsPlacement list res" where
  "placement_push E items p =
     (if \<not> array_reserve E 40 (length items + 1) then Inl (Die ''cannot grow NTFS placement list'')
      else Inr (items @ [p]))"

definition free_push :: "env \<Rightarrow> FreeRun list \<Rightarrow> nat \<Rightarrow> nat \<Rightarrow> FreeRun list res" where
  "free_push E runs start len =
     (if len = 0 then Inr runs
      else if \<not> array_reserve E 16 (length runs + 1) then Inl (Die ''cannot grow NTFS free-run list'')
      else Inr (runs @ [\<lparr>fr_start = start, fr_length = len\<rparr>]))"

definition strcasecmp :: "string \<Rightarrow> string \<Rightarrow> int" where
  "strcasecmp a b = strcmp (map lower_ascii a) (map lower_ascii b)"

definition cmp_plan_item :: "PlanItem \<Rightarrow> PlanItem \<Rightarrow> int" where
  "cmp_plan_item left right =
     (let a = pi_stream left; b = pi_stream right in
      if ns_directory a \<noteq> ns_directory b then (if ns_directory a then -1 else 1)
      else
        let name = strcasecmp (ns_file_name a) (ns_file_name b) in
        if name \<noteq> 0 then name
        else if ns_record_number a < ns_record_number b then -1
        else if ns_record_number a > ns_record_number b then 1
        else if ns_attribute_offset a < ns_attribute_offset b then -1
        else if ns_attribute_offset a > ns_attribute_offset b then 1
        else 0)"

lemma strcmp_le: "strcmp u v \<le> 0 \<longleftrightarrow> strcmp u v < 0 \<or> u = v"
  using strcmp_0 [of u v] by linarith

lemma strcmp_same: "strcmp u u = 0"
  by (simp add: strcmp_0)

lemma cmp_plan_item_le:
  "cmp_plan_item x y \<le> 0 \<longleftrightarrow>
     (let a = pi_stream x; b = pi_stream y; u = map lower_ascii (ns_file_name a); v = map lower_ascii (ns_file_name b) in
      if ns_directory a \<noteq> ns_directory b then ns_directory a
      else strcmp u v < 0 \<or> u = v \<and> (ns_record_number a < ns_record_number b \<or>
        ns_record_number a = ns_record_number b \<and> ns_attribute_offset a \<le> ns_attribute_offset b))"
  by (auto simp: cmp_plan_item_def strcasecmp_def Let_def strcmp_0 strcmp_le strcmp_same)

lemma strcmp_less_trans: "strcmp a b < 0 \<Longrightarrow> strcmp b c < 0 \<Longrightarrow> strcmp a c < 0"
  using strcmp_trans [of a b c] strcmp_0 [of a c] strcmp_neg [of c b] by fastforce

interpretation plan_order: comparator cmp_plan_item
proof
  fix x y z :: PlanItem
  show "cmp_plan_item x y \<le> 0 \<or> cmp_plan_item y x \<le> 0"
    unfolding cmp_plan_item_le Let_def using strcmp_neg strcmp_0
    by (smt (verit) linorder_neqE_nat linorder_linear)
  assume "cmp_plan_item x y \<le> 0" "cmp_plan_item y z \<le> 0"
  then show "cmp_plan_item x z \<le> 0"
    unfolding cmp_plan_item_le Let_def using strcmp_less_trans
    by (auto split: if_splits)
qed

text \<open>A tenth of the clusters, rounded up.\<close>

definition growth_reserve :: "nat \<Rightarrow> nat" where
  "growth_reserve clusters = u64 (u64 (clusters * 10) + 99) div 100"

definition stream_span :: "NtfsStream \<Rightarrow> bool \<Rightarrow> nat" where
  "stream_span s growth =
     u64 (ns_clusters s + (if growth \<and> ns_attribute_type s = NTFS_ATTR_DATA then growth_reserve (ns_clusters s) else 0))"

section \<open>The bitmap of the plan\<close>

definition set_clusters :: "bool \<Rightarrow> nat \<Rightarrow> nat \<Rightarrow> NtfsLayout \<Rightarrow> NtfsLayout" where
  "set_clusters used start len layout = foldl (\<lambda>l c. ntfs_bitmap_set l (u64 (start + c)) used) layout [0..<len]"

definition set_stream_free :: "NtfsStream \<Rightarrow> NtfsLayout \<Rightarrow> NtfsLayout" where
  "set_stream_free s layout =
     foldl (\<lambda>l r. if nr_sparse r then l else set_clusters False (nr_lcn r) (nr_length r) l) layout (ns_runs s)"

text \<open>The run being read, if one is, and the runs so far.\<close>

definition collect_step ::
  "env \<Rightarrow> NtfsLayout \<Rightarrow> nat \<Rightarrow> nat option \<times> FreeRun list \<Rightarrow> (nat option \<times> FreeRun list) res" where
  "collect_step E layout c = (\<lambda>(active, runs).
     let free = \<not> ntfs_bitmap_bit layout c in
     case active of
       None \<Rightarrow> Inr (if free then Some c else None, runs)
     | Some start \<Rightarrow>
         if free then Inr (Some start, runs)
         else bindE (free_push E runs start (c - start)) (\<lambda>runs. Inr (None, runs)))"

definition collect_free :: "env \<Rightarrow> NtfsLayout \<Rightarrow> nat \<Rightarrow> FreeRun list res" where
  "collect_free E layout clusters =
     (let upper = (if clusters > 0 then clusters - 1 else 0) in
      bindE (foldE (collect_step E layout) [1..<upper] (None, [])) (\<lambda>(active, runs).
      case active of None \<Rightarrow> Inr runs | Some start \<Rightarrow> free_push E runs start (upper - start)))"

section \<open>The best subset for a run\<close>

definition int32 :: "nat \<Rightarrow> int" where
  "int32 n = (let m = n mod 4294967296 in if m < 2147483648 then int m else int m - 4294967296)"

text \<open>
  \<open>choice ! s\<close>: \<open>-1\<close> if no subset of the items seen so far has the sum \<open>s\<close>, else the item that
  first completed one (\<open>-2\<close> for the empty sum).
\<close>

definition offer_sum :: "nat \<Rightarrow> nat \<Rightarrow> int list \<Rightarrow> nat \<Rightarrow> int list" where
  "offer_sum i span choice s =
     (if s \<ge> span \<and> choice ! s < 0 \<and> choice ! (s - span) \<noteq> -1 then choice[s := int32 i] else choice)"

definition offer_item :: "nat \<Rightarrow> int list \<Rightarrow> nat \<times> nat \<Rightarrow> int list" where
  "offer_item target choice = (\<lambda>(i, span).
     if span = 0 \<or> span > target then choice else foldl (offer_sum i span) choice (rev [span..<target + 1]))"

fun best_sum :: "int list \<Rightarrow> nat \<Rightarrow> nat" where
  "best_sum choice 0 = 0"
| "best_sum choice (Suc s) = (if choice ! Suc s = -1 then best_sum choice s else Suc s)"

text \<open>Every selected item takes at least one cluster, so the sum itself bounds the steps.\<close>

fun recover_selection :: "nat list \<Rightarrow> int list \<Rightarrow> nat \<Rightarrow> nat \<Rightarrow> bool list \<Rightarrow> bool list res" where
  "recover_selection spans choice steps 0 selected = Inr selected"
| "recover_selection spans choice 0 (Suc r) selected = Inl (MemFault ''endless subset recovery'')"
| "recover_selection spans choice (Suc steps) (Suc r) selected =
     (let index = choice ! Suc r in
      if index < 0 \<or> nat index \<ge> length spans \<or> spans ! nat index > Suc r
      then Inl (Fail ''NTFS low-layout subset recovery failed'')
      else recover_selection spans choice steps (Suc r - spans ! nat index) (selected[nat index := True]))"

definition select_best_fit :: "env \<Rightarrow> nat list \<Rightarrow> nat \<Rightarrow> (bool list \<times> nat) res" where
  "select_best_fit E spans target =
     (if target = 0 then Inr (replicate (length spans) False, 0)
      else
        case u64_add_checked E target 1 of
          None \<Rightarrow> Inl (Fail ''NTFS low-layout target exceeds addressable memory'')
        | Some choice_count \<Rightarrow>
        case size_multiply_checked E choice_count 4 of
          None \<Rightarrow> Inl (Fail ''NTFS low-layout target exceeds addressable memory'')
        | Some n \<Rightarrow>
            if n > 256 * 1024 * 1024
            then Inl (Fail ''NTFS low-layout planning would exceed the fixed 256 MiB memory safety limit'')
            else
              let choice = foldl (offer_item target) (-2 # replicate target (-1)) (zip [0..<length spans] spans);
                  best = best_sum choice target in
              bindE (recover_selection spans choice best best (replicate (length spans) False)) (\<lambda>selected.
              Inr (selected, best)))"

section \<open>Streams that stay\<close>

definition primary_object_stream :: "NtfsStream \<Rightarrow> bool" where
  "primary_object_stream s \<longleftrightarrow>
     (if ns_directory s then ns_attribute_type s = NTFS_ATTR_INDEX_ALLOCATION
      else ns_attribute_type s = NTFS_ATTR_DATA \<and> ns_attribute_name s = [])"

definition logical_stream_parts :: "NtfsStream list \<Rightarrow> NtfsStream \<Rightarrow> nat" where
  "logical_stream_parts items s =
     length (filter (\<lambda>c. owner_of c = owner_of s \<and> ns_attribute_type c = ns_attribute_type s \<and>
       ns_attribute_name c = ns_attribute_name s) items)"

definition preserved_primary_is_contiguous :: "NtfsStream list \<Rightarrow> NtfsStream \<Rightarrow> bool" where
  "preserved_primary_is_contiguous items s \<longleftrightarrow>
     primary_object_stream s \<and> ns_lowest_vcn s = 0 \<and> logical_stream_parts items s = 1 \<and>
     ntfs_fragment_count (ns_runs s) \<le> 1"

definition of_record :: "NtfsStream \<Rightarrow> string" where
  "of_record s = ''MFT record '' @ dec (ns_record_number s)"

definition reserve_fixed_growth_stream ::
  "env \<Rightarrow> NtfsStream \<Rightarrow> NtfsLayout \<times> FreeRun list \<Rightarrow> (NtfsLayout \<times> FreeRun list) res" where
  "reserve_fixed_growth_stream E s = (\<lambda>(layout, reserved).
     if ns_directory s \<or> ns_attribute_type s \<noteq> NTFS_ATTR_DATA \<or> ns_attribute_name s \<noteq> [] then Inr (layout, reserved)
     else if ns_attribute_flags s AND NTFS_ATTR_SPECIAL \<noteq> 0 \<or> length (ns_runs s) \<noteq> 1 \<or> nr_sparse (ns_runs s ! 0)
     then Inl (Fail (''NTFS primary stream in '' @ of_record s @
            '' cannot safely receive a 10% reserve while preserved in place''))
     else
       let run_end = u64 (nr_lcn (ns_runs s ! 0) + nr_length (ns_runs s ! 0));
           reserve = growth_reserve (ns_clusters s); bits = u64 (length (nl_bitmap layout) * 8) in
       if reserve = 0 then Inr (layout, reserved)
       else if run_end > bits \<or> reserve > bits - run_end
       then Inl (Fail (''NTFS preserved stream in '' @ of_record s @ '' has no room for its 10% growth reserve''))
       else
         case find (ntfs_bitmap_bit layout) [run_end..<run_end + reserve] of
           Some c \<Rightarrow> Inl (Fail (''NTFS preserved stream in '' @ of_record s @
             '' cannot obtain its 10% growth reserve because cluster '' @ dec c @ '' is fixed allocated''))
         | None \<Rightarrow>
             bindE (free_push E reserved run_end reserve) (\<lambda>reserved.
             Inr (set_clusters True run_end reserve layout, reserved)))"

section \<open>The plan\<close>

text \<open>The number of movable streams and of streams preserved in place.\<close>

definition classify_stream :: "NtfsStream list \<Rightarrow> NtfsStream \<Rightarrow> nat \<times> nat \<Rightarrow> (nat \<times> nat) res" where
  "classify_stream items s = (\<lambda>(movable, fixed).
     if ns_movable s \<and> ns_clusters s \<noteq> 0 then Inr (movable + 1, fixed)
     else if ns_record_number s < NTFS_FIRST_USER_RECORD \<or> ns_clusters s = 0 \<or>
        ns_attribute_type s \<noteq> NTFS_ATTR_DATA \<and> ns_attribute_type s \<noteq> NTFS_ATTR_INDEX_ALLOCATION
     then Inr (movable, fixed)
     else if \<not> primary_object_stream s then Inr (movable, fixed + 1)
     else if \<not> preserved_primary_is_contiguous items s
     then Inl (Fail (''NTFS primary stream in '' @ of_record s @
            '' is split or fragmented in an unsupported layout; it cannot be safely preserved in place''))
     else Inr (movable, fixed + 1))"

definition place_items :: "env \<Rightarrow> PlanItem list \<Rightarrow> nat \<Rightarrow> NtfsPlacement list \<Rightarrow> (nat \<times> NtfsPlacement list) res" where
  "place_items E chosen start placed =
     foldE (\<lambda>item (cursor, placed).
       bindE (placement_push E placed
         \<lparr>pm_record_number = ns_record_number (pi_stream item), pm_attribute_offset = ns_attribute_offset (pi_stream item),
          pm_start = cursor, pm_clusters = ns_clusters (pi_stream item),
          pm_reserve = sub64 (pi_span item) (ns_clusters (pi_stream item))\<rparr>) (\<lambda>placed.
       Inr (u64 (cursor + pi_span item), placed))) chosen (start, placed)"

text \<open>The items whose flag is set.\<close>

definition chosen_items :: "bool \<Rightarrow> PlanItem list \<Rightarrow> bool list \<Rightarrow> PlanItem list" where
  "chosen_items want remaining selected = map fst (filter (\<lambda>(item, s). s = want) (zip remaining selected))"

text \<open>What is still to be placed, its total span, the placements, and whether the envelope has begun.\<close>

record PlanState =
  ps_remaining :: "PlanItem list"
  ps_total_span :: nat
  ps_placed :: NtfsPlacementVec
  ps_have_start :: bool

definition fill_run :: "env \<Rightarrow> FreeRun \<Rightarrow> PlanState \<Rightarrow> PlanState res" where
  "fill_run E run st =
     (if ps_remaining st = [] \<or> fr_length run = 0 then Inr st
      else
        let start = fr_start run; capacity = fr_length run; vec = ps_placed st;
            vec = (if ps_have_start st then vec else vec\<lparr>pv_envelope_start := start\<rparr>) in
        if ps_total_span st \<le> capacity then
          bindE (place_items E (ps_remaining st) start (pv_items vec)) (\<lambda>(cursor, items).
          Inr \<lparr>ps_remaining = [], ps_total_span = 0,
               ps_placed = vec\<lparr>pv_items := items, pv_envelope_end := cursor\<rparr>, ps_have_start = True\<rparr>)
        else
          bindE (select_best_fit E (map pi_span (ps_remaining st)) capacity) (\<lambda>(selected, filled).
          bindE (place_items E (chosen_items True (ps_remaining st) selected) start (pv_items vec)) (\<lambda>(cursor, items).
          if cursor \<noteq> u64 (start + filled)
          then Inl (Fail ''NTFS low-layout planner produced an inconsistent best-fit run'')
          else
            Inr \<lparr>ps_remaining = chosen_items False (ps_remaining st) selected,
                 ps_total_span = sub64 (ps_total_span st) filled,
                 ps_placed = vec\<lparr>pv_items := items, pv_envelope_end := cursor,
                   pv_fixed_slack_clusters := u64 (pv_fixed_slack_clusters vec + (capacity - filled))\<rparr>,
                 ps_have_start = True\<rparr>)))"

definition movable_items :: "NtfsStream list \<Rightarrow> bool \<Rightarrow> PlanItem list" where
  "movable_items items growth =
     map (\<lambda>s. \<lparr>pi_stream = s, pi_span = stream_span s growth\<rparr>) (filter (\<lambda>s. ns_movable s \<and> ns_clusters s \<noteq> 0) items)"

definition keeps_growth :: "NtfsStream \<Rightarrow> bool" where
  "keeps_growth s \<longleftrightarrow> \<not> (ns_movable s \<or> ns_record_number s < NTFS_FIRST_USER_RECORD \<or> ns_clusters s = 0 \<or>
     \<not> primary_object_stream s)"

definition mark_placement :: "NtfsLayout \<Rightarrow> NtfsPlacement \<Rightarrow> NtfsLayout" where
  "mark_placement layout p =
     set_clusters False (u64 (pm_start p + pm_clusters p)) (pm_reserve p)
       (set_clusters True (pm_start p) (pm_clusters p) layout)"

definition release_run :: "NtfsLayout \<Rightarrow> FreeRun \<Rightarrow> NtfsLayout" where
  "release_run layout r = set_clusters False (fr_start r) (fr_length r) layout"

definition ntfs_plan_layout ::
  "env \<Rightarrow> NtfsLayout \<Rightarrow> NtfsCatalogue \<Rightarrow> nat \<Rightarrow> bool \<Rightarrow> (NtfsLayout \<times> NtfsPlacementVec) res" where
  "ntfs_plan_layout E layout catalogue total_clusters growth =
     (if nc_hibernation_active catalogue
      then Inl (Fail ''NTFS hibernation image is active; resume and shut down Windows fully before raw mutation'')
      else
        let items = nc_items catalogue in
        bindE (foldE (classify_stream items) items (0, 0)) (\<lambda>(movable, fixed).
        if movable = 0 then Inl (Fail ''NTFS has no supported movable user streams'')
        else
          let released = foldl (\<lambda>l i. set_stream_free (pi_stream i) l) layout (movable_items items growth);
              sorted = qsort_by cmp_plan_item (movable_items items growth) in
          bindE (foldE (reserve_fixed_growth_stream E) (if growth then filter keeps_growth items else [])
            (released, [])) (\<lambda>(planned, reserved).
          bindE (collect_free E planned total_clusters) (\<lambda>free_runs.
          bindE (foldE (fill_run E) free_runs
            \<lparr>ps_remaining = sorted, ps_total_span = foldl (\<lambda>n i. u64 (n + pi_span i)) 0 sorted,
             ps_placed = \<lparr>pv_items = [], pv_envelope_start = 0, pv_envelope_end = 0, pv_fixed_streams = fixed,
               pv_fixed_slack_clusters = 0\<rparr>, ps_have_start = False\<rparr>) (\<lambda>st.
          if ps_remaining st \<noteq> []
          then Inl (Fail ''NTFS has insufficient legal free clusters for the canonical layout'')
          else
            let placements = ps_placed st;
                marked = foldl mark_placement planned (pv_items placements);
                final = foldl release_run marked reserved in
            Inr (final, placements))))))"

end
