(* ===== verification/NtfsBestFit.thy ===== *)
theory NtfsBestFit
  imports NtfsPlan
begin

text \<open>
  \<open>select_best_fit\<close> is the table form of subset sum: its table holds for every sum the item
  that first reached it, the sum found is the largest attainable one, and the selection
  recovered has that sum.
\<close>

section \<open>Attainable sums\<close>

text \<open>Some subset of the first \<open>k\<close> items has the sum \<open>s\<close>.\<close>

fun reach :: "nat list \<Rightarrow> nat \<Rightarrow> nat \<Rightarrow> bool" where
  "reach spans 0 s = (s = 0)"
| "reach spans (Suc k) s = (reach spans k s \<or> (spans ! k \<le> s \<and> reach spans k (s - spans ! k)))"

lemma reach_mono: "j \<le> k \<Longrightarrow> reach spans j s \<Longrightarrow> reach spans k s"
  by (induction k) (auto simp: le_Suc_eq)

lemma reach_0: "reach spans k 0"
  by (induction k) auto

lemma reach_subset: "reach spans k s \<longleftrightarrow> (\<exists>S \<subseteq> {..<k}. (\<Sum>i \<in> S. spans ! i) = s)"
proof (induction k arbitrary: s)
  case (Suc k)
  show ?case
  proof
    assume "reach spans (Suc k) s"
    then consider "reach spans k s" | "spans ! k \<le> s" "reach spans k (s - spans ! k)" by auto
    then show "\<exists>S \<subseteq> {..<Suc k}. (\<Sum>i \<in> S. spans ! i) = s"
    proof cases
      case 1
      then obtain S where "S \<subseteq> {..<k}" "(\<Sum>i \<in> S. spans ! i) = s" using Suc by blast
      then show ?thesis by (intro exI [of _ S]) auto
    next
      case 2
      then obtain S where S: "S \<subseteq> {..<k}" "(\<Sum>i \<in> S. spans ! i) = s - spans ! k" using Suc by blast
      then have "finite S" "k \<notin> S" by (auto intro: finite_subset)
      with S 2 show ?thesis by (intro exI [of _ "insert k S"]) auto
    qed
  next
    assume "\<exists>S \<subseteq> {..<Suc k}. (\<Sum>i \<in> S. spans ! i) = s"
    then obtain S where S: "S \<subseteq> {..<Suc k}" "(\<Sum>i \<in> S. spans ! i) = s" by blast
    have fin: "finite S" using S(1) by (rule finite_subset) simp
    show "reach spans (Suc k) s"
    proof (cases "k \<in> S")
      case True
      then have "(\<Sum>i \<in> S. spans ! i) = spans ! k + (\<Sum>i \<in> S - {k}. spans ! i)" using fin by (rule sum.remove [rotated])
      moreover have "S - {k} \<subseteq> {..<k}" using S(1) by auto
      ultimately have "reach spans k (s - spans ! k)" "spans ! k \<le> s" using Suc [of "s - spans ! k"] S(2) by auto
      then show ?thesis by simp
    next
      case False
      then have "S \<subseteq> {..<k}" using S(1) by (auto simp: less_Suc_eq)
      then show ?thesis using Suc [of s] S(2) by auto
    qed
  qed
qed auto

section \<open>The table\<close>

text \<open>The item that first reaches a sum, as the table records it after \<open>k\<close> items.\<close>

definition first_item :: "nat list \<Rightarrow> nat \<Rightarrow> nat \<Rightarrow> int" where
  "first_item spans k s =
     (if s = 0 then -2 else if reach spans k s then int (LEAST j. reach spans (Suc j) s) else -1)"

definition table_ok :: "nat list \<Rightarrow> nat \<Rightarrow> nat \<Rightarrow> int list \<Rightarrow> bool" where
  "table_ok spans target k choice \<longleftrightarrow>
     length choice = target + 1 \<and> (\<forall>s \<le> target. choice ! s = first_item spans k s)"

lemma first_item_cases:
  "first_item spans k 0 = -2"
  "0 < s \<Longrightarrow> \<not> reach spans k s \<Longrightarrow> first_item spans k s = -1"
  "first_item spans k s = -1 \<longleftrightarrow> \<not> reach spans k s"
  "0 < s \<Longrightarrow> first_item spans k s < 0 \<longleftrightarrow> \<not> reach spans k s"
  using reach_0 [of spans k] by (auto simp: first_item_def)

lemma first_item_Suc:
  assumes "0 < s"
  shows "first_item spans (Suc k) s =
    (if \<not> reach spans k s \<and> spans ! k \<le> s \<and> reach spans k (s - spans ! k) then int k else first_item spans k s)"
proof (cases "reach spans k s")
  case True
  then show ?thesis using assms by (simp add: first_item_def)
next
  case False
  show ?thesis
  proof (cases "reach spans (Suc k) s")
    case True
    have "(LEAST j. reach spans (Suc j) s) = k"
    proof (rule Least_equality)
      show "reach spans (Suc k) s" by fact
      fix j assume "reach spans (Suc j) s"
      then show "k \<le> j" using False reach_mono [of "Suc j" k spans s] by (meson Suc_leI not_le)
    qed
    with True False assms show ?thesis by (simp add: first_item_def)
  next
    case False
    then show ?thesis using assms by (auto simp: first_item_def)
  qed
qed

text \<open>One item, from the largest sum down: no sum is read after it was changed.\<close>

lemma length_offer_sum [simp]: "length (offer_sum i span choice s) = length choice"
  by (simp add: offer_sum_def)

lemma length_offer_sums: "length (foldl (offer_sum i span) choice sums) = length choice"
  by (induction sums arbitrary: choice) simp_all

lemma offer_sums:
  assumes "0 < span" "t < length choice"
  shows "foldl (offer_sum i span) choice (rev [span..<Suc t]) ! s =
    (if span \<le> s \<and> s \<le> t \<and> choice ! s < 0 \<and> choice ! (s - span) \<noteq> -1 then int32 i else choice ! s)"
  using assms(2)
proof (induction t arbitrary: choice)
  case 0
  then show ?case using assms(1) by simp
next
  case (Suc t)
  show ?case
  proof (cases "span \<le> Suc t")
    case True
    define c where "c = offer_sum i span choice (Suc t)"
    have len: "length c = length choice" by (simp add: c_def offer_sum_def)
    have c: "c ! k = (if k = Suc t \<and> choice ! k < 0 \<and> choice ! (k - span) \<noteq> -1 then int32 i else choice ! k)" for k
      using True Suc.prems by (auto simp: c_def offer_sum_def nth_list_update)
    have "rev [span..<Suc (Suc t)] = Suc t # rev [span..<Suc t]" using True by simp
    then have "foldl (offer_sum i span) choice (rev [span..<Suc (Suc t)]) = foldl (offer_sum i span) c (rev [span..<Suc t])"
      by (simp add: c_def)
    also have "\<dots> ! s = (if span \<le> s \<and> s \<le> t \<and> c ! s < 0 \<and> c ! (s - span) \<noteq> -1 then int32 i else c ! s)"
      using Suc.prems len by (intro Suc.IH) simp
    also have "\<dots> = (if span \<le> s \<and> s \<le> Suc t \<and> choice ! s < 0 \<and> choice ! (s - span) \<noteq> -1 then int32 i else choice ! s)"
      using assms(1) True by (auto simp: c le_Suc_eq)
    finally show ?thesis .
  next
    case False
    then have "rev [span..<Suc (Suc t)] = []" by simp
    then show ?thesis using False by simp
  qed
qed

lemma int32_small: "i < 2147483648 \<Longrightarrow> int32 i = int i"
  by (simp add: int32_def Let_def)

lemma offer_item_ok:
  assumes "table_ok spans target k choice" "k < 2147483648"
  shows "table_ok spans target (Suc k) (offer_item target choice (k, spans ! k))"
proof -
  let ?p = "spans ! k"
  have len: "length choice = target + 1" and tab: "\<And>s. s \<le> target \<Longrightarrow> choice ! s = first_item spans k s"
    using assms(1) by (auto simp: table_ok_def)
  show ?thesis
  proof (cases "?p = 0 \<or> ?p > target")
    case True
    have "first_item spans (Suc k) s = first_item spans k s" if "s \<le> target" for s
      using True that by (cases "s = 0") (auto simp: first_item_def)
    then show ?thesis using True len tab by (auto simp: table_ok_def offer_item_def)
  next
    case False
    have "offer_item target choice (k, ?p) ! s = first_item spans (Suc k) s" if s: "s \<le> target" for s
    proof -
      have val: "offer_item target choice (k, ?p) ! s =
          (if ?p \<le> s \<and> s \<le> target \<and> choice ! s < 0 \<and> choice ! (s - ?p) \<noteq> -1 then int k else choice ! s)"
        using False len offer_sums [of ?p target choice k s] int32_small [OF assms(2)] by (simp add: offer_item_def)
      show ?thesis
      proof (cases "s = 0")
        case True
        then show ?thesis using False tab [of 0] unfolding val by (simp add: first_item_cases)
      next
        case pos: False
        have a: "choice ! s < 0 \<longleftrightarrow> \<not> reach spans k s" using pos by (simp add: tab [OF s] first_item_cases)
        have b: "choice ! (s - ?p) \<noteq> -1 \<longleftrightarrow> reach spans k (s - ?p)" using s by (simp add: tab first_item_cases)
        show ?thesis unfolding val a b using pos s by (simp only: first_item_Suc tab) auto
      qed
    qed
    then show ?thesis using False len by (auto simp: table_ok_def offer_item_def length_offer_sums)
  qed
qed

lemma table_built:
  assumes "k \<le> length spans" "length spans \<le> 2147483648"
  shows "table_ok spans target k (foldl (offer_item target) (-2 # replicate target (-1)) (zip [0..<k] (take k spans)))"
  using assms(1)
proof (induction k)
  case 0
  have "(-2 # replicate target (-1)) ! s = first_item spans 0 s" if "s \<le> target" for s
    using that by (cases s) (auto simp: first_item_def)
  then show ?case by (simp add: table_ok_def)
next
  case (Suc k)
  then have "take (Suc k) spans = take k spans @ [spans ! k]" by (simp add: take_Suc_conv_app_nth)
  moreover have "zip [0..<Suc k] (take k spans @ [spans ! k]) = zip [0..<k] (take k spans) @ [(k, spans ! k)]"
    using Suc.prems by simp
  ultimately show ?case using Suc assms(2) offer_item_ok [OF Suc.IH] by simp
qed

section \<open>The best sum and its selection\<close>

lemma best_sum_ok:
  assumes "table_ok spans target k choice" "t \<le> target"
  shows "reach spans k (best_sum choice t) \<and> best_sum choice t \<le> t \<and>
    (\<forall>s \<le> t. reach spans k s \<longrightarrow> s \<le> best_sum choice t)"
  using assms(2)
proof (induction t)
  case 0
  then show ?case by (simp add: reach_0)
next
  case (Suc t)
  have "choice ! Suc t = -1 \<longleftrightarrow> \<not> reach spans k (Suc t)"
    using assms(1) Suc.prems by (simp add: table_ok_def first_item_cases)
  then show ?case using Suc by (auto simp: le_Suc_eq)
qed

definition selected_sum :: "nat list \<Rightarrow> bool list \<Rightarrow> nat" where
  "selected_sum spans selected = (\<Sum>i \<in> {i. i < length spans \<and> selected ! i}. spans ! i)"

lemma selected_sum_none: "selected_sum spans (replicate (length spans) False) = 0"
proof -
  have "{i. i < length spans \<and> replicate (length spans) False ! i} = {}" by auto
  then show ?thesis by (simp only: selected_sum_def sum.empty)
qed

lemma selected_sum_update:
  assumes "length selected = length spans" "i < length spans" "\<not> selected ! i"
  shows "selected_sum spans (selected[i := True]) = spans ! i + selected_sum spans selected"
proof -
  have "{j. j < length spans \<and> selected[i := True] ! j} = insert i {j. j < length spans \<and> selected ! j}"
    using assms by (auto simp: nth_list_update)
  then show ?thesis using assms by (simp add: selected_sum_def)
qed

text \<open>The indices recovered go down, so none is selected twice.\<close>

lemma recover_ok:
  assumes "table_ok spans target (length spans) choice" "r \<le> target" "reach spans j r" "j \<le> length spans" "r \<le> steps"
    and "length selected = length spans" "\<forall>i < j. \<not> selected ! i"
  shows "\<exists>out. recover_selection spans choice steps r selected = Inr out \<and> length out = length spans \<and>
    selected_sum spans out = r + selected_sum spans selected \<and>
    (\<forall>i < length spans. out ! i \<longrightarrow> selected ! i \<or> 0 < spans ! i)"
  using assms(2-)
proof (induction steps arbitrary: r j selected)
  case 0
  then show ?case by simp
next
  case (Suc steps)
  show ?case
  proof (cases r)
    case 0
    then show ?thesis using Suc.prems by simp
  next
    case (Suc q)
    let ?P = "\<lambda>j. reach spans (Suc j) r"
    define i where "i = (LEAST j. ?P j)"
    have "j \<noteq> 0" using Suc.prems(2) Suc by (cases j) auto
    then obtain j' where j': "j = Suc j'" by (cases j) auto
    have Pj: "?P j'" using Suc.prems(2) j' by simp
    have i: "?P i" "i \<le> j'" unfolding i_def by (rule LeastI [of ?P j', OF Pj], rule Least_le [of ?P, OF Pj])
    have "\<not> reach spans i r"
    proof (cases i)
      case 0
      then show ?thesis using Suc by simp
    next
      case (Suc m)
      then have "\<not> ?P m" unfolding i_def by (intro not_less_Least) simp
      then show ?thesis using Suc by simp
    qed
    then have step: "spans ! i \<le> r" "reach spans i (r - spans ! i)" "0 < spans ! i"
      using i(1) by (auto intro: ccontr)
    have il: "i < length spans" using i(2) j' Suc.prems(3) by simp
    have "choice ! r = int i"
      using assms(1) Suc.prems(1) reach_mono [OF Suc.prems(3,2)] Suc by (simp add: table_ok_def first_item_def i_def)
    moreover have "\<not> selected ! i" using Suc.prems(6) i(2) j' by simp
    moreover have "\<exists>out. recover_selection spans choice steps (r - spans ! i) (selected[i := True]) = Inr out \<and>
        length out = length spans \<and>
        selected_sum spans out = r - spans ! i + selected_sum spans (selected[i := True]) \<and>
        (\<forall>k < length spans. out ! k \<longrightarrow> selected[i := True] ! k \<or> 0 < spans ! k)"
      using Suc.prems step il i(2) j' by (intro Suc.IH [of _ i]) auto
    ultimately show ?thesis
      using Suc il step selected_sum_update [OF Suc.prems(5) il] Suc.prems(5) by (auto simp: nth_list_update split: if_splits)
  qed
qed

lemma select_best_fit_ok:
  assumes "checked_ok E" "checked64_ok E" "length spans \<le> 2147483648" "target \<le> 67108863"
  shows "\<exists>selected filled. select_best_fit E spans target = Inr (selected, filled) \<and> length selected = length spans \<and>
    selected_sum spans selected = filled \<and> filled \<le> target \<and>
    (\<forall>s \<le> target. reach spans (length spans) s \<longrightarrow> s \<le> filled) \<and>
    (\<forall>i < length spans. selected ! i \<longrightarrow> 0 < spans ! i)"
proof (cases "target = 0")
  case True
  then show ?thesis using selected_sum_none [of spans] by (simp add: select_best_fit_def)
next
  case False
  define choice where "choice = foldl (offer_item target) (-2 # replicate target (-1)) (zip [0..<length spans] spans)"
  have tab: "table_ok spans target (length spans) choice"
    using table_built [of "length spans" spans target] assms(3) by (simp add: choice_def)
  define best where "best = best_sum choice target"
  have best: "reach spans (length spans) best" "best \<le> target" "\<forall>s \<le> target. reach spans (length spans) s \<longrightarrow> s \<le> best"
    using best_sum_ok [OF tab order.refl] by (auto simp: best_def)
  obtain out where out: "recover_selection spans choice best best (replicate (length spans) False) = Inr out"
    "length out = length spans" "selected_sum spans out = best" "\<forall>i < length spans. out ! i \<longrightarrow> 0 < spans ! i"
    using recover_ok [OF tab best(2,1) order.refl order.refl, of "replicate (length spans) False"] selected_sum_none [of spans] by auto
  have "u64_add_checked E target 1 = Some (target + 1)" "size_multiply_checked E (target + 1) 4 = Some ((target + 1) * 4)"
    using assms(1,2,4) by (simp_all add: checked_ok_def checked64_ok_def)
  moreover have "\<not> (target + 1) * 4 > 256 * 1024 * 1024" using assms(4) by simp
  ultimately show ?thesis
    using False out best by (simp add: select_best_fit_def Let_def flip: choice_def best_def)
qed

end
