(* ===== verification/NtfsPlanLemmas.thy ===== *)
theory NtfsPlanLemmas
  imports NtfsBestFit
begin

text \<open>
  The planner's bitmap as a set of clusters, the free runs as the free clusters in order, and
  the placements as consecutive pieces of free runs.
\<close>

section \<open>The bitmap\<close>

text \<open>A bitmap in memory: its bits are counted in 64 bits without wrap-around.\<close>

definition bits_ok :: "NtfsLayout \<Rightarrow> bool" where
  "bits_ok layout \<longleftrightarrow> length (nl_bitmap layout) * 8 \<le> UINT64_MAX"

definition bits :: "NtfsLayout \<Rightarrow> nat" where
  "bits layout = length (nl_bitmap layout) * 8"

lemma byte_index: "drop_bit 3 c = c div 8" "c AND 7 = c mod (8::nat)"
proof -
  show "drop_bit 3 c = c div 8" by (simp add: drop_bit_eq_div)
  show "c AND 7 = c mod (8::nat)" using nat_and_mask [of c 3] by (simp add: mask_eq_exp_minus_1)
qed

lemma bitmap_bit_eq:
  "length bm * 8 \<le> UINT64_MAX \<Longrightarrow> bitmap_bit bm c \<longleftrightarrow> c < length bm * 8 \<longrightarrow> bit (bm ! (c div 8)) (c mod 8)"
  by (simp add: bitmap_bit_def byte_index u64_id bit_iff_and_push_bit_not_eq_0 flip: not_less)

lemma bit_single: "k < 8 \<Longrightarrow> bit (push_bit k 1 :: byte) j \<longleftrightarrow> j = k"
  unfolding bit_push_bit_iff by (auto simp: bit_1_iff)

lemma bitmap_bit_set:
  assumes "length bm * 8 \<le> UINT64_MAX"
  shows "bitmap_bit (bitmap_set bm c used) c' = (if c = c' \<and> c < length bm * 8 then used else bitmap_bit bm c')"
proof (cases "c < length bm * 8")
  case False
  then show ?thesis using assms by (simp add: bitmap_set_def u64_id)
next
  case True
  let ?i = "c div 8" and ?m = "push_bit (c mod 8) 1 :: byte"
  let ?w = "if used then bm ! ?i OR ?m else bm ! ?i AND NOT ?m"
  have i: "?i < length bm" using True by (simp add: less_mult_imp_div_less)
  have set: "bitmap_set bm c used = bm[?i := ?w]"
    using True assms by (simp add: bitmap_set_def byte_index u64_id Let_def)
  have w: "bit ?w j \<longleftrightarrow> (if j = c mod 8 then used else bit (bm ! ?i) j)" if "j < 8" for j
    using that bit_single [of "c mod 8" j] by (auto simp: bit_or_iff bit_and_iff bit_not_iff)
  show ?thesis
  proof (cases "c' < length bm * 8")
    case in': True
    show ?thesis
    proof (cases "c' div 8 = ?i")
      case True
      have "c' mod 8 = c mod 8 \<longleftrightarrow> c' = c" using True by (metis div_mult_mod_eq)
      then show ?thesis
        using in' \<open>c < length bm * 8\<close> assms i w [of "c' mod 8"] True unfolding set
        by (auto simp: bitmap_bit_eq)
    next
      case False
      then show ?thesis using in' assms i unfolding set by (auto simp: bitmap_bit_eq)
    qed
  next
    case False
    then show ?thesis using assms \<open>c < length bm * 8\<close> unfolding set by (auto simp: bitmap_bit_eq)
  qed
qed

lemma length_bitmap_set [simp]: "length (bitmap_set bm c used) = length bm"
  by (simp add: bitmap_set_def Let_def)

lemma layout_set [simp]:
  "bits (ntfs_bitmap_set layout c used) = bits layout"
  "bits_ok (ntfs_bitmap_set layout c used) = bits_ok layout"
  by (simp_all add: ntfs_bitmap_set_def bits_def bits_ok_def)

lemma bit_set: "bits_ok layout \<Longrightarrow> ntfs_bitmap_bit (ntfs_bitmap_set layout c used) c' =
    (if c = c' \<and> c < bits layout then used else ntfs_bitmap_bit layout c')"
  by (simp add: ntfs_bitmap_bit_def ntfs_bitmap_set_def bits_ok_def bits_def bitmap_bit_set)

lemma bit_outside: "bits_ok layout \<Longrightarrow> bits layout \<le> c \<Longrightarrow> ntfs_bitmap_bit layout c"
  by (simp add: ntfs_bitmap_bit_def bits_ok_def bits_def bitmap_bit_eq)

lemma set_clusters_ok:
  assumes "bits_ok layout" "start + len \<le> 18446744073709551616"
  shows "bits (set_clusters used start len layout) = bits layout" "bits_ok (set_clusters used start len layout)"
    and "ntfs_bitmap_bit (set_clusters used start len layout) c =
      (if start \<le> c \<and> c < start + len \<and> c < bits layout then used else ntfs_bitmap_bit layout c)"
proof -
  let ?l = "\<lambda>n. foldl (\<lambda>l c. ntfs_bitmap_set l (u64 (start + c)) used) layout [0..<n]"
  have *: "bits (?l n) = bits layout \<and> bits_ok (?l n) \<and>
      ntfs_bitmap_bit (?l n) c = (if start \<le> c \<and> c < start + n \<and> c < bits layout then used else ntfs_bitmap_bit layout c)"
    if "n \<le> len" for n c
    using that
  proof (induction n)
    case 0
    then show ?case using assms(1) by auto
  next
    case (Suc n)
    have "u64 (start + n) = start + n" using Suc.prems assms(2) by (intro u64_id) simp
    then have "?l (Suc n) = ntfs_bitmap_set (?l n) (start + n) used" by simp
    then show ?case using Suc by (auto simp: bit_set)
  qed
  show "bits (set_clusters used start len layout) = bits layout" "bits_ok (set_clusters used start len layout)"
    "ntfs_bitmap_bit (set_clusters used start len layout) c =
      (if start \<le> c \<and> c < start + len \<and> c < bits layout then used else ntfs_bitmap_bit layout c)"
    unfolding set_clusters_def using * [of len] by auto
qed

section \<open>Releasing streams\<close>

definition run_clusters :: "NtfsRun \<Rightarrow> nat set" where
  "run_clusters r = (if nr_sparse r then {} else {nr_lcn r..<nr_lcn r + nr_length r})"

definition stream_clusters :: "NtfsStream \<Rightarrow> nat set" where
  "stream_clusters s = (\<Union>r \<in> set (ns_runs s). run_clusters r)"

definition runs_bounded :: "NtfsStream \<Rightarrow> bool" where
  "runs_bounded s \<longleftrightarrow> (\<forall>r \<in> set (ns_runs s). nr_lcn r + nr_length r \<le> 18446744073709551616)"

text \<open>One layout is another with some clusters released and some taken.\<close>

definition bits_changed :: "NtfsLayout \<Rightarrow> nat set \<Rightarrow> nat set \<Rightarrow> NtfsLayout \<Rightarrow> bool" where
  "bits_changed l freed taken l' \<longleftrightarrow> bits l' = bits l \<and> bits_ok l' \<and>
     (\<forall>c < bits l. ntfs_bitmap_bit l' c \<longleftrightarrow> c \<in> taken \<or> ntfs_bitmap_bit l c \<and> c \<notin> freed)"

lemma set_clusters_changed:
  assumes "bits_ok l" "start + len \<le> 18446744073709551616"
  shows "bits_changed l {start..<start + len} {} (set_clusters False start len l)"
    "bits_changed l {} {start..<start + len} (set_clusters True start len l)"
  using set_clusters_ok [OF assms] by (auto simp: bits_changed_def)

lemma bits_changed_refl: "bits_ok l \<Longrightarrow> bits_changed l {} {} l"
  by (simp add: bits_changed_def)

lemma bits_changed_free:
  "bits_changed l a t l' \<Longrightarrow> bits_changed l' b {} l'' \<Longrightarrow> bits_changed l (a \<union> b) (t - b) l''"
  by (auto simp: bits_changed_def)

lemma bits_changed_take:
  "bits_changed l a t l' \<Longrightarrow> bits_changed l' {} b l'' \<Longrightarrow> bits_changed l a (t \<union> b) l''"
  by (auto simp: bits_changed_def)

lemma set_stream_free_changed:
  assumes "bits_ok l" "runs_bounded s"
  shows "bits_changed l (stream_clusters s) {} (set_stream_free s l)"
proof -
  have "bits_changed l (\<Union>r \<in> set rs. run_clusters r) {}
      (foldl (\<lambda>l r. if nr_sparse r then l else set_clusters False (nr_lcn r) (nr_length r) l) l rs)"
    if "set rs \<subseteq> set (ns_runs s)" for rs
    using that
  proof (induction rs rule: rev_induct)
    case Nil
    then show ?case using assms(1) by (simp add: bits_changed_refl)
  next
    case (snoc r rs)
    let ?l = "foldl (\<lambda>l r. if nr_sparse r then l else set_clusters False (nr_lcn r) (nr_length r) l) l rs"
    have l: "bits_changed l (\<Union>r \<in> set rs. run_clusters r) {} ?l" using snoc by simp
    have "nr_lcn r + nr_length r \<le> 18446744073709551616" using assms(2) snoc.prems by (simp add: runs_bounded_def)
    then have "bits_changed ?l (run_clusters r) {} (if nr_sparse r then ?l else set_clusters False (nr_lcn r) (nr_length r) ?l)"
      using l set_clusters_changed(1) [of ?l "nr_lcn r" "nr_length r"]
      by (auto simp: run_clusters_def bits_changed_def)
    from bits_changed_free [OF l this] show ?case by (simp add: Un_commute)
  qed
  then show ?thesis by (simp add: set_stream_free_def stream_clusters_def)
qed

definition released_clusters :: "PlanItem list \<Rightarrow> nat set" where
  "released_clusters items = (\<Union>i \<in> set items. stream_clusters (pi_stream i))"

lemma release_changed:
  assumes "bits_ok l" "\<forall>i \<in> set items. runs_bounded (pi_stream i)"
  shows "bits_changed l (released_clusters items) {} (foldl (\<lambda>l i. set_stream_free (pi_stream i) l) l items)"
  using assms(2)
proof (induction items rule: rev_induct)
  case Nil
  then show ?case using assms(1) by (simp add: bits_changed_refl released_clusters_def)
next
  case (snoc i items)
  let ?l = "foldl (\<lambda>l i. set_stream_free (pi_stream i) l) l items"
  have l: "bits_changed l (released_clusters items) {} ?l" using snoc by simp
  then have "bits_changed ?l (stream_clusters (pi_stream i)) {} (set_stream_free (pi_stream i) ?l)"
    using snoc.prems by (intro set_stream_free_changed) (auto simp: bits_changed_def)
  from bits_changed_free [OF l this] show ?case by (simp add: released_clusters_def Un_commute)
qed

section \<open>Growth reserves of streams that stay\<close>

definition free_run_clusters :: "FreeRun \<Rightarrow> nat list" where
  "free_run_clusters r = [fr_start r..<fr_start r + fr_length r]"

definition runs_set :: "FreeRun list \<Rightarrow> nat set" where
  "runs_set runs = set (concat (map free_run_clusters runs))"

lemma runs_set_simps [simp]:
  "runs_set [] = {}" "runs_set (xs @ ys) = runs_set xs \<union> runs_set ys" "runs_set (r # xs) = {fr_start r..<fr_start r + fr_length r} \<union> runs_set xs"
  by (auto simp: runs_set_def free_run_clusters_def)

lemma free_push_Inr:
  "free_push E runs start len = Inr out \<Longrightarrow>
   out = runs @ (if len = 0 then [] else [\<lparr>fr_start = start, fr_length = len\<rparr>])"
  by (auto simp: free_push_def split: if_splits)

text \<open>The reserve region right behind a stream.\<close>

definition reserve_region :: "NtfsStream \<Rightarrow> nat set" where
  "reserve_region s =
     (let run_end = u64 (nr_lcn (ns_runs s ! 0) + nr_length (ns_runs s ! 0)) in
      {run_end..<run_end + growth_reserve (ns_clusters s)})"

definition primary_data :: "NtfsStream \<Rightarrow> bool" where
  "primary_data s \<longleftrightarrow> \<not> ns_directory s \<and> ns_attribute_type s = NTFS_ATTR_DATA \<and> ns_attribute_name s = []"

definition reserved_ok :: "NtfsLayout \<Rightarrow> NtfsLayout \<times> FreeRun list \<Rightarrow> bool" where
  "reserved_ok l0 = (\<lambda>(l, reserved). bits_changed l0 {} (runs_set reserved) l \<and>
     (\<forall>r \<in> set reserved. fr_start r + fr_length r \<le> bits l0) \<and>
     (\<forall>c \<in> runs_set reserved. \<not> ntfs_bitmap_bit l0 c))"

lemma reserve_step:
  assumes "reserved_ok l0 st" "bits_ok l0" "reserve_fixed_growth_stream E s st = Inr st'"
  shows "reserved_ok l0 st' \<and> runs_set (snd st) \<subseteq> runs_set (snd st') \<and>
    (primary_data s \<longrightarrow> reserve_region s \<subseteq> runs_set (snd st'))"
proof -
  obtain l reserved where st: "st = (l, reserved)" by (cases st)
  have l: "bits l = bits l0" "bits_ok l" using assms(1) by (auto simp: st reserved_ok_def bits_changed_def)
  show ?thesis
  proof (cases "primary_data s")
    case False
    then have "st' = st" using assms(3) by (auto simp: st reserve_fixed_growth_stream_def primary_data_def)
    then show ?thesis using assms(1) False by simp
  next
    case True
    define e n where "e = u64 (nr_lcn (ns_runs s ! 0) + nr_length (ns_runs s ! 0))" and "n = growth_reserve (ns_clusters s)"
    have region: "reserve_region s = {e..<e + n}" by (simp add: reserve_region_def e_def n_def Let_def)
    have B: "u64 (length (nl_bitmap l) * 8) = bits l" using l(2) by (simp add: bits_def bits_ok_def u64_id)
    show ?thesis
    proof (cases "n = 0")
      case zero: True
      then have "st' = st" using assms(3) True
        by (auto simp: st reserve_fixed_growth_stream_def primary_data_def Let_def simp flip: n_def split: if_splits)
      then show ?thesis using assms(1) region zero by simp
    next
      case False
      then have "\<not> (e > bits l \<or> n > bits l - e)" and none: "find (ntfs_bitmap_bit l) [e..<e + n] = None"
        and push: "\<exists>out. free_push E reserved e n = Inr out \<and> st' = (set_clusters True e n l, out)"
        using assms(3) True
        by (auto simp: st reserve_fixed_growth_stream_def primary_data_def Let_def B bindE_Inr_iff
            simp flip: n_def e_def split: if_splits option.splits)
      then have fit: "e + n \<le> bits l" by linarith
      then have lim: "e + n \<le> 18446744073709551616" using l(2) by (simp add: bits_def bits_ok_def)
      have free: "\<not> ntfs_bitmap_bit l c" if "e \<le> c" "c < e + n" for c using none that by (auto simp: find_None_iff)
      from push obtain out where out: "free_push E reserved e n = Inr out" "st' = (set_clusters True e n l, out)" by blast
      then have out': "out = reserved @ [\<lparr>fr_start = e, fr_length = n\<rparr>]" using False free_push_Inr [OF out(1)] by simp
      have "bits_changed l0 {} (runs_set reserved \<union> {e..<e + n}) (set_clusters True e n l)"
        using assms(1) set_clusters_changed(2) [OF l(2) lim] by (intro bits_changed_take) (auto simp: st reserved_ok_def)
      moreover have "\<not> ntfs_bitmap_bit l0 c" if "e \<le> c" "c < e + n" for c
        using free [OF that] assms(1) fit that l(1) by (auto simp: st reserved_ok_def bits_changed_def)
      ultimately show ?thesis
        using assms(1) fit l(1) region by (auto simp: out' out(2) st reserved_ok_def)
    qed
  qed
qed

lemma reserve_loop:
  assumes "bits_ok l0" "foldE (reserve_fixed_growth_stream E) streams (l0, []) = Inr st"
  shows "reserved_ok l0 st \<and> (\<forall>s \<in> set streams. primary_data s \<longrightarrow> reserve_region s \<subseteq> runs_set (snd st))"
proof (rule foldE_prefix_invariant [OF assms(2), where P = "\<lambda>done st. reserved_ok l0 st \<and>
      (\<forall>s \<in> set done. primary_data s \<longrightarrow> reserve_region s \<subseteq> runs_set (snd st))"])
  show "reserved_ok l0 (l0, []) \<and> (\<forall>s \<in> set []. primary_data s \<longrightarrow> reserve_region s \<subseteq> runs_set (snd (l0, [])))"
    using assms(1) by (simp add: reserved_ok_def bits_changed_refl)
  fix ys x zs a b
  assume a: "reserved_ok l0 a \<and> (\<forall>s \<in> set ys. primary_data s \<longrightarrow> reserve_region s \<subseteq> runs_set (snd a))"
    and "reserve_fixed_growth_stream E x a = Inr b"
  with reserve_step [OF _ assms(1), of a E x b]
  show "reserved_ok l0 b \<and> (\<forall>s \<in> set (ys @ [x]). primary_data s \<longrightarrow> reserve_region s \<subseteq> runs_set (snd b))"
    by auto
qed

section \<open>The free runs\<close>

definition open_clusters :: "nat option \<Rightarrow> nat \<Rightarrow> nat list" where
  "open_clusters active m = (case active of None \<Rightarrow> [] | Some start \<Rightarrow> [start..<m])"

lemma collect_loop:
  assumes "foldE (collect_step E l) [1..<m] (None, []) = Inr (active, runs)" "1 \<le> m"
  shows "concat (map free_run_clusters runs) @ open_clusters active m = filter (\<lambda>c. \<not> ntfs_bitmap_bit l c) [1..<m] \<and>
    (\<forall>start. active = Some start \<longrightarrow> start < m)"
  using assms(2,1)
proof (induction m arbitrary: active runs rule: dec_induct)
  case base
  then show ?case by (auto simp: open_clusters_def)
next
  case (step m)
  have split: "[1..<Suc m] = [1..<m] @ [m]" using step.hyps by simp
  obtain a rs where ih: "foldE (collect_step E l) [1..<m] (None, []) = Inr (a, rs)" "collect_step E l m (a, rs) = Inr (active, runs)"
    using step.prems unfolding split by (auto simp: foldE_snoc bindE_Inr_iff)
  note IH = step.IH [OF ih(1)]
  show ?case
  proof (cases a)
    case None
    then show ?thesis using ih(2) IH unfolding split
      by (auto simp: collect_step_def open_clusters_def split: if_splits)
  next
    case (Some start)
    then have lt: "start < m" using IH by blast
    show ?thesis
    proof (cases "ntfs_bitmap_bit l m")
      case True
      then obtain out where "free_push E rs start (m - start) = Inr out" "active = None" "runs = out"
        using ih(2) Some by (auto simp: collect_step_def bindE_Inr_iff)
      moreover from free_push_Inr [OF this(1)] lt have "out = rs @ [\<lparr>fr_start = start, fr_length = m - start\<rparr>]" by simp
      ultimately show ?thesis using IH True Some lt unfolding split
        by (simp add: open_clusters_def free_run_clusters_def)
    next
      case False
      then have e: "active = Some start" "runs = rs" using ih(2) Some by (auto simp: collect_step_def)
      have "concat (map free_run_clusters rs) @ [start..<Suc m] = (concat (map free_run_clusters rs) @ [start..<m]) @ [m]"
        using lt by simp
      also have "concat (map free_run_clusters rs) @ [start..<m] = filter (\<lambda>c. \<not> ntfs_bitmap_bit l c) [1..<m]"
        using IH Some by (simp add: open_clusters_def)
      finally show ?thesis using False lt unfolding split e by (simp add: open_clusters_def)
    qed
  qed
qed

lemma collect_free_ok:
  assumes "collect_free E l clusters = Inr runs"
  shows "concat (map free_run_clusters runs) = filter (\<lambda>c. \<not> ntfs_bitmap_bit l c) [1..<clusters - 1]"
proof -
  define upper where "upper = clusters - 1"
  have goal: "[1..<clusters - 1] = [1..<upper]" by (simp add: upper_def)
  have upper: "(if clusters > 0 then clusters - 1 else 0) = upper" by (simp add: upper_def)
  obtain active rs where loop: "foldE (collect_step E l) [1..<upper] (None, []) = Inr (active, rs)"
    and last: "(case active of None \<Rightarrow> Inr rs | Some start \<Rightarrow> free_push E rs start (upper - start)) = Inr runs"
    using assms unfolding collect_free_def upper Let_def bindE_Inr_iff by auto
  show ?thesis
  proof (cases "1 \<le> upper")
    case True
    note L = collect_loop [OF loop True]
    show ?thesis
    proof (cases active)
      case None
      then show ?thesis using L last unfolding goal by (simp add: open_clusters_def)
    next
      case (Some start)
      then have "free_push E rs start (upper - start) = Inr runs" "start < upper" using L last by auto
      then have "runs = rs @ [\<lparr>fr_start = start, fr_length = upper - start\<rparr>]" using free_push_Inr by fastforce
      then show ?thesis using L Some \<open>start < upper\<close> unfolding goal by (simp add: open_clusters_def free_run_clusters_def)
    qed
  next
    case False
    then have "[1..<upper] = []" by simp
    then have "active = None" "rs = []" using loop by auto
    then show ?thesis using last False unfolding goal by simp
  qed
qed

end
