(* ===== verification/NtfsProps.thy ===== *)
theory NtfsProps
  imports NtfsRuns NtfsFixups NtfsStreams NtfsBestFit NtfsPlanLemmas
begin

text \<open>
  Properties of the NTFS engine below the transaction: mapping pairs, fixups, metadata
  streams and the choice of the best subset for a free run.
\<close>

section \<open>Mapping pairs\<close>


definition demo_runs :: "NtfsRun list" where
  "demo_runs = [\<lparr>nr_lcn = 1000, nr_length = 200, nr_sparse = False\<rparr>, \<lparr>nr_lcn = 0, nr_length = 7, nr_sparse = True\<rparr>,
     \<lparr>nr_lcn = 40, nr_length = 300, nr_sparse = False\<rparr>]"


text \<open>The encoder of the canonical run: it succeeds exactly when length and cluster number
  fit the signed fields of the format and the pairs fit the given capacity; what it writes
  stays within the capacity and is read back as that one run.\<close>

lemma canonical_run_roundtrip:
  assumes "checked64_ok E" "reserve_ok E"
  shows "(case ntfs_encode_single_run lcn len capacity of
      Inr bs \<Rightarrow> length bs \<le> capacity \<and>
        ntfs_decode_runlist E (bs @ rest) = Inr [\<lparr>nr_lcn = lcn, nr_length = len, nr_sparse = False\<rparr>]
    | Inl e \<Rightarrow> len = 0 \<or> 9223372036854775807 < len \<or> 9223372036854775807 < lcn \<or>
        capacity < length (mapping_pairs 0 [\<lparr>nr_lcn = lcn, nr_length = len, nr_sparse = False\<rparr>]))"
proof (cases "ntfs_encode_single_run lcn len capacity")
  case (Inr bs)
  note e = encode_single_mapping_pairs [OF Inr]
  have "ntfs_decode_runlist E (bs @ rest) = Inr [\<lparr>nr_lcn = lcn, nr_length = len, nr_sparse = False\<rparr>]"
    using decode_mapping_pairs [OF assms, of "[]" "[\<lparr>nr_lcn = lcn, nr_length = len, nr_sparse = False\<rparr>]" 0 0 "bs @ rest" rest] e
    by (simp add: ntfs_decode_runlist_def run_ok_def)
  then show ?thesis using Inr e(2) by simp
next
  case (Inl e)
  have "len = 0 \<or> 9223372036854775807 < len \<or> 9223372036854775807 < lcn \<or>
      capacity < length (mapping_pairs 0 [\<lparr>nr_lcn = lcn, nr_length = len, nr_sparse = False\<rparr>])"
    by (rule encode_single_fails [OF Inl])
  then show ?thesis using Inl by simp
qed

section \<open>Fixups\<close>

text \<open>C28. Preparing a record for the disk and reading it back gives the record: every byte outside
  the update-sequence array is the one prepared, including the last words of all sectors, which
  the array kept while the sequence number stood in their place.\<close>

theorem fixups_roundtrip:
  assumes "endian_ok E" "usa_ok E s usa_off usa_count fixed"
  shows "\<exists>raw fixed'. ntfs_prepare_fixups E fixed s = Inr raw \<and> ntfs_apply_fixups E raw s = Inr fixed' \<and>
    length fixed' = length fixed \<and>
    (\<forall>k < length fixed. k < usa_off \<or> usa_off + 2 * usa_count \<le> k \<longrightarrow> fixed' ! k = fixed ! k)"
proof -
  obtain raw where raw: "ntfs_prepare_fixups E fixed s = Inr raw"
    and st: "stamped_ok E s usa_off usa_count fixed (next_usn E usa_off fixed) usa_count raw"
    using prepare_fixups_ok [OF assms] by blast
  have ok: "usa_ok E s usa_off usa_count raw" by (rule usa_ok_stamped [OF assms(2) st order.refl])
  have "\<forall>i \<in> {1..<usa_count}. word_at E (i * s - 2) raw = word_at E usa_off raw"
    using stamped_reads(2,3) [OF st] by (simp add: word_at_def)
  then have "ntfs_apply_fixups E raw s = Inr (restored s usa_off raw usa_count)"
    using apply_fixups_eq [OF assms(1) ok] by simp
  with raw restored_stamped [OF assms st] length_restored [OF ok order.refl] stamped_reads(1) [OF st]
  show ?thesis by auto
qed

text \<open>Two sectors of sixteen bytes.\<close>

definition demo_fixed :: bytes where
  "demo_fixed = [70, 73, 76, 69, 8, 0, 3, 0, 5, 0, 0, 0, 0, 0, 21, 22, 1, 2, 3, 4, 5, 6, 7, 8, 9, 10, 11, 12, 13, 14, 31, 32]"

theorem fixups_roundtrip_witness:
  "\<exists>raw fixed'. ntfs_prepare_fixups ref_env demo_fixed 16 = Inr raw \<and> ntfs_apply_fixups ref_env raw 16 = Inr fixed' \<and>
     fixed' ! 14 = 21 \<and> fixed' ! 31 = 32"
proof -
  have ok: "usa_ok ref_env 16 8 3 demo_fixed"
    by (simp add: usa_ok_def demo_fixed_def word_at_def read_at_def ref_env_def)
  show ?thesis using fixups_roundtrip [OF endian_ok_ref ok] by (force simp: demo_fixed_def)
qed

text \<open>C15. A torn write of a record is always noticed: after an intact old image was read, its
  record changed and prepared again, every mixture of sectors of the old and the new image that
  is neither of the two is refused with the sequence-mismatch message.\<close>

theorem torn_record_detected:
  assumes "endian_ok E" "usa_ok E s usa_off usa_count old" "ntfs_apply_fixups E old s = Inr before"
    and "usa_ok E s usa_off usa_count fixed" "word_at E usa_off fixed = word_at E usa_off old"
    and "ntfs_prepare_fixups E fixed s = Inr new" "torn s (usa_count - 1) old new b"
  shows "ntfs_apply_fixups E b s = Inl (Fail ''NTFS MFT update-sequence mismatch'')"
proof -
  have st: "stamped_ok E s usa_off usa_count fixed (next_usn E usa_off fixed) usa_count new"
    using prepare_fixups_ok [OF assms(1,4)] assms(6) by auto
  note r = stamped_reads [OF st]
  have old: "word_at E (i * s - 2) old = word_at E usa_off old" if "i \<in> {1..<usa_count}" for i
    using apply_fixups_eq [OF assms(1,2)] assms(3) that by (auto split: if_splits)
  have new: "word_at E (i * s - 2) new = word_at E usa_off new" if "i \<in> {1..<usa_count}" for i
    using r(2) r(3) [OF that] by (simp add: word_at_def)
  have "word_at E usa_off new = next_usn E usa_off fixed"
    using r(2) load_store_le16 [OF assms(1), of _ "[]"] next_usn_less by (simp add: word_at_def)
  moreover have "usa_off + 2 \<le> length fixed" using usa_ok_size [OF assms(4)] by linarith
  ultimately have "word_at E usa_off old \<noteq> word_at E usa_off new"
    using next_usn_changes [OF assms(1)] assms(5) by metis
  then show ?thesis
    using torn_rejected [OF assms(1,2) usa_ok_stamped [OF assms(4) st order.refl] old new] assms(7) by blast
qed

text \<open>The example record as it lies on the disk with the number five, and with its last byte
  changed, the number being six.\<close>

definition demo_old :: bytes where
  "demo_old = [70, 73, 76, 69, 8, 0, 3, 0, 5, 0, 21, 22, 31, 32, 5, 0, 1, 2, 3, 4, 5, 6, 7, 8, 9, 10, 11, 12, 13, 14, 5, 0]"

theorem torn_record_detected_witness:
  "\<exists>new. ntfs_prepare_fixups ref_env (demo_fixed[20 := 99]) 16 = Inr new \<and>
     ntfs_apply_fixups ref_env (take 16 demo_old @ drop 16 new) 16 = Inl (Fail ''NTFS MFT update-sequence mismatch'')"
proof -
  define fixed where "fixed = demo_fixed[20 := 99]"
  have ok: "usa_ok ref_env 16 8 3 fixed" "usa_ok ref_env 16 8 3 demo_old"
    by (simp_all add: fixed_def usa_ok_def demo_fixed_def demo_old_def word_at_def read_at_def ref_env_def)
  have num: "word_at ref_env 8 fixed = word_at ref_env 8 demo_old"
    by (simp add: fixed_def demo_fixed_def demo_old_def word_at_def read_at_def ref_env_def)
  have "\<forall>i \<in> {1..<3}. word_at ref_env (i * 16 - 2) demo_old = word_at ref_env 8 demo_old"
    by (auto simp: demo_old_def word_at_def read_at_def ref_env_def less_Suc_eq numeral_3_eq_3)
  then have old: "ntfs_apply_fixups ref_env demo_old 16 = Inr (restored 16 8 demo_old 3)"
    using apply_fixups_eq [OF endian_ok_ref ok(2)] by simp
  obtain new where new: "ntfs_prepare_fixups ref_env fixed 16 = Inr new"
    and st: "stamped_ok ref_env 16 8 3 fixed (next_usn ref_env 8 fixed) 3 new"
    using prepare_fixups_ok [OF endian_ok_ref ok(1)] by blast
  have len: "length new = 32" "length demo_old = 32"
    using stamped_reads(1) [OF st] by (simp_all add: fixed_def demo_fixed_def demo_old_def)
  let ?b = "take 16 demo_old @ drop 16 new"
  have usn: "read_at 8 2 new = [6, 0]"
    using stamped_reads(2) [OF st]
    by (simp add: next_usn_def Let_def u16_def fixed_def demo_fixed_def word_at_def read_at_def ref_env_def)
  have "read_at 30 2 new = [6, 0]" using stamped_reads(3) [OF st, of 2] usn stamped_reads(2) [OF st] by simp
  then have tail: "new ! 30 = 6" using nth_read_at [of 30 2 new 0] len by simp
  have "?b ! 30 = 6" using tail len by (simp add: nth_append)
  moreover have "demo_old ! 30 = 5" by (simp add: demo_old_def)
  ultimately have differ: "?b \<noteq> demo_old" by auto
  have "?b ! 8 = 5" by (simp add: demo_old_def nth_append)
  moreover have "new ! 8 = 6" using usn nth_read_at [of 8 2 new 0] len by simp
  ultimately have differ': "?b \<noteq> new" by auto
  have "torn 16 (3 - 1) demo_old new ?b"
    using len differ differ' by (auto simp: torn_def read_at_def less_Suc_eq numeral_2_eq_2)
  from torn_record_detected [OF endian_ok_ref ok(2) old ok(1) num new this] new show ?thesis by (auto simp: fixed_def)
qed

section \<open>Metadata streams\<close>

text \<open>C21. A metadata stream behaves as the bytes of its runs put together: a write of a range
  inside it completes, reading any range afterwards gives that range of the bytes with the
  written ones patched in, and no byte of the target outside the runs is touched.\<close>

theorem metadata_stream_exact:
  assumes "io_reliable E" "0 < nv_cluster_size v" "length (w_disk w) \<le> SSIZE_MAX"
    and "list_all (run_inside (length (w_disk w)) (nv_cluster_size v)) runs" "sorted_wrt apart runs"
    and "stream_bytes (nv_cluster_size v) runs \<le> UINT64_MAX"
    and "off + length data \<le> stream_bytes (nv_cluster_size v) runs"
  shows "\<exists>w'. ntfs_write_stream E v runs off data w = (Inr (), w') \<and> length (w_disk w') = length (w_disk w) \<and>
    (\<forall>o' n. o' + n \<le> stream_bytes (nv_cluster_size v) runs \<longrightarrow>
       ntfs_read_stream E v (w_disk w') runs o' n =
         Inr (read_at o' n (patch (stream_data (w_disk w) (nv_cluster_size v) runs) off data))) \<and>
    (\<forall>k < length (w_disk w). \<not> run_byte (nv_cluster_size v) runs k \<longrightarrow> w_disk w' ! k = w_disk w ! k)"
proof -
  let ?cs = "nv_cluster_size v"
  obtain w' where w': "write_segments E ?cs runs 0 off data w = (Inr (), w')"
    "stream_written ?cs runs off data (w_disk w) (w_disk w')"
    using write_segments_eq [OF assms(1-5), of 0 off data] assms(6,7) by auto
  then have len: "length (w_disk w') = length (w_disk w)" by (simp add: stream_written_def)
  have "ntfs_read_stream E v (w_disk w') runs o' n = Inr (read_at o' n (stream_data (w_disk w') ?cs runs))"
    if "o' + n \<le> stream_bytes ?cs runs" for o' n
    unfolding ntfs_read_stream_def using assms(2-6) len that
    by (subst read_segments_eq [OF assms(1)]) auto
  then show ?thesis using w' len by (auto simp: ntfs_write_stream_def stream_written_def)
qed

definition demo_ntfs :: NtfsVolume where
  "demo_ntfs = \<lparr>nv_device_size = 64, nv_volume_bytes = 64, nv_bytes_per_sector = 4, nv_sectors_per_cluster = 1,
     nv_cluster_size = 4, nv_total_clusters = 16, nv_mft_lcn = 4, nv_mftmirr_lcn = 8, nv_record_size = 8,
     nv_serial = replicate 8 0\<rparr>"

definition demo_stream_world :: world where
  "demo_stream_world = \<lparr>w_disk = replicate 32 0, w_files = Map.empty, w_stop = None, w_trace = []\<rparr>"

theorem metadata_stream_exact_witness:
  "\<exists>w'. ntfs_write_stream ref_env demo_ntfs
       [\<lparr>nr_lcn = 5, nr_length = 1, nr_sparse = False\<rparr>, \<lparr>nr_lcn = 2, nr_length = 2, nr_sparse = False\<rparr>] 3 [1, 2]
       demo_stream_world = (Inr (), w') \<and> length (w_disk w') = 32"
  using metadata_stream_exact [OF io_reliable_ref, of demo_ntfs demo_stream_world
    "[\<lparr>nr_lcn = 5, nr_length = 1, nr_sparse = False\<rparr>, \<lparr>nr_lcn = 2, nr_length = 2, nr_sparse = False\<rparr>]" 3 "[1, 2]"]
  by (auto simp: demo_ntfs_def demo_stream_world_def run_inside_def apart_def)

section \<open>The best subset\<close>

text \<open>C16. The subset chosen for a free run leaves the least slack: \<open>select_best_fit\<close> always
  succeeds within its memory limit, the streams it selects add up to the sum it reports, and
  no subset of the streams has a larger sum that still fits the run.\<close>

theorem best_fit_maximal:
  assumes "checked_ok E" "checked64_ok E" "length spans \<le> 2147483648" "target \<le> 67108863"
  shows "\<exists>selected filled. select_best_fit E spans target = Inr (selected, filled) \<and>
    (\<Sum>i \<in> {i. i < length spans \<and> selected ! i}. spans ! i) = filled \<and>
    filled = Max {t. t \<le> target \<and> (\<exists>S \<subseteq> {..<length spans}. (\<Sum>i \<in> S. spans ! i) = t)}"
proof -
  obtain selected filled where out: "select_best_fit E spans target = Inr (selected, filled)"
    "selected_sum spans selected = filled" "filled \<le> target"
    "\<forall>t \<le> target. reach spans (length spans) t \<longrightarrow> t \<le> filled"
    using select_best_fit_ok [OF assms] by blast
  have "reach spans (length spans) filled"
    using out(2) unfolding reach_subset selected_sum_def
    by (intro exI [of _ "{i. i < length spans \<and> selected ! i}"]) auto
  then have "Max {t. t \<le> target \<and> reach spans (length spans) t} = filled"
    using out(3,4) by (intro Max_eqI) auto
  then show ?thesis using out(1,2) unfolding reach_subset selected_sum_def by auto
qed

theorem best_fit_maximal_witness:
  "\<exists>selected filled. select_best_fit ref_env [5, 4, 3] 8 = Inr (selected, filled) \<and> (8 :: nat) \<le> filled"
proof -
  obtain selected filled where f: "select_best_fit ref_env [5, 4, 3] 8 = Inr (selected, filled)"
    "filled = Max {t. t \<le> 8 \<and> (\<exists>S \<subseteq> {..<length [5, 4, 3 :: nat]}. (\<Sum>i \<in> S. [5, 4, 3] ! i) = t)}"
    using best_fit_maximal [OF checked_ok_ref checked64_ok_ref, of "[5, 4, 3]" 8] by auto
  have "(8 :: nat) \<in> {t. t \<le> 8 \<and> (\<exists>S \<subseteq> {..<length [5, 4, 3 :: nat]}. (\<Sum>i \<in> S. [5, 4, 3] ! i) = t)}"
    by (auto intro!: exI [of _ "{0, 2}"])
  then have "8 \<le> filled" unfolding f(2) by (intro Max_ge) auto
  with f(1) show ?thesis by blast
qed

end
