(* ===== verification/NtfsPlanSafe.thy ===== *)
theory NtfsPlanSafe
  imports NtfsPlanLemmas
begin

text \<open>
  The placements of a plan: each free run is filled with consecutive extents, so the extents
  of all placements are disjoint, lie on clusters that are free or released, and the streams
  placed are exactly the movable ones.
\<close>

section \<open>Placements\<close>

definition extent :: "NtfsPlacement \<Rightarrow> nat set" where
  "extent p = {pm_start p..<pm_start p + pm_clusters p + pm_reserve p}"

definition data_clusters :: "NtfsPlacement \<Rightarrow> nat set" where
  "data_clusters p = {pm_start p..<pm_start p + pm_clusters p}"

definition placement_of :: "PlanItem \<Rightarrow> nat \<Rightarrow> NtfsPlacement" where
  "placement_of i start =
     \<lparr>pm_record_number = ns_record_number (pi_stream i), pm_attribute_offset = ns_attribute_offset (pi_stream i),
      pm_start = start, pm_clusters = ns_clusters (pi_stream i), pm_reserve = pi_span i - ns_clusters (pi_stream i)\<rparr>"

text \<open>The growth reserve of a stream, rounded up.\<close>

definition reserve_of :: "bool \<Rightarrow> NtfsStream \<Rightarrow> nat" where
  "reserve_of growth s = (if growth \<and> ns_attribute_type s = NTFS_ATTR_DATA then (ns_clusters s + 9) div 10 else 0)"

definition spans :: "PlanItem list \<Rightarrow> nat" where
  "spans items = sum_list (map pi_span items)"

lemma spans_simps [simp]:
  "spans [] = 0" "spans (i # items) = pi_span i + spans items" "spans (xs @ ys) = spans xs + spans ys"
  by (simp_all add: spans_def)

text \<open>The spans are sums that do not wrap around.\<close>

definition item_ok :: "PlanItem \<Rightarrow> bool" where
  "item_ok i \<longleftrightarrow> ns_clusters (pi_stream i) \<le> pi_span i \<and> pi_span i \<le> UINT64_MAX"

fun placed_from :: "PlanItem list \<Rightarrow> nat \<Rightarrow> NtfsPlacement list" where
  "placed_from [] start = []"
| "placed_from (i # items) start = placement_of i start # placed_from items (start + pi_span i)"

lemma place_items_eq:
  assumes "place_items E items start placed = Inr out" "\<forall>i \<in> set items. item_ok i" "start + spans items \<le> UINT64_MAX"
  shows "out = (start + spans items, placed @ placed_from items start)"
  using assms unfolding place_items_def
proof (induction items arbitrary: start placed)
  case Nil
  then show ?case by simp
next
  case (Cons i items)
  have r: "sub64 (pi_span i) (ns_clusters (pi_stream i)) = pi_span i - ns_clusters (pi_stream i)"
    using Cons.prems(2) by (auto simp: item_ok_def intro: sub64_id)
  have c: "u64 (start + pi_span i) = start + pi_span i" using Cons.prems(3) by (intro u64_id) simp
  from Cons.prems(1) obtain placed' where p: "placement_push E placed (placement_of i start) = Inr placed'"
    and rest: "foldE (\<lambda>item (cursor, placed).
       bindE (placement_push E placed
         \<lparr>pm_record_number = ns_record_number (pi_stream item), pm_attribute_offset = ns_attribute_offset (pi_stream item),
          pm_start = cursor, pm_clusters = ns_clusters (pi_stream item),
          pm_reserve = sub64 (pi_span item) (ns_clusters (pi_stream item))\<rparr>) (\<lambda>placed.
       Inr (u64 (cursor + pi_span item), placed))) items (start + pi_span i, placed') = Inr out"
    by (auto simp: bindE_Inr_iff r c placement_of_def)
  have "placed' = placed @ [placement_of i start]" using p by (auto simp: placement_push_def split: if_splits)
  then show ?case using Cons.IH [OF rest] Cons.prems(2,3) by (auto simp: add.assoc)
qed

lemma placed_from_fields:
  "map pm_record_number (placed_from items start) = map (ns_record_number \<circ> pi_stream) items"
  by (induction items arbitrary: start) (simp_all add: placement_of_def)

text \<open>A list of placements is made of a list of items, whatever the starts.\<close>

definition places :: "PlanItem list \<Rightarrow> NtfsPlacement list \<Rightarrow> bool" where
  "places items placed \<longleftrightarrow> list_all2 (\<lambda>i p. p = placement_of i (pm_start p)) items placed"

lemma places_append: "places xs ps \<Longrightarrow> places ys qs \<Longrightarrow> places (xs @ ys) (ps @ qs)"
  by (simp add: places_def list_all2_appendI)

lemma places_from: "places items (placed_from items start)"
  unfolding places_def by (induction items arbitrary: start) (simp_all add: placement_of_def)

lemma placed_fields:
  assumes "places its ps" "\<forall>i \<in> set its. pi_span i = ns_clusters (pi_stream i) + reserve_of growth (pi_stream i)"
  shows "map (\<lambda>p. (pm_record_number p, pm_attribute_offset p, pm_clusters p, pm_reserve p)) ps =
      map (\<lambda>s. (ns_record_number s, ns_attribute_offset s, ns_clusters s, reserve_of growth s)) (map pi_stream its)"
  using assms unfolding places_def
proof (induction its ps rule: list_all2_induct)
  case (Cons i its p ps)
  then have "p = placement_of i (pm_start p)" by simp
  then have "pm_record_number p = ns_record_number (pi_stream i)" "pm_attribute_offset p = ns_attribute_offset (pi_stream i)"
    "pm_clusters p = ns_clusters (pi_stream i)" "pm_reserve p = pi_span i - ns_clusters (pi_stream i)"
    by (metis NtfsPlacement.select_convs placement_of_def)+
  then show ?case using Cons by simp
qed simp

definition separate :: "NtfsPlacement list \<Rightarrow> bool" where
  "separate ps \<longleftrightarrow> sorted_wrt (\<lambda>p q. extent p \<inter> extent q = {}) ps"

lemma placed_from_extents:
  assumes "\<forall>i \<in> set items. item_ok i"
  shows "separate (placed_from items start) \<and>
    (\<forall>p \<in> set (placed_from items start). extent p \<subseteq> {start..<start + spans items})"
  using assms
proof (induction items arbitrary: start)
  case Nil
  then show ?case by (simp add: separate_def)
next
  case (Cons i items)
  have e: "extent (placement_of i start) = {start..<start + pi_span i}"
    using Cons.prems by (auto simp: extent_def placement_of_def item_ok_def)
  have ih: "separate (placed_from items (start + pi_span i))"
    "\<forall>p \<in> set (placed_from items (start + pi_span i)). extent p \<subseteq> {start + pi_span i..<start + pi_span i + spans items}"
    using Cons.IH [of "start + pi_span i"] Cons.prems by auto
  have "extent (placement_of i start) \<inter> extent p = {}" if "p \<in> set (placed_from items (start + pi_span i))" for p
    using ih(2) that unfolding e by fastforce
  then have "separate (placed_from (i # items) start)" using ih(1) by (simp add: separate_def)
  moreover have "extent p \<subseteq> {start..<start + spans (i # items)}" if "p \<in> set (placed_from (i # items) start)" for p
    using ih(2) that e by (auto simp: add.assoc dest!: bspec)
  ultimately show ?case by blast
qed

section \<open>The chosen items\<close>

lemma chosen_split:
  assumes "length selected = length items"
  shows "mset (chosen_items True items selected) + mset (chosen_items False items selected) = mset items"
  using assms
  by (induction items selected rule: list_induct2') (auto simp: chosen_items_def)

lemma chosen_spans:
  assumes "length selected = length items"
  shows "spans (chosen_items True items selected) = selected_sum (map pi_span items) selected"
  using assms
proof (induction selected items rule: list_induct2)
  case Nil
  then show ?case by (simp add: chosen_items_def selected_sum_def)
next
  case (Cons s selected i items)
  have "{j. j < Suc (length items) \<and> (s # selected) ! j} =
      (if s then {0} else {}) \<union> Suc ` {j. j < length items \<and> selected ! j}"
    by (auto simp: less_Suc_eq_0_disj image_iff)
  then have "selected_sum (map pi_span (i # items)) (s # selected) =
      (if s then pi_span i else 0) + selected_sum (map pi_span items) selected"
    by (auto simp: selected_sum_def sum.union_disjoint sum.reindex)
  then show ?case using Cons.IH by (simp add: chosen_items_def)
qed

lemma spans_mset: "mset xs = mset ys \<Longrightarrow> spans xs = spans ys"
  unfolding spans_def by (metis mset_map sum_mset_sum_list)

section \<open>Filling the free runs\<close>

definition run_set :: "FreeRun \<Rightarrow> nat set" where
  "run_set r = {fr_start r..<fr_start r + fr_length r}"

definition fill_ok :: "PlanItem list \<Rightarrow> FreeRun list \<Rightarrow> PlanState \<Rightarrow> bool" where
  "fill_ok items used st \<longleftrightarrow>
     (\<exists>its. places its (pv_items (ps_placed st)) \<and> mset its + mset (ps_remaining st) = mset items) \<and>
     separate (pv_items (ps_placed st)) \<and>
     (\<forall>p \<in> set (pv_items (ps_placed st)). \<exists>r \<in> set used. extent p \<subseteq> run_set r) \<and>
     ps_total_span st = spans (ps_remaining st)"

lemma separate_append:
  assumes "separate ps" "separate qs" "\<forall>p \<in> set ps. \<exists>r \<in> set used. extent p \<subseteq> run_set r"
    and "\<forall>q \<in> set qs. extent q \<subseteq> run_set r" "\<forall>u \<in> set used. run_set u \<inter> run_set r = {}"
  shows "separate (ps @ qs)"
proof -
  have "extent p \<inter> extent q = {}" if "p \<in> set ps" "q \<in> set qs" for p q
    using assms(3-5) that by blast
  then show ?thesis using assms(1,2) by (auto simp: separate_def sorted_wrt_append)
qed

lemma fill_ok_extend:
  assumes "fill_ok items used st" "mset chosen + mset left = mset (ps_remaining st)" "\<forall>i \<in> set items. item_ok i"
    and "\<forall>u \<in> set used. run_set u \<inter> run_set r = {}" "spans chosen \<le> fr_length r" "tot = spans left"
    and "pv_items vec = pv_items (ps_placed st) @ placed_from chosen (fr_start r)"
  shows "fill_ok items (used @ [r]) \<lparr>ps_remaining = left, ps_total_span = tot, ps_placed = vec, ps_have_start = h\<rparr>"
proof -
  let ?old = "pv_items (ps_placed st)" and ?new = "placed_from chosen (fr_start r)"
  obtain its where its: "places its ?old" "mset its + mset (ps_remaining st) = mset items"
    using assms(1) by (auto simp: fill_ok_def)
  have "set_mset (mset chosen) \<subseteq> set_mset (mset items)"
    using its(2) assms(2) by (metis mset_subset_eq_add_left mset_subset_eq_add_right set_mset_mono subset_trans)
  then have ok: "\<forall>i \<in> set chosen. item_ok i" using assms(3) by auto
  note new = placed_from_extents [OF ok, of "fr_start r"]
  have "extent p \<subseteq> run_set r" if "p \<in> set ?new" for p
  proof -
    have "extent p \<subseteq> {fr_start r..<fr_start r + spans chosen}" using new that by blast
    also have "\<dots> \<subseteq> run_set r" using assms(5) by (auto simp: run_set_def)
    finally show ?thesis .
  qed
  then have inside: "\<forall>p \<in> set ?new. extent p \<subseteq> run_set r" by blast
  have "separate (?old @ ?new)"
    by (rule separate_append [of _ _ used r]) (use assms(1,4) new inside in \<open>auto simp: fill_ok_def\<close>)
  moreover have "places (its @ chosen) (?old @ ?new)" by (rule places_append [OF its(1) places_from])
  moreover have "mset (its @ chosen) + mset left = mset items"
    using its(2) assms(2) by (simp add: add.assoc)
  ultimately show ?thesis
    using assms(1,6) inside unfolding fill_ok_def by (auto simp: assms(7) Bex_def)
qed

lemma select_best_fit_limit:
  assumes "select_best_fit E ss target = Inr out" "checked_ok E" "checked64_ok E"
  shows "target \<le> 67108863"
proof (cases "target = 0")
  case False
  then show ?thesis using assms
    by (auto simp: select_best_fit_def checked_ok_def checked64_ok_def Let_def split: if_splits)
qed simp

lemma fill_run_step:
  assumes "fill_run E r st = Inr st'" "fill_ok items used st" "checked_ok E" "checked64_ok E"
    and "\<forall>i \<in> set items. item_ok i" "spans items \<le> UINT64_MAX" "length items \<le> 2147483648"
    and "\<forall>u \<in> set used. run_set u \<inter> run_set r = {}" "fr_length r = 0 \<or> fr_start r + fr_length r \<le> UINT64_MAX"
  shows "fill_ok items (used @ [r]) st'"
proof (cases "ps_remaining st = [] \<or> fr_length r = 0")
  case True
  then have "st' = st" using assms(1) by (simp add: fill_run_def)
  then show ?thesis using assms(2) by (auto simp: fill_ok_def)
next
  case nonempty: False
  then have run_end: "fr_start r + fr_length r \<le> UINT64_MAX" using assms(9) by simp
  define vec where "vec = (if ps_have_start st then ps_placed st else (ps_placed st)\<lparr>pv_envelope_start := fr_start r\<rparr>)"
  have vec: "pv_items vec = pv_items (ps_placed st)" by (simp add: vec_def)
  obtain its where its: "mset its + mset (ps_remaining st) = mset items" and total: "ps_total_span st = spans (ps_remaining st)"
    using assms(2) by (auto simp: fill_ok_def)
  have sub: "mset (ps_remaining st) \<subseteq># mset items" using its by (metis mset_subset_eq_add_right)
  then have rem: "\<forall>i \<in> set (ps_remaining st). item_ok i" using assms(5) mset_subset_eqD [OF sub] by auto
  have "spans its + spans (ps_remaining st) = spans items"
    using spans_mset [of "its @ ps_remaining st" items] its by simp
  then have word: "spans (ps_remaining st) \<le> UINT64_MAX" using assms(6) by linarith
  show ?thesis
  proof (cases "ps_total_span st \<le> fr_length r")
    case True
    then obtain cursor placed where p: "place_items E (ps_remaining st) (fr_start r) (pv_items vec) = Inr (cursor, placed)"
      and st': "st' = \<lparr>ps_remaining = [], ps_total_span = 0,
               ps_placed = vec\<lparr>pv_items := placed, pv_envelope_end := cursor\<rparr>, ps_have_start = True\<rparr>"
      using assms(1) nonempty by (auto simp: fill_run_def bindE_Inr_iff Let_def simp flip: vec_def)
    have "(cursor, placed) = (fr_start r + spans (ps_remaining st),
        pv_items vec @ placed_from (ps_remaining st) (fr_start r))"
      using p rem by (rule place_items_eq) (use run_end True total in linarith)
    then show ?thesis unfolding st'
      by (intro fill_ok_extend [OF assms(2) _ assms(5,8), of "ps_remaining st"]) (use True total vec in auto)
  next
    case False
    have "bindE (select_best_fit E (map pi_span (ps_remaining st)) (fr_length r)) (\<lambda>(selected, filled).
          bindE (place_items E (chosen_items True (ps_remaining st) selected) (fr_start r) (pv_items vec)) (\<lambda>(cursor, items).
          if cursor \<noteq> u64 (fr_start r + filled)
          then Inl (Fail ''NTFS low-layout planner produced an inconsistent best-fit run'')
          else
            Inr \<lparr>ps_remaining = chosen_items False (ps_remaining st) selected,
                 ps_total_span = sub64 (ps_total_span st) filled,
                 ps_placed = vec\<lparr>pv_items := items, pv_envelope_end := cursor,
                   pv_fixed_slack_clusters := u64 (pv_fixed_slack_clusters vec + (fr_length r - filled))\<rparr>,
                 ps_have_start = True\<rparr>)) = Inr st'"
      using assms(1) nonempty False unfolding fill_run_def Let_def vec_def [symmetric] by simp
    then obtain selected filled cursor placed where
      s: "select_best_fit E (map pi_span (ps_remaining st)) (fr_length r) = Inr (selected, filled)"
      and p: "place_items E (chosen_items True (ps_remaining st) selected) (fr_start r) (pv_items vec) = Inr (cursor, placed)"
      and st': "st' = \<lparr>ps_remaining = chosen_items False (ps_remaining st) selected,
                 ps_total_span = sub64 (ps_total_span st) filled,
                 ps_placed = vec\<lparr>pv_items := placed, pv_envelope_end := cursor,
                   pv_fixed_slack_clusters := u64 (pv_fixed_slack_clusters vec + (fr_length r - filled))\<rparr>,
                 ps_have_start = True\<rparr>"
      by (auto simp: bindE_Inr_iff split: if_splits)
    have "length (ps_remaining st) \<le> length items" using sub by (metis size_mset size_mset_mono)
    then have len: "length (map pi_span (ps_remaining st)) \<le> 2147483648" using assms(7) by simp
    note sel = select_best_fit_ok [OF assms(3,4) len select_best_fit_limit [OF s assms(3,4)]]
    have sl: "length selected = length (ps_remaining st)" and
      sum: "selected_sum (map pi_span (ps_remaining st)) selected = filled" "filled \<le> fr_length r"
      using sel s by auto
    define chosen left where "chosen = chosen_items True (ps_remaining st) selected" and
      "left = chosen_items False (ps_remaining st) selected"
    have split: "mset chosen + mset left = mset (ps_remaining st)" using chosen_split [OF sl] by (simp add: chosen_def left_def)
    have cs: "spans chosen = filled" using chosen_spans [OF sl] sum by (simp add: chosen_def)
    have parts: "spans chosen + spans left = spans (ps_remaining st)"
      using spans_mset [of "chosen @ left" "ps_remaining st"] split by simp
    have "set chosen \<subseteq> set (ps_remaining st)" using split by (metis mset_subset_eq_add_left set_mset_mono set_mset_mset)
    then have cok: "\<forall>i \<in> set chosen. item_ok i" using rem by blast
    have "(cursor, placed) = (fr_start r + spans chosen, pv_items vec @ placed_from chosen (fr_start r))"
      using p [folded chosen_def] cok by (rule place_items_eq) (use run_end cs sum in linarith)
    moreover have "sub64 (ps_total_span st) filled = spans left"
      using sub64_id [of filled "ps_total_span st"] parts cs word total by simp
    ultimately show ?thesis unfolding st' left_def [symmetric]
      by (intro fill_ok_extend [OF assms(2) split assms(5,8)]) (use cs sum vec in auto)
  qed
qed

lemma fill_runs_ok:
  assumes "foldE (fill_run E) runs st = Inr st'" "fill_ok items [] st" "checked_ok E" "checked64_ok E"
    and "\<forall>i \<in> set items. item_ok i" "spans items \<le> UINT64_MAX" "length items \<le> 2147483648"
    and "sorted_wrt (\<lambda>u r. run_set u \<inter> run_set r = {}) runs" "\<forall>r \<in> set runs. fr_length r = 0 \<or> fr_start r + fr_length r \<le> UINT64_MAX"
  shows "fill_ok items runs st'"
proof (rule foldE_prefix_invariant [OF assms(1), of "\<lambda>used. fill_ok items used"])
  show "fill_ok items [] st" by (rule assms(2))
  fix ys x zs a b
  assume "runs = ys @ x # zs" "fill_ok items ys a" "fill_run E x a = Inr b"
  with fill_run_step [OF _ _ assms(3-7), of x a b ys] assms(8,9)
  show "fill_ok items (ys @ [x]) b" by (auto simp: sorted_wrt_append)
qed

section \<open>The final bitmap\<close>

lemma mark_changed:
  assumes "bits_ok l" "separate ps" "\<forall>p \<in> set ps. pm_start p + pm_clusters p + pm_reserve p \<le> UINT64_MAX"
  shows "bits_changed l (\<Union>p \<in> set ps. extent p) (\<Union>p \<in> set ps. data_clusters p) (foldl mark_placement l ps)"
  using assms(2,3)
proof (induction ps rule: rev_induct)
  case Nil
  then show ?case using assms(1) by (simp add: bits_changed_refl)
next
  case (snoc p ps)
  let ?l = "foldl mark_placement l ps" and ?F = "\<Union>p \<in> set ps. extent p" and ?T = "\<Union>p \<in> set ps. data_clusters p"
  let ?e = "pm_start p + pm_clusters p"
  let ?res = "{?e..<?e + pm_reserve p}"
  have l: "bits_changed l ?F ?T ?l" using snoc by (simp add: separate_def sorted_wrt_append)
  have ok: "bits_ok ?l" using l by (simp add: bits_changed_def)
  have lim: "?e + pm_reserve p \<le> 18446744073709551616" "?e \<le> 18446744073709551616"
    using snoc.prems(2) by simp_all
  have wrap: "u64 ?e = ?e" using snoc.prems(2) by (intro u64_id) simp
  let ?l1 = "set_clusters True (pm_start p) (pm_clusters p) ?l"
  have l1: "bits_changed l ?F (?T \<union> data_clusters p) ?l1"
    using bits_changed_take [OF l set_clusters_changed(2) [OF ok lim(2)]] by (simp add: data_clusters_def)
  then have ok1: "bits_ok ?l1" by (simp add: bits_changed_def)
  have "bits_changed l (?F \<union> ?res) (?T \<union> data_clusters p - ?res) (set_clusters False ?e (pm_reserve p) ?l1)"
    by (rule bits_changed_free [OF l1 set_clusters_changed(1) [OF ok1 lim(1)]])
  moreover have "?T \<union> data_clusters p - ?res = ?T \<union> data_clusters p"
  proof -
    have "extent q \<inter> extent p = {}" if "q \<in> set ps" for q
      using snoc.prems(1) that by (auto simp: separate_def sorted_wrt_append)
    then show ?thesis by (fastforce simp: data_clusters_def extent_def)
  qed
  ultimately have c: "bits_changed l (?F \<union> ?res) (?T \<union> data_clusters p) (foldl mark_placement l (ps @ [p]))"
    by (simp add: mark_placement_def wrap)
  have "extent p = data_clusters p \<union> ?res" by (auto simp: extent_def data_clusters_def)
  with c show ?case by (auto simp: bits_changed_def)
qed

lemma release_runs_changed:
  assumes "bits_ok l" "\<forall>r \<in> set runs. fr_start r + fr_length r \<le> 18446744073709551616"
  shows "bits_changed l (runs_set runs) {} (foldl release_run l runs)"
  using assms(2)
proof (induction runs rule: rev_induct)
  case Nil
  then show ?case using assms(1) by (simp add: bits_changed_refl)
next
  case (snoc r runs)
  let ?l = "foldl release_run l runs"
  have l: "bits_changed l (runs_set runs) {} ?l" using snoc by simp
  then have "bits_changed ?l {fr_start r..<fr_start r + fr_length r} {} (release_run ?l r)"
    unfolding release_run_def using snoc.prems by (intro set_clusters_changed) (auto simp: bits_changed_def)
  from bits_changed_free [OF l this] show ?case by simp
qed

section \<open>The streams planned\<close>

definition movable_streams :: "NtfsCatalogue \<Rightarrow> NtfsStream list" where
  "movable_streams catalogue = filter (\<lambda>s. ns_movable s \<and> ns_clusters s \<noteq> 0) (nc_items catalogue)"

text \<open>The arithmetic of all spans stays within 64 bits.\<close>

definition sizes_ok :: "NtfsStream list \<Rightarrow> bool" where
  "sizes_ok streams \<longleftrightarrow> (\<Sum>s \<leftarrow> streams. 10 * ns_clusters s + 99) \<le> UINT64_MAX"

lemma stream_span_eq:
  assumes "10 * ns_clusters s + 99 \<le> UINT64_MAX"
  shows "stream_span s growth = ns_clusters s + reserve_of growth s"
proof -
  have "u64 (u64 (ns_clusters s * 10) + 99) = ns_clusters s * 10 + 99"
    using assms by (simp add: u64_id)
  then have g: "growth_reserve (ns_clusters s) = (ns_clusters s * 10 + 99) div 100" by (simp add: growth_reserve_def)
  have "(ns_clusters s * 10 + 99) div 100 = (ns_clusters s * 10 + 99) div 10 div 10" by (simp add: div_mult2_eq [symmetric])
  also have "(ns_clusters s * 10 + 99) div 10 = ns_clusters s + 9" by simp
  finally have r: "growth_reserve (ns_clusters s) = (ns_clusters s + 9) div 10" using g by simp
  have "(ns_clusters s + 9) div 10 \<le> ns_clusters s + 9" by simp
  then show ?thesis using assms r by (auto simp: stream_span_def reserve_of_def intro!: u64_id)
qed

lemma movable_items_ok:
  assumes "sizes_ok (movable_streams catalogue)"
  shows "\<forall>i \<in> set (movable_items (nc_items catalogue) growth). item_ok i \<and>
      pi_span i = ns_clusters (pi_stream i) + reserve_of growth (pi_stream i)"
    "spans (movable_items (nc_items catalogue) growth) \<le> UINT64_MAX"
    "map pi_stream (movable_items (nc_items catalogue) growth) = movable_streams catalogue"
proof -
  let ?item = "\<lambda>s. \<lparr>pi_stream = s, pi_span = stream_span s growth\<rparr>"
  have items: "movable_items (nc_items catalogue) growth = map ?item (movable_streams catalogue)"
    by (simp add: movable_items_def movable_streams_def)
  have one: "10 * ns_clusters s + 99 \<le> UINT64_MAX" if "s \<in> set (movable_streams catalogue)" for s
  proof -
    have "10 * ns_clusters s + 99 \<le> (\<Sum>s \<leftarrow> movable_streams catalogue. 10 * ns_clusters s + 99)"
      using that by (intro member_le_sum_list) auto
    then show ?thesis using assms unfolding sizes_ok_def by linarith
  qed
  have le: "stream_span s growth \<le> 10 * ns_clusters s + 99" if "s \<in> set (movable_streams catalogue)" for s
    unfolding stream_span_eq [OF one [OF that]] by (auto simp: reserve_of_def)
  show "\<forall>i \<in> set (movable_items (nc_items catalogue) growth). item_ok i \<and>
      pi_span i = ns_clusters (pi_stream i) + reserve_of growth (pi_stream i)"
    unfolding items using one le stream_span_eq by (fastforce simp: item_ok_def)
  have "spans (map ?item (movable_streams catalogue)) \<le> (\<Sum>s \<leftarrow> movable_streams catalogue. 10 * ns_clusters s + 99)"
    unfolding spans_def map_map using le by (intro sum_list_mono) auto
  then show "spans (movable_items (nc_items catalogue) growth) \<le> UINT64_MAX"
    unfolding items using assms unfolding sizes_ok_def by linarith
  show "map pi_stream (movable_items (nc_items catalogue) growth) = movable_streams catalogue"
    unfolding items by (simp add: comp_def)
qed

lemma total_span_eq:
  assumes "n + spans items \<le> UINT64_MAX"
  shows "foldl (\<lambda>n i. u64 (n + pi_span i)) n items = n + spans items"
  using assms
proof (induction items arbitrary: n)
  case (Cons i items)
  have "u64 (n + pi_span i) = n + pi_span i" using Cons.prems by (intro u64_id) simp
  then show ?case using Cons by (simp add: add.assoc)
qed simp

lemma distinct_concat_apart:
  "distinct (concat xss) \<Longrightarrow> sorted_wrt (\<lambda>xs ys. set xs \<inter> set ys = {}) xss"
  by (induction xss) auto

section \<open>The whole plan\<close>

text \<open>The steps of a plan that succeeds.\<close>

lemma plan_layout_steps:
  assumes "ntfs_plan_layout E layout catalogue clusters growth = Inr (final, vec)"
  obtains planned reserved runs st items n where
    "items = qsort_by cmp_plan_item (movable_items (nc_items catalogue) growth)"
    "foldE (reserve_fixed_growth_stream E) (if growth then filter keeps_growth (nc_items catalogue) else [])
       (foldl (\<lambda>l i. set_stream_free (pi_stream i) l) layout (movable_items (nc_items catalogue) growth), []) =
     Inr (planned, reserved)"
    "collect_free E planned clusters = Inr runs"
    "foldE (fill_run E) runs \<lparr>ps_remaining = items, ps_total_span = foldl (\<lambda>n i. u64 (n + pi_span i)) 0 items,
       ps_placed = \<lparr>pv_items = [], pv_envelope_start = 0, pv_envelope_end = 0, pv_fixed_streams = n,
         pv_fixed_slack_clusters = 0\<rparr>, ps_have_start = False\<rparr> = Inr st"
    "ps_remaining st = []" "vec = ps_placed st"
    "final = foldl release_run (foldl mark_placement planned (pv_items vec)) reserved"
  using assms unfolding ntfs_plan_layout_def Let_def
  by (auto simp: bindE_Inr_iff split: if_splits)

lemma free_runs_ok:
  assumes "collect_free E l clusters = Inr runs" "bits_ok l"
  shows "sorted_wrt (\<lambda>u r. run_set u \<inter> run_set r = {}) runs"
    "r \<in> set runs \<Longrightarrow> run_set r \<subseteq> {1..<clusters - 1} \<inter> {c. c < bits l \<and> \<not> ntfs_bitmap_bit l c}"
    "r \<in> set runs \<Longrightarrow> fr_length r = 0 \<or> fr_start r + fr_length r \<le> UINT64_MAX"
proof -
  note free = collect_free_ok [OF assms(1)]
  have set: "run_set = (\<lambda>r. set (free_run_clusters r))" by (rule ext) (simp add: run_set_def free_run_clusters_def)
  have "distinct (concat (map free_run_clusters runs))" unfolding free by simp
  from distinct_concat_apart [OF this] show "sorted_wrt (\<lambda>u r. run_set u \<inter> run_set r = {}) runs"
    by (simp add: set sorted_wrt_map)
  show sub: "run_set r \<subseteq> {1..<clusters - 1} \<inter> {c. c < bits l \<and> \<not> ntfs_bitmap_bit l c}" if "r \<in> set runs" for r
  proof -
    have "run_set r \<subseteq> set (concat (map free_run_clusters runs))" using that by (auto simp: set)
    also have "\<dots> = {c \<in> {1..<clusters - 1}. \<not> ntfs_bitmap_bit l c}" unfolding free by auto
    finally show ?thesis using bit_outside [OF assms(2)] by (auto simp flip: not_less)
  qed
  show "fr_length r = 0 \<or> fr_start r + fr_length r \<le> UINT64_MAX" if "r \<in> set runs"
  proof (cases "fr_length r = 0")
    case False
    then have "fr_start r + fr_length r - 1 \<in> run_set r" by (auto simp: run_set_def)
    then have "fr_start r + fr_length r - 1 < bits l" using sub [OF that] by blast
    moreover have "bits l \<le> UINT64_MAX" using assms(2) by (simp add: bits_ok_def bits_def)
    ultimately have "fr_start r + fr_length r \<le> UINT64_MAX" by linarith
    then show ?thesis ..
  qed simp
qed

lemma plan_layout_ok:
  assumes "ntfs_plan_layout E layout catalogue clusters growth = Inr (final, vec)" "checked_ok E" "checked64_ok E"
    and "bits_ok layout" "sizes_ok (movable_streams catalogue)" "\<forall>s \<in> set (movable_streams catalogue). runs_bounded s"
    and "length (nc_items catalogue) \<le> 2147483648"
  shows "\<exists>its. mset (map pi_stream its) = mset (movable_streams catalogue) \<and> places its (pv_items vec) \<and>
      (\<forall>i \<in> set its. pi_span i = ns_clusters (pi_stream i) + reserve_of growth (pi_stream i))" (is ?items)
    and "separate (pv_items vec)"
    and "\<forall>p \<in> set (pv_items vec). extent p \<subseteq> {1..<clusters - 1} \<inter>
      {c. c < bits layout \<and> (\<not> ntfs_bitmap_bit layout c \<or> c \<in> \<Union> (stream_clusters ` set (movable_streams catalogue)))}" (is ?free)
    and "\<forall>c < bits layout. ntfs_bitmap_bit final c \<longleftrightarrow> (\<exists>p \<in> set (pv_items vec). c \<in> data_clusters p) \<or>
      ntfs_bitmap_bit layout c \<and> c \<notin> \<Union> (stream_clusters ` set (movable_streams catalogue))" (is ?bits)
    and "\<forall>s \<in> set (nc_items catalogue). growth \<and> keeps_growth s \<and> primary_data s \<longrightarrow>
      (\<forall>p \<in> set (pv_items vec). extent p \<inter> reserve_region s = {}) \<and> (\<forall>c \<in> reserve_region s. \<not> ntfs_bitmap_bit final c)" (is ?kept)
proof -
  let ?its = "movable_items (nc_items catalogue) growth"
  let ?moved = "\<Union> (stream_clusters ` set (movable_streams catalogue))"
  obtain planned reserved runs st items n where
    items: "items = qsort_by cmp_plan_item ?its" and
    res: "foldE (reserve_fixed_growth_stream E) (if growth then filter keeps_growth (nc_items catalogue) else [])
       (foldl (\<lambda>l i. set_stream_free (pi_stream i) l) layout ?its, []) = Inr (planned, reserved)" and
    free: "collect_free E planned clusters = Inr runs" and
    fill: "foldE (fill_run E) runs \<lparr>ps_remaining = items, ps_total_span = foldl (\<lambda>n i. u64 (n + pi_span i)) 0 items,
       ps_placed = \<lparr>pv_items = [], pv_envelope_start = 0, pv_envelope_end = 0, pv_fixed_streams = n,
         pv_fixed_slack_clusters = 0\<rparr>, ps_have_start = False\<rparr> = Inr st" and
    rest: "ps_remaining st = []" and vec: "vec = ps_placed st" and
    final: "final = foldl release_run (foldl mark_placement planned (pv_items vec)) reserved"
    by (rule plan_layout_steps [OF assms(1)])
  note mi = movable_items_ok [OF assms(5), of growth]
  have moved: "released_clusters ?its = ?moved"
    unfolding released_clusters_def mi(3) [symmetric] by simp
  define released where "released = foldl (\<lambda>l i. set_stream_free (pi_stream i) l) layout ?its"
  have "\<forall>i \<in> set ?its. runs_bounded (pi_stream i)"
    using assms(6) unfolding mi(3) [symmetric] by simp
  then have rel: "bits_changed layout ?moved {} released"
    unfolding released_def moved [symmetric] by (rule release_changed [OF assms(4)])
  then have rok: "bits_ok released" "bits released = bits layout" by (simp_all add: bits_changed_def)
  note R = reserve_loop [OF rok(1) res [folded released_def]]
  then have planned: "bits_changed released {} (runs_set reserved) planned" and
    rends: "\<forall>r \<in> set reserved. fr_start r + fr_length r \<le> bits layout" and
    rfree: "\<forall>c \<in> runs_set reserved. \<not> ntfs_bitmap_bit released c"
    using rok(2) by (auto simp: reserved_ok_def)
  have pok: "bits_ok planned" "bits planned = bits layout" using planned rok(2) by (simp_all add: bits_changed_def)
  note F = free_runs_ok [OF free pok(1)]
  have mset: "mset items = mset ?its" and set: "set items = set ?its" by (simp_all add: items)
  have sp: "spans items = spans ?its" by (rule spans_mset [OF mset])
  have start: "fill_ok items [] \<lparr>ps_remaining = items, ps_total_span = foldl (\<lambda>n i. u64 (n + pi_span i)) 0 items,
       ps_placed = \<lparr>pv_items = [], pv_envelope_start = 0, pv_envelope_end = 0, pv_fixed_streams = n,
         pv_fixed_slack_clusters = 0\<rparr>, ps_have_start = False\<rparr>"
    using total_span_eq [of 0 items] mi(2) sp by (simp add: fill_ok_def places_def separate_def)
  have len: "length items \<le> 2147483648"
    unfolding items length_qsort_by movable_items_def length_map
    using assms(7) length_filter_le [of "\<lambda>s. ns_movable s \<and> ns_clusters s \<noteq> 0" "nc_items catalogue"] by linarith
  have filled: "fill_ok items runs st"
    by (rule fill_runs_ok [OF fill start assms(2,3) _ _ len F(1)]) (use mi(1,2) set sp F(3) in auto)
  then obtain its where its: "places its (pv_items vec)" "mset its = mset items" using rest vec by (auto simp: fill_ok_def)
  have sep: "separate (pv_items vec)" using filled by (simp add: fill_ok_def vec)
  then show "separate (pv_items vec)" .
  have spans_its: "\<forall>i \<in> set its. pi_span i = ns_clusters (pi_stream i) + reserve_of growth (pi_stream i)"
    using mi(1) mset_eq_setD [OF trans [OF its(2) mset]] by simp
  have mset_its: "mset (map pi_stream its) = mset (movable_streams catalogue)"
    unfolding mi(3) [symmetric] mset_map its(2) mset ..
  show ?items by (intro exI [of _ its] conjI mset_its its(1) spans_its)
  have inside: "extent p \<subseteq> {1..<clusters - 1} \<inter> {c. c < bits layout \<and> \<not> ntfs_bitmap_bit planned c}"
    if p: "p \<in> set (pv_items vec)" for p
  proof -
    obtain r where r: "r \<in> set runs" "extent p \<subseteq> run_set r" using filled p by (auto simp: fill_ok_def vec)
    from r(2) F(2) [OF r(1)] show ?thesis unfolding pok(2) by (rule subset_trans)
  qed
  have insideD: "c \<in> {1..<clusters - 1}" "c < bits layout" "\<not> ntfs_bitmap_bit planned c"
    if "p \<in> set (pv_items vec)" "c \<in> extent p" for p c
    using subsetD [OF inside [OF that(1)] that(2)] by auto
  have planned_bit: "ntfs_bitmap_bit planned c \<longleftrightarrow> c \<in> runs_set reserved \<or> ntfs_bitmap_bit layout c \<and> c \<notin> ?moved"
    if "c < bits layout" for c
    using planned rel that rok(2) by (auto simp: bits_changed_def)
  show ?free
  proof (intro ballI subsetI)
    fix p c assume pc: "p \<in> set (pv_items vec)" "c \<in> extent p"
    from insideD [OF pc] show "c \<in> {1..<clusters - 1} \<inter> {c. c < bits layout \<and> (\<not> ntfs_bitmap_bit layout c \<or> c \<in> ?moved)}"
      using planned_bit by blast
  qed
  have reserved_clear: "c \<notin> extent p" if "p \<in> set (pv_items vec)" "c \<in> runs_set reserved" for p c
  proof
    assume "c \<in> extent p"
    from insideD(2,3) [OF that(1) this] show False using planned_bit that(2) by blast
  qed
  have lim: "pm_start p + pm_clusters p + pm_reserve p \<le> UINT64_MAX" if p: "p \<in> set (pv_items vec)" for p
  proof (cases "pm_clusters p + pm_reserve p = 0")
    case True
    obtain i where i: "p = placement_of i (pm_start p)" "i \<in> set its"
      using its(1) p unfolding places_def by (fastforce simp: list_all2_conv_all_nth in_set_conv_nth)
    then have "pi_stream i \<in> set (movable_streams catalogue)"
      using its(2) mset mi(3) by (metis (no_types) image_eqI list.set_map set_mset_mset)
    then have "pm_clusters p \<noteq> 0" using i(1) unfolding movable_streams_def
      by (metis (mono_tags, lifting) NtfsPlacement.select_convs(4) mem_Collect_eq placement_of_def set_filter)
    then show ?thesis using True by simp
  next
    case False
    then have "pm_start p + pm_clusters p + pm_reserve p - 1 \<in> extent p" by (auto simp: extent_def)
    then have "pm_start p + pm_clusters p + pm_reserve p - 1 < bits layout" by (rule insideD(2) [OF p])
    moreover have "bits layout \<le> UINT64_MAX" using assms(4) by (simp add: bits_ok_def bits_def)
    ultimately show ?thesis by linarith
  qed
  define marked where "marked = foldl mark_placement planned (pv_items vec)"
  have mk: "bits_changed planned (\<Union>p \<in> set (pv_items vec). extent p) (\<Union>p \<in> set (pv_items vec). data_clusters p) marked"
    unfolding marked_def using mark_changed [OF pok(1) sep] lim by blast
  then have mok: "bits_ok marked" "bits marked = bits layout" using pok(2) by (simp_all add: bits_changed_def)
  have "bits layout \<le> 18446744073709551616" using assms(4) by (simp add: bits_ok_def bits_def)
  then have fin: "bits_changed marked (runs_set reserved) {} final"
    unfolding final marked_def [symmetric] using rends by (intro release_runs_changed [OF mok(1)]) auto
  have data_in: "data_clusters p \<subseteq> extent p" for p by (auto simp: data_clusters_def extent_def)
  have bit: "ntfs_bitmap_bit final c \<longleftrightarrow> (\<exists>p \<in> set (pv_items vec). c \<in> data_clusters p) \<or>
      ntfs_bitmap_bit layout c \<and> c \<notin> ?moved" if c: "c < bits layout" for c
  proof -
    have "ntfs_bitmap_bit final c \<longleftrightarrow> ntfs_bitmap_bit marked c \<and> c \<notin> runs_set reserved"
      using fin c mok(2) by (auto simp: bits_changed_def)
    moreover have "ntfs_bitmap_bit marked c \<longleftrightarrow> (\<exists>p \<in> set (pv_items vec). c \<in> data_clusters p) \<or>
        ntfs_bitmap_bit planned c \<and> (\<forall>p \<in> set (pv_items vec). c \<notin> extent p)"
      using mk c pok(2) by (auto simp: bits_changed_def)
    moreover have "c \<notin> extent p" if "p \<in> set (pv_items vec)" "ntfs_bitmap_bit planned c" for p
      using insideD(3) that by blast
    moreover have "\<not> (ntfs_bitmap_bit layout c \<and> c \<notin> ?moved)" if "c \<in> runs_set reserved"
      using rfree that rel c rok(2) by (auto simp: bits_changed_def)
    ultimately show ?thesis using planned_bit [OF c] reserved_clear data_in by blast
  qed
  then show ?bits by blast
  show ?kept
  proof (intro ballI impI)
    fix s assume s: "s \<in> set (nc_items catalogue)" and k: "growth \<and> keeps_growth s \<and> primary_data s"
    have reg: "reserve_region s \<subseteq> runs_set reserved" using R s k by auto
    have "runs_set reserved \<subseteq> {..<bits layout}" using rends by (fastforce simp: runs_set_def free_run_clusters_def)
    then have "\<not> ntfs_bitmap_bit final c" if "c \<in> reserve_region s" for c
      using fin mok(2) reg that by (auto simp: bits_changed_def)
    then show "(\<forall>p \<in> set (pv_items vec). extent p \<inter> reserve_region s = {}) \<and> (\<forall>c \<in> reserve_region s. \<not> ntfs_bitmap_bit final c)"
      using reg reserved_clear by blast
  qed
qed

end
