(* ===== verification/NtfsPlanProps.thy ===== *)
theory NtfsPlanProps
  imports NtfsPlanSafe RefEnv
begin

text \<open>
  Properties of the NTFS planner.
\<close>

text \<open>C13. A plan is safe and complete. Its placements are exactly the movable streams, each with its
  clusters and, for a growth layout, a tenth of them rounded up as reserve. The extents of all
  placements are disjoint, lie strictly between the first and the last cluster, and take only
  clusters that were free or belonged to a movable stream. In the final bitmap a cluster is
  used exactly when it holds data of a placement, or was used before by something that does
  not move; the reserves of streams that stay are kept free and out of every placement.\<close>

theorem ntfs_plan_safe:
  assumes "ntfs_plan_layout E layout catalogue clusters growth = Inr (final, vec)" "checked_ok E" "checked64_ok E"
    and "bits_ok layout" "sizes_ok (movable_streams catalogue)" "\<forall>s \<in> set (movable_streams catalogue). runs_bounded s"
    and "length (nc_items catalogue) \<le> 2147483648"
  shows "mset (map (\<lambda>p. (pm_record_number p, pm_attribute_offset p, pm_clusters p, pm_reserve p)) (pv_items vec)) =
      mset (map (\<lambda>s. (ns_record_number s, ns_attribute_offset s, ns_clusters s, reserve_of growth s)) (movable_streams catalogue)) \<and>
    sorted_wrt (\<lambda>p q. extent p \<inter> extent q = {}) (pv_items vec) \<and>
    (\<forall>p \<in> set (pv_items vec). extent p \<subseteq> {1..<clusters - 1} \<inter>
      {c. c < bits layout \<and> (\<not> ntfs_bitmap_bit layout c \<or> c \<in> \<Union> (stream_clusters ` set (movable_streams catalogue)))}) \<and>
    (\<forall>c < bits layout. ntfs_bitmap_bit final c \<longleftrightarrow> (\<exists>p \<in> set (pv_items vec). c \<in> data_clusters p) \<or>
      ntfs_bitmap_bit layout c \<and> c \<notin> \<Union> (stream_clusters ` set (movable_streams catalogue))) \<and>
    (\<forall>s \<in> set (nc_items catalogue). growth \<and> keeps_growth s \<and> primary_data s \<longrightarrow>
      (\<forall>p \<in> set (pv_items vec). extent p \<inter> reserve_region s = {}) \<and> (\<forall>c \<in> reserve_region s. \<not> ntfs_bitmap_bit final c))"
proof -
  note P = plan_layout_ok [OF assms]
  obtain its where its: "mset (map pi_stream its) = mset (movable_streams catalogue)" "places its (pv_items vec)"
    "\<forall>i \<in> set its. pi_span i = ns_clusters (pi_stream i) + reserve_of growth (pi_stream i)"
    using P(1) by blast
  let ?f = "\<lambda>p. (pm_record_number p, pm_attribute_offset p, pm_clusters p, pm_reserve p)"
  let ?g = "\<lambda>s. (ns_record_number s, ns_attribute_offset s, ns_clusters s, reserve_of growth s)"
  have "mset (map ?f (pv_items vec)) = image_mset ?g (mset (map pi_stream its))"
    unfolding placed_fields [OF its(2,3)] mset_map [of ?g] ..
  then have key: "mset (map ?f (pv_items vec)) = mset (map ?g (movable_streams catalogue))"
    unfolding its(1) mset_map [of ?g] .
  show ?thesis by (intro conjI key P(2) [unfolded separate_def] P(3-5))
qed

text \<open>Eight clusters; one stream on clusters 4 and 6, one on cluster 2.\<close>

definition demo_plan_stream :: "nat \<Rightarrow> nat \<Rightarrow> NtfsRun list \<Rightarrow> NtfsStream" where
  "demo_plan_stream n clusters runs =
     \<lparr>ns_record_number = n, ns_base_record = 0, ns_attribute_offset = 56, ns_attribute_type = 128, ns_attribute_flags = 0,
      ns_directory = False, ns_movable = True, ns_lowest_vcn = 0, ns_clusters = clusters, ns_data_size = 8,
      ns_mapping_capacity = 16, ns_file_name = ''a'', ns_attribute_name = [], ns_runs = runs\<rparr>"

definition demo_plan_streams :: "NtfsStream list" where
  "demo_plan_streams =
     [demo_plan_stream 31 2 [\<lparr>nr_lcn = 6, nr_length = 1, nr_sparse = False\<rparr>, \<lparr>nr_lcn = 4, nr_length = 1, nr_sparse = False\<rparr>],
      demo_plan_stream 30 1 [\<lparr>nr_lcn = 2, nr_length = 1, nr_sparse = False\<rparr>]]"

definition demo_plan_catalogue :: NtfsCatalogue where
  "demo_plan_catalogue = empty_catalogue\<lparr>nc_items := demo_plan_streams\<rparr>"

definition demo_plan_layout :: NtfsLayout where
  "demo_plan_layout = \<lparr>nl_mft_runs = [], nl_mft_data_size = 0, nl_bitmap_runs = [], nl_bitmap_data_size = 1,
     nl_bitmap = [0xD5]\<rparr>"

lemma demo_classified: "foldE (classify_stream demo_plan_streams) demo_plan_streams (0, 0) = Inr (2, 0)"
  by (simp add: demo_plan_streams_def demo_plan_stream_def classify_stream_def)

lemma demo_items: "movable_items demo_plan_streams False = map (\<lambda>s. \<lparr>pi_stream = s, pi_span = ns_clusters s\<rparr>) demo_plan_streams"
  by (simp add: demo_plan_streams_def demo_plan_stream_def movable_items_def stream_span_def u64_def)

lemma demo_released:
  "foldl (\<lambda>l i. set_stream_free (pi_stream i) l) demo_plan_layout (movable_items demo_plan_streams False) =
     demo_plan_layout\<lparr>nl_bitmap := [0x81]\<rparr>"
  unfolding demo_items
  by (simp add: demo_plan_streams_def demo_plan_stream_def demo_plan_layout_def set_stream_free_def set_clusters_def
    ntfs_bitmap_set_def bitmap_set_def byte_index u64_def Let_def)

lemma demo_bit: "ntfs_bitmap_bit (demo_plan_layout\<lparr>nl_bitmap := [0x81]\<rparr>) c \<longleftrightarrow> c \<notin> {1..<7}"
proof (cases "c < 8")
  case True
  then have "c \<in> {0, 1, 2, 3, 4, 5, 6, 7}" by auto
  then show ?thesis by (auto simp: demo_plan_layout_def ntfs_bitmap_bit_def bitmap_bit_def u64_def)
qed (auto simp: demo_plan_layout_def ntfs_bitmap_bit_def bitmap_bit_def u64_def)

lemma ref_reserve [simp]: "array_reserve ref_env item_size n"
  by (simp add: ref_env_def)

lemma demo_free:
  "collect_free ref_env (demo_plan_layout\<lparr>nl_bitmap := [0x81]\<rparr>) 8 = Inr [\<lparr>fr_start = 1, fr_length = 6\<rparr>]"
proof -
  have "[Suc 0..<7] = [1, 2, 3, 4, 5, 6]" by (simp add: upt_rec)
  then show ?thesis by (simp add: collect_free_def collect_step_def demo_bit free_push_def)
qed

lemma demo_sorted:
  "qsort_by cmp_plan_item (movable_items demo_plan_streams False) = rev (movable_items demo_plan_streams False)"
  unfolding demo_items
  by (simp add: demo_plan_streams_def demo_plan_stream_def qsort_by_def cmp_plan_item_def strcasecmp_def Let_def)

lemma demo_filled:
  "\<exists>st. fill_run ref_env \<lparr>fr_start = 1, fr_length = 6\<rparr>
     \<lparr>ps_remaining = rev (movable_items demo_plan_streams False),
      ps_total_span = foldl (\<lambda>n i. u64 (n + pi_span i)) 0 (rev (movable_items demo_plan_streams False)),
      ps_placed = \<lparr>pv_items = [], pv_envelope_start = 0, pv_envelope_end = 0, pv_fixed_streams = 0,
        pv_fixed_slack_clusters = 0\<rparr>, ps_have_start = False\<rparr> = Inr st \<and> ps_remaining st = []"
  unfolding demo_items
  by (simp add: demo_plan_streams_def demo_plan_stream_def fill_run_def u64_def place_items_def placement_push_def)

lemma demo_ntfs_plan:
  "\<exists>final vec. ntfs_plan_layout ref_env demo_plan_layout demo_plan_catalogue 8 False = Inr (final, vec)"
  using demo_filled
  by (auto simp: Let_def ntfs_plan_layout_def demo_plan_catalogue_def empty_catalogue_def demo_classified demo_released demo_free
    demo_sorted)

theorem ntfs_plan_safe_witness:
  "\<exists>final vec. ntfs_plan_layout ref_env demo_plan_layout demo_plan_catalogue 8 False = Inr (final, vec) \<and>
     length (pv_items vec) = 2 \<and> sorted_wrt (\<lambda>p q. extent p \<inter> extent q = {}) (pv_items vec)"
proof -
  obtain final vec where plan: "ntfs_plan_layout ref_env demo_plan_layout demo_plan_catalogue 8 False = Inr (final, vec)"
    using demo_ntfs_plan by blast
  have movable: "movable_streams demo_plan_catalogue = nc_items demo_plan_catalogue"
    by (simp add: movable_streams_def demo_plan_catalogue_def demo_plan_streams_def demo_plan_stream_def)
  have P: "mset (map (\<lambda>p. (pm_record_number p, pm_attribute_offset p, pm_clusters p, pm_reserve p)) (pv_items vec)) =
      mset (map (\<lambda>s. (ns_record_number s, ns_attribute_offset s, ns_clusters s, reserve_of False s)) (nc_items demo_plan_catalogue))"
    "sorted_wrt (\<lambda>p q. extent p \<inter> extent q = {}) (pv_items vec)"
    using ntfs_plan_safe [OF plan checked_ok_ref checked64_ok_ref] unfolding movable
    by (simp_all add: bits_ok_def demo_plan_layout_def sizes_ok_def runs_bounded_def demo_plan_catalogue_def demo_plan_streams_def demo_plan_stream_def)
  have "length (pv_items vec) = 2"
    using arg_cong [OF P(1), of size] by (simp add: demo_plan_catalogue_def demo_plan_streams_def)
  with plan P(2) show ?thesis by blast
qed

end
