(* ===== verification/NtfsStage.thy ===== *)
theory NtfsStage
  imports NtfsPlan
begin

text \<open>
  The second half of \<open>ntfs_plan.c\<close>: the plan database, the permutation of clusters in the
  working image, the terminal workspace, the commit of the metadata and the verification.
  The tables of the database are lists of rows; a statement means what its SQL text says.
  Whether SQLite carries out a step of a statement is a parameter, as is the digest of
  OpenSSL. A function that fails leaves the database as it was or throws it away, so only
  success returns one.
\<close>

section \<open>The plan database\<close>

record StreamRow =
  sr_record :: nat
  sr_attr :: nat
  sr_type :: nat
  sr_clusters :: nat
  sr_target :: nat
  sr_reserve :: nat
  sr_sha :: bytes

record FixedRow =
  fx_record :: nat
  fx_attr :: nat
  fx_clusters :: nat
  fx_start :: nat
  fx_reserve :: nat
  fx_sha :: bytes

record BlockRow =
  bk_old :: nat
  bk_target :: nat
  bk_placed :: bool

record WorkRow =
  wk_old :: nat
  wk_target :: nat
  wk_slot :: nat
  wk_sha :: "bytes option"

record PlanDb =
  pd_streams :: "StreamRow list"
  pd_fixed :: "FixedRow list"
  pd_blocks :: "BlockRow list"
  pd_workspace :: "WorkRow list"
  pd_bitmap :: "bytes option"

text \<open>\<open>sv_sql s n\<close>: step \<open>n\<close> of the statement \<open>s\<close> succeeds (preparing it is step 0).\<close>

record services =
  sv_sql :: "string \<Rightarrow> nat \<Rightarrow> bool"
  sv_sha256 :: "bytes \<Rightarrow> bytes option"

text \<open>The rows a query delivers before it ends, and whether it ends with \<open>SQLITE_DONE\<close>.\<close>

definition sql_rows :: "services \<Rightarrow> string \<Rightarrow> 'a list \<Rightarrow> 'a list \<times> bool" where
  "sql_rows Q s rows =
     (let n = length (takeWhile (\<lambda>i. sv_sql Q s (i + 1)) [0..<length rows + 1]) in
      (take n rows, n > length rows))"

definition sql_error :: "string \<Rightarrow> fault" where
  "sql_error action = Fail action"

section \<open>Digests\<close>

definition read_cluster :: "env \<Rightarrow> nat \<Rightarrow> string \<Rightarrow> bytes \<Rightarrow> nat \<Rightarrow> bytes res" where
  "read_cluster E cluster_size message d c =
     (case ld_pread_full E d cluster_size (u64 (c * cluster_size)) of
        None \<Rightarrow> Inl (Fail message)
      | Some bs \<Rightarrow> Inr bs)"

definition write_cluster :: "env \<Rightarrow> nat \<Rightarrow> string \<Rightarrow> bytes \<Rightarrow> nat \<Rightarrow> unit io" where
  "write_cluster E cluster_size message bs c =
     bindI (ld_pwrite_full E bs (u64 (c * cluster_size))) (\<lambda>ok. die_ifI (\<not> ok) (Fail message))"

definition ntfs_stream_digest :: "env \<Rightarrow> services \<Rightarrow> NtfsVolume \<Rightarrow> bytes \<Rightarrow> NtfsStream \<Rightarrow> bytes res" where
  "ntfs_stream_digest E Q v d s =
     bindE (foldE (\<lambda>r payload.
       if nr_sparse r then Inl (Fail ''sparse NTFS stream entered native writer'')
       else
         foldE (\<lambda>c payload.
           bindE (read_cluster E (nv_cluster_size v) ''reading NTFS payload for verification failed'' d
             (u64 (nr_lcn r + c))) (\<lambda>bs. Inr (payload @ bs))) [0..<nr_length r] payload) (ns_runs s) []) (\<lambda>payload.
     case sv_sha256 Q payload of
       None \<Rightarrow> Inl (Fail ''finalizing NTFS payload digest failed'')
     | Some digest \<Rightarrow> Inr digest)"

definition workspace_digest :: "services \<Rightarrow> bytes \<Rightarrow> bytes res" where
  "workspace_digest Q bs =
     (case sv_sha256 Q bs of
        None \<Rightarrow> Inl (Fail ''computing NTFS workspace cluster digest failed'')
      | Some digest \<Rightarrow> Inr digest)"

section \<open>Creating the plan\<close>

definition find_placement :: "NtfsPlacement list \<Rightarrow> nat \<Rightarrow> nat \<Rightarrow> NtfsPlacement option" where
  "find_placement placements n attr =
     find (\<lambda>p. pm_record_number p = n \<and> pm_attribute_offset p = attr) placements"

text \<open>An insertion fails when a column declared unique already has the value, or when its step does.\<close>

definition insert_block :: "services \<Rightarrow> nat \<Rightarrow> nat \<Rightarrow> BlockRow list \<Rightarrow> BlockRow list res" where
  "insert_block Q old target blocks =
     (if old \<in> set (map bk_old blocks) \<or> target \<in> set (map bk_target blocks) \<or>
         \<not> sv_sql Q ''insert block'' (length blocks + 1)
      then Inl (sql_error ''recording NTFS cluster permutation'')
      else Inr (blocks @ [\<lparr>bk_old = old, bk_target = target, bk_placed = False\<rparr>]))"

definition insert_run :: "services \<Rightarrow> NtfsRun \<Rightarrow> nat \<times> BlockRow list \<Rightarrow> (nat \<times> BlockRow list) res" where
  "insert_run Q r = foldE (\<lambda>c (target, blocks).
     bindE (insert_block Q (u64 (nr_lcn r + c)) target blocks) (\<lambda>blocks. Inr (u64 (target + 1), blocks))) [0..<nr_length r]"

definition plan_stream ::
  "env \<Rightarrow> services \<Rightarrow> NtfsVolume \<Rightarrow> bytes \<Rightarrow> NtfsPlacement list \<Rightarrow> NtfsStream \<Rightarrow> PlanDb \<Rightarrow> PlanDb res" where
  "plan_stream E Q v d placements s db =
     (if \<not> ns_movable s \<or> ns_clusters s = 0 then Inr db
      else
        case find_placement placements (ns_record_number s) (ns_attribute_offset s) of
          None \<Rightarrow> Inl (Fail ''NTFS planner omitted a movable stream'')
        | Some p \<Rightarrow>
            bindE (ntfs_stream_digest E Q v d s) (\<lambda>digest.
            if list_ex (\<lambda>r. sr_record r = ns_record_number s \<and> sr_attr r = ns_attribute_offset s) (pd_streams db) \<or>
              \<not> sv_sql Q ''insert stream'' (length (pd_streams db) + 1)
            then Inl (sql_error ''recording NTFS stream plan'')
            else
              bindE (foldE (insert_run Q) (ns_runs s) (pm_start p, pd_blocks db)) (\<lambda>(target, blocks).
              if target \<noteq> u64 (pm_start p + pm_clusters p)
              then Inl (Fail ''NTFS stream cluster count changed during planning'')
              else Inr (db\<lparr>pd_streams := pd_streams db @
                  [\<lparr>sr_record = ns_record_number s, sr_attr = ns_attribute_offset s, sr_type = ns_attribute_type s,
                    sr_clusters = ns_clusters s, sr_target = pm_start p, sr_reserve = pm_reserve p, sr_sha = digest\<rparr>],
                  pd_blocks := blocks\<rparr>))))"

definition plan_fixed ::
  "env \<Rightarrow> services \<Rightarrow> NtfsVolume \<Rightarrow> bytes \<Rightarrow> bool \<Rightarrow> NtfsStream \<Rightarrow> PlanDb \<Rightarrow> PlanDb res" where
  "plan_fixed E Q v d growth s db =
     (if ns_movable s \<or> ns_record_number s < NTFS_FIRST_USER_RECORD \<or> ns_clusters s = 0 \<or> ns_directory s \<or>
         \<not> primary_object_stream s
      then Inr db
      else if length (ns_runs s) \<noteq> 1 \<or> nr_sparse (ns_runs s ! 0)
      then Inl (Fail (''NTFS fixed primary stream in '' @ of_record s @ '' changed shape before plan persistence''))
      else
        bindE (ntfs_stream_digest E Q v d s) (\<lambda>digest.
        if list_ex (\<lambda>r. fx_record r = ns_record_number s \<and> fx_attr r = ns_attribute_offset s) (pd_fixed db) \<or>
          \<not> sv_sql Q ''insert fixed'' (length (pd_fixed db) + 1)
        then Inl (sql_error ''recording NTFS fixed primary stream'')
        else Inr (db\<lparr>pd_fixed := pd_fixed db @
            [\<lparr>fx_record = ns_record_number s, fx_attr = ns_attribute_offset s, fx_clusters = ns_clusters s,
              fx_start = nr_lcn (ns_runs s ! 0),
              fx_reserve = (if growth then growth_reserve (ns_clusters s) else 0), fx_sha = digest\<rparr>]\<rparr>)))"

definition empty_db :: PlanDb where
  "empty_db = \<lparr>pd_streams = [], pd_fixed = [], pd_blocks = [], pd_workspace = [], pd_bitmap = None\<rparr>"

text \<open>Step 0 stands for opening the database and preparing the statements, step 1 for the commit.\<close>

definition ntfs_create_plan_db ::
  "env \<Rightarrow> services \<Rightarrow> NtfsVolume \<Rightarrow> bytes \<Rightarrow> NtfsLayout \<Rightarrow> NtfsCatalogue \<Rightarrow> NtfsPlacement list \<Rightarrow> bool \<Rightarrow> PlanDb res" where
  "ntfs_create_plan_db E Q v d layout catalogue placements growth =
     (if \<not> sv_sql Q ''create plan'' 0 then Inl (sql_error ''opening NTFS plan database'')
      else
        bindE (foldE (plan_stream E Q v d placements) (nc_items catalogue) empty_db) (\<lambda>db.
        bindE (foldE (plan_fixed E Q v d growth) (nc_items catalogue) db) (\<lambda>db.
        if length (nl_bitmap layout) > 2147483647
        then Inl (Fail ''NTFS final bitmap is too large for SQLite blob storage'')
        else if \<not> sv_sql Q ''insert bitmap'' 1 then Inl (sql_error ''recording NTFS final bitmap'')
        else if \<not> sv_sql Q ''create plan'' 1 then Inl (sql_error ''NTFS plan database'')
        else Inr (db\<lparr>pd_bitmap := Some (nl_bitmap layout)\<rparr>))))"

definition ntfs_plan_move_count :: "PlanDb \<Rightarrow> nat" where
  "ntfs_plan_move_count db = length (filter (\<lambda>b. bk_old b \<noteq> bk_target b) (pd_blocks db))"

section \<open>The permutation of the working image\<close>

text \<open>Targets that hold no cluster of the plan, in ascending order.\<close>

definition terminal_targets :: "BlockRow list \<Rightarrow> nat list" where
  "terminal_targets blocks =
     sort_key int64 (map bk_target (filter (\<lambda>b. bk_old b \<noteq> bk_target b \<and> bk_target b \<notin> set (map bk_old blocks)) blocks))"

definition predecessor :: "BlockRow list \<Rightarrow> nat \<Rightarrow> nat option" where
  "predecessor blocks target =
     map_option bk_old (find (\<lambda>b. bk_target b = target \<and> bk_old b \<noteq> bk_target b \<and> \<not> bk_placed b) blocks)"

definition mark_placed :: "nat \<Rightarrow> BlockRow list \<Rightarrow> BlockRow list" where
  "mark_placed old blocks = map (\<lambda>b. if bk_old b = old then b\<lparr>bk_placed := True\<rparr> else b) blocks"

definition unplaced :: "BlockRow list \<Rightarrow> nat option" where
  "unplaced blocks = map_option bk_old (find (\<lambda>b. bk_old b \<noteq> bk_target b \<and> \<not> bk_placed b) blocks)"

definition waiting :: "BlockRow list \<Rightarrow> nat" where
  "waiting blocks = length (filter (\<lambda>b. \<not> bk_placed b) blocks)"

lemma waiting_mark:
  assumes "predecessor blocks target = Some old"
  shows "waiting (mark_placed old blocks) < waiting blocks"
proof -
  obtain b where b: "b \<in> set blocks" "bk_old b = old" "\<not> bk_placed b"
    using assms unfolding predecessor_def map_option_eq_Some find_Some_iff by (metis nth_mem)
  then show ?thesis
  proof (induction blocks)
    case (Cons a blocks)
    have "waiting (mark_placed old bs) \<le> waiting bs" for bs
      by (induction bs) (auto simp: waiting_def mark_placed_def)
    note le = this [of blocks]
    show ?case
    proof (cases "b = a")
      case True
      then show ?thesis using Cons.prems le by (auto simp: waiting_def mark_placed_def)
    next
      case False
      then show ?thesis using Cons by (auto simp: waiting_def mark_placed_def)
    qed
  qed simp
qed

definition copy_cluster :: "env \<Rightarrow> nat \<Rightarrow> nat \<Rightarrow> nat \<Rightarrow> unit io" where
  "copy_cluster E cluster_size source target =
     bindI (readI (\<lambda>d. read_cluster E cluster_size ''short NTFS source-cluster read'' d source)) (\<lambda>bs.
     write_cluster E cluster_size ''short NTFS target-cluster write'' bs target)"

text \<open>The blocks and the number placed. A stop request is looked for after every 8192 clusters.\<close>

function permute_chain ::
  "env \<Rightarrow> services \<Rightarrow> nat \<Rightarrow> nat \<Rightarrow> BlockRow list \<Rightarrow> nat \<Rightarrow> (BlockRow list \<times> nat) io" where
  "permute_chain E Q cluster_size free_cluster blocks placed =
     (if \<not> sv_sql Q ''predecessor'' (placed + 1) then dieI (sql_error ''reading NTFS cluster predecessor'')
      else
        case predecessor blocks free_cluster of
          None \<Rightarrow> retI (blocks, placed)
        | Some old \<Rightarrow>
            thenI (copy_cluster E cluster_size old free_cluster)
           (if \<not> sv_sql Q ''mark'' (placed + 1) then dieI (sql_error ''marking NTFS cluster placement'')
            else
              bindI (if (placed + 1) mod 8192 = 0 then ld_stop_requested else retI False) (\<lambda>stop.
              if stop then dieI (Fail ''stop requested before NTFS source commit'')
              else permute_chain E Q cluster_size old (mark_placed old blocks) (placed + 1))))"
  by pat_completeness auto
termination
  by (relation "measure (\<lambda>(E, Q, cluster_size, free_cluster, blocks, placed). waiting blocks)") (auto intro: waiting_mark)

declare permute_chain.simps [simp del]

function permute_cycle ::
  "env \<Rightarrow> services \<Rightarrow> nat \<Rightarrow> nat \<Rightarrow> bytes \<Rightarrow> nat \<Rightarrow> BlockRow list \<Rightarrow> nat \<Rightarrow> (BlockRow list \<times> nat) io" where
  "permute_cycle E Q cluster_size start saved free_cluster blocks placed =
     (if \<not> sv_sql Q ''predecessor'' (placed + 1) then dieI (Fail ''broken NTFS relocation cycle'')
      else
        case predecessor blocks free_cluster of
          None \<Rightarrow> dieI (Fail ''broken NTFS relocation cycle'')
        | Some old \<Rightarrow>
            if old = start then
              thenI (write_cluster E cluster_size ''short NTFS cycle close write'' saved free_cluster)
             (if \<not> sv_sql Q ''mark'' (placed + 1) then dieI (sql_error ''marking NTFS cycle completion'')
              else retI (mark_placed start blocks, placed + 1))
            else
              thenI (copy_cluster E cluster_size old free_cluster)
             (if \<not> sv_sql Q ''mark'' (placed + 1) then dieI (sql_error ''marking NTFS cycle placement'')
              else permute_cycle E Q cluster_size start saved old (mark_placed old blocks) (placed + 1)))"
  by pat_completeness auto
termination
  by (relation "measure (\<lambda>(E, Q, cluster_size, start, saved, free_cluster, blocks, placed). waiting blocks)")
    (auto intro: waiting_mark)

declare permute_cycle.simps [simp del]

text \<open>
  One cycle after the other, as long as a row is not placed. Every cycle places a row, so as
  many rounds as there are rows are enough.
\<close>

fun permute_cycles ::
  "env \<Rightarrow> services \<Rightarrow> nat \<Rightarrow> nat \<Rightarrow> BlockRow list \<Rightarrow> nat \<Rightarrow> (BlockRow list \<times> nat) io" where
  "permute_cycles E Q cluster_size 0 blocks placed = dieI (MemFault ''endless cycles'')"
| "permute_cycles E Q cluster_size (Suc rounds) blocks placed =
     (if \<not> sv_sql Q ''unplaced'' (placed + 1) then dieI (sql_error ''reading NTFS relocation cycle'')
      else
        case unplaced blocks of
          None \<Rightarrow> retI (blocks, placed)
        | Some start \<Rightarrow>
            bindI (readI (\<lambda>d. read_cluster E cluster_size ''short NTFS cycle read'' d start)) (\<lambda>saved.
            bindI (permute_cycle E Q cluster_size start saved start blocks placed) (\<lambda>(blocks, placed).
            permute_cycles E Q cluster_size rounds blocks placed)))"

text \<open>\<open>opened\<close>: the working image could be opened.\<close>

definition ntfs_permute_stage :: "env \<Rightarrow> services \<Rightarrow> bool \<Rightarrow> nat \<Rightarrow> nat \<Rightarrow> PlanDb \<Rightarrow> PlanDb io" where
  "ntfs_permute_stage E Q opened cluster_size move_count db =
     (if \<not> opened then dieI (Fail ''cannot open NTFS stage for relocation'')
      else if \<not> sv_sql Q ''permute'' 0 then dieI (sql_error ''preparing NTFS cluster permutation'')
      else
        case sql_rows Q ''terminal'' (terminal_targets (pd_blocks db)) of
          (targets, ended) \<Rightarrow>
            bindI (foldI (\<lambda>target (blocks, placed). permute_chain E Q cluster_size target blocks placed)
              targets (pd_blocks db, 0)) (\<lambda>(blocks, placed).
            if \<not> ended then dieI (sql_error ''reading NTFS terminal clusters'')
            else
              bindI (permute_cycles E Q cluster_size (length blocks + 1) blocks placed) (\<lambda>(blocks, placed).
              if placed \<noteq> move_count then dieI (Fail ''NTFS cluster permutation did not complete durably'')
              else
                thenI (sync_or E ''NTFS cluster permutation did not complete durably'')
               (retI (db\<lparr>pd_blocks := blocks\<rparr>)))))"

section \<open>The terminal workspace\<close>

definition ntfs_prepare_workspace_map :: "services \<Rightarrow> nat \<Rightarrow> nat \<Rightarrow> PlanDb \<Rightarrow> PlanDb res" where
  "ntfs_prepare_workspace_map Q workspace_start workspace_clusters db =
     (if workspace_clusters = 0 \<or> workspace_start > UINT64_MAX - workspace_clusters
      then Inl (Fail ''NTFS terminal workspace geometry is invalid'')
      else if \<not> sv_sql Q ''workspace map'' 0 then Inl (sql_error ''NTFS plan database'')
      else
        case sql_rows Q ''moves''
            (sort_key (\<lambda>b. int64 (bk_old b)) (filter (\<lambda>b. bk_old b \<noteq> bk_target b) (pd_blocks db))) of
          (rows, ended) \<Rightarrow>
            if length rows > workspace_clusters
            then Inl (Fail ''NTFS terminal workspace is smaller than the relocation set'')
            else if length rows \<noteq> workspace_clusters
            then Inl (Fail (''NTFS terminal workspace map contains '' @ dec (length rows) @ '' clusters; expected '' @ dec workspace_clusters))
            else if \<not> sv_sql Q ''workspace map'' 1 then Inl (sql_error ''NTFS plan database'')
            else Inr (db\<lparr>pd_workspace := map (\<lambda>(i, b).
                \<lparr>wk_old = bk_old b, wk_target = bk_target b, wk_slot = workspace_start + i, wk_sha = None\<rparr>)
                (enumerate 0 rows)\<rparr>))"

text \<open>What the two opens of the target answer, and whether the lock was granted.\<close>

record Access =
  ac_open :: OpenAnswers
  ac_locked :: bool

definition open_target :: "Access \<Rightarrow> bool \<Rightarrow> string option \<Rightarrow> nat \<Rightarrow> string \<Rightarrow> unit res" where
  "open_target a writable target_identity physical_bytes message =
     bindE (ld_device_open_verified_fd (ac_open a) writable target_identity physical_bytes) (\<lambda>r.
     case r of Inl e \<Rightarrow> Inl (Fail message) | Inr device \<Rightarrow> Inr ())"

definition record_sha :: "nat \<Rightarrow> bytes \<Rightarrow> WorkRow list \<Rightarrow> WorkRow list" where
  "record_sha old digest rows = map (\<lambda>r. if wk_old r = old then r\<lparr>wk_sha := Some digest\<rparr> else r) rows"

text \<open>\<open>None\<close> is the \<open>-2\<close> of a stop; the digests of a stopped staging are rolled back.\<close>

fun copy_rows ::
  "env \<Rightarrow> services \<Rightarrow> nat \<Rightarrow> bool \<Rightarrow> bool \<Rightarrow> (nat \<times> nat) list \<Rightarrow> WorkRow list \<Rightarrow> WorkRow list option io" where
  "copy_rows E Q cluster_size stop_aware record_digest [] work = retI (Some work)"
| "copy_rows E Q cluster_size stop_aware record_digest ((source, target) # rows) work =
     bindI (if stop_aware then ld_stop_requested else retI False) (\<lambda>stop.
     if stop then retI None
     else
       bindI (readI (\<lambda>d. read_cluster E cluster_size ''short read during NTFS terminal-workspace relocation'' d source)) (\<lambda>bs.
       bindI (if record_digest then
                (case workspace_digest Q bs of
                   Inl e \<Rightarrow> dieI e
                 | Inr digest \<Rightarrow>
                     if \<not> sv_sql Q ''digest'' (source + 1) then dieI (sql_error ''recording NTFS workspace cluster digest'')
                     else retI (record_sha source digest work))
              else retI work) (\<lambda>work.
       thenI (write_cluster E cluster_size ''short write during NTFS terminal-workspace relocation'' bs target)
         (copy_rows E Q cluster_size stop_aware record_digest rows work))))"

text \<open>The loop over the rows stops as quietly on a failing step as at the end.\<close>

definition workspace_copy_rows ::
  "env \<Rightarrow> services \<Rightarrow> Access \<Rightarrow> nat \<Rightarrow> string option \<Rightarrow> nat \<Rightarrow> string \<Rightarrow> (WorkRow \<Rightarrow> nat \<times> nat) \<Rightarrow> bool \<Rightarrow> bool \<Rightarrow> PlanDb \<Rightarrow>
   PlanDb option io" where
  "workspace_copy_rows E Q a cluster_size target_identity physical_bytes query columns stop_aware record_digest db =
     (case open_target a True target_identity physical_bytes ''cannot open NTFS source for terminal-workspace I/O'' of
        Inl e \<Rightarrow> dieI e
      | Inr _ \<Rightarrow>
          if \<not> ac_locked a then dieI (Fail ''cannot lock NTFS source for terminal-workspace I/O'')
          else if \<not> sv_sql Q query 0 then dieI (sql_error ''reading NTFS terminal workspace map'')
          else if record_digest \<and> \<not> sv_sql Q ''digest'' 0
          then dieI (sql_error ''preparing NTFS workspace digest update'')
          else
            let rows = fst (sql_rows Q query (map columns (sort_key (\<lambda>r. int64 (wk_old r)) (pd_workspace db)))) in
            bindI (copy_rows E Q cluster_size stop_aware record_digest rows (pd_workspace db)) (\<lambda>copied.
            case copied of
              None \<Rightarrow> retI None
            | Some work \<Rightarrow>
                thenI (sync_or E ''syncing NTFS terminal-workspace relocation failed'')
               (if record_digest \<and> \<not> sv_sql Q ''commit digests'' 0 then dieI (sql_error ''NTFS plan database'')
                else retI (Some (db\<lparr>pd_workspace := work\<rparr>)))))"

definition ntfs_stage_workspace ::
  "env \<Rightarrow> services \<Rightarrow> Access \<Rightarrow> nat \<Rightarrow> string option \<Rightarrow> nat \<Rightarrow> PlanDb \<Rightarrow> PlanDb option io" where
  "ntfs_stage_workspace E Q a cluster_size target_identity physical_bytes =
     workspace_copy_rows E Q a cluster_size target_identity physical_bytes ''SELECT old,slot''
       (\<lambda>r. (wk_old r, wk_slot r)) True True"

definition ntfs_place_workspace ::
  "env \<Rightarrow> services \<Rightarrow> Access \<Rightarrow> nat \<Rightarrow> string option \<Rightarrow> nat \<Rightarrow> bool \<Rightarrow> PlanDb \<Rightarrow> PlanDb option io" where
  "ntfs_place_workspace E Q a cluster_size target_identity physical_bytes stop_aware =
     workspace_copy_rows E Q a cluster_size target_identity physical_bytes ''SELECT slot,target''
       (\<lambda>r. (wk_slot r, wk_target r)) stop_aware False"

definition ntfs_restore_workspace ::
  "env \<Rightarrow> services \<Rightarrow> Access \<Rightarrow> nat \<Rightarrow> string option \<Rightarrow> nat \<Rightarrow> PlanDb \<Rightarrow> PlanDb option io" where
  "ntfs_restore_workspace E Q a cluster_size target_identity physical_bytes =
     workspace_copy_rows E Q a cluster_size target_identity physical_bytes ''SELECT slot,old''
       (\<lambda>r. (wk_slot r, wk_old r)) False False"

definition verify_slot :: "env \<Rightarrow> services \<Rightarrow> nat \<Rightarrow> bytes \<Rightarrow> WorkRow \<Rightarrow> unit res" where
  "verify_slot E Q cluster_size d r =
     (case wk_sha r of
        None \<Rightarrow> Inl (Fail ''NTFS terminal workspace is not fully checksummed'')
      | Some expected \<Rightarrow>
          if length expected \<noteq> 32 then Inl (Fail ''NTFS terminal workspace is not fully checksummed'')
          else
            bindE (read_cluster E cluster_size ''short read while verifying NTFS terminal workspace'' d (wk_slot r)) (\<lambda>bs.
            bindE (workspace_digest Q bs) (\<lambda>actual.
            if actual \<noteq> expected
            then Inl (Fail (''NTFS terminal workspace checksum mismatch at cluster '' @ dec (wk_slot r)))
            else Inr ())))"

definition ntfs_verify_workspace ::
  "env \<Rightarrow> services \<Rightarrow> Access \<Rightarrow> nat \<Rightarrow> string option \<Rightarrow> nat \<Rightarrow> bytes \<Rightarrow> PlanDb \<Rightarrow> unit res" where
  "ntfs_verify_workspace E Q a cluster_size target_identity physical_bytes d db =
     bindE (open_target a False target_identity physical_bytes ''cannot open NTFS source to verify terminal workspace'') (\<lambda>_.
     if \<not> sv_sql Q ''SELECT slot,sha'' 0 then Inl (sql_error ''reading NTFS workspace verification map'')
     else
       let rows = fst (sql_rows Q ''SELECT slot,sha'' (sort_key (\<lambda>r. int64 (wk_old r)) (pd_workspace db))) in
       bindE (foldE (\<lambda>r _. verify_slot E Q cluster_size d r) rows ()) (\<lambda>_.
       if rows = [] then Inl (Fail ''NTFS terminal workspace verification found no staged clusters'') else Inr ()))"


section \<open>The commit of the metadata\<close>

text \<open>
  The record of a stream with the canonical run in its mapping pairs, ready for the disk. The
  area of the mapping pairs is cleared first.
\<close>

definition canonical_record :: "env \<Rightarrow> NtfsVolume \<Rightarrow> StreamRow \<Rightarrow> bytes \<Rightarrow> bytes res" where
  "canonical_record E v row fixed =
     bindE (ntfs_parse_attributes E fixed) (\<lambda>attributes.
     case find (\<lambda>a. na_offset a = sr_attr row) attributes of
       None \<Rightarrow> Inl (Fail ''NTFS planned attribute moved or changed before metadata commit'')
     | Some a \<Rightarrow>
         if \<not> na_nonresident a \<or> na_run_offset a \<ge> na_length a
         then Inl (Fail ''NTFS planned attribute moved or changed before metadata commit'')
         else
           let capacity = na_length a - na_run_offset a; start = na_offset a + na_run_offset a in
           bindE (ntfs_encode_single_run (sr_target row) (sr_clusters row) capacity) (\<lambda>pairs.
           let fixed = patch fixed start (pairs @ replicate (capacity - length pairs) 0) in
           bindE (ntfs_put_u64 E fixed (na_offset a + 24) (sub64 (u64 (na_lowest_vcn a + sr_clusters row)) 1)) (\<lambda>fixed.
           bindE (ntfs_put_u64 E fixed (na_offset a + 40) (u64 (sr_clusters row * nv_cluster_size v))) (\<lambda>fixed.
           ntfs_prepare_fixups E fixed (nv_bytes_per_sector v)))))"

definition commit_stream :: "env \<Rightarrow> NtfsVolume \<Rightarrow> NtfsLayout \<Rightarrow> StreamRow \<Rightarrow> unit io" where
  "commit_stream E v layout row =
     bindI (readI (\<lambda>d. ntfs_read_record E v d (nl_mft_runs layout) (sr_record row))) (\<lambda>(raw, fixed).
     bindI (readI (\<lambda>d. canonical_record E v row fixed)) (\<lambda>raw.
     ntfs_write_record E v (nl_mft_runs layout) (sr_record row) raw))"

text \<open>\<open>identity\<close>: what the open descriptor is compared with, for a device.\<close>

record Target =
  tg_probe :: NtfsProbe
  tg_status :: "Status option" \<comment> \<open>\<open>fstat\<close> of the descriptor\<close>
  tg_size :: "nat option"

definition descriptor_matches :: "Target \<Rightarrow> (string \<times> nat) option \<Rightarrow> bool" where
  "descriptor_matches t identity \<longleftrightarrow>
     (case identity of None \<Rightarrow> True | Some (text, n) \<Rightarrow> ld_fd_matches_identity (tg_status t) (tg_size t) text n)"

definition ntfs_apply_stage_metadata ::
  "env \<Rightarrow> services \<Rightarrow> Target \<Rightarrow> bool \<Rightarrow> (string \<times> nat) option \<Rightarrow> PlanDb \<Rightarrow> unit io" where
  "ntfs_apply_stage_metadata E Q t allow_dirty identity db =
     bindI (readI (\<lambda>d. ntfs_open_volume E (tg_probe t) d True)) (\<lambda>v.
     if \<not> descriptor_matches t identity
     then dieI (Fail ''NTFS writable metadata descriptor does not match the journaled target'')
     else
       bindI (readI (\<lambda>d. ntfs_read_layout E v d allow_dirty)) (\<lambda>layout.
       if \<not> sv_sql Q ''stream metadata'' 0 then dieI (sql_error ''reading NTFS stream metadata plan'')
       else
         case sql_rows Q ''stream metadata''
             (sort_key (\<lambda>r. int64 (sr_record r)) (sort_key sr_attr (pd_streams db))) of
           (rows, ended) \<Rightarrow>
             thenI (foldI (\<lambda>row _. commit_stream E v layout row) rows ())
            (if \<not> ended then dieI (sql_error ''reading NTFS stream metadata plan'')
             else
               case pd_bitmap db of
                 None \<Rightarrow> dieI (sql_error ''reading NTFS final bitmap'')
               | Some bitmap \<Rightarrow>
                   if \<not> sv_sql Q ''final bitmap'' 0 then dieI (sql_error ''reading NTFS final bitmap'')
                   else if length bitmap \<noteq> length (nl_bitmap layout)
                   then dieI (Fail ''NTFS final bitmap has the wrong size'')
                   else
                     thenI (ntfs_write_bitmap E v (layout\<lparr>nl_bitmap := bitmap\<rparr>))
                       (sync_or E ''syncing NTFS stage metadata failed''))))"

section \<open>Verification\<close>

definition find_stream :: "NtfsCatalogue \<Rightarrow> nat \<Rightarrow> nat \<Rightarrow> NtfsStream option" where
  "find_stream catalogue n attr =
     find (\<lambda>s. ns_record_number s = n \<and> ns_attribute_offset s = attr) (nc_items catalogue)"

text \<open>The stream lies in one run at \<open>start\<close>, has the recorded digest, and its reserve is free.\<close>

definition one_run :: "NtfsStream \<Rightarrow> nat \<Rightarrow> nat \<Rightarrow> bool" where
  "one_run s start clusters \<longleftrightarrow> length (ns_runs s) = 1 \<and> \<not> nr_sparse (ns_runs s ! 0) \<and>
     nr_lcn (ns_runs s ! 0) = start \<and> nr_length (ns_runs s ! 0) = clusters"

definition verify_reserve :: "NtfsVolume \<Rightarrow> NtfsLayout \<Rightarrow> string \<Rightarrow> string \<Rightarrow> nat \<Rightarrow> nat \<Rightarrow> nat \<Rightarrow> nat \<Rightarrow> unit res" where
  "verify_reserve v layout beyond used n start clusters reserve =
     (if start > nv_total_clusters v \<or> clusters > nv_total_clusters v - start \<or>
         reserve > nv_total_clusters v - start - clusters
      then Inl (Fail beyond)
      else
        case find (ntfs_bitmap_bit layout) [start + clusters..<start + clusters + reserve] of
          Some c \<Rightarrow> Inl (Fail (used @ dec c @ '' is allocated after MFT record '' @ dec n))
        | None \<Rightarrow> Inr ())"

definition verify_digest :: "env \<Rightarrow> services \<Rightarrow> NtfsVolume \<Rightarrow> bytes \<Rightarrow> NtfsStream \<Rightarrow> bytes \<Rightarrow> string \<Rightarrow> unit res" where
  "verify_digest E Q v d s stored message =
     bindE (ntfs_stream_digest E Q v d s) (\<lambda>digest.
     if length stored \<noteq> 32 \<or> stored \<noteq> digest then Inl (Fail message) else Inr ())"

definition verify_stream ::
  "env \<Rightarrow> services \<Rightarrow> NtfsVolume \<Rightarrow> bytes \<Rightarrow> NtfsLayout \<Rightarrow> NtfsCatalogue \<Rightarrow> StreamRow \<Rightarrow> unit res" where
  "verify_stream E Q v d layout catalogue row =
     (case find_stream catalogue (sr_record row) (sr_attr row) of
        None \<Rightarrow> Inl (Fail (''NTFS canonical mapping verification failed for MFT record '' @ dec (sr_record row)))
      | Some s \<Rightarrow>
          if \<not> one_run s (sr_target row) (sr_clusters row)
          then Inl (Fail (''NTFS canonical mapping verification failed for MFT record '' @ dec (sr_record row)))
          else
            bindE (verify_digest E Q v d s (sr_sha row) (''NTFS payload checksum changed for MFT record '' @ dec (sr_record row))) (\<lambda>_.
            verify_reserve v layout (''NTFS growth reserve for MFT record '' @ dec (sr_record row) @ '' extends beyond the filesystem'')
              ''NTFS growth-reserve cluster '' (sr_record row) (sr_target row) (sr_clusters row) (sr_reserve row)))"

definition verify_fixed ::
  "env \<Rightarrow> services \<Rightarrow> NtfsVolume \<Rightarrow> bytes \<Rightarrow> NtfsLayout \<Rightarrow> NtfsCatalogue \<Rightarrow> FixedRow \<Rightarrow> unit res" where
  "verify_fixed E Q v d layout catalogue row =
     (case find_stream catalogue (fx_record row) (fx_attr row) of
        None \<Rightarrow> Inl (Fail (''NTFS preserved primary stream in MFT record '' @ dec (fx_record row) @ '' changed mapping''))
      | Some s \<Rightarrow>
          if ns_directory s \<or> \<not> primary_object_stream s \<or> \<not> one_run s (fx_start row) (fx_clusters row)
          then Inl (Fail (''NTFS preserved primary stream in MFT record '' @ dec (fx_record row) @ '' changed mapping''))
          else
            bindE (verify_digest E Q v d s (fx_sha row)
              (''NTFS preserved primary payload changed for MFT record '' @ dec (fx_record row))) (\<lambda>_.
            verify_reserve v layout
              (''NTFS preserved 10% reserve for MFT record '' @ dec (fx_record row) @ '' extends beyond the filesystem'')
              ''NTFS preserved 10% reserve cluster '' (fx_record row) (fx_start row) (fx_clusters row) (fx_reserve row)))"

definition growth_covered :: "PlanDb \<Rightarrow> NtfsStream \<Rightarrow> unit res" where
  "growth_covered db s =
     (if ns_record_number s < NTFS_FIRST_USER_RECORD \<or> ns_clusters s = 0 \<or> ns_directory s \<or> \<not> primary_object_stream s
      then Inr ()
      else if list_ex (\<lambda>r. sr_record r = ns_record_number s \<and> sr_attr r = ns_attribute_offset s) (pd_streams db) \<or>
        list_ex (\<lambda>r. fx_record r = ns_record_number s \<and> fx_attr r = ns_attribute_offset s) (pd_fixed db)
      then Inr ()
      else Inl (Fail (''NTFS growth plan omitted primary stream in '' @ of_record s)))"

text \<open>All rows of a query, with an error where it does not end with \<open>SQLITE_DONE\<close>.\<close>

definition each_row :: "services \<Rightarrow> string \<Rightarrow> string \<Rightarrow> string \<Rightarrow> ('a \<Rightarrow> unit res) \<Rightarrow> 'a list \<Rightarrow> unit res" where
  "each_row Q query preparing reading f rows =
     (if \<not> sv_sql Q query 0 then Inl (sql_error preparing)
      else
        case sql_rows Q query rows of
          (delivered, ended) \<Rightarrow>
            bindE (foldE (\<lambda>r _. f r) delivered ()) (\<lambda>_.
            if \<not> ended then Inl (sql_error reading) else Inr ()))"

definition ntfs_verify_stage :: "env \<Rightarrow> services \<Rightarrow> NtfsProbe \<Rightarrow> bool \<Rightarrow> bool \<Rightarrow> PlanDb \<Rightarrow> bytes \<Rightarrow> unit res" where
  "ntfs_verify_stage E Q p growth allow_dirty db d =
     bindE (ntfs_open_volume E p d False) (\<lambda>v.
     bindE (ntfs_read_layout E v d allow_dirty) (\<lambda>layout.
     bindE (ntfs_scan_catalogue E v d layout) (\<lambda>catalogue.
     bindE (each_row Q ''verify streams'' ''preparing NTFS verification'' ''reading NTFS verification plan''
       (verify_stream E Q v d layout catalogue) (pd_streams db)) (\<lambda>_.
     bindE (each_row Q ''verify fixed'' ''preparing NTFS fixed-stream verification'' ''reading NTFS fixed-stream verification plan''
       (verify_fixed E Q v d layout catalogue) (pd_fixed db)) (\<lambda>_.
     if nc_malformed_records catalogue \<noteq> 0 then Inl (Fail ''NTFS verification found malformed MFT records'')
     else if growth then
       (if \<not> sv_sql Q ''covered'' 0 then Inl (sql_error ''preparing NTFS growth-contract coverage verification'')
        else foldE (\<lambda>s _. growth_covered db s) (nc_items catalogue) ())
     else Inr ())))))"


end
