(* ===== verification/NtfsPermute.thy ===== *)
theory NtfsPermute
  imports NtfsStage
begin

text \<open>
  The permutation in the working image: following predecessors from the targets that hold
  nothing, and closing the remaining cycles with one saved cluster, puts the data of every
  cluster at its target whatever paths and cycles the plan has.
\<close>

section \<open>Clusters of an image\<close>

definition cluster_of :: "nat \<Rightarrow> bytes \<Rightarrow> nat \<Rightarrow> bytes" where
  "cluster_of cs d c = read_at (c * cs) cs d"

definition cluster_inside :: "nat \<Rightarrow> nat \<Rightarrow> nat \<Rightarrow> bool" where
  "cluster_inside cs n c \<longleftrightarrow> c * cs + cs \<le> n"

lemma length_cluster_of: "cluster_inside cs (length d) c \<Longrightarrow> length (cluster_of cs d c) = cs"
  by (simp add: cluster_of_def cluster_inside_def length_read_at)

lemma clusters_apart: "c \<noteq> (t :: nat) \<Longrightarrow> c * cs + cs \<le> t * cs \<or> t * cs + cs \<le> c * cs"
  by (metis add.commute less_imp_Suc_add linorder_neqE_nat mult_Suc mult_le_mono1 Suc_leI)

lemma cluster_of_patch:
  assumes "length bs = cs" "cluster_inside cs (length d) t" "cluster_inside cs (length d) c"
  shows "cluster_of cs (patch d (t * cs) bs) c = (if c = t then bs else cluster_of cs d c)"
  using assms clusters_apart [of c t cs]
  by (auto simp: cluster_of_def cluster_inside_def read_at_patch_same read_at_patch_other)

lemma read_cluster_ok:
  assumes "io_reliable E" "cluster_inside cs (length d) c" "length d \<le> SSIZE_MAX"
  shows "read_cluster E cs message d c = Inr (cluster_of cs d c)"
  using assms by (simp add: read_cluster_def cluster_inside_def ld_pread_full_def u64_id io_reliable_read cluster_of_def)

lemma write_cluster_ok:
  assumes "io_reliable E" "length bs = cs" "cluster_inside cs (length (w_disk w)) c" "length (w_disk w) \<le> SSIZE_MAX"
  shows "write_cluster E cs message bs c w = (Inr (), after_write bs (c * cs) w)"
  using assms
  by (simp add: write_cluster_def cluster_inside_def ld_pwrite_full_def u64_id io_reliable_write bindI_def die_ifI_def
    retI_def after_write_def)

lemma copy_cluster_ok:
  assumes "io_reliable E" "cluster_inside cs (length (w_disk w)) s" "cluster_inside cs (length (w_disk w)) t"
    and "length (w_disk w) \<le> SSIZE_MAX"
  shows "copy_cluster E cs s t w = (Inr (), after_write (cluster_of cs (w_disk w) s) (t * cs) w)"
  using assms
  by (simp add: copy_cluster_def readI_def bindI_def read_cluster_ok write_cluster_ok length_cluster_of)

section \<open>The plan as a relation\<close>

definition goes :: "BlockRow list \<Rightarrow> nat \<Rightarrow> nat \<Rightarrow> bool" where
  "goes B x y \<longleftrightarrow> (\<exists>b \<in> set B. bk_old b = x \<and> bk_target b = y \<and> x \<noteq> y)"

definition sources :: "BlockRow list \<Rightarrow> nat set" where
  "sources B = {x. \<exists>y. goes B x y}"

definition placed_set :: "BlockRow list \<Rightarrow> nat set" where
  "placed_set B = {bk_old b |b. b \<in> set B \<and> bk_old b \<noteq> bk_target b \<and> bk_placed b}"

definition keys_ok :: "BlockRow list \<Rightarrow> bool" where
  "keys_ok B \<longleftrightarrow> distinct (map bk_old B) \<and> distinct (map bk_target B)"

lemma goes_functional: "keys_ok B \<Longrightarrow> goes B x y \<Longrightarrow> goes B x z \<Longrightarrow> y = z"
  unfolding goes_def keys_ok_def distinct_map inj_on_def by metis

lemma goes_injective: "keys_ok B \<Longrightarrow> goes B x z \<Longrightarrow> goes B y z \<Longrightarrow> x = y"
  unfolding goes_def keys_ok_def distinct_map inj_on_def by metis

lemma goes_source: "goes B x y \<Longrightarrow> x \<in> sources B"
  by (auto simp: sources_def)

lemma goes_neq: "goes B x y \<Longrightarrow> x \<noteq> y"
  by (auto simp: goes_def)

lemma placed_sub: "placed_set B \<subseteq> sources B"
  by (auto simp: placed_set_def sources_def goes_def)

lemma sources_old: "sources B \<subseteq> bk_old ` set B"
  by (auto simp: sources_def goes_def)

lemma finite_sources: "finite (sources B)"
  by (rule finite_subset [OF sources_old]) simp

lemma card_sources: "keys_ok B \<Longrightarrow> card (sources B) = length (filter (\<lambda>b. bk_old b \<noteq> bk_target b) B)"
proof -
  assume k: "keys_ok B"
  have "sources B = set (map bk_old (filter (\<lambda>b. bk_old b \<noteq> bk_target b) B))" by (auto simp: sources_def goes_def)
  moreover have "distinct (map bk_old (filter (\<lambda>b. bk_old b \<noteq> bk_target b) B))"
    using k by (simp add: keys_ok_def distinct_map_filter)
  ultimately show ?thesis by (metis distinct_card length_map)
qed

lemma mark_same:
  "goes (mark_placed x B) = goes B" "sources (mark_placed x B) = sources B" "keys_ok (mark_placed x B) = keys_ok B"
  "length (mark_placed x B) = length B"
proof -
  have k: "map bk_old (mark_placed x B) = map bk_old B" "map bk_target (mark_placed x B) = map bk_target B"
    by (simp_all add: mark_placed_def)
  have "goes C u v \<longleftrightarrow> (u, v) \<in> set (map (\<lambda>b. (bk_old b, bk_target b)) C) \<and> u \<noteq> v" for C u v
    by (auto simp: goes_def)
  moreover have "map (\<lambda>b. (bk_old b, bk_target b)) (mark_placed x B) = map (\<lambda>b. (bk_old b, bk_target b)) B"
    by (simp add: mark_placed_def)
  ultimately show g: "goes (mark_placed x B) = goes B" by (intro ext) (simp only:)
  show "sources (mark_placed x B) = sources B" by (simp add: sources_def g)
  show "keys_ok (mark_placed x B) = keys_ok B" unfolding keys_ok_def k ..
  show "length (mark_placed x B) = length B" by (simp add: mark_placed_def)
qed

lemma placed_mark: "x \<in> sources B \<Longrightarrow> placed_set (mark_placed x B) = insert x (placed_set B)"
proof -
  assume "x \<in> sources B"
  then obtain b where b: "b \<in> set B" "bk_old b = x" "bk_old b \<noteq> bk_target b" by (auto simp: sources_def goes_def)
  let ?m = "\<lambda>b. if bk_old b = x then b\<lparr>bk_placed := True\<rparr> else b"
  have m: "set (mark_placed x B) = ?m ` set B" by (simp add: mark_placed_def)
  have "z \<in> placed_set (mark_placed x B)" if z: "z \<in> insert x (placed_set B)" for z
  proof (cases "z = x")
    case True
    have "?m b \<in> set (mark_placed x B)" using b(1) m by blast
    then show ?thesis unfolding placed_set_def using b(2,3) True by (intro CollectI exI [of _ "?m b"]) auto
  next
    case False
    then obtain c where c: "c \<in> set B" "bk_old c = z" "bk_old c \<noteq> bk_target c" "bk_placed c"
      using z by (auto simp: placed_set_def)
    then have "c \<in> set (mark_placed x B)" using m False by force
    then show ?thesis unfolding placed_set_def using c by blast
  qed
  moreover have "z \<in> insert x (placed_set B)" if "z \<in> placed_set (mark_placed x B)" for z
    using that m by (auto simp: placed_set_def split: if_splits)
  ultimately show ?thesis by blast
qed

lemma find_placed:
  assumes "keys_ok B" "goes B x y" "b \<in> set B" "bk_old b = x"
  shows "bk_placed b \<longleftrightarrow> x \<in> placed_set B"
proof -
  have "c = b" if "c \<in> set B" "bk_old c = x" for c
    using assms that unfolding keys_ok_def distinct_map inj_on_def by metis
  moreover have "bk_old b \<noteq> bk_target b"
    using assms calculation unfolding goes_def by metis
  ultimately show ?thesis using assms(3,4) unfolding placed_set_def by blast
qed

lemma predecessor_Some:
  assumes "keys_ok B" "predecessor B f = Some x"
  shows "goes B x f \<and> x \<notin> placed_set B"
proof -
  obtain b where b: "b \<in> set B" "bk_target b = f" "bk_old b \<noteq> bk_target b" "\<not> bk_placed b" "x = bk_old b"
    using assms(2) unfolding predecessor_def map_option_eq_Some find_Some_iff by (metis nth_mem)
  then have "goes B x f" by (auto simp: goes_def)
  with find_placed [OF assms(1) this b(1)] b show ?thesis by simp
qed

lemma predecessor_None:
  assumes "keys_ok B" "predecessor B f = None" "goes B x f"
  shows "x \<in> placed_set B"
proof -
  obtain b where b: "b \<in> set B" "bk_old b = x" "bk_target b = f" "x \<noteq> f" using assms(3) by (auto simp: goes_def)
  then have "bk_placed b" using assms(2) by (auto simp: predecessor_def find_None_iff)
  then show ?thesis using find_placed [OF assms(1,3) b(1,2)] by simp
qed

lemma unplaced_Some:
  assumes "keys_ok B" "unplaced B = Some x"
  shows "x \<in> sources B \<and> x \<notin> placed_set B"
proof -
  obtain b where b: "b \<in> set B" "bk_old b \<noteq> bk_target b" "\<not> bk_placed b" "x = bk_old b"
    using assms(2) unfolding unplaced_def map_option_eq_Some find_Some_iff by (metis nth_mem)
  then have "goes B x (bk_target b)" by (auto simp: goes_def)
  with find_placed [OF assms(1) this b(1)] b show ?thesis by (auto simp: sources_def)
qed

lemma unplaced_None: "unplaced B = None \<Longrightarrow> sources B \<subseteq> placed_set B"
  by (auto simp: unplaced_def find_None_iff sources_def goes_def placed_set_def)

section \<open>What is in place\<close>

text \<open>
  The image \<open>d\<close> is \<open>d0\<close> with the placed clusters moved; a source was overwritten only after
  it was placed itself, or is the start of the open cycle, whose data is saved.
\<close>

definition arranged :: "nat \<Rightarrow> bytes \<Rightarrow> BlockRow list \<Rightarrow> nat set \<Rightarrow> bytes \<Rightarrow> bool" where
  "arranged cs d0 B open_start d \<longleftrightarrow> length d = length d0 \<and>
     (\<forall>x \<in> placed_set B. \<forall>y. goes B x y \<longrightarrow> cluster_of cs d y = cluster_of cs d0 x) \<and>
     (\<forall>c. cluster_inside cs (length d0) c \<longrightarrow> (\<forall>x \<in> placed_set B. \<not> goes B x c) \<longrightarrow>
        cluster_of cs d c = cluster_of cs d0 c) \<and>
     (\<forall>x \<in> placed_set B. \<forall>y. goes B x y \<longrightarrow> y \<in> sources B \<longrightarrow> y \<in> placed_set B \<union> open_start)"

definition plan_inside :: "nat \<Rightarrow> nat \<Rightarrow> BlockRow list \<Rightarrow> bool" where
  "plan_inside cs n B \<longleftrightarrow> (\<forall>x y. goes B x y \<longrightarrow> cluster_inside cs n x \<and> cluster_inside cs n y)"

lemma arranged_untouched:
  assumes "arranged cs d0 B open_start d" "x \<in> sources B" "x \<notin> placed_set B" "x \<notin> open_start" "cluster_inside cs (length d0) x"
  shows "cluster_of cs d x = cluster_of cs d0 x"
  using assms unfolding arranged_def by blast

text \<open>A cluster is stored at its target.\<close>

lemma arranged_store:
  assumes "arranged cs d0 B open_start d" "keys_ok B" "plan_inside cs (length d0) B" "goes B x f" "x \<notin> placed_set B"
    and "f \<in> sources B \<Longrightarrow> f \<in> placed_set B \<union> open_start" "open' = open_start - {x}"
  shows "arranged cs d0 (mark_placed x B) open' (patch d (f * cs) (cluster_of cs d0 x))"
proof -
  let ?d = "patch d (f * cs) (cluster_of cs d0 x)"
  have len: "length d = length d0" using assms(1) by (simp add: arranged_def)
  have x: "x \<in> sources B" using assms(4) by (rule goes_source)
  have ins: "cluster_inside cs (length d0) f" "cluster_inside cs (length d0) x"
    using assms(3,4) by (auto simp: plan_inside_def)
  have bs: "length (cluster_of cs d0 x) = cs" by (rule length_cluster_of [OF ins(2)])
  have new: "cluster_of cs ?d c = (if c = f then cluster_of cs d0 x else cluster_of cs d c)"
    if "cluster_inside cs (length d0) c" for c
    using cluster_of_patch [OF bs] ins(1) that len by simp
  have "length ?d = length d0" using ins(1) bs len by (simp add: length_patch cluster_inside_def)
  moreover have "cluster_of cs ?d y = cluster_of cs d0 z" if "z \<in> insert x (placed_set B)" "goes B z y" for z y
  proof (cases "y = f")
    case True
    then have "z = x" using goes_injective [OF assms(2)] that(2) assms(4) by blast
    then show ?thesis using new ins(1) True by simp
  next
    case False
    then have "z \<noteq> x" using goes_functional [OF assms(2) that(2)] assms(4) by blast
    then have "z \<in> placed_set B" using that(1) by simp
    moreover have "cluster_inside cs (length d0) y" using assms(3) that(2) by (auto simp: plan_inside_def)
    ultimately show ?thesis using new False assms(1) that(2) by (simp add: arranged_def)
  qed
  moreover have "cluster_of cs ?d c = cluster_of cs d0 c"
    if "cluster_inside cs (length d0) c" "\<forall>z \<in> insert x (placed_set B). \<not> goes B z c" for c
    using that assms(1,4) new by (auto simp: arranged_def)
  moreover have "y \<in> insert x (placed_set B) \<union> open'" if "z \<in> insert x (placed_set B)" "goes B z y" "y \<in> sources B" for z y
  proof (cases "z = x")
    case True
    then have "y = f" using goes_functional [OF assms(2) that(2)] assms(4) by blast
    then show ?thesis using assms(6,7) that(3) by blast
  next
    case False
    then show ?thesis using that assms(1,7) unfolding arranged_def by blast
  qed
  ultimately show ?thesis unfolding arranged_def mark_same placed_mark [OF x] by blast
qed

section \<open>Chains\<close>

definition sql_works :: "services \<Rightarrow> bool" where
  "sql_works Q \<longleftrightarrow> (\<forall>s n. sv_sql Q s n)"

text \<open>The plan that the rows \<open>B'\<close> have in common with \<open>B\<close>, and what is placed more.\<close>

definition further :: "BlockRow list \<Rightarrow> BlockRow list \<Rightarrow> bool" where
  "further B B' \<longleftrightarrow> goes B' = goes B \<and> keys_ok B' = keys_ok B \<and> length B' = length B \<and>
     map bk_old B' = map bk_old B \<and> placed_set B \<subseteq> placed_set B'"

lemma further_refl: "further B B"
  by (simp add: further_def)

lemma further_trans: "further B C \<Longrightarrow> further C D \<Longrightarrow> further B D"
  by (auto simp: further_def)

lemma further_mark: "x \<in> sources B \<Longrightarrow> further B (mark_placed x B)"
  by (auto simp: further_def mark_same placed_mark) (simp add: mark_placed_def)

lemma further_sources: "further B B' \<Longrightarrow> sources B' = sources B"
  by (simp add: further_def sources_def)

text \<open>The world while the image is permuted: the image, the rows and their count; no stop comes.\<close>

definition permuting :: "nat \<Rightarrow> bytes \<Rightarrow> nat set \<Rightarrow> BlockRow list \<Rightarrow> nat \<Rightarrow> world \<Rightarrow> bool" where
  "permuting cs d0 open_start B n w \<longleftrightarrow> keys_ok B \<and> plan_inside cs (length d0) B \<and> length d0 \<le> SSIZE_MAX \<and>
     arranged cs d0 B open_start (w_disk w) \<and> n = card (placed_set B) \<and> w_stop w = None"

text \<open>Where a placed cluster still waits for the data that goes there.\<close>

definition hole_at :: "BlockRow list \<Rightarrow> nat set \<Rightarrow> nat set \<Rightarrow> bool" where
  "hole_at B open_start holes \<longleftrightarrow>
     (\<forall>u y. goes B u y \<longrightarrow> u \<notin> placed_set B \<longrightarrow> y \<in> placed_set B \<union> open_start \<longrightarrow> y \<in> holes)"

lemma permuting_inside:
  assumes "permuting cs d0 open_start B n w" "goes B x f"
  shows "cluster_inside cs (length (w_disk w)) x" "cluster_inside cs (length (w_disk w)) f" "length (w_disk w) \<le> SSIZE_MAX"
  using assms by (auto simp: permuting_def plan_inside_def arranged_def)

lemma permuting_store:
  assumes "permuting cs d0 open_start B n w" "goes B x f" "x \<notin> placed_set B"
    and "f \<in> sources B \<Longrightarrow> f \<in> placed_set B \<union> open_start" "bs = cluster_of cs d0 x"
  shows "permuting cs d0 (open_start - {x}) (mark_placed x B) (n + 1) (after_write bs (f * cs) w)"
    "further B (mark_placed x B)"
proof -
  have x: "x \<in> sources B" using assms(2) by (rule goes_source)
  have "card (insert x (placed_set B)) = card (placed_set B) + 1"
    using assms(3) finite_subset [OF placed_sub finite_sources] by simp
  moreover have "arranged cs d0 (mark_placed x B) (open_start - {x}) (patch (w_disk w) (f * cs) (cluster_of cs d0 x))"
    using assms(1-4) by (intro arranged_store) (auto simp: permuting_def)
  ultimately show "permuting cs d0 (open_start - {x}) (mark_placed x B) (n + 1) (after_write bs (f * cs) w)"
    using assms(1,5) unfolding permuting_def plan_inside_def mark_same placed_mark [OF x] by simp
  show "further B (mark_placed x B)" by (rule further_mark [OF x])
qed

lemma hole_moves:
  assumes "hole_at B open_start {f}" "keys_ok B" "goes B x f" "x \<in> sources B"
  shows "hole_at (mark_placed x B) (open_start - {x}) {x}" "x \<notin> open_start \<Longrightarrow> hole_at (mark_placed x B) open_start {x}"
  using assms(1) goes_injective [OF assms(2) _ assms(3)]
  unfolding hole_at_def mark_same placed_mark [OF assms(4)] by blast+

lemma permute_chain_ok:
  assumes "io_reliable E" "sql_works Q" "permuting cs d0 {} B n w"
    and "f \<in> sources B \<Longrightarrow> f \<in> placed_set B" "hole_at B {} {f}"
  shows "\<exists>B' n' w'. permute_chain E Q cs f B n w = (Inr (B', n'), w') \<and> permuting cs d0 {} B' n' w' \<and> further B B' \<and>
    hole_at B' {} {} \<and> (\<forall>u. goes B u f \<longrightarrow> u \<in> placed_set B')"
  using assms(3-)
proof (induction "waiting B" arbitrary: B n w f rule: less_induct)
  case less
  have Q: "\<And>s n. sv_sql Q s n" using assms(2) by (simp add: sql_works_def)
  have keys: "keys_ok B" using less.prems(1) by (simp add: permuting_def)
  show ?case
  proof (cases "predecessor B f")
    case None
    then have "permute_chain E Q cs f B n w = (Inr (B, n), w)"
      by (subst permute_chain.simps) (simp add: Q retI_def)
    moreover have "\<forall>u. goes B u f \<longrightarrow> u \<in> placed_set B" using predecessor_None [OF keys None] by blast
    ultimately show ?thesis using less.prems by (auto simp: hole_at_def further_refl)
  next
    case (Some x)
    note x = predecessor_Some [OF keys Some]
    then have src: "x \<in> sources B" by (blast intro: goes_source)
    note ins = permuting_inside [OF less.prems(1) conjunct1 [OF x]]
    have "cluster_inside cs (length d0) x" using x less.prems(1) by (auto simp: permuting_def plan_inside_def)
    then have bs: "cluster_of cs (w_disk w) x = cluster_of cs d0 x"
      using less.prems(1) x src by (intro arranged_untouched [where open_start = "{}"]) (auto simp: permuting_def)
    let ?w = "after_write (cluster_of cs (w_disk w) x) (f * cs) w"
    have p: "permuting cs d0 {} (mark_placed x B) (n + 1) ?w"
      using permuting_store(1) [OF less.prems(1) conjunct1 [OF x] conjunct2 [OF x] _ bs] less.prems(2) by simp
    have stop: "ld_stop_requested ?w = (Inr False, ?w)" using less.prems(1) by (simp add: ld_stop_requested_def permuting_def)
    have step: "permute_chain E Q cs f B n w = permute_chain E Q cs x (mark_placed x B) (n + 1) ?w"
      using copy_cluster_ok [OF assms(1) ins] stop Some
      by (subst permute_chain.simps) (simp add: Q thenI_def bindI_def retI_def)
    have h: "hole_at (mark_placed x B) {} {x}"
      using hole_moves(1) [OF less.prems(3) keys conjunct1 [OF x] src] by simp
    obtain B' n' w' where rest: "permute_chain E Q cs x (mark_placed x B) (n + 1) ?w = (Inr (B', n'), w')"
      "permuting cs d0 {} B' n' w'" "further (mark_placed x B) B'" "hole_at B' {} {}"
      using less.hyps [OF waiting_mark [OF Some] p _ h] placed_mark [OF src] by auto
    have fur: "further B B'" by (rule further_trans [OF further_mark [OF src] rest(3)])
    have "u \<in> placed_set B'" if "goes B u f" for u
    proof -
      have "u = x" using goes_injective [OF keys that] x by blast
      then show ?thesis using rest(3) placed_mark [OF src] by (auto simp: further_def)
    qed
    with rest fur step show ?thesis by auto
  qed
qed

section \<open>Cycles\<close>

lemma permute_cycle_ok:
  assumes "io_reliable E" "sql_works Q" "permuting cs d0 {start} B n w"
    and "start \<in> sources B" "start \<notin> placed_set B" "f = start \<or> f \<in> placed_set B" "hole_at B {start} {f}"
    and "\<forall>x \<in> placed_set B. \<not> goes B x f" "\<forall>y \<in> sources B. y \<notin> placed_set B \<or> y = f \<longrightarrow> (\<exists>x. goes B x y)"
    and "saved = cluster_of cs d0 start"
  shows "\<exists>B' n' w'. permute_cycle E Q cs start saved f B n w = (Inr (B', n'), w') \<and> permuting cs d0 {} B' n' w' \<and>
    further B B' \<and> hole_at B' {} {} \<and> start \<in> placed_set B'"
  using assms(3-9)
proof (induction "waiting B" arbitrary: B n w f rule: less_induct)
  case less
  have Q: "\<And>s n. sv_sql Q s n" using assms(2) by (simp add: sql_works_def)
  have keys: "keys_ok B" using less.prems(1) by (simp add: permuting_def)
  have fs: "f \<in> sources B" using less.prems(2,4) placed_sub by blast
  obtain z where z: "goes B z f" using less.prems(7) fs by blast
  then have "z \<notin> placed_set B" using less.prems(6) by blast
  then obtain x where Some: "predecessor B f = Some x"
    using predecessor_None [OF keys _ z] by (cases "predecessor B f") auto
  note x = predecessor_Some [OF keys Some]
  then have src: "x \<in> sources B" by (blast intro: goes_source)
  note ins = permuting_inside [OF less.prems(1) conjunct1 [OF x]]
  have ins0: "cluster_inside cs (length d0) x" using x less.prems(1) by (auto simp: permuting_def plan_inside_def)
  show ?case
  proof (cases "x = start")
    case True
    have len: "length saved = cs" using length_cluster_of [OF ins0] True assms(10) by simp
    let ?w = "after_write saved (f * cs) w"
    have p: "permuting cs d0 {} (mark_placed start B) (n + 1) ?w"
      using permuting_store(1) [OF less.prems(1) conjunct1 [OF x] conjunct2 [OF x]] True less.prems(4) assms(10) by auto
    have "permute_cycle E Q cs start saved f B n w = (Inr (mark_placed start B, n + 1), ?w)"
      using write_cluster_ok [OF assms(1) len ins(2,3)] Some True
      by (subst permute_cycle.simps) (simp add: Q thenI_def bindI_def retI_def)
    moreover have "hole_at (mark_placed start B) {} {}"
      using less.prems(5) goes_injective [OF keys _ conjunct1 [OF x]] True src
      unfolding hole_at_def mark_same placed_mark [OF less.prems(2)] by blast
    ultimately show ?thesis using p further_mark [OF less.prems(2)] placed_mark [OF less.prems(2)] by auto
  next
    case False
    have bs: "cluster_of cs (w_disk w) x = cluster_of cs d0 x"
      using less.prems(1) x src ins0 False by (intro arranged_untouched [where open_start = "{start}"]) (auto simp: permuting_def)
    let ?w = "after_write (cluster_of cs (w_disk w) x) (f * cs) w" and ?B = "mark_placed x B"
    have "{start} - {x} = {start}" using False by auto
    then have p: "permuting cs d0 {start} ?B (n + 1) ?w"
      using permuting_store(1) [OF less.prems(1) conjunct1 [OF x] conjunct2 [OF x] _ bs] less.prems(4) by auto
    have step: "permute_cycle E Q cs start saved f B n w = permute_cycle E Q cs start saved x ?B (n + 1) ?w"
      using copy_cluster_ok [OF assms(1) ins] Some False
      by (subst permute_cycle.simps) (simp add: Q thenI_def bindI_def retI_def)
    have h: "hole_at ?B {start} {x}"
      using hole_moves(2) [OF less.prems(5) keys conjunct1 [OF x] src] False by simp
    have behind: "\<forall>u \<in> placed_set ?B. \<not> goes ?B u x"
      using less.prems(1) x src False goes_functional [OF keys conjunct1 [OF x]] less.prems(4)
      unfolding mark_same placed_mark [OF src] permuting_def arranged_def by blast
    have preds: "\<forall>y \<in> sources ?B. y \<notin> placed_set ?B \<or> y = x \<longrightarrow> (\<exists>u. goes ?B u y)"
      using less.prems(7) x unfolding mark_same placed_mark [OF src] by blast
    obtain B' n' w' where rest: "permute_cycle E Q cs start saved x ?B (n + 1) ?w = (Inr (B', n'), w')"
      "permuting cs d0 {} B' n' w'" "further ?B B'" "hole_at B' {} {}" "start \<in> placed_set B'"
      using less.hyps [OF waiting_mark [OF Some] p _ _ _ h behind preds] less.prems(2,3) False
      unfolding mark_same placed_mark [OF src] by auto
    with step further_trans [OF further_mark [OF src] rest(3)] show ?thesis by auto
  qed
qed

section \<open>The whole permutation\<close>

lemma sql_rows_all: "sql_works Q \<Longrightarrow> sql_rows Q s rows = (rows, True)"
proof -
  assume "sql_works Q"
  then have all: "takeWhile (\<lambda>i. sv_sql Q s (i + 1)) [0..<length rows + 1] = [0..<length rows + 1]"
    by (intro takeWhile_eq_all_conv [THEN iffD2]) (simp add: sql_works_def)
  show ?thesis unfolding sql_rows_def Let_def all length_upt by simp
qed

lemma set_terminal_targets:
  "set (terminal_targets B) = {y. \<exists>x. goes B x y} - bk_old ` set B"
  by (auto simp: terminal_targets_def goes_def)

text \<open>Every chain from a terminal target is placed; no hole is left.\<close>

lemma permute_chains_ok:
  assumes "io_reliable E" "sql_works Q" "permuting cs d0 {} B n w" "hole_at B {} {}"
    and "\<forall>t \<in> set targets. t \<notin> sources B"
  shows "\<exists>B' n' w'. foldI (\<lambda>target (blocks, placed). permute_chain E Q cs target blocks placed) targets (B, n) w =
      (Inr (B', n'), w') \<and> permuting cs d0 {} B' n' w' \<and> further B B' \<and> hole_at B' {} {} \<and>
    (\<forall>t \<in> set targets. \<forall>u. goes B u t \<longrightarrow> u \<in> placed_set B')"
  using assms(3-)
proof (induction targets arbitrary: B n w)
  case Nil
  then show ?case by (auto simp: retI_def further_refl)
next
  case (Cons t targets)
  have "hole_at B {} {t}" using Cons.prems(2) by (auto simp: hole_at_def)
  then obtain B1 n1 w1 where one: "permute_chain E Q cs t B n w = (Inr (B1, n1), w1)" "permuting cs d0 {} B1 n1 w1"
    "further B B1" "hole_at B1 {} {}" "\<forall>u. goes B u t \<longrightarrow> u \<in> placed_set B1"
    using permute_chain_ok [OF assms(1,2) Cons.prems(1), of t] Cons.prems(3) by auto
  obtain B' n' w' where rest: "foldI (\<lambda>target (blocks, placed). permute_chain E Q cs target blocks placed) targets (B1, n1) w1 =
      (Inr (B', n'), w')" "permuting cs d0 {} B' n' w'" "further B1 B'" "hole_at B' {} {}"
    "\<forall>t \<in> set targets. \<forall>u. goes B1 u t \<longrightarrow> u \<in> placed_set B'"
    using Cons.IH [OF one(2,4)] Cons.prems(3) further_sources [OF one(3)] by auto
  have "\<forall>t' \<in> set (t # targets). \<forall>u. goes B u t' \<longrightarrow> u \<in> placed_set B'"
    using one(3,5) rest(3,5) by (auto simp: further_def)
  with one rest further_trans [OF one(3) rest(3)] show ?case by (auto simp: bindI_def)
qed

text \<open>After the chains the rows left are a permutation, so every one of them has a predecessor.\<close>

lemma cycles_left:
  assumes "keys_ok B" "hole_at B {} {}" "\<forall>t \<in> set (terminal_targets B). \<forall>u. goes B u t \<longrightarrow> u \<in> placed_set B"
  shows "\<forall>y \<in> sources B. y \<notin> placed_set B \<longrightarrow> (\<exists>x. goes B x y)"
proof -
  let ?U = "sources B - placed_set B"
  define f where "f x = (SOME y. goes B x y)" for x
  have f: "goes B x (f x)" if "x \<in> sources B" for x
    using that unfolding sources_def f_def by (auto intro: someI)
  have "f x \<in> ?U" if x: "x \<in> ?U" for x
  proof -
    have g: "goes B x (f x)" using f x by simp
    have "f x \<in> bk_old ` set B"
      using assms(3) g x unfolding set_terminal_targets by blast
    then obtain b where b: "b \<in> set B" "bk_old b = f x" by auto
    have "bk_target b \<noteq> f x"
    proof
      assume t: "bk_target b = f x"
      obtain c where c: "c \<in> set B" "bk_old c = x" "bk_target c = f x" "x \<noteq> f x" using g by (auto simp: goes_def)
      have "c = b" using assms(1) b(1) c(1,3) t unfolding keys_ok_def distinct_map inj_on_def by metis
      then show False using b(2) c(2,4) by simp
    qed
    then have "goes B (f x) (bk_target b)" unfolding goes_def using b by metis
    then have "f x \<in> sources B" by (rule goes_source)
    moreover have "f x \<notin> placed_set B" using assms(2) g x by (auto simp: hole_at_def)
    ultimately show ?thesis by simp
  qed
  then have sub: "f ` ?U \<subseteq> ?U" by blast
  have "inj_on f ?U"
  proof (rule inj_onI)
    fix x y assume "x \<in> ?U" "y \<in> ?U" "f x = f y"
    then have "goes B x (f x)" "goes B y (f x)" using f [of x] f [of y] by simp_all
    then show "x = y" by (rule goes_injective [OF assms(1)])
  qed
  moreover have "finite ?U" by (rule finite_Diff [OF finite_sources])
  ultimately have "f ` ?U = ?U" using sub by (intro card_subset_eq) (simp_all add: card_image)
  then have "\<exists>x \<in> ?U. f x = y" if "y \<in> ?U" for y using that by (metis imageE)
  then show ?thesis using f by (metis DiffD1 DiffI)
qed

lemma permute_cycles_ok:
  assumes "io_reliable E" "sql_works Q" "permuting cs d0 {} B n w" "hole_at B {} {}"
    and "\<forall>y \<in> sources B. y \<notin> placed_set B \<longrightarrow> (\<exists>x. goes B x y)" "card (sources B - placed_set B) < rounds"
  shows "\<exists>B' n' w'. permute_cycles E Q cs rounds B n w = (Inr (B', n'), w') \<and> permuting cs d0 {} B' n' w' \<and>
    further B B' \<and> sources B \<subseteq> placed_set B'"
  using assms(3-)
proof (induction rounds arbitrary: B n w)
  case 0
  then show ?case by simp
next
  case (Suc rounds)
  have Q: "\<And>s n. sv_sql Q s n" using assms(2) by (simp add: sql_works_def)
  have keys: "keys_ok B" using Suc.prems(1) by (simp add: permuting_def)
  show ?case
  proof (cases "unplaced B")
    case None
    then show ?thesis using Suc.prems(1) unplaced_None [OF None] by (auto simp: Q retI_def further_refl)
  next
    case (Some s)
    note s = unplaced_Some [OF keys Some]
    obtain y where y: "goes B s y" using s by (auto simp: sources_def)
    note ins = permuting_inside [OF Suc.prems(1) y]
    have "cluster_of cs (w_disk w) s = cluster_of cs d0 s"
      using Suc.prems(1) s y by (intro arranged_untouched [where open_start = "{}"]) (auto simp: permuting_def plan_inside_def)
    then have read: "read_cluster E cs ''short NTFS cycle read'' (w_disk w) s = Inr (cluster_of cs d0 s)"
      using read_cluster_ok [OF assms(1) ins(1,3)] by simp
    have "arranged cs d0 B {s} (w_disk w)" using Suc.prems(1) unfolding permuting_def arranged_def by blast
    then have p: "permuting cs d0 {s} B n w" using Suc.prems(1) by (simp add: permuting_def)
    have h: "hole_at B {s} {s}" using Suc.prems(2) by (auto simp: hole_at_def)
    have into: "\<forall>x \<in> placed_set B. \<not> goes B x s"
      using Suc.prems(1) s unfolding permuting_def arranged_def by blast
    have preds0: "\<forall>y \<in> sources B. y \<notin> placed_set B \<or> y = s \<longrightarrow> (\<exists>x. goes B x y)"
      using Suc.prems(3) s by blast
    obtain B1 n1 w1 where one: "permute_cycle E Q cs s (cluster_of cs d0 s) s B n w = (Inr (B1, n1), w1)"
      "permuting cs d0 {} B1 n1 w1" "further B B1" "hole_at B1 {} {}" "s \<in> placed_set B1"
      using permute_cycle_ok [OF assms(1,2) p _ _ _ h into preds0 refl] s by auto
    have src: "sources B1 = sources B" by (rule further_sources [OF one(3)])
    have "sources B1 - placed_set B1 \<subset> sources B - placed_set B" using one(3,5) s src by (auto simp: further_def)
    then have "card (sources B1 - placed_set B1) < card (sources B - placed_set B)"
      by (rule psubset_card_mono [rotated]) (simp add: finite_sources)
    then have less: "card (sources B1 - placed_set B1) < rounds" using Suc.prems(4) by simp
    have preds: "\<forall>y \<in> sources B1. y \<notin> placed_set B1 \<longrightarrow> (\<exists>x. goes B1 x y)"
      using Suc.prems(3) one(3) src by (auto simp: further_def)
    obtain B' n' w' where rest: "permute_cycles E Q cs rounds B1 n1 w1 = (Inr (B', n'), w')"
      "permuting cs d0 {} B' n' w'" "further B1 B'" "sources B1 \<subseteq> placed_set B'"
      using Suc.IH [OF one(2,4) preds less] by blast
    with one(1) read Some further_trans [OF one(3) rest(3)] src show ?thesis
      by (auto simp: Q bindI_def readI_def)
  qed
qed

lemma permute_stage_ok:
  assumes "io_reliable E" "sql_works Q" "w_stop w = None" "length (w_disk w) \<le> SSIZE_MAX"
    and "keys_ok (pd_blocks db)" "plan_inside cs (length (w_disk w)) (pd_blocks db)"
    and "\<forall>b \<in> set (pd_blocks db). \<not> bk_placed b" "move_count = ntfs_plan_move_count db"
  shows "\<exists>db' w'. ntfs_permute_stage E Q True cs move_count db w = (Inr db', w') \<and>
    length (w_disk w') = length (w_disk w) \<and>
    (\<forall>x y. goes (pd_blocks db) x y \<longrightarrow> cluster_of cs (w_disk w') y = cluster_of cs (w_disk w) x) \<and>
    (\<forall>c. cluster_inside cs (length (w_disk w)) c \<longrightarrow> (\<forall>x. \<not> goes (pd_blocks db) x c) \<longrightarrow>
       cluster_of cs (w_disk w') c = cluster_of cs (w_disk w) c)"
proof -
  let ?B = "pd_blocks db" and ?d0 = "w_disk w"
  have Q: "\<And>s n. sv_sql Q s n" using assms(2) by (simp add: sql_works_def)
  have none: "placed_set ?B = {}" using assms(7) by (auto simp: placed_set_def)
  then have start: "permuting cs ?d0 {} ?B 0 w" using assms(3-6) by (simp add: permuting_def arranged_def)
  have hole: "hole_at ?B {} {}" using none by (simp add: hole_at_def)
  have terminal: "\<forall>t \<in> set (terminal_targets ?B). t \<notin> sources ?B"
    unfolding set_terminal_targets using sources_old [of ?B] by blast
  obtain B1 n1 w1 where chains: "foldI (\<lambda>target (blocks, placed). permute_chain E Q cs target blocks placed)
      (terminal_targets ?B) (?B, 0) w = (Inr (B1, n1), w1)" "permuting cs ?d0 {} B1 n1 w1" "further ?B B1" "hole_at B1 {} {}"
    "\<forall>t \<in> set (terminal_targets ?B). \<forall>u. goes ?B u t \<longrightarrow> u \<in> placed_set B1"
    using permute_chains_ok [OF assms(1,2) start hole terminal] by blast
  have keys1: "keys_ok B1" using chains(2) by (simp add: permuting_def)
  have left: "\<forall>y \<in> sources B1. y \<notin> placed_set B1 \<longrightarrow> (\<exists>x. goes B1 x y)"
  proof (rule cycles_left [OF keys1 chains(4)])
    have "bk_old ` set B1 = bk_old ` set ?B" using chains(3) unfolding further_def by (metis set_map)
    then have "set (terminal_targets B1) = set (terminal_targets ?B)"
      using chains(3) unfolding set_terminal_targets by (simp add: further_def)
    then show "\<forall>t \<in> set (terminal_targets B1). \<forall>u. goes B1 u t \<longrightarrow> u \<in> placed_set B1"
      using chains(3,5) by (auto simp: further_def)
  qed
  have len: "card (sources B1 - placed_set B1) < length B1 + 1"
  proof -
    have "card (sources B1 - placed_set B1) \<le> card (sources B1)"
      by (rule card_mono [OF finite_sources]) auto
    also have "\<dots> \<le> length B1" unfolding card_sources [OF keys1] by (rule length_filter_le)
    finally show ?thesis by simp
  qed
  obtain B' n' w' where cycles: "permute_cycles E Q cs (length B1 + 1) B1 n1 w1 = (Inr (B', n'), w')"
    "permuting cs ?d0 {} B' n' w'" "further B1 B'" "sources B1 \<subseteq> placed_set B'"
    using permute_cycles_ok [OF assms(1,2) chains(2,4) left len] by blast
  note all = further_trans [OF chains(3) cycles(3)]
  have placed: "placed_set B' = sources ?B"
    using cycles(4) placed_sub [of B'] further_sources [OF all] further_sources [OF chains(3)] by blast
  have "n' = move_count"
    using cycles(2) placed assms(5,8) by (simp add: permuting_def card_sources ntfs_plan_move_count_def)
  then have run: "ntfs_permute_stage E Q True cs move_count db w =
      (Inr (db\<lparr>pd_blocks := B'\<rparr>), w'\<lparr>w_trace := w_trace w' @ [EvSync]\<rparr>)"
    using chains(1) cycles(1) io_reliable_host [OF assms(1)]
    by (simp add: ntfs_permute_stage_def Q sql_rows_all [OF assms(2)] bindI_def thenI_def retI_def sync_or_def del: permute_cycles.simps)
  have arr: "arranged cs ?d0 B' {} (w_disk w')" using cycles(2) by (simp add: permuting_def)
  have g: "goes B' = goes ?B" using all by (simp add: further_def)
  have "cluster_of cs (w_disk w') y = cluster_of cs ?d0 x" if "goes ?B x y" for x y
    using arr that placed goes_source [OF that] unfolding arranged_def g by blast
  moreover have "cluster_of cs (w_disk w') c = cluster_of cs ?d0 c"
    if "cluster_inside cs (length ?d0) c" "\<forall>x. \<not> goes ?B x c" for c
    using arr that unfolding arranged_def g by blast
  moreover have "length (w_disk w') = length ?d0" using arr by (simp add: arranged_def)
  ultimately show ?thesis using run by auto
qed

end
