(* ===== verification/NtfsRelayout.thy ===== *)
theory NtfsRelayout
  imports NtfsPermute NtfsPlanSafe NtfsStreams
begin

text \<open>
  The plan database in terms of the plan: its rows pair the clusters of every movable stream
  with consecutive targets, so the permutation moves each stream as a whole to its placement.
\<close>

section \<open>The rows of a plan\<close>

definition run_list :: "NtfsRun \<Rightarrow> nat list" where
  "run_list r = [nr_lcn r..<nr_lcn r + nr_length r]"

definition stream_list :: "NtfsStream \<Rightarrow> nat list" where
  "stream_list s = concat (map run_list (ns_runs s))"

definition rows_at :: "nat \<Rightarrow> nat list \<Rightarrow> BlockRow list" where
  "rows_at start cs =
     map (\<lambda>i. \<lparr>bk_old = cs ! i, bk_target = u64 (start + i), bk_placed = False\<rparr>) [0..<length cs]"

lemma foldE_map: "foldE f (map g xs) s = foldE (\<lambda>x. f (g x)) xs s"
  by (induction xs arbitrary: s) (auto intro: arg_cong [where f = "bindE _"])

lemma foldE_concat: "foldE f (concat xss) s = foldE (foldE f) xss s"
proof (induction xss arbitrary: s)
  case (Cons xs xss)
  have "foldE f (concat xss) = foldE (foldE f) xss" by (rule ext) (rule Cons.IH)
  then show ?case by (simp add: foldE_append)
qed simp

definition insert_cluster :: "services \<Rightarrow> nat \<Rightarrow> nat \<times> BlockRow list \<Rightarrow> (nat \<times> BlockRow list) res" where
  "insert_cluster Q c = (\<lambda>(target, blocks). bindE (insert_block Q c target blocks) (\<lambda>blocks. Inr (u64 (target + 1), blocks)))"

lemma insert_run_list:
  assumes "nr_lcn r + nr_length r \<le> 18446744073709551616"
  shows "insert_run Q r s = foldE (insert_cluster Q) (run_list r) s"
proof -
  have list: "run_list r = map (\<lambda>c. nr_lcn r + c) [0..<nr_length r]"
    by (rule nth_equalityI) (simp_all add: run_list_def)
  show ?thesis unfolding list foldE_map insert_run_def
    by (rule foldE_cong) (use assms in \<open>auto simp: insert_cluster_def u64_id split: prod.splits\<close>)
qed

lemma insert_runs_list:
  assumes "\<forall>r \<in> set runs. nr_lcn r + nr_length r \<le> 18446744073709551616"
  shows "foldE (insert_run Q) runs s = foldE (insert_cluster Q) (concat (map run_list runs)) s"
  unfolding foldE_concat foldE_map using assms by (intro foldE_cong) (auto simp: insert_run_list)

lemma u64_add_one: "u64 (u64 a + 1) = u64 (a + 1)"
  by (simp add: u64_def mod_Suc_eq)

lemma rows_at_snoc: "rows_at start (xs @ [c]) = rows_at start xs @
    [\<lparr>bk_old = c, bk_target = u64 (start + length xs), bk_placed = False\<rparr>]"
  by (auto simp: rows_at_def nth_append)

lemma insert_clusters_ok:
  assumes "foldE (insert_cluster Q) xs (u64 start, B) = Inr (t, B')"
  shows "t = u64 (start + length xs) \<and> B' = B @ rows_at start xs \<and> (keys_ok B \<longrightarrow> keys_ok B')"
  using assms
proof (induction xs arbitrary: t B' rule: rev_induct)
  case Nil
  then show ?case by (simp add: rows_at_def)
next
  case (snoc c xs)
  obtain u C where one: "foldE (insert_cluster Q) xs (u64 start, B) = Inr (u, C)" and
    last: "insert_cluster Q c (u, C) = Inr (t, B')"
    using snoc.prems by (auto simp: foldE_snoc bindE_Inr_iff)
  note IH = snoc.IH [OF one]
  from last have new: "c \<notin> set (map bk_old C)" "u \<notin> set (map bk_target C)" "t = u64 (u + 1)"
    "B' = C @ [\<lparr>bk_old = c, bk_target = u, bk_placed = False\<rparr>]"
    by (auto simp: insert_cluster_def insert_block_def bindE_Inr_iff split: if_splits)
  then have "keys_ok C \<Longrightarrow> keys_ok B'" by (simp add: keys_ok_def)
  moreover have "B' = B @ rows_at start (xs @ [c])" using IH new(4) by (simp add: rows_at_snoc)
  moreover have "t = u64 (start + length (xs @ [c]))" using IH new(3) u64_add_one [of "start + length xs"] by simp
  ultimately show ?case using IH by blast
qed

definition block_rows :: "NtfsPlacement list \<Rightarrow> NtfsStream \<Rightarrow> BlockRow list" where
  "block_rows placements s =
     (case find_placement placements (ns_record_number s) (ns_attribute_offset s) of
        None \<Rightarrow> []
      | Some p \<Rightarrow> rows_at (pm_start p) (stream_list s))"

definition moves :: "NtfsStream \<Rightarrow> bool" where
  "moves s \<longleftrightarrow> ns_movable s \<and> ns_clusters s \<noteq> 0"

definition planned_at :: "NtfsPlacement list \<Rightarrow> NtfsStream \<Rightarrow> NtfsPlacement \<Rightarrow> bool" where
  "planned_at placements s p \<longleftrightarrow>
     find_placement placements (ns_record_number s) (ns_attribute_offset s) = Some p \<and>
     u64 (pm_start p + length (stream_list s)) = u64 (pm_start p + pm_clusters p)"

definition rows_ok :: "NtfsPlacement list \<Rightarrow> NtfsStream list \<Rightarrow> PlanDb \<Rightarrow> bool" where
  "rows_ok placements streams db \<longleftrightarrow>
     pd_blocks db = concat (map (block_rows placements) streams) \<and> keys_ok (pd_blocks db) \<and>
     (\<forall>s \<in> set streams. \<exists>p. planned_at placements s p)"

lemma plan_stream_ok:
  assumes "plan_stream E Q v d placements s db = Inr db'" "rows_ok placements streams db"
    and "moves s \<Longrightarrow> runs_bounded s" "\<forall>p \<in> set placements. pm_start p \<le> UINT64_MAX"
  shows "rows_ok placements (streams @ (if moves s then [s] else [])) db'"
proof (cases "moves s")
  case False
  then show ?thesis using assms(1,2) by (auto simp: plan_stream_def moves_def)
next
  case True
  then obtain p t B where p: "find_placement placements (ns_record_number s) (ns_attribute_offset s) = Some p"
    and ins: "foldE (insert_run Q) (ns_runs s) (pm_start p, pd_blocks db) = Inr (t, B)"
    and t: "t = u64 (pm_start p + pm_clusters p)" and B: "pd_blocks db' = B"
    using assms(1) by (auto simp: plan_stream_def moves_def bindE_Inr_iff split: if_splits option.splits)
  have "p \<in> set placements" using p unfolding find_placement_def find_Some_iff by (metis nth_mem)
  then have start: "u64 (pm_start p) = pm_start p" using assms(4) by (intro u64_id) fastforce
  have "foldE (insert_run Q) (ns_runs s) (pm_start p, pd_blocks db) = foldE (insert_cluster Q) (stream_list s) (u64 (pm_start p), pd_blocks db)"
    using assms(3) [OF True] unfolding start stream_list_def runs_bounded_def by (rule insert_runs_list)
  then have r: "t = u64 (pm_start p + length (stream_list s)) \<and> B = pd_blocks db @ rows_at (pm_start p) (stream_list s) \<and>
      (keys_ok (pd_blocks db) \<longrightarrow> keys_ok B)"
    using ins by (intro insert_clusters_ok) simp
  then have "planned_at placements s p" using p t by (simp add: planned_at_def)
  then show ?thesis using True assms(2) r p B by (auto simp: rows_ok_def block_rows_def)
qed

lemma plan_fixed_blocks: "plan_fixed E Q v d growth s db = Inr db' \<Longrightarrow> pd_blocks db' = pd_blocks db"
  by (auto simp: plan_fixed_def bindE_Inr_iff split: if_splits)

lemma create_plan_ok:
  assumes "ntfs_create_plan_db E Q v d layout catalogue placements growth = Inr db"
    and "\<forall>s \<in> set (movable_streams catalogue). runs_bounded s" "\<forall>p \<in> set placements. pm_start p \<le> UINT64_MAX"
  shows "rows_ok placements (movable_streams catalogue) db"
proof -
  obtain db1 db2 where one: "foldE (plan_stream E Q v d placements) (nc_items catalogue) empty_db = Inr db1"
    and two: "foldE (plan_fixed E Q v d growth) (nc_items catalogue) db1 = Inr db2" and db: "pd_blocks db = pd_blocks db2"
    using assms(1) by (auto simp: ntfs_create_plan_db_def bindE_Inr_iff split: if_splits)
  have "rows_ok placements (filter moves (nc_items catalogue)) db1"
  proof (rule foldE_prefix_invariant [OF one, of "\<lambda>streams. rows_ok placements (filter moves streams)"])
    show "rows_ok placements (filter moves []) empty_db" by (simp add: rows_ok_def empty_db_def keys_ok_def)
    fix ys x zs a b
    assume "nc_items catalogue = ys @ x # zs" "rows_ok placements (filter moves ys) a" "plan_stream E Q v d placements x a = Inr b"
    with plan_stream_ok [OF this(3,2) _ assms(3)] assms(2)
    show "rows_ok placements (filter moves (ys @ [x])) b" by (auto simp: movable_streams_def moves_def)
  qed
  moreover have "pd_blocks db2 = pd_blocks db1"
    by (rule foldE_invariant [OF two]) (auto dest: plan_fixed_blocks)
  ultimately have eq: "pd_blocks db = pd_blocks db1" "rows_ok placements (movable_streams catalogue) db1"
    using db by (simp_all add: movable_streams_def moves_def [abs_def])
  show ?thesis using eq(2) unfolding rows_ok_def eq(1) .
qed

section \<open>The streams after the permutation\<close>

lemma read_at_clusters: "read_at (a * cs) (n * cs) d = concat (map (cluster_of cs d) [a..<a + n])"
proof (induction n)
  case (Suc n)
  have "read_at (a * cs) (n * cs + cs) d = read_at (a * cs) (n * cs) d @ read_at (a * cs + n * cs) cs d"
    unfolding read_at_def take_add drop_drop by (simp add: add.commute)
  moreover have "Suc n * cs = n * cs + cs" by simp
  ultimately show ?case using Suc by (simp add: cluster_of_def add_mult_distrib add.commute [of cs])
qed (simp add: read_at_def)

lemma stream_data_clusters: "stream_data d cs (ns_runs s) = concat (map (cluster_of cs d) (stream_list s))"
  proof -
  have "concat (map (run_data d cs) runs) = concat (map (cluster_of cs d) (concat (map run_list runs)))" for runs
    by (induction runs) (simp_all add: run_data_def run_list_def read_at_clusters)
  then show ?thesis by (simp add: stream_data_def stream_list_def)
qed

lemma set_stream_list: "list_all (run_inside n cs) (ns_runs s) \<Longrightarrow> set (stream_list s) = stream_clusters s"
  by (auto simp: stream_list_def run_list_def stream_clusters_def run_clusters_def run_inside_def list_all_iff)

lemma find_placement_Some:
  "find_placement P n a = Some p \<Longrightarrow> p \<in> set P \<and> pm_record_number p = n \<and> pm_attribute_offset p = a"
  unfolding find_placement_def find_Some_iff by (metis nth_mem)

lemma stream_inside:
  assumes "list_all (run_inside n cs) (ns_runs s)" "c \<in> set (stream_list s)"
  shows "cluster_inside cs n c"
proof -
  obtain r where r: "r \<in> set (ns_runs s)" "nr_lcn r \<le> c" "c < nr_lcn r + nr_length r"
    using assms(2) by (auto simp: stream_list_def run_list_def)
  then have "c * cs + cs \<le> (nr_lcn r + nr_length r) * cs"
    using mult_le_mono1 [of "Suc c" "nr_lcn r + nr_length r" cs] by simp
  with r(1) assms(1) show ?thesis by (auto simp: cluster_inside_def run_inside_def list_all_iff)
qed

lemma inside_bounded:
  assumes "list_all (run_inside n cs) (ns_runs s)" "0 < cs" "n \<le> SSIZE_MAX"
  shows "runs_bounded s"
  unfolding runs_bounded_def
proof
  fix r assume "r \<in> set (ns_runs s)"
  then have "(nr_lcn r + nr_length r) * cs \<le> n" using assms(1) by (auto simp: run_inside_def list_all_iff)
  moreover have "nr_lcn r + nr_length r \<le> (nr_lcn r + nr_length r) * cs" using assms(2) by (cases cs) simp_all
  ultimately have "nr_lcn r + nr_length r \<le> SSIZE_MAX" using assms(3) by linarith
  then show "nr_lcn r + nr_length r \<le> 18446744073709551616" by simp
qed

text \<open>A row of the plan: the \<open>i\<close>-th cluster of a stream goes to the \<open>i\<close>-th cluster of its placement.\<close>

lemma block_row:
  assumes "b \<in> set (concat (map (block_rows P) M))"
  shows "\<exists>s \<in> set M. \<exists>p \<in> set P. \<exists>i < length (stream_list s).
    find_placement P (ns_record_number s) (ns_attribute_offset s) = Some p \<and>
    b = \<lparr>bk_old = stream_list s ! i, bk_target = u64 (pm_start p + i), bk_placed = False\<rparr>"
proof -
  obtain s where s: "s \<in> set M" "b \<in> set (block_rows P s)" using assms by auto
  then obtain p where p: "find_placement P (ns_record_number s) (ns_attribute_offset s) = Some p"
    "b \<in> set (rows_at (pm_start p) (stream_list s))"
    unfolding block_rows_def by (cases "find_placement P (ns_record_number s) (ns_attribute_offset s)") auto
  then show ?thesis using s(1) find_placement_Some [OF p(1)] p(1) by (intro bexI [of _ s] bexI [of _ p]) (auto simp: rows_at_def)
qed

lemma row_in_plan:
  assumes "s \<in> set M" "find_placement P (ns_record_number s) (ns_attribute_offset s) = Some p" "i < length (stream_list s)"
  shows "\<lparr>bk_old = stream_list s ! i, bk_target = u64 (pm_start p + i), bk_placed = False\<rparr> \<in> set (concat (map (block_rows P) M))"
  using assms by (auto simp: block_rows_def rows_at_def intro!: bexI [of _ s])

lemma stream_list_distinct:
  assumes "keys_ok (concat (map (block_rows P) M))" "s \<in> set M"
    and "find_placement P (ns_record_number s) (ns_attribute_offset s) = Some p"
  shows "distinct (stream_list s)"
proof -
  obtain M1 M2 where "M = M1 @ s # M2" using assms(2) by (auto dest: split_list)
  then have "distinct (map bk_old (block_rows P s))" using assms(1) by (simp add: keys_ok_def)
  moreover have "map bk_old (block_rows P s) = stream_list s"
    by (rule nth_equalityI) (simp_all add: block_rows_def assms(3) rows_at_def)
  ultimately show ?thesis by simp
qed

text \<open>The sizes of a stream and its placement agree: the counter of the targets did not wrap.\<close>

lemma planned_size:
  assumes "planned_at P s p" "distinct (stream_list s)" "list_all (run_inside n cs) (ns_runs s)" "0 < cs" "n \<le> SSIZE_MAX"
    and "pm_start p + pm_clusters p \<le> n"
  shows "length (stream_list s) = pm_clusters p"
proof -
  have "set (stream_list s) \<subseteq> {..<n}"
  proof
    fix c assume "c \<in> set (stream_list s)"
    then have "c * cs + cs \<le> n" using stream_inside [OF assms(3)] by (simp add: cluster_inside_def)
    moreover have "c < c * cs + cs" using assms(4) by (cases cs) simp_all
    ultimately show "c \<in> {..<n}" by simp
  qed
  then have "length (stream_list s) \<le> n"
    using card_mono [of "{..<n}" "set (stream_list s)"] by (simp add: distinct_card [OF assms(2)])
  then have "u64 (pm_start p + length (stream_list s)) = pm_start p + length (stream_list s)"
    "u64 (pm_start p + pm_clusters p) = pm_start p + pm_clusters p"
    using assms(5,6) by (auto intro!: u64_id)
  then show ?thesis using assms(1) by (simp add: planned_at_def)
qed

text \<open>Where the rows of a plan that was created come from and lead to.\<close>

lemma plan_row:
  assumes "rows_ok P M db" "0 < cs" "n \<le> SSIZE_MAX"
    and streams: "\<forall>s \<in> set M. list_all (run_inside n cs) (ns_runs s)"
    and sizes: "\<forall>p \<in> set P. pm_start p + pm_clusters p \<le> n"
    and s: "s \<in> set M" "find_placement P (ns_record_number s) (ns_attribute_offset s) = Some p"
  shows "length (stream_list s) = pm_clusters p" "\<And>i. i < pm_clusters p \<Longrightarrow> u64 (pm_start p + i) = pm_start p + i"
proof -
  have B: "pd_blocks db = concat (map (block_rows P) M)" "keys_ok (pd_blocks db)" "\<forall>s \<in> set M. \<exists>p. planned_at P s p"
    using assms(1) unfolding rows_ok_def by blast+
  have p: "p \<in> set P" using find_placement_Some [OF s(2)] by simp
  show "length (stream_list s) = pm_clusters p"
  proof (rule planned_size [OF _ stream_list_distinct [OF B(2) [unfolded B(1)] s] _ assms(2,3)])
    show "planned_at P s p" using B(3) s by (auto simp: planned_at_def)
  qed (use s streams sizes p in auto)
  show "u64 (pm_start p + i) = pm_start p + i" if "i < pm_clusters p" for i
    using that sizes p assms(3) by (intro u64_id) fastforce
qed

lemma plan_ends:
  assumes "rows_ok P M db" "0 < cs" "n \<le> SSIZE_MAX" "\<forall>s \<in> set M. list_all (run_inside n cs) (ns_runs s)"
    and "\<forall>p \<in> set P. pm_start p + pm_clusters p \<le> n" "b \<in> set (pd_blocks db)"
  shows "\<exists>s \<in> set M. bk_old b \<in> set (stream_list s)" "\<exists>p \<in> set P. bk_target b \<in> data_clusters p" "\<not> bk_placed b"
proof -
  have "b \<in> set (concat (map (block_rows P) M))" using assms(1,6) by (simp add: rows_ok_def)
  then obtain s p i where sp: "s \<in> set M" "p \<in> set P" "i < length (stream_list s)"
    "find_placement P (ns_record_number s) (ns_attribute_offset s) = Some p"
    "b = \<lparr>bk_old = stream_list s ! i, bk_target = u64 (pm_start p + i), bk_placed = False\<rparr>"
    using block_row by blast
  note row = plan_row [OF assms(1-5) sp(1,4)]
  have i: "i < pm_clusters p" using sp(3) row(1) by simp
  have "bk_target b = pm_start p + i" using sp(5) row(2) [OF i] by simp
  then have "bk_target b \<in> data_clusters p" using i by (simp add: data_clusters_def)
  then show "\<exists>p \<in> set P. bk_target b \<in> data_clusters p" using sp(2) by blast
  have "bk_old b \<in> set (stream_list s)" using sp(3,5) by simp
  then show "\<exists>s \<in> set M. bk_old b \<in> set (stream_list s)" using sp(1) by blast
  show "\<not> bk_placed b" using sp(5) by simp
qed

lemma plan_inside_ok:
  assumes "rows_ok P M db" "0 < cs" "n \<le> SSIZE_MAX" "\<forall>s \<in> set M. list_all (run_inside n cs) (ns_runs s)"
    and "\<forall>p \<in> set P. pm_start p + pm_clusters p \<le> n" "\<forall>p \<in> set P. \<forall>c \<in> data_clusters p. cluster_inside cs n c"
  shows "plan_inside cs n (pd_blocks db)"
  unfolding plan_inside_def
proof (intro allI impI conjI)
  fix x y assume "goes (pd_blocks db) x y"
  then obtain b where b: "b \<in> set (pd_blocks db)" "bk_old b = x" "bk_target b = y" by (auto simp: goes_def)
  note ends = plan_ends [OF assms(1-5) b(1)]
  show "cluster_inside cs n y" using ends(2) b(3) assms(6) by blast
  show "cluster_inside cs n x" using ends(1) b(2) assms(4) stream_inside by blast
qed

text \<open>
  An image in which every row has gone to its target, and the clusters of the streams that
  nothing goes to are unchanged, holds every stream as a whole in its placement.
\<close>

lemma plan_streams_moved:
  assumes "rows_ok P M db" "0 < cs" "n \<le> SSIZE_MAX" "\<forall>s \<in> set M. list_all (run_inside n cs) (ns_runs s)"
    and "\<forall>p \<in> set P. pm_start p + pm_clusters p \<le> n"
    and moved: "\<And>x y. goes (pd_blocks db) x y \<Longrightarrow> cluster_of cs d' y = cluster_of cs d x"
    and kept: "\<And>s c. s \<in> set M \<Longrightarrow> c \<in> set (stream_list s) \<Longrightarrow> \<forall>x. \<not> goes (pd_blocks db) x c \<Longrightarrow> cluster_of cs d' c = cluster_of cs d c"
  shows "\<forall>s \<in> set M. \<exists>p \<in> set P. find_placement P (ns_record_number s) (ns_attribute_offset s) = Some p \<and>
      read_at (pm_start p * cs) (pm_clusters p * cs) d' = stream_data d cs (ns_runs s)"
proof
  let ?B = "pd_blocks db"
  have B: "?B = concat (map (block_rows P) M)" "keys_ok ?B" "\<forall>s \<in> set M. \<exists>p. planned_at P s p"
    using assms(1) unfolding rows_ok_def by blast+
  fix s assume sM: "s \<in> set M"
  then obtain p where f: "find_placement P (ns_record_number s) (ns_attribute_offset s) = Some p"
    using B(3) by (auto simp: planned_at_def)
  note row = plan_row [OF assms(1-5) sM f]
  have p: "p \<in> set P" using find_placement_Some [OF f] by simp
  have each: "cluster_of cs d' (pm_start p + i) = cluster_of cs d (stream_list s ! i)" if i: "i < pm_clusters p" for i
  proof -
    let ?x = "stream_list s ! i" and ?y = "pm_start p + i"
    have b: "\<lparr>bk_old = ?x, bk_target = ?y, bk_placed = False\<rparr> \<in> set ?B"
      using row_in_plan [OF sM f, of i] i unfolding row(1) row(2) [OF i] B(1) by blast
    show ?thesis
    proof (cases "?x = ?y")
      case False
      then have "goes ?B ?x ?y" unfolding goes_def using b by force
      then show ?thesis by (rule moved)
    next
      case True
      have "\<not> goes ?B z ?y" for z
      proof
        assume "goes ?B z ?y"
        then obtain c where c: "c \<in> set ?B" "bk_old c = z" "bk_target c = ?y" "z \<noteq> ?y" by (auto simp: goes_def)
        then have "c = \<lparr>bk_old = ?x, bk_target = ?y, bk_placed = False\<rparr>"
          using B(2) b unfolding keys_ok_def distinct_map inj_on_def by (metis BlockRow.select_convs(2))
        then show False using c(2,4) True by simp
      qed
      moreover have "?y \<in> set (stream_list s)" using True i row(1) nth_mem [of i "stream_list s"] by simp
      ultimately show ?thesis using kept [OF sM] True by simp
    qed
  qed
  have "map (cluster_of cs d') [pm_start p..<pm_start p + pm_clusters p] = map (cluster_of cs d) (stream_list s)"
    by (rule nth_equalityI) (simp_all add: row(1) each)
  then have "read_at (pm_start p * cs) (pm_clusters p * cs) d' = stream_data d cs (ns_runs s)"
    unfolding read_at_clusters stream_data_clusters by simp
  then show "\<exists>p \<in> set P. find_placement P (ns_record_number s) (ns_attribute_offset s) = Some p \<and>
      read_at (pm_start p * cs) (pm_clusters p * cs) d' = stream_data d cs (ns_runs s)" using p f by blast
qed

text \<open>The permutation of a plan that was created moves every stream as a whole.\<close>

lemma permute_plan_ok:
  assumes "rows_ok P M db" "io_reliable E" "sql_works Q" "w_stop w = None" "length (w_disk w) \<le> SSIZE_MAX" "0 < cs"
    and streams: "\<forall>s \<in> set M. list_all (run_inside (length (w_disk w)) cs) (ns_runs s)"
    and extents: "\<forall>p \<in> set P. \<forall>c \<in> data_clusters p. cluster_inside cs (length (w_disk w)) c"
    and sizes: "\<forall>p \<in> set P. pm_start p + pm_clusters p \<le> length (w_disk w)"
  shows "\<exists>db' w'. ntfs_permute_stage E Q True cs (ntfs_plan_move_count db) db w = (Inr db', w') \<and>
    length (w_disk w') = length (w_disk w) \<and>
    (\<forall>s \<in> set M. \<exists>p \<in> set P. find_placement P (ns_record_number s) (ns_attribute_offset s) = Some p \<and>
      read_at (pm_start p * cs) (pm_clusters p * cs) (w_disk w') = stream_data (w_disk w) cs (ns_runs s)) \<and>
    (\<forall>c. cluster_inside cs (length (w_disk w)) c \<longrightarrow> (\<forall>p \<in> set P. c \<notin> data_clusters p) \<longrightarrow>
      cluster_of cs (w_disk w') c = cluster_of cs (w_disk w) c)"
proof -
  let ?n = "length (w_disk w)" and ?B = "pd_blocks db"
  note plan = assms(1,6,5) streams sizes
  have keys: "keys_ok ?B" using assms(1) unfolding rows_ok_def by blast
  obtain db' w' where run: "ntfs_permute_stage E Q True cs (ntfs_plan_move_count db) db w = (Inr db', w')"
    and len: "length (w_disk w') = ?n"
    and moved: "\<And>x y. goes ?B x y \<Longrightarrow> cluster_of cs (w_disk w') y = cluster_of cs (w_disk w) x"
    and kept: "\<And>c. cluster_inside cs ?n c \<Longrightarrow> \<forall>x. \<not> goes ?B x c \<Longrightarrow> cluster_of cs (w_disk w') c = cluster_of cs (w_disk w) c"
    using permute_stage_ok [OF assms(2-5) keys plan_inside_ok [OF plan extents] _ refl] plan_ends(3) [OF plan] by blast
  have all: "\<forall>s \<in> set M. \<exists>p \<in> set P. find_placement P (ns_record_number s) (ns_attribute_offset s) = Some p \<and>
      read_at (pm_start p * cs) (pm_clusters p * cs) (w_disk w') = stream_data (w_disk w) cs (ns_runs s)"
    using plan_streams_moved [OF plan moved] kept streams stream_inside by blast
  have "\<exists>p \<in> set P. y \<in> data_clusters p" if "goes ?B x y" for x y
    using that plan_ends(2) [OF plan] by (auto simp: goes_def)
  then have "\<forall>c. cluster_inside cs ?n c \<longrightarrow> (\<forall>p \<in> set P. c \<notin> data_clusters p) \<longrightarrow>
      cluster_of cs (w_disk w') c = cluster_of cs (w_disk w) c"
    using kept by blast
  with run len all show ?thesis by blast
qed

text \<open>What the planner and the plan database guarantee together.\<close>

lemma plan_clusters_nonzero:
  assumes "\<exists>its. mset (map pi_stream its) = mset (movable_streams catalogue) \<and> places its P \<and> R its" "p \<in> set P"
  shows "pm_clusters p \<noteq> 0"
proof -
  obtain its where its: "mset (map pi_stream its) = mset (movable_streams catalogue)" "places its P" using assms(1) by blast
  obtain i where i: "i \<in> set its" "p = placement_of i (pm_start p)"
    using its(2) assms(2) unfolding places_def list_all2_conv_all_nth by (metis in_set_conv_nth)
  have "pi_stream i \<in> set (movable_streams catalogue)" using mset_eq_setD [OF its(1)] i(1) by auto
  moreover have "pm_clusters p = ns_clusters (pi_stream i)" by (subst i(2)) (simp add: placement_of_def)
  ultimately show ?thesis by (simp add: movable_streams_def)
qed

lemma clusters_inside: "clusters * cs \<le> n \<Longrightarrow> c < clusters \<Longrightarrow> cluster_inside cs n c"
proof -
  assume "clusters * cs \<le> n" "c < clusters"
  then have "Suc c * cs \<le> n" by (meson Suc_leI le_trans mult_le_mono1)
  then show ?thesis by (simp add: cluster_inside_def)
qed

lemma planned_db_ok:
  assumes "ntfs_plan_layout E layout catalogue clusters growth = Inr (final, vec)" "checked_ok E" "checked64_ok E"
    and "bits_ok layout" "sizes_ok (movable_streams catalogue)" "length (nc_items catalogue) \<le> 2147483648"
    and "ntfs_create_plan_db E Q v d final catalogue (pv_items vec) growth = Inr db"
    and "0 < cs" "n \<le> SSIZE_MAX" "clusters * cs \<le> n"
    and "\<forall>s \<in> set (movable_streams catalogue). list_all (run_inside n cs) (ns_runs s)"
  shows "rows_ok (pv_items vec) (movable_streams catalogue) db"
    and "\<forall>p \<in> set (pv_items vec). pm_start p + pm_clusters p < clusters"
    and "\<forall>p \<in> set (pv_items vec). pm_start p + pm_clusters p \<le> n"
    and "\<forall>p \<in> set (pv_items vec). \<forall>c \<in> data_clusters p. c < bits layout \<and> ntfs_bitmap_bit final c \<and>
      (ntfs_bitmap_bit layout c \<longrightarrow> c \<in> \<Union> (stream_clusters ` set (movable_streams catalogue)))"
proof -
  have bounded: "\<forall>s \<in> set (movable_streams catalogue). runs_bounded s" using inside_bounded [OF _ assms(8,9)] assms(11) by blast
  note P = plan_layout_ok [OF assms(1-5) bounded assms(6)]
  have within: "pm_start p + pm_clusters p < clusters" if p: "p \<in> set (pv_items vec)" for p
  proof -
    have sized: "pm_clusters p \<noteq> 0" by (rule plan_clusters_nonzero [OF P(1) p])
    then have "pm_start p + pm_clusters p - 1 \<in> extent p" by (auto simp: extent_def)
    then have "pm_start p + pm_clusters p - 1 \<in> {1..<clusters - 1}" using P(3) p by blast
    then show ?thesis using sized by auto
  qed
  then show "\<forall>p \<in> set (pv_items vec). pm_start p + pm_clusters p < clusters" by blast
  have "clusters \<le> clusters * cs" using assms(8) by (cases cs) simp_all
  then have n: "clusters \<le> n" using assms(10) by linarith
  show "\<forall>p \<in> set (pv_items vec). pm_start p + pm_clusters p \<le> n" using within n by fastforce
  have "\<forall>p \<in> set (pv_items vec). pm_start p \<le> UINT64_MAX" using within n assms(9) by fastforce
  from create_plan_ok [OF assms(7) bounded this]
  show "rows_ok (pv_items vec) (movable_streams catalogue) db" .
  show "\<forall>p \<in> set (pv_items vec). \<forall>c \<in> data_clusters p. c < bits layout \<and> ntfs_bitmap_bit final c \<and>
      (ntfs_bitmap_bit layout c \<longrightarrow> c \<in> \<Union> (stream_clusters ` set (movable_streams catalogue)))"
  proof (intro ballI)
    fix p c assume p: "p \<in> set (pv_items vec)" and c: "c \<in> data_clusters p"
    have "c \<in> extent p" using c by (auto simp: data_clusters_def extent_def)
    then have free: "c < bits layout \<and> (\<not> ntfs_bitmap_bit layout c \<or> c \<in> \<Union> (stream_clusters ` set (movable_streams catalogue)))"
      using P(3) p by blast
    moreover have "ntfs_bitmap_bit final c" using P(4) p c free by blast
    ultimately show "c < bits layout \<and> ntfs_bitmap_bit final c \<and>
      (ntfs_bitmap_bit layout c \<longrightarrow> c \<in> \<Union> (stream_clusters ` set (movable_streams catalogue)))" by blast
  qed
qed

end
