(* ===== verification/NtfsJournal.thy ===== *)
theory NtfsJournal
  imports NtfsStage HostFiles
begin

text \<open>
  The journal of \<open>ntfs_worker.c\<close> and the identity of a target: what is written, read back
  and compared before the source is changed.
\<close>

abbreviation NTFS_JOURNAL_MAGIC :: string where "NTFS_JOURNAL_MAGIC \<equiv> ''LINUX-DEFRAGGER-NTFS-JOURNAL-1''"

section \<open>The journal\<close>

text \<open>\<open>None\<close> is a null pointer.\<close>

record NtfsJournal =
  nj_device :: "string option"
  nj_target_identity :: "string option"
  nj_serial :: string
  nj_operation :: string
  nj_phase :: string
  nj_stage :: "string option"
  nj_plan :: "string option"
  nj_physical_bytes :: nat
  nj_filesystem_bytes :: nat
  nj_commit_cluster :: nat
  nj_move_clusters :: nat
  nj_workspace_start :: nat
  nj_workspace_clusters :: nat

definition blank_journal :: NtfsJournal where
  "blank_journal =
     \<lparr>nj_device = None, nj_target_identity = None, nj_serial = [], nj_operation = [], nj_phase = [], nj_stage = None,
      nj_plan = None, nj_physical_bytes = 0, nj_filesystem_bytes = 0, nj_commit_cluster = 0, nj_move_clusters = 0,
      nj_workspace_start = 0, nj_workspace_clusters = 0\<rparr>"

definition safe_journal_value :: "string option \<Rightarrow> bool" where
  "safe_journal_value value \<longleftrightarrow>
     (case value of None \<Rightarrow> False | Some v \<Rightarrow> CHR 0x0A \<notin> set v \<and> CHR 0x0D \<notin> set v \<and> CHR ''='' \<notin> set v)"

definition or_null :: "string option \<Rightarrow> string" where
  "or_null value = (case value of None \<Rightarrow> ''(null)'' | Some v \<Rightarrow> v)"

definition journal_write_stream :: "NtfsJournal \<Rightarrow> string" where
  "journal_write_stream j =
     NTFS_JOURNAL_MAGIC @ [NL] @
     field_line ''device'' (or_null (nj_device j)) @
     field_line ''target_identity'' (or_null (nj_target_identity j)) @
     field_line ''serial'' (nj_serial j) @
     field_line ''operation'' (nj_operation j) @
     field_line ''phase'' (nj_phase j) @
     field_line ''stage'' (or_null (nj_stage j)) @
     field_line ''plan'' (or_null (nj_plan j)) @
     field_line ''physical_bytes'' (dec (nj_physical_bytes j)) @
     field_line ''filesystem_bytes'' (dec (nj_filesystem_bytes j)) @
     field_line ''commit_cluster'' (dec (nj_commit_cluster j)) @
     field_line ''move_clusters'' (dec (nj_move_clusters j)) @
     field_line ''workspace_start'' (dec (nj_workspace_start j)) @
     field_line ''workspace_clusters'' (dec (nj_workspace_clusters j))"

definition ensure_directory_tree :: "env \<Rightarrow> string \<Rightarrow> unit res" where
  "ensure_directory_tree E path =
     (if ld_path_ensure_trusted_directory_tree E path then Inr ()
      else Inl (Fail (''cannot create NTFS journal directory '' @ path)))"

definition journal_save :: "env \<Rightarrow> string \<Rightarrow> NtfsJournal \<Rightarrow> unit io" where
  "journal_save E path j =
     (if \<not> safe_journal_value (nj_device j) \<or> \<not> safe_journal_value (nj_target_identity j) \<or>
         \<not> safe_journal_value (nj_stage j) \<or> \<not> safe_journal_value (nj_plan j)
      then dieI (Fail ''NTFS transaction paths contain unsupported journal characters'')
      else
        case ensure_directory_tree E (ld_path_parent_directory path) of
          Inl e \<Rightarrow> dieI e
        | Inr _ \<Rightarrow>
            (\<lambda>w. case atomic_file_write E path (journal_write_stream j) '''' w of
               (Inl _, w') \<Rightarrow> (Inl (Fail ''cannot publish NTFS journal''), w')
             | (Inr _, w') \<Rightarrow> (Inr (), w')))"

definition value_copy :: "string \<Rightarrow> string" where
  "value_copy v = rev (dropWhile (\<lambda>c. c = CHR 0x0A \<or> c = CHR 0x0D) (rev v))"

abbreviation malformed_journal :: fault where
  "malformed_journal \<equiv> Fail ''NTFS recovery journal is malformed or incomplete''"

definition journal_number :: "env \<Rightarrow> string \<Rightarrow> nat res" where
  "journal_number E v = (case parse_u64 E v 10 of None \<Rightarrow> Inl malformed_journal | Some n \<Rightarrow> Inr n)"

text \<open>A key that is not known is passed over.\<close>

definition ntfs_journal_line :: "env \<Rightarrow> string \<Rightarrow> NtfsJournal \<Rightarrow> NtfsJournal res" where
  "ntfs_journal_line E line j =
     (case config_parse_line E line of
        None \<Rightarrow> Inl malformed_journal
      | Some (key, v) \<Rightarrow>
          if key = ''device'' then Inr (j\<lparr>nj_device := Some (value_copy v)\<rparr>)
          else if key = ''target_identity'' then Inr (j\<lparr>nj_target_identity := Some (value_copy v)\<rparr>)
          else if key = ''serial'' then Inr (j\<lparr>nj_serial := copy_string E 17 v\<rparr>)
          else if key = ''operation'' then Inr (j\<lparr>nj_operation := copy_string E 24 v\<rparr>)
          else if key = ''phase'' then Inr (j\<lparr>nj_phase := copy_string E 32 v\<rparr>)
          else if key = ''stage'' then Inr (j\<lparr>nj_stage := Some (value_copy v)\<rparr>)
          else if key = ''plan'' then Inr (j\<lparr>nj_plan := Some (value_copy v)\<rparr>)
          else if key = ''physical_bytes'' then bindE (journal_number E v) (\<lambda>n. Inr (j\<lparr>nj_physical_bytes := n\<rparr>))
          else if key = ''filesystem_bytes'' then bindE (journal_number E v) (\<lambda>n. Inr (j\<lparr>nj_filesystem_bytes := n\<rparr>))
          else if key = ''commit_cluster'' then bindE (journal_number E v) (\<lambda>n. Inr (j\<lparr>nj_commit_cluster := n\<rparr>))
          else if key = ''move_clusters'' then bindE (journal_number E v) (\<lambda>n. Inr (j\<lparr>nj_move_clusters := n\<rparr>))
          else if key = ''workspace_start'' then bindE (journal_number E v) (\<lambda>n. Inr (j\<lparr>nj_workspace_start := n\<rparr>))
          else if key = ''workspace_clusters'' then bindE (journal_number E v) (\<lambda>n. Inr (j\<lparr>nj_workspace_clusters := n\<rparr>))
          else Inr j)"

definition journal_complete :: "NtfsJournal \<Rightarrow> bool" where
  "journal_complete j \<longleftrightarrow>
     \<not> (nj_device j = None \<or> nj_target_identity j = None \<or> nj_stage j = None \<or> nj_plan j = None \<or>
        nj_serial j = [] \<or> nj_operation j = [] \<or> nj_phase j = [] \<or>
        nj_physical_bytes j = 0 \<or> nj_filesystem_bytes j = 0)"

definition parse_ntfs_journal :: "env \<Rightarrow> string \<Rightarrow> NtfsJournal res" where
  "parse_ntfs_journal E text =
     (case file_lines text of
        [] \<Rightarrow> Inl malformed_journal
      | line # lines \<Rightarrow>
          if trim_line_end E line \<noteq> NTFS_JOURNAL_MAGIC then Inl malformed_journal
          else
            bindE (foldE (ntfs_journal_line E) lines blank_journal) (\<lambda>j.
            if journal_complete j then Inr j else Inl malformed_journal))"

definition journal_load :: "env \<Rightarrow> string \<Rightarrow> NtfsJournal io" where
  "journal_load E path w =
     (case w_files w path of
        None \<Rightarrow> (Inl (Fail ''cannot open NTFS recovery journal''), w)
      | Some text \<Rightarrow> (parse_ntfs_journal E text, w))"

text \<open>The new phase is in the state even when it could not be saved.\<close>

definition journal_phase :: "env \<Rightarrow> string \<Rightarrow> string \<Rightarrow> NtfsJournal \<Rightarrow> NtfsJournal io" where
  "journal_phase E path phase j =
     (let j = j\<lparr>nj_phase := copy_string E 32 phase\<rparr> in thenI (journal_save E path j) (retI j))"

section \<open>The identity of the target\<close>

definition serial_hex :: "bytes \<Rightarrow> string" where
  "serial_hex serial =
     concat (map (\<lambda>b. [digit (drop_bit 4 (unat b)), digit (unat b AND 15)]) (take 8 serial))"

definition same_serial :: "NtfsVolume \<Rightarrow> string \<Rightarrow> bool" where
  "same_serial v serial \<longleftrightarrow> serial_hex (nv_serial v) = serial"

text \<open>\<open>status\<close> and \<open>file_size\<close>: what \<open>stat\<close> says; \<open>a\<close>: the open that tells the size of a device.\<close>

definition target_identity :: "Status option \<Rightarrow> nat \<Rightarrow> OpenAnswers \<Rightarrow> (string \<times> nat) res" where
  "target_identity status file_size a =
     (case status of
        None \<Rightarrow> Inl (Fail ''cannot stat NTFS target'')
      | Some st \<Rightarrow>
          let block = (stat_kind st = BlockDevice);
              identity = identity_text block (stat_rdev st) (stat_dev st) (stat_ino st) in
          if \<not> block \<and> stat_kind st \<noteq> RegularFile
          then Inl (Fail ''NTFS target is not a block device or regular image'')
          else if block then
            bindE (ld_device_open a False) (\<lambda>target.
            if dev_size_bytes target = 0 then Inl (Fail ''cannot read NTFS block-device size'')
            else Inr (identity, dev_size_bytes target))
          else Inr (identity, file_size))"

end
