(* ===== verification/NtfsWorker.thy ===== *)
theory NtfsWorker
  imports NtfsJournal
begin

text \<open>
  \<open>ntfs_worker.c\<close>: the transactions around the stage. The state is the target with its
  journal, the working image and the plan database; each of the last two may be missing.
  What the system answers when a path is opened or asked about is a parameter that may be
  different at every moment, counted in durable effects on the target. What is printed is not
  modelled except for the result event. Where the code jumps to the release of its
  resources the model just returns.
\<close>

abbreviation JOURNAL_CLUSTER_INTERVAL :: nat where "JOURNAL_CLUSTER_INTERVAL \<equiv> 16384"

section \<open>The state of the worker\<close>

record NtfsHost =
  nh_world :: world
  nh_stage :: "world option" \<comment> \<open>the working image and the effects on it\<close>
  nh_plan :: "PlanDb option"

type_synonym 'a nio = "NtfsHost \<Rightarrow> 'a res \<times> NtfsHost"

record Answers =
  an_mounted :: "bool res"
  an_realpath :: "string option"
  an_status :: "Status option"
  an_file_size :: nat
  an_open :: OpenAnswers
  an_target :: Target
  an_access :: Access
  an_available :: "nat option" \<comment> \<open>bytes free next to the journal\<close>
  an_source_open :: bool \<comment> \<open>the source of a clone\<close>
  an_stage_create :: bool
  an_stage_resize :: bool
  an_stage_probe :: NtfsProbe
  an_stage_open :: bool \<comment> \<open>the image of a permutation\<close>
  an_stage_regular :: bool
  an_plan_open :: bool

definition retN :: "'a \<Rightarrow> 'a nio" where
  "retN x h = (Inr x, h)"

definition dieN :: "fault \<Rightarrow> 'a nio" where
  "dieN e h = (Inl e, h)"

definition liftN :: "'a res \<Rightarrow> 'a nio" where
  "liftN r h = (r, h)"

definition bindN :: "'a nio \<Rightarrow> ('a \<Rightarrow> 'b nio) \<Rightarrow> 'b nio" where
  "bindN m f h = (case m h of (Inl e, h') \<Rightarrow> (Inl e, h') | (Inr x, h') \<Rightarrow> f x h')"

definition thenN :: "unit nio \<Rightarrow> 'b nio \<Rightarrow> 'b nio" where
  "thenN m n = bindN m (\<lambda>_. n)"

text \<open>A call whose \<open>-1\<close> the caller handles; a death of the process is not handled.\<close>

definition tryN :: "'a nio \<Rightarrow> (string + 'a) nio" where
  "tryN m h =
     (case m h of
        (Inr x, h') \<Rightarrow> (Inr (Inr x), h')
      | (Inl (Fail message), h') \<Rightarrow> (Inr (Inl message), h')
      | (Inl e, h') \<Rightarrow> (Inl e, h'))"

definition catchN :: "'a nio \<Rightarrow> (string \<Rightarrow> 'a nio) \<Rightarrow> 'a nio" where
  "catchN m f = bindN (tryN m) (\<lambda>r. case r of Inl message \<Rightarrow> f message | Inr x \<Rightarrow> retN x)"

definition on_source :: "'a io \<Rightarrow> 'a nio" where
  "on_source f h = (case f (nh_world h) of (r, w) \<Rightarrow> (r, h\<lparr>nh_world := w\<rparr>))"

text \<open>Work on the image; the stop flag is the one of the process.\<close>

definition on_stage :: "string \<Rightarrow> 'a io \<Rightarrow> 'a nio" where
  "on_stage message f h =
     (case nh_stage h of
        None \<Rightarrow> (Inl (Fail message), h)
      | Some s \<Rightarrow>
          (case f (s\<lparr>w_stop := w_stop (nh_world h)\<rparr>) of
             (r, s) \<Rightarrow> (r, h\<lparr>nh_stage := Some s, nh_world := (nh_world h)\<lparr>w_stop := w_stop s\<rparr>\<rparr>)))"

definition askN :: "(nat \<Rightarrow> Answers) \<Rightarrow> (Answers \<Rightarrow> 'a) \<Rightarrow> 'a nio" where
  "askN A f h = (Inr (f (A (length (w_trace (nh_world h))))), h)"

definition getN :: "(NtfsHost \<Rightarrow> 'a) \<Rightarrow> 'a nio" where
  "getN f h = (Inr (f h), h)"

definition put_plan :: "PlanDb option \<Rightarrow> unit nio" where
  "put_plan db h = (Inr (), h\<lparr>nh_plan := db\<rparr>)"

definition put_stage :: "world option \<Rightarrow> unit nio" where
  "put_stage s h = (Inr (), h\<lparr>nh_stage := s\<rparr>)"

fun foldN :: "('a \<Rightarrow> 's \<Rightarrow> 's nio) \<Rightarrow> 'a list \<Rightarrow> 's \<Rightarrow> 's nio" where
  "foldN f [] s = retN s"
| "foldN f (x # xs) s = bindN (f x s) (foldN f xs)"

definition stopN :: "bool nio" where
  "stopN = on_source ld_stop_requested"

section \<open>Removing the files of a transaction\<close>

text \<open>A file that cannot be removed is only a warning.\<close>

definition unlink_if_exists :: "env \<Rightarrow> string option \<Rightarrow> (NtfsHost \<Rightarrow> NtfsHost) \<Rightarrow> unit nio" where
  "unlink_if_exists E path forget h =
     (case path of
        None \<Rightarrow> (Inr (), h)
      | Some p \<Rightarrow>
          let w = nh_world h in
          if p = [] \<or> \<not> unlink_ok E (length (w_trace w)) then (Inr (), h)
          else (Inr (), forget (h\<lparr>nh_world := w\<lparr>w_files := (w_files w)(p := None),
                  w_trace := w_trace w @ [EvUnlink p]\<rparr>\<rparr>)))"

definition forget_stage :: "NtfsHost \<Rightarrow> NtfsHost" where
  "forget_stage h = h\<lparr>nh_stage := None\<rparr>"

definition forget_plan :: "NtfsHost \<Rightarrow> NtfsHost" where
  "forget_plan h = h\<lparr>nh_plan := None\<rparr>"

definition transaction_cleanup :: "env \<Rightarrow> string \<Rightarrow> NtfsJournal \<Rightarrow> unit nio" where
  "transaction_cleanup E journal_path j =
     thenN (unlink_if_exists E (nj_stage j) forget_stage)
    (thenN (unlink_if_exists E (nj_plan j) forget_plan)
    (thenN (case nj_plan j of
              None \<Rightarrow> retN ()
            | Some plan \<Rightarrow>
                bindN (liftN (ld_path_append_suffix E plan ''-wal'')) (\<lambda>wal.
                bindN (liftN (ld_path_append_suffix E plan ''-shm'')) (\<lambda>shm.
                thenN (unlink_if_exists E (Some wal) id) (unlink_if_exists E (Some shm) id))))
       (unlink_if_exists E (Some journal_path) id)))"

section \<open>The target\<close>

definition open_source :: "env \<Rightarrow> (nat \<Rightarrow> Answers) \<Rightarrow> bool \<Rightarrow> NtfsVolume nio" where
  "open_source E A writable =
     bindN (askN A an_target) (\<lambda>t.
     on_source (readI (\<lambda>d. ntfs_open_volume E (tg_probe t) d writable)))"

definition identify_target :: "(nat \<Rightarrow> Answers) \<Rightarrow> (string \<times> nat) nio" where
  "identify_target A = bindN (askN A (\<lambda>a. target_identity (an_status a) (an_file_size a) (an_open a))) liftN"

definition canonical_path :: "(nat \<Rightarrow> Answers) \<Rightarrow> string nio" where
  "canonical_path A =
     bindN (askN A an_realpath) (\<lambda>resolved.
     case resolved of None \<Rightarrow> dieN (Fail ''cannot resolve NTFS target'') | Some path \<Rightarrow> retN path)"

definition check_unchanged_target :: "env \<Rightarrow> (nat \<Rightarrow> Answers) \<Rightarrow> NtfsJournal \<Rightarrow> unit nio" where
  "check_unchanged_target E A j =
     bindN (identify_target A) (\<lambda>(identity, physical).
     if Some identity \<noteq> nj_target_identity j \<or> physical \<noteq> nj_physical_bytes j
     then dieN (Fail ''NTFS target identity or capacity changed before source commit'')
     else
       bindN (open_source E A False) (\<lambda>v.
       if \<not> same_serial v (nj_serial j) \<or> nv_volume_bytes v \<noteq> nj_filesystem_bytes j
       then dieN (Fail ''NTFS serial or filesystem capacity changed before source commit'')
       else retN ()))"

definition identity_of :: "NtfsJournal \<Rightarrow> (string \<times> nat) option" where
  "identity_of j = map_option (\<lambda>identity. (identity, nj_physical_bytes j)) (nj_target_identity j)"

definition set_source_dirty :: "env \<Rightarrow> (nat \<Rightarrow> Answers) \<Rightarrow> NtfsJournal \<Rightarrow> bool \<Rightarrow> unit nio" where
  "set_source_dirty E A j dirty =
     bindN (open_source E A True) (\<lambda>v.
     bindN (askN A an_target) (\<lambda>t.
     if identity_of j = None \<or> \<not> descriptor_matches t (identity_of j)
     then dieN (Fail ''NTFS dirty-state descriptor does not match the journaled target'')
     else
       bindN (on_source (readI (\<lambda>d. ntfs_read_layout E v d (if dirty then False else True)))) (\<lambda>layout.
       on_source (ntfs_set_volume_dirty E v layout dirty))))"

section \<open>The working image\<close>

definition capacity_preflight :: "env \<Rightarrow> (nat \<Rightarrow> Answers) \<Rightarrow> NtfsVolume \<Rightarrow> NtfsLayout \<Rightarrow> unit nio" where
  "capacity_preflight E A v layout =
     bindN (askN A an_available) (\<lambda>answer.
     case answer of
       None \<Rightarrow> dieN (Fail ''cannot inspect NTFS staging capacity'')
     | Some available \<Rightarrow>
         let used = length (filter (ntfs_bitmap_bit layout) [0..<nv_total_clusters v]);
             stage_bytes = u64_multiply_saturating E used (nv_cluster_size v);
             plan_bytes = u64_add_saturating E (u64_multiply_saturating E used 80) (64 * 1024 * 1024);
             required = u64_add_saturating E stage_bytes plan_bytes;
             required = u64_add_saturating E required (required div 20) in
         if available < required
         then dieN (Fail (''NTFS safe staging has only '' @ dec (available div (1024 * 1024)) @
                ''' MB available; approximately '' @ dec (required div (1024 * 1024)) @ '' MB is required''))
         else retN ())"

text \<open>Clusters in use, and the first and last one.\<close>

definition needed :: "NtfsLayout \<Rightarrow> nat \<Rightarrow> nat \<Rightarrow> bool" where
  "needed layout n c \<longleftrightarrow> ntfs_bitmap_bit layout c \<or> c = 0 \<or> c + 1 = n"

definition clone_cluster :: "env \<Rightarrow> nat \<Rightarrow> nat \<Rightarrow> unit nio" where
  "clone_cluster E cluster_size c =
     bindN (on_source (readI (\<lambda>d. read_cluster E cluster_size ''short read cloning NTFS working image'' d c))) (\<lambda>bs.
     on_stage ''cannot create NTFS working image''
       (write_cluster E cluster_size ''short write cloning NTFS working image'' bs c))"

text \<open>\<open>False\<close>: a stop request was seen after a multiple of 8192 clusters.\<close>

fun clone_clusters :: "env \<Rightarrow> nat \<Rightarrow> nat list \<Rightarrow> nat \<Rightarrow> bool nio" where
  "clone_clusters E cluster_size [] copied = retN True"
| "clone_clusters E cluster_size (c # clusters) copied =
     thenN (clone_cluster E cluster_size c)
    (bindN (if (copied + 1) mod 8192 = 0 then stopN else retN False) (\<lambda>stop.
     if stop then retN False else clone_clusters E cluster_size clusters (copied + 1)))"

definition empty_image :: "nat \<Rightarrow> world" where
  "empty_image n = \<lparr>w_disk = replicate n 0, w_files = Map.empty, w_stop = None, w_trace = []\<rparr>"

definition create_stage :: "env \<Rightarrow> (nat \<Rightarrow> Answers) \<Rightarrow> string option \<Rightarrow> NtfsVolume \<Rightarrow> NtfsLayout \<Rightarrow> bool nio" where
  "create_stage E A stage_path v layout =
     bindN (askN A id) (\<lambda>a.
     if \<not> an_source_open a then dieN (Fail ''cannot open NTFS source for staging'')
     else bindN (getN nh_stage) (\<lambda>existing.
     if existing \<noteq> None \<or> \<not> an_stage_create a then dieN (Fail ''cannot create NTFS working image'')
     else
       thenN (put_stage (Some (empty_image (nv_volume_bytes v))))
      (bindN (catchN
         (if \<not> an_stage_resize a then dieN (Fail ''cannot size NTFS working image'')
          else
            bindN (clone_clusters E (nv_cluster_size v)
              (filter (needed layout (nv_total_clusters v)) [0..<nv_total_clusters v]) 0) (\<lambda>finished.
            if \<not> finished then retN False
            else thenN (on_stage ''cannot sync NTFS working image'' (sync_or E ''cannot sync NTFS working image''))
              (retN True)))
         (\<lambda>message. thenN (unlink_if_exists E stage_path forget_stage) (dieN (Fail message)))) (\<lambda>finished.
       if finished then retN True
       else thenN (unlink_if_exists E stage_path forget_stage) (retN False)))))"

section \<open>The commit of the image\<close>

definition commit_cluster ::
  "env \<Rightarrow> string \<Rightarrow> nat \<Rightarrow> nat \<Rightarrow> NtfsJournal \<times> nat \<Rightarrow> (NtfsJournal \<times> nat) nio" where
  "commit_cluster E journal_path cluster_size c = (\<lambda>(j, copied).
     bindN (on_stage ''short read from verified NTFS working image''
       (readI (\<lambda>d. read_cluster E cluster_size ''short read from verified NTFS working image'' d c))) (\<lambda>bs.
     thenN (on_source (write_cluster E cluster_size ''short write during NTFS source commit'' bs c))
    (let j = j\<lparr>nj_commit_cluster := c + 1\<rparr>; copied = copied + 1 in
     if copied mod JOURNAL_CLUSTER_INTERVAL = 0 then
       thenN (on_source (sync_or E ''syncing NTFS source commit failed''))
      (thenN (on_source (journal_save E journal_path j)) (retN (j, copied)))
     else retN (j, copied))))"

definition commit_stage ::
  "env \<Rightarrow> (nat \<Rightarrow> Answers) \<Rightarrow> string \<Rightarrow> nat \<Rightarrow> NtfsJournal \<Rightarrow> NtfsJournal nio" where
  "commit_stage E A journal_path resume_cluster j =
     bindN (askN A id) (\<lambda>a.
     bindN (on_stage ''cannot resolve NTFS target'' (readI (\<lambda>d. ntfs_open_volume E (an_stage_probe a) d False))) (\<lambda>v.
     bindN (on_stage ''cannot resolve NTFS target'' (readI (\<lambda>d. ntfs_read_layout E v d True))) (\<lambda>layout.
     thenN (liftN (open_target (an_access a) True (nj_target_identity j) (nj_physical_bytes j)
       ''cannot open journal-bound NTFS source for persistent commit''))
    (if \<not> ac_locked (an_access a) then dieN (Fail ''cannot lock NTFS source for persistent commit'')
     else
       bindN (foldN (commit_cluster E journal_path (nv_cluster_size v))
         (filter (needed layout (nv_total_clusters v)) [resume_cluster..<nv_total_clusters v]) (j, 0)) (\<lambda>(j, copied).
       thenN (on_source (sync_or E ''syncing NTFS source commit failed''))
      (thenN (on_source (journal_save E journal_path j)) (retN j)))))))"

section \<open>The terminal workspace\<close>

text \<open>The lowest cluster, not below 1, from which on all clusters are free in both bitmaps.\<close>

fun free_tail :: "bytes \<Rightarrow> NtfsLayout \<Rightarrow> nat \<Rightarrow> nat" where
  "free_tail original planned 0 = 0"
| "free_tail original planned (Suc c) =
     (if c = 0 \<or> bitmap_bit original c \<or> ntfs_bitmap_bit planned c then Suc c else free_tail original planned c)"

definition find_terminal_workspace :: "bytes \<Rightarrow> NtfsLayout \<Rightarrow> nat \<Rightarrow> nat \<Rightarrow> nat option" where
  "find_terminal_workspace original planned total_clusters wanted =
     (if wanted = 0 \<or> total_clusters < 4 then None
      else
        let finish = total_clusters - 1; cursor = free_tail original planned finish in
        if finish - cursor < wanted then None else Some (finish - wanted))"

definition in_text :: "string \<Rightarrow> string \<Rightarrow> bool" where
  "in_text part s \<longleftrightarrow> list_ex (\<lambda>i. take (length part) (drop i s) = part) [0..<length s + 1]"

text \<open>The planner found nothing to move on a volume that is already laid out.\<close>

definition layout_satisfied :: "bool \<Rightarrow> NtfsCatalogue \<Rightarrow> string \<Rightarrow> bool" where
  "layout_satisfied growth catalogue message \<longleftrightarrow>
     in_text ''no supported movable'' message \<and> nc_fragmented_files catalogue = 0 \<and>
     nc_fragmented_directories catalogue = 0 \<and> (\<not> growth \<or> nc_growth_10_satisfied catalogue)"

datatype outcome = Completed | NotNeeded | StoppedRun

definition stopped_unchanged :: "env \<Rightarrow> string \<Rightarrow> NtfsJournal \<Rightarrow> outcome nio" where
  "stopped_unchanged E path j = thenN (transaction_cleanup E path j) (retN StoppedRun)"

definition not_needed :: "env \<Rightarrow> string \<Rightarrow> NtfsJournal \<Rightarrow> outcome nio" where
  "not_needed E path j = thenN (transaction_cleanup E path j) (retN NotNeeded)"

text \<open>The query for the number of moves and its row.\<close>

definition plan_moves :: "services \<Rightarrow> PlanDb \<Rightarrow> nat res" where
  "plan_moves Q db =
     (if \<not> sv_sql Q ''move count'' 0 then Inl (sql_error ''reading NTFS move count'')
      else if \<not> sv_sql Q ''move count'' 1 then Inl (Fail ''reading NTFS move count returned no row'')
      else Inr (ntfs_plan_move_count db))"

definition source_metadata :: "env \<Rightarrow> services \<Rightarrow> (nat \<Rightarrow> Answers) \<Rightarrow> NtfsJournal \<Rightarrow> PlanDb \<Rightarrow> unit nio" where
  "source_metadata E Q A j db =
     bindN (askN A an_target) (\<lambda>t. on_source (ntfs_apply_stage_metadata E Q t True (identity_of j) db))"

definition verify_source :: "env \<Rightarrow> services \<Rightarrow> (nat \<Rightarrow> Answers) \<Rightarrow> bool \<Rightarrow> PlanDb \<Rightarrow> unit nio" where
  "verify_source E Q A growth db =
     bindN (askN A an_target) (\<lambda>t. on_source (readI (ntfs_verify_stage E Q (tg_probe t) growth True db)))"

text \<open>A call on the terminal workspace of the target; \<open>None\<close> is the \<open>-2\<close> of a stop.\<close>

definition workspace_call ::
  "(nat \<Rightarrow> Answers) \<Rightarrow> (Access \<Rightarrow> PlanDb \<Rightarrow> PlanDb option io) \<Rightarrow> PlanDb \<Rightarrow> PlanDb option nio" where
  "workspace_call A f db = bindN (askN A an_access) (\<lambda>a. on_source (f a db))"

definition stage_rows :: "env \<Rightarrow> services \<Rightarrow> (nat \<Rightarrow> Answers) \<Rightarrow> nat \<Rightarrow> NtfsJournal \<Rightarrow> PlanDb \<Rightarrow> PlanDb option nio" where
  "stage_rows E Q A cluster_size j =
     workspace_call A (\<lambda>a. ntfs_stage_workspace E Q a cluster_size (nj_target_identity j) (nj_physical_bytes j))"

definition place_rows ::
  "env \<Rightarrow> services \<Rightarrow> (nat \<Rightarrow> Answers) \<Rightarrow> nat \<Rightarrow> NtfsJournal \<Rightarrow> bool \<Rightarrow> PlanDb \<Rightarrow> PlanDb option nio" where
  "place_rows E Q A cluster_size j stop_aware =
     workspace_call A (\<lambda>a. ntfs_place_workspace E Q a cluster_size (nj_target_identity j) (nj_physical_bytes j) stop_aware)"

definition check_rows :: "env \<Rightarrow> services \<Rightarrow> (nat \<Rightarrow> Answers) \<Rightarrow> nat \<Rightarrow> NtfsJournal \<Rightarrow> PlanDb \<Rightarrow> unit nio" where
  "check_rows E Q A cluster_size j db =
     bindN (askN A an_access) (\<lambda>a.
     on_source (readI (\<lambda>d. ntfs_verify_workspace E Q a cluster_size (nj_target_identity j) (nj_physical_bytes j) d db)))"

text \<open>The old clusters get their contents back, and the volume is clean again.\<close>

definition restore_source :: "env \<Rightarrow> services \<Rightarrow> (nat \<Rightarrow> Answers) \<Rightarrow> nat \<Rightarrow> NtfsJournal \<Rightarrow> PlanDb \<Rightarrow> unit nio" where
  "restore_source E Q A cluster_size j db =
     bindN (workspace_call A
       (\<lambda>a. ntfs_restore_workspace E Q a cluster_size (nj_target_identity j) (nj_physical_bytes j)) db) (\<lambda>restored.
     if restored = None then dieN (Fail []) else set_source_dirty E A j False)"

text \<open>From the changed metadata to the end: verify, mark clean, remove the journal.\<close>

definition finish_metadata ::
  "env \<Rightarrow> services \<Rightarrow> (nat \<Rightarrow> Answers) \<Rightarrow> bool \<Rightarrow> string \<Rightarrow> string \<Rightarrow> NtfsJournal \<Rightarrow> PlanDb \<Rightarrow> unit nio" where
  "finish_metadata E Q A growth path verifying j db =
     thenN (source_metadata E Q A j db)
    (bindN (on_source (journal_phase E path verifying j)) (\<lambda>j.
     thenN (verify_source E Q A growth db)
    (thenN (set_source_dirty E A j False) (transaction_cleanup E path j))))"

definition direct_metadata ::
  "env \<Rightarrow> services \<Rightarrow> (nat \<Rightarrow> Answers) \<Rightarrow> bool \<Rightarrow> string \<Rightarrow> NtfsJournal \<Rightarrow> PlanDb \<Rightarrow> outcome nio" where
  "direct_metadata E Q A growth path j db =
     bindN stopN (\<lambda>stop.
     if stop then stopped_unchanged E path j
     else
       thenN (check_unchanged_target E A j)
      (bindN (on_source (journal_phase E path ''direct-metadata'' j)) (\<lambda>j.
       thenN (set_source_dirty E A j True)
      (thenN (finish_metadata E Q A growth path ''direct-verifying-source'' j db) (retN Completed)))))"

text \<open>Phase 2: the clusters are placed from the workspace; a stop or an error takes them back.\<close>

definition place_layout ::
  "env \<Rightarrow> services \<Rightarrow> (nat \<Rightarrow> Answers) \<Rightarrow> bool \<Rightarrow> string \<Rightarrow> nat \<Rightarrow> NtfsJournal \<Rightarrow> PlanDb \<Rightarrow> outcome nio" where
  "place_layout E Q A growth path cluster_size j db =
     thenN (check_unchanged_target E A j)
    (thenN (set_source_dirty E A j True)
    (bindN (on_source (journal_phase E path ''workspace-placing'' j)) (\<lambda>j.
     bindN (tryN (place_rows E Q A cluster_size j True db)) (\<lambda>placed.
     bindN (if placed = Inr None then retN True else stopN) (\<lambda>stop.
     if stop then
       bindN (tryN (restore_source E Q A cluster_size j db)) (\<lambda>restored.
       case restored of
         Inl message \<Rightarrow> dieN (Fail (case placed of Inl first \<Rightarrow> first | Inr _ \<Rightarrow> message))
       | Inr _ \<Rightarrow> stopped_unchanged E path j)
     else
       case placed of
         Inl message \<Rightarrow>
           bindN (tryN (restore_source E Q A cluster_size j db)) (\<lambda>restored.
           case restored of
             Inl _ \<Rightarrow> dieN (Fail message)
           | Inr _ \<Rightarrow> thenN (transaction_cleanup E path j) (dieN (Fail message)))
       | Inr _ \<Rightarrow>
           bindN (on_source (journal_phase E path ''workspace-metadata'' j)) (\<lambda>j.
           thenN (finish_metadata E Q A growth path ''workspace-verifying-source'' j db) (retN Completed)))))))"

text \<open>Phase 1: the moved clusters are copied into the workspace and checked.\<close>

definition workspace_layout ::
  "env \<Rightarrow> services \<Rightarrow> (nat \<Rightarrow> Answers) \<Rightarrow> bool \<Rightarrow> string \<Rightarrow> nat \<Rightarrow> NtfsJournal \<Rightarrow> PlanDb \<Rightarrow> outcome nio" where
  "workspace_layout E Q A growth path cluster_size j db =
     bindN stopN (\<lambda>stop.
     if stop then stopped_unchanged E path j
     else
       bindN (on_source (journal_phase E path ''workspace-staging'' j)) (\<lambda>j.
       bindN (tryN (stage_rows E Q A cluster_size j db)) (\<lambda>staged.
       bindN (if staged = Inr None then retN True else stopN) (\<lambda>stop.
       if stop then stopped_unchanged E path j
       else
         case staged of
           Inl message \<Rightarrow> dieN (Fail message)
         | Inr None \<Rightarrow> stopped_unchanged E path j
         | Inr (Some db) \<Rightarrow>
             thenN (put_plan (Some db))
            (thenN (check_rows E Q A cluster_size j db)
            (bindN (on_source (journal_phase E path ''workspace-staged'' j)) (\<lambda>j.
             bindN stopN (\<lambda>stop.
             if stop then stopped_unchanged E path j
             else place_layout E Q A growth path cluster_size j db))))))))"

text \<open>\<open>None\<close>: there is no workspace, and the image is to be used instead.\<close>

definition try_terminal_workspace_relayout ::
  "env \<Rightarrow> services \<Rightarrow> (nat \<Rightarrow> Answers) \<Rightarrow> bool \<Rightarrow> string \<Rightarrow> NtfsJournal \<Rightarrow> NtfsVolume \<Rightarrow> NtfsLayout \<Rightarrow>
   NtfsCatalogue \<Rightarrow> outcome option nio" where
  "try_terminal_workspace_relayout E Q A growth path j v layout catalogue =
     bindN (tryN (liftN (ntfs_plan_layout E layout catalogue (nv_total_clusters v) growth))) (\<lambda>plan.
     case plan of
       Inl message \<Rightarrow>
         if layout_satisfied growth catalogue message then bindN (not_needed E path j) (\<lambda>r. retN (Some r))
         else dieN (Fail message)
     | Inr (final, placements) \<Rightarrow>
         bindN (on_source (readI (\<lambda>d.
           ntfs_create_plan_db E Q v d final catalogue (pv_items placements) growth))) (\<lambda>db.
         thenN (put_plan (Some db))
        (bindN (liftN (plan_moves Q db)) (\<lambda>moves.
         if moves = 0
         then bindN (direct_metadata E Q A growth path (j\<lparr>nj_move_clusters := 0\<rparr>) db) (\<lambda>r. retN (Some r))
         else
           case find_terminal_workspace (nl_bitmap layout) final (nv_total_clusters v) moves of
             None \<Rightarrow> thenN (transaction_cleanup E path j) (retN None)
           | Some start \<Rightarrow>
               let j = j\<lparr>nj_move_clusters := moves, nj_workspace_start := start, nj_workspace_clusters := moves\<rparr> in
               bindN (liftN (ntfs_prepare_workspace_map Q start moves db)) (\<lambda>db.
               thenN (put_plan (Some db))
              (bindN (workspace_layout E Q A growth path (nv_cluster_size v) j db) (\<lambda>r. retN (Some r))))))))"

end
