(* ===== verification/NtfsWorkspace.thy ===== *)
theory NtfsWorkspace
  imports NtfsRelayout NtfsWorker
begin

text \<open>
  The terminal workspace: free clusters at the end of the volume that hold a copy of every
  cluster that moves. Placing from it and, after a stop, taking the old clusters back from it
  are copies between disjoint sets of clusters, so any prefix of them can be undone.
\<close>

section \<open>Copying rows\<close>

fun copied_disk :: "nat \<Rightarrow> (nat \<times> nat) list \<Rightarrow> bytes \<Rightarrow> bytes" where
  "copied_disk cs [] d = d"
| "copied_disk cs ((s, t) # rows) d = copied_disk cs rows (patch d (t * cs) (cluster_of cs d s))"

definition rows_inside :: "nat \<Rightarrow> nat \<Rightarrow> (nat \<times> nat) list \<Rightarrow> bool" where
  "rows_inside cs n rows \<longleftrightarrow> (\<forall>(s, t) \<in> set rows. cluster_inside cs n s \<and> cluster_inside cs n t)"

lemma rows_inside_Cons [simp]:
  "rows_inside cs n ((s, t) # rows) \<longleftrightarrow> cluster_inside cs n s \<and> cluster_inside cs n t \<and> rows_inside cs n rows"
  by (auto simp: rows_inside_def)

lemma rows_inside_take: "rows_inside cs n rows \<Longrightarrow> rows_inside cs n (take k rows)"
  by (auto simp: rows_inside_def dest: in_set_takeD)

lemma length_copied: "rows_inside cs (length d) rows \<Longrightarrow> length (copied_disk cs rows d) = length d"
proof (induction cs rows d rule: copied_disk.induct)
  case (2 cs s t rows d)
  then have "length (patch d (t * cs) (cluster_of cs d s)) = length d"
    by (simp add: length_patch length_cluster_of cluster_inside_def)
  with 2 show ?case by simp
qed simp

text \<open>When no target is a source, every target receives the original contents of its source.\<close>

lemma copied_clusters:
  assumes "rows_inside cs (length d) rows" "distinct (map snd rows)" "set (map fst rows) \<inter> set (map snd rows) = {}"
    and "cluster_inside cs (length d) c"
  shows "(\<forall>s. (s, c) \<in> set rows \<longrightarrow> cluster_of cs (copied_disk cs rows d) c = cluster_of cs d s) \<and>
    (c \<notin> set (map snd rows) \<longrightarrow> cluster_of cs (copied_disk cs rows d) c = cluster_of cs d c)"
  using assms
proof (induction cs rows d rule: copied_disk.induct)
  case (2 cs s t rows d)
  let ?d = "patch d (t * cs) (cluster_of cs d s)"
  have len: "length ?d = length d" using 2(2) by (simp add: length_patch length_cluster_of cluster_inside_def)
  have new: "cluster_of cs ?d x = (if x = t then cluster_of cs d s else cluster_of cs d x)" if "cluster_inside cs (length d) x" for x
    using 2(2) that by (intro cluster_of_patch) (simp_all add: length_cluster_of)
  have IH: "(\<forall>s. (s, c) \<in> set rows \<longrightarrow> cluster_of cs (copied_disk cs rows ?d) c = cluster_of cs ?d s) \<and>
    (c \<notin> set (map snd rows) \<longrightarrow> cluster_of cs (copied_disk cs rows ?d) c = cluster_of cs ?d c)"
    using 2(2-) by (intro 2(1)) (auto simp: len)
  have source: "cluster_of cs ?d x = cluster_of cs d x" if "(x, c) \<in> set rows" for x
  proof -
    have "cluster_inside cs (length d) x" using that 2(2) by (auto simp: rows_inside_def)
    moreover have "x \<in> set (map fst ((s, t) # rows))" "t \<in> set (map snd ((s, t) # rows))" using that by force+
    then have "x \<noteq> t" using 2(4) by blast
    ultimately show ?thesis using new by simp
  qed
  have "cluster_of cs (copied_disk cs ((s, t) # rows) d) c = cluster_of cs d x" if "(x, c) \<in> set ((s, t) # rows)" for x
  proof (cases "c = t")
    case True
    then have "c \<notin> set (map snd rows)" using 2(3) by auto
    then have "x = s" "cluster_of cs (copied_disk cs rows ?d) c = cluster_of cs ?d c"
      using that IH True by (auto simp: image_iff)
    then show ?thesis using new [OF 2(5)] True by simp
  next
    case False
    then have "(x, c) \<in> set rows" using that by simp
    then show ?thesis using IH source by simp
  qed
  moreover have "cluster_of cs (copied_disk cs ((s, t) # rows) d) c = cluster_of cs d c" if "c \<notin> set (map snd ((s, t) # rows))"
    using that IH new [OF 2(5)] by simp
  ultimately show ?case by blast
qed simp

text \<open>Whatever the copying returns, it has copied a prefix of the rows; all of them on success.\<close>

lemma copy_rows_prefix:
  assumes "io_reliable E" "rows_inside cs (length (w_disk w)) rows" "length (w_disk w) \<le> SSIZE_MAX"
    and "copy_rows E Q cs aware digests rows work w = (r, w')"
  shows "\<exists>k \<le> length rows. w_disk w' = copied_disk cs (take k rows) (w_disk w) \<and>
    (\<forall>work'. r = Inr (Some work') \<longrightarrow> k = length rows \<and> map (\<lambda>r. (wk_old r, wk_target r, wk_slot r)) work' =
      map (\<lambda>r. (wk_old r, wk_target r, wk_slot r)) work)"
  using assms(2-)
proof (induction rows arbitrary: work w)
  case Nil
  then show ?case by (auto simp: retI_def)
next
  case (Cons row rows)
  obtain s t where row: "row = (s, t)" by (cases row)
  have "\<exists>b u. (if aware then ld_stop_requested else retI False) w = (Inr b, u) \<and> w_disk u = w_disk w"
    by (cases "w_stop w"; cases "the (w_stop w)") (auto simp: retI_def ld_stop_requested_def)
  then obtain b u where stop: "(if aware then ld_stop_requested else retI False) w = (Inr b, u)" "w_disk u = w_disk w"
    by blast
  have ins: "cluster_inside cs (length (w_disk u)) s" "cluster_inside cs (length (w_disk u)) t"
    "rows_inside cs (length (w_disk u)) rows" "length (w_disk u) \<le> SSIZE_MAX"
    using Cons.prems(1,2) stop(2) row by simp_all
  let ?keys = "\<lambda>work. map (\<lambda>r. (wk_old r, wk_target r, wk_slot r)) work"
  let ?bs = "cluster_of cs (w_disk u) s"
  let ?noted = "if digests then
      (case workspace_digest Q ?bs of
         Inl e \<Rightarrow> dieI e
       | Inr digest \<Rightarrow>
           if \<not> sv_sql Q ''digest'' (s + 1) then dieI (sql_error ''recording NTFS workspace cluster digest'')
           else retI (record_sha s digest work))
    else retI work"
  have read: "read_cluster E cs ''short read during NTFS terminal-workspace relocation'' (w_disk u) s = Inr ?bs"
    by (rule read_cluster_ok [OF assms(1) ins(1,4)])
  show ?case
  proof (cases b)
    case True
    then have "r = Inr None \<and> w' = u" using Cons.prems(3) stop(1) row by (simp add: bindI_def retI_def)
    then show ?thesis using stop(2) by (intro exI [of _ 0]) simp
  next
    case False
    have run: "copy_rows E Q cs aware digests (row # rows) work w = bindI ?noted (\<lambda>work.
        thenI (write_cluster E cs ''short write during NTFS terminal-workspace relocation'' ?bs t)
          (copy_rows E Q cs aware digests rows work)) u"
      using False stop(1) row read by (simp add: bindI_def readI_def)
    show ?thesis
    proof (cases "?noted u")
      case (Pair x v)
      have v: "v = u" using Pair by (auto simp: dieI_def retI_def split: if_splits sum.splits)
      show ?thesis
      proof (cases x)
        case (Inl e)
        then have "r = Inl e \<and> w' = u" using run Pair v Cons.prems(3) by (simp add: bindI_def)
        then show ?thesis using stop(2) by (intro exI [of _ 0]) simp
      next
        case (Inr work1)
        have keys: "?keys work1 = ?keys work"
          using Pair Inr by (auto simp: dieI_def retI_def record_sha_def split: if_splits sum.splits)
        have wr: "write_cluster E cs ''short write during NTFS terminal-workspace relocation'' ?bs t u = (Inr (), after_write ?bs (t * cs) u)"
          by (rule write_cluster_ok [OF assms(1) length_cluster_of [OF ins(1)] ins(2,4)])
        have rest: "copy_rows E Q cs aware digests rows work1 (after_write ?bs (t * cs) u) = (r, w')"
          using run Pair v Inr wr Cons.prems(3) by (simp add: bindI_def thenI_def)
        have len: "length (patch (w_disk u) (t * cs) ?bs) = length (w_disk u)"
          using ins(1,2) by (simp add: length_patch length_cluster_of cluster_inside_def)
        obtain k where k: "k \<le> length rows" "w_disk w' = copied_disk cs (take k rows) (patch (w_disk u) (t * cs) ?bs)"
          "\<forall>work'. r = Inr (Some work') \<longrightarrow> k = length rows \<and> ?keys work' = ?keys work1"
          using Cons.IH [OF _ _ rest] ins(3,4) len by auto
        then show ?thesis using row stop(2) keys by (intro exI [of _ "Suc k"]) auto
      qed
    qed
  qed
qed

definition digests_work :: "services \<Rightarrow> bool" where
  "digests_work Q \<longleftrightarrow> (\<forall>bs. sv_sha256 Q bs \<noteq> None)"

lemma copy_rows_done:
  assumes "io_reliable E" "sql_works Q" "digests_work Q" "rows_inside cs (length (w_disk w)) rows" "length (w_disk w) \<le> SSIZE_MAX"
    and "aware \<longrightarrow> w_stop w = None"
  shows "\<exists>work' w'. copy_rows E Q cs aware digests rows work w = (Inr (Some work'), w') \<and> (aware \<longrightarrow> w_stop w' = None)"
  using assms(4-)
proof (induction rows arbitrary: work w)
  case Nil
  then show ?case by (simp add: retI_def)
next
  case (Cons row rows)
  obtain s t where row: "row = (s, t)" by (cases row)
  have ins: "cluster_inside cs (length (w_disk w)) s" "cluster_inside cs (length (w_disk w)) t"
    "rows_inside cs (length (w_disk w)) rows"
    using Cons.prems(1) row by simp_all
  let ?bs = "cluster_of cs (w_disk w) s"
  have stop: "(if aware then ld_stop_requested else retI False) w = (Inr False, w)"
    using Cons.prems(3) by (auto simp: ld_stop_requested_def retI_def)
  have len: "length (patch (w_disk w) (t * cs) ?bs) = length (w_disk w)"
    using ins by (simp add: length_patch length_cluster_of cluster_inside_def)
  have wr: "write_cluster E cs message ?bs t w = (Inr (), after_write ?bs (t * cs) w)" for message
    by (rule write_cluster_ok [OF assms(1) length_cluster_of [OF ins(1)] ins(2) Cons.prems(2)])
  obtain digest where digest: "sv_sha256 Q ?bs = Some digest" using assms(3) by (auto simp: digests_work_def)
  define work1 where "work1 = (if digests then record_sha s digest work else work)"
  obtain work' w' where rest: "copy_rows E Q cs aware digests rows work1 (after_write ?bs (t * cs) w) = (Inr (Some work'), w')"
    "aware \<longrightarrow> w_stop w' = None"
    using Cons.IH [of "after_write ?bs (t * cs) w" work1] ins(3) Cons.prems(2,3) len by auto
  have "copy_rows E Q cs aware digests (row # rows) work w =
      copy_rows E Q cs aware digests rows work1 (after_write ?bs (t * cs) w)"
    using assms(2) stop read_cluster_ok [OF assms(1) ins(1) Cons.prems(2)] wr digest
    by (cases digests) (simp_all add: row bindI_def thenI_def readI_def retI_def workspace_digest_def work1_def sql_works_def)
  then show ?case using rest by simp
qed

section \<open>The calls on the workspace\<close>

definition access_granted :: "Access \<Rightarrow> string option \<Rightarrow> nat \<Rightarrow> bool" where
  "access_granted a identity physical \<longleftrightarrow>
     ac_locked a \<and> (\<exists>device. ld_device_open_verified_fd (ac_open a) True identity physical = Inr (Inr device))"

definition keys_of :: "PlanDb \<Rightarrow> (nat \<times> nat \<times> nat) list" where
  "keys_of db = map (\<lambda>r. (wk_old r, wk_target r, wk_slot r)) (pd_workspace db)"

definition old_set :: "PlanDb \<Rightarrow> nat set" where "old_set db = (\<lambda>(o', t, s). o') ` set (keys_of db)"
definition target_set :: "PlanDb \<Rightarrow> nat set" where "target_set db = (\<lambda>(o', t, s). t) ` set (keys_of db)"
definition slot_set :: "PlanDb \<Rightarrow> nat set" where "slot_set db = (\<lambda>(o', t, s). s) ` set (keys_of db)"

lemma in_sets:
  "(c, t, s) \<in> set (keys_of db) \<Longrightarrow> c \<in> old_set db \<and> t \<in> target_set db \<and> s \<in> slot_set db"
  by (force simp: old_set_def target_set_def slot_set_def)

definition workspace_ok :: "nat \<Rightarrow> nat \<Rightarrow> PlanDb \<Rightarrow> bool" where
  "workspace_ok cs n db \<longleftrightarrow>
     distinct (map (\<lambda>(o', t, s). o') (keys_of db)) \<and> distinct (map (\<lambda>(o', t, s). t) (keys_of db)) \<and>
     distinct (map (\<lambda>(o', t, s). s) (keys_of db)) \<and> slot_set db \<inter> (old_set db \<union> target_set db) = {} \<and>
     (\<forall>c \<in> old_set db \<union> target_set db \<union> slot_set db. cluster_inside cs n c)"

lemma workspace_keys:
  assumes "keys_of db' = keys_of db"
  shows "old_set db' = old_set db" "target_set db' = target_set db" "slot_set db' = slot_set db"
    "workspace_ok cs n db' = workspace_ok cs n db"
  unfolding workspace_ok_def old_set_def target_set_def slot_set_def assms by simp_all

text \<open>\<open>f\<close> and \<open>g\<close> choose the source and the target of a row.\<close>

lemma workspace_effect:
  assumes "io_reliable E" "length (w_disk w) \<le> SSIZE_MAX"
    and run: "workspace_copy_rows E Q a cs identity physical query (\<lambda>r. (f (wk_old r, wk_target r, wk_slot r), g (wk_old r, wk_target r, wk_slot r)))
      aware digests db w = (r, w')"
    and "distinct (map g (keys_of db))" "f ` set (keys_of db) \<inter> g ` set (keys_of db) = {}"
    and inside: "\<forall>x \<in> set (keys_of db). cluster_inside cs (length (w_disk w)) (f x) \<and> cluster_inside cs (length (w_disk w)) (g x)"
  shows "length (w_disk w') = length (w_disk w) \<and>
    (\<forall>c. cluster_inside cs (length (w_disk w)) c \<longrightarrow> c \<notin> g ` set (keys_of db) \<longrightarrow>
      cluster_of cs (w_disk w') c = cluster_of cs (w_disk w) c) \<and>
    (\<forall>db'. r = Inr (Some db') \<longrightarrow> keys_of db' = keys_of db \<and> (sql_works Q \<longrightarrow>
      (\<forall>x \<in> set (keys_of db). cluster_of cs (w_disk w') (g x) = cluster_of cs (w_disk w) (f x))))"
proof -
  let ?key = "\<lambda>r. (wk_old r, wk_target r, wk_slot r)" and ?d = "w_disk w"
  let ?all = "map (\<lambda>r. (f (?key r), g (?key r))) (sort_key (\<lambda>r. int64 (wk_old r)) (pd_workspace db))"
  let ?rows = "fst (sql_rows Q query ?all)"
  have sets: "set (map fst ?all) = f ` set (keys_of db)" "set (map snd ?all) = g ` set (keys_of db)"
    by (simp_all add: keys_of_def image_image)
  have "mset (map snd ?all) = mset (map g (keys_of db))" by (simp add: keys_of_def multiset.map_comp comp_def)
  then have dist: "distinct (map snd ?all)" using assms(4) mset_eq_imp_distinct_iff by blast
  have all_inside: "rows_inside cs (length ?d) ?all" using inside by (auto simp: rows_inside_def keys_of_def)
  obtain m where rows: "?rows = take m ?all" by (simp add: sql_rows_def Let_def)
  have all: "?rows = ?all" if "sql_works Q" using that by (simp add: sql_rows_all)
  have prefix: "\<exists>k. w_disk w' = copied_disk cs (take k ?all) ?d \<and>
      (\<forall>db'. r = Inr (Some db') \<longrightarrow> keys_of db' = keys_of db \<and> (sql_works Q \<longrightarrow> take k ?all = ?all))"
  proof (cases "open_target a True identity physical ''cannot open NTFS source for terminal-workspace I/O''")
    case (Inl e)
    then show ?thesis using run by (intro exI [of _ 0]) (auto simp: workspace_copy_rows_def dieI_def)
  next
    case opened: (Inr u)
    obtain x v where copy: "copy_rows E Q cs aware digests ?rows (pd_workspace db) w = (x, v)" by fastforce
    have inside': "rows_inside cs (length ?d) ?rows" unfolding rows by (rule rows_inside_take [OF all_inside])
    obtain k where k: "k \<le> length ?rows" "w_disk v = copied_disk cs (take k ?rows) ?d"
      "\<forall>work'. x = Inr (Some work') \<longrightarrow> k = length ?rows \<and> map ?key work' = map ?key (pd_workspace db)"
      using copy_rows_prefix [OF assms(1) inside' assms(2) copy] by blast
    have sync: "w_disk (snd (thenI (sync_or E m) (if b then dieI e else retI y) v)) = w_disk v" for m b e and y :: "PlanDb option"
      by (simp add: thenI_def bindI_def sync_or_def dieI_def retI_def)
    have "w' = w \<and> (\<exists>e. r = Inl e) \<or>
      w_disk w' = w_disk v \<and> (\<forall>db'. r = Inr (Some db') \<longrightarrow> (\<exists>work'. x = Inr (Some work') \<and> db' = db\<lparr>pd_workspace := work'\<rparr>))"
      using run opened copy sync
      by (auto simp: workspace_copy_rows_def Let_def bindI_def thenI_def dieI_def retI_def sync_or_def
        split: if_splits sum.splits option.splits)
    then show ?thesis
    proof (elim disjE conjE)
      assume "w' = w" "\<exists>e. r = Inl e"
      then show ?thesis by (intro exI [of _ 0]) auto
    next
      assume w': "w_disk w' = w_disk v"
        and r: "\<forall>db'. r = Inr (Some db') \<longrightarrow> (\<exists>work'. x = Inr (Some work') \<and> db' = db\<lparr>pd_workspace := work'\<rparr>)"
      have "take k ?rows = take (min k m) ?all" unfolding rows by (simp add: min.commute)
      moreover have "keys_of db' = keys_of db \<and> (sql_works Q \<longrightarrow> take (min k m) ?all = ?all)" if res: "r = Inr (Some db')" for db'
      proof -
        obtain work' where w: "x = Inr (Some work')" "db' = db\<lparr>pd_workspace := work'\<rparr>" using r res by blast
        then have "k = length ?rows" "map ?key work' = map ?key (pd_workspace db)" using k(3) by blast+
        then have "take k ?rows = ?rows" "keys_of db' = keys_of db" using w(2) by (simp_all add: keys_of_def)
        then show ?thesis using calculation all by metis
      qed
      ultimately show ?thesis using w' k(2) by (intro exI [of _ "min k m"]) auto
    qed
  qed
  then obtain k where k: "w_disk w' = copied_disk cs (take k ?all) ?d"
    "\<And>db'. r = Inr (Some db') \<Longrightarrow> keys_of db' = keys_of db \<and> (sql_works Q \<longrightarrow> take k ?all = ?all)" by blast
  have part: "rows_inside cs (length ?d) (take k ?all)" by (rule rows_inside_take [OF all_inside])
  have sub: "set (map fst (take k ?all)) \<subseteq> f ` set (keys_of db)" "set (map snd (take k ?all)) \<subseteq> g ` set (keys_of db)"
    unfolding sets [symmetric] set_map [of fst] set_map [of snd] by (rule image_mono, rule set_take_subset)+
  have dt: "distinct (map snd (take k ?all))" using dist by (simp add: take_map [symmetric] distinct_take del: map_map)
  have disj: "set (map fst (take k ?all)) \<inter> set (map snd (take k ?all)) = {}"
    using Int_mono [OF sub] unfolding assms(5) by (rule subset_empty [THEN iffD1])
  have copied: "(\<forall>s. (s, c) \<in> set (take k ?all) \<longrightarrow> cluster_of cs (w_disk w') c = cluster_of cs ?d s) \<and>
    (c \<notin> set (map snd (take k ?all)) \<longrightarrow> cluster_of cs (w_disk w') c = cluster_of cs ?d c)"
    if "cluster_inside cs (length ?d) c" for c
    unfolding k(1) by (rule copied_clusters [OF part dt disj that])
  have "cluster_of cs (w_disk w') (g x) = cluster_of cs ?d (f x)"
    if "r = Inr (Some db')" "sql_works Q" "x \<in> set (keys_of db)" for db' x
  proof -
    have mem: "(f x, g x) \<in> set ?all" using that(3) by (auto simp: keys_of_def)
    have every: "take k ?all = ?all" using k(2) [OF that(1)] that(2) by blast
    have "(f x, g x) \<in> set (take k ?all)" unfolding every by (rule mem)
    moreover have "cluster_inside cs (length ?d) (g x)" using inside that(3) by blast
    ultimately show ?thesis using copied by blast
  qed
  moreover have "length (w_disk w') = length ?d" unfolding k(1) by (rule length_copied [OF part])
  moreover have "cluster_of cs (w_disk w') c = cluster_of cs ?d c"
    if "cluster_inside cs (length ?d) c" "c \<notin> g ` set (keys_of db)" for c
    using copied [OF that(1)] that(2) sub(2) by blast
  ultimately show ?thesis using k(2) by blast
qed

text \<open>With access to the target, and nobody asking to stop, the copying succeeds.\<close>

lemma workspace_done:
  assumes "io_reliable E" "sql_works Q" "digests_work Q" "access_granted a identity physical" "length (w_disk w) \<le> SSIZE_MAX"
    and "aware \<longrightarrow> w_stop w = None"
    and "\<forall>x \<in> set (keys_of db). cluster_inside cs (length (w_disk w)) (f x) \<and> cluster_inside cs (length (w_disk w)) (g x)"
  shows "\<exists>db' w'. workspace_copy_rows E Q a cs identity physical query
      (\<lambda>r. (f (wk_old r, wk_target r, wk_slot r), g (wk_old r, wk_target r, wk_slot r))) aware digests db w = (Inr (Some db'), w') \<and>
    (aware \<longrightarrow> w_stop w' = None)"
proof -
  let ?all = "map (\<lambda>r. (f (wk_old r, wk_target r, wk_slot r), g (wk_old r, wk_target r, wk_slot r)))
    (sort_key (\<lambda>r. int64 (wk_old r)) (pd_workspace db))"
  have inside: "rows_inside cs (length (w_disk w)) ?all" using assms(7) by (auto simp: rows_inside_def keys_of_def)
  obtain work' v where copy: "copy_rows E Q cs aware digests ?all (pd_workspace db) w = (Inr (Some work'), v)" "aware \<longrightarrow> w_stop v = None"
    using copy_rows_done [OF assms(1-3) inside assms(5,6)] by blast
  have opened: "open_target a True identity physical m = Inr ()" "ac_locked a" for m
    using assms(4) by (auto simp: access_granted_def open_target_def)
  have Q: "\<And>s n. sv_sql Q s n" using assms(2) by (simp add: sql_works_def)
  show ?thesis
    using copy opened io_reliable_host [OF assms(1)]
    by (simp add: workspace_copy_rows_def Let_def Q sql_rows_all [OF assms(2)] bindI_def thenI_def sync_or_def retI_def)
qed

lemma workspace_subset:
  assumes "workspace_ok cs n db" "(c, t, s) \<in> set (keys_of db)"
  shows "cluster_inside cs n c" "cluster_inside cs n t" "cluster_inside cs n s"
  using assms(1) in_sets [OF assms(2)] unfolding workspace_ok_def by blast+

text \<open>The three uses: old to slot, slot to target, slot to old.\<close>

lemma stage_effect:
  assumes "io_reliable E" "length (w_disk w) \<le> SSIZE_MAX" "workspace_ok cs (length (w_disk w)) db"
    and "ntfs_stage_workspace E Q a cs identity physical db w = (r, w')"
  shows "length (w_disk w') = length (w_disk w)"
    and "\<forall>c. cluster_inside cs (length (w_disk w)) c \<longrightarrow> c \<notin> slot_set db \<longrightarrow> cluster_of cs (w_disk w') c = cluster_of cs (w_disk w) c"
    and "\<forall>db'. r = Inr (Some db') \<longrightarrow> keys_of db' = keys_of db \<and> (sql_works Q \<longrightarrow>
      (\<forall>c t s. (c, t, s) \<in> set (keys_of db) \<longrightarrow> cluster_of cs (w_disk w') s = cluster_of cs (w_disk w) c))"
proof -
  let ?f = "\<lambda>(c, t, s). c" and ?g = "\<lambda>(c, t, s). s"
  have apart: "?f ` set (keys_of db) \<inter> ?g ` set (keys_of db) = {}" "distinct (map ?g (keys_of db))"
    using assms(3) unfolding workspace_ok_def old_set_def slot_set_def by blast+
  have ends: "\<forall>x \<in> set (keys_of db). cluster_inside cs (length (w_disk w)) (?f x) \<and> cluster_inside cs (length (w_disk w)) (?g x)"
    using workspace_subset [OF assms(3)] by auto
  note E = workspace_effect [OF assms(1,2) _ apart(2,1) ends, of Q a identity physical "''SELECT old,slot''" True True r w']
  have run: "workspace_copy_rows E Q a cs identity physical ''SELECT old,slot''
      (\<lambda>r. (?f (wk_old r, wk_target r, wk_slot r), ?g (wk_old r, wk_target r, wk_slot r))) True True db w = (r, w')"
    using assms(4) by (simp add: ntfs_stage_workspace_def)
  show "length (w_disk w') = length (w_disk w)" using E [OF run] by blast
  show "\<forall>c. cluster_inside cs (length (w_disk w)) c \<longrightarrow> c \<notin> slot_set db \<longrightarrow> cluster_of cs (w_disk w') c = cluster_of cs (w_disk w) c"
    using E [OF run] unfolding slot_set_def by blast
  show "\<forall>db'. r = Inr (Some db') \<longrightarrow> keys_of db' = keys_of db \<and> (sql_works Q \<longrightarrow>
      (\<forall>c t s. (c, t, s) \<in> set (keys_of db) \<longrightarrow> cluster_of cs (w_disk w') s = cluster_of cs (w_disk w) c))"
    using E [OF run] by fastforce
qed

lemma place_effect:
  assumes "io_reliable E" "length (w_disk w) \<le> SSIZE_MAX" "workspace_ok cs (length (w_disk w)) db"
    and "ntfs_place_workspace E Q a cs identity physical aware db w = (r, w')"
  shows "length (w_disk w') = length (w_disk w)"
    and "\<forall>c. cluster_inside cs (length (w_disk w)) c \<longrightarrow> c \<notin> target_set db \<longrightarrow> cluster_of cs (w_disk w') c = cluster_of cs (w_disk w) c"
    and "\<forall>db'. r = Inr (Some db') \<longrightarrow> keys_of db' = keys_of db \<and> (sql_works Q \<longrightarrow>
      (\<forall>c t s. (c, t, s) \<in> set (keys_of db) \<longrightarrow> cluster_of cs (w_disk w') t = cluster_of cs (w_disk w) s))"
proof -
  let ?f = "\<lambda>(c, t, s). s" and ?g = "\<lambda>(c, t, s). t"
  have apart: "?f ` set (keys_of db) \<inter> ?g ` set (keys_of db) = {}" "distinct (map ?g (keys_of db))"
    using assms(3) unfolding workspace_ok_def target_set_def slot_set_def by blast+
  have ends: "\<forall>x \<in> set (keys_of db). cluster_inside cs (length (w_disk w)) (?f x) \<and> cluster_inside cs (length (w_disk w)) (?g x)"
    using workspace_subset [OF assms(3)] by auto
  note E = workspace_effect [OF assms(1,2) _ apart(2,1) ends, of Q a identity physical "''SELECT slot,target''" aware False r w']
  have run: "workspace_copy_rows E Q a cs identity physical ''SELECT slot,target''
      (\<lambda>r. (?f (wk_old r, wk_target r, wk_slot r), ?g (wk_old r, wk_target r, wk_slot r))) aware False db w = (r, w')"
    using assms(4) by (simp add: ntfs_place_workspace_def)
  show "length (w_disk w') = length (w_disk w)" using E [OF run] by blast
  show "\<forall>c. cluster_inside cs (length (w_disk w)) c \<longrightarrow> c \<notin> target_set db \<longrightarrow> cluster_of cs (w_disk w') c = cluster_of cs (w_disk w) c"
    using E [OF run] unfolding target_set_def by blast
  show "\<forall>db'. r = Inr (Some db') \<longrightarrow> keys_of db' = keys_of db \<and> (sql_works Q \<longrightarrow>
      (\<forall>c t s. (c, t, s) \<in> set (keys_of db) \<longrightarrow> cluster_of cs (w_disk w') t = cluster_of cs (w_disk w) s))"
    using E [OF run] by fastforce
qed

lemma restore_effect:
  assumes "io_reliable E" "length (w_disk w) \<le> SSIZE_MAX" "workspace_ok cs (length (w_disk w)) db"
    and "ntfs_restore_workspace E Q a cs identity physical db w = (r, w')"
  shows "length (w_disk w') = length (w_disk w)"
    and "\<forall>c. cluster_inside cs (length (w_disk w)) c \<longrightarrow> c \<notin> old_set db \<longrightarrow> cluster_of cs (w_disk w') c = cluster_of cs (w_disk w) c"
    and "\<forall>db'. r = Inr (Some db') \<longrightarrow> keys_of db' = keys_of db \<and> (sql_works Q \<longrightarrow>
      (\<forall>c t s. (c, t, s) \<in> set (keys_of db) \<longrightarrow> cluster_of cs (w_disk w') c = cluster_of cs (w_disk w) s))"
proof -
  let ?f = "\<lambda>(c, t, s). s" and ?g = "\<lambda>(c, t, s). c"
  have apart: "?f ` set (keys_of db) \<inter> ?g ` set (keys_of db) = {}" "distinct (map ?g (keys_of db))"
    using assms(3) unfolding workspace_ok_def old_set_def slot_set_def by blast+
  have ends: "\<forall>x \<in> set (keys_of db). cluster_inside cs (length (w_disk w)) (?f x) \<and> cluster_inside cs (length (w_disk w)) (?g x)"
    using workspace_subset [OF assms(3)] by auto
  note E = workspace_effect [OF assms(1,2) _ apart(2,1) ends, of Q a identity physical "''SELECT slot,old''" False False r w']
  have run: "workspace_copy_rows E Q a cs identity physical ''SELECT slot,old''
      (\<lambda>r. (?f (wk_old r, wk_target r, wk_slot r), ?g (wk_old r, wk_target r, wk_slot r))) False False db w = (r, w')"
    using assms(4) by (simp add: ntfs_restore_workspace_def)
  show "length (w_disk w') = length (w_disk w)" using E [OF run] by blast
  show "\<forall>c. cluster_inside cs (length (w_disk w)) c \<longrightarrow> c \<notin> old_set db \<longrightarrow> cluster_of cs (w_disk w') c = cluster_of cs (w_disk w) c"
    using E [OF run] unfolding old_set_def by blast
  show "\<forall>db'. r = Inr (Some db') \<longrightarrow> keys_of db' = keys_of db \<and> (sql_works Q \<longrightarrow>
      (\<forall>c t s. (c, t, s) \<in> set (keys_of db) \<longrightarrow> cluster_of cs (w_disk w') c = cluster_of cs (w_disk w) s))"
    using E [OF run] by fastforce
qed

text \<open>With the access it needs, each of the three succeeds.\<close>

lemma stage_done:
  assumes "io_reliable E" "sql_works Q" "digests_work Q" "access_granted a identity physical" "length (w_disk w) \<le> SSIZE_MAX"
    and "w_stop w = None" "workspace_ok cs (length (w_disk w)) db"
  shows "\<exists>db' w'. ntfs_stage_workspace E Q a cs identity physical db w = (Inr (Some db'), w')"
proof -
  have "\<forall>x \<in> set (keys_of db). cluster_inside cs (length (w_disk w)) ((\<lambda>(c, t, s). c) x) \<and>
      cluster_inside cs (length (w_disk w)) ((\<lambda>(c, t, s). s) x)"
    using workspace_subset [OF assms(7)] by auto
  from workspace_done [OF assms(1-5) _ this, of True "''SELECT old,slot''" True] assms(6)
  show ?thesis by (auto simp: ntfs_stage_workspace_def)
qed

lemma place_done:
  assumes "io_reliable E" "sql_works Q" "digests_work Q" "access_granted a identity physical" "length (w_disk w) \<le> SSIZE_MAX"
    and "w_stop w = None" "workspace_ok cs (length (w_disk w)) db"
  shows "\<exists>db' w'. ntfs_place_workspace E Q a cs identity physical aware db w = (Inr (Some db'), w')"
proof -
  have "\<forall>x \<in> set (keys_of db). cluster_inside cs (length (w_disk w)) ((\<lambda>(c, t, s). s) x) \<and>
      cluster_inside cs (length (w_disk w)) ((\<lambda>(c, t, s). t) x)"
    using workspace_subset [OF assms(7)] by auto
  from workspace_done [OF assms(1-5) _ this, of aware "''SELECT slot,target''" False] assms(6)
  show ?thesis by (auto simp: ntfs_place_workspace_def)
qed

lemma restore_done:
  assumes "io_reliable E" "sql_works Q" "digests_work Q" "access_granted a identity physical" "length (w_disk w) \<le> SSIZE_MAX"
    and "workspace_ok cs (length (w_disk w)) db"
  shows "\<exists>db' w'. ntfs_restore_workspace E Q a cs identity physical db w = (Inr (Some db'), w')"
proof -
  have "\<forall>x \<in> set (keys_of db). cluster_inside cs (length (w_disk w)) ((\<lambda>(c, t, s). s) x) \<and>
      cluster_inside cs (length (w_disk w)) ((\<lambda>(c, t, s). c) x)"
    using workspace_subset [OF assms(6)] by auto
  from workspace_done [OF assms(1-5) _ this, of False "''SELECT slot,old''" False]
  show ?thesis by (auto simp: ntfs_restore_workspace_def)
qed

section \<open>Finding the workspace and filling its map\<close>

lemma free_tail_ok:
  "free_tail original planned n \<le> n \<and> (0 < n \<longrightarrow> 0 < free_tail original planned n) \<and>
   (\<forall>c. free_tail original planned n \<le> c \<longrightarrow> c < n \<longrightarrow> \<not> bitmap_bit original c \<and> \<not> ntfs_bitmap_bit planned c)"
proof (induction n)
  case (Suc n)
  then show ?case by (cases "n = 0") (auto simp: less_Suc_eq)
qed simp

lemma find_workspace_ok:
  assumes "find_terminal_workspace original planned clusters n = Some start"
  shows "0 < start" "start + n = clusters - 1" "4 \<le> clusters"
    "\<forall>c \<in> {start..<start + n}. \<not> bitmap_bit original c \<and> \<not> ntfs_bitmap_bit planned c"
proof -
  let ?e = "clusters - 1" and ?t = "free_tail original planned (clusters - 1)"
  have r: "n \<noteq> 0" "4 \<le> clusters" "n \<le> ?e - ?t" "start = ?e - n"
    using assms by (auto simp: find_terminal_workspace_def Let_def split: if_splits)
  note t = free_tail_ok [of original planned ?e]
  have "?t \<le> ?e" "0 < ?t" using t r(2) by auto
  then have low: "?t \<le> start" and eq: "start + n = ?e" using r(3,4) by linarith+
  show "0 < start" "start + n = clusters - 1" "4 \<le> clusters" using low \<open>0 < ?t\<close> eq r(2) by simp_all
  show "\<forall>c \<in> {start..<start + n}. \<not> bitmap_bit original c \<and> \<not> ntfs_bitmap_bit planned c"
    using t low eq by auto
qed

definition moved_rows :: "PlanDb \<Rightarrow> BlockRow list" where
  "moved_rows db = sort_key (\<lambda>b. int64 (bk_old b)) (filter (\<lambda>b. bk_old b \<noteq> bk_target b) (pd_blocks db))"

text \<open>A map that was recorded has a slot for every move, whatever SQLite did on the way.\<close>

lemma prepare_map_ok:
  assumes "ntfs_prepare_workspace_map Q start (ntfs_plan_move_count db) db = Inr db'"
  shows "keys_of db' = map (\<lambda>(i, b). (bk_old b, bk_target b, start + i)) (enumerate 0 (moved_rows db))"
    and "length (moved_rows db) = ntfs_plan_move_count db" "pd_blocks db' = pd_blocks db"
proof -
  let ?rows = "fst (sql_rows Q ''moves'' (moved_rows db))"
  show len: "length (moved_rows db) = ntfs_plan_move_count db" by (simp add: moved_rows_def ntfs_plan_move_count_def)
  have r: "length ?rows = ntfs_plan_move_count db"
    "db' = db\<lparr>pd_workspace := map (\<lambda>(i, b). \<lparr>wk_old = bk_old b, wk_target = bk_target b, wk_slot = start + i, wk_sha = None\<rparr>)
      (enumerate 0 ?rows)\<rparr>"
    using assms unfolding ntfs_prepare_workspace_map_def moved_rows_def [symmetric]
    by (auto split: if_splits prod.splits)
  obtain m where "?rows = take m (moved_rows db)" by (simp add: sql_rows_def Let_def)
  then have "?rows = moved_rows db" using r(1) len by simp
  then show "keys_of db' = map (\<lambda>(i, b). (bk_old b, bk_target b, start + i)) (enumerate 0 (moved_rows db))"
    using r(2) by (simp add: keys_of_def split_beta comp_def)
  show "pd_blocks db' = pd_blocks db" using r(2) by simp
qed

lemma moved_row: "b \<in> set (moved_rows db) \<longleftrightarrow> b \<in> set (pd_blocks db) \<and> bk_old b \<noteq> bk_target b"
  by (auto simp: moved_rows_def)

lemma prepared_keys:
  assumes "ntfs_prepare_workspace_map Q start (ntfs_plan_move_count db) db = Inr db'"
  shows "goes (pd_blocks db) x y \<longleftrightarrow> (\<exists>s. (x, y, s) \<in> set (keys_of db'))"
    and "slot_set db' = {start..<start + ntfs_plan_move_count db}"
    and "old_set db' = sources (pd_blocks db)" "target_set db' = {y. \<exists>x. goes (pd_blocks db) x y}"
proof -
  note P = prepare_map_ok [OF assms]
  have keys: "set (keys_of db') = {(bk_old (moved_rows db ! i), bk_target (moved_rows db ! i), start + i) |i. i < length (moved_rows db)}"
    unfolding P(1) by (auto simp: in_set_enumerate_eq image_iff)
  show g: "goes (pd_blocks db) x y \<longleftrightarrow> (\<exists>s. (x, y, s) \<in> set (keys_of db'))" for x y
  proof
    assume "goes (pd_blocks db) x y"
    then obtain b where "b \<in> set (moved_rows db)" "bk_old b = x" "bk_target b = y" by (auto simp: goes_def moved_row)
    then show "\<exists>s. (x, y, s) \<in> set (keys_of db')" unfolding keys by (auto simp: in_set_conv_nth)
  next
    assume "\<exists>s. (x, y, s) \<in> set (keys_of db')"
    then obtain i where "i < length (moved_rows db)" "bk_old (moved_rows db ! i) = x" "bk_target (moved_rows db ! i) = y"
      unfolding keys by auto
    then show "goes (pd_blocks db) x y" using nth_mem [of i "moved_rows db"] by (auto simp: goes_def moved_row)
  qed
  show "slot_set db' = {start..<start + ntfs_plan_move_count db}"
  proof -
    have "slot_set db' = (+) start ` {0..<length (moved_rows db)}" 
      unfolding slot_set_def keys setcompr_eq_image image_image by (simp add: atLeast0LessThan lessThan_def)
    then show ?thesis using image_add_atLeastLessThan [of start 0 "length (moved_rows db)"] P(2) by (simp add: add.commute)
  qed
  show "old_set db' = sources (pd_blocks db)" unfolding sources_def g old_set_def by force
  show "target_set db' = {y. \<exists>x. goes (pd_blocks db) x y}" unfolding g target_set_def by force
qed

lemma prepared_workspace_ok:
  assumes "ntfs_prepare_workspace_map Q start (ntfs_plan_move_count db) db = Inr db'"
    and "keys_ok (pd_blocks db)" "plan_inside cs n (pd_blocks db)"
    and "\<forall>c \<in> {start..<start + ntfs_plan_move_count db}. cluster_inside cs n c \<and>
      (\<forall>x. \<not> goes (pd_blocks db) c x) \<and> (\<forall>x. \<not> goes (pd_blocks db) x c)"
  shows "workspace_ok cs n db'"
proof -
  note P = prepare_map_ok [OF assms(1)] and K = prepared_keys [OF assms(1)]
  have maps: "map (\<lambda>(x, y, s). x) (keys_of db') = map bk_old (moved_rows db)"
    "map (\<lambda>(x, y, s). y) (keys_of db') = map bk_target (moved_rows db)"
    "map (\<lambda>(x, y, s). s) (keys_of db') = map (\<lambda>i. start + i) [0..<length (moved_rows db)]"
    unfolding P(1) by (simp_all add: comp_def split_beta flip: map_map [unfolded comp_def, of _ fst] map_map [unfolded comp_def, of _ snd])
  have m: "mset (moved_rows db) = mset (filter (\<lambda>b. bk_old b \<noteq> bk_target b) (pd_blocks db))" by (simp add: moved_rows_def)
  have "distinct (map h (moved_rows db)) = distinct (map h (filter (\<lambda>b. bk_old b \<noteq> bk_target b) (pd_blocks db)))" for h :: "BlockRow \<Rightarrow> nat"
    using arg_cong [OF m, of "image_mset h"] by (intro mset_eq_imp_distinct_iff) simp
  then have "distinct (map bk_old (moved_rows db))" "distinct (map bk_target (moved_rows db))"
    using assms(2) by (simp_all add: keys_ok_def distinct_map_filter)
  moreover have "distinct (map (\<lambda>i. start + i) [0..<length (moved_rows db)])" by (simp add: distinct_map)
  moreover have "slot_set db' \<inter> (old_set db' \<union> target_set db') = {}"
    using assms(4) unfolding K(2-4) by (auto simp: sources_def)
  moreover have "\<forall>c \<in> old_set db' \<union> target_set db' \<union> slot_set db'. cluster_inside cs n c"
    using assms(3,4) unfolding K(2-4) by (auto simp: sources_def plan_inside_def)
  ultimately show ?thesis unfolding workspace_ok_def maps by blast
qed

section \<open>A workspace for a plan\<close>

text \<open>The plan, its database and the map of its workspace, as the worker makes them.\<close>

definition workspace_planned ::
  "env \<Rightarrow> services \<Rightarrow> NtfsVolume \<Rightarrow> bytes \<Rightarrow> NtfsLayout \<Rightarrow> NtfsCatalogue \<Rightarrow> bool \<Rightarrow> nat \<Rightarrow> NtfsPlacementVec \<Rightarrow> PlanDb \<Rightarrow> bool" where
  "workspace_planned E Q v d layout catalogue growth clusters vec db \<longleftrightarrow>
     (\<exists>final db0 start. ntfs_plan_layout E layout catalogue clusters growth = Inr (final, vec) \<and>
        ntfs_create_plan_db E Q v d final catalogue (pv_items vec) growth = Inr db0 \<and>
        find_terminal_workspace (nl_bitmap layout) final clusters (ntfs_plan_move_count db0) = Some start \<and>
        ntfs_prepare_workspace_map Q start (ntfs_plan_move_count db0) db0 = Inr db)"

text \<open>The numbers fit their types, the runs the volume, and the bitmap covers the movable streams.\<close>

definition volume_sound :: "nat \<Rightarrow> nat \<Rightarrow> nat \<Rightarrow> NtfsLayout \<Rightarrow> NtfsCatalogue \<Rightarrow> bool" where
  "volume_sound cs clusters n layout catalogue \<longleftrightarrow>
     bits_ok layout \<and> sizes_ok (movable_streams catalogue) \<and> length (nc_items catalogue) \<le> 2147483648 \<and>
     0 < cs \<and> n \<le> SSIZE_MAX \<and> clusters * cs \<le> n \<and>
     (\<forall>s \<in> set (movable_streams catalogue). list_all (run_inside n cs) (ns_runs s) \<and>
        (\<forall>c \<in> stream_clusters s. ntfs_bitmap_bit layout c))"

lemma workspace_planned_ok:
  assumes "workspace_planned E Q v d layout catalogue growth clusters vec db" "volume_sound cs clusters n layout catalogue"
    and "checked_ok E" "checked64_ok E"
  shows "rows_ok (pv_items vec) (movable_streams catalogue) db" "workspace_ok cs n db"
    and "\<forall>p \<in> set (pv_items vec). pm_start p + pm_clusters p \<le> n"
    and "\<forall>x y. goes (pd_blocks db) x y \<longleftrightarrow> (\<exists>s. (x, y, s) \<in> set (keys_of db))"
    and "\<forall>c \<in> slot_set db. \<not> ntfs_bitmap_bit layout c"
    and "old_set db \<subseteq> \<Union> (stream_clusters ` set (movable_streams catalogue))"
    and "\<forall>c \<in> target_set db. ntfs_bitmap_bit layout c \<longrightarrow> c \<in> \<Union> (stream_clusters ` set (movable_streams catalogue))"
proof -
  let ?M = "movable_streams catalogue" and ?P = "pv_items vec"
  obtain final db0 start where planned: "ntfs_plan_layout E layout catalogue clusters growth = Inr (final, vec)"
    and created: "ntfs_create_plan_db E Q v d final catalogue ?P growth = Inr db0"
    and found: "find_terminal_workspace (nl_bitmap layout) final clusters (ntfs_plan_move_count db0) = Some start"
    and prepared: "ntfs_prepare_workspace_map Q start (ntfs_plan_move_count db0) db0 = Inr db"
    using assms(1) unfolding workspace_planned_def by blast
  have V: "bits_ok layout" "sizes_ok ?M" "length (nc_items catalogue) \<le> 2147483648" "0 < cs" "n \<le> SSIZE_MAX" "clusters * cs \<le> n"
    "\<forall>s \<in> set ?M. list_all (run_inside n cs) (ns_runs s)" "\<forall>s \<in> set ?M. \<forall>c \<in> stream_clusters s. ntfs_bitmap_bit layout c"
    using assms(2) unfolding volume_sound_def by blast+
  note plan = planned_db_ok [OF planned assms(3,4) V(1-3) created V(4-7)]
  note W = find_workspace_ok [OF found] and K = prepared_keys [OF prepared]
  have blocks: "pd_blocks db = pd_blocks db0" by (rule prepare_map_ok(3) [OF prepared])
  show rows: "rows_ok ?P ?M db" using plan(1) unfolding rows_ok_def blocks .
  show "\<forall>p \<in> set ?P. pm_start p + pm_clusters p \<le> n" by (rule plan(3))
  show "\<forall>x y. goes (pd_blocks db) x y \<longleftrightarrow> (\<exists>s. (x, y, s) \<in> set (keys_of db))" using K(1) unfolding blocks by blast
  show free: "\<forall>c \<in> slot_set db. \<not> ntfs_bitmap_bit layout c"
    using W(4) unfolding K(2) ntfs_bitmap_bit_def by blast
  have extents: "\<forall>p \<in> set ?P. \<forall>c \<in> data_clusters p. cluster_inside cs n c"
    using plan(2) clusters_inside [OF V(6)] by (fastforce simp: data_clusters_def)
  have ends: "x \<in> \<Union> (stream_clusters ` set ?M) \<and> (\<exists>p \<in> set ?P. y \<in> data_clusters p)" if g: "goes (pd_blocks db0) x y" for x y
  proof -
    obtain b where b: "b \<in> set (pd_blocks db0)" "bk_old b = x" "bk_target b = y" using g unfolding goes_def by blast
    note e = plan_ends [OF plan(1) V(4,5,7) plan(3) b(1)]
    obtain s where s: "s \<in> set ?M" "x \<in> set (stream_list s)" using e(1) b(2) by blast
    have "set (stream_list s) = stream_clusters s" using s(1) V(7) by (intro set_stream_list) blast
    then have "x \<in> stream_clusters s" using s(2) by simp
    then show ?thesis using s(1) e(2) b(3) by blast
  qed
  show "old_set db \<subseteq> \<Union> (stream_clusters ` set ?M)" unfolding K(3) sources_def using ends by blast
  show "\<forall>c \<in> target_set db. ntfs_bitmap_bit layout c \<longrightarrow> c \<in> \<Union> (stream_clusters ` set ?M)"
    unfolding K(4) using ends plan(4) by blast
  have slots: "\<forall>c \<in> {start..<start + ntfs_plan_move_count db0}. cluster_inside cs n c \<and>
      (\<forall>x. \<not> goes (pd_blocks db0) c x) \<and> (\<forall>x. \<not> goes (pd_blocks db0) x c)"
  proof (intro ballI conjI)
    fix c assume c: "c \<in> {start..<start + ntfs_plan_move_count db0}"
    then have "c < clusters" using W(2,3) by auto
    then show "cluster_inside cs n c" by (rule clusters_inside [OF V(6)])
    have "\<not> ntfs_bitmap_bit layout c" using free c unfolding K(2) by blast
    then show "\<forall>x. \<not> goes (pd_blocks db0) c x" using ends V(8) by blast
    have "\<not> ntfs_bitmap_bit final c" using W(4) c by blast
    then show "\<forall>x. \<not> goes (pd_blocks db0) x c" using ends plan(4) by blast
  qed
  have "keys_ok (pd_blocks db0)" using plan(1) unfolding rows_ok_def by blast
  then show "workspace_ok cs n db"
    by (rule prepared_workspace_ok [OF prepared _ plan_inside_ok [OF plan(1) V(4,5,7) plan(3) extents] slots])
qed

end
