(* ===== verification/NtfsRelayoutProps.thy ===== *)
theory NtfsRelayoutProps
  imports NtfsRelayout NtfsPlanProps
begin

text \<open>
  The planner, the plan database and the permutation together.
\<close>

text \<open>C5. The relayout of an NTFS volume loses nothing. When the planner has placed the streams
  of a catalogue and the plan database was created from that plan, permuting the working image
  succeeds, whatever chains and cycles the plan has, and does not change the size of the image.
  Every movable stream then lies as a whole in the one extent planned for it, byte for byte
  what its runs held before, and every cluster in use that does not belong to a movable stream
  holds what it held before.\<close>

theorem ntfs_relayout_preserves:
  assumes "ntfs_plan_layout E layout catalogue clusters growth = Inr (final, vec)" "checked_ok E" "checked64_ok E"
    and "bits_ok layout" "sizes_ok (movable_streams catalogue)" "length (nc_items catalogue) \<le> 2147483648"
    and "ntfs_create_plan_db E Q v (w_disk w) final catalogue (pv_items vec) growth = Inr db"
    and "io_reliable E" "sql_works Q" "w_stop w = None" "0 < cs" "length (w_disk w) \<le> SSIZE_MAX" "clusters * cs \<le> length (w_disk w)"
    and "\<forall>s \<in> set (movable_streams catalogue). list_all (run_inside (length (w_disk w)) cs) (ns_runs s)"
  shows "\<exists>db' w'. ntfs_permute_stage E Q True cs (ntfs_plan_move_count db) db w = (Inr db', w') \<and>
    length (w_disk w') = length (w_disk w) \<and>
    (\<forall>s \<in> set (movable_streams catalogue). \<exists>p \<in> set (pv_items vec).
      pm_record_number p = ns_record_number s \<and> pm_attribute_offset p = ns_attribute_offset s \<and>
      read_at (pm_start p * cs) (pm_clusters p * cs) (w_disk w') = stream_data (w_disk w) cs (ns_runs s)) \<and>
    (\<forall>c < clusters. ntfs_bitmap_bit layout c \<longrightarrow>
      c \<notin> \<Union> (stream_clusters ` set (movable_streams catalogue)) \<longrightarrow>
      read_at (c * cs) cs (w_disk w') = read_at (c * cs) cs (w_disk w))"
proof -
  let ?P = "pv_items vec" and ?n = "length (w_disk w)" and ?M = "movable_streams catalogue"
  note plan = planned_db_ok [OF assms(1-7,11-14)]
  have extents: "\<forall>p \<in> set ?P. \<forall>c \<in> data_clusters p. cluster_inside cs ?n c"
    using plan(2) clusters_inside [OF assms(13)] by (fastforce simp: data_clusters_def)
  obtain db' w' where run: "ntfs_permute_stage E Q True cs (ntfs_plan_move_count db) db w = (Inr db', w')"
    and len: "length (w_disk w') = ?n"
    and moved: "\<And>s. s \<in> set ?M \<Longrightarrow> \<exists>p \<in> set ?P. find_placement ?P (ns_record_number s) (ns_attribute_offset s) = Some p \<and>
      read_at (pm_start p * cs) (pm_clusters p * cs) (w_disk w') = stream_data (w_disk w) cs (ns_runs s)"
    and kept: "\<And>c. cluster_inside cs ?n c \<Longrightarrow> \<forall>p \<in> set ?P. c \<notin> data_clusters p \<Longrightarrow> cluster_of cs (w_disk w') c = cluster_of cs (w_disk w) c"
    using permute_plan_ok [OF plan(1) assms(8-10,12,11,14) extents plan(3)] by blast
  have "read_at (c * cs) cs (w_disk w') = read_at (c * cs) cs (w_disk w)"
    if c: "c < clusters" "ntfs_bitmap_bit layout c" "c \<notin> \<Union> (stream_clusters ` set ?M)" for c
    using kept [OF clusters_inside [OF assms(13) c(1)]] plan(4) c(2,3) by (auto simp: cluster_of_def)
  moreover have "\<exists>p \<in> set ?P. pm_record_number p = ns_record_number s \<and> pm_attribute_offset p = ns_attribute_offset s \<and>
      read_at (pm_start p * cs) (pm_clusters p * cs) (w_disk w') = stream_data (w_disk w) cs (ns_runs s)"
    if "s \<in> set ?M" for s
    using moved [OF that] find_placement_Some by metis
  ultimately show ?thesis using run len by blast
qed

text \<open>The plan of the planner's example on an image of eight clusters of one byte.\<close>

definition demo_stage_services :: services where
  "demo_stage_services = \<lparr>sv_sql = (\<lambda>s n. True), sv_sha256 = (\<lambda>bs. Some (replicate 32 0))\<rparr>"

definition demo_stage_world :: world where
  "demo_stage_world = \<lparr>w_disk = [10, 11, 12, 13, 14, 15, 16, 17], w_files = Map.empty, w_stop = None, w_trace = []\<rparr>"

definition demo_stage_volume :: NtfsVolume where
  "demo_stage_volume = \<lparr>nv_device_size = 8, nv_volume_bytes = 8, nv_bytes_per_sector = 1, nv_sectors_per_cluster = 1,
     nv_cluster_size = 1, nv_total_clusters = 8, nv_mft_lcn = 0, nv_mftmirr_lcn = 0, nv_record_size = 1, nv_serial = []\<rparr>"

definition demo_placements :: "NtfsPlacement list" where
  "demo_placements =
     [\<lparr>pm_record_number = 30, pm_attribute_offset = 56, pm_start = 1, pm_clusters = 1, pm_reserve = 0\<rparr>,
      \<lparr>pm_record_number = 31, pm_attribute_offset = 56, pm_start = 2, pm_clusters = 2, pm_reserve = 0\<rparr>]"

lemma two_clusters: "[0..<2] = [0, 1 :: nat]"
  by (simp add: upt_rec)

lemma demo_marked:
  "length (nl_bitmap (foldl mark_placement (demo_plan_layout\<lparr>nl_bitmap := [0x81]\<rparr>) demo_placements)) = 1"
  by (simp add: demo_placements_def demo_plan_layout_def mark_placement_def set_clusters_def ntfs_bitmap_set_def
    bitmap_set_def byte_index u64_def Let_def two_clusters)

lemma demo_planned:
  "\<exists>final vec. ntfs_plan_layout ref_env demo_plan_layout demo_plan_catalogue 8 False = Inr (final, vec) \<and>
     pv_items vec = demo_placements \<and> length (nl_bitmap final) = 1"
proof -
  have "\<exists>st. fill_run ref_env \<lparr>fr_start = 1, fr_length = 6\<rparr>
     \<lparr>ps_remaining = rev (movable_items demo_plan_streams False),
      ps_total_span = foldl (\<lambda>n i. u64 (n + pi_span i)) 0 (rev (movable_items demo_plan_streams False)),
      ps_placed = \<lparr>pv_items = [], pv_envelope_start = 0, pv_envelope_end = 0, pv_fixed_streams = 0,
        pv_fixed_slack_clusters = 0\<rparr>, ps_have_start = False\<rparr> = Inr st \<and> ps_remaining st = [] \<and>
     pv_items (ps_placed st) = demo_placements"
    unfolding demo_items
    by (simp add: demo_plan_streams_def demo_plan_stream_def fill_run_def u64_def place_items_def placement_push_def
      sub64_def demo_placements_def)
  then show ?thesis
    by (auto simp: Let_def ntfs_plan_layout_def demo_plan_catalogue_def empty_catalogue_def demo_classified demo_released
      demo_free demo_sorted demo_marked [unfolded One_nat_def])
qed

lemma demo_read: "c < 8 \<Longrightarrow> read_cluster ref_env (Suc 0) message (w_disk demo_stage_world) c = Inr [w_disk demo_stage_world ! c]"
  using read_cluster_ok [OF io_reliable_ref, of 1 "w_disk demo_stage_world" c message]
  by (simp add: cluster_inside_def demo_stage_world_def cluster_of_def read_at_def take_Suc_conv_app_nth hd_drop_conv_nth take_Suc)

lemma demo_created:
  assumes "length (nl_bitmap final) = 1"
  shows "\<exists>db. ntfs_create_plan_db ref_env demo_stage_services demo_stage_volume (w_disk demo_stage_world) final
    demo_plan_catalogue demo_placements False = Inr db"
  using assms
  by (simp add: ntfs_create_plan_db_def demo_plan_catalogue_def empty_catalogue_def demo_plan_streams_def demo_plan_stream_def
    plan_stream_def plan_fixed_def find_placement_def demo_placements_def ntfs_stream_digest_def demo_stage_volume_def
    demo_stage_services_def insert_run_def insert_block_def u64_def empty_db_def demo_read two_clusters)

theorem ntfs_relayout_preserves_witness:
  "\<exists>final vec db db' w'. ntfs_plan_layout ref_env demo_plan_layout demo_plan_catalogue 8 False = Inr (final, vec) \<and>
     ntfs_permute_stage ref_env demo_stage_services True 1 (ntfs_plan_move_count db) db demo_stage_world = (Inr db', w') \<and>
     (\<exists>p \<in> set (pv_items vec). pm_record_number p = 31 \<and> read_at (pm_start p) (pm_clusters p) (w_disk w') = [16, 14])"
proof -
  obtain final vec where plan: "ntfs_plan_layout ref_env demo_plan_layout demo_plan_catalogue 8 False = Inr (final, vec)"
    and items: "pv_items vec = demo_placements" and bitmap: "length (nl_bitmap final) = 1"
    using demo_planned by blast
  obtain db where db: "ntfs_create_plan_db ref_env demo_stage_services demo_stage_volume (w_disk demo_stage_world) final
    demo_plan_catalogue (pv_items vec) False = Inr db"
    using demo_created [OF bitmap] items by auto
  have movable: "movable_streams demo_plan_catalogue = demo_plan_streams"
    by (simp add: movable_streams_def demo_plan_catalogue_def demo_plan_streams_def demo_plan_stream_def)
  have "\<exists>db' w'. ntfs_permute_stage ref_env demo_stage_services True 1 (ntfs_plan_move_count db) db demo_stage_world = (Inr db', w') \<and>
    (\<forall>s \<in> set demo_plan_streams. \<exists>p \<in> set (pv_items vec). pm_record_number p = ns_record_number s \<and>
      read_at (pm_start p) (pm_clusters p) (w_disk w') = stream_data (w_disk demo_stage_world) 1 (ns_runs s))"
    using ntfs_relayout_preserves [OF plan checked_ok_ref checked64_ok_ref _ _ _ db io_reliable_ref, where cs = 1] unfolding movable
    by (simp add: bits_ok_def demo_plan_layout_def sizes_ok_def demo_plan_streams_def demo_plan_stream_def run_inside_def
      demo_stage_world_def demo_plan_catalogue_def sql_works_def demo_stage_services_def) blast
  then obtain db' w' where run: "ntfs_permute_stage ref_env demo_stage_services True 1 (ntfs_plan_move_count db) db demo_stage_world = (Inr db', w')"
    and moved: "\<forall>s \<in> set demo_plan_streams. \<exists>p \<in> set (pv_items vec). pm_record_number p = ns_record_number s \<and>
      read_at (pm_start p) (pm_clusters p) (w_disk w') = stream_data (w_disk demo_stage_world) 1 (ns_runs s)"
    by blast
  have "\<exists>p \<in> set (pv_items vec). pm_record_number p = 31 \<and> read_at (pm_start p) (pm_clusters p) (w_disk w') = [16, 14]"
    using moved by (auto simp: demo_plan_streams_def demo_plan_stream_def run_data_def read_at_def demo_stage_world_def numeral_eq_Suc)
  with plan run show ?thesis by blast
qed

end
