(* ===== verification/NtfsWorkspaceProps.thy ===== *)
theory NtfsWorkspaceProps
  imports NtfsWorkspace NtfsRelayoutProps LdDeviceProps
begin

text \<open>
  The relayout through the terminal workspace: what placing from it leaves, and what a stop at
  any moment leaves after the old clusters have been taken back from it.
\<close>

section \<open>Staging, placing and restoring\<close>

text \<open>Between two calls the worker changes neither the clusters that move nor the workspace.\<close>

definition settled :: "nat \<Rightarrow> NtfsCatalogue \<Rightarrow> PlanDb \<Rightarrow> world \<Rightarrow> world \<Rightarrow> bool" where
  "settled cs catalogue db w w' \<longleftrightarrow> length (w_disk w') = length (w_disk w) \<and>
     (\<forall>c \<in> \<Union> (stream_clusters ` set (movable_streams catalogue)) \<union> slot_set db.
        cluster_of cs (w_disk w') c = cluster_of cs (w_disk w) c)"

lemma stage_ok:
  assumes "workspace_planned E Q v (w_disk w) layout catalogue growth clusters vec db"
    and "volume_sound cs clusters (length (w_disk w)) layout catalogue"
    and "checked_ok E" "checked64_ok E" "io_reliable E" "sql_works Q"
    and "ntfs_stage_workspace E Q a cs identity physical db w = (Inr (Some db1), w1)"
  shows "keys_of db1 = keys_of db" "length (w_disk w1) = length (w_disk w)"
    and "\<forall>c < clusters. ntfs_bitmap_bit layout c \<longrightarrow> cluster_of cs (w_disk w1) c = cluster_of cs (w_disk w) c"
    and "\<forall>x y s. (x, y, s) \<in> set (keys_of db) \<longrightarrow> cluster_of cs (w_disk w1) s = cluster_of cs (w_disk w) x"
proof -
  note P = workspace_planned_ok [OF assms(1-4)]
  have V: "length (w_disk w) \<le> SSIZE_MAX" "clusters * cs \<le> length (w_disk w)" using assms(2) unfolding volume_sound_def by blast+
  note S = stage_effect [OF assms(5) V(1) P(2) assms(7)]
  show "keys_of db1 = keys_of db" "\<forall>x y s. (x, y, s) \<in> set (keys_of db) \<longrightarrow> cluster_of cs (w_disk w1) s = cluster_of cs (w_disk w) x"
    using S(3) assms(6) by blast+
  show "length (w_disk w1) = length (w_disk w)" by (rule S(1))
  show "\<forall>c < clusters. ntfs_bitmap_bit layout c \<longrightarrow> cluster_of cs (w_disk w1) c = cluster_of cs (w_disk w) c"
    using S(2) P(5) clusters_inside [OF V(2)] by blast
qed

text \<open>A cluster of a stream whose row does not move it is not the target of another.\<close>

lemma stays_put:
  assumes "rows_ok P M db" "s \<in> set M" "c \<in> set (stream_list s)" "\<forall>y. \<not> goes (pd_blocks db) c y"
  shows "\<not> goes (pd_blocks db) x c"
proof
  assume "goes (pd_blocks db) x c"
  then obtain b where b: "b \<in> set (pd_blocks db)" "bk_old b = x" "bk_target b = c" "x \<noteq> c" by (auto simp: goes_def)
  obtain p where f: "find_placement P (ns_record_number s) (ns_attribute_offset s) = Some p"
    using assms(1,2) unfolding rows_ok_def planned_at_def by blast
  obtain i where i: "i < length (stream_list s)" "stream_list s ! i = c" using assms(3) by (auto simp: in_set_conv_nth)
  have B: "pd_blocks db = concat (map (block_rows P) M)" "keys_ok (pd_blocks db)" using assms(1) unfolding rows_ok_def by blast+
  have own: "\<lparr>bk_old = c, bk_target = u64 (pm_start p + i), bk_placed = False\<rparr> \<in> set (pd_blocks db)"
    using row_in_plan [OF assms(2) f i(1)] unfolding i(2) B(1) .
  then have "u64 (pm_start p + i) = c" using assms(4) unfolding goes_def by fastforce
  then have "b = \<lparr>bk_old = c, bk_target = u64 (pm_start p + i), bk_placed = False\<rparr>"
    using B(2) own b unfolding keys_ok_def distinct_map inj_on_def by (metis BlockRow.select_convs(2))
  then show False using b(2,4) by simp
qed

text \<open>The contents of the streams and of the other used clusters once everything is placed.\<close>

lemma placed_ok:
  assumes "workspace_planned E Q v (w_disk w) layout catalogue growth clusters vec db"
    and "volume_sound cs clusters (length (w_disk w)) layout catalogue"
    and "checked_ok E" "checked64_ok E" "io_reliable E" "sql_works Q"
    and "ntfs_stage_workspace E Q a cs identity physical db w = (Inr (Some db1), w1)" "settled cs catalogue db w1 w2"
    and "ntfs_place_workspace E Q b cs identity physical aware db1 w2 = (Inr (Some db2), w3)"
  shows "\<forall>s \<in> set (movable_streams catalogue). \<exists>p \<in> set (pv_items vec).
      find_placement (pv_items vec) (ns_record_number s) (ns_attribute_offset s) = Some p \<and>
      read_at (pm_start p * cs) (pm_clusters p * cs) (w_disk w3) = stream_data (w_disk w) cs (ns_runs s)"
    and "\<forall>c < clusters. ntfs_bitmap_bit layout c \<longrightarrow> c \<notin> \<Union> (stream_clusters ` set (movable_streams catalogue)) \<longrightarrow>
      cluster_of cs (w_disk w3) c = cluster_of cs (w_disk w2) c"
proof -
  let ?M = "movable_streams catalogue"
  note P = workspace_planned_ok [OF assms(1-4)] and S = stage_ok [OF assms(1-7)]
  have V: "0 < cs" "length (w_disk w) \<le> SSIZE_MAX" "clusters * cs \<le> length (w_disk w)"
    "\<forall>s \<in> set ?M. list_all (run_inside (length (w_disk w)) cs) (ns_runs s)" "\<forall>s \<in> set ?M. \<forall>c \<in> stream_clusters s. ntfs_bitmap_bit layout c"
    using assms(2) unfolding volume_sound_def by blast+
  have len: "length (w_disk w2) = length (w_disk w)" and same: "\<And>c. c \<in> \<Union> (stream_clusters ` set ?M) \<union> slot_set db \<Longrightarrow>
      cluster_of cs (w_disk w2) c = cluster_of cs (w_disk w1) c"
    using assms(8) S(2) unfolding settled_def by auto
  have ok: "workspace_ok cs (length (w_disk w2)) db1" using P(2) len workspace_keys(4) [OF S(1)] by simp
  note place = place_effect [OF assms(5) _ ok assms(9), unfolded S(1) workspace_keys(2) [OF S(1)] len]
  have moved: "cluster_of cs (w_disk w3) y = cluster_of cs (w_disk w) x" if g: "goes (pd_blocks db) x y" for x y
  proof -
    obtain s where s: "(x, y, s) \<in> set (keys_of db)" using g P(4) by blast
    have "cluster_of cs (w_disk w3) y = cluster_of cs (w_disk w2) s" using place(3) [OF V(2)] assms(6) s by blast
    moreover have "cluster_of cs (w_disk w2) s = cluster_of cs (w_disk w1) s" using in_sets [OF s] by (intro same) blast
    moreover have "cluster_of cs (w_disk w1) s = cluster_of cs (w_disk w) x" using S(4) s by blast
    ultimately show ?thesis by simp
  qed
  have still: "cluster_of cs (w_disk w3) c = cluster_of cs (w_disk w2) c"
    if "cluster_inside cs (length (w_disk w)) c" "c \<notin> target_set db" for c
    using place(2) [OF V(2)] that by blast
  have kept: "cluster_of cs (w_disk w3) c = cluster_of cs (w_disk w) c"
    if s: "s \<in> set ?M" "c \<in> set (stream_list s)" and none: "\<forall>x. \<not> goes (pd_blocks db) x c" for s c
  proof -
    have inside: "cluster_inside cs (length (w_disk w)) c" using V(4) s stream_inside by blast
    have member: "c \<in> stream_clusters s" using s V(4) set_stream_list by blast
    have "c \<notin> target_set db" using none P(4) unfolding target_set_def by force
    then have "cluster_of cs (w_disk w3) c = cluster_of cs (w_disk w2) c" by (rule still [OF inside])
    also have "\<dots> = cluster_of cs (w_disk w1) c" using s(1) member by (intro same) blast
    also have "\<dots> = cluster_of cs (w_disk w) c"
    proof -
      have "c \<notin> slot_set db" using P(5) V(5) s(1) member by blast
      then show ?thesis using stage_effect(2) [OF assms(5) V(2) P(2) assms(7)] inside by blast
    qed
    finally show ?thesis .
  qed
  show "\<forall>s \<in> set ?M. \<exists>p \<in> set (pv_items vec).
      find_placement (pv_items vec) (ns_record_number s) (ns_attribute_offset s) = Some p \<and>
      read_at (pm_start p * cs) (pm_clusters p * cs) (w_disk w3) = stream_data (w_disk w) cs (ns_runs s)"
    by (rule plan_streams_moved [OF P(1) V(1,2,4) P(3) moved kept])
  show "\<forall>c < clusters. ntfs_bitmap_bit layout c \<longrightarrow> c \<notin> \<Union> (stream_clusters ` set ?M) \<longrightarrow>
      cluster_of cs (w_disk w3) c = cluster_of cs (w_disk w2) c"
    using still clusters_inside [OF V(3)] P(7) by blast
qed

text \<open>Whatever placing did, restoring from the workspace undoes it.\<close>

lemma restored_ok:
  assumes "workspace_planned E Q v (w_disk w) layout catalogue growth clusters vec db"
    and "volume_sound cs clusters (length (w_disk w)) layout catalogue"
    and "checked_ok E" "checked64_ok E" "io_reliable E" "sql_works Q"
    and "ntfs_stage_workspace E Q a cs identity physical db w = (Inr (Some db1), w1)" "settled cs catalogue db w1 w2"
    and "ntfs_place_workspace E Q b cs identity physical aware db1 w2 = (r, w3)"
    and "ntfs_restore_workspace E Q u cs identity physical db1 w3 = (Inr (Some db4), w4)"
    and "c < clusters" "ntfs_bitmap_bit layout c"
  shows "cluster_of cs (w_disk w4) c =
    cluster_of cs (w_disk (if c \<in> \<Union> (stream_clusters ` set (movable_streams catalogue)) then w else w2)) c"
proof -
  let ?M = "movable_streams catalogue"
  note P = workspace_planned_ok [OF assms(1-4)] and S = stage_ok [OF assms(1-7)]
  have V: "length (w_disk w) \<le> SSIZE_MAX" "clusters * cs \<le> length (w_disk w)"
    "\<forall>s \<in> set ?M. list_all (run_inside (length (w_disk w)) cs) (ns_runs s)"
    using assms(2) unfolding volume_sound_def by blast+
  have inside: "cluster_inside cs (length (w_disk w)) c" by (rule clusters_inside [OF V(2) assms(11)])
  have len: "length (w_disk w2) = length (w_disk w)" and same: "\<And>c. c \<in> \<Union> (stream_clusters ` set ?M) \<union> slot_set db \<Longrightarrow>
      cluster_of cs (w_disk w2) c = cluster_of cs (w_disk w1) c"
    using assms(8) S(2) unfolding settled_def by auto
  have ok: "workspace_ok cs (length (w_disk w2)) db1" using P(2) len workspace_keys(4) [OF S(1)] by simp
  note place = place_effect [OF assms(5) _ ok assms(9), unfolded S(1) workspace_keys(2) [OF S(1)] len]
  have ok3: "workspace_ok cs (length (w_disk w3)) db1" using ok place(1) [OF V(1)] len by simp
  note restore = restore_effect [OF assms(5) _ ok3 assms(10), unfolded S(1) workspace_keys(1) [OF S(1)] place(1) [OF V(1)]]
  show ?thesis
  proof (cases "c \<in> old_set db")
    case True
    then obtain t s where k: "(c, t, s) \<in> set (keys_of db)" unfolding old_set_def by auto
    have c: "c \<in> \<Union> (stream_clusters ` set ?M)" using True P(6) by blast
    have s: "s \<notin> target_set db" "cluster_inside cs (length (w_disk w)) s"
      using in_sets [OF k] workspace_subset(3) [OF P(2) k] P(2) unfolding workspace_ok_def by blast+
    have "cluster_of cs (w_disk w4) c = cluster_of cs (w_disk w3) s" using restore(3) [OF V(1)] assms(6) k by blast
    also have "\<dots> = cluster_of cs (w_disk w2) s" using place(2) [OF V(1)] s by blast
    also have "\<dots> = cluster_of cs (w_disk w1) s" using in_sets [OF k] by (intro same) blast
    also have "\<dots> = cluster_of cs (w_disk w) c" using S(4) k by blast
    finally show ?thesis using c by simp
  next
    case False
    then have one: "cluster_of cs (w_disk w4) c = cluster_of cs (w_disk w3) c" using restore(2) [OF V(1)] inside by blast
    have "c \<notin> target_set db"
    proof
      assume t: "c \<in> target_set db"
      then obtain s where s: "s \<in> set ?M" "c \<in> stream_clusters s" using P(7) assms(12) by blast
      have "c \<in> set (stream_list s)" using s V(3) set_stream_list by blast
      moreover have "\<forall>y. \<not> goes (pd_blocks db) c y" using False P(4) in_sets by blast
      ultimately have "\<not> goes (pd_blocks db) x c" for x by (rule stays_put [OF P(1) s(1)])
      then show False using t P(4) unfolding target_set_def by force
    qed
    then have "cluster_of cs (w_disk w3) c = cluster_of cs (w_disk w2) c" using place(2) [OF V(1)] inside by blast
    then show ?thesis using one same S(3) assms(11,12) by auto
  qed
qed

section \<open>Properties\<close>

text \<open>C6. The relayout of an NTFS volume through the free clusters at its end loses nothing.
  For a plan the planner made, whose workspace map was recorded, and with access to the target,
  staging succeeds and changes no cluster in use. Placing then succeeds in whatever world the
  worker has come to meanwhile, as long as it has not touched the streams and the workspace, and
  leaves every movable stream as a whole in its placement, byte for byte what it held at first;
  the other clusters in use are what they were before placing.\<close>

theorem ntfs_workspace_preserves:
  assumes "workspace_planned E Q v (w_disk w) layout catalogue growth clusters vec db"
    and "volume_sound cs clusters (length (w_disk w)) layout catalogue"
    and "checked_ok E" "checked64_ok E" "io_reliable E" "sql_works Q" "digests_work Q"
    and "access_granted a identity physical" "access_granted b identity physical" "w_stop w = None"
  shows "\<exists>db1 w1. ntfs_stage_workspace E Q a cs identity physical db w = (Inr (Some db1), w1) \<and>
    (\<forall>c < clusters. ntfs_bitmap_bit layout c \<longrightarrow> cluster_of cs (w_disk w1) c = cluster_of cs (w_disk w) c) \<and>
    (\<forall>w2. settled cs catalogue db w1 w2 \<and> w_stop w2 = None \<longrightarrow>
      (\<exists>db2 w3. ntfs_place_workspace E Q b cs identity physical True db1 w2 = (Inr (Some db2), w3) \<and>
        (\<forall>s \<in> set (movable_streams catalogue). \<exists>p \<in> set (pv_items vec).
          pm_record_number p = ns_record_number s \<and> pm_attribute_offset p = ns_attribute_offset s \<and>
          read_at (pm_start p * cs) (pm_clusters p * cs) (w_disk w3) = stream_data (w_disk w) cs (ns_runs s)) \<and>
        (\<forall>c < clusters. ntfs_bitmap_bit layout c \<longrightarrow> c \<notin> \<Union> (stream_clusters ` set (movable_streams catalogue)) \<longrightarrow>
          cluster_of cs (w_disk w3) c = cluster_of cs (w_disk w2) c)))"
proof -
  note P = workspace_planned_ok [OF assms(1-4)]
  have n: "length (w_disk w) \<le> SSIZE_MAX" using assms(2) unfolding volume_sound_def by blast
  obtain db1 w1 where stage: "ntfs_stage_workspace E Q a cs identity physical db w = (Inr (Some db1), w1)"
    using stage_done [OF assms(5-8) n assms(10) P(2)] by blast
  note S = stage_ok [OF assms(1-6) stage]
  have "\<exists>db2 w3. ntfs_place_workspace E Q b cs identity physical True db1 w2 = (Inr (Some db2), w3) \<and>
        (\<forall>s \<in> set (movable_streams catalogue). \<exists>p \<in> set (pv_items vec).
          pm_record_number p = ns_record_number s \<and> pm_attribute_offset p = ns_attribute_offset s \<and>
          read_at (pm_start p * cs) (pm_clusters p * cs) (w_disk w3) = stream_data (w_disk w) cs (ns_runs s)) \<and>
        (\<forall>c < clusters. ntfs_bitmap_bit layout c \<longrightarrow> c \<notin> \<Union> (stream_clusters ` set (movable_streams catalogue)) \<longrightarrow>
          cluster_of cs (w_disk w3) c = cluster_of cs (w_disk w2) c)"
    if w2: "settled cs catalogue db w1 w2" "w_stop w2 = None" for w2
  proof -
    have len: "length (w_disk w2) = length (w_disk w)" using w2(1) S(2) by (simp add: settled_def)
    have ok: "workspace_ok cs (length (w_disk w2)) db1" unfolding len workspace_keys(4) [OF S(1)] by (rule P(2))
    obtain db2 w3 where place: "ntfs_place_workspace E Q b cs identity physical True db1 w2 = (Inr (Some db2), w3)"
      using place_done [OF assms(5-7,9) _ w2(2) ok] n unfolding len by blast
    note placed = placed_ok [OF assms(1-6) stage w2(1) place]
    have "\<exists>p \<in> set (pv_items vec). pm_record_number p = ns_record_number s \<and> pm_attribute_offset p = ns_attribute_offset s \<and>
        read_at (pm_start p * cs) (pm_clusters p * cs) (w_disk w3) = stream_data (w_disk w) cs (ns_runs s)"
      if s: "s \<in> set (movable_streams catalogue)" for s
    proof -
      obtain p where "find_placement (pv_items vec) (ns_record_number s) (ns_attribute_offset s) = Some p"
        "read_at (pm_start p * cs) (pm_clusters p * cs) (w_disk w3) = stream_data (w_disk w) cs (ns_runs s)"
        using placed(1) s by blast
      then show ?thesis using find_placement_Some by blast
    qed
    then show ?thesis using place placed(2) by blast
  qed
  then show ?thesis using stage S(3) by blast
qed


section \<open>An example\<close>

text \<open>Eight clusters of one byte; a stream whose two clusters 2 and 1 change places, so that the
  workspace are the clusters 5 and 6.\<close>

definition swap_streams :: "NtfsStream list" where
  "swap_streams = [demo_plan_stream 31 2
     [\<lparr>nr_lcn = 2, nr_length = 1, nr_sparse = False\<rparr>, \<lparr>nr_lcn = 1, nr_length = 1, nr_sparse = False\<rparr>]]"

definition swap_catalogue :: NtfsCatalogue where
  "swap_catalogue = empty_catalogue\<lparr>nc_items := swap_streams\<rparr>"

definition swap_layout :: NtfsLayout where
  "swap_layout = demo_plan_layout\<lparr>nl_bitmap := [0x87]\<rparr>"

definition swap_placements :: "NtfsPlacement list" where
  "swap_placements = [\<lparr>pm_record_number = 31, pm_attribute_offset = 56, pm_start = 1, pm_clusters = 2, pm_reserve = 0\<rparr>]"

definition demo_access :: Access where
  "demo_access = \<lparr>ac_open = demo_answers, ac_locked = True\<rparr>"

lemma demo_granted: "access_granted demo_access None 8"
  by (simp add: access_granted_def demo_access_def ld_device_open_verified_fd_def ld_device_try_open_def demo_answers_def
    demo_status_def same_object_def)

lemma swap_items: "movable_items swap_streams False = [\<lparr>pi_stream = hd swap_streams, pi_span = 2\<rparr>]"
  by (simp add: swap_streams_def demo_plan_stream_def movable_items_def stream_span_def u64_def)

lemma swap_released:
  "foldl (\<lambda>l i. set_stream_free (pi_stream i) l) swap_layout (movable_items swap_streams False) =
     demo_plan_layout\<lparr>nl_bitmap := [0x81]\<rparr>"
  unfolding swap_items
  by (simp add: swap_streams_def swap_layout_def demo_plan_stream_def demo_plan_layout_def set_stream_free_def set_clusters_def
    ntfs_bitmap_set_def bitmap_set_def byte_index u64_def Let_def)

lemma swap_marked:
  "nl_bitmap (foldl mark_placement (demo_plan_layout\<lparr>nl_bitmap := [0x81]\<rparr>) swap_placements) = [0x87]"
  by (simp add: swap_placements_def demo_plan_layout_def mark_placement_def set_clusters_def ntfs_bitmap_set_def
    bitmap_set_def byte_index u64_def Let_def two_clusters)

lemma swap_planned:
  "\<exists>final vec. ntfs_plan_layout ref_env swap_layout swap_catalogue 8 False = Inr (final, vec) \<and>
     pv_items vec = swap_placements \<and> nl_bitmap final = [0x87]"
proof -
  have classified: "foldE (classify_stream swap_streams) swap_streams (0, 0) = Inr (1, 0)"
    by (simp add: swap_streams_def demo_plan_stream_def classify_stream_def)
  have sorted: "qsort_by cmp_plan_item (movable_items swap_streams False) = movable_items swap_streams False"
    unfolding swap_items by (simp add: qsort_by_def)
  have "\<exists>st. fill_run ref_env \<lparr>fr_start = 1, fr_length = 6\<rparr>
     \<lparr>ps_remaining = movable_items swap_streams False,
      ps_total_span = foldl (\<lambda>n i. u64 (n + pi_span i)) 0 (movable_items swap_streams False),
      ps_placed = \<lparr>pv_items = [], pv_envelope_start = 0, pv_envelope_end = 0, pv_fixed_streams = 0,
        pv_fixed_slack_clusters = 0\<rparr>, ps_have_start = False\<rparr> = Inr st \<and> ps_remaining st = [] \<and>
     pv_items (ps_placed st) = swap_placements"
    unfolding swap_items
    by (simp add: swap_streams_def demo_plan_stream_def fill_run_def u64_def place_items_def placement_push_def
      sub64_def swap_placements_def)
  then show ?thesis
    by (auto simp: Let_def ntfs_plan_layout_def swap_catalogue_def empty_catalogue_def classified swap_released
      demo_free sorted swap_marked [unfolded One_nat_def])
qed

lemma swap_created:
  assumes "nl_bitmap final = [0x87]"
  shows "\<exists>db. ntfs_create_plan_db ref_env demo_stage_services demo_stage_volume (w_disk demo_stage_world) final
    swap_catalogue swap_placements False = Inr db \<and>
    pd_blocks db = [\<lparr>bk_old = 2, bk_target = 1, bk_placed = False\<rparr>, \<lparr>bk_old = 1, bk_target = 2, bk_placed = False\<rparr>]"
  using assms
  by (simp add: ntfs_create_plan_db_def swap_catalogue_def empty_catalogue_def swap_streams_def demo_plan_stream_def
    plan_stream_def plan_fixed_def find_placement_def swap_placements_def ntfs_stream_digest_def demo_stage_volume_def
    demo_stage_services_def insert_run_def insert_block_def u64_def empty_db_def demo_read [unfolded One_nat_def] two_clusters)

lemma demo_sql: "sql_works demo_stage_services" and demo_digests: "digests_work demo_stage_services"
  by (simp_all add: sql_works_def digests_work_def demo_stage_services_def)

lemma free_tail_step:
  "0 < n \<Longrightarrow> free_tail a b n = (if n = 1 \<or> bitmap_bit a (n - 1) \<or> ntfs_bitmap_bit b (n - 1) then n else free_tail a b (n - 1))"
  by (cases n) simp_all

lemma swap_found:
  assumes "nl_bitmap final = [0x87]"
  shows "find_terminal_workspace (nl_bitmap swap_layout) final 8 2 = Some 5"
proof -
  have "free_tail [0x87] final 7 = 3"
    using assms by (simp add: free_tail_step ntfs_bitmap_bit_def bitmap_bit_def u64_def del: free_tail.simps)
  then show ?thesis by (simp add: find_terminal_workspace_def swap_layout_def)
qed

lemma swap_workspace:
  "\<exists>vec db. workspace_planned ref_env demo_stage_services demo_stage_volume (w_disk demo_stage_world) swap_layout swap_catalogue
     False 8 vec db \<and> pv_items vec = swap_placements \<and> keys_of db = [(1, 2, 5), (2, 1, 6)]"
proof -
  obtain final vec where plan: "ntfs_plan_layout ref_env swap_layout swap_catalogue 8 False = Inr (final, vec)"
    and items: "pv_items vec = swap_placements" and bitmap: "nl_bitmap final = [0x87]"
    using swap_planned by blast
  obtain db where db: "ntfs_create_plan_db ref_env demo_stage_services demo_stage_volume (w_disk demo_stage_world) final
      swap_catalogue (pv_items vec) False = Inr db"
    and blocks: "pd_blocks db = [\<lparr>bk_old = 2, bk_target = 1, bk_placed = False\<rparr>, \<lparr>bk_old = 1, bk_target = 2, bk_placed = False\<rparr>]"
    using swap_created [OF bitmap] items by auto
  have moves: "ntfs_plan_move_count db = 2" by (simp add: ntfs_plan_move_count_def blocks)
  have "\<exists>db'. ntfs_prepare_workspace_map demo_stage_services 5 2 db = Inr db' \<and> keys_of db' = [(1, 2, 5), (2, 1, 6)]"
    by (simp add: ntfs_prepare_workspace_map_def blocks demo_stage_services_def sql_rows_def Let_def int64_def keys_of_def two_clusters)
  then show ?thesis using plan items db moves swap_found [OF bitmap] unfolding workspace_planned_def by metis
qed

lemma swap_movable: "movable_streams swap_catalogue = swap_streams"
  by (simp add: movable_streams_def swap_catalogue_def swap_streams_def demo_plan_stream_def)

lemma swap_bits: "c = 1 \<or> c = 2 \<Longrightarrow> ntfs_bitmap_bit swap_layout c"
  by (auto simp: swap_layout_def demo_plan_layout_def ntfs_bitmap_bit_def bitmap_bit_def u64_def)

lemma swap_clusters: "stream_clusters (hd swap_streams) = {1, 2}"
  by (auto simp: swap_streams_def demo_plan_stream_def stream_clusters_def run_clusters_def)

lemma swap_sound: "volume_sound 1 8 (length (w_disk demo_stage_world)) swap_layout swap_catalogue"
proof -
  have one: "set swap_streams = {hd swap_streams}" by (simp add: swap_streams_def)
  have "list_all (run_inside (length (w_disk demo_stage_world)) 1) (ns_runs (hd swap_streams))"
    by (simp add: swap_streams_def demo_plan_stream_def run_inside_def demo_stage_world_def)
  moreover have "bits_ok swap_layout" "sizes_ok swap_streams" "length (nc_items swap_catalogue) \<le> 2147483648"
    by (simp_all add: bits_ok_def swap_layout_def demo_plan_layout_def sizes_ok_def swap_streams_def demo_plan_stream_def swap_catalogue_def)
  moreover have "length (w_disk demo_stage_world) = 8" by (simp add: demo_stage_world_def)
  ultimately show ?thesis unfolding volume_sound_def swap_movable by (simp add: one swap_clusters swap_bits)
qed

theorem ntfs_workspace_preserves_witness:
  "\<exists>db db1 w1 db2 w3. keys_of db = [(1, 2, 5), (2, 1, 6)] \<and>
     ntfs_stage_workspace ref_env demo_stage_services demo_access 1 None 8 db demo_stage_world = (Inr (Some db1), w1) \<and>
     ntfs_place_workspace ref_env demo_stage_services demo_access 1 None 8 True db1 (w1\<lparr>w_stop := None\<rparr>) = (Inr (Some db2), w3) \<and>
     (\<exists>p :: NtfsPlacement. pm_record_number p = 31 \<and> read_at (pm_start p) (pm_clusters p) (w_disk w3) = [12, 11])"
proof -
  obtain vec db where planned: "workspace_planned ref_env demo_stage_services demo_stage_volume (w_disk demo_stage_world) swap_layout
      swap_catalogue False 8 vec db" and keys: "keys_of db = [(1, 2, 5), (2, 1, 6)]"
    using swap_workspace by blast
  have stop: "w_stop demo_stage_world = None" by (simp add: demo_stage_world_def)
  obtain db1 w1 where stage: "ntfs_stage_workspace ref_env demo_stage_services demo_access 1 None 8 db demo_stage_world = (Inr (Some db1), w1)"
    and place: "\<And>w2. settled 1 swap_catalogue db w1 w2 \<and> w_stop w2 = None \<Longrightarrow>
      \<exists>db2 w3. ntfs_place_workspace ref_env demo_stage_services demo_access 1 None 8 True db1 w2 = (Inr (Some db2), w3) \<and>
        (\<forall>s \<in> set (movable_streams swap_catalogue). \<exists>p \<in> set (pv_items vec).
          pm_record_number p = ns_record_number s \<and> pm_attribute_offset p = ns_attribute_offset s \<and>
          read_at (pm_start p * 1) (pm_clusters p * 1) (w_disk w3) = stream_data (w_disk demo_stage_world) 1 (ns_runs s))"
    using ntfs_workspace_preserves [OF planned swap_sound checked_ok_ref checked64_ok_ref io_reliable_ref demo_sql demo_digests
      demo_granted demo_granted stop] by metis
  have "settled 1 swap_catalogue db w1 (w1\<lparr>w_stop := None\<rparr>)" by (simp add: settled_def)
  from place [OF conjI [OF this]] obtain db2 w3 where
    w3: "ntfs_place_workspace ref_env demo_stage_services demo_access 1 None 8 True db1 (w1\<lparr>w_stop := None\<rparr>) = (Inr (Some db2), w3)"
    "\<forall>s \<in> set swap_streams. \<exists>p \<in> set (pv_items vec). pm_record_number p = ns_record_number s \<and> pm_attribute_offset p = ns_attribute_offset s \<and>
      read_at (pm_start p) (pm_clusters p) (w_disk w3) = stream_data (w_disk demo_stage_world) 1 (ns_runs s)"
    unfolding swap_movable by auto
  have "stream_data (w_disk demo_stage_world) 1 (ns_runs (hd swap_streams)) = [12, 11]"
    by (simp add: swap_streams_def demo_plan_stream_def stream_data_def run_data_def read_at_def demo_stage_world_def numeral_eq_Suc)
  moreover have "ns_record_number (hd swap_streams) = 31" "hd swap_streams \<in> set swap_streams"
    by (simp_all add: swap_streams_def demo_plan_stream_def)
  ultimately have "\<exists>p :: NtfsPlacement. pm_record_number p = 31 \<and> read_at (pm_start p) (pm_clusters p) (w_disk w3) = [12, 11]"
    using bspec [OF w3(2), of "hd swap_streams"] by (auto intro: exI)
  then show ?thesis using keys stage w3(1) by blast
qed


end
