(* ===== verification/NtfsMain.thy ===== *)
theory NtfsMain
  imports NtfsWorker
begin

text \<open>
  The operations of \<open>ntfs_worker.c\<close> as a whole: the relayout with its fallback through a
  working image, the recovery, the analysis and the command line.
\<close>

section \<open>The relayout through a working image\<close>

definition stage_io :: "'a io \<Rightarrow> 'a nio" where
  "stage_io = on_stage ''cannot resolve NTFS target''"

text \<open>
  Everything before the source is changed: clone, plan, permute, commit to the image, verify
  it, and mark the source. \<open>Inl\<close> is an end without a change; the caller cleans up after an error.
\<close>

definition arrange_image ::
  "env \<Rightarrow> services \<Rightarrow> (nat \<Rightarrow> Answers) \<Rightarrow> bool \<Rightarrow> string \<Rightarrow> NtfsJournal \<Rightarrow> PlanDb \<Rightarrow> nat \<Rightarrow>
   (outcome + NtfsJournal \<times> PlanDb) nio" where
  "arrange_image E Q A growth path j db cluster_size =
     bindN (on_source (journal_phase E path ''arranging'' j)) (\<lambda>j.
     bindN (askN A id) (\<lambda>a.
     bindN (tryN (on_stage ''cannot open NTFS stage for relocation''
       (ntfs_permute_stage E Q (an_stage_open a) cluster_size (nj_move_clusters j) db))) (\<lambda>permuted.
     case permuted of
       Inl message \<Rightarrow>
         bindN stopN (\<lambda>stop.
         if stop then bindN (stopped_unchanged E path j) (\<lambda>r. retN (Inl r)) else dieN (Fail message))
     | Inr db \<Rightarrow>
         thenN (put_plan (Some db))
        (thenN (stage_io (ntfs_apply_stage_metadata E Q
           \<lparr>tg_probe = an_stage_probe a, tg_status = None, tg_size = None\<rparr> False None db))
        (bindN (on_source (journal_phase E path ''verifying-stage'' j)) (\<lambda>j.
         thenN (stage_io (readI (ntfs_verify_stage E Q (an_stage_probe a) growth False db)))
        (bindN stopN (\<lambda>stop.
         if stop then bindN (stopped_unchanged E path j) (\<lambda>r. retN (Inl r))
         else
           thenN (check_unchanged_target E A j)
          (thenN (set_source_dirty E A j True)
          (retN (Inr (j\<lparr>nj_commit_cluster := 0\<rparr>, db))))))))))))"

definition prepare_image ::
  "env \<Rightarrow> services \<Rightarrow> (nat \<Rightarrow> Answers) \<Rightarrow> bool \<Rightarrow> string \<Rightarrow> NtfsJournal \<Rightarrow> NtfsVolume \<Rightarrow> NtfsLayout \<Rightarrow>
   (outcome + NtfsJournal \<times> PlanDb) nio" where
  "prepare_image E Q A growth path j v layout =
     thenN (capacity_preflight E A v layout)
    (thenN (on_source (journal_save E path j))
    (bindN stopN (\<lambda>stop.
     if stop then bindN (stopped_unchanged E path j) (\<lambda>r. retN (Inl r))
     else
       bindN (on_source (journal_phase E path ''cloning'' j)) (\<lambda>j.
       bindN (tryN (create_stage E A (nj_stage j) v layout)) (\<lambda>cloned.
       bindN (if cloned = Inr False then retN True else stopN) (\<lambda>stop.
       if stop then bindN (stopped_unchanged E path j) (\<lambda>r. retN (Inl r))
       else
         case cloned of
           Inl message \<Rightarrow> dieN (Fail message)
         | Inr _ \<Rightarrow>
           bindN (askN A an_stage_probe) (\<lambda>p.
           bindN (stage_io (readI (\<lambda>d. ntfs_open_volume E p d True))) (\<lambda>staged.
           bindN (stage_io (readI (\<lambda>d. ntfs_read_layout E staged d False))) (\<lambda>staged_layout.
           bindN (stage_io (readI (\<lambda>d. ntfs_scan_catalogue E staged d staged_layout))) (\<lambda>catalogue.
           bindN (on_source (journal_phase E path ''planning'' j)) (\<lambda>j.
           bindN (tryN (liftN (ntfs_plan_layout E staged_layout catalogue (nv_total_clusters staged) growth))) (\<lambda>plan.
           case plan of
             Inl message \<Rightarrow>
               if layout_satisfied growth catalogue message
               then bindN (not_needed E path j) (\<lambda>r. retN (Inl r)) else dieN (Fail message)
           | Inr (final, placements) \<Rightarrow>
               bindN (stage_io (readI (\<lambda>d.
                 ntfs_create_plan_db E Q staged d final catalogue (pv_items placements) growth))) (\<lambda>db.
               thenN (put_plan (Some db))
              (bindN (liftN (plan_moves Q db)) (\<lambda>moves.
               arrange_image E Q A growth path (j\<lparr>nj_move_clusters := moves\<rparr>) db (nv_cluster_size staged))))))))))))))))"

text \<open>From here on the source is changed; image, plan and journal are kept after an error.\<close>

definition commit_image ::
  "env \<Rightarrow> services \<Rightarrow> (nat \<Rightarrow> Answers) \<Rightarrow> bool \<Rightarrow> string \<Rightarrow> NtfsJournal \<Rightarrow> PlanDb \<Rightarrow> outcome nio" where
  "commit_image E Q A growth path j db =
     bindN (on_source (journal_phase E path ''commit'' j)) (\<lambda>j.
     bindN (commit_stage E A path 0 j) (\<lambda>j.
     bindN (on_source (journal_phase E path ''verifying-source'' j)) (\<lambda>j.
     thenN (verify_source E Q A growth db)
    (thenN (set_source_dirty E A j False)
    (thenN (transaction_cleanup E path j)
    (bindN stopN (\<lambda>stop. retN (if stop then StoppedRun else Completed))))))))"

definition image_relayout ::
  "env \<Rightarrow> services \<Rightarrow> (nat \<Rightarrow> Answers) \<Rightarrow> bool \<Rightarrow> string \<Rightarrow> NtfsJournal \<Rightarrow> NtfsVolume \<Rightarrow> NtfsLayout \<Rightarrow> outcome nio" where
  "image_relayout E Q A growth path j v layout =
     bindN (catchN (prepare_image E Q A growth path j v layout)
       (\<lambda>message. thenN (transaction_cleanup E path j) (dieN (Fail message)))) (\<lambda>prepared.
     case prepared of
       Inl r \<Rightarrow> retN r
     | Inr (j, db) \<Rightarrow> commit_image E Q A growth path j db)"

definition not_mounted :: "(nat \<Rightarrow> Answers) \<Rightarrow> string \<Rightarrow> unit nio" where
  "not_mounted A message =
     bindN (askN A an_mounted) (\<lambda>answer.
     bindN (liftN answer) (\<lambda>mounted. if mounted then dieN (Fail message) else retN ()))"

definition build_and_commit ::
  "env \<Rightarrow> services \<Rightarrow> (nat \<Rightarrow> Answers) \<Rightarrow> string \<Rightarrow> string \<Rightarrow> outcome nio" where
  "build_and_commit E Q A operation path =
     (let growth = (operation = ''growth-defrag'') in
      thenN (not_mounted A ''NTFS target is mounted; raw mutation requires an unmounted filesystem'')
     (bindN (canonical_path A) (\<lambda>real.
      bindN (identify_target A) (\<lambda>(identity, physical).
      bindN (open_source E A False) (\<lambda>v.
      bindN (on_source (readI (\<lambda>d. ntfs_read_layout E v d False))) (\<lambda>layout.
      bindN (on_source (readI (\<lambda>d. ntfs_scan_catalogue E v d layout))) (\<lambda>catalogue.
      if nc_malformed_records catalogue \<noteq> 0 then dieN (Fail ''NTFS contains malformed MFT records; refusing mutation'')
      else if nc_hibernation_active catalogue
      then dieN (Fail ''NTFS hibernation image is active; resume and shut down Windows fully first'')
      else
        bindN (liftN (ld_path_append_suffix E path ''.ntfs-stage.img'')) (\<lambda>stage.
        bindN (liftN (ld_path_append_suffix E path ''.ntfs-plan.sqlite'')) (\<lambda>plan.
        let j = blank_journal\<lparr>nj_device := Some real, nj_target_identity := Some identity,
                  nj_serial := serial_hex (nv_serial v), nj_operation := take 23 operation, nj_phase := ''prepared'',
                  nj_stage := Some stage, nj_plan := Some plan, nj_physical_bytes := physical,
                  nj_filesystem_bytes := nv_volume_bytes v\<rparr> in
        bindN (try_terminal_workspace_relayout E Q A growth path j v layout catalogue) (\<lambda>r.
        case r of
          Some result \<Rightarrow> retN result
        | None \<Rightarrow> image_relayout E Q A growth path j v layout))))))))))"

section \<open>Recovery\<close>

datatype recovery = Recovered | Discarded

definition open_plan :: "(nat \<Rightarrow> Answers) \<Rightarrow> PlanDb nio" where
  "open_plan A =
     bindN (askN A an_plan_open) (\<lambda>opened.
     bindN (getN nh_plan) (\<lambda>plan.
     case plan of
       None \<Rightarrow> dieN (sql_error ''opening NTFS plan database'')
     | Some db \<Rightarrow> if opened then retN db else dieN (sql_error ''opening NTFS plan database'')))"

definition derived_artifact :: "env \<Rightarrow> string option \<Rightarrow> string \<Rightarrow> string \<Rightarrow> bool" where
  "derived_artifact E artifact path suffix \<longleftrightarrow>
     (case artifact of None \<Rightarrow> False | Some p \<Rightarrow> ld_path_is_derived_from E p path suffix)"

definition recover_metadata ::
  "env \<Rightarrow> services \<Rightarrow> (nat \<Rightarrow> Answers) \<Rightarrow> bool \<Rightarrow> string \<Rightarrow> NtfsJournal \<Rightarrow> recovery nio" where
  "recover_metadata E Q A growth path j =
     bindN (open_plan A) (\<lambda>db.
     thenN (set_source_dirty E A j True)
    (bindN (on_source (journal_phase E path ''direct-metadata'' j)) (\<lambda>j.
     thenN (finish_metadata E Q A growth path ''direct-verifying-source'' j db) (retN Recovered))))"

definition recover_workspace ::
  "env \<Rightarrow> services \<Rightarrow> (nat \<Rightarrow> Answers) \<Rightarrow> bool \<Rightarrow> string \<Rightarrow> NtfsJournal \<Rightarrow> recovery nio" where
  "recover_workspace E Q A growth path j =
     (if nj_workspace_start j = 0 \<or> nj_workspace_clusters j \<noteq> nj_move_clusters j
      then dieN (Fail ''NTFS recovery journal has invalid terminal-workspace geometry'')
      else if nj_phase j = ''workspace-staging'' then thenN (transaction_cleanup E path j) (retN Discarded)
      else
        bindN (open_plan A) (\<lambda>db.
        bindN (open_source E A False) (\<lambda>v.
        thenN (check_rows E Q A (nv_cluster_size v) j db)
       (thenN (set_source_dirty E A j True)
       (bindN (on_source (journal_phase E path ''workspace-placing'' j)) (\<lambda>j.
        bindN (place_rows E Q A (nv_cluster_size v) j False db) (\<lambda>placed.
        if placed = None then dieN (Fail [])
        else
          bindN (on_source (journal_phase E path ''workspace-metadata'' j)) (\<lambda>j.
          thenN (finish_metadata E Q A growth path ''workspace-verifying-source'' j db) (retN Recovered)))))))))"

definition recover_image ::
  "env \<Rightarrow> services \<Rightarrow> (nat \<Rightarrow> Answers) \<Rightarrow> bool \<Rightarrow> string \<Rightarrow> NtfsJournal \<Rightarrow> recovery nio" where
  "recover_image E Q A growth path j =
     bindN (askN A id) (\<lambda>a.
     bindN (getN nh_stage) (\<lambda>image.
     if (case image of
           None \<Rightarrow> True
         | Some s \<Rightarrow> \<not> an_stage_regular a \<or> length (w_disk s) < nj_filesystem_bytes j)
     then dieN (Fail ''the persistent NTFS working image is missing or truncated'')
     else
       bindN (open_plan A) (\<lambda>db.
       thenN (stage_io (readI (ntfs_verify_stage E Q (an_stage_probe a) growth False db)))
      (bindN (stage_io (readI (\<lambda>d. ntfs_open_volume E (an_stage_probe a) d False))) (\<lambda>staged.
       if \<not> same_serial staged (nj_serial j) then dieN (Fail ''persistent NTFS working image has the wrong serial'')
       else
         bindN (if nj_phase j = ''commit'' \<and> nj_commit_cluster j < nv_total_clusters staged
                then commit_stage E A path (nj_commit_cluster j) j else retN j) (\<lambda>j.
         bindN (on_source (journal_phase E path ''verifying-source'' j)) (\<lambda>j.
         thenN (verify_source E Q A growth db)
        (thenN (set_source_dirty E A j False)
        (thenN (transaction_cleanup E path j) (retN Recovered))))))))))"

definition recover_transaction :: "env \<Rightarrow> services \<Rightarrow> (nat \<Rightarrow> Answers) \<Rightarrow> string \<Rightarrow> recovery nio" where
  "recover_transaction E Q A path =
     thenN (not_mounted A ''NTFS target is mounted; raw recovery requires an unmounted filesystem'')
    (bindN (on_source (journal_load E path)) (\<lambda>j.
     if \<not> derived_artifact E (nj_stage j) path ''.ntfs-stage.img'' \<or>
        \<not> derived_artifact E (nj_plan j) path ''.ntfs-plan.sqlite''
     then dieN (Fail ''NTFS recovery artifacts are not derived from the selected journal path'')
     else
       bindN (canonical_path A) (\<lambda>real.
       bindN (identify_target A) (\<lambda>(identity, physical).
       if Some real \<noteq> nj_device j \<or> Some identity \<noteq> nj_target_identity j \<or> physical \<noteq> nj_physical_bytes j
       then dieN (Fail ''recovery journal belongs to a different NTFS target'')
       else
         let growth = (nj_operation j = ''growth-defrag'') in
         if nj_phase j = ''direct-metadata'' \<or> nj_phase j = ''direct-verifying-source''
         then recover_metadata E Q A growth path j
         else if nj_workspace_clusters j \<noteq> 0 \<and> string_starts_with E (nj_phase j) ''workspace-''
         then recover_workspace E Q A growth path j
         else if nj_phase j \<noteq> ''commit'' \<and> nj_phase j \<noteq> ''verifying-source''
         then thenN (transaction_cleanup E path j) (retN Discarded)
         else recover_image E Q A growth path j))))"

section \<open>Analysis\<close>

definition json_range :: "nat \<times> nat \<Rightarrow> string" where
  "json_range = (\<lambda>(start, finish). ''['' @ dec start @ '','' @ dec finish @ '']'')"

definition json_ranges :: "(nat \<times> nat) list \<Rightarrow> string" where
  "json_ranges ranges =
     ''['' @ concat (map (\<lambda>(i, r). (if i = 0 then [] else '','') @ json_range r) (enumerate 0 ranges)) @ '']''"

text \<open>The maximal ranges of clusters whose bit is as wanted.\<close>

definition range_step ::
  "NtfsLayout \<Rightarrow> bool \<Rightarrow> nat \<Rightarrow> (nat \<times> nat) list \<times> nat option \<Rightarrow> (nat \<times> nat) list \<times> nat option" where
  "range_step layout want_free c = (\<lambda>(ranges, active).
     let matches = ((\<not> ntfs_bitmap_bit layout c) = want_free) in
     case active of
       None \<Rightarrow> (ranges, if matches then Some c else None)
     | Some start \<Rightarrow> if matches then (ranges, active) else (ranges @ [(start, c)], None))"

definition bitmap_ranges :: "NtfsLayout \<Rightarrow> nat \<Rightarrow> bool \<Rightarrow> (nat \<times> nat) list" where
  "bitmap_ranges layout n want_free =
     (case fold (range_step layout want_free) [0..<n] ([], None) of
        (ranges, None) \<Rightarrow> ranges
      | (ranges, Some start) \<Rightarrow> ranges @ [(start, n)])"

definition emit_bitmap_ranges :: "NtfsLayout \<Rightarrow> nat \<Rightarrow> bool \<Rightarrow> string" where
  "emit_bitmap_ranges layout n want_free = json_ranges (bitmap_ranges layout n want_free)"

definition stream_ranges :: "NtfsCatalogue \<Rightarrow> bool \<Rightarrow> bool \<Rightarrow> (nat \<times> nat) list" where
  "stream_ranges catalogue directories fragmented_only =
     concat (map (\<lambda>s.
       if ns_directory s \<noteq> directories \<or> (fragmented_only \<and> ntfs_fragment_count (ns_runs s) \<le> 1) then []
       else map (\<lambda>r. (nr_lcn r, u64 (nr_lcn r + nr_length r)))
         (filter (\<lambda>r. \<not> nr_sparse r \<and> nr_length r \<noteq> 0) (ns_runs s))) (nc_items catalogue))"

definition emit_stream_ranges :: "NtfsCatalogue \<Rightarrow> bool \<Rightarrow> bool \<Rightarrow> string" where
  "emit_stream_ranges catalogue directories fragmented_only = json_ranges (stream_ranges catalogue directories fragmented_only)"

definition json_bool :: "bool \<Rightarrow> string" where
  "json_bool b = (if b then ''true'' else ''false'')"

text \<open>\<open>percent_text\<close>: the percentage with six digits after the point.\<close>

definition analysis_text :: "env \<Rightarrow> (nat \<Rightarrow> nat \<Rightarrow> string) \<Rightarrow> NtfsVolume \<Rightarrow> NtfsLayout \<Rightarrow> NtfsCatalogue \<Rightarrow> string" where
  "analysis_text E percent_text v layout c =
     ''{'' @ json_quoted ''filesystem'' @ '':'' @ json_quoted ''ntfs'' @ '','' @
     json_pair ''cluster_size'' (nv_cluster_size v) @ '','' @ json_pair ''total_clusters'' (nv_total_clusters v) @ '','' @
     json_quoted ''serial'' @ '':'' @ json_quoted (serial_hex (nv_serial v)) @ '','' @
     json_pair ''mft_records_scanned'' (nc_records_scanned c) @ '','' @
     json_pair ''mft_malformed_records'' (nc_malformed_records c) @ '','' @
     json_pair ''regular_files'' (nc_regular_files c) @ '','' @ json_pair ''directories'' (nc_directories c) @ '','' @
     json_pair ''fragmented_files'' (nc_fragmented_files c) @ '','' @
     json_pair ''fragmented_directories'' (nc_fragmented_directories c) @ '','' @
     json_quoted ''fragmentation_percent'' @ '':'' @ percent_text (nc_fragmented_files c) (nc_regular_files c) @ '','' @
     json_quoted ''growth_10_satisfied'' @ '':'' @ json_bool (nc_growth_10_satisfied c) @ '','' @
     json_quoted ''hibernation_active'' @ '':'' @ json_bool (nc_hibernation_active c) @ '','' @
     json_quoted ''free_ranges'' @ '':'' @ emit_bitmap_ranges layout (nv_total_clusters v) True @ '','' @
     json_quoted ''fragmented_ranges'' @ '':'' @ emit_stream_ranges c False True @ '','' @
     json_quoted ''directory_ranges'' @ '':'' @ emit_stream_ranges c True False @ ''}'' @ [NL]"

definition analyse_json :: "env \<Rightarrow> (nat \<Rightarrow> Answers) \<Rightarrow> (nat \<Rightarrow> nat \<Rightarrow> string) \<Rightarrow> string nio" where
  "analyse_json E A percent_text =
     bindN (open_source E A False) (\<lambda>v.
     bindN (on_source (readI (\<lambda>d. ntfs_read_layout E v d True))) (\<lambda>layout.
     bindN (on_source (readI (\<lambda>d. ntfs_scan_catalogue E v d layout))) (\<lambda>catalogue.
     retN (analysis_text E percent_text v layout catalogue))))"

section \<open>The command line\<close>

record NtfsOptions =
  no_write :: bool
  no_live_updates :: bool
  no_confirm :: "string option"
  no_journal :: "string option"
  no_growth_percent :: nat

definition ntfs_default_options :: NtfsOptions where
  "ntfs_default_options =
     \<lparr>no_write = False, no_live_updates = False, no_confirm = None, no_journal = None, no_growth_percent = 10\<rparr>"

text \<open>\<open>None\<close> is the exit with status 2.\<close>

fun ntfs_parse_options :: "env \<Rightarrow> string list \<Rightarrow> NtfsOptions \<Rightarrow> NtfsOptions option" where
  "ntfs_parse_options E [] o' = Some o'"
| "ntfs_parse_options E (arg # rest) o' =
     (if arg = ''--write'' then ntfs_parse_options E rest (o'\<lparr>no_write := True\<rparr>)
      else if arg = ''--live-updates'' then ntfs_parse_options E rest (o'\<lparr>no_live_updates := True\<rparr>)
      else
        case rest of
          [] \<Rightarrow> None
        | v # rest' \<Rightarrow>
          if arg = ''--confirm'' then ntfs_parse_options E rest' (o'\<lparr>no_confirm := Some v\<rparr>)
          else if arg = ''--journal'' then ntfs_parse_options E rest' (o'\<lparr>no_journal := Some v\<rparr>)
          else if arg = ''--growth-percent'' then
            (case parse_u64 E v 10 of
               None \<Rightarrow> None
             | Some n \<Rightarrow> if n > 100 then None else ntfs_parse_options E rest' (o'\<lparr>no_growth_percent := n\<rparr>))
          else if arg = ''--live-map-cells'' then
            (case parse_u64 E v 10 of
               None \<Rightarrow> None
             | Some n \<Rightarrow> ntfs_parse_options E rest' (o'\<lparr>no_live_updates := n > 0\<rparr>))
          else if arg = ''--workers'' \<or> arg = ''--ram-buffer'' \<or> arg = ''--batch-clusters''
          then ntfs_parse_options E rest' o'
          else None)"

definition exit_status :: "outcome \<Rightarrow> nat" where
  "exit_status r = (if r = StoppedRun then 130 else 0)"

definition outcome_name :: "outcome \<Rightarrow> string" where
  "outcome_name r = (case r of Completed \<Rightarrow> ''completed'' | NotNeeded \<Rightarrow> ''not-needed'' | StoppedRun \<Rightarrow> ''stopped'')"

definition failed_event :: "env \<Rightarrow> string \<Rightarrow> string \<Rightarrow> string" where
  "failed_event E operation message =
     (case ld_emit_result_event E operation ''failed'' message of None \<Rightarrow> [] | Some text \<Rightarrow> text)"

definition ntfs_mutate ::
  "env \<Rightarrow> services \<Rightarrow> (nat \<Rightarrow> Answers) \<Rightarrow> string \<Rightarrow> string \<Rightarrow> (nat \<times> string) nio" where
  "ntfs_mutate E Q A operation journal =
     bindN (tryN
       (if operation = ''recover'' then
          bindN (recover_transaction E Q A journal) (\<lambda>r.
          retN (0, if r = Recovered then result_event E ''recover'' ''completed'' else []))
        else
          bindN (on_source (path_exists journal)) (\<lambda>unfinished.
          if unfinished then dieN (Fail ''an unfinished NTFS journal exists; run Recover first'')
          else
            bindN (build_and_commit E Q A operation journal) (\<lambda>r.
            retN (exit_status r, result_event E operation (outcome_name r)))))) (\<lambda>r.
     case r of
       Inl message \<Rightarrow> retN (1, failed_event E operation message)
     | Inr result \<Rightarrow> retN result)"

text \<open>The exit status and what is written to standard output.\<close>

definition ntfs_main ::
  "env \<Rightarrow> services \<Rightarrow> (nat \<Rightarrow> Answers) \<Rightarrow> (nat \<Rightarrow> nat \<Rightarrow> string) \<Rightarrow> string \<Rightarrow> string \<Rightarrow> string list \<Rightarrow> (nat \<times> string) nio" where
  "ntfs_main E Q A percent_text usage version args =
     (case args of
        [] \<Rightarrow> retN (2, [])
      | [option] \<Rightarrow>
          if option = ''--help'' \<or> option = ''-h'' then retN (0, usage)
          else if option = ''--version'' then retN (0, version @ [NL]) else retN (2, [])
      | operation # device # rest \<Rightarrow>
          if operation = ''identify'' then
            bindN (tryN (open_source E A False)) (\<lambda>r.
            retN (case r of
                Inl _ \<Rightarrow> (1, [])
              | Inr _ \<Rightarrow> (0, ''{'' @ json_quoted ''filesystem'' @ '':'' @ json_quoted ''ntfs'' @ ''}'' @ [NL])))
          else if operation = ''analyse-json'' then
            bindN (tryN (analyse_json E A percent_text)) (\<lambda>r.
            retN (case r of Inl _ \<Rightarrow> (1, []) | Inr text \<Rightarrow> (0, text)))
          else if operation \<noteq> ''defrag'' \<and> operation \<noteq> ''growth-defrag'' \<and> operation \<noteq> ''recover'' then retN (2, [])
          else
            case ntfs_parse_options E rest ntfs_default_options of
              None \<Rightarrow> retN (2, [])
            | Some o' \<Rightarrow>
                case no_journal o' of
                  None \<Rightarrow> retN (2, [])
                | Some journal \<Rightarrow>
                    if \<not> no_write o' \<or> no_confirm o' \<noteq> Some device then retN (2, [])
                    else if operation = ''growth-defrag'' \<and> no_growth_percent o' \<noteq> 10 then retN (2, [])
                    else ntfs_mutate E Q A operation journal)"

end
