(* ===== verification/Spec2Isabelle.thy ===== *)
theory Spec2Isabelle
  imports FatVolumeProps FatScanProps FatPlanProps FatCopyProps FatJournalProps FatTransactionProps
    FatMainProps LdDeviceProps NtfsProps NtfsPlanProps NtfsWorkspaceProps
    NtfsMain
begin

text \<open>
  A verification development of the Defragmenter: its FAT engine, its NTFS engine, and the core library the engines share.

  \<^bold>\<open>The program.\<close> The repository is an offline defragmenter. A GUI starts one native worker
  per file system; a worker opens an unmounted block device or image, analyses the volume,
  and rewrites it in journaled transactions. All paths below are under
  \<open>src/defragger/\<close>: \<open>src/core/\<close> is the shared library (exact I/O, stop flag, target
  identity, trusted directories, result events), \<open>gui/filesystems/fat/native/\<close> is the FAT
  worker. The FAT worker loads the geometry and the table (\<open>fat_volume.c\<close>), reads the
  directory tree into a catalogue (\<open>fat_directory.c\<close>), plans a canonical layout
  (\<open>fat_relayout.c\<close>), and lets the schedulers of \<open>writer.c\<close> move objects in batches; a
  batch is a relocation transaction (\<open>fat_relocation.c\<close>) that copies clusters
  (\<open>fat_io.c\<close>), switches table, directory entries and root, and is recoverable from its
  journal (\<open>fat_journal.c\<close>); \<open>fat_analysis.c\<close> counts, draws maps and checks the result. The NTFS
  engine in \<open>gui/filesystems/ntfs/native/\<close> reads the master file table (\<open>ntfs_common.c\<close>:
  run lists, update-sequence fixups, metadata streams, attributes, the bitmap and the dirty
  flag), scans it into a catalogue of streams (\<open>ntfs_catalog.c\<close>) and plans a layout that
  fills the lowest free runs with the best-fitting subsets of streams (\<open>ntfs_plan.c\<close>); its worker
  (\<open>ntfs_worker.c\<close>) moves the clusters there in a journaled transaction, either through free
  clusters at the end of the volume that hold a copy of every moved cluster, or in a sparse
  image of the volume that is committed when it has been verified.

  \<^bold>\<open>State.\<close> A \<open>world\<close> (theory Environment) is the bytes of the target, the host files (the
  journals), the countdown of a stop request and the trace of effects (writes, syncs,
  file replacements, removals). A mounted volume is the record \<open>Fat32\<close> with the fields of
  the C struct: geometry, the table in memory and the scratch arrays. \<open>ld_die\<close> and
  \<open>exit\<close> are \<open>Inl\<close> results; an access the C code makes without a bound is the error
  \<open>MemFault\<close>. An NTFS function that sets a message and returns \<open>-1\<close> is \<open>Inl (Fail message)\<close>;
  a volume is a \<open>NtfsVolume\<close>, its allocation metadata a \<open>NtfsLayout\<close>. The state of the NTFS worker
  is the record \<open>NtfsHost\<close>: the target and the host files as a world, the working image and the
  plan database when they exist. What the system answers to the worker (\<open>Answers\<close>) is a function
  of the moment, counted in durable effects. Integers are natural numbers with the wrap-around of their C width written
  out (\<open>u8\<close>, \<open>u16\<close>, \<open>u32\<close>, \<open>u64\<close>, \<open>sub32\<close>, \<open>sub64\<close>, \<open>int32\<close>, \<open>int64\<close>); bytes are 8-bit words. Code that acts on the
  world is a function of type \<open>io\<close>; code with a loop whose end is not evident has type
  \<open>loop\<close>, where \<open>None\<close> is a run that never returns.

  \<^bold>\<open>External code.\<close> The library Infiltratr Common, a submodule that is not part of the
  repository, and the kernel are the record \<open>env\<close>: little-endian loads and stores, checked
  arithmetic, number and configuration parsing, positioned reads and writes, atomic file
  replacement, directory status. What is relied on is stated by the predicates
  \<open>endian_ok\<close>, \<open>endian64_ok\<close>, \<open>io_exact\<close>, \<open>io_reliable\<close>, \<open>reserve_ok\<close>, \<open>checked_ok\<close>,
  \<open>checked64_ok\<close>, \<open>strings_ok\<close>, \<open>journal_text_ok\<close> and \<open>basename_ok\<close>; RefEnv is a concrete environment that satisfies all
  of them and Demo a concrete volume, on which the witnesses run.

  \<^bold>\<open>Theories.\<close>
  \<^item> Prelude, Environment, Loops, TextFormat: results, the world, loops, \<open>printf\<close> texts,
    \<open>qsort\<close> with the contract of a comparison function as the locale \<open>comparator\<close>
    (interpreted on the comparison functions of both engines).
  \<^item> HostFiles: the host files and the line format of the journals.
  \<^item> LdCore, LdDevice: \<open>ld_io.c\<close>, \<open>ld_stop.c\<close>, \<open>ld_path.c\<close>; \<open>ld_device.c\<close>.
    LdDeviceProps: related devices, mount table, identity, verified open.
  \<^item> FatVolume with FatChain, FatCodec, FatTable and FatLoad: \<open>fat_volume.c\<close> and its lemmas
    on chains, the entry codec (a locale of byte-table operations), the agreement of memory
    and all copies on disk (\<open>synced\<close>), loading. FatVolumeProps: properties.
  \<^item> FatDirectory, FatNames, FatScan, FatScanProps: \<open>fat_directory.c\<close>.
  \<^item> FatRelayout, FatPlan, FatPlanProps: \<open>fat_relayout.c\<close>; \<open>fits\<close> is the abstract
    specification of a layout and \<open>plan_layout_eq\<close> shows the planner returns the earliest.
  \<^item> FatIo, FatCopy, FatCopyProps: \<open>fat_io.c\<close>; the reader pool is a step relation and every
    interleaving is shown to fill the buffer as a single reader does.
  \<^item> FatJournal, FatJournalProps: \<open>fat_journal.c\<close>, printing and parsing of journals.
  \<^item> FatRelocation: \<open>fat_relocation.c\<close>. FatRelocationMap: the map, the predecessors, the link
    updates, and that chains survive with renamed clusters. FatDirents: directory entries.
    FatTransaction: which region each stage may touch, and the state after a whole run.
    FatTransactionProps: properties, recovery included.
  \<^item> FatAnalysis: \<open>fat_analysis.c\<close>. FatPacking, FatAdaptive, FatWriter, FatMain: \<open>writer.c\<close>
    (workspace preparation, forward compaction, the unified workspace layout, the adaptive
    scheduler, the one-object fallback, the command line and \<open>main\<close>).
  \<^item> FatEffects: three locales, each extending the one before, of relations that the
    primitive effects keep; every operation of the engine keeps them too. They are
    interpreted for the growth of the trace, the stop countdown, pure writers and pure
    readers. FatMainProps: properties of \<open>writer.c\<close> as a whole.
  \<^item> NtfsCommon, NtfsRecords: \<open>ntfs_common.c\<close>. NtfsRuns, NtfsFixups, NtfsStreams: lemmas on
    mapping pairs (with the reference encoder \<open>mapping_pairs\<close>), on fixups (torn records) and on
    streams (\<open>stream_data\<close>, the bytes of the runs put together). NtfsCatalog:
    \<open>ntfs_catalog.c\<close>. NtfsPlan: the planner of \<open>ntfs_plan.c\<close>; NtfsBestFit: its subset table
    (\<open>reach\<close>); NtfsPlanLemmas: the bitmap as a set of clusters. NtfsProps: properties.
  \<^item> NtfsPlanSafe, NtfsPlanProps: a plan as a set of disjoint extents. NtfsStage: the plan
    database, permutation, terminal workspace, metadata commit and verification
    (\<open>ntfs_plan.c\<close>, \<open>ntfs_plan_db.cpp\<close>). NtfsPermute: the permutation as a relation on clusters
    (\<open>goes\<close>), whose chains and cycles all end in place. NtfsRelayout, NtfsRelayoutProps: the plan
    database of a plan, and planner, database and permutation together. NtfsWorkspace,
    NtfsWorkspaceProps: staging into, placing from and restoring from the terminal workspace.
  \<^item> NtfsJournal, NtfsWorker, NtfsMain: \<open>ntfs_worker.c\<close> - journal and identity; the working image,
    the commit and the terminal workspace; fallback, recovery, analysis and command line.

  \<^bold>\<open>Bounds.\<close> The directory walk descends 129 levels, the limit of the code; the related-device
  scan is bounded by the 1024 entries of the code's array; the journal parser consumes its
  input; the chain traversal ends because a cluster is marked at most once per traversal;
  the recovery of a selected subset takes at most as many steps as the sum has clusters; the
  permutation closes at most as many cycles as the plan has rows.
  The mirror comparison is a genuine partial function: it loops with 255 copies.

  \<^bold>\<open>Not modelled.\<close> Progress, timing, diagnostic and floating-point output; failing
  allocations and failing thread creation; the loop-device and mounted-image checks of
  \<open>ld_device.c\<close>, which are chains of ioctls; reading \<open>/proc\<close>; what the NTFS worker prints besides its analysis
  and the result events. SQLite itself is not: a table is a list of rows, a statement what its SQL text says, and
  whether SQLite carries out a step is a parameter, as is the digest of OpenSSL (\<open>services\<close>). Wholly outside: the workers of the other file
  systems, the C++ services, the Python GUI and the test-media tool, which
  the component list names one by one.
\<close>

end
